(* ===== verification/Prelude.thy ===== *)
theory Prelude
  imports Main "HOL-Library.Char_ord" "HOL-Library.List_Lexorder"
begin

text \<open>
  Shared vocabulary of the development.

  \<^item> Exceptions are values of \<open>py_error\<close> and a fallible operation returns
    \<open>'a result = py_error + 'a\<close>, with \<open>Inl\<close> for a raised exception.
  \<^item> Text that a user writes (query source, tag keys, set names) is a list of Unicode code
    points, \<open>pystr\<close>; \<open>lit\<close> turns an ASCII literal into one. Identifiers the program
    itself makes up (cell keys, relative paths, JSON keys) are ASCII and use \<open>string\<close>.
  \<^item> \<open>py_str_nat\<close> and \<open>py_str_int\<close> are \<open>str(n)\<close> on integers.
  \<^item> The list operations of numpy and of the standard library the sources call
    (\<open>searchsorted\<close>, \<open>clip\<close>, \<open>sorted(set(xs))\<close>) with their lemmas.
\<close>

section \<open>Exceptions and results\<close>

type_synonym pystr = "nat list"

datatype py_error =
    ParseError pystr "nat option" "nat option"
  | UnsupportedError pystr
  | RuntimeQueryError pystr
  | ValueError
  | OverflowError
  | IndexError
  | KeyError
  | TypeError
  | AttributeError
  | FileNotFoundError
  | OSError
  | RuntimeError
  | HTTPError
  | OutOfFuel

type_synonym 'a result = "py_error + 'a"

definition rbind :: "'a result \<Rightarrow> ('a \<Rightarrow> 'b result) \<Rightarrow> 'b result" where
  "rbind r f = (case r of Inl e \<Rightarrow> Inl e | Inr x \<Rightarrow> f x)"

fun rmap :: "('a \<Rightarrow> 'b result) \<Rightarrow> 'a list \<Rightarrow> 'b list result" where
  "rmap f [] = Inr []"
| "rmap f (x # xs) = rbind (f x) (\<lambda>y. rbind (rmap f xs) (\<lambda>ys. Inr (y # ys)))"

section \<open>Text\<close>

definition lit :: "string \<Rightarrow> pystr" where
  "lit s = map of_char s"

fun nat_digits :: "nat \<Rightarrow> nat list" where
  "nat_digits n = (if n < 10 then [n] else nat_digits (n div 10) @ [n mod 10])"

declare nat_digits.simps [simp del]

definition py_str_nat :: "nat \<Rightarrow> pystr" where
  "py_str_nat n = map (\<lambda>d. 48 + d) (nat_digits n)"

definition py_str_int :: "int \<Rightarrow> pystr" where
  "py_str_int i = (if i < 0 then 45 # py_str_nat (nat (- i)) else py_str_nat (nat i))"

section \<open>Sequence operations of numpy and the standard library\<close>

definition py_nth :: "'a list \<Rightarrow> int \<Rightarrow> 'a result" where
  "py_nth xs i =
     (if i < - int (length xs) \<or> int (length xs) \<le> i then Inl IndexError
      else Inr (xs ! nat (if i < 0 then int (length xs) + i else i)))"

definition searchsorted_right :: "'a::linorder list \<Rightarrow> 'a \<Rightarrow> nat" where
  "searchsorted_right xs q = length (takeWhile (\<lambda>x. x \<le> q) xs)"

definition searchsorted_left :: "'a::linorder list \<Rightarrow> 'a \<Rightarrow> nat" where
  "searchsorted_left xs q = length (takeWhile (\<lambda>x. x < q) xs)"

definition np_clip :: "int \<Rightarrow> int \<Rightarrow> int \<Rightarrow> int" where
  "np_clip x lo hi = min (max x lo) hi"

definition sorted_set :: "'a::linorder list \<Rightarrow> 'a list" where
  "sorted_set xs = sort (remdups xs)"

named_theorems result_simps
named_theorems py_defs

section \<open>Lemmas\<close>

lemma rbind_simps [simp, result_simps]:
  "rbind (Inl e) f = Inl e"
  "rbind (Inr x) f = f x"
  by (simp_all add: rbind_def)

lemma rbind_eq_Inr: "rbind r f = Inr y \<longleftrightarrow> (\<exists>x. r = Inr x \<and> f x = Inr y)"
  by (cases r) (auto simp: rbind_def)

lemma rbind_eq_Inl: "rbind r f = Inl e \<longleftrightarrow> r = Inl e \<or> (\<exists>x. r = Inr x \<and> f x = Inl e)"
  by (cases r) (auto simp: rbind_def)

lemma rmap_Inr: "(\<And>x. x \<in> set xs \<Longrightarrow> f x = Inr (g x)) \<Longrightarrow> rmap f xs = Inr (map g xs)"
  by (induction xs) auto

lemma rmap_eq_Inr_iff: "rmap f xs = Inr ys \<longleftrightarrow> list_all2 (\<lambda>x y. f x = Inr y) xs ys"
  by (induction xs arbitrary: ys) (auto simp: rbind_eq_Inr list_all2_Cons1)

lemma length_rmap: "rmap f xs = Inr ys \<Longrightarrow> length ys = length xs"
  by (induction xs arbitrary: ys) (auto simp: rbind_eq_Inr)

lemma inj_lit: "inj lit"
  by (rule injI) (simp add: lit_def map_injective inj_def of_char_eq_iff)

lemma lit_eq_iff [simp]: "lit a = lit b \<longleftrightarrow> a = b"
  using inj_lit by (auto dest: injD)

lemma lit_Nil [simp]: "lit [] = []"
  by (simp add: lit_def)

lemma lit_eq_Nil [simp]: "lit a = [] \<longleftrightarrow> a = []"
  by (simp add: lit_def)

lemma nat_digits_less: "d \<in> set (nat_digits n) \<Longrightarrow> d < 10"
proof (induction n rule: nat_digits.induct)
  case (1 n)
  then show ?case
    by (subst (asm) nat_digits.simps) (auto split: if_splits)
qed

lemma nat_digits_nonempty [simp]: "nat_digits n \<noteq> []"
  by (subst nat_digits.simps) simp

lemma nat_digits_value: "foldl (\<lambda>v d. v * 10 + d) 0 (nat_digits n) = n"
proof (induction n rule: nat_digits.induct)
  case (1 n)
  then show ?case
    by (cases "n < 10") (simp_all add: nat_digits.simps [of n])
qed

lemma py_str_nat_inj: "py_str_nat a = py_str_nat b \<longleftrightarrow> a = b"
proof
  assume "py_str_nat a = py_str_nat b"
  then have "nat_digits a = nat_digits b"
    by (simp add: py_str_nat_def inj_map_eq_map inj_def)
  then show "a = b"
    by (metis nat_digits_value)
qed simp

lemma set_sorted_set [simp]: "set (sorted_set xs) = set xs"
  by (simp add: sorted_set_def)

lemma sorted_sorted_set [simp]: "sorted (sorted_set xs)"
  by (simp add: sorted_set_def)

lemma distinct_sorted_set [simp]: "distinct (sorted_set xs)"
  by (simp add: sorted_set_def)

lemma searchsorted_right_le [simp]: "searchsorted_right xs q \<le> length xs"
  by (simp add: searchsorted_right_def length_takeWhile_le)

text \<open>On a sorted list, \<open>searchsorted(..., "right")\<close> splits it at the query.\<close>

lemma searchsorted_right_below:
  "i < searchsorted_right xs q \<Longrightarrow> xs ! i \<le> q"
  unfolding searchsorted_right_def
  using nth_mem set_takeWhileD takeWhile_nth by metis

lemma searchsorted_right_above:
  assumes "sorted xs" and "searchsorted_right xs q \<le> i" and "i < length xs"
  shows "q < xs ! i"
proof -
  let ?k = "searchsorted_right xs q"
  have k: "?k < length xs" using assms by simp
  then have "\<not> xs ! ?k \<le> q"
    using nth_length_takeWhile [of "\<lambda>x. x \<le> q" xs] by (simp add: searchsorted_right_def)
  moreover have "xs ! ?k \<le> xs ! i"
    using assms by (simp add: sorted_iff_nth_mono)
  ultimately show ?thesis by simp
qed

lemma np_clip_bounds: "lo \<le> hi \<Longrightarrow> lo \<le> np_clip x lo hi \<and> np_clip x lo hi \<le> hi"
  by (simp add: np_clip_def)

lemma np_clip_id: "lo \<le> x \<Longrightarrow> x \<le> hi \<Longrightarrow> np_clip x lo hi = x"
  by (simp add: np_clip_def)

lemma np_clip_mono: "x \<le> y \<Longrightarrow> np_clip x lo hi \<le> np_clip y lo hi"
  by (simp add: np_clip_def)

lemma py_nth_Inr: "0 \<le> i \<Longrightarrow> i < int (length xs) \<Longrightarrow> py_nth xs i = Inr (xs ! nat i)"
  by (simp add: py_nth_def)

end
