(* ===== verification/PyFloat.thy ===== *)
theory PyFloat
  imports Prelude Complex_Main "HOL-Library.Log_Nat"
begin

text \<open>
  IEEE-754 binary64 arithmetic as the Python \<open>float\<close> type performs it. A finite double is
  the rational number it denotes (the two zeros are the same number); \<open>fl\<close> rounds a rational to
  the nearest double, ties to even, with gradual underflow, and each operation rounds the exact
  result once. The lemmas are the ones the layout code relies on: \<open>fl\<close> is monotone, leaves
  doubles alone, and has a relative error of at most half a unit in the last place.
\<close>

section \<open>Rounding\<close>

definition rne :: "rat \<Rightarrow> int" where
  "rne x =
     (let f = \<lfloor>x\<rfloor>; r = x - of_int f
      in if r < 1 / 2 then f else if 1 / 2 < r then f + 1 else if even f then f else f + 1)"

definition ilog2 :: "rat \<Rightarrow> int" where
  "ilog2 x =
     (let (a, b) = quotient_of x; k = bitlen a - bitlen b
      in if 2 powi k \<le> x then k else k - 1)"

definition fexp :: "rat \<Rightarrow> int" where
  "fexp x = max (ilog2 \<bar>x\<bar> - 52) (- 1074)"

definition fl :: "rat \<Rightarrow> rat" where
  "fl x = (if x = 0 then 0 else of_int (rne (x / 2 powi fexp x)) * 2 powi fexp x)"

definition is_double :: "rat \<Rightarrow> bool" where
  "is_double x \<longleftrightarrow> (\<exists>m e. x = of_int m * 2 powi e \<and> \<bar>m\<bar> < 2 ^ 53 \<and> - 1074 \<le> e)"

section \<open>Operations\<close>

definition fadd :: "rat \<Rightarrow> rat \<Rightarrow> rat" where "fadd x y = fl (x + y)"
definition fsub :: "rat \<Rightarrow> rat \<Rightarrow> rat" where "fsub x y = fl (x - y)"
definition fmul :: "rat \<Rightarrow> rat \<Rightarrow> rat" where "fmul x y = fl (x * y)"
definition fdiv :: "rat \<Rightarrow> rat \<Rightarrow> rat" where "fdiv x y = fl (x / y)"

text \<open>\<open>int(x)\<close> truncates towards zero; \<open>np.floor\<close> rounds down; \<open>round(x)\<close> rounds half to even.\<close>

definition py_int :: "rat \<Rightarrow> int" where
  "py_int x = (if x < 0 then \<lceil>x\<rceil> else \<lfloor>x\<rfloor>)"

section \<open>Lemmas on rounding to the nearest integer\<close>

lemma rne_bounds: "\<lfloor>x\<rfloor> \<le> rne x" "rne x \<le> \<lfloor>x\<rfloor> + 1"
  by (auto simp: rne_def Let_def)

lemma rne_error: "\<bar>of_int (rne x) - x\<bar> \<le> 1 / 2"
proof -
  have "of_int \<lfloor>x\<rfloor> \<le> x" and "x < of_int \<lfloor>x\<rfloor> + 1" by linarith+
  then show ?thesis by (auto simp: rne_def Let_def abs_le_iff)
qed

lemma rne_of_int [simp]: "rne (of_int i) = i"
  by (simp add: rne_def)

lemma rne_mono:
  assumes "x \<le> y"
  shows "rne x \<le> rne y"
proof (cases "\<lfloor>x\<rfloor> = \<lfloor>y\<rfloor>")
  case True
  with assms show ?thesis by (auto simp: rne_def Let_def)
next
  case False
  with assms have "\<lfloor>x\<rfloor> + 1 \<le> \<lfloor>y\<rfloor>"
    using floor_mono [OF assms] by linarith
  then show ?thesis using rne_bounds(2) [of x] rne_bounds(1) [of y] by linarith
qed

lemma rne_minus: "rne (- x) = - rne x"
proof (cases "x \<in> \<int>")
  case True
  then obtain i where "x = of_int i" by (elim Ints_cases)
  moreover have "rne (of_int (- i)) = - i" by (rule rne_of_int)
  ultimately show ?thesis by simp
next
  case False
  then have "\<lfloor>- x\<rfloor> = - \<lfloor>x\<rfloor> - 1"
    by (metis ceiling_altdef ceiling_def Ints_of_int add.inverse_inverse diff_conv_add_uminus
        minus_add_distrib)
  then show ?thesis by (auto simp: rne_def Let_def)
qed

lemma rne_le_of_int: "x \<le> of_int k \<Longrightarrow> rne x \<le> k"
  using rne_mono [of x "of_int k"] by simp

lemma rne_ge_of_int: "of_int k \<le> x \<Longrightarrow> k \<le> rne x"
  using rne_mono [of "of_int k" x] by simp

section \<open>Lemmas on the binary logarithm\<close>

lemma powi2_pos [simp]: "(0::rat) < 2 powi k"
  by simp

lemma powi2_le_iff: "(2::rat) powi a \<le> 2 powi b \<longleftrightarrow> a \<le> b"
proof -
  have "(2::rat) powi a \<le> 2 powi b" if "a \<le> b" for a b
  proof -
    have "(2::rat) powi b = 2 powi a * 2 powi (b - a)"
      by (simp flip: power_int_add)
    moreover have "(1::rat) \<le> 2 powi (b - a)"
      using that by (simp add: power_int_def)
    ultimately show ?thesis by simp
  qed
  moreover have "(2::rat) powi a < 2 powi b" if "a < b" for a b
  proof -
    have "(2::rat) powi b = 2 powi a * 2 powi (b - a)"
      by (simp flip: power_int_add)
    moreover have "(1::rat) < 2 powi (b - a)"
      using that by (simp add: one_less_power_int)
    ultimately show ?thesis by simp
  qed
  ultimately show ?thesis by (meson not_le)
qed

lemma powi2_less_iff: "(2::rat) powi a < 2 powi b \<longleftrightarrow> a < b"
  using powi2_le_iff [of b a] by (simp flip: not_le)

lemma powi2_add: "(2::rat) powi (a + b) = 2 powi a * 2 powi b"
  by (simp add: power_int_add)

lemma powi2_diff: "(2::rat) powi (a - b) = 2 powi a / 2 powi b"
  by (simp add: power_int_diff)

lemma powi2_nat: "0 \<le> k \<Longrightarrow> (2::rat) powi k = of_int (2 ^ nat k)"
  by (simp add: power_int_def)

lemma bitlen_powi:
  assumes "0 < a"
  shows "2 powi (bitlen a - 1) \<le> (of_int a :: rat)" "(of_int a :: rat) < 2 powi bitlen a"
proof -
  have pos: "0 \<le> bitlen a - 1"
    using bitlen_nonneg [of a] bitlen_eq_zero_iff [of a] assms by linarith
  have "(2::rat) powi (bitlen a - 1) = of_int (2 ^ nat (bitlen a - 1))"
    using pos by (rule powi2_nat)
  also have "\<dots> \<le> of_int a"
    using bitlen_bounds [OF assms] by (simp only: of_int_le_iff)
  finally show "2 powi (bitlen a - 1) \<le> (of_int a :: rat)" .
  have "(of_int a :: rat) < of_int (2 ^ nat (bitlen a))"
    using bitlen_bounds [OF assms] by (simp only: of_int_less_iff)
  also have "\<dots> = 2 powi bitlen a"
    using bitlen_nonneg by (simp add: powi2_nat)
  finally show "(of_int a :: rat) < 2 powi bitlen a" .
qed

lemma ilog2_bounds:
  assumes "0 < x"
  shows "2 powi ilog2 x \<le> x" "x < 2 powi (ilog2 x + 1)"
proof -
  obtain a b where q: "quotient_of x = (a, b)" by (cases "quotient_of x")
  have b: "0 < b" and x: "x = of_int a / of_int b"
    using q quotient_of_denom_pos quotient_of_div by auto
  have a: "0 < a" using assms b x by (simp add: zero_less_divide_iff)
  let ?k = "bitlen a - bitlen b"
  have "x < 2 powi bitlen a / 2 powi (bitlen b - 1)"
    unfolding x using bitlen_powi [OF a] bitlen_powi [OF b] a b
    by (intro frac_less) auto
  also have "\<dots> = 2 powi (?k + 1)"
    by (simp flip: powi2_diff add: algebra_simps)
  finally have up: "x < 2 powi (?k + 1)" .
  have "2 powi (bitlen a - 1) / 2 powi bitlen b \<le> x"
    unfolding x using bitlen_powi [OF a] bitlen_powi [OF b] a b
    by (intro frac_le) auto
  moreover have "2 powi (bitlen a - 1) / 2 powi bitlen b = (2::rat) powi (?k - 1)"
    by (simp flip: powi2_diff add: algebra_simps)
  ultimately have lo: "2 powi (?k - 1) \<le> x" by simp
  show "2 powi ilog2 x \<le> x" "x < 2 powi (ilog2 x + 1)"
    using up lo by (auto simp: ilog2_def q Let_def)
qed

lemma ilog2_unique:
  assumes "2 powi k \<le> x" and "x < 2 powi (k + 1)"
  shows "ilog2 x = k"
proof -
  have pos: "0 < x" using assms(1) powi2_pos [of k] by linarith
  have "2 powi k < (2::rat) powi (ilog2 x + 1)" "2 powi ilog2 x < (2::rat) powi (k + 1)"
    using assms ilog2_bounds [OF pos] by linarith+
  then show ?thesis by (simp add: powi2_less_iff)
qed

lemma ilog2_mono:
  assumes "0 < x" and "x \<le> y"
  shows "ilog2 x \<le> ilog2 y"
proof -
  have "2 powi ilog2 x < (2::rat) powi (ilog2 y + 1)"
    using ilog2_bounds(1) [OF assms(1)] ilog2_bounds(2) [of y] assms by linarith
  then show ?thesis by (simp add: powi2_less_iff)
qed

lemma ilog2_less: "0 < x \<Longrightarrow> x < 2 powi k \<Longrightarrow> ilog2 x < k"
  using ilog2_bounds(1) [of x] powi2_less_iff [of "ilog2 x" k] by linarith

section \<open>Lemmas on rounding to a double\<close>

lemma fl_0 [simp]: "fl 0 = 0"
  by (simp add: fl_def)

lemma fexp_minus [simp]: "fexp (- x) = fexp x"
  by (simp add: fexp_def)

lemma fl_minus: "fl (- x) = - fl x"
  by (simp add: fl_def rne_minus)

lemma fl_nonneg: "0 \<le> x \<Longrightarrow> 0 \<le> fl x"
  by (auto simp: fl_def intro!: mult_nonneg_nonneg rne_ge_of_int)

lemma fl_error_fexp: "\<bar>fl x - x\<bar> \<le> 2 powi (fexp x - 1)"
proof (cases "x = 0")
  case False
  let ?p = "2 powi fexp x :: rat"
  have "fl x - x = (of_int (rne (x / ?p)) - x / ?p) * ?p"
    using False by (simp add: fl_def algebra_simps)
  then have "\<bar>fl x - x\<bar> = \<bar>of_int (rne (x / ?p)) - x / ?p\<bar> * ?p"
    by (simp add: abs_mult)
  also have "\<dots> \<le> 1 / 2 * ?p"
    using rne_error by (intro mult_right_mono) auto
  finally show ?thesis by (simp add: powi2_diff)
qed simp

lemma fl_error:
  assumes "\<bar>x\<bar> < 2 powi k" and "- 1021 \<le> k"
  shows "\<bar>fl x - x\<bar> \<le> 2 powi (k - 54)"
proof (cases "x = 0")
  case False
  then have "fexp x \<le> k - 53"
    using assms ilog2_less [of "\<bar>x\<bar>" k] by (simp add: fexp_def)
  then have "2 powi (fexp x - 1) \<le> (2::rat) powi (k - 54)"
    by (simp add: powi2_le_iff)
  then show ?thesis using fl_error_fexp [of x] by linarith
qed simp

lemma fl_exact:
  assumes "is_double x"
  shows "fl x = x"
proof (cases "x = 0")
  case False
  obtain m e where x: "x = of_int m * 2 powi e" and m: "\<bar>m\<bar> < 2 ^ 53" and e: "- 1074 \<le> e"
    using assms by (auto simp: is_double_def)
  have "\<bar>x\<bar> = of_int \<bar>m\<bar> * 2 powi e" by (simp add: x abs_mult)
  also have "\<dots> < of_int (2 ^ 53) * 2 powi e"
    using m by (intro mult_strict_right_mono) (simp_all only: of_int_less_iff powi2_pos)
  also have "\<dots> = 2 powi (53 + e)" by (simp add: powi2_add)
  finally have "ilog2 \<bar>x\<bar> < 53 + e"
    using False by (intro ilog2_less) auto
  then have le: "fexp x \<le> e" using e by (simp add: fexp_def)
  have "x / 2 powi fexp x = of_int m * 2 powi (e - fexp x)"
    by (simp add: x powi2_diff)
  also have "\<dots> = of_int (m * 2 ^ nat (e - fexp x))"
    using le by (simp add: powi2_nat)
  finally have q: "x / 2 powi fexp x = of_int (m * 2 ^ nat (e - fexp x))" .
  have "fl x = of_int (rne (x / 2 powi fexp x)) * 2 powi fexp x"
    using False by (simp add: fl_def)
  also have "\<dots> = x / 2 powi fexp x * 2 powi fexp x"
    unfolding q by (simp only: rne_of_int)
  finally show ?thesis by simp
qed simp

lemma scaled_upper: "0 < x \<Longrightarrow> x / 2 powi fexp x < 2 ^ 53"
proof -
  assume x: "0 < x"
  have "x < 2 powi (ilog2 x + 1)" by (rule ilog2_bounds(2) [OF x])
  also have "\<dots> \<le> 2 powi (53 + fexp x)"
    using x by (simp add: powi2_le_iff fexp_def)
  also have "\<dots> = 2 ^ 53 * 2 powi fexp x" by (simp add: powi2_add)
  finally show ?thesis by (simp add: divide_less_eq)
qed

lemma fl_upper: "0 < x \<Longrightarrow> fl x \<le> 2 powi (53 + fexp x)"
proof -
  assume x: "0 < x"
  have "rne (x / 2 powi fexp x) \<le> 2 ^ 53"
    using scaled_upper [OF x] by (intro rne_le_of_int) simp
  then have "of_int (rne (x / 2 powi fexp x)) \<le> (2 ^ 53 :: rat)"
    by (metis of_int_le_iff of_int_numeral of_int_power)
  then show ?thesis using x by (simp add: fl_def powi2_add)
qed

lemma fl_lower:
  assumes x: "0 < x" and f: "- 1074 < fexp x"
  shows "2 powi (52 + fexp x) \<le> fl x"
proof -
  have "fexp x = ilog2 x - 52" using f x by (simp add: fexp_def split: if_splits)
  then have "2 powi (52 + fexp x) \<le> x" using ilog2_bounds(1) [OF x] by simp
  then have "2 ^ 52 \<le> x / 2 powi fexp x" by (simp add: powi2_add le_divide_eq)
  then have "2 ^ 52 \<le> rne (x / 2 powi fexp x)" by (intro rne_ge_of_int) simp
  then have "(2 ^ 52 :: rat) \<le> of_int (rne (x / 2 powi fexp x))"
    by (metis of_int_le_iff of_int_numeral of_int_power)
  then show ?thesis using x by (simp add: fl_def powi2_add)
qed

lemma fl_mono_pos:
  assumes x: "0 < x" and xy: "x \<le> y"
  shows "fl x \<le> fl y"
proof -
  have y: "0 < y" using assms by linarith
  have le: "fexp x \<le> fexp y"
    using ilog2_mono [OF x xy] x y by (simp add: fexp_def)
  show ?thesis
  proof (cases "fexp x = fexp y")
    case True
    have "rne (x / 2 powi fexp x) \<le> rne (y / 2 powi fexp x)"
      using xy by (intro rne_mono divide_right_mono) auto
    then show ?thesis using True x y by (simp add: fl_def)
  next
    case False
    then have lt: "fexp x < fexp y" using le by simp
    then have "- 1074 < fexp y" by (simp add: fexp_def)
    have "fl x \<le> 2 powi (53 + fexp x)" by (rule fl_upper [OF x])
    also have "\<dots> \<le> 2 powi (52 + fexp y)" using lt by (simp add: powi2_le_iff)
    also have "\<dots> \<le> fl y" by (rule fl_lower [OF y]) fact
    finally show ?thesis .
  qed
qed

lemma fl_mono: "x \<le> y \<Longrightarrow> fl x \<le> fl y"
proof -
  assume xy: "x \<le> y"
  consider "0 < x" | "x \<le> 0" "0 \<le> y" | "y < 0" by linarith
  then show ?thesis
  proof cases
    case 1
    then show ?thesis using xy by (rule fl_mono_pos)
  next
    case 2
    then show ?thesis using fl_nonneg [of "- x"] fl_nonneg [of y] by (simp add: fl_minus)
  next
    case 3
    then have "fl (- y) \<le> fl (- x)" using xy by (intro fl_mono_pos) auto
    then show ?thesis by (simp add: fl_minus)
  qed
qed

lemma is_double_fl_pos: "0 < x \<Longrightarrow> is_double (fl x)"
proof -
  assume x: "0 < x"
  let ?m = "rne (x / 2 powi fexp x)"
  have m: "0 \<le> ?m" "?m \<le> 2 ^ 53"
    using x scaled_upper [OF x] by (auto intro!: rne_ge_of_int rne_le_of_int)
  have e: "- 1074 \<le> fexp x" by (simp add: fexp_def)
  show ?thesis
  proof (cases "?m = 2 ^ 53")
    case True
    then have "fl x = of_int (2 ^ 52) * 2 powi (fexp x + 1)"
      using x by (simp add: fl_def powi2_add)
    moreover have "\<bar>(2::int) ^ 52\<bar> < 2 ^ 53" by simp
    moreover have "- 1074 \<le> fexp x + 1" using e by linarith
    ultimately show ?thesis unfolding is_double_def by blast
  next
    case False
    then have "\<bar>?m\<bar> < 2 ^ 53" using m by simp
    then show ?thesis unfolding is_double_def using e x by (auto simp: fl_def)
  qed
qed

lemma is_double_minus: "is_double x \<Longrightarrow> is_double (- x)"
proof -
  assume "is_double x"
  then obtain m e where "x = of_int m * 2 powi e" "\<bar>m\<bar> < 2 ^ 53" "- 1074 \<le> e"
    by (auto simp: is_double_def)
  then show ?thesis
    unfolding is_double_def by (intro exI [of _ "- m"] exI [of _ e]) simp
qed

lemma is_double_0 [simp]: "is_double 0"
  unfolding is_double_def by (rule exI [of _ 0], rule exI [of _ 0]) simp

lemma is_double_fl [simp]: "is_double (fl x)"
proof -
  consider "0 < x" | "x = 0" | "0 < - x" by linarith
  then show ?thesis
  proof cases
    case 3
    then have "is_double (- fl (- x))" by (intro is_double_minus is_double_fl_pos)
    then show ?thesis by (simp add: fl_minus)
  qed (auto intro: is_double_fl_pos)
qed

lemma fl_idem [simp]: "fl (fl x) = fl x"
  by (simp add: fl_exact)

lemma is_double_scale:
  assumes "is_double x" and "0 \<le> k"
  shows "is_double (x * 2 powi k)"
proof -
  obtain m e where "x = of_int m * 2 powi e" "\<bar>m\<bar> < 2 ^ 53" "- 1074 \<le> e"
    using assms by (auto simp: is_double_def)
  then show ?thesis
    unfolding is_double_def using assms
    by (intro exI [of _ m] exI [of _ "e + k"]) (simp add: powi2_add)
qed

lemma is_doubleI: "\<bar>m\<bar> < 2 ^ 53 \<Longrightarrow> k \<le> 1074 \<Longrightarrow> is_double (of_int m / 2 ^ k)"
  unfolding is_double_def
  by (intro exI [of _ m] exI [of _ "- int k"]) (simp add: power_int_minus divide_inverse)

lemma is_double_int: "\<bar>m\<bar> < 2 ^ 53 \<Longrightarrow> is_double (of_int m)"
  using is_doubleI [of m 0] by simp

text \<open>Rounding never moves a number across a double.\<close>

lemma fl_ge_iff: "is_double m \<Longrightarrow> m \<le> fl x \<Longrightarrow> m \<le> x \<or> fl x = m"
proof -
  assume m: "is_double m" and le: "m \<le> fl x"
  show "m \<le> x \<or> fl x = m"
  proof (cases "m \<le> x")
    case False
    then have "fl x \<le> fl m" by (intro fl_mono) simp
    then show ?thesis using le fl_exact [OF m] by simp
  qed simp
qed

lemma fl_le_double: "is_double m \<Longrightarrow> x \<le> m \<Longrightarrow> fl x \<le> m"
  using fl_mono [of x m] by (simp add: fl_exact)

lemma fl_ge_double: "is_double m \<Longrightarrow> m \<le> x \<Longrightarrow> m \<le> fl x"
  using fl_mono [of m x] by (simp add: fl_exact)

lemma py_int_clip: "np_clip (py_int x) 0 hi = np_clip \<lfloor>x\<rfloor> 0 hi"
proof (cases "x < 0")
  case True
  then have "\<lceil>x\<rceil> \<le> 0" "\<lfloor>x\<rfloor> \<le> 0" by (simp_all add: ceiling_le_iff floor_le_iff)
  then show ?thesis using True by (simp add: py_int_def np_clip_def)
qed (simp add: py_int_def)

end
