(* ===== verification/Cells.thy ===== *)
theory Cells
  imports PyFloat "HOL-Library.Word" "HOL-Library.Sublist"
begin

text \<open>
  \<^verbatim>\<open>src/src/osmpq/layout/cells.py\<close>: quadtree cells over longitude and latitude.

  Cell keys are strings over \<open>0123\<close>, or \<open>root\<close>. Degrees are doubles (see \<open>PyFloat\<close>) and
  every arithmetic step rounds as the code's does; INT32 e7 coordinates are integers. The
  vectorised functions work on parallel arrays; here such arrays are given as the list of
  their rows. Quadkey codes of the vectorised functions are \<open>uint64\<close> values (\<open>64 word\<close>).
  \<open>Cells_Correct\<close> holds the theorems.
\<close>

unbundle bit_operations_syntax

definition MAX_DEPTH :: nat where "MAX_DEPTH = 20"
definition ROOT :: string where "ROOT = ''root''"

type_synonym bbox = "rat \<times> rat \<times> rat \<times> rat"

definition WORLD :: bbox where "WORLD = (- 90, - 180, 90, 180)"

definition depth_of :: "string \<Rightarrow> nat" where
  "depth_of key = (if key = ROOT then 0 else length key)"

section \<open>Cell geometry and the tree\<close>

fun cell_bbox_loop :: "bbox \<Rightarrow> string \<Rightarrow> bbox result" where
  "cell_bbox_loop b [] = Inr b"
| "cell_bbox_loop (south, west, north, east) (digit # ds) =
     (let mid_lon = fdiv (fadd west east) 2; mid_lat = fdiv (fadd south north) 2
      in if digit = CHR ''0'' then cell_bbox_loop (mid_lat, west, north, mid_lon) ds
         else if digit = CHR ''1'' then cell_bbox_loop (mid_lat, mid_lon, north, east) ds
         else if digit = CHR ''2'' then cell_bbox_loop (south, west, mid_lat, mid_lon) ds
         else if digit = CHR ''3'' then cell_bbox_loop (south, mid_lon, mid_lat, east) ds
         else Inl ValueError)"

definition cell_bbox :: "string \<Rightarrow> bbox result" where
  "cell_bbox key = (if key = ROOT then Inr WORLD else cell_bbox_loop WORLD key)"

definition children :: "string \<Rightarrow> string list result" where
  "children key =
     (if MAX_DEPTH \<le> depth_of key then Inl ValueError
      else let prefix = (if key = ROOT then [] else key) in Inr (map (\<lambda>d. prefix @ [d]) ''0123''))"

definition parent :: "string \<Rightarrow> string option" where
  "parent key =
     (if key = ROOT then None else if length key = 1 then Some ROOT else Some (butlast key))"

text \<open>
  The loop of \<open>ancestors\<close> follows \<open>parent\<close> until it returns None. It does not return on the
  empty string, whose parent is itself, so the loop is a partial function.
\<close>

partial_function (option) ancestors_loop :: "string option \<Rightarrow> string list \<Rightarrow> string list option" where
  "ancestors_loop cur out =
     (case cur of None \<Rightarrow> Some out | Some k \<Rightarrow> ancestors_loop (parent k) (out @ [k]))"

definition ancestors :: "string \<Rightarrow> string list option" where
  "ancestors key = ancestors_loop (parent key) []"

section \<open>Quadkey codes\<close>

definition grid_xy :: "rat \<Rightarrow> rat \<Rightarrow> int \<times> int" where
  "grid_xy lat lon =
     (let n = push_bit MAX_DEPTH (1 :: int);
          x = py_int (fmul (fdiv (fadd lon 180) 360) (of_int n));
          y = py_int (fmul (fdiv (fadd lat 90) 180) (of_int n))
      in (min (max x 0) (n - 1), min (max y 0) (n - 1)))"

definition qk_step :: "int \<Rightarrow> int \<Rightarrow> nat \<Rightarrow> int \<Rightarrow> int" where
  "qk_step x inv_y i code =
     (let bx = drop_bit i x AND 1; biy = drop_bit i inv_y AND 1; digit = push_bit 1 biy OR bx
      in push_bit 2 code OR digit)"

definition point_to_qk :: "rat \<Rightarrow> rat \<Rightarrow> int" where
  "point_to_qk lat lon =
     (let (x, y) = grid_xy lat lon; inv_y = (push_bit MAX_DEPTH 1 - 1) XOR y
      in fold (qk_step x inv_y) (rev [0..<MAX_DEPTH]) 0)"

definition e7_deg :: "int \<Rightarrow> rat" where
  "e7_deg v = fdiv (fl (of_int v)) 10000000"

definition qk_np_step :: "int \<Rightarrow> int \<Rightarrow> nat \<Rightarrow> 64 word \<Rightarrow> 64 word" where
  "qk_np_step x inv_y i code =
     (let bx = drop_bit i x AND 1; biy = drop_bit i inv_y AND 1; digit = push_bit 1 biy OR bx
      in push_bit 2 code OR of_int digit)"

definition point_to_qk_np1 :: "int \<Rightarrow> int \<Rightarrow> 64 word" where
  "point_to_qk_np1 lat_e7 lon_e7 =
     (let n = push_bit MAX_DEPTH (1 :: int); lat = e7_deg lat_e7; lon = e7_deg lon_e7;
          x = np_clip \<lfloor>fmul (fdiv (fadd lon 180) 360) (of_int n)\<rfloor> 0 (n - 1);
          y = np_clip \<lfloor>fmul (fdiv (fadd lat 90) 180) (of_int n)\<rfloor> 0 (n - 1);
          inv_y = (push_bit MAX_DEPTH 1 - 1) XOR y
      in fold (qk_np_step x inv_y) (rev [0..<MAX_DEPTH]) 0)"

definition point_to_qk_np :: "(int \<times> int) list \<Rightarrow> 64 word list" where
  "point_to_qk_np rows = map (\<lambda>(lat_e7, lon_e7). point_to_qk_np1 lat_e7 lon_e7) rows"

definition int_of_digit :: "char \<Rightarrow> int result" where
  "int_of_digit ch =
     (let c = (of_char ch :: int) in if 48 \<le> c \<and> c \<le> 57 then Inr (c - 48) else Inl ValueError)"

fun key_to_value_loop :: "int \<Rightarrow> string \<Rightarrow> int result" where
  "key_to_value_loop value [] = Inr value"
| "key_to_value_loop value (ch # chs) =
     rbind (int_of_digit ch) (\<lambda>d. key_to_value_loop (value * 4 + d) chs)"

definition key_to_value :: "string \<Rightarrow> int result" where
  "key_to_value key = (if key \<noteq> ROOT then key_to_value_loop 0 key else Inr 0)"

definition qk_range :: "string \<Rightarrow> (int \<times> int) result" where
  "qk_range key =
     (let depth = depth_of key
      in rbind (key_to_value key) (\<lambda>value.
           if MAX_DEPTH < depth then Inl ValueError
           else let shift = 2 * (MAX_DEPTH - depth);
                    lo = push_bit shift value; span = push_bit shift 1
                in Inr (lo, lo + span - 1)))"

definition digit_char :: "int \<Rightarrow> char" where
  "digit_char d = char_of (48 + d)"

fun value_to_key_loop :: "nat \<Rightarrow> int \<Rightarrow> string \<Rightarrow> string" where
  "value_to_key_loop 0 v digits = digits"
| "value_to_key_loop (Suc k) v digits =
     value_to_key_loop k (drop_bit 2 v) (digits @ [digit_char (v AND 3)])"

definition value_to_key :: "int \<Rightarrow> nat \<Rightarrow> string" where
  "value_to_key value depth = (if depth = 0 then ROOT else rev (value_to_key_loop depth value []))"

section \<open>The leaf index\<close>

record leaf_index =
  li_leaves :: "string list"
  li_los :: "64 word list"
  li_his :: "64 word list"
  li_keys_by_lo :: "string list"

definition LeafIndex :: "string list \<Rightarrow> leaf_index result" where
  "LeafIndex leaves =
     (let ls = sorted_set leaves
      in rbind (rmap (\<lambda>k. rbind (qk_range k) (\<lambda>(lo, hi). Inr (lo, hi, k))) ls) (\<lambda>ranges.
           let rs = sort_key (\<lambda>(lo, hi, k). lo) ranges
           in Inr \<lparr>li_leaves = ls, li_los = map (\<lambda>(lo, hi, k). of_int lo) rs,
                   li_his = map (\<lambda>(lo, hi, k). of_int hi) rs,
                   li_keys_by_lo = map (\<lambda>(lo, hi, k). k) rs\<rparr>))"

definition leaf_index_for_qk :: "leaf_index \<Rightarrow> 64 word \<Rightarrow> int" where
  "leaf_index_for_qk ix qk =
     np_clip (int (searchsorted_right (li_los ix) qk) - 1) 0 (int (length (li_los ix)) - 1)"

definition contains_qk :: "leaf_index \<Rightarrow> int \<Rightarrow> 64 word \<Rightarrow> bool result" where
  "contains_qk ix idx qk = rbind (py_nth (li_his ix) idx) (\<lambda>hi. Inr (qk \<le> hi))"

definition leaf_for_qk :: "leaf_index \<Rightarrow> 64 word \<Rightarrow> string result" where
  "leaf_for_qk ix qk = py_nth (li_keys_by_lo ix) (leaf_index_for_qk ix qk)"

text \<open>
  \<open>Leaves\<close> is a plain set of keys or a \<open>LeafIndex\<close>. A set is given by its elements in some
  order; every use of it is independent of the order.
\<close>

datatype leaves = LeafSet "string list" | LeafIdx leaf_index

fun leaf_keys :: "leaves \<Rightarrow> string list" where
  "leaf_keys (LeafSet xs) = xs"
| "leaf_keys (LeafIdx ix) = li_leaves ix"

definition leaf_lookup :: "leaves \<Rightarrow> string \<Rightarrow> bool" where
  "leaf_lookup leaves key \<longleftrightarrow> key \<in> set (leaf_keys leaves)"

fun as_leaf_index :: "leaves \<Rightarrow> leaf_index result" where
  "as_leaf_index (LeafIdx ix) = Inr ix"
| "as_leaf_index (LeafSet xs) = LeafIndex xs"

section \<open>Point placement\<close>

definition extend_key :: "string \<Rightarrow> char \<Rightarrow> string" where
  "extend_key key digit = (if key = ROOT then [digit] else key @ [digit])"

function point_cell_loop :: "rat \<Rightarrow> rat \<Rightarrow> leaves \<Rightarrow> bbox \<Rightarrow> string \<Rightarrow> nat \<Rightarrow> string" where
  "point_cell_loop lat lon leaves (south, west, north, east) key depth =
     (if leaf_lookup leaves key then key
      else if MAX_DEPTH \<le> depth then key
      else
        let mid_lon = fdiv (fadd west east) 2; mid_lat = fdiv (fadd south north) 2;
            north_half = mid_lat \<le> lat; east_half = mid_lon \<le> lon
        in if north_half \<and> \<not> east_half then
             point_cell_loop lat lon leaves (mid_lat, west, north, mid_lon)
               (extend_key key CHR ''0'') (depth + 1)
           else if north_half \<and> east_half then
             point_cell_loop lat lon leaves (mid_lat, mid_lon, north, east)
               (extend_key key CHR ''1'') (depth + 1)
           else if \<not> north_half \<and> \<not> east_half then
             point_cell_loop lat lon leaves (south, west, mid_lat, mid_lon)
               (extend_key key CHR ''2'') (depth + 1)
           else
             point_cell_loop lat lon leaves (south, mid_lon, mid_lat, east)
               (extend_key key CHR ''3'') (depth + 1))"
  by pat_completeness auto
termination
  by (relation "measure (\<lambda>(lat, lon, leaves, bb, key, depth). MAX_DEPTH - depth)")
     (auto simp: Let_def)

declare point_cell_loop.simps [simp del]

definition point_cell :: "rat \<Rightarrow> rat \<Rightarrow> leaves \<Rightarrow> string" where
  "point_cell lat lon leaves = point_cell_loop lat lon leaves WORLD ROOT 0"

definition point_cells_np :: "(int \<times> int) list \<Rightarrow> leaves \<Rightarrow> string list result" where
  "point_cells_np rows leaves =
     rbind (as_leaf_index leaves) (\<lambda>index. rmap (leaf_for_qk index) (point_to_qk_np rows))"

section \<open>Placement of bounding boxes\<close>

fun bbox_contains :: "bbox \<Rightarrow> bbox \<Rightarrow> bool" where
  "bbox_contains (o_south, o_west, o_north, o_east) (i_south, i_west, i_north, i_east) \<longleftrightarrow>
     o_south \<le> i_south \<and> o_west \<le> i_west \<and> i_north \<le> o_north \<and> i_east \<le> o_east"

fun bbox_intersects :: "bbox \<Rightarrow> bbox \<Rightarrow> bool" where
  "bbox_intersects (a_south, a_west, a_north, a_east) (b_south, b_west, b_north, b_east) \<longleftrightarrow>
     (if a_east < b_west \<or> b_east < a_west then False
      else if a_north < b_south \<or> b_north < a_south then False
      else True)"

definition child_boxes :: "bbox \<Rightarrow> (char \<times> bbox) list" where
  "child_boxes cur =
     (case cur of (south, west, north, east) \<Rightarrow>
        let mid_lon = fdiv (fadd west east) 2; mid_lat = fdiv (fadd south north) 2
        in [(CHR ''0'', (mid_lat, west, north, mid_lon)),
            (CHR ''1'', (mid_lat, mid_lon, north, east)),
            (CHR ''2'', (south, west, mid_lat, mid_lon)),
            (CHR ''3'', (south, mid_lon, mid_lat, east))])"

function containing_cell_loop :: "bbox \<Rightarrow> leaves \<Rightarrow> string \<Rightarrow> bbox \<Rightarrow> nat \<Rightarrow> string" where
  "containing_cell_loop bb leaves key cur depth =
     (if leaf_lookup leaves key then key
      else if MAX_DEPTH \<le> depth then key
      else case filter (\<lambda>(d, cb). bbox_contains cb bb) (child_boxes cur) of
             [(digit, cb)] \<Rightarrow> containing_cell_loop bb leaves (extend_key key digit) cb (depth + 1)
           | _ \<Rightarrow> key)"
  by pat_completeness auto
termination
  by (relation "measure (\<lambda>(bb, leaves, key, cur, depth). MAX_DEPTH - depth)") auto

declare containing_cell_loop.simps [simp del]

definition containing_cell :: "bbox \<Rightarrow> leaves \<Rightarrow> string" where
  "containing_cell bb leaves = containing_cell_loop bb leaves ROOT WORLD 0"

definition DEFAULT_ANCESTOR_DEPTHS :: "nat list" where
  "DEFAULT_ANCESTOR_DEPTHS = [0, 3, 6, 9, 12]"

definition DEFAULT_MAX_DEPTH_V2 :: nat where "DEFAULT_MAX_DEPTH_V2 = 13"

definition qk_digit :: "64 word \<Rightarrow> nat \<Rightarrow> int" where
  "qk_digit qk i = uint (drop_bit (2 * (MAX_DEPTH - 1 - i)) qk AND 3)"

text \<open>The loop over \<open>i\<close> that fills \<open>lcp_depth\<close>: the first depth at which the digits differ.\<close>

fun lcp_loop :: "64 word \<Rightarrow> 64 word \<Rightarrow> nat list \<Rightarrow> nat \<Rightarrow> bool \<Rightarrow> nat" where
  "lcp_loop sw ne [] lcp still = lcp"
| "lcp_loop sw ne (i # is) lcp still =
     (let mismatch = still \<and> qk_digit sw i \<noteq> qk_digit ne i
      in lcp_loop sw ne is (if mismatch then i else lcp) (still \<and> \<not> mismatch))"

definition containing_cells_v2_row ::
  "leaf_index \<Rightarrow> nat list \<Rightarrow> nat \<Rightarrow> int \<times> int \<times> int \<times> int \<Rightarrow> string result" where
  "containing_cells_v2_row index ancestor_depths max_depth row =
     (case row of (ymin_e7, xmin_e7, ymax_e7, xmax_e7) \<Rightarrow>
      let qk_sw = point_to_qk_np1 ymin_e7 xmin_e7;
          qk_ne = point_to_qk_np1 ymax_e7 xmax_e7;
          lcp_depth = lcp_loop qk_sw qk_ne [0..<max_depth] max_depth True;
          leaf_idx = leaf_index_for_qk index qk_sw
      in rbind (py_nth (map depth_of (li_keys_by_lo index)) leaf_idx) (\<lambda>leaf_depth.
         rbind (contains_qk index leaf_idx qk_sw) (\<lambda>leaf_valid.
         let truncated_depth = min lcp_depth leaf_depth;
             is_leaf_c = truncated_depth = leaf_depth \<and> leaf_valid;
             ad_sorted = sorted_set ancestor_depths;
             idx = np_clip (int (searchsorted_right ad_sorted truncated_depth) - 1) 0
                           (int (length ad_sorted) - 1)
         in rbind (py_nth ad_sorted idx) (\<lambda>rounded_depth.
            let final_depth = (if is_leaf_c then truncated_depth else rounded_depth);
                acc = map (\<lambda>i. digit_char (qk_digit qk_sw i)) [0..<max_depth]
            in Inr (if final_depth = 0 then ROOT else take final_depth acc)))))"

definition containing_cells_v2_np ::
  "(int \<times> int \<times> int \<times> int) list \<Rightarrow> leaves \<Rightarrow> nat list \<Rightarrow> nat \<Rightarrow> string list result" where
  "containing_cells_v2_np rows leaves ancestor_depths max_depth =
     (if rows = [] then Inr []
      else if MAX_DEPTH < max_depth then Inl ValueError
      else rbind (as_leaf_index leaves) (\<lambda>index.
             rmap (containing_cells_v2_row index ancestor_depths max_depth) rows))"

definition round_e7 :: "rat \<Rightarrow> int" where
  "round_e7 deg = rne (fmul deg 10000000)"

definition containing_cell_v2 :: "bbox \<Rightarrow> leaves \<Rightarrow> nat list \<Rightarrow> nat \<Rightarrow> string result" where
  "containing_cell_v2 bb leaves ancestor_depths max_depth =
     (case bb of (south, west, north, east) \<Rightarrow>
        rbind (containing_cells_v2_np
                 [(round_e7 south, round_e7 west, round_e7 north, round_e7 east)]
                 leaves ancestor_depths max_depth)
              (\<lambda>rs. py_nth rs 0))"

section \<open>Cells to read for a query\<close>

text \<open>None: the call does not return (an empty key among the leaves, see \<open>ancestors\<close>).\<close>

fun cells_for_bbox_loop :: "bbox \<Rightarrow> string list \<Rightarrow> string list \<Rightarrow> string list result option" where
  "cells_for_bbox_loop bb [] out = Some (Inr out)"
| "cells_for_bbox_loop bb (leaf # ls) out =
     (case cell_bbox leaf of
        Inl e \<Rightarrow> Some (Inl e)
      | Inr cb \<Rightarrow>
          if bbox_intersects cb bb then
            (case ancestors leaf of
               None \<Rightarrow> None
             | Some as \<Rightarrow> cells_for_bbox_loop bb ls (out @ [leaf] @ as))
          else cells_for_bbox_loop bb ls out)"

definition cells_for_bbox :: "bbox \<Rightarrow> leaves \<Rightarrow> string list result option" where
  "cells_for_bbox bb leaves =
     (case cells_for_bbox_loop bb (leaf_keys leaves) [] of
        None \<Rightarrow> None
      | Some (Inl e) \<Rightarrow> Some (Inl e)
      | Some (Inr out) \<Rightarrow> Some (Inr (sorted_set (out @ [ROOT]))))"

end
