(* ===== verification/Cells_Grid.thy ===== *)
theory Cells_Grid
  imports Cells
begin

text \<open>
  The double-precision computation of the grid coordinates of a point is exact on INT32 e7
  coordinates: it gives the floor of the rational it approximates. All facts about placement
  are then facts about integers.
\<close>

section \<open>One axis\<close>

text \<open>
  Both axes have the same form, \<open>(deg + a) / (2 * a) * 2 ^ 20\<close> with \<open>a = 90\<close> for latitudes and
  \<open>a = 180\<close> for longitudes. \<open>axis_float\<close> is the rounded computation, \<open>axis_exact\<close> the rational.
\<close>

definition axis_float :: "rat \<Rightarrow> rat \<Rightarrow> rat" where
  "axis_float a deg = fmul (fdiv (fadd deg a) (2 * a)) 1048576"

definition axis_exact :: "rat \<Rightarrow> int \<Rightarrow> rat" where
  "axis_exact a v = (of_int v / 10000000 + a) / (2 * a) * 1048576"

definition int32 :: "int \<Rightarrow> bool" where
  "int32 v \<longleftrightarrow> - (2 ^ 31) \<le> v \<and> v < 2 ^ 31"

definition axis :: "rat \<Rightarrow> bool" where
  "axis a \<longleftrightarrow> a = 90 \<or> a = 180"

lemma powi_2_numerals:
  "(2::rat) powi 8 = 256" "(2::rat) powi 9 = 512" "(2::rat) powi 1 = 2" "(2::rat) powi 20 = 1048576"
  "(2::rat) powi (- 46) = 1 / 70368744177664" "(2::rat) powi (- 45) = 1 / 35184372088832"
  "(2::rat) powi (- 53) = 1 / 9007199254740992"
  by simp_all

lemma fl_frac:
  assumes "x = of_int m / 2 ^ k" and "\<bar>m\<bar> < 2 ^ 53" and "k \<le> 1074"
  shows "fl x = of_int m / 2 ^ k"
  using is_doubleI [OF assms(2,3)] by (simp add: assms(1) fl_exact)

lemma e7_deg_eq: "int32 v \<Longrightarrow> e7_deg v = fl (of_int v / 10000000)"
proof -
  assume "int32 v"
  then have "\<bar>v\<bar> < 2 ^ 53" by (simp add: int32_def abs_less_iff)
  then show ?thesis by (simp add: e7_deg_def fdiv_def fl_exact is_double_int)
qed

lemma e7_deg_error:
  assumes "int32 v"
  shows "\<bar>e7_deg v - of_int v / 10000000\<bar> \<le> 1 / 70368744177664"
    and "\<bar>of_int v / 10000000\<bar> < (215 :: rat)"
proof -
  have "of_int v < (2147483648 :: rat)" and "- 2147483648 \<le> (of_int v :: rat)"
    using assms by (simp_all add: int32_def flip: of_int_le_iff)
  then show b: "\<bar>of_int v / 10000000\<bar> < (215 :: rat)" by (simp add: abs_less_iff)
  then have "\<bar>of_int v / 10000000 :: rat\<bar> < 2 powi 8" by simp
  from fl_error [OF this] show "\<bar>e7_deg v - of_int v / 10000000\<bar> \<le> 1 / 70368744177664"
    using assms by (simp add: e7_deg_eq)
qed

lemma axis_float_error:
  assumes a: "axis a" and v: "int32 v"
  shows "\<bar>axis_float a (e7_deg v) - axis_exact a v\<bar> < 1 / 3515625"
proof -
  let ?d = "e7_deg v" and ?q = "of_int v / 10000000 :: rat"
  let ?b = "fadd ?d a" let ?c = "fdiv ?b (2 * a)"
  have d: "\<bar>?d - ?q\<bar> \<le> 1 / 70368744177664" and q: "\<bar>?q\<bar> < 215"
    using e7_deg_error [OF v] by simp_all
  have a2: "90 \<le> a" "a \<le> 180" using a by (auto simp: axis_def)
  have "\<bar>?d + a\<bar> < 512" using d q a2 by linarith
  then have "\<bar>?d + a\<bar> < 2 powi 9" by simp
  from fl_error [OF this] have b: "\<bar>?b - (?d + a)\<bar> \<le> 1 / 35184372088832"
    by (simp add: fadd_def)
  have bq: "\<bar>?b - (?q + a)\<bar> \<le> 3 / 70368744177664"
    using b d by linarith
  have "\<bar>?b\<bar> < 306 \<or> a = 180 \<and> \<bar>?b\<bar> < 396" using bq q a unfolding axis_def by linarith
  then have "\<bar>?b\<bar> < 2 * (2 * a)" using a2 by linarith
  then have "\<bar>?b / (2 * a)\<bar> < 2 powi 1" using a2 by (simp add: abs_divide divide_less_eq)
  from fl_error [OF this] have c: "\<bar>?c - ?b / (2 * a)\<bar> \<le> 1 / 9007199254740992"
    by (simp add: fdiv_def)
  have "axis_float a ?d = ?c * 1048576"
    using is_double_scale [of ?c 20] by (simp add: axis_float_def fmul_def fl_exact fdiv_def)
  define e1 where "e1 = ?c - ?b / (2 * a)"
  define e2 where "e2 = (?b - (?q + a)) / (2 * a)"
  have "axis_exact a v = (?q + a) / (2 * a) * 1048576" by (simp add: axis_exact_def)
  moreover have "?c = e1 + (e2 + (?q + a) / (2 * a))"
    by (simp add: e1_def e2_def diff_divide_distrib)
  ultimately have diff: "axis_float a ?d - axis_exact a v = e1 * 1048576 + e2 * 1048576"
    using \<open>axis_float a ?d = ?c * 1048576\<close> by (simp add: algebra_simps)
  have "\<bar>e2\<bar> * 180 \<le> \<bar>e2\<bar> * (2 * a)" using a2 by (intro mult_left_mono) auto
  also have "\<dots> = \<bar>?b - (?q + a)\<bar>" using a2 by (simp add: e2_def abs_divide)
  finally have "\<bar>e2\<bar> \<le> 1 / 1000000000000000" using bq by linarith
  moreover have "\<bar>e1\<bar> \<le> 1 / 9007199254740992" using c by (simp only: e1_def)
  ultimately show ?thesis unfolding diff by linarith
qed

text \<open>\<open>axis_exact\<close> is a multiple of \<open>1 / 3515625\<close>.\<close>

definition axis_num :: "rat \<Rightarrow> int \<Rightarrow> int" where
  "axis_num a v = (if a = 180 then (v + 1800000000) * 1024 else (v + 900000000) * 2048)"

lemma axis_exact_num: "axis a \<Longrightarrow> axis_exact a v = of_int (axis_num a v) / 3515625"
  by (auto simp: axis_def axis_exact_def axis_num_def field_simps)

lemma floor_near:
  fixes t d :: rat
  assumes t: "t = of_int p / of_int m" and m: "0 < m" and near: "\<bar>d - t\<bar> < 1 / of_int m"
    and exact: "m dvd p \<Longrightarrow> d = t"
  shows "\<lfloor>d\<rfloor> = \<lfloor>t\<rfloor>"
proof (cases "m dvd p")
  case True
  then show ?thesis using exact by simp
next
  case False
  let ?k = "p div m" and ?r = "p mod m"
  have r: "1 \<le> ?r" "?r \<le> m - 1"
    using False m by (simp_all add: dvd_eq_mod_eq_0 pos_mod_bound zle_diff1_eq order_le_neq_trans int_one_le_iff_zero_less)
  have "t = of_int ?k + of_int ?r / of_int m"
    unfolding t using m by (simp add: field_simps flip: of_int_mult of_int_add)
  moreover have "1 / of_int m \<le> (of_int ?r / of_int m :: rat)"
    using r m by (intro divide_right_mono) (simp_all flip: of_int_le_iff)
  moreover have "(of_int ?r / of_int m :: rat) \<le> 1 - 1 / of_int m"
    using r m by (simp add: field_simps flip: of_int_add)
  ultimately have "\<lfloor>t\<rfloor> = ?k" "\<lfloor>d\<rfloor> = ?k"
    using near m by (auto simp: floor_eq_iff abs_less_iff)
  then show ?thesis by simp
qed

lemma axis_float_exact:
  assumes a: "axis a" and v: "int32 v" and dv: "3515625 dvd axis_num a v"
  shows "axis_float a (e7_deg v) = axis_exact a v"
proof -
  define H :: int where "H = (if a = 180 then 1800000000 else 900000000)"
  have cop: "coprime (3515625::int) 1024" "coprime (3515625::int) 2048" by code_simp+
  have "3515625 dvd (v + H) * 1024 \<or> 3515625 dvd (v + H) * 2048"
    using dv by (auto simp only: axis_num_def H_def split: if_splits)
  then have "3515625 dvd v + H"
    using cop by (auto simp only: coprime_dvd_mult_left_iff)
  moreover have "(3515625::int) dvd H" by (simp add: H_def)
  ultimately have "3515625 dvd v" by (simp add: dvd_add_left_iff)
  then obtain j where j: "v = 3515625 * j" by (elim dvdE)
  have jb: "\<bar>j\<bar> \<le> 611" using v j by (simp add: int32_def abs_le_iff)
  obtain s where s: "a = 45 * of_int s" "s = 2 \<or> s = 4" using a by (auto simp: axis_def)
  let ?k = "(j + 128 * s) * (if s = 4 then 1 else 2)"
  have d: "e7_deg v = of_int (45 * j) / 2 ^ 7"
    unfolding e7_deg_eq [OF v] using jb by (intro fl_frac [of _ "45 * j" 7]) (simp_all add: j)
  have b: "fadd (e7_deg v) a = of_int (45 * (j + 128 * s)) / 2 ^ 7"
    unfolding fadd_def using jb s
    by (intro fl_frac [of _ "45 * (j + 128 * s)" 7]) (auto simp: d)
  have c: "fdiv (fadd (e7_deg v) a) (2 * a) = of_int ?k / 2 ^ 10"
    unfolding fdiv_def b using jb s by (intro fl_frac [of _ ?k 10]) auto
  have "axis_float a (e7_deg v) = of_int ?k / 2 ^ 10 * 1048576"
    unfolding axis_float_def c fmul_def using jb s
    by (intro fl_frac [of _ "?k * 1024" 0, THEN trans]) auto
  also have "\<dots> = axis_exact a v"
    using s(2) by (auto simp: axis_exact_def j s(1))
  finally show ?thesis .
qed

lemma axis_floor:
  assumes "axis a" and "int32 v"
  shows "\<lfloor>axis_float a (e7_deg v)\<rfloor> = axis_num a v div 3515625"
proof -
  have "\<lfloor>axis_float a (e7_deg v)\<rfloor> = \<lfloor>axis_exact a v\<rfloor>"
    using axis_exact_num [OF assms(1)] axis_float_error [OF assms] axis_float_exact [OF assms]
    by (intro floor_near [where p = "axis_num a v" and m = 3515625]) simp_all
  also have "\<dots> = axis_num a v div 3515625"
    using assms(1) by (simp add: axis_exact_num floor_divide_of_int_eq [where 'a = rat, of _ 3515625, simplified])
  finally show ?thesis .
qed

section \<open>Grid coordinates\<close>

text \<open>The grid coordinates of an INT32 e7 point, in integer arithmetic.\<close>

definition grid_x_e7 :: "int \<Rightarrow> int" where
  "grid_x_e7 lon_e7 = np_clip ((lon_e7 + 1800000000) * 1024 div 3515625) 0 1048575"

definition grid_y_e7 :: "int \<Rightarrow> int" where
  "grid_y_e7 lat_e7 = np_clip ((lat_e7 + 900000000) * 2048 div 3515625) 0 1048575"

lemma push_bit_20: "push_bit MAX_DEPTH (1 :: int) = 1048576"
  by (simp add: MAX_DEPTH_def push_bit_eq_mult)

lemma grid_xy_e7:
  assumes "int32 lat_e7" and "int32 lon_e7"
  shows "grid_xy (e7_deg lat_e7) (e7_deg lon_e7) = (grid_x_e7 lon_e7, grid_y_e7 lat_e7)"
proof -
  have "\<lfloor>axis_float 180 (e7_deg lon_e7)\<rfloor> = (lon_e7 + 1800000000) * 1024 div 3515625"
    "\<lfloor>axis_float 90 (e7_deg lat_e7)\<rfloor> = (lat_e7 + 900000000) * 2048 div 3515625"
    using assms by (simp_all add: axis_floor axis_def axis_num_def)
  then show ?thesis
    unfolding grid_xy_def push_bit_20 Let_def grid_x_e7_def grid_y_e7_def
    by (simp add: py_int_clip axis_float_def flip: np_clip_def)
qed

lemma grid_e7_bounds:
  "0 \<le> grid_x_e7 v" "grid_x_e7 v < 1048576" "0 \<le> grid_y_e7 v" "grid_y_e7 v < 1048576"
  unfolding grid_x_e7_def grid_y_e7_def
  using np_clip_bounds [of 0 1048575] by (simp_all add: order_le_less_trans [of _ 1048575])

section \<open>Cell boundaries\<close>

text \<open>Boundary \<open>b\<close> of the \<open>2 ^ d\<close> equal slices of an axis.\<close>

definition bound :: "rat \<Rightarrow> int \<Rightarrow> nat \<Rightarrow> rat" where
  "bound a b d = - a + 2 * a * of_int b / 2 ^ d"

lemma bound_0 [simp]: "bound a 0 0 = - a" and bound_1 [simp]: "bound a 1 0 = a"
  by (simp_all add: bound_def)

lemma bound_double_index: "bound a (2 * b) (Suc d) = bound a b d"
  by (simp add: bound_def)

lemma bound_scale: "d \<le> n \<Longrightarrow> bound a b d = bound a (b * 2 ^ (n - d)) n"
proof -
  assume "d \<le> n"
  then have "(2::rat) ^ n = 2 ^ (n - d) * 2 ^ d" by (simp flip: power_add)
  then show ?thesis by (simp add: bound_def)
qed

lemma axis_cases: "axis a \<Longrightarrow> \<exists>s. a = 45 * of_int s \<and> (s = 2 \<or> s = 4)"
  by (auto simp: axis_def)

lemma two_pow_le_22: "d \<le> 22 \<Longrightarrow> (2::int) ^ d \<le> 4194304"
  using power_increasing [of d 22 "2::int"] by simp

lemma is_double_bound_sum:
  assumes a: "axis a" and d: "d \<le> 21" and b: "0 \<le> b" "b \<le> 2 ^ d" and k: "k = 1 \<or> k = 2"
  shows "is_double (of_int k * bound a b d)"
proof -
  obtain s where s: "a = 45 * of_int s" "s = 2 \<or> s = 4" using axis_cases [OF a] by blast
  let ?m = "45 * s * k * (2 * b - 2 ^ d)"
  have eq: "of_int k * bound a b d = of_int ?m / 2 ^ d"
    by (simp add: bound_def s field_simps)
  have p: "(2::int) ^ d \<le> 4194304" using d by (intro two_pow_le_22) simp
  have "\<bar>2 * b - 2 ^ d\<bar> \<le> 2 ^ d" using b by (simp add: abs_le_iff)
  then have "\<bar>2 * b - 2 ^ d\<bar> \<le> 4194304" using p by linarith
  moreover have "\<bar>45 * s * k\<bar> \<le> 360" using s k by auto
  ultimately have "\<bar>45 * s * k\<bar> * \<bar>2 * b - 2 ^ d\<bar> \<le> 360 * 4194304"
    by (intro mult_mono) auto
  then have "\<bar>?m\<bar> \<le> 360 * 4194304" by (simp only: abs_mult)
  then have "\<bar>?m\<bar> < 2 ^ 53" by simp
  then show ?thesis unfolding eq using d by (intro is_doubleI) simp_all
qed

lemma is_double_bound: "axis a \<Longrightarrow> d \<le> 21 \<Longrightarrow> 0 \<le> b \<Longrightarrow> b \<le> 2 ^ d \<Longrightarrow> is_double (bound a b d)"
  using is_double_bound_sum [of a d b 1] by simp

text \<open>The midpoint of a slice is computed exactly.\<close>

lemma mid_exact:
  assumes a: "axis a" and d: "d \<le> 20" and b: "0 \<le> b" "b < 2 ^ d"
  shows "fdiv (fadd (bound a b d) (bound a (b + 1) d)) 2 = bound a (2 * b + 1) (Suc d)"
proof -
  have b': "0 \<le> 2 * b + 1" "2 * b + 1 \<le> 2 ^ Suc d" using b by simp_all
  have sum: "bound a b d + bound a (b + 1) d = of_int 2 * bound a (2 * b + 1) (Suc d)"
    by (simp add: bound_def field_simps)
  have "fadd (bound a b d) (bound a (b + 1) d) = of_int 2 * bound a (2 * b + 1) (Suc d)"
    unfolding fadd_def sum using d b' a by (intro fl_exact is_double_bound_sum) simp_all
  moreover have "fl (bound a (2 * b + 1) (Suc d)) = bound a (2 * b + 1) (Suc d)"
    using d b' a by (intro fl_exact is_double_bound) simp_all
  ultimately show ?thesis by (simp add: fdiv_def)
qed

text \<open>
  Comparing the double degree of an e7 coordinate with a cell boundary decides the same
  question as the integer grid coordinate.
\<close>

definition axis_grid :: "rat \<Rightarrow> int \<Rightarrow> int" where
  "axis_grid a v = np_clip (axis_num a v div 3515625) 0 1048575"

lemma axis_grid_eq: "axis_grid 180 v = grid_x_e7 v" "axis_grid 90 v = grid_y_e7 v"
  by (simp_all add: axis_grid_def axis_num_def grid_x_e7_def grid_y_e7_def)

lemma bound_le_exact:
  assumes "axis a"
  shows "bound a b 20 \<le> of_int v / 10000000 \<longleftrightarrow> of_int b \<le> axis_exact a v"
proof -
  have "0 < a" using assms by (auto simp: axis_def)
  then show ?thesis by (auto simp: bound_def axis_exact_def field_simps)
qed

lemma int_le_div_iff: "0 < k \<Longrightarrow> (b::int) \<le> a div k \<longleftrightarrow> b * k \<le> a"
proof
  assume k: "0 < k" and "b \<le> a div k"
  then have "b * k \<le> a div k * k" by simp
  also have "\<dots> \<le> a" using k by (simp add: minus_mod_eq_div_mult [symmetric])
  finally show "b * k \<le> a" .
next
  assume k: "0 < k" and "b * k \<le> a"
  then have "b * k div k \<le> a div k" by (intro zdiv_mono1)
  then show "b \<le> a div k" using k by simp
qed

lemma bound20_le_e7:
  assumes a: "axis a" and v: "int32 v" and b: "0 < b" "b < 1048576"
  shows "bound a b 20 \<le> e7_deg v \<longleftrightarrow> b \<le> axis_grid a v"
proof -
  have flr: "of_int b \<le> axis_exact a v \<longleftrightarrow> b \<le> axis_num a v div 3515625"
    using le_floor_iff [of b "axis_exact a v"] a
    by (simp add: axis_exact_num floor_divide_of_int_eq [where 'a = rat, of _ 3515625, simplified])
  have clip: "b \<le> axis_num a v div 3515625 \<longleftrightarrow> b \<le> axis_grid a v"
    using b by (auto simp: axis_grid_def np_clip_def)
  have "bound a b 20 \<le> e7_deg v" if "bound a b 20 \<le> of_int v / 10000000"
    unfolding e7_deg_eq [OF v] using that a b
    by (intro fl_ge_double is_double_bound) simp_all
  moreover have "e7_deg v < bound a b 20" if "\<not> bound a b 20 \<le> of_int v / 10000000"
  proof -
    have "axis_exact a v < of_int b" using that bound_le_exact [OF a, of b v] by linarith
    then have "of_int (axis_num a v) < (of_int (b * 3515625) :: rat)"
      using a by (simp add: axis_exact_num divide_less_eq)
    then have "axis_num a v < b * 3515625" by (simp only: of_int_less_iff)
    then have "of_int (axis_num a v + 1) \<le> (of_int (b * 3515625) :: rat)"
      by (simp only: of_int_le_iff zless_iff_Suc_zadd add1_zle_eq)
    then have gap: "axis_exact a v + 1 / 3515625 \<le> of_int b"
      using a by (simp add: axis_exact_num field_simps)
    have "of_int v / 10000000 + 2 * a / 1048576 / 3515625 \<le> bound a b 20"
      using gap a by (auto simp: axis_def axis_exact_def bound_def field_simps)
    moreover have "1 / 70368744177664 < 2 * a / 1048576 / 3515625"
      using a by (auto simp: axis_def)
    ultimately show ?thesis using e7_deg_error(1) [OF v] by linarith
  qed
  ultimately show ?thesis using flr clip bound_le_exact [OF a] by (metis not_le)
qed

lemma bound_le_e7:
  assumes a: "axis a" and v: "int32 v" and d: "d \<le> 20" and b: "0 < b" "b < 2 ^ d"
  shows "bound a b d \<le> e7_deg v \<longleftrightarrow> b \<le> axis_grid a v div 2 ^ (20 - d)"
proof -
  let ?k = "2 ^ (20 - d) :: int"
  have "b * ?k < 2 ^ d * ?k" using b by simp
  also have "\<dots> = 2 ^ 20" using d by (simp flip: power_add)
  finally have "bound a (b * ?k) 20 \<le> e7_deg v \<longleftrightarrow> b * ?k \<le> axis_grid a v"
    using b by (intro bound20_le_e7 [OF a v]) simp_all
  moreover have "b * ?k \<le> axis_grid a v \<longleftrightarrow> b \<le> axis_grid a v div ?k"
    by (simp add: zdiv_mono1 int_le_div_iff)
  ultimately show ?thesis using bound_scale [OF d, of a b] by simp
qed

end
