(* ===== verification/Cells_Keys.thy ===== *)
theory Cells_Keys
  imports Cells_Grid
begin

text \<open>
  Keys, quadkey codes and grid coordinates: the digit string of a grid square, its base-4
  value, and the code ranges of cells as prefixes of digit strings.
\<close>

section \<open>Digit strings\<close>

abbreviation digit_set :: "char set" where "digit_set \<equiv> set ''0123''"

definition digits :: "string \<Rightarrow> bool" where
  "digits s \<longleftrightarrow> set s \<subseteq> digit_set"

definition dig :: "char \<Rightarrow> int" where
  "dig c = of_char c - 48"

definition b4 :: "string \<Rightarrow> int" where
  "b4 s = foldl (\<lambda>v c. v * 4 + dig c) 0 s"

text \<open>\<open>path k\<close> is the digit string of a cell key; \<open>valid_key\<close> the keys of the contract.\<close>

definition path :: "string \<Rightarrow> string" where
  "path k = (if k = ROOT then [] else k)"

definition key_of :: "string \<Rightarrow> string" where
  "key_of p = (if p = [] then ROOT else p)"

definition valid_key :: "string \<Rightarrow> bool" where
  "valid_key k \<longleftrightarrow> k = ROOT \<or> k \<noteq> [] \<and> digits k \<and> length k \<le> MAX_DEPTH"

text \<open>The digit string of the square with column \<open>x\<close> and (north to south) row \<open>w\<close> at depth \<open>d\<close>.\<close>

fun kd :: "int \<Rightarrow> int \<Rightarrow> nat \<Rightarrow> string" where
  "kd x w 0 = []"
| "kd x w (Suc d) = kd (x div 2) (w div 2) d @ [digit_char (2 * (w mod 2) + x mod 2)]"

lemma digits_simps [simp]:
  "digits []" "digits (c # s) \<longleftrightarrow> c \<in> digit_set \<and> digits s" "digits (s @ t) \<longleftrightarrow> digits s \<and> digits t"
  by (auto simp: digits_def)

lemma digits_take: "digits s \<Longrightarrow> digits (take n s)"
  unfolding digits_def by (meson set_take_subset subset_trans)

lemma ROOT_not_digits: "\<not> digits ROOT"
  by (simp add: ROOT_def)

lemma digits_not_ROOT [simp]: "digits s \<Longrightarrow> s \<noteq> ROOT"
  using ROOT_not_digits by blast

lemma ROOT_not_Nil [simp]: "ROOT \<noteq> []" "[] \<noteq> ROOT"
  by (simp_all add: ROOT_def)

lemma path_ROOT [simp]: "path ROOT = []"
  by (simp add: path_def)

lemma path_key_of [simp]: "digits p \<Longrightarrow> path (key_of p) = p"
  by (auto simp: path_def key_of_def)

lemma key_of_path: "valid_key k \<Longrightarrow> key_of (path k) = k"
  by (auto simp: path_def key_of_def valid_key_def)

lemma digits_path: "valid_key k \<Longrightarrow> digits (path k)"
  by (auto simp: path_def valid_key_def)

lemma length_path: "valid_key k \<Longrightarrow> length (path k) \<le> MAX_DEPTH"
  by (auto simp: path_def valid_key_def)

lemma depth_of_path: "depth_of k = length (path k)"
  by (simp add: depth_of_def path_def)

lemma valid_key_key_of: "digits p \<Longrightarrow> length p \<le> MAX_DEPTH \<Longrightarrow> valid_key (key_of p)"
  by (auto simp: valid_key_def key_of_def)

lemma path_inj: "valid_key k \<Longrightarrow> valid_key l \<Longrightarrow> path k = path l \<longleftrightarrow> k = l"
  using key_of_path by metis

lemma digit_char_simps [simp]:
  "digit_char 0 = CHR ''0''" "digit_char 1 = CHR ''1''" "digit_char 2 = CHR ''2''" "digit_char 3 = CHR ''3''"
  by code_simp+

lemma digit_cases: "0 \<le> (i::int) \<Longrightarrow> i < 4 \<Longrightarrow> i = 0 \<or> i = 1 \<or> i = 2 \<or> i = 3"
  by linarith

lemma digit_char_set: "0 \<le> i \<Longrightarrow> i < 4 \<Longrightarrow> digit_char i \<in> digit_set"
  using digit_cases [of i] by auto

lemma dig_digit_char [simp]: "0 \<le> i \<Longrightarrow> i < 4 \<Longrightarrow> dig (digit_char i) = i"
  using digit_cases [of i] by (auto simp: dig_def)

lemma dig_bounds: "c \<in> digit_set \<Longrightarrow> 0 \<le> dig c \<and> dig c < 4"
  by (auto simp: dig_def)

lemma digit_char_dig: "c \<in> digit_set \<Longrightarrow> digit_char (dig c) = c"
  by (auto simp: dig_def)

lemma int_of_digit_dig: "c \<in> digit_set \<Longrightarrow> int_of_digit c = Inr (dig c)"
  by (auto simp: int_of_digit_def dig_def)

section \<open>Base-4 values\<close>

lemma b4_Nil [simp]: "b4 [] = 0"
  by (simp add: b4_def)

lemma b4_snoc [simp]: "b4 (s @ [c]) = b4 s * 4 + dig c"
  by (simp add: b4_def)

lemma b4_append: "b4 (s @ t) = b4 s * 4 ^ length t + b4 t"
  by (induction t rule: rev_induct) (simp_all flip: append_assoc add: algebra_simps)

lemma b4_bounds: "digits s \<Longrightarrow> 0 \<le> b4 s \<and> b4 s < 4 ^ length s"
proof (induction s rule: rev_induct)
  case (snoc c s)
  then have "0 \<le> b4 s \<and> b4 s < 4 ^ length s" "0 \<le> dig c \<and> dig c < 4"
    by (simp_all only: digits_simps dig_bounds)
  then show ?case by simp
qed simp

lemma b4_inj: "digits s \<Longrightarrow> digits t \<Longrightarrow> length s = length t \<Longrightarrow> b4 s = b4 t \<Longrightarrow> s = t"
proof (induction s arbitrary: t rule: rev_induct)
  case (snoc c s)
  then obtain d u where t: "t = u @ [d]"
    by (metis append_Nil2 length_0_conv length_append_singleton nat.distinct(1) rev_exhaust)
  have dc: "0 \<le> dig c \<and> dig c < 4" "0 \<le> dig d \<and> dig d < 4"
    using snoc.prems t by (simp_all only: digits_simps dig_bounds)
  have eq: "b4 s * 4 + dig c = b4 u * 4 + dig d" using snoc.prems t by simp
  then have "b4 s = b4 u" "dig c = dig d" using dc by presburger+
  moreover have "c = d"
    using \<open>dig c = dig d\<close> snoc.prems t digit_char_dig by (metis digits_simps(2,3))
  ultimately show ?case using snoc t by simp
qed simp

lemma b4_div: "digits s \<Longrightarrow> n \<le> length s \<Longrightarrow> b4 s div 4 ^ (length s - n) = b4 (take n s)"
proof -
  assume s: "digits s" and n: "n \<le> length s"
  have "b4 s = b4 (take n s) * 4 ^ (length s - n) + b4 (drop n s)"
    using b4_append [of "take n s" "drop n s"] by simp
  moreover have "digits (drop n s)"
    using s by (metis append_take_drop_id digits_simps(3))
  then have "0 \<le> b4 (drop n s) \<and> b4 (drop n s) < 4 ^ (length s - n)"
    using b4_bounds [of "drop n s"] by simp
  ultimately show ?thesis by simp
qed

lemma key_to_value_loop_digits:
  "digits s \<Longrightarrow> key_to_value_loop v s = Inr (foldl (\<lambda>v c. v * 4 + dig c) v s)"
  by (induction s arbitrary: v) (auto simp: int_of_digit_dig simp del: insert_iff)

lemma key_to_value_valid: "valid_key k \<Longrightarrow> key_to_value k = Inr (b4 (path k))"
  by (auto simp: key_to_value_def path_def valid_key_def b4_def key_to_value_loop_digits)

definition key_lo :: "string \<Rightarrow> int" where
  "key_lo k = b4 (path k) * 4 ^ (MAX_DEPTH - length (path k))"

definition key_hi :: "string \<Rightarrow> int" where
  "key_hi k = key_lo k + 4 ^ (MAX_DEPTH - length (path k)) - 1"

lemma qk_range_valid: "valid_key k \<Longrightarrow> qk_range k = Inr (key_lo k, key_hi k)"
  using length_path [of k]
  by (simp add: qk_range_def key_to_value_valid depth_of_path key_lo_def key_hi_def
      push_bit_eq_mult power_mult Let_def)

text \<open>A code lies in the range of a cell exactly when the cell's digits are a prefix of its own.\<close>

lemma in_range_iff_prefix:
  assumes k: "valid_key k" and s: "digits s" "length s = MAX_DEPTH"
  shows "key_lo k \<le> b4 s \<and> b4 s \<le> key_hi k \<longleftrightarrow> prefix (path k) s"
proof -
  let ?n = "length (path k)" and ?m = "4 ^ (MAX_DEPTH - length (path k)) :: int"
  have n: "?n \<le> MAX_DEPTH" by (rule length_path [OF k])
  have m: "0 < ?m" by simp
  have "key_lo k \<le> b4 s \<and> b4 s \<le> key_hi k \<longleftrightarrow> b4 s div ?m = b4 (path k)"
  proof
    assume "key_lo k \<le> b4 s \<and> b4 s \<le> key_hi k"
    then have "b4 (path k) * ?m \<le> b4 s" "b4 s < (b4 (path k) + 1) * ?m"
      by (simp_all add: key_lo_def key_hi_def algebra_simps)
    then show "b4 s div ?m = b4 (path k)"
      using m by (intro int_div_pos_eq [where r = "b4 s - b4 (path k) * ?m"]) (simp_all add: algebra_simps)
  next
    assume d: "b4 s div ?m = b4 (path k)"
    have r: "0 \<le> b4 s mod ?m" "b4 s mod ?m < ?m" using m by simp_all
    have "b4 s = b4 (path k) * ?m + b4 s mod ?m"
      unfolding d [symmetric] by (simp only: div_mult_mod_eq)
    then show "key_lo k \<le> b4 s \<and> b4 s \<le> key_hi k"
      using r unfolding key_hi_def key_lo_def by linarith
  qed
  also have "\<dots> \<longleftrightarrow> b4 (take ?n s) = b4 (path k)"
    using b4_div [OF s(1), of ?n] n s(2) by simp
  also have "\<dots> \<longleftrightarrow> take ?n s = path k"
    using b4_inj [of "take ?n s" "path k"] digits_take [OF s(1)] digits_path [OF k] n s(2) by auto
  also have "\<dots> \<longleftrightarrow> prefix (path k) s"
    by (metis append_take_drop_id prefixI prefix_def append_eq_conv_conj)
  finally show ?thesis .
qed

section \<open>Codes of grid squares\<close>

lemma length_kd [simp]: "length (kd x w d) = d"
  by (induction d arbitrary: x w) simp_all

lemma digits_kd [simp]: "digits (kd x w d)"
proof (induction d arbitrary: x w)
  case (Suc d)
  have "digit_char (2 * (w mod 2) + x mod 2) \<in> digit_set"
    by (intro digit_char_set) (simp_all add: mod2_eq_if)
  then show ?case using Suc by (simp del: insert_iff)
qed simp

lemma take_kd: "n \<le> d \<Longrightarrow> take n (kd x w d) = kd (x div 2 ^ (d - n)) (w div 2 ^ (d - n)) n"
proof (induction d arbitrary: x w)
  case (Suc d)
  show ?case
  proof (cases "n = Suc d")
    case False
    then have n: "n \<le> d" using Suc.prems by simp
    then have "take n (kd x w (Suc d)) = take n (kd (x div 2) (w div 2) d)" by simp
    also have "\<dots> = kd (x div 2 div 2 ^ (d - n)) (w div 2 div 2 ^ (d - n)) n" by (rule Suc.IH [OF n])
    finally show ?thesis using n by (simp add: Suc_diff_le flip: zdiv_zmult2_eq)
  qed simp
qed simp

lemma or_digit: "0 \<le> (d::int) \<Longrightarrow> d < 4 \<Longrightarrow> push_bit 2 c OR d = c * 4 + d"
proof -
  assume d: "0 \<le> d" "d < 4"
  have "\<not> bit (push_bit 2 c) n \<or> \<not> bit d n" for n
  proof (cases "n < 2")
    case False
    then have "d < 2 ^ n" using d power_increasing [of 2 n "2::int"] by simp
    then show ?thesis using d by (simp add: bit_iff_odd)
  qed (simp add: bit_push_bit_iff)
  then have "push_bit 2 c + d = push_bit 2 c OR d" by (rule disjunctive_add)
  then show ?thesis by (simp add: push_bit_eq_mult)
qed

lemma qk_digit_value:
  fixes x w :: int
  shows "push_bit 1 (drop_bit i w AND 1) OR (drop_bit i x AND 1) = 2 * (w div 2 ^ i mod 2) + x div 2 ^ i mod 2"
proof -
  have a: "drop_bit i v AND 1 = v div 2 ^ i mod 2" for v :: int
    by (simp add: and_one_eq drop_bit_eq_div)
  have "\<not> bit (push_bit 1 (w div 2 ^ i mod 2)) n \<or> \<not> bit (x div 2 ^ i mod 2) n" for n
    by (cases n) (auto simp: bit_iff_odd mod2_eq_if)
  then have "push_bit 1 (w div 2 ^ i mod 2) + x div 2 ^ i mod 2 = push_bit 1 (w div 2 ^ i mod 2) OR (x div 2 ^ i mod 2)"
    by (rule disjunctive_add)
  then show ?thesis by (simp add: a push_bit_eq_mult)
qed

lemma qk_step_value: "qk_step x w i code = code * 4 + (2 * (w div 2 ^ i mod 2) + x div 2 ^ i mod 2)"
  unfolding qk_step_def Let_def qk_digit_value by (intro or_digit) (simp_all add: mod2_eq_if)

lemma fold_qk_step: "fold (qk_step x w) (rev [0..<n]) c = c * 4 ^ n + b4 (kd x w n)"
proof (induction n arbitrary: c x w)
  case (Suc n)
  let ?f = "\<lambda>i. 2 * (w div 2 ^ i mod 2) + x div 2 ^ i mod 2"
  have "fold (qk_step x w) (rev [1..<Suc n]) c = fold (qk_step (x div 2) (w div 2)) (rev [0..<n]) c"
  proof -
    have "rev [1..<Suc n] = map Suc (rev [0..<n])" by (simp add: map_Suc_upt flip: rev_map del: upt_Suc)
    moreover have "qk_step x w (Suc i) = qk_step (x div 2) (w div 2) i" for i
      by (simp add: fun_eq_iff qk_step_value zdiv_zmult2_eq)
    ultimately show ?thesis by (simp add: fold_map comp_def)
  qed
  also have "\<dots> = c * 4 ^ n + b4 (kd (x div 2) (w div 2) n)" by (rule Suc.IH)
  finally have eq: "fold (qk_step x w) (rev [0..<Suc n]) c
      = qk_step x w 0 (c * 4 ^ n + b4 (kd (x div 2) (w div 2) n))"
    by (subst upt_conv_Cons) simp_all
  have "dig (digit_char (2 * (w mod 2) + x mod 2)) = 2 * (w mod 2) + x mod 2"
    by (intro dig_digit_char) (simp_all add: mod2_eq_if)
  then show ?case unfolding eq by (simp add: qk_step_value algebra_simps)
qed simp

lemma inv_y: "0 \<le> y \<Longrightarrow> y < 1048576 \<Longrightarrow> (push_bit MAX_DEPTH 1 - 1) XOR y = 1048575 - (y :: int)"
proof -
  assume y: "0 \<le> y" "y < 1048576"
  have "mask 20 XOR y = mask 20 - y"
  proof -
    have "take_bit 20 y = y" using y by (simp add: take_bit_int_eq_self)
    then have "mask 20 XOR y = mask 20 AND NOT y"
      by (intro bit_eqI) (auto simp: bit_simps dest: arg_cong [of _ _ "\<lambda>v. bit v _"] bit_take_bit_iff [THEN iffD1])
    moreover have "take_bit 20 (NOT y) = mask 20 - y"
      using \<open>take_bit 20 y = y\<close> by (metis take_bit_not_eq_mask_diff)
    ultimately show ?thesis by (simp add: take_bit_eq_mask and.commute)
  qed
  then show ?thesis unfolding push_bit_20 by (simp add: mask_eq_exp_minus_1)
qed

end
