(* ===== verification/Cells_Place.thy ===== *)
theory Cells_Place
  imports Cells_Keys
begin

text \<open>
  Point placement: the code of a point is the digit string of its grid square, the scalar
  descent and the vectorised search walk the same digit string, and on a prefix-free set of
  leaves they return the same leaf.
\<close>

section \<open>The digit string of a point\<close>

definition square :: "int \<Rightarrow> int \<Rightarrow> string" where
  "square lat_e7 lon_e7 = kd (grid_x_e7 lon_e7) (1048575 - grid_y_e7 lat_e7) MAX_DEPTH"

lemma square_digits [simp]: "digits (square lat lon)" "length (square lat lon) = MAX_DEPTH"
  by (simp_all add: square_def)

lemma point_to_qk_e7:
  assumes "int32 lat_e7" and "int32 lon_e7"
  shows "point_to_qk (e7_deg lat_e7) (e7_deg lon_e7) = b4 (square lat_e7 lon_e7)"
proof -
  have "(push_bit MAX_DEPTH 1 - 1) XOR grid_y_e7 lat_e7 = 1048575 - grid_y_e7 lat_e7"
    by (intro inv_y grid_e7_bounds)
  then show ?thesis
    by (simp only: point_to_qk_def grid_xy_e7 [OF assms] Let_def prod.case fold_qk_step square_def
        mult_zero_left add_0)
qed

lemma fold_qk_np_step:
  "fold (qk_np_step x w) is (of_int c) = of_int (fold (qk_step x w) is c)"
proof (induction "is" arbitrary: c)
  case (Cons i "is")
  have "qk_np_step x w i (of_int c) = of_int (qk_step x w i c)"
    by (simp only: qk_np_step_def qk_step_def Let_def push_bit_of_int word_wi_log_defs)
  then show ?case using Cons by simp
qed simp

lemma point_to_qk_np1_eq:
  "point_to_qk_np1 lat_e7 lon_e7 = of_int (point_to_qk (e7_deg lat_e7) (e7_deg lon_e7))"
proof -
  have "fold (qk_np_step x w) is 0 = of_int (fold (qk_step x w) is 0)" for x w "is"
    using fold_qk_np_step [of x w "is" 0] by simp
  then show ?thesis
    by (simp only: point_to_qk_np1_def point_to_qk_def grid_xy_def Let_def prod.case
        flip: np_clip_def py_int_clip)
qed

lemma code_bounds: "0 \<le> b4 (square lat lon)" "b4 (square lat lon) < 2 ^ 40"
  using b4_bounds [of "square lat lon"] by (simp_all add: MAX_DEPTH_def)

lemma uint_of_code: "0 \<le> c \<Longrightarrow> c < 2 ^ 40 \<Longrightarrow> uint (of_int c :: 64 word) = c"
  by (simp add: uint_word_of_int_eq take_bit_int_eq_self)

lemma uint_qk_np1:
  "int32 lat \<Longrightarrow> int32 lon \<Longrightarrow> uint (point_to_qk_np1 lat lon) = b4 (square lat lon)"
  using code_bounds [of lat lon] by (simp add: point_to_qk_np1_eq point_to_qk_e7 uint_of_code)

section \<open>The scalar descent\<close>

definition gbox :: "int \<Rightarrow> int \<Rightarrow> nat \<Rightarrow> bbox" where
  "gbox X Y d = (bound 90 Y d, bound 180 X d, bound 90 (Y + 1) d, bound 180 (X + 1) d)"

lemma gbox_world: "gbox 0 0 0 = WORLD"
  by (simp add: gbox_def WORLD_def)

lemma axis_90 [simp]: "axis 90" and axis_180 [simp]: "axis 180"
  by (simp_all add: axis_def)

lemma div_step:
  fixes x :: int
  assumes "d < 20"
  shows "x div 2 ^ (20 - d) = x div 2 ^ (20 - Suc d) div 2"
proof -
  have "20 - d = Suc (20 - Suc d)" using assms by simp
  then have "(2::int) ^ (20 - d) = 2 ^ (20 - Suc d) * 2" by (simp only: power_Suc2)
  then show ?thesis by (simp add: zdiv_zmult2_eq)
qed

lemma div_bounds: "0 \<le> x \<Longrightarrow> x < 1048576 \<Longrightarrow> d \<le> 20 \<Longrightarrow> 0 \<le> x div 2 ^ (20 - d) \<and> x div 2 ^ (20 - d) < (2::int) ^ d"
proof -
  assume x: "0 \<le> x" "x < 1048576" and d: "d \<le> 20"
  have "x < 2 ^ d * 2 ^ (20 - d)" using x d by (simp flip: power_add)
  then show ?thesis
    using x int_le_div_iff [of "2 ^ (20 - d)" "2 ^ d" x] by (simp add: pos_imp_zdiv_nonneg_iff not_le)
qed

lemma compl_div:
  assumes "0 \<le> y" "y < 1048576" "k \<le> 20"
  shows "(1048575 - y) div 2 ^ k = (2::int) ^ (20 - k) - 1 - y div 2 ^ k"
proof -
  let ?m = "2 ^ k :: int"
  have m: "0 < ?m" by simp
  have "2 ^ (20 - k) * ?m = 1048576" using assms by (simp flip: power_add)
  moreover have "y = y div ?m * ?m + y mod ?m" by (simp only: div_mult_mod_eq)
  ultimately have "1048575 - y = (2 ^ (20 - k) - 1 - y div ?m) * ?m + (?m - 1 - y mod ?m)"
    by (simp add: left_diff_distrib)
  moreover have "0 \<le> ?m - 1 - y mod ?m" "?m - 1 - y mod ?m < ?m"
    using pos_mod_bound [OF m, of y] pos_mod_sign [OF m, of y] by linarith+
  ultimately show ?thesis
    by (intro int_div_pos_eq [where r = "?m - 1 - y mod ?m"]) (simp_all only: mult.commute)
qed

definition at_depth :: "int \<Rightarrow> nat \<Rightarrow> int" where
  "at_depth x d = x div 2 ^ (20 - d)"

lemma at_depth_0: "0 \<le> x \<Longrightarrow> x < 1048576 \<Longrightarrow> at_depth x 0 = 0"
  by (simp add: at_depth_def)

lemma at_depth_Suc_cases:
  "d < 20 \<Longrightarrow> at_depth x (Suc d) = 2 * at_depth x d \<or> at_depth x (Suc d) = 2 * at_depth x d + 1"
proof -
  assume "d < 20"
  then have "at_depth x d = at_depth x (Suc d) div 2" unfolding at_depth_def by (rule div_step)
  then show ?thesis by presburger
qed

lemma mid_cmp:
  assumes a: "axis a" and v: "int32 v" and d: "d < 20"
  shows "bound a (2 * at_depth (axis_grid a v) d + 1) (Suc d) \<le> e7_deg v
    \<longleftrightarrow> at_depth (axis_grid a v) (Suc d) = 2 * at_depth (axis_grid a v) d + 1"
proof -
  let ?g = "axis_grid a v"
  have g: "0 \<le> ?g" "?g < 1048576"
    using np_clip_bounds [of 0 1048575] by (simp_all add: axis_grid_def order_le_less_trans [of _ 1048575])
  have "0 \<le> at_depth ?g d \<and> at_depth ?g d < 2 ^ d"
    using div_bounds [OF g, of d] d by (simp add: at_depth_def)
  then have "bound a (2 * at_depth ?g d + 1) (Suc d) \<le> e7_deg v
      \<longleftrightarrow> 2 * at_depth ?g d + 1 \<le> at_depth ?g (Suc d)"
    using d unfolding at_depth_def [of ?g "Suc d"] by (intro bound_le_e7 [OF a v]) auto
  then show ?thesis using at_depth_Suc_cases [OF d, of ?g] by auto
qed

lemma take_square:
  "d \<le> 20 \<Longrightarrow> take d (square lat lon)
     = kd (at_depth (grid_x_e7 lon) d) (2 ^ d - 1 - at_depth (grid_y_e7 lat) d) d"
  using grid_e7_bounds
  by (simp add: square_def MAX_DEPTH_def take_kd at_depth_def compl_div)

lemma take_Suc_square:
  assumes d: "d < 20"
  shows "take (Suc d) (square lat lon) = take d (square lat lon) @
    [digit_char ((if at_depth (grid_y_e7 lat) (Suc d) = 2 * at_depth (grid_y_e7 lat) d + 1 then 0 else 2)
               + (if at_depth (grid_x_e7 lon) (Suc d) = 2 * at_depth (grid_x_e7 lon) d + 1 then 1 else 0))]"
proof -
  let ?X = "at_depth (grid_x_e7 lon)" and ?Y = "at_depth (grid_y_e7 lat)"
  have "?X (Suc d) = 2 * ?X d \<or> ?X (Suc d) = 2 * ?X d + 1" "?Y (Suc d) = 2 * ?Y d \<or> ?Y (Suc d) = 2 * ?Y d + 1"
    using at_depth_Suc_cases [OF d] by blast+
  then have "?X (Suc d) div 2 = ?X d" "(2 ^ Suc d - 1 - ?Y (Suc d)) div 2 = 2 ^ d - 1 - ?Y d"
    "?X (Suc d) mod 2 = (if ?X (Suc d) = 2 * ?X d + 1 then 1 else 0)"
    "2 * ((2 ^ Suc d - 1 - ?Y (Suc d)) mod 2) = (if ?Y (Suc d) = 2 * ?Y d + 1 then 0 else 2)"
    by (auto; presburger)+
  then show ?thesis using d by (simp only: take_square Suc_leI less_imp_le_nat kd.simps)
qed

lemma key_of_snoc: "digits p \<Longrightarrow> extend_key (key_of p) c = key_of (p @ [c])"
  by (auto simp: extend_key_def key_of_def)

lemma point_cell_step:
  fixes lat lon :: int
  defines "X \<equiv> at_depth (grid_x_e7 lon)" and "Y \<equiv> at_depth (grid_y_e7 lat)" and "s \<equiv> square lat lon"
  assumes i: "int32 lat" "int32 lon" and d: "d < 20" and nl: "\<not> leaf_lookup L (key_of (take d s))"
  shows "point_cell_loop (e7_deg lat) (e7_deg lon) L (gbox (X d) (Y d) d) (key_of (take d s)) d
       = point_cell_loop (e7_deg lat) (e7_deg lon) L (gbox (X (Suc d)) (Y (Suc d)) (Suc d))
           (key_of (take (Suc d) s)) (Suc d)"
proof -
  have b: "0 \<le> X d" "X d < 2 ^ d" "0 \<le> Y d" "Y d < 2 ^ d"
    using div_bounds [of _ d] grid_e7_bounds d by (simp_all add: X_def Y_def at_depth_def)
  have mlon: "fdiv (fadd (bound 180 (X d) d) (bound 180 (X d + 1) d)) 2 = bound 180 (2 * X d + 1) (Suc d)"
    and mlat: "fdiv (fadd (bound 90 (Y d) d) (bound 90 (Y d + 1) d)) 2 = bound 90 (2 * Y d + 1) (Suc d)"
    using mid_exact b d by simp_all
  have east: "bound 180 (2 * X d + 1) (Suc d) \<le> e7_deg lon \<longleftrightarrow> X (Suc d) = 2 * X d + 1"
    using mid_cmp [OF axis_180 i(2) d] by (simp add: X_def axis_grid_eq)
  have north: "bound 90 (2 * Y d + 1) (Suc d) \<le> e7_deg lat \<longleftrightarrow> Y (Suc d) = 2 * Y d + 1"
    using mid_cmp [OF axis_90 i(1) d] by (simp add: Y_def axis_grid_eq)
  have c: "X (Suc d) = 2 * X d \<or> X (Suc d) = 2 * X d + 1" "Y (Suc d) = 2 * Y d \<or> Y (Suc d) = 2 * Y d + 1"
    unfolding X_def Y_def using at_depth_Suc_cases [OF d] by blast+
  have k: "take (Suc d) s = take d s @ [digit_char ((if Y (Suc d) = 2 * Y d + 1 then 0 else 2)
      + (if X (Suc d) = 2 * X d + 1 then 1 else 0))]"
    unfolding s_def X_def Y_def by (rule take_Suc_square [OF d])
  have e: "extend_key (key_of (take d s)) c' = key_of (take d s @ [c'])" for c'
    by (simp add: key_of_snoc digits_take s_def)
  have bd: "bound a (2 * z) (Suc d) = bound a z d" "bound a (2 + 2 * z) (Suc d) = bound a (z + 1) d" for a z
    using bound_double_index [of a z d] bound_double_index [of a "z + 1" d] by (simp_all add: algebra_simps)
  show ?thesis
    unfolding k gbox_def using nl d c
    by (subst point_cell_loop.simps)
       (auto simp: MAX_DEPTH_def mlon mlat east north e bd Let_def)
qed

lemma point_cell_loop_spec:
  fixes lat lon :: int
  defines "s \<equiv> square lat lon"
  assumes i: "int32 lat" "int32 lon" and "d \<le> 20"
  shows "\<exists>n. d \<le> n \<and> n \<le> 20 \<and>
    point_cell_loop (e7_deg lat) (e7_deg lon) L
      (gbox (at_depth (grid_x_e7 lon) d) (at_depth (grid_y_e7 lat) d) d) (key_of (take d s)) d
      = key_of (take n s) \<and>
    (\<forall>m. d \<le> m \<longrightarrow> m < n \<longrightarrow> \<not> leaf_lookup L (key_of (take m s))) \<and>
    (n < 20 \<longrightarrow> leaf_lookup L (key_of (take n s)))"
  using \<open>d \<le> 20\<close>
proof (induction "20 - d" arbitrary: d)
  case 0
  then have "d = 20" by simp
  then show ?case
    by (intro exI [of _ 20]) (simp add: gbox_def point_cell_loop.simps MAX_DEPTH_def)
next
  case (Suc k)
  then have d: "d < 20" by simp
  show ?case
  proof (cases "leaf_lookup L (key_of (take d s))")
    case True
    then show ?thesis using d
      by (intro exI [of _ d]) (simp add: gbox_def point_cell_loop.simps)
  next
    case False
    have "k = 20 - Suc d" "Suc d \<le> 20" using Suc.hyps(2) d by simp_all
    from Suc.hyps(1) [OF this] obtain n where n: "Suc d \<le> n" "n \<le> 20"
      "point_cell_loop (e7_deg lat) (e7_deg lon) L
        (gbox (at_depth (grid_x_e7 lon) (Suc d)) (at_depth (grid_y_e7 lat) (Suc d)) (Suc d))
        (key_of (take (Suc d) s)) (Suc d) = key_of (take n s)"
      "\<forall>m. Suc d \<le> m \<longrightarrow> m < n \<longrightarrow> \<not> leaf_lookup L (key_of (take m s))"
      "n < 20 \<longrightarrow> leaf_lookup L (key_of (take n s))"
      by blast
    have "\<not> leaf_lookup L (key_of (take m s))" if "d \<le> m" "m < n" for m
      using that n(4) False by (cases "m = d") auto
    then show ?thesis
      using point_cell_step [OF i d False [unfolded s_def]] n
      by (intro exI [of _ n]) (auto simp: s_def)
  qed
qed

lemma point_cell_spec:
  assumes "int32 lat" "int32 lon"
  obtains n where "n \<le> 20" "point_cell (e7_deg lat) (e7_deg lon) L = key_of (take n (square lat lon))"
    "\<And>m. m < n \<Longrightarrow> \<not> leaf_lookup L (key_of (take m (square lat lon)))"
    "n < 20 \<Longrightarrow> leaf_lookup L (key_of (take n (square lat lon)))"
proof -
  have "point_cell (e7_deg lat) (e7_deg lon) L = point_cell_loop (e7_deg lat) (e7_deg lon) L
      (gbox (at_depth (grid_x_e7 lon) 0) (at_depth (grid_y_e7 lat) 0) 0) (key_of (take 0 (square lat lon))) 0"
    using grid_e7_bounds by (simp add: point_cell_def at_depth_0 gbox_world key_of_def)
  then show thesis
    using point_cell_loop_spec [OF assms, of 0 L] that by auto
qed

end
