(* ===== verification/Cells_Leaves.thy ===== *)
theory Cells_Leaves
  imports Cells_Place "HOL-Library.Multiset"
begin

text \<open>
  Leaf sets and their index. A leaf set is a list of valid keys none of which is an ancestor
  of another (\<open>leaf_set\<close>, the contract the builder establishes and the placement code uses).
  On such a set the \<open>searchsorted\<close> lookup of \<open>LeafIndex\<close> finds the leaf that holds a code.
  \<open>select_leaf_cells\<close> of \<^verbatim>\<open>src/src/osmpq/build/common.py\<close> chooses leaf sets from the nodes.
\<close>

section \<open>Choosing the leaves\<close>

text \<open>
  \<open>np.unique(qk, return_counts=True)\<close> and the cumulative counts; \<open>range_count\<close> reads the
  number of nodes of a code range off them.
\<close>

definition np_cumsum :: "nat list \<Rightarrow> nat list" where
  "np_cumsum counts = 0 # map (\<lambda>i. sum_list (take (Suc i) counts)) [0..<length counts]"

definition range_count :: "int list \<Rightarrow> int \<Rightarrow> int \<Rightarrow> nat" where
  "range_count qk lo hi =
     (let codes = sorted_set qk; counts = map (count_list qk) codes; cum = np_cumsum counts;
          i0 = searchsorted_left codes lo; i1 = searchsorted_right codes hi
      in cum ! i1 - cum ! i0)"

function select_recurse :: "int list \<Rightarrow> nat \<Rightarrow> nat \<Rightarrow> string \<Rightarrow> nat \<Rightarrow> string list result" where
  "select_recurse qk max_nodes max_depth key depth =
     rbind (qk_range key) (\<lambda>(lo, hi).
       let n = range_count qk lo hi
       in if n \<le> max_nodes \<or> max_depth \<le> depth
          then Inr (if 0 < n \<or> key = ROOT then [key] else [])
          else rbind (children key) (\<lambda>cs.
                 rbind (rmap (\<lambda>c. select_recurse qk max_nodes max_depth c (depth + 1)) cs)
                       (\<lambda>parts. Inr (concat parts))))"
  by pat_completeness auto
termination
  by (relation "measure (\<lambda>(qk, mn, md, key, depth). md - depth)") auto

declare select_recurse.simps [simp del]

definition select_leaf_cells :: "(int \<times> int) list \<Rightarrow> nat \<Rightarrow> nat \<Rightarrow> string list result" where
  "select_leaf_cells nodes max_nodes max_depth =
     (if nodes = [] then Inr [ROOT]
      else select_recurse (map uint (point_to_qk_np nodes)) max_nodes max_depth ROOT 0)"

section \<open>Leaf sets\<close>

lemma searchsorted_right_eqI:
  assumes "sorted xs" and "i < length xs" and "xs ! i \<le> q"
    and "\<And>j. i < j \<Longrightarrow> j < length xs \<Longrightarrow> q < xs ! j"
  shows "searchsorted_right xs q = Suc i"
proof (rule le_antisym)
  show "searchsorted_right xs q \<le> Suc i"
  proof (rule ccontr)
    assume n: "\<not> searchsorted_right xs q \<le> Suc i"
    then have "Suc i < length xs" using searchsorted_right_le [of xs q] by linarith
    then have "q < xs ! Suc i" using assms(4) by simp
    moreover have "xs ! Suc i \<le> q" using n by (intro searchsorted_right_below) simp
    ultimately show False by simp
  qed
  show "Suc i \<le> searchsorted_right xs q"
    using assms searchsorted_right_above [of xs q i] by force
qed

lemma key_range_bounds:
  assumes k: "valid_key k"
  shows "0 \<le> key_lo k" "key_lo k \<le> key_hi k" "key_hi k < 2 ^ 40"
proof -
  let ?m = "4 ^ (MAX_DEPTH - length (path k)) :: int" and ?b = "b4 (path k)"
  have b: "0 \<le> ?b" "?b + 1 \<le> 4 ^ length (path k)" using b4_bounds [OF digits_path [OF k]] by auto
  then show "0 \<le> key_lo k" "key_lo k \<le> key_hi k" by (simp_all add: key_lo_def key_hi_def)
  have "(?b + 1) * ?m \<le> 4 ^ length (path k) * ?m" using b by (intro mult_right_mono) simp_all
  also have "\<dots> = 2 ^ 40" using length_path [OF k] by (simp add: MAX_DEPTH_def flip: power_add)
  finally show "key_hi k < 2 ^ 40" by (simp add: key_hi_def key_lo_def algebra_simps)
qed

lemma word_le_code:
  assumes "0 \<le> a" "a < 2 ^ 40" "0 \<le> b" "b < 2 ^ 40"
  shows "(of_int a :: 64 word) \<le> of_int b \<longleftrightarrow> a \<le> b" "(of_int a :: 64 word) < of_int b \<longleftrightarrow> a < b"
  using assms by (simp_all add: word_le_def word_less_def uint_of_code)

locale leaf_set =
  fixes L :: "string list"
  assumes valid: "k \<in> set L \<Longrightarrow> valid_key k"
    and prefix_free: "k \<in> set L \<Longrightarrow> l \<in> set L \<Longrightarrow> prefix (path k) (path l) \<Longrightarrow> k = l"
begin

lemma key_lo_in_range_unique:
  assumes k: "k \<in> set L" and l: "l \<in> set L" and r: "key_lo k \<le> key_lo l" "key_lo l \<le> key_hi k"
  shows "k = l"
proof -
  let ?s = "path l @ replicate (MAX_DEPTH - length (path l)) (CHR ''0'')"
  have s: "digits ?s" "length ?s = MAX_DEPTH"
    using digits_path [OF valid [OF l]] length_path [OF valid [OF l]] by (auto simp: digits_def)
  have "b4 (replicate n (CHR ''0'')) = 0" for n
    by (induction n) (simp_all add: replicate_append_same [symmetric] dig_def)
  then have "b4 ?s = key_lo l"
    by (simp add: b4_append key_lo_def)
  then have "prefix (path k) ?s"
    using in_range_iff_prefix [OF valid [OF k] s] r by simp
  then have "prefix (path k) (path l) \<or> prefix (path l) (path k)"
    by (meson prefixI prefix_same_cases)
  then show ?thesis using prefix_free [OF k l] prefix_free [OF l k] by auto
qed

lemma LeafIndex_ok:
  obtains ix where "LeafIndex L = Inr ix" "li_leaves ix = sorted_set L"
    "mset (li_keys_by_lo ix) = mset (sorted_set L)"
    "sorted (map key_lo (li_keys_by_lo ix))"
    "li_los ix = map (\<lambda>k. of_int (key_lo k)) (li_keys_by_lo ix)"
    "li_his ix = map (\<lambda>k. of_int (key_hi k)) (li_keys_by_lo ix)"
proof -
  let ?t = "\<lambda>k. (key_lo k, key_hi k, k)" and ?ls = "sorted_set L"
  let ?rs = "sort_key (\<lambda>(lo, hi, k). lo) (map ?t ?ls)"
  have rm: "rmap (\<lambda>k. rbind (qk_range k) (\<lambda>(lo, hi). Inr (lo, hi, k))) ?ls = Inr (map ?t ?ls)"
    by (rule rmap_Inr) (simp add: qk_range_valid valid)
  have "set ?rs = ?t ` set L" by simp
  then have t: "r \<in> set ?rs \<Longrightarrow> r = ?t (snd (snd r))" for r by auto
  define keys where "keys = map (\<lambda>(lo, hi, k). k) ?rs"
  have rs: "?rs = map ?t keys"
    unfolding keys_def map_map comp_def by (rule map_idI [symmetric]) (use t in \<open>auto split: prod.splits\<close>)
  have "mset keys = image_mset (\<lambda>(lo, hi, k). k) (mset (map ?t ?ls))"
    unfolding keys_def by (simp only: mset_map mset_sort)
  then have "mset keys = mset ?ls" by (simp add: multiset.map_comp comp_def)
  moreover have "sorted (map (\<lambda>(lo, hi, k). lo) ?rs)" by (rule sorted_sort_key)
  then have "sorted (map key_lo keys)" unfolding rs by (simp add: comp_def)
  ultimately show thesis
    using that [of "\<lparr>li_leaves = ?ls, li_los = map (\<lambda>k. of_int (key_lo k)) keys,
        li_his = map (\<lambda>k. of_int (key_hi k)) keys, li_keys_by_lo = keys\<rparr>"]
    by (simp add: LeafIndex_def rm Let_def rs comp_def)
qed

lemma sorted_los:
  assumes ix: "LeafIndex L = Inr ix"
  shows "sorted (li_los ix)"
proof -
  obtain ix' where ix': "LeafIndex L = Inr ix'"
    and ms: "mset (li_keys_by_lo ix') = mset (sorted_set L)"
    and srt: "sorted (map key_lo (li_keys_by_lo ix'))"
    and los: "li_los ix' = map (\<lambda>k. of_int (key_lo k)) (li_keys_by_lo ix')"
    by (rule LeafIndex_ok)
  let ?ks = "li_keys_by_lo ix'"
  have set: "set ?ks = set L" using mset_eq_setD [OF ms] by simp
  have b: "0 \<le> key_lo l" "key_lo l < 2 ^ 40" if "l \<in> set L" for l
    using key_range_bounds [OF valid [OF that]] by linarith+
  have "sorted_wrt (\<lambda>k l. key_lo k \<le> key_lo l) ?ks" using srt by (simp add: sorted_map)
  then have "sorted_wrt (\<lambda>k l. (of_int (key_lo k) :: 64 word) \<le> of_int (key_lo l)) ?ks"
  proof (rule sorted_wrt_mono_rel [rotated])
    fix k l assume "k \<in> set ?ks" "l \<in> set ?ks" "key_lo k \<le> key_lo l"
    then show "(of_int (key_lo k) :: 64 word) \<le> of_int (key_lo l)"
      using word_le_code(1) [of "key_lo k" "key_lo l"] b [of k] b [of l] set by simp
  qed
  then show ?thesis using ix ix' los by (simp add: sorted_map)
qed

lemma lookup_code:
  assumes ix: "LeafIndex L = Inr ix" and k: "k \<in> set L"
    and c: "key_lo k \<le> c" "c \<le> key_hi k"
  shows "leaf_for_qk ix (of_int c) = Inr k"
    and "contains_qk ix (leaf_index_for_qk ix (of_int c)) (of_int c) = Inr True"
    and "py_nth (map depth_of (li_keys_by_lo ix)) (leaf_index_for_qk ix (of_int c)) = Inr (depth_of k)"
proof -
  obtain ix' where ix': "LeafIndex L = Inr ix'"
    and ms: "mset (li_keys_by_lo ix') = mset (sorted_set L)"
    and srt: "sorted (map key_lo (li_keys_by_lo ix'))"
    and los: "li_los ix' = map (\<lambda>k. of_int (key_lo k)) (li_keys_by_lo ix')"
    and his: "li_his ix' = map (\<lambda>k. of_int (key_hi k)) (li_keys_by_lo ix')"
    by (rule LeafIndex_ok)
  with ix have [simp]: "ix' = ix" by simp
  let ?ks = "li_keys_by_lo ix"
  have set: "set ?ks = set L" and dist: "distinct ?ks"
    using ms mset_eq_setD [OF ms] mset_eq_imp_distinct_iff [OF ms] by simp_all
  then obtain i where i: "i < length ?ks" "?ks ! i = k" using k by (metis in_set_conv_nth)
  have b: "0 \<le> key_lo l" "key_lo l < 2 ^ 40" "0 \<le> key_hi l" "key_hi l < 2 ^ 40" if "l \<in> set L" for l
    using key_range_bounds [OF valid [OF that]] by linarith+
  have cb: "0 \<le> c" "c < 2 ^ 40" using b [OF k] c by linarith+
  have "sorted (li_los ix)" by (rule sorted_los [OF ix])
  moreover have "of_int c < li_los ix ! j" if j: "i < j" "j < length (li_los ix)" for j
  proof -
    let ?l = "?ks ! j"
    have jl: "j < length ?ks" using j los by simp
    then have l: "?l \<in> set L" using set nth_mem by blast
    have ne: "?l \<noteq> k" using nth_eq_iff_index_eq [OF dist jl i(1)] i(2) j by simp
    have "key_lo k \<le> key_lo ?l"
      using srt i j los sorted_nth_mono [of "map key_lo ?ks" i j] by simp
    then have "c < key_lo ?l" using key_lo_in_range_unique [OF k l] ne c by fastforce
    then show ?thesis
      using word_le_code(2) [OF cb b(1,2) [OF l]] jl los by simp
  qed
  ultimately have "searchsorted_right (li_los ix) (of_int c) = Suc i"
    using i los b [OF k] cb c(1) by (intro searchsorted_right_eqI) (simp_all add: word_le_code)
  then have idx: "leaf_index_for_qk ix (of_int c) = int i"
    using i los by (simp add: leaf_index_for_qk_def np_clip_id)
  show "leaf_for_qk ix (of_int c) = Inr k" using i by (simp add: leaf_for_qk_def idx py_nth_Inr)
  show "contains_qk ix (leaf_index_for_qk ix (of_int c)) (of_int c) = Inr True"
    using i his b [OF k] cb c by (simp add: contains_qk_def idx py_nth_Inr word_le_code)
  show "py_nth (map depth_of ?ks) (leaf_index_for_qk ix (of_int c)) = Inr (depth_of k)"
    using i by (simp add: idx py_nth_Inr)
qed

text \<open>The scalar descent finds the leaf on the path of the point, when there is one.\<close>

lemma point_cell_leaf:
  assumes i: "int32 lat" "int32 lon" and k: "k \<in> set L" and p: "prefix (path k) (square lat lon)"
  shows "point_cell (e7_deg lat) (e7_deg lon) (LeafSet L) = k"
proof -
  let ?s = "square lat lon"
  obtain n where n: "n \<le> 20" "point_cell (e7_deg lat) (e7_deg lon) (LeafSet L) = key_of (take n ?s)"
    and first: "\<And>m. m < n \<Longrightarrow> \<not> leaf_lookup (LeafSet L) (key_of (take m ?s))"
    and hit: "n < 20 \<Longrightarrow> leaf_lookup (LeafSet L) (key_of (take n ?s))"
    using point_cell_spec [OF i] by metis
  have kt: "key_of (take (length (path k)) ?s) = k"
    using p key_of_path [OF valid [OF k]] by (auto simp: prefix_def)
  have le: "n \<le> length (path k)"
    using first [of "length (path k)"] kt k by (force simp: leaf_lookup_def)
  have "key_of (take n ?s) = k"
  proof (cases "n < 20")
    case True
    let ?l = "key_of (take n ?s)"
    have l: "?l \<in> set L" using hit [OF True] by (simp add: leaf_lookup_def)
    have "prefix (path ?l) (path k)"
      using p le by (auto simp: digits_take take_is_prefix elim!: prefixE)
    then show ?thesis using prefix_free [OF l k] by simp
  next
    case False
    then have "n = length (path k)" using le n(1) length_path [OF valid [OF k]] by (simp add: MAX_DEPTH_def)
    then show ?thesis using kt by simp
  qed
  then show ?thesis using n(2) by simp
qed

lemma vectorised_eq_scalar:
  assumes i: "int32 lat" "int32 lon" and k: "k \<in> set L" and p: "prefix (path k) (square lat lon)"
  shows "point_cells_np [(lat, lon)] (LeafSet L)
       = Inr [point_cell (e7_deg lat) (e7_deg lon) (LeafSet L)]"
proof -
  obtain ix where ix: "LeafIndex L = Inr ix" by (rule LeafIndex_ok)
  have r: "key_lo k \<le> b4 (square lat lon)" "b4 (square lat lon) \<le> key_hi k"
    using in_range_iff_prefix [OF valid [OF k], of "square lat lon"] p by simp_all
  have "point_to_qk_np1 lat lon = of_int (b4 (square lat lon))"
    using i by (simp add: point_to_qk_np1_eq point_to_qk_e7)
  then show ?thesis
    using lookup_code(1) [OF ix k r] point_cell_leaf [OF i k p] ix
    by (simp add: point_cells_np_def point_to_qk_np_def)
qed

end

end
