(* ===== verification/Cells_Select.thy ===== *)
theory Cells_Select
  imports Cells_Leaves
begin

text \<open>
  \<open>select_leaf_cells\<close> returns a leaf set that covers every node, with at most the requested
  number of nodes per leaf above the depth limit.
\<close>

section \<open>Counting nodes in a code range\<close>

lemma sorted_takeWhile_filter:
  assumes "sorted xs" and "\<And>x y. x \<le> y \<Longrightarrow> P y \<Longrightarrow> P x"
  shows "takeWhile P xs = filter P xs"
  using assms(1)
proof (induction xs)
  case (Cons x xs)
  show ?case
  proof (cases "P x")
    case False
    then have "\<forall>y\<in>set xs. \<not> P y" using Cons.prems assms(2) by auto
    then show ?thesis using False by (simp add: filter_empty_conv)
  qed (use Cons in simp)
qed simp

lemma sum_count_list:
  assumes "distinct codes" and "set codes = set qk"
  shows "sum_list (map (count_list qk) (filter P codes)) = length (filter P qk)"
proof -
  have "sum_list (map (count_list qk) (filter P codes)) = (\<Sum>c\<in>set (filter P codes). count_list qk c)"
    using assms(1) by (simp add: sum_list_distinct_conv_sum_set)
  also have "\<dots> = (\<Sum>c\<in>set (filter P qk). count_list (filter P qk) c)"
  proof (rule sum.cong)
    show "set (filter P codes) = set (filter P qk)" using assms(2) by auto
    fix c assume "c \<in> set (filter P qk)"
    then show "count_list qk c = count_list (filter P qk) c"
      by (auto simp: count_list_eq_length_filter intro!: arg_cong [of _ _ length] filter_cong)
  qed
  also have "\<dots> = length (filter P qk)" by (rule sum_count_set) simp_all
  finally show ?thesis .
qed

lemma np_cumsum_nth: "i \<le> length counts \<Longrightarrow> np_cumsum counts ! i = sum_list (take i counts)"
  by (cases i) (simp_all add: np_cumsum_def)

lemma cumsum_takeWhile:
  assumes "\<And>x y. x \<le> y \<Longrightarrow> P y \<Longrightarrow> P (x :: int)"
  shows "np_cumsum (map (count_list qk) (sorted_set qk)) ! length (takeWhile P (sorted_set qk))
       = length (filter P qk)"
proof -
  let ?c = "sorted_set qk"
  have "takeWhile P ?c = filter P ?c" by (rule sorted_takeWhile_filter) (use assms in auto)
  then have "take (length (takeWhile P ?c)) ?c = filter P ?c"
    using takeWhile_eq_take [of P ?c] by simp
  then show ?thesis
    by (simp add: np_cumsum_nth length_takeWhile_le take_map sum_count_list)
qed

lemma range_count_eq:
  assumes "lo \<le> hi"
  shows "range_count qk lo hi = length (filter (\<lambda>c. lo \<le> c \<and> c \<le> hi) qk)"
proof -
  have "range_count qk lo hi = length (filter (\<lambda>c. c \<le> hi) qk) - length (filter (\<lambda>c. c < lo) qk)"
    using cumsum_takeWhile [of "\<lambda>c. c \<le> hi" qk] cumsum_takeWhile [of "\<lambda>c. c < lo" qk]
    by (simp add: range_count_def Let_def searchsorted_left_def searchsorted_right_def)
  moreover have "length (filter (\<lambda>c. c \<le> hi) qk)
      = length (filter (\<lambda>c. c < lo) qk) + length (filter (\<lambda>c. lo \<le> c \<and> c \<le> hi) qk)"
    using assms by (induction qk) auto
  ultimately show ?thesis by simp
qed

section \<open>The recursion\<close>

definition full :: "int \<Rightarrow> bool" where
  "full c \<longleftrightarrow> (\<exists>s. digits s \<and> length s = MAX_DEPTH \<and> c = b4 s)"

definition covers :: "string list \<Rightarrow> int \<Rightarrow> bool" where
  "covers ls c \<longleftrightarrow> (\<exists>k\<in>set ls. key_lo k \<le> c \<and> c \<le> key_hi k)"

definition select_ok :: "int list \<Rightarrow> nat \<Rightarrow> nat \<Rightarrow> string \<Rightarrow> string list \<Rightarrow> bool" where
  "select_ok qk mn md key ls \<longleftrightarrow>
     (\<forall>k\<in>set ls. valid_key k \<and> prefix (path key) (path k) \<and> length (path k) \<le> md \<and>
        (range_count qk (key_lo k) (key_hi k) \<le> mn \<or> length (path k) = md)) \<and>
     (\<forall>k\<in>set ls. \<forall>l\<in>set ls. prefix (path k) (path l) \<longrightarrow> k = l) \<and>
     (\<forall>c\<in>set qk. key_lo key \<le> c \<and> c \<le> key_hi key \<longrightarrow> covers ls c)"

lemma children_valid:
  assumes "valid_key key" and "length (path key) < MAX_DEPTH"
  shows "children key = Inr (map (\<lambda>d. path key @ [d]) ''0123'')"
  using assms by (simp add: children_def depth_of_path path_def)

lemma child_props:
  assumes k: "valid_key key" and "length (path key) < MAX_DEPTH" and d: "d \<in> digit_set"
  shows "valid_key (path key @ [d])" "path (path key @ [d]) = path key @ [d]"
proof -
  have dg: "digits (path key @ [d])" using digits_path [OF k] d by (simp del: insert_iff)
  then show "path (path key @ [d]) = path key @ [d]" by (simp add: path_def)
  show "valid_key (path key @ [d])" using dg assms(2) by (simp add: valid_key_def)
qed

lemma range_child:
  assumes k: "valid_key key" and l: "length (path key) < MAX_DEPTH" and c: "full c"
    and r: "key_lo key \<le> c" "c \<le> key_hi key"
  obtains d where "d \<in> digit_set" "key_lo (path key @ [d]) \<le> c" "c \<le> key_hi (path key @ [d])"
proof -
  obtain s where s: "digits s" "length s = MAX_DEPTH" "c = b4 s" using c by (auto simp: full_def)
  then have "prefix (path key) s" using in_range_iff_prefix [OF k s(1,2)] r by simp
  then obtain t where t: "s = path key @ t" by (auto simp: prefix_def)
  then obtain d u where u: "t = d # u" using l s(2) by (cases t) auto
  have d: "d \<in> digit_set" using s(1) t u by (simp del: insert_iff)
  have "prefix (path (path key @ [d])) s" using child_props [OF k l d] t u by simp
  then show thesis
    using that [OF d] in_range_iff_prefix [OF child_props(1) [OF k l d] s(1,2)] s(3) by simp
qed

lemma select_ok_children:
  assumes k: "valid_key key" and l: "length (path key) < MAX_DEPTH" and q: "\<forall>c\<in>set qk. full c"
    and g: "\<And>d. d \<in> digit_set \<Longrightarrow> select_ok qk mn md (path key @ [d]) (g d)"
  shows "select_ok qk mn md key (concat (map g ''0123''))"
proof -
  let ?ls = "concat (map g ''0123'')"
  have mem: "m \<in> set ?ls \<longleftrightarrow> (\<exists>d\<in>digit_set. m \<in> set (g d))" for m by simp
  have pre: "prefix (path key @ [d]) (path m)" if "d \<in> digit_set" "m \<in> set (g d)" for d m
    using g [OF that(1)] that(2) child_props(2) [OF k l that(1)] by (auto simp: select_ok_def)
  have free: "m = n" if m: "d \<in> digit_set" "m \<in> set (g d)" and n: "e \<in> digit_set" "n \<in> set (g e)"
    and p: "prefix (path m) (path n)" for d e m n
  proof -
    have "prefix (path key @ [d]) (path n)" using pre [OF m] p by (rule prefix_order.trans)
    then have "path key @ [d] = path key @ [e]"
      using pre [OF n] by (auto simp: prefix_def)
    then have "d = e" by simp
    then show ?thesis using g [OF m(1)] m(2) n(2) p by (auto simp: select_ok_def)
  qed
  have cov: "covers ?ls c" if c: "c \<in> set qk" "key_lo key \<le> c" "c \<le> key_hi key" for c
  proof -
    obtain d where d: "d \<in> digit_set" "key_lo (path key @ [d]) \<le> c" "c \<le> key_hi (path key @ [d])"
      using range_child [OF k l bspec [OF q c(1)] c(2,3)] by blast
    then have "covers (g d) c" using g [OF d(1)] c(1) by (auto simp: select_ok_def)
    then show ?thesis unfolding covers_def using mem d(1) by blast
  qed
  have props: "valid_key m \<and> prefix (path key) (path m) \<and> length (path m) \<le> md \<and>
        (range_count qk (key_lo m) (key_hi m) \<le> mn \<or> length (path m) = md)" if m: "m \<in> set ?ls" for m
  proof -
    obtain d where d: "d \<in> digit_set" "m \<in> set (g d)" using m mem by blast
    then show ?thesis
      using g [OF d(1)] pre [OF d] by (auto simp: select_ok_def dest: append_prefixD)
  qed
  have free': "m = n" if mn: "m \<in> set ?ls" "n \<in> set ?ls" "prefix (path m) (path n)" for m n
  proof -
    obtain d e where "d \<in> digit_set" "m \<in> set (g d)" "e \<in> digit_set" "n \<in> set (g e)"
      using mn(1,2) mem by blast
    then show ?thesis using free mn(3) by blast
  qed
  show ?thesis unfolding select_ok_def
    using props free' cov by (intro conjI ballI impI) blast+
qed

lemma select_recurse_ok:
  assumes "md \<le> MAX_DEPTH" and q: "\<forall>c\<in>set qk. full c"
  shows "valid_key key \<Longrightarrow> length (path key) = depth \<Longrightarrow> depth \<le> md \<Longrightarrow>
    \<exists>ls. select_recurse qk mn md key depth = Inr ls \<and> select_ok qk mn md key ls"
proof (induction "md - depth" arbitrary: key depth)
  case 0
  note r = key_range_bounds(2) [OF 0(2)]
  let ?n = "range_count qk (key_lo key) (key_hi key)"
  have "md \<le> depth" using 0 by simp
  then have "select_recurse qk mn md key depth = Inr (if 0 < ?n \<or> key = ROOT then [key] else [])"
    by (simp add: select_recurse.simps [of _ _ _ key] qk_range_valid 0(2) Let_def)
  then show ?case using 0 r by (auto simp: select_ok_def covers_def range_count_eq filter_empty_conv)
next
  case (Suc n)
  let ?n = "range_count qk (key_lo key) (key_hi key)"
  note r = key_range_bounds(2) [OF Suc.prems(1)]
  have lt: "depth < md" "length (path key) < MAX_DEPTH" using Suc assms(1) by simp_all
  show ?case
  proof (cases "?n \<le> mn")
    case True
    then have "select_recurse qk mn md key depth = Inr (if 0 < ?n \<or> key = ROOT then [key] else [])"
      by (simp add: select_recurse.simps [of _ _ _ key] qk_range_valid Suc.prems(1) Let_def)
    then show ?thesis
      using Suc.prems r True by (auto simp: select_ok_def covers_def range_count_eq filter_empty_conv)
  next
    case False
    define g where "g = (\<lambda>d. case select_recurse qk mn md (path key @ [d]) (depth + 1) of
        Inr ls \<Rightarrow> ls | Inl e \<Rightarrow> [])"
    have rec: "select_recurse qk mn md (path key @ [d]) (depth + 1) = Inr (g d)
        \<and> select_ok qk mn md (path key @ [d]) (g d)" if "d \<in> digit_set" for d
    proof -
      have n: "n = md - (depth + 1)" using Suc.hyps(2) by simp
      show ?thesis
        using Suc.hyps(1) [OF n, of "path key @ [d]"] Suc.prems lt
          child_props [OF Suc.prems(1) lt(2) that] by (auto simp: g_def)
    qed
    have "rmap (\<lambda>c. select_recurse qk mn md c (depth + 1)) (map (\<lambda>d. path key @ [d]) ''0123'')
        = Inr (map (\<lambda>c. g (last c)) (map (\<lambda>d. path key @ [d]) ''0123''))"
    proof (rule rmap_Inr)
      fix c assume "c \<in> set (map (\<lambda>d. path key @ [d]) ''0123'')"
      then obtain d where "d \<in> digit_set" "c = path key @ [d]" by auto
      then show "select_recurse qk mn md c (depth + 1) = Inr (g (last c))" using rec [of d] by simp
    qed
    then have "select_recurse qk mn md key depth = Inr (concat (map g ''0123''))"
      using False lt Suc.prems
      by (simp add: select_recurse.simps [of _ _ _ key] qk_range_valid children_valid Let_def comp_def)
    then show ?thesis
      using select_ok_children [OF Suc.prems(1) lt(2) q, of mn md g] rec by blast
  qed
qed

lemma full_square: "int32 lat \<Longrightarrow> int32 lon \<Longrightarrow> full (uint (point_to_qk_np1 lat lon))"
  by (auto simp: full_def uint_qk_np1 intro!: exI [of _ "square lat lon"])

definition int32_rows :: "(int \<times> int) list \<Rightarrow> bool" where
  "int32_rows rows \<longleftrightarrow> (\<forall>(lat, lon)\<in>set rows. int32 lat \<and> int32 lon)"

lemma valid_ROOT [simp]: "valid_key ROOT"
  by (simp add: valid_key_def)

lemma root_range: "key_lo ROOT = 0" "key_hi ROOT = 2 ^ 40 - 1"
  by (simp_all add: key_lo_def key_hi_def MAX_DEPTH_def)

lemma select_leaf_cells_ok:
  assumes "md \<le> MAX_DEPTH" and "int32_rows nodes" and "nodes \<noteq> []"
  shows "\<exists>ls. select_leaf_cells nodes mn md = Inr ls
    \<and> select_ok (map uint (point_to_qk_np nodes)) mn md ROOT ls"
proof -
  have "\<forall>c\<in>set (map uint (point_to_qk_np nodes)). full c"
    using assms(2) full_square by (auto simp: point_to_qk_np_def int32_rows_def)
  from select_recurse_ok [OF assms(1) this, of ROOT 0 mn] show ?thesis
    using assms(3) by (simp add: select_leaf_cells_def)
qed

text \<open>
  The leaves of a build satisfy the contract \<open>leaf_set\<close>, whatever the nodes and limits are
  (a call that raises yields no leaves).
\<close>

definition built_leaves :: "(int \<times> int) list \<Rightarrow> nat \<Rightarrow> nat \<Rightarrow> string list" where
  "built_leaves nodes mn md =
     (if md \<le> MAX_DEPTH \<and> int32_rows nodes
      then (case select_leaf_cells nodes mn md of Inr ls \<Rightarrow> ls | Inl e \<Rightarrow> []) else [])"

lemma built_leaves_select:
  "built_leaves nodes mn md = [] \<or> built_leaves nodes mn md = [ROOT]
   \<or> select_ok (map uint (point_to_qk_np nodes)) mn md ROOT (built_leaves nodes mn md)"
proof (cases "md \<le> MAX_DEPTH \<and> int32_rows nodes")
  case True
  then show ?thesis
    using select_leaf_cells_ok [of md nodes mn]
    by (cases "nodes = []") (auto simp: built_leaves_def select_leaf_cells_def)
qed (auto simp: built_leaves_def)

interpretation built: leaf_set "built_leaves nodes mn md" for nodes mn md
proof unfold_locales
  fix k l
  show "valid_key k" if "k \<in> set (built_leaves nodes mn md)"
    using built_leaves_select [of nodes mn md] that by (auto simp: select_ok_def)
  show "k = l" if "k \<in> set (built_leaves nodes mn md)" "l \<in> set (built_leaves nodes mn md)"
    "prefix (path k) (path l)"
    using built_leaves_select [of nodes mn md] that by (auto simp: select_ok_def)
qed

end
