(* ===== verification/Cells_V2.thy ===== *)
theory Cells_V2
  imports Cells_Select
begin

text \<open>
  \<open>containing_cells_v2_np\<close>: the cell of a bounding box is a common prefix of the digit strings
  of its corners, cut to a leaf or to an allowed ancestor depth.
\<close>

section \<open>Digits of a code\<close>

definition code_of :: "string \<Rightarrow> 64 word" where
  "code_of s = of_int (b4 s)"

lemma qk_digit_code:
  assumes s: "digits s" "length s = MAX_DEPTH" and i: "i < MAX_DEPTH"
  shows "qk_digit (code_of s) i = dig (s ! i)"
proof -
  let ?k = "MAX_DEPTH - 1 - i"
  have b: "0 \<le> b4 s" "b4 s < 2 ^ 40" using b4_bounds [OF s(1)] s(2) by (simp_all add: MAX_DEPTH_def)
  have k: "?k = length s - Suc i" using s(2) by simp
  have "qk_digit (code_of s) i = uint (code_of s) div 2 ^ (2 * ?k) mod 4"
  proof -
    have "drop_bit n w AND 3 = take_bit 2 (drop_bit n w)" for n and w :: "64 word"
      by (simp add: take_bit_eq_mask mask_eq_exp_minus_1)
    then show ?thesis
      by (simp only: qk_digit_def unsigned_take_bit_eq unsigned_drop_bit_eq)
         (simp only: take_bit_eq_mod drop_bit_eq_div uint_idem, simp)
  qed
  also have "\<dots> = b4 s div 4 ^ (length s - Suc i) mod 4"
    unfolding k code_of_def uint_of_code [OF b] by (simp add: power_mult)
  also have "\<dots> = b4 (take (Suc i) s) mod 4"
    using b4_div [OF s(1), of "Suc i"] i s(2) by simp
  also have "\<dots> = (b4 (take i s) * 4 + dig (s ! i)) mod 4"
    using i s(2) by (simp add: take_Suc_conv_app_nth)
  also have "\<dots> = dig (s ! i)"
    using dig_bounds [of "s ! i"] s i by (simp add: digits_def subset_iff del: insert_iff)
  finally show ?thesis .
qed

lemma dig_inj: "c \<in> digit_set \<Longrightarrow> d \<in> digit_set \<Longrightarrow> dig c = dig d \<longleftrightarrow> c = d"
  using digit_char_dig by metis

lemma digits_nth: "digits s \<Longrightarrow> i < length s \<Longrightarrow> s ! i \<in> digit_set"
  by (auto simp: digits_def subset_iff simp del: insert_iff)

lemma digit_chars_code:
  assumes s: "digits s" "length s = MAX_DEPTH" and n: "n \<le> MAX_DEPTH"
  shows "map (\<lambda>i. digit_char (qk_digit (code_of s) i)) [0..<n] = take n s"
proof (rule nth_equalityI)
  fix i assume "i < length (map (\<lambda>i. digit_char (qk_digit (code_of s) i)) [0..<n])"
  then show "map (\<lambda>i. digit_char (qk_digit (code_of s) i)) [0..<n] ! i = take n s ! i"
    using n s digit_char_dig [OF digits_nth [OF s(1), of i]] by (simp add: qk_digit_code)
qed (use n s in simp)

section \<open>The common prefix of two codes\<close>

lemma lcp_loop_done: "lcp_loop a b is n False = n"
  by (induction "is") (simp_all add: Let_def)

lemma lcp_loop_range:
  assumes "m \<le> n"
  shows "\<exists>l. lcp_loop a b [m..<n] n True = l \<and> m \<le> l \<and> l \<le> n \<and>
    (\<forall>i. m \<le> i \<and> i < l \<longrightarrow> qk_digit a i = qk_digit b i) \<and> (l < n \<longrightarrow> qk_digit a l \<noteq> qk_digit b l)"
  using assms
proof (induction "n - m" arbitrary: m)
  case (Suc k)
  then have u: "[m..<n] = m # [Suc m..<n]" by (simp add: upt_conv_Cons)
  show ?case
  proof (cases "qk_digit a m = qk_digit b m")
    case True
    have "k = n - Suc m" "Suc m \<le> n" using Suc by simp_all
    from Suc.hyps(1) [OF this] obtain l where l: "lcp_loop a b [Suc m..<n] n True = l" "Suc m \<le> l" "l \<le> n"
      "\<forall>i. Suc m \<le> i \<and> i < l \<longrightarrow> qk_digit a i = qk_digit b i" "l < n \<longrightarrow> qk_digit a l \<noteq> qk_digit b l" by blast
    have "qk_digit a i = qk_digit b i" if "m \<le> i" "i < l" for i
      using that l(4) True by (cases "i = m") auto
    then show ?thesis using l u True by auto
  qed (use Suc u in \<open>auto simp: lcp_loop_done\<close>)
qed simp

lemma take_eq_iff_nth:
  "n \<le> length s \<Longrightarrow> n \<le> length t \<Longrightarrow> take n s = take n t \<longleftrightarrow> (\<forall>i<n. s ! i = t ! i)"
  by (auto simp: list_eq_iff_nth_eq)

lemma lcp_loop_code:
  assumes s: "digits s" "length s = MAX_DEPTH" and t: "digits t" "length t = MAX_DEPTH"
    and n: "n \<le> MAX_DEPTH"
  shows "lcp_loop (code_of s) (code_of t) [0..<n] n True \<le> n"
    and "m \<le> n \<Longrightarrow> m \<le> lcp_loop (code_of s) (code_of t) [0..<n] n True \<longleftrightarrow> take m s = take m t"
proof -
  obtain l where l: "lcp_loop (code_of s) (code_of t) [0..<n] n True = l" "l \<le> n"
    "\<forall>i<l. qk_digit (code_of s) i = qk_digit (code_of t) i"
    "l < n \<longrightarrow> qk_digit (code_of s) l \<noteq> qk_digit (code_of t) l"
    using lcp_loop_range [of 0 n "code_of s" "code_of t"] by auto
  have eq: "qk_digit (code_of s) i = qk_digit (code_of t) i \<longleftrightarrow> s ! i = t ! i" if "i < MAX_DEPTH" for i
    using that s t dig_inj [OF digits_nth [OF s(1), of i] digits_nth [OF t(1), of i]]
    by (simp add: qk_digit_code)
  show "lcp_loop (code_of s) (code_of t) [0..<n] n True \<le> n" using l by simp
  show "m \<le> lcp_loop (code_of s) (code_of t) [0..<n] n True \<longleftrightarrow> take m s = take m t" if m: "m \<le> n"
  proof -
    have "m \<le> l \<longleftrightarrow> (\<forall>i<m. s ! i = t ! i)"
    proof
      show "\<forall>i<m. s ! i = t ! i" if "m \<le> l" using that l eq n by (metis le_trans order_less_le_trans)
      show "m \<le> l" if all: "\<forall>i<m. s ! i = t ! i"
      proof (rule ccontr)
        assume "\<not> m \<le> l"
        then show False using all l(4) eq [of l] m n by auto
      qed
    qed
    then show ?thesis using l(1) m n s t by (simp add: take_eq_iff_nth)
  qed
qed

section \<open>Boxes and digit strings\<close>

lemma kd_inj:
  "0 \<le> x \<Longrightarrow> x < 2 ^ d \<Longrightarrow> 0 \<le> w \<Longrightarrow> w < 2 ^ d \<Longrightarrow> 0 \<le> x' \<Longrightarrow> x' < 2 ^ d \<Longrightarrow> 0 \<le> w' \<Longrightarrow> w' < 2 ^ d
   \<Longrightarrow> kd x w d = kd x' w' d \<longleftrightarrow> x = x' \<and> w = w'"
proof (induction d arbitrary: x w x' w')
  case (Suc d)
  have c: "digit_char (2 * (a mod 2) + b mod 2) = digit_char (2 * (a' mod 2) + b' mod 2)
      \<longleftrightarrow> a mod 2 = a' mod 2 \<and> b mod 2 = b' mod 2" for a b a' b' :: int
    by (auto simp: mod2_eq_if)
  have "kd (x div 2) (w div 2) d = kd (x' div 2) (w' div 2) d \<longleftrightarrow> x div 2 = x' div 2 \<and> w div 2 = w' div 2"
    using Suc.prems by (intro Suc.IH) simp_all
  moreover have v: "v div 2 = v' div 2 \<and> v mod 2 = v' mod 2 \<longleftrightarrow> v = v'" for v v' :: int
    by (metis div_mult_mod_eq)
  ultimately have "kd x w (Suc d) = kd x' w' (Suc d) \<longleftrightarrow>
      (x div 2 = x' div 2 \<and> x mod 2 = x' mod 2) \<and> (w div 2 = w' div 2 \<and> w mod 2 = w' mod 2)"
    using c [of w x w' x'] by (simp only: kd.simps append1_eq_conv) blast
  then show ?case by (simp only: v)
qed simp

lemma at_depth_bounds: "0 \<le> x \<Longrightarrow> x < 1048576 \<Longrightarrow> d \<le> 20 \<Longrightarrow> 0 \<le> at_depth x d \<and> at_depth x d < 2 ^ d"
  using div_bounds [of x d] by (simp add: at_depth_def)

lemma take_square_eq_iff:
  assumes d: "d \<le> 20"
  shows "take d (square lat lon) = take d (square lat' lon') \<longleftrightarrow>
    at_depth (grid_x_e7 lon) d = at_depth (grid_x_e7 lon') d \<and>
    at_depth (grid_y_e7 lat) d = at_depth (grid_y_e7 lat') d"
proof -
  note b = at_depth_bounds [OF grid_e7_bounds(1,2) d] at_depth_bounds [OF grid_e7_bounds(3,4) d]
  show ?thesis
    unfolding take_square [OF d]
    by (subst kd_inj) (use b(1) [of lon] b(2) [of lat] b(1) [of lon'] b(2) [of lat'] in auto)
qed

lemma grid_mono: "v \<le> v' \<Longrightarrow> grid_x_e7 v \<le> grid_x_e7 v'" "v \<le> v' \<Longrightarrow> grid_y_e7 v \<le> grid_y_e7 v'"
  by (auto simp: grid_x_e7_def grid_y_e7_def intro!: np_clip_mono zdiv_mono1)

lemma at_depth_mono: "x \<le> y \<Longrightarrow> at_depth x d \<le> at_depth y d"
  by (simp add: at_depth_def zdiv_mono1)

lemma take_square_between:
  assumes d: "d \<le> 20" and eq: "take d (square y0 x0) = take d (square y1 x1)"
    and lat: "y0 \<le> lat" "lat \<le> y1" and lon: "x0 \<le> lon" "lon \<le> x1"
  shows "take d (square lat lon) = take d (square y0 x0)"
proof -
  have "at_depth (grid_x_e7 x0) d \<le> at_depth (grid_x_e7 lon) d" "at_depth (grid_x_e7 lon) d \<le> at_depth (grid_x_e7 x1) d"
    "at_depth (grid_y_e7 y0) d \<le> at_depth (grid_y_e7 lat) d" "at_depth (grid_y_e7 lat) d \<le> at_depth (grid_y_e7 y1) d"
    using lat lon by (auto intro!: at_depth_mono grid_mono)
  then show ?thesis using eq unfolding take_square_eq_iff [OF d] by linarith
qed

section \<open>Placement\<close>

lemma qk_np1_code: "int32 lat \<Longrightarrow> int32 lon \<Longrightarrow> point_to_qk_np1 lat lon = code_of (square lat lon)"
  by (simp add: code_of_def point_to_qk_np1_eq point_to_qk_e7)

lemma searchsorted_round_down:
  assumes "sorted xs" and "x \<in> set xs" and "x \<le> (q :: nat)"
  obtains r where "py_nth xs (np_clip (int (searchsorted_right xs q) - 1) 0 (int (length xs) - 1)) = Inr r"
    "r \<in> set xs" "r \<le> q" "\<And>y. y \<in> set xs \<Longrightarrow> y \<le> q \<Longrightarrow> y \<le> r"
proof -
  let ?k = "searchsorted_right xs q"
  have pos: "0 < ?k" using assms searchsorted_right_above [OF assms(1), of q 0]
    by (metis gr0I in_set_conv_nth leD order.refl searchsorted_right_above zero_le)
  have k: "?k - 1 < length xs" using pos searchsorted_right_le [of xs q] by linarith
  have c: "np_clip (int ?k - 1) 0 (int (length xs) - 1) = int (?k - 1)"
    using pos k by (simp add: np_clip_def of_nat_diff)
  have "y \<le> xs ! (?k - 1)" if y: "y \<in> set xs" "y \<le> q" for y
  proof -
    obtain j where j: "j < length xs" "xs ! j = y" using y(1) by (metis in_set_conv_nth)
    then have "j < ?k" using searchsorted_right_above [OF assms(1), of q j] y(2) by force
    then show ?thesis using sorted_nth_mono [OF assms(1), of j "?k - 1"] j k by simp
  qed
  moreover have "py_nth xs (int (?k - 1)) = Inr (xs ! (?k - 1))" using k by (simp add: py_nth_def)
  ultimately show thesis
    using that [of "xs ! (?k - 1)"] k pos searchsorted_right_below [of "?k - 1" xs q] unfolding c by simp
qed

context leaf_set
begin

text \<open>The index finds the last leaf that starts at or before a code.\<close>

lemma lookup_below:
  assumes ix: "LeafIndex L = Inr ix" and s: "digits s" "length s = MAX_DEPTH"
    and k: "k \<in> set L" "key_lo k \<le> b4 s"
  obtains l where "l \<in> set L" "key_lo l \<le> b4 s"
    "py_nth (map depth_of (li_keys_by_lo ix)) (leaf_index_for_qk ix (code_of s)) = Inr (depth_of l)"
    "contains_qk ix (leaf_index_for_qk ix (code_of s)) (code_of s) = Inr (prefix (path l) s)"
    "\<And>m. m \<in> set L \<Longrightarrow> prefix (path m) s \<Longrightarrow> m = l"
proof -
  obtain ix' where ix': "LeafIndex L = Inr ix'"
    and ms: "mset (li_keys_by_lo ix') = mset (sorted_set L)"
    and srt: "sorted (map key_lo (li_keys_by_lo ix'))"
    and los: "li_los ix' = map (\<lambda>k. of_int (key_lo k)) (li_keys_by_lo ix')"
    and his: "li_his ix' = map (\<lambda>k. of_int (key_hi k)) (li_keys_by_lo ix')"
    by (rule LeafIndex_ok)
  with ix have [simp]: "ix' = ix" by simp
  let ?ks = "li_keys_by_lo ix" and ?c = "b4 s"
  have set: "set ?ks = set L" using mset_eq_setD [OF ms] by simp
  have b: "0 \<le> key_lo l" "key_lo l < 2 ^ 40" "0 \<le> key_hi l" "key_hi l < 2 ^ 40" if "l \<in> set L" for l
    using key_range_bounds [OF valid [OF that]] by linarith+
  have cb: "0 \<le> ?c" "?c < 2 ^ 40" using b4_bounds [OF s(1)] s(2) by (simp_all add: MAX_DEPTH_def)
  let ?i = "searchsorted_right (li_los ix) (code_of s)"
  have le: "li_los ix ! j \<le> code_of s \<longleftrightarrow> key_lo (?ks ! j) \<le> ?c" if "j < length ?ks" for j
  proof -
    have "?ks ! j \<in> set L" using that set nth_mem by blast
    then show ?thesis using los that b cb by (simp add: code_of_def word_le_code)
  qed
  have srt': "sorted (li_los ix)" by (rule sorted_los [OF ix])
  obtain j where j: "j < length ?ks" "?ks ! j = k" using k(1) set by (metis in_set_conv_nth)
  have "0 < ?i"
  proof (rule ccontr)
    assume "\<not> 0 < ?i"
    then have "li_los ix = [] \<or> \<not> hd (li_los ix) \<le> code_of s"
      by (auto simp: searchsorted_right_def takeWhile_eq_Nil_iff)
    moreover have "li_los ix \<noteq> []" using j(1) los by auto
    ultimately have "\<not> li_los ix ! 0 \<le> code_of s" by (simp add: hd_conv_nth)
    then have "?c < key_lo (?ks ! 0)" using le [of 0] j(1) by force
    moreover have "key_lo (?ks ! 0) \<le> key_lo k"
      using sorted_nth_mono [OF srt, of 0 j] j nth_map [of 0 ?ks key_lo] by fastforce
    ultimately show False using k(2) by linarith
  qed
  moreover have "length (li_los ix) = length ?ks" using los by simp
  then have "?i \<le> length ?ks" using searchsorted_right_le [of "li_los ix" "code_of s"] by linarith
  ultimately have i: "?i - 1 < length ?ks" "leaf_index_for_qk ix (code_of s) = int (?i - 1)"
    using los by (auto simp: leaf_index_for_qk_def np_clip_def of_nat_diff)
  let ?l = "?ks ! (?i - 1)"
  have l: "?l \<in> set L" using i(1) set nth_mem by blast
  have lo: "key_lo ?l \<le> ?c"
    using le [OF i(1)] searchsorted_right_below [of "?i - 1" "li_los ix" "code_of s"] \<open>0 < ?i\<close> by simp
  show thesis
  proof (rule that [OF l lo])
    show "py_nth (map depth_of ?ks) (leaf_index_for_qk ix (code_of s)) = Inr (depth_of ?l)"
      using i by (simp add: py_nth_Inr)
    show "contains_qk ix (leaf_index_for_qk ix (code_of s)) (code_of s) = Inr (prefix (path ?l) s)"
      using i his b [OF l] cb in_range_iff_prefix [OF valid [OF l] s] lo
      by (simp add: contains_qk_def py_nth_Inr code_of_def word_le_code)
    fix m assume m: "m \<in> set L" "prefix (path m) s"
    then have r: "key_lo m \<le> ?c" "?c \<le> key_hi m" using in_range_iff_prefix [OF valid [OF m(1)] s] by auto
    obtain j where j: "j < length ?ks" "?ks ! j = m" using m(1) set by (metis in_set_conv_nth)
    have "j < ?i"
    proof (rule ccontr)
      assume "\<not> j < ?i"
      then have "code_of s < li_los ix ! j"
        using searchsorted_right_above [OF srt', of "code_of s" j] j(1) los by simp
      then show False using le [OF j(1)] j(2) r(1) by simp
    qed
    then have "key_lo m \<le> key_lo ?l"
      using sorted_nth_mono [OF srt, of j "?i - 1"] j i(1) by simp
    then show "m = ?l" using key_lo_in_range_unique [OF m(1) l] lo r(2) by simp
  qed
qed

text \<open>
  The result of \<open>containing_cells_v2_row\<close>, as the key of the first \<open>n\<close> digits of the
  south-west corner.
\<close>

lemma v2_row_depth:
  assumes ix: "LeafIndex L = Inr ix" and i: "int32 y0" "int32 x0" "int32 y1" "int32 x1"
    and k: "k \<in> set L" "key_lo k \<le> b4 (square y0 x0)"
    and z: "0 \<in> set ads" and md: "md \<le> MAX_DEPTH"
  obtains n l where "containing_cells_v2_row ix ads md (y0, x0, y1, x1) = Inr (key_of (take n (square y0 x0)))"
    "l \<in> set L" "n \<le> md" "take n (square y0 x0) = take n (square y1 x1)"
    "prefix (path l) (square y0 x0) \<and> n = depth_of l \<or> n \<in> set ads"
    "\<forall>m. m \<le> md \<longrightarrow> m \<le> depth_of l \<longrightarrow> take m (square y0 x0) = take m (square y1 x1) \<longrightarrow>
       m \<in> set ads \<or> prefix (path l) (square y0 x0) \<and> m = depth_of l \<longrightarrow> m \<le> n"
    "n \<le> depth_of l" "\<forall>m\<in>set L. prefix (path m) (square y0 x0) \<longrightarrow> m = l"
proof -
  let ?s = "square y0 x0" and ?t = "square y1 x1"
  let ?lcp = "lcp_loop (code_of ?s) (code_of ?t) [0..<md] md True"
  obtain l where l: "l \<in> set L" "key_lo l \<le> b4 ?s"
    "py_nth (map depth_of (li_keys_by_lo ix)) (leaf_index_for_qk ix (code_of ?s)) = Inr (depth_of l)"
    "contains_qk ix (leaf_index_for_qk ix (code_of ?s)) (code_of ?s) = Inr (prefix (path l) ?s)"
    "\<And>m. m \<in> set L \<Longrightarrow> prefix (path m) ?s \<Longrightarrow> m = l"
    using lookup_below [OF ix square_digits k] by blast
  let ?tr = "min ?lcp (depth_of l)"
  obtain r where r: "py_nth (sorted_set ads) (np_clip (int (searchsorted_right (sorted_set ads) ?tr) - 1) 0
      (int (length (sorted_set ads)) - 1)) = Inr r" "r \<in> set ads" "r \<le> ?tr"
    "\<And>y. y \<in> set ads \<Longrightarrow> y \<le> ?tr \<Longrightarrow> y \<le> r"
    using searchsorted_round_down [of "sorted_set ads" 0 ?tr] z by auto
  define n where "n = (if ?tr = depth_of l \<and> prefix (path l) ?s then ?tr else r)"
  note lcp = lcp_loop_code [OF square_digits [of y0 x0] square_digits [of y1 x1] md]
  have n: "n \<le> ?lcp" "n \<le> md" "n \<le> depth_of l" using r(3) lcp(1) unfolding n_def by (auto intro: le_trans)
  have row: "containing_cells_v2_row ix ads md (y0, x0, y1, x1) = Inr (key_of (take n ?s))"
  proof -
    have "map (\<lambda>i. digit_char (qk_digit (code_of ?s) i)) [0..<md] = take md ?s"
      by (rule digit_chars_code) (simp_all add: md)
    moreover have "(if n = 0 then ROOT else take n (take md ?s)) = key_of (take n ?s)"
      using n(2) square_digits(2) [of y0 x0]
      by (cases "square y0 x0") (auto simp: key_of_def min_def MAX_DEPTH_def)
    ultimately show ?thesis
      unfolding containing_cells_v2_row_def prod.case Let_def qk_np1_code [OF i(1,2)] qk_np1_code [OF i(3,4)]
        l(3,4) r(1) rbind_simps n_def [symmetric] by (simp only:)
  qed
  have mx: "m \<le> n" if "m \<le> md" "m \<le> depth_of l" "take m ?s = take m ?t"
    "m \<in> set ads \<or> prefix (path l) ?s \<and> m = depth_of l" for m
  proof -
    have "m \<le> ?tr" using that lcp(2) by simp
    then show ?thesis using that r(3,4) unfolding n_def by (auto simp: min_def split: if_splits)
  qed
  show thesis
  proof (rule that [OF row l(1) n(2)])
    show "take n ?s = take n ?t" using lcp(2) n by simp
    show "prefix (path l) ?s \<and> n = depth_of l \<or> n \<in> set ads" using r(2) by (auto simp: n_def)
  qed (use mx n(3) l(5) in auto)
qed

text \<open>A box is placed in a leaf or at an allowed depth, in a cell that holds all its points.\<close>

lemma v2_row_sound:
  assumes ix: "LeafIndex L = Inr ix" and i: "int32 y0" "int32 x0" "int32 y1" "int32 x1"
    and k: "k \<in> set L" "key_lo k \<le> b4 (square y0 x0)"
    and z: "0 \<in> set ads" and md: "md \<le> MAX_DEPTH"
  obtains c where "containing_cells_v2_row ix ads md (y0, x0, y1, x1) = Inr c" "valid_key c"
    "c \<in> set L \<or> depth_of c \<in> set ads"
    "\<forall>lat lon. y0 \<le> lat \<and> lat \<le> y1 \<and> x0 \<le> lon \<and> lon \<le> x1 \<longrightarrow> prefix (path c) (square lat lon)"
proof -
  obtain n l where n: "containing_cells_v2_row ix ads md (y0, x0, y1, x1) = Inr (key_of (take n (square y0 x0)))"
    "l \<in> set L" "n \<le> md" "take n (square y0 x0) = take n (square y1 x1)"
    "prefix (path l) (square y0 x0) \<and> n = depth_of l \<or> n \<in> set ads"
    using v2_row_depth [OF ix i k z md] by metis
  let ?c = "key_of (take n (square y0 x0))"
  have d: "digits (take n (square y0 x0))" "length (take n (square y0 x0)) = n" "n \<le> 20"
    using n(3) md by (simp_all add: digits_take MAX_DEPTH_def)
  show thesis
  proof (rule that [OF n(1)])
    show "valid_key ?c" using d by (intro valid_key_key_of) (simp_all add: MAX_DEPTH_def)
    have "?c = l" if "prefix (path l) (square y0 x0)" "n = depth_of l"
    proof -
      have "take n (square y0 x0) = path l" using that by (auto simp: depth_of_path prefix_def)
      then show ?thesis using key_of_path [OF valid [OF n(2)]] by simp
    qed
    then show "?c \<in> set L \<or> depth_of ?c \<in> set ads"
      using n(2,5) d by (auto simp: depth_of_path)
    show "\<forall>lat lon. y0 \<le> lat \<and> lat \<le> y1 \<and> x0 \<le> lon \<and> lon \<le> x1 \<longrightarrow> prefix (path ?c) (square lat lon)"
      using take_square_between [OF d(3) n(4)] d(1) by (metis path_key_of take_is_prefix)
  qed
qed

end

end
