(* ===== verification/Json.thy ===== *)
theory Json
  imports Complex_Main Prelude "HOL-Library.Sublist"
begin

text \<open>
  JSON documents as Python sees them after \<open>json.loads\<close>, with the dictionary and list
  operations the sources apply to them. A dictionary is the list of its items in insertion
  order; \<open>json_ok\<close> says that its keys are distinct. An operation on a value of the wrong type
  raises, as in Python.
\<close>

datatype json =
    JNull
  | JBool bool
  | JInt int
  | JFloat rat
  | JStr string
  | JList "json list"
  | JObj "(string \<times> json) list"

fun json_ok :: "json \<Rightarrow> bool" where
  "json_ok (JList xs) = (\<forall>x\<in>set xs. json_ok x)"
| "json_ok (JObj kvs) = (distinct (map fst kvs) \<and> (\<forall>kv\<in>set kvs. json_ok (snd kv)))"
| "json_ok _ = True"

text \<open>Truth value, \<open>v or w\<close>, \<open>d[k]\<close>, \<open>d.get(k, dflt)\<close>, \<open>d.items()\<close>, \<open>d.values()\<close>, \<open>k in d\<close>.\<close>

fun truthy :: "json \<Rightarrow> bool" where
  "truthy JNull = False"
| "truthy (JBool b) = b"
| "truthy (JInt i) = (i \<noteq> 0)"
| "truthy (JFloat r) = (r \<noteq> 0)"
| "truthy (JStr s) = (s \<noteq> [])"
| "truthy (JList xs) = (xs \<noteq> [])"
| "truthy (JObj kvs) = (kvs \<noteq> [])"

definition jor :: "json \<Rightarrow> json \<Rightarrow> json" where
  "jor v w = (if truthy v then v else w)"

fun jget :: "json \<Rightarrow> string \<Rightarrow> json \<Rightarrow> json result" where
  "jget (JObj kvs) k dflt = Inr (case map_of kvs k of Some v \<Rightarrow> v | None \<Rightarrow> dflt)"
| "jget _ k dflt = Inl AttributeError"

fun jindex :: "json \<Rightarrow> string \<Rightarrow> json result" where
  "jindex (JObj kvs) k = (case map_of kvs k of Some v \<Rightarrow> Inr v | None \<Rightarrow> Inl KeyError)"
| "jindex _ k = Inl TypeError"

fun jitems :: "json \<Rightarrow> (string \<times> json) list result" where
  "jitems (JObj kvs) = Inr kvs"
| "jitems _ = Inl AttributeError"

definition jvalues :: "json \<Rightarrow> json list result" where
  "jvalues v = rbind (jitems v) (\<lambda>kvs. Inr (map snd kvs))"

definition jkeys :: "json \<Rightarrow> string list result" where
  "jkeys v = rbind (jitems v) (\<lambda>kvs. Inr (map fst kvs))"

fun jin :: "string \<Rightarrow> json \<Rightarrow> bool result" where
  "jin k (JObj kvs) = Inr (k \<in> fst ` set kvs)"
| "jin k (JList xs) = Inr (JStr k \<in> set xs)"
| "jin k (JStr s) = Inr (sublist k s)"
| "jin k _ = Inl TypeError"

text \<open>Iteration: over a list, the keys of a dictionary, or the characters of a string.\<close>

fun jiter :: "json \<Rightarrow> json list result" where
  "jiter (JList xs) = Inr xs"
| "jiter (JObj kvs) = Inr (map (\<lambda>kv. JStr (fst kv)) kvs)"
| "jiter (JStr s) = Inr (map (\<lambda>c. JStr [c]) s)"
| "jiter _ = Inl TypeError"

text \<open>
  A value used as a string, or as an integer. The manifest format has strings and integers
  where the code uses them as such; another value is a \<open>TypeError\<close> at the use.
\<close>

fun jstr :: "json \<Rightarrow> string result" where
  "jstr (JStr s) = Inr s"
| "jstr _ = Inl TypeError"

fun jint :: "json \<Rightarrow> int result" where
  "jint (JInt i) = Inr i"
| "jint (JBool b) = Inr (if b then 1 else 0)"
| "jint _ = Inl TypeError"

text \<open>\<open>int(v)\<close>; the format has numbers there (a string is not converted).\<close>

fun jtoint :: "json \<Rightarrow> int result" where
  "jtoint (JInt i) = Inr i"
| "jtoint (JBool b) = Inr (if b then 1 else 0)"
| "jtoint (JFloat r) = Inr (if r < 0 then \<lceil>r\<rceil> else \<lfloor>r\<rfloor>)"
| "jtoint (JStr s) = Inl ValueError"
| "jtoint _ = Inl TypeError"

definition jstrs :: "json \<Rightarrow> string list result" where
  "jstrs v = rbind (jiter v) (rmap jstr)"

definition jints :: "json \<Rightarrow> int list result" where
  "jints v = rbind (jiter v) (rmap jint)"

section \<open>Lemmas\<close>

lemma rmap_append: "rmap f (xs @ ys) = rbind (rmap f xs) (\<lambda>as. rbind (rmap f ys) (\<lambda>bs. Inr (as @ bs)))"
  by (induction xs) (auto simp: rbind_def split: sum.splits)

lemma rmap_map: "rmap f (map g xs) = rmap (f \<circ> g) xs"
  by (induction xs) simp_all

lemma rmap_id [simp]: "rmap Inr xs = Inr xs"
  using rmap_Inr [of xs Inr id] by simp

lemma rmap_cong [fundef_cong]: "xs = ys \<Longrightarrow> (\<And>x. x \<in> set ys \<Longrightarrow> f x = g x) \<Longrightarrow> rmap f xs = rmap g ys"
  by (induction ys arbitrary: xs) auto

lemma jstrs_strings [simp]: "jstrs (JList (map JStr ks)) = Inr ks"
  by (simp add: jstrs_def rmap_map comp_def)

lemma jints_ints [simp]: "jints (JList (map JInt ks)) = Inr ks"
  by (simp add: jints_def rmap_map comp_def)

end
