(* ===== verification/Catalog.thy ===== *)
theory Catalog
  imports Cells_V2 Json
begin

text \<open>
  \<^verbatim>\<open>src/src/osmpq/engine/catalog.py\<close>: the engine's view of a manifest, the cells a query has
  to read (\<open>cells_for_bbox\<close>), the byid parts of an id range and row-group pruning.
  The module has its own cell geometry, independent of \<open>layout.cells\<close>; \<open>Catalog_Correct\<close>
  relates the two. Reading the manifest's text (DuckDB or the file system) is not part of this
  theory: \<open>cm_data\<close> is the parsed document.
\<close>

section \<open>Paths\<close>

definition starts_with :: "string \<Rightarrow> string \<Rightarrow> bool" where
  "starts_with p s = prefix p s"

definition rstrip :: "char \<Rightarrow> string \<Rightarrow> string" where
  "rstrip c s = rev (dropWhile (\<lambda>x. x = c) (rev s))"

definition lstrip :: "char \<Rightarrow> string \<Rightarrow> string" where
  "lstrip c s = dropWhile (\<lambda>x. x = c) s"

fun split_on :: "char \<Rightarrow> string \<Rightarrow> string list" where
  "split_on c [] = [[]]"
| "split_on c (x # xs) =
     (if x = c then [] # split_on c xs
      else case split_on c xs of [] \<Rightarrow> [[x]] | p # ps \<Rightarrow> (x # p) # ps)"

fun join_with :: "string \<Rightarrow> string list \<Rightarrow> string" where
  "join_with s [] = []"
| "join_with s [x] = x"
| "join_with s (x # y # ys) = x @ s @ join_with s (y # ys)"

text \<open>\<open>str(Path(a) / b)\<close> for a \<open>b\<close> with no leading slash: empty and \<open>.\<close> components go away.\<close>

definition path_parts :: "string \<Rightarrow> string list" where
  "path_parts s = filter (\<lambda>p. p \<noteq> [] \<and> p \<noteq> ''.'') (split_on CHR ''/'' s)"

definition path_anchor :: "string \<Rightarrow> string" where
  "path_anchor s =
     (if starts_with ''//'' s \<and> \<not> starts_with ''///'' s then ''//''
      else if starts_with ''/'' s then ''/'' else [])"

definition path_join :: "string \<Rightarrow> string \<Rightarrow> string" where
  "path_join a b =
     (let s = path_anchor a @ join_with ''/'' (path_parts a @ path_parts b)
      in if s = [] then ''.'' else s)"

definition is_remote :: "string \<Rightarrow> bool" where
  "is_remote r \<longleftrightarrow> sublist ''://'' r \<and> \<not> starts_with ''file://'' r"

definition join_root :: "string \<Rightarrow> string \<Rightarrow> string" where
  "join_root r relpath =
     (let r = rstrip CHR ''/'' r; relpath = lstrip CHR ''/'' relpath
      in if is_remote r then r @ ''/'' @ relpath else path_join r relpath)"

section \<open>The manifest\<close>

record catalog =
  cm_root :: string
  cm_data :: json

abbreviation empty_obj :: json where "empty_obj \<equiv> JObj []"

definition promoted_keys :: "catalog \<Rightarrow> string list result" where
  "promoted_keys m = rbind (jget (cm_data m) ''promoted_keys'' (JList [])) jstrs"

definition generation :: "catalog \<Rightarrow> json result" where
  "generation m = jindex (cm_data m) ''generation''"

definition timestamp_osm_base :: "catalog \<Rightarrow> json result" where
  "timestamp_osm_base m = jget (cm_data m) ''timestamp_osm_base'' JNull"

definition leaf_cells :: "catalog \<Rightarrow> string list result" where
  "leaf_cells m = rbind (jget (cm_data m) ''leaf_cells'' (JList [])) jstrs"

definition manifest_version :: "catalog \<Rightarrow> int result" where
  "manifest_version m = rbind (jget (cm_data m) ''manifest_version'' (JInt 1)) jtoint"

definition ancestor_depths :: "catalog \<Rightarrow> int list result" where
  "ancestor_depths m = rbind (jget (cm_data m) ''ancestor_depths'' (JList [])) jints"

definition max_depth :: "catalog \<Rightarrow> int result" where
  "max_depth m = rbind (jget (cm_data m) ''max_depth'' (JInt 20)) jtoint"

definition rowgroup_index_paths :: "catalog \<Rightarrow> (string \<times> json) list result" where
  "rowgroup_index_paths m = rbind (jget (cm_data m) ''rowgroup_index'' empty_obj) jitems"

definition replication_source :: "catalog \<Rightarrow> json result" where
  "replication_source m = jget (cm_data m) ''replication_source'' JNull"

definition mpath :: "catalog \<Rightarrow> string \<Rightarrow> string" where
  "mpath m relpath = join_root (cm_root m) relpath"

definition table_names :: "string list" where
  "table_names = [''node'', ''way'', ''relation'']"

text \<open>The \<open>{k: self.path(v) for k, v in (files.get(t) or {}).items() if v}\<close> of the tiers.\<close>

definition resolve_files :: "catalog \<Rightarrow> json \<Rightarrow> (string \<times> (string \<times> string) list) list result" where
  "resolve_files m files =
     rmap (\<lambda>t. rbind (jget files t JNull) (\<lambda>tf0.
             rbind (jitems (jor tf0 empty_obj)) (\<lambda>kvs.
             rbind (rmap (\<lambda>(k, v). rbind (jstr v) (\<lambda>s. Inr (k, mpath m s)))
                      (filter (\<lambda>kv. truthy (snd kv)) kvs))
               (\<lambda>res. Inr (t, res)))))
       table_names"

record delta_tier =
  dt_name :: string
  dt_rank :: int
  dt_version :: json
  dt_seq_from :: json
  dt_seq_to :: json
  dt_timestamp :: json
  dt_rows :: "(string \<times> json) list"
  dt_files :: "(string \<times> (string \<times> string) list) list"
  dt_tombstones :: "string option"
  dt_cells :: "(string \<times> string list) list"

definition delta_tier_entry :: "catalog \<Rightarrow> string \<Rightarrow> int \<Rightarrow> json \<Rightarrow> delta_tier result" where
  "delta_tier_entry m name rank tier =
     rbind (jget tier ''files'' empty_obj) (\<lambda>files0. let files = jor files0 empty_obj in
     rbind (resolve_files m files) (\<lambda>resolved.
     rbind (jget files ''tombstones'' JNull) (\<lambda>tomb.
     rbind (jget tier ''cells'' JNull) (\<lambda>cells0. let cells = jor cells0 empty_obj in
     rbind (jget tier ''version'' JNull) (\<lambda>version.
     rbind (jget tier ''seq_from'' JNull) (\<lambda>seq_from.
     rbind (jget tier ''seq_to'' JNull) (\<lambda>seq_to.
     rbind (jget tier ''timestamp'' JNull) (\<lambda>ts.
     rbind (rbind (jget tier ''rows'' empty_obj) jitems) (\<lambda>rows.
     rbind (if truthy tomb then rbind (jstr tomb) (\<lambda>s. Inr (Some (mpath m s))) else Inr None) (\<lambda>tb.
     rbind (rmap (\<lambda>t. rbind (rbind (jget cells t (JList [])) jstrs) (\<lambda>cs. Inr (t, cs))) table_names) (\<lambda>cs.
       Inr \<lparr>dt_name = name, dt_rank = rank, dt_version = version, dt_seq_from = seq_from,
            dt_seq_to = seq_to, dt_timestamp = ts, dt_rows = rows, dt_files = resolved,
            dt_tombstones = tb, dt_cells = cs\<rparr>)))))))))))"

definition tier_ranks :: "(string \<times> int) list" where
  "tier_ranks = [(''hour'', 3), (''day'', 2), (''week'', 1)]"

fun delta_tiers_loop :: "catalog \<Rightarrow> json \<Rightarrow> (string \<times> int) list \<Rightarrow> delta_tier list result" where
  "delta_tiers_loop m deltas [] = Inr []"
| "delta_tiers_loop m deltas ((name, rank) # rest) =
     rbind (jget deltas name JNull) (\<lambda>tier.
       if \<not> truthy tier then delta_tiers_loop m deltas rest
       else rbind (delta_tier_entry m name rank tier) (\<lambda>e.
              rbind (delta_tiers_loop m deltas rest) (\<lambda>es. Inr (e # es))))"

definition delta_tiers :: "catalog \<Rightarrow> delta_tier list result" where
  "delta_tiers m =
     rbind (manifest_version m) (\<lambda>v.
       if v < 3 then Inr []
       else rbind (jget (cm_data m) ''deltas'' JNull) (\<lambda>d.
              delta_tiers_loop m (jor d empty_obj) tier_ranks))"

definition has_deltas :: "catalog \<Rightarrow> bool result" where
  "has_deltas m = rbind (delta_tiers m) (\<lambda>ts. Inr (ts \<noteq> []))"

definition table_cells :: "catalog \<Rightarrow> string \<Rightarrow> json result" where
  "table_cells m table =
     (if table = ''area''
      then rbind (jget (cm_data m) ''areas'' empty_obj) (\<lambda>a. jget a ''cells'' empty_obj)
      else rbind (jget (cm_data m) ''tables'' empty_obj) (\<lambda>ts.
             rbind (jget ts table empty_obj) (\<lambda>t. jget t ''cells'' empty_obj)))"

definition area_index :: "catalog \<Rightarrow> json result" where
  "area_index m = rbind (jget (cm_data m) ''areas'' empty_obj) (\<lambda>a. jget a ''index'' JNull)"

definition way_area_index :: "catalog \<Rightarrow> json result" where
  "way_area_index m = rbind (jget (cm_data m) ''areas'' empty_obj) (\<lambda>a. jget a ''way_index'' JNull)"

definition has_areas :: "catalog \<Rightarrow> bool result" where
  "has_areas m = rbind (area_index m) (\<lambda>a.
     if truthy a then Inr True else rbind (way_area_index m) (\<lambda>w. Inr (truthy w)))"

section \<open>History\<close>

definition history :: "catalog \<Rightarrow> json result" where
  "history m = jget (cm_data m) ''history'' JNull"

definition has_history :: "catalog \<Rightarrow> bool result" where
  "has_history m = rbind (history m) (\<lambda>h. Inr (truthy h))"

definition history_field :: "catalog \<Rightarrow> string \<Rightarrow> json result" where
  "history_field m k = rbind (history m) (\<lambda>h. if truthy h then jget h k JNull else Inr JNull)"

definition history_generation :: "catalog \<Rightarrow> json result" where
  "history_generation m = history_field m ''generation''"

definition history_since :: "catalog \<Rightarrow> json result" where
  "history_since m = history_field m ''since''"

text \<open>\<open>(h.get(k) or {}).get(table, dflt)\<close>\<close>

definition history_table :: "json \<Rightarrow> string \<Rightarrow> string \<Rightarrow> json \<Rightarrow> json result" where
  "history_table h k table dflt =
     rbind (jget h k JNull) (\<lambda>v. jget (jor v empty_obj) table dflt)"

definition history_spatial_parts :: "catalog \<Rightarrow> string \<Rightarrow> string list \<Rightarrow> json list result" where
  "history_spatial_parts m table cells =
     rbind (history m) (\<lambda>h.
       if \<not> truthy h then Inr []
       else rbind (history_table h ''spatial'' table empty_obj) (\<lambda>by_cell.
              rbind (rmap (\<lambda>c. rbind (jget by_cell c (JList [])) jiter) cells) (\<lambda>pss. Inr (concat pss))))"

definition history_spatial_files :: "catalog \<Rightarrow> string \<Rightarrow> string list \<Rightarrow> string list result" where
  "history_spatial_files m table cells =
     rbind (history_spatial_parts m table cells)
       (rmap (\<lambda>p. rbind (rbind (jindex p ''path'') jstr) (\<lambda>s. Inr (mpath m s))))"

definition history_byid_parts :: "catalog \<Rightarrow> string \<Rightarrow> json list result" where
  "history_byid_parts m table =
     rbind (history m) (\<lambda>h.
       if \<not> truthy h then Inr [] else rbind (history_table h ''byid'' table (JList [])) jiter)"

fun history_tiers_loop ::
  "catalog \<Rightarrow> json \<Rightarrow> string list \<Rightarrow> (string \<times> json \<times> (string \<times> (string \<times> string) list) list) list result" where
  "history_tiers_loop m tiers [] = Inr []"
| "history_tiers_loop m tiers (name # rest) =
     rbind (jget tiers name JNull) (\<lambda>tier.
       if \<not> truthy tier then history_tiers_loop m tiers rest
       else rbind (jget tier ''files'' empty_obj) (\<lambda>files0.
            rbind (resolve_files m (jor files0 empty_obj)) (\<lambda>rf.
            rbind (history_tiers_loop m tiers rest) (\<lambda>es. Inr ((name, tier, rf) # es)))))"

definition history_tiers ::
  "catalog \<Rightarrow> (string \<times> json \<times> (string \<times> (string \<times> string) list) list) list result" where
  "history_tiers m =
     rbind (history m) (\<lambda>h.
       if \<not> truthy h then Inr []
       else rbind (jget h ''tiers'' JNull) (\<lambda>ts.
              history_tiers_loop m (jor ts empty_obj) [''hour'', ''day'', ''week'']))"

definition history_tier_files :: "catalog \<Rightarrow> string \<Rightarrow> string \<Rightarrow> string list result" where
  "history_tier_files m table kind =
     rbind (history_tiers m) (\<lambda>ts.
       Inr (concat (map (\<lambda>(name, tier, files).
         case map_of files table of None \<Rightarrow> []
         | Some kvs \<Rightarrow> (case map_of kvs kind of Some f \<Rightarrow> if f \<noteq> [] then [f] else [] | None \<Rightarrow> [])) ts)))"

definition history_tier_spatial_files :: "catalog \<Rightarrow> string \<Rightarrow> string list result" where
  "history_tier_spatial_files m table = history_tier_files m table ''spatial''"

definition history_tier_byid_files :: "catalog \<Rightarrow> string \<Rightarrow> string list result" where
  "history_tier_byid_files m table = history_tier_files m table ''byid''"

definition byid_parts :: "catalog \<Rightarrow> string \<Rightarrow> json list result" where
  "byid_parts m table =
     rbind (jget (cm_data m) ''byid'' empty_obj) (\<lambda>b. rbind (jget b table (JList [])) jiter)"

definition index_parts :: "catalog \<Rightarrow> string \<Rightarrow> json list result" where
  "index_parts m name =
     rbind (jget (cm_data m) ''index'' empty_obj) (\<lambda>b. rbind (jget b name (JList [])) jiter)"

section \<open>Quadkey math\<close>

definition WORLD_BBOX :: bbox where "WORLD_BBOX = (- 90, - 180, 90, 180)"

fun cat_bbox_loop :: "bbox \<Rightarrow> string \<Rightarrow> bbox result" where
  "cat_bbox_loop b [] = Inr b"
| "cat_bbox_loop (s, w, n, e) (d # ds) =
     (let midlat = fdiv (fadd s n) 2; midlon = fdiv (fadd w e) 2
      in if d = CHR ''0'' then cat_bbox_loop (midlat, w, n, midlon) ds
         else if d = CHR ''1'' then cat_bbox_loop (midlat, midlon, n, e) ds
         else if d = CHR ''2'' then cat_bbox_loop (s, w, midlat, midlon) ds
         else if d = CHR ''3'' then cat_bbox_loop (s, midlon, midlat, e) ds
         else Inl ValueError)"

definition cat_cell_bbox :: "string \<Rightarrow> bbox result" where
  "cat_cell_bbox key = (if key = ''root'' then Inr WORLD_BBOX else cat_bbox_loop WORLD_BBOX key)"

fun cat_bbox_intersects :: "bbox \<Rightarrow> bbox \<Rightarrow> bool" where
  "cat_bbox_intersects (a_s, a_w, a_n, a_e) (b_s, b_w, b_n, b_e) \<longleftrightarrow>
     a_s \<le> b_n \<and> b_s \<le> a_n \<and> a_w \<le> b_e \<and> b_w \<le> a_e"

definition ancestors_and_self :: "string \<Rightarrow> string list" where
  "ancestors_and_self leaf_key =
     (if leaf_key = ''root'' then [''root'']
      else ''root'' # map (\<lambda>i. take i leaf_key) [1..<Suc (length leaf_key)])"

definition leaves_intersecting :: "catalog \<Rightarrow> bbox \<Rightarrow> string list result" where
  "leaves_intersecting m bb =
     rbind (leaf_cells m) (\<lambda>ls.
     rbind (rmap (\<lambda>leaf. rbind (cat_cell_bbox leaf) (\<lambda>cb. Inr (leaf, cat_bbox_intersects bb cb))) ls)
       (\<lambda>hs. Inr (map fst (filter snd hs))))"

definition ancestor_at_depth :: "string \<Rightarrow> int \<Rightarrow> string" where
  "ancestor_at_depth leaf_key depth = (if depth \<le> 0 then ''root'' else take (nat depth) leaf_key)"

definition delta_present_cells :: "catalog \<Rightarrow> string \<Rightarrow> string list result" where
  "delta_present_cells m table =
     rbind (delta_tiers m) (\<lambda>ts.
       Inr (concat (map (\<lambda>t. case map_of (dt_cells t) table of Some cs \<Rightarrow> cs | None \<Rightarrow> []) ts)))"

text \<open>
  Sets of cells are lists up to order and duplicates; the result is \<open>sorted(...)\<close> of the set.
\<close>

definition wanted_cells :: "catalog \<Rightarrow> string \<Rightarrow> string list \<Rightarrow> string list result" where
  "wanted_cells m table leaves =
     rbind (manifest_version m) (\<lambda>v.
       if 2 \<le> v \<and> table \<in> set [''way'', ''relation'', ''area'']
       then rbind (ancestor_depths m) (\<lambda>ads.
              Inr (concat (map (\<lambda>leaf. leaf # map (ancestor_at_depth leaf)
                     (filter (\<lambda>d. d \<le> int (length leaf)) (ads @ [0]))) leaves)))
       else Inr (concat (map ancestors_and_self leaves)))"

definition cells_for_present ::
  "catalog \<Rightarrow> string \<Rightarrow> bbox option \<Rightarrow> string list \<Rightarrow> string list \<Rightarrow> string list result" where
  "cells_for_present m table bb present base_keys =
     (case bb of
        None \<Rightarrow> Inr (sorted_set present)
      | Some b \<Rightarrow>
          rbind (leaves_intersecting m b) (\<lambda>leaves.
          rbind (wanted_cells m table leaves) (\<lambda>wanted.
          let extra_only = filter (\<lambda>c. c \<notin> set base_keys \<and> c \<notin> set wanted) present
          in rbind (rmap (\<lambda>c. rbind (cat_cell_bbox c) (\<lambda>cb. Inr (c, cat_bbox_intersects b cb))) extra_only)
               (\<lambda>xs. let wanted' = wanted @ map fst (filter snd xs)
                     in Inr (sorted_set (filter (\<lambda>c. c \<in> set present) wanted'))))))"

definition cat_cells_for_bbox :: "catalog \<Rightarrow> string \<Rightarrow> bbox option \<Rightarrow> string list result" where
  "cat_cells_for_bbox m table bb =
     rbind (rbind (table_cells m table) jkeys) (\<lambda>base_present.
     rbind (delta_present_cells m table) (\<lambda>dp.
       cells_for_present m table bb (base_present @ dp) base_present))"

definition history_cells_for_bbox :: "catalog \<Rightarrow> string \<Rightarrow> bbox option \<Rightarrow> string list result" where
  "history_cells_for_bbox m table bb =
     rbind (history m) (\<lambda>h.
       if \<not> truthy h then Inr []
       else rbind (rbind (history_table h ''spatial'' table empty_obj) jkeys) (\<lambda>present.
              cells_for_present m table bb present present))"

section \<open>Parts of an id range\<close>

definition has_id_range :: "json \<Rightarrow> bool result" where
  "has_id_range p = rbind (jin ''min_id'' p) (\<lambda>a. if a then jin ''max_id'' p else Inr False)"

fun all_have_id_range :: "json list \<Rightarrow> bool result" where
  "all_have_id_range [] = Inr True"
| "all_have_id_range (p # ps) = rbind (has_id_range p) (\<lambda>b. if b then all_have_id_range ps else Inr False)"

definition part_overlaps :: "int \<Rightarrow> int \<Rightarrow> json \<Rightarrow> bool result" where
  "part_overlaps lo hi p =
     rbind (rbind (jindex p ''max_id'') jint) (\<lambda>mx.
       if lo \<le> mx then rbind (rbind (jindex p ''min_id'') jint) (\<lambda>mn. Inr (mn \<le> hi)) else Inr False)"

fun rfilter :: "('a \<Rightarrow> bool result) \<Rightarrow> 'a list \<Rightarrow> 'a list result" where
  "rfilter P [] = Inr []"
| "rfilter P (x # xs) = rbind (P x) (\<lambda>b. rbind (rfilter P xs) (\<lambda>ys. Inr (if b then x # ys else ys)))"

definition parts_for_range :: "json list \<Rightarrow> int option \<Rightarrow> int option \<Rightarrow> json list result" where
  "parts_for_range parts lo hi =
     (case (lo, hi) of
        (Some l, Some h) \<Rightarrow>
          rbind (all_have_id_range parts) (\<lambda>a.
            if \<not> a then Inr parts else rfilter (part_overlaps l h) parts)
      | _ \<Rightarrow> Inr [])"

definition history_byid_parts_for_range :: "catalog \<Rightarrow> string \<Rightarrow> int option \<Rightarrow> int option \<Rightarrow> json list result" where
  "history_byid_parts_for_range m table lo hi =
     rbind (history_byid_parts m table) (\<lambda>ps. parts_for_range ps lo hi)"

definition byid_parts_for_range :: "catalog \<Rightarrow> string \<Rightarrow> int option \<Rightarrow> int option \<Rightarrow> json list result" where
  "byid_parts_for_range m table lo hi = rbind (byid_parts m table) (\<lambda>ps. parts_for_range ps lo hi)"

definition byid_parts_for_ids :: "catalog \<Rightarrow> string \<Rightarrow> int list \<Rightarrow> json list result" where
  "byid_parts_for_ids m table ids =
     (if ids = [] then Inr []
      else byid_parts_for_range m table (Some (Min (set ids))) (Some (Max (set ids))))"

definition index_parts_for_range :: "catalog \<Rightarrow> string \<Rightarrow> int option \<Rightarrow> int option \<Rightarrow> json list result" where
  "index_parts_for_range m name lo hi = rbind (index_parts m name) (\<lambda>ps. parts_for_range ps lo hi)"

definition index_parts_for_ids :: "catalog \<Rightarrow> string \<Rightarrow> int list \<Rightarrow> json list result" where
  "index_parts_for_ids m name ids =
     rbind (index_parts m name) (\<lambda>parts.
       if ids = [] \<or> parts = [] then Inr (if ids \<noteq> [] then parts else [])
       else index_parts_for_range m name (Some (Min (set ids))) (Some (Max (set ids))))"

section \<open>Row-group pruning\<close>

type_synonym rg_bbox = "int \<times> int \<times> int \<times> int"

text \<open>
  \<open>by_path\<close> of a \<open>RowGroupIndex\<close> from the rows of its Parquet file (None: SQL NULL), and
  \<open>prune_files_by_bbox\<close> for an index that is loaded (None: there is none).
\<close>

fun by_path_add :: "string \<Rightarrow> rg_bbox \<Rightarrow> (string \<times> rg_bbox list) list \<Rightarrow> (string \<times> rg_bbox list) list" where
  "by_path_add p b [] = [(p, [b])]"
| "by_path_add p b ((q, bs) # rest) = (if q = p then (q, bs @ [b]) # rest else (q, bs) # by_path_add p b rest)"

fun rowgroup_by_path ::
  "catalog \<Rightarrow> (string option \<times> int option \<times> int option \<times> int option \<times> int option) list
    \<Rightarrow> (string \<times> rg_bbox list) list \<Rightarrow> (string \<times> rg_bbox list) list" where
  "rowgroup_by_path m [] acc = acc"
| "rowgroup_by_path m ((Some relp, Some xmin, Some ymin, Some xmax, Some ymax) # rows) acc =
     rowgroup_by_path m rows (by_path_add (mpath m relp) (xmin, ymin, xmax, ymax) acc)"
| "rowgroup_by_path m (_ # rows) acc = rowgroup_by_path m rows acc"

fun rg_overlaps :: "rg_bbox \<Rightarrow> rg_bbox \<Rightarrow> bool" where
  "rg_overlaps (xmin, ymin, xmax, ymax) (bx0, bx1, bx2, bx3) \<longleftrightarrow>
     bx0 \<le> xmax \<and> bx1 \<le> ymax \<and> xmin \<le> bx2 \<and> ymin \<le> bx3"

definition prune_files_by_bbox ::
  "(string \<times> rg_bbox list) list option \<Rightarrow> string list \<Rightarrow> rg_bbox \<Rightarrow> string list" where
  "prune_files_by_bbox idx files bb =
     (if files = [] then files
      else case idx of
        None \<Rightarrow> files
      | Some by_path \<Rightarrow>
          filter (\<lambda>f. case map_of by_path f of
                        None \<Rightarrow> True
                      | Some [] \<Rightarrow> True
                      | Some boxes \<Rightarrow> \<exists>b\<in>set boxes. rg_overlaps bb b) files)"

end
