(* ===== verification/Catalog_Correct.thy ===== *)
theory Catalog_Correct
  imports Catalog
begin

text \<open>
  Cell geometry against digit strings, and the completeness of the query planner: a cell that
  may hold an element with a point in the query box is among the cells to read, when every
  point of the box is covered by a leaf.
\<close>

section \<open>The two geometries agree\<close>

lemma cat_bbox_loop_eq: "cat_bbox_loop b key = cell_bbox_loop b key"
  by (induction b key rule: cell_bbox_loop.induct) (auto simp: Let_def)

lemma cat_cell_bbox_eq: "cat_cell_bbox key = cell_bbox key"
  by (simp add: cat_cell_bbox_def cell_bbox_def cat_bbox_loop_eq WORLD_BBOX_def WORLD_def ROOT_def)

lemma cat_bbox_intersects_eq: "cat_bbox_intersects a b = bbox_intersects a b"
  by (cases a; cases b) auto

section \<open>The box of a cell\<close>

lemma cell_bbox_loop_append:
  "cell_bbox_loop b (p @ q) = rbind (cell_bbox_loop b p) (\<lambda>b'. cell_bbox_loop b' q)"
  by (induction b p rule: cell_bbox_loop.induct) (auto simp: Let_def)

lemma gbox_child:
  assumes b: "0 \<le> X" "X < 2 ^ d" "0 \<le> Y" "Y < 2 ^ d" and d: "d \<le> 20"
    and u: "u \<in> {0, 1}" and v: "v \<in> {0, 1}"
  shows "cell_bbox_loop (gbox X Y d) [digit_char (2 * (1 - v) + u)] = Inr (gbox (2 * X + u) (2 * Y + v) (Suc d))"
proof -
  have mlon: "fdiv (fadd (bound 180 X d) (bound 180 (X + 1) d)) 2 = bound 180 (2 * X + 1) (Suc d)"
    and mlat: "fdiv (fadd (bound 90 Y d) (bound 90 (Y + 1) d)) 2 = bound 90 (2 * Y + 1) (Suc d)"
    using mid_exact b d by simp_all
  have bd: "bound a (2 * z) (Suc d) = bound a z d" "bound a (2 + 2 * z) (Suc d) = bound a (z + 1) d" for a z
    using bound_double_index [of a z d] bound_double_index [of a "z + 1" d] by (simp_all add: algebra_simps)
  show ?thesis
    using u v by (auto simp: gbox_def mlon mlat bd Let_def)
qed

lemma path_grid:
  assumes "digits p" and "length p \<le> 20"
  shows "\<exists>X Y. 0 \<le> X \<and> X < 2 ^ length p \<and> 0 \<le> Y \<and> Y < 2 ^ length p \<and>
    p = kd X (2 ^ length p - 1 - Y) (length p) \<and> cell_bbox_loop WORLD p = Inr (gbox X Y (length p))"
  using assms
proof (induction p rule: rev_induct)
  case Nil
  show ?case by (intro exI [of _ 0]) (simp add: gbox_world)
next
  case (snoc c p)
  let ?d = "length p"
  obtain X Y where XY: "0 \<le> X" "X < 2 ^ ?d" "0 \<le> Y" "Y < 2 ^ ?d" "p = kd X (2 ^ ?d - 1 - Y) ?d"
    "cell_bbox_loop WORLD p = Inr (gbox X Y ?d)"
    using snoc by auto
  have c: "c \<in> digit_set" using snoc.prems by (simp del: insert_iff)
  obtain u v :: int where uv: "u \<in> {0, 1}" "v \<in> {0, 1}" "c = digit_char (2 * (1 - v) + u)"
  proof -
    have "\<exists>u v :: int. u \<in> {0, 1} \<and> v \<in> {0, 1} \<and> c = digit_char (2 * (1 - v) + u)"
      using c by (intro exI [of _ "dig c mod 2"] exI [of _ "1 - dig c div 2"]) (auto simp: dig_def)
    then show thesis using that by blast
  qed
  let ?X = "2 * X + u" and ?Y = "2 * Y + v"
  have "cell_bbox_loop WORLD (p @ [c]) = Inr (gbox ?X ?Y (Suc ?d))"
    using XY gbox_child [OF XY(1-4) _ uv(1,2)] snoc.prems uv(3) by (simp add: cell_bbox_loop_append)
  moreover have "p @ [c] = kd ?X (2 ^ Suc ?d - 1 - ?Y) (Suc ?d)"
  proof -
    have "?X div 2 = X" "?X mod 2 = u" "(2 ^ Suc ?d - 1 - ?Y) div 2 = 2 ^ ?d - 1 - Y"
      "(2 ^ Suc ?d - 1 - ?Y) mod 2 = 1 - v"
      using uv(1,2) by (auto; presburger)+
    then show ?thesis using XY(5) uv(3) by (simp only: kd.simps)
  qed
  moreover have "0 \<le> ?X" "?X < 2 ^ Suc ?d" "0 \<le> ?Y" "?Y < 2 ^ Suc ?d" using XY uv by auto
  ultimately show ?case unfolding length_append_singleton by blast
qed

lemma cell_bbox_path: "valid_key k \<Longrightarrow> cell_bbox k = cell_bbox_loop WORLD (path k)"
  by (auto simp: cell_bbox_def path_def)

lemma cell_bbox_prefix:
  assumes k: "valid_key k" and p: "prefix (path k) (square lat lon)"
  defines "d \<equiv> length (path k)"
  shows "cell_bbox k = Inr (gbox (at_depth (grid_x_e7 lon) d) (at_depth (grid_y_e7 lat) d) d)"
proof -
  have d: "d \<le> 20" using length_path [OF k] by (simp add: d_def MAX_DEPTH_def)
  obtain X Y where XY: "0 \<le> X" "X < 2 ^ d" "0 \<le> Y" "Y < 2 ^ d" "path k = kd X (2 ^ d - 1 - Y) d"
    "cell_bbox_loop WORLD (path k) = Inr (gbox X Y d)"
    using path_grid [OF digits_path [OF k]] d unfolding d_def by auto
  have "path k = take d (square lat lon)" using p by (auto simp: d_def prefix_def)
  then have "kd X (2 ^ d - 1 - Y) d = kd (at_depth (grid_x_e7 lon) d) (2 ^ d - 1 - at_depth (grid_y_e7 lat) d) d"
    using XY(5) take_square [OF d] by simp
  then have "X = at_depth (grid_x_e7 lon) d \<and> 2 ^ d - 1 - Y = 2 ^ d - 1 - at_depth (grid_y_e7 lat) d"
    using XY at_depth_bounds [OF grid_e7_bounds(1,2) d, of lon] at_depth_bounds [OF grid_e7_bounds(3,4) d, of lat]
    by (subst (asm) kd_inj) auto
  then show ?thesis using XY(6) cell_bbox_path [OF k] by simp
qed

definition in_world :: "int \<Rightarrow> int \<Rightarrow> bool" where
  "in_world lat lon \<longleftrightarrow> \<bar>lat\<bar> \<le> 900000000 \<and> \<bar>lon\<bar> \<le> 1800000000"

lemma e7_range:
  assumes "axis a" and "\<bar>v\<bar> \<le> (if a = 180 then 1800000000 else 900000000)"
  shows "int32 v" "- a \<le> e7_deg v" "e7_deg v \<le> a"
proof -
  show v: "int32 v" using assms by (auto simp: int32_def split: if_splits)
  have dbl: "is_double a" "is_double (- a)" using assms(1) is_double_bound [of a 0 1] is_double_bound [of a 0 0]
    by simp_all
  have "\<bar>of_int v :: rat\<bar> \<le> of_int (if a = 180 then 1800000000 else 900000000)"
    using assms(2) by (simp only: of_int_abs [symmetric] of_int_le_iff)
  then have "of_int v / 10000000 \<le> a" "- a \<le> of_int v / 10000000"
    using assms(1) by (auto simp: axis_def abs_le_iff split: if_splits)
  then show "- a \<le> e7_deg v" "e7_deg v \<le> a"
    using dbl fl_le_double fl_ge_double by (simp_all add: e7_deg_eq [OF v])
qed

lemma slice_contains:
  assumes a: "axis a" and v: "\<bar>v\<bar> \<le> (if a = 180 then 1800000000 else 900000000)" and d: "d \<le> 20"
  defines "X \<equiv> at_depth (axis_grid a v) d"
  shows "bound a X d \<le> e7_deg v" "e7_deg v \<le> bound a (X + 1) d"
proof -
  note r = e7_range [OF a v]
  have g: "0 \<le> axis_grid a v" "axis_grid a v < 1048576"
    using np_clip_bounds [of 0 1048575] by (simp_all add: axis_grid_def order_le_less_trans [of _ 1048575])
  have X: "0 \<le> X" "X < 2 ^ d" using at_depth_bounds [OF g d] by (simp_all add: X_def)
  show "bound a X d \<le> e7_deg v"
  proof (cases "X = 0")
    case False
    then show ?thesis using bound_le_e7 [OF a r(1) d, of X] X by (simp add: X_def at_depth_def)
  qed (use r(2) in \<open>simp add: bound_def\<close>)
  show "e7_deg v \<le> bound a (X + 1) d"
  proof (cases "X + 1 < 2 ^ d")
    case True
    then show ?thesis using bound_le_e7 [OF a r(1) d, of "X + 1"] X by (simp add: X_def at_depth_def)
  next
    case False
    then have "X + 1 = 2 ^ d" using X by linarith
    then have "bound a (X + 1) d = a" by (simp add: bound_def)
    then show ?thesis using r(3) by simp
  qed
qed

definition point_in :: "bbox \<Rightarrow> int \<Rightarrow> int \<Rightarrow> bool" where
  "point_in bb lat lon = (case bb of (s, w, n, e) \<Rightarrow>
     s \<le> e7_deg lat \<and> e7_deg lat \<le> n \<and> w \<le> e7_deg lon \<and> e7_deg lon \<le> e)"

lemma point_in_cell:
  assumes k: "valid_key k" and p: "prefix (path k) (square lat lon)" and w: "in_world lat lon"
  obtains bb where "cell_bbox k = Inr bb" "point_in bb lat lon"
proof -
  let ?d = "length (path k)"
  have d: "?d \<le> 20" using length_path [OF k] by (simp add: MAX_DEPTH_def)
  show thesis
  proof (rule that [OF cell_bbox_prefix [OF k p]])
    show "point_in (gbox (at_depth (grid_x_e7 lon) ?d) (at_depth (grid_y_e7 lat) ?d) ?d) lat lon"
      using slice_contains [OF axis_180 _ d, of lon] slice_contains [OF axis_90 _ d, of lat] w
      by (simp add: point_in_def gbox_def in_world_def axis_grid_eq)
  qed
qed

lemma cell_bbox_valid: "valid_key k \<Longrightarrow> \<exists>bb. cell_bbox k = Inr bb"
  using path_grid [OF digits_path, of k] length_path [of k] by (metis MAX_DEPTH_def cell_bbox_path)

lemma intersects_point: "point_in a lat lon \<Longrightarrow> point_in b lat lon \<Longrightarrow> cat_bbox_intersects a b"
  by (cases a; cases b) (auto simp: point_in_def)

section \<open>Planning\<close>

lemma leaves_intersecting_valid:
  assumes "leaf_cells m = Inr L" and "\<And>k. k \<in> set L \<Longrightarrow> valid_key k"
  obtains hits where "leaves_intersecting m bb = Inr hits"
    "\<And>k. k \<in> set hits \<longleftrightarrow> k \<in> set L \<and> (\<exists>cb. cell_bbox k = Inr cb \<and> cat_bbox_intersects bb cb)"
proof -
  let ?g = "\<lambda>k. case cell_bbox k of Inr cb \<Rightarrow> (k, cat_bbox_intersects bb cb) | Inl e \<Rightarrow> (k, False)"
  have "rmap (\<lambda>leaf. rbind (cat_cell_bbox leaf) (\<lambda>cb. Inr (leaf, cat_bbox_intersects bb cb))) L = Inr (map ?g L)"
  proof (rule rmap_Inr)
    fix k assume "k \<in> set L"
    then obtain cb where "cell_bbox k = Inr cb" using cell_bbox_valid assms(2) by blast
    then show "rbind (cat_cell_bbox k) (\<lambda>cb. Inr (k, cat_bbox_intersects bb cb)) = Inr (?g k)"
      by (simp add: cat_cell_bbox_eq)
  qed
  then have "leaves_intersecting m bb = Inr (map fst (filter snd (map ?g L)))"
    by (simp add: leaves_intersecting_def assms(1))
  moreover have "k \<in> set (map fst (filter snd (map ?g L))) \<longleftrightarrow>
      k \<in> set L \<and> (\<exists>cb. cell_bbox k = Inr cb \<and> cat_bbox_intersects bb cb)" for k
    by (force split: sum.splits)
  ultimately show thesis using that by blast
qed

lemma cells_for_present_wanted:
  assumes leaves: "leaves_intersecting m bb = Inr hits" and w: "wanted_cells m table hits = Inr wanted"
    and valid: "\<And>c. c \<in> set present \<Longrightarrow> valid_key c"
  obtains cells where "cells_for_present m table (Some bb) present base = Inr cells"
    "\<And>c. c \<in> set wanted \<Longrightarrow> c \<in> set present \<Longrightarrow> c \<in> set cells"
    "\<And>c. c \<in> set cells \<Longrightarrow> c \<in> set present"
proof -
  let ?g = "\<lambda>k. case cell_bbox k of Inr cb \<Rightarrow> (k, cat_bbox_intersects bb cb) | Inl e \<Rightarrow> (k, False)"
  let ?xs = "filter (\<lambda>c. c \<notin> set base \<and> c \<notin> set wanted) present"
  have "rmap (\<lambda>leaf. rbind (cat_cell_bbox leaf) (\<lambda>cb. Inr (leaf, cat_bbox_intersects bb cb))) ?xs = Inr (map ?g ?xs)"
  proof (rule rmap_Inr)
    fix k assume "k \<in> set ?xs"
    then have "valid_key k" using valid by simp
    then obtain cb where "cell_bbox k = Inr cb" using cell_bbox_valid by blast
    then show "rbind (cat_cell_bbox k) (\<lambda>cb. Inr (k, cat_bbox_intersects bb cb)) = Inr (?g k)"
      by (simp add: cat_cell_bbox_eq)
  qed
  then have "cells_for_present m table (Some bb) present base =
      Inr (sorted_set (filter (\<lambda>c. c \<in> set present) (wanted @ map fst (filter snd (map ?g ?xs)))))"
    by (simp add: cells_for_present_def leaves w Let_def)
  then show thesis
    by (rule that) (simp_all only: set_sorted_set set_filter set_append Un_iff mem_Collect_eq simp_thms)
qed

lemma wanted_ancestor:
  assumes v: "manifest_version m = Inr v" and a: "ancestor_depths m = Inr (map int ads)"
    and k: "k \<in> set hits" "valid_key k" and c: "valid_key c" "prefix (path c) (path k)"
    and ok: "c = k \<or> 2 \<le> v \<and> depth_of c \<in> set ads \<or> v < 2"
  obtains wanted where "wanted_cells m table hits = Inr wanted" "c \<in> set wanted"
proof (cases "2 \<le> v \<and> table \<in> set [''way'', ''relation'', ''area'']")
  case True
  let ?f = "\<lambda>leaf. leaf # map (ancestor_at_depth leaf) (filter (\<lambda>d. d \<le> int (length leaf)) (map int ads @ [0]))"
  have "wanted_cells m table hits = Inr (concat (map ?f hits))"
    using True v a by (simp add: wanted_cells_def)
  moreover have "c \<in> set (?f k)"
  proof (cases "c = k")
    case False
    then have n: "depth_of c \<in> set ads" using ok True by simp
    have "k \<noteq> ROOT" using False c by (auto simp: path_def valid_key_def split: if_splits)
    then have pk: "path k = k" by (simp add: path_def)
    have "c = ancestor_at_depth k (int (depth_of c))"
      using c pk key_of_path [OF c(1)]
      by (auto simp: ancestor_at_depth_def depth_of_path prefix_def ROOT_def key_of_def path_def split: if_splits)
    moreover have "int (depth_of c) \<le> int (length k)"
      using prefix_length_le [OF c(2)] pk by (simp add: depth_of_path)
    ultimately show ?thesis using n by (auto intro!: image_eqI)
  qed simp
  ultimately show thesis using that [of "concat (map ?f hits)"] k(1) by auto
next
  case False
  have "wanted_cells m table hits = Inr (concat (map ancestors_and_self hits))"
    using False v by (auto simp: wanted_cells_def)
  moreover have "c \<in> set (ancestors_and_self k)"
  proof (cases "k = ROOT")
    case True
    then have "path c = []" using c(2) by simp
    then have "c = ROOT" using key_of_path [OF c(1)] by (simp add: key_of_def)
    then show ?thesis using True by (simp add: ancestors_and_self_def ROOT_def)
  next
    case nr: False
    then have pk: "path k = k" by (simp add: path_def)
    show ?thesis
    proof (cases "c = ROOT")
      case True
      then show ?thesis by (simp add: ancestors_and_self_def ROOT_def)
    next
      case False
      then have pc: "path c = c" "c \<noteq> []" using c(1) by (auto simp: path_def valid_key_def)
      then have "take (length c) k = c" "1 \<le> length c" "length c < Suc (length k)"
        using c(2) pk prefix_length_le [OF c(2)] by (auto simp: prefix_def Suc_le_eq)
      then have "c \<in> (\<lambda>i. take i k) ` set [1..<Suc (length k)]"
        by (intro image_eqI [of _ _ "length c"]) auto
      then show ?thesis using nr by (simp add: ancestors_and_self_def ROOT_def)
    qed
  qed
  ultimately show thesis using that [of "concat (map ancestors_and_self hits)"] k(1) by auto
qed

lemma plan_covers_cell:
  assumes L: "leaf_cells m = Inr L" and val: "\<And>k. k \<in> set L \<Longrightarrow> valid_key k"
    and v: "manifest_version m = Inr v" and a: "ancestor_depths m = Inr (map int ads)"
    and k: "k \<in> set L" "prefix (path k) (square lat lon)" and w: "in_world lat lon" and bb: "point_in bb lat lon"
    and c: "valid_key c" "prefix (path c) (path k)" "c = k \<or> 2 \<le> v \<and> depth_of c \<in> set ads \<or> v < 2"
    and t: "rbind (table_cells m table) jkeys = Inr base" and d: "delta_present_cells m table = Inr dp"
    and present: "\<And>p. p \<in> set base \<union> set dp \<Longrightarrow> valid_key p" "c \<in> set base \<union> set dp"
  shows "\<exists>cells. cat_cells_for_bbox m table (Some bb) = Inr cells \<and> c \<in> set cells"
proof -
  obtain hits where h: "leaves_intersecting m bb = Inr hits"
    "\<And>k. k \<in> set hits \<longleftrightarrow> k \<in> set L \<and> (\<exists>cb. cell_bbox k = Inr cb \<and> cat_bbox_intersects bb cb)"
    using leaves_intersecting_valid [OF L val] by blast
  obtain cb where "cell_bbox k = Inr cb" "point_in cb lat lon"
    using point_in_cell [OF val [OF k(1)] k(2) w] by blast
  then have "k \<in> set hits" using h(2) k(1) intersects_point [OF bb] by blast
  from wanted_ancestor [OF v a this val [OF k(1)] c] obtain wanted
    where wt: "wanted_cells m table hits = Inr wanted" "c \<in> set wanted" by blast
  obtain cells where "cells_for_present m table (Some bb) (base @ dp) base = Inr cells" "c \<in> set cells"
    using cells_for_present_wanted [OF h(1) wt(1), of "base @ dp" base] wt(2) present
    by (metis Un_iff set_append)
  then show ?thesis by (simp add: cat_cells_for_bbox_def t d)
qed

text \<open>Where no leaf meets the box, nothing is wanted and only cells the deltas introduced are examined.\<close>

lemma bbox_intersects_commute: "bbox_intersects a b = bbox_intersects b a"
  by (cases a; cases b) auto

lemma plan_outside_leaves:
  assumes L: "leaf_cells m = Inr L" and val: "\<And>k. k \<in> set L \<Longrightarrow> valid_key k"
    and gap: "\<And>k cb. k \<in> set L \<Longrightarrow> cell_bbox k = Inr cb \<Longrightarrow> \<not> bbox_intersects bb cb"
    and v: "manifest_version m = Inr v" and a: "ancestor_depths m = Inr ads"
    and t: "rbind (table_cells m table) jkeys = Inr base" and d: "delta_present_cells m table = Inr dp"
    and dp: "\<And>c. c \<in> set dp \<Longrightarrow> valid_key c"
  obtains cells where "cat_cells_for_bbox m table (Some bb) = Inr cells"
    "set cells = {c \<in> set dp. c \<notin> set base \<and> (\<exists>cb. cell_bbox c = Inr cb \<and> bbox_intersects bb cb)}"
proof -
  let ?g = "\<lambda>k. case cell_bbox k of Inr cb \<Rightarrow> (k, cat_bbox_intersects bb cb) | Inl e \<Rightarrow> (k, False)"
  let ?xs = "filter (\<lambda>c. c \<notin> set base) (base @ dp)"
  obtain hits where h: "leaves_intersecting m bb = Inr hits"
    "\<And>k. k \<in> set hits \<longleftrightarrow> k \<in> set L \<and> (\<exists>cb. cell_bbox k = Inr cb \<and> cat_bbox_intersects bb cb)"
    using leaves_intersecting_valid [OF L val] by blast
  have "k \<notin> set hits" for k using h(2) [of k] gap [of k] by (auto simp: cat_bbox_intersects_eq)
  then have "hits = []" by (cases hits) auto
  then have hits: "leaves_intersecting m bb = Inr []" using h(1) by simp
  have w: "wanted_cells m table [] = Inr []" by (simp add: wanted_cells_def v a)
  have "rmap (\<lambda>c. rbind (cat_cell_bbox c) (\<lambda>cb. Inr (c, cat_bbox_intersects bb cb))) ?xs = Inr (map ?g ?xs)"
  proof (rule rmap_Inr)
    fix k assume "k \<in> set ?xs"
    then have "valid_key k" using dp by auto
    then obtain cb where "cell_bbox k = Inr cb" using cell_bbox_valid by blast
    then show "rbind (cat_cell_bbox k) (\<lambda>cb. Inr (k, cat_bbox_intersects bb cb)) = Inr (?g k)"
      by (simp add: cat_cell_bbox_eq)
  qed
  then have "cat_cells_for_bbox m table (Some bb) =
      Inr (sorted_set (filter (\<lambda>c. c \<in> set (base @ dp)) (map fst (filter snd (map ?g ?xs)))))"
    by (simp add: cat_cells_for_bbox_def t d cells_for_present_def hits w Let_def del: filter_append)
  then show thesis
    by (rule that) (force simp: cat_bbox_intersects_eq split: sum.splits)
qed

lemma cells_for_bbox_outside_leaves:
  assumes "\<And>k. k \<in> set L \<Longrightarrow> valid_key k"
    and "\<And>k cb. k \<in> set L \<Longrightarrow> cell_bbox k = Inr cb \<Longrightarrow> \<not> bbox_intersects bb cb"
  shows "cells_for_bbox bb (LeafSet L) = Some (Inr [ROOT])"
proof -
  have "cells_for_bbox_loop bb L [] = Some (Inr [])"
    using assms
  proof (induction L)
    case (Cons k L)
    have "valid_key k" using Cons.prems(1) by simp
    then obtain cb where cb: "cell_bbox k = Inr cb" using cell_bbox_valid by blast
    then have "\<not> bbox_intersects cb bb" using Cons.prems(2) [OF _ cb] by (simp add: bbox_intersects_commute [of cb bb])
    moreover have "cells_for_bbox_loop bb L [] = Some (Inr [])"
      by (rule Cons.IH) (rule Cons.prems, rule list.set_intros(2), assumption+)+
    ultimately show ?case using cb by simp
  qed simp
  then show ?thesis by (simp add: cells_for_bbox_def sorted_set_def)
qed

context leaf_set
begin

lemma v2_cell_above_leaf:
  assumes ix: "LeafIndex L = Inr ix" and i: "int32 y0" "int32 x0" "int32 y1" "int32 x1"
    and k: "k \<in> set L" "prefix (path k) (square lat lon)"
    and l: "l \<in> set L" "key_lo l \<le> b4 (square y0 x0)"
    and z: "0 \<in> set ads" and md: "md \<le> MAX_DEPTH"
    and p: "y0 \<le> lat" "lat \<le> y1" "x0 \<le> lon" "lon \<le> x1"
    and c: "containing_cells_v2_row ix ads md (y0, x0, y1, x1) = Inr c"
  shows "valid_key c" "prefix (path c) (path k)" "c = k \<or> depth_of c \<in> set ads"
proof -
  obtain n l where n0: "containing_cells_v2_row ix ads md (y0, x0, y1, x1) = Inr (key_of (take n (square y0 x0)))"
    and n': "l \<in> set L" "n \<le> md" "take n (square y0 x0) = take n (square y1 x1)"
    "prefix (path l) (square y0 x0) \<and> n = depth_of l \<or> n \<in> set ads"
    and mx: "\<forall>m. m \<le> md \<longrightarrow> m \<le> depth_of l \<longrightarrow> take m (square y0 x0) = take m (square y1 x1) \<longrightarrow>
       m \<in> set ads \<or> prefix (path l) (square y0 x0) \<and> m = depth_of l \<longrightarrow> m \<le> n"
    and n'': "n \<le> depth_of l" "\<forall>m\<in>set L. prefix (path m) (square y0 x0) \<longrightarrow> m = l"
    by (rule v2_row_depth [OF ix i l z md])
  have "c = key_of (take n (square y0 x0))" using c n0 by simp
  note n = this n' n''
  let ?p = "take n (square y0 x0)"
  have d: "digits ?p" "length ?p = n" "n \<le> 20" using n(3) md by (simp_all add: digits_take MAX_DEPTH_def)
  have cv: "valid_key c" unfolding n(1) using d by (intro valid_key_key_of) (simp_all add: MAX_DEPTH_def)
  then show "valid_key c" .
  have pc: "path c = ?p" using n(1) d(1) by simp
  have pp: "prefix ?p (square lat lon)"
    using take_square_between [OF d(3) n(4) p] by (metis take_is_prefix)
  have both: "prefix ?p (path k)"
  proof (rule ccontr)
    assume np: "\<not> prefix ?p (path k)"
    then have s: "strict_prefix (path k) ?p" using prefix_same_cases [OF pp k(2)] by (auto simp: strict_prefix_def)
    then have "prefix (path k) (square y0 x0)"
      using take_is_prefix [of n "square y0 x0"] by (metis prefix_order.dual_order.trans strict_prefix_def)
    then have "k = l" using n(7) k(1) by simp
    then show False using prefix_length_less [OF s] d(2) n(6) by (simp add: depth_of_path)
  qed
  then show "prefix (path c) (path k)" using pc by simp
  show "c = k \<or> depth_of c \<in> set ads"
  proof (cases "n \<in> set ads")
    case False
    then have l: "prefix (path l) (square y0 x0)" "n = depth_of l" using n(5) by auto
    then have "path l = ?p" by (auto simp: depth_of_path prefix_def)
    then have "prefix (path l) (path k)" using both by simp
    then have "l = k" using prefix_free [OF n(2) k(1)] by simp
    then show ?thesis using \<open>path l = ?p\<close> pc path_inj [OF cv valid [OF k(1)]] by simp
  qed (use pc d(2) in \<open>simp add: depth_of_path\<close>)
qed

end

section \<open>Parts and row groups\<close>

definition part_range :: "json \<Rightarrow> (int \<times> int) option" where
  "part_range p = (case p of JObj kvs \<Rightarrow>
     (case (map_of kvs ''min_id'', map_of kvs ''max_id'') of
        (Some (JInt a), Some (JInt b)) \<Rightarrow> Some (a, b) | _ \<Rightarrow> None) | _ \<Rightarrow> None)"

lemma part_range_Some:
  assumes "part_range p = Some (a, b)"
  shows "has_id_range p = Inr True" "part_overlaps lo hi p = Inr (lo \<le> b \<and> a \<le> hi)"
  using assms map_of_SomeD
  by (force simp: part_range_def has_id_range_def part_overlaps_def image_iff split: json.splits option.splits)+

lemma rfilter_Inr: "(\<And>x. x \<in> set xs \<Longrightarrow> P x = Inr (Q x)) \<Longrightarrow> rfilter P xs = Inr (filter Q xs)"
  by (induction xs) auto

lemma parts_for_range_exact:
  assumes "\<And>p. p \<in> set parts \<Longrightarrow> \<exists>a b. part_range p = Some (a, b)"
  shows "parts_for_range parts (Some lo) (Some hi)
    = Inr (filter (\<lambda>p. case part_range p of Some (a, b) \<Rightarrow> lo \<le> b \<and> a \<le> hi | None \<Rightarrow> False) parts)"
proof -
  have "all_have_id_range parts = Inr True"
    using assms by (induction parts) (auto, metis part_range_Some(1) rbind_simps(2))
  moreover have "rfilter (part_overlaps lo hi) parts = Inr (filter
      (\<lambda>p. case part_range p of Some (a, b) \<Rightarrow> lo \<le> b \<and> a \<le> hi | None \<Rightarrow> False) parts)"
    by (rule rfilter_Inr) (use assms part_range_Some(2) in force)
  ultimately show ?thesis by (simp add: parts_for_range_def)
qed

lemma by_path_add_lookup:
  "map_of (by_path_add p b acc) q =
     (if q = p then Some ((case map_of acc p of Some bs \<Rightarrow> bs | None \<Rightarrow> []) @ [b]) else map_of acc q)"
  by (induction acc) auto

lemma rowgroup_by_path_lookup:
  "(case map_of (rowgroup_by_path m rows acc) f of Some bs \<Rightarrow> set bs | None \<Rightarrow> {}) =
   (case map_of acc f of Some bs \<Rightarrow> set bs | None \<Rightarrow> {}) \<union>
   {(x0, y0, x1, y1) |x0 y0 x1 y1 relp. (Some relp, Some x0, Some y0, Some x1, Some y1) \<in> set rows \<and> mpath m relp = f}"
  by (induction m rows acc rule: rowgroup_by_path.induct)
     (auto simp: by_path_add_lookup split: option.splits if_splits)

end
