(* ===== verification/Layout_Lemmas.thy ===== *)
theory Layout_Lemmas
  imports Catalog_Correct
begin

text \<open>
  What the layout properties share: node counts of cells as counts of digit strings, the
  placement of a whole array of nodes, and the v2 row in terms of digit strings.
\<close>

definition nodes_in :: "string \<Rightarrow> (int \<times> int) list \<Rightarrow> (int \<times> int) list" where
  "nodes_in k nodes = filter (\<lambda>(lat, lon). prefix (path k) (square lat lon)) nodes"

definition lcp_str :: "string \<Rightarrow> string \<Rightarrow> nat \<Rightarrow> nat" where
  "lcp_str s t n = length (takeWhile (\<lambda>p. fst p = snd p) (zip (take n s) (take n t)))"

lemma int32_rowsD: "int32_rows nodes \<Longrightarrow> (lat, lon) \<in> set nodes \<Longrightarrow> int32 lat \<and> int32 lon"
  by (auto simp: int32_rows_def)

lemma range_count_nodes:
  assumes k: "valid_key k" and n: "int32_rows nodes"
  shows "range_count (map uint (point_to_qk_np nodes)) (key_lo k) (key_hi k) = length (nodes_in k nodes)"
proof -
  have "length (filter (\<lambda>c. key_lo k \<le> c \<and> c \<le> key_hi k) (map uint (point_to_qk_np nodes)))
      = length (filter (\<lambda>(lat, lon). prefix (path k) (square lat lon)) nodes)"
    using n
  proof (induction nodes)
    case (Cons p ns)
    obtain lat lon where p: "p = (lat, lon)" by (cases p)
    have i: "int32 lat" "int32 lon" using Cons.prems p by (auto simp: int32_rows_def)
    have "int32_rows ns" using Cons.prems by (auto simp: int32_rows_def)
    then show ?case
      using Cons.IH in_range_iff_prefix [OF k square_digits, of lat lon] i
      by (simp add: p point_to_qk_np_def uint_qk_np1)
  qed (simp add: point_to_qk_np_def)
  then show ?thesis using range_count_eq key_range_bounds(2) [OF k] by (simp add: nodes_in_def)
qed

lemma covers_prefix:
  assumes "select_ok (map uint (point_to_qk_np nodes)) mn md ROOT ls" and "int32_rows nodes"
    and p: "(lat, lon) \<in> set nodes"
  obtains k where "k \<in> set ls" "prefix (path k) (square lat lon)"
proof -
  let ?c = "uint (point_to_qk_np1 lat lon)"
  have i: "int32 lat" "int32 lon" using int32_rowsD [OF assms(2) p] by auto
  have "?c \<in> set (map uint (point_to_qk_np nodes))" using p by (force simp: point_to_qk_np_def)
  moreover have "key_lo ROOT \<le> ?c" "?c \<le> key_hi ROOT"
    using code_bounds [of lat lon] i by (simp_all add: root_range uint_qk_np1)
  ultimately have "covers ls ?c" using assms(1) unfolding select_ok_def by blast
  then obtain k where k: "k \<in> set ls" "key_lo k \<le> ?c" "?c \<le> key_hi k" by (auto simp: covers_def)
  moreover have "valid_key k" using assms(1) k(1) by (auto simp: select_ok_def)
  ultimately show thesis
    using that in_range_iff_prefix [of k "square lat lon"] i by (simp add: uint_qk_np1)
qed

context leaf_set
begin

lemma point_cells_np_all:
  assumes n: "int32_rows nodes" and cov: "\<And>lat lon. (lat, lon) \<in> set nodes \<Longrightarrow> \<exists>k\<in>set L. prefix (path k) (square lat lon)"
  shows "point_cells_np nodes (LeafSet L)
    = Inr (map (\<lambda>(lat, lon). point_cell (e7_deg lat) (e7_deg lon) (LeafSet L)) nodes)"
proof -
  obtain ix where ix: "LeafIndex L = Inr ix" by (rule LeafIndex_ok)
  have "rmap (leaf_for_qk ix) (point_to_qk_np nodes) =
      Inr (map (\<lambda>(lat, lon). point_cell (e7_deg lat) (e7_deg lon) (LeafSet L)) nodes)"
    unfolding point_to_qk_np_def rmap_map
  proof (rule rmap_Inr)
    fix p assume p: "p \<in> set nodes"
    obtain lat lon where eq: "p = (lat, lon)" by (cases p)
    obtain k where k: "k \<in> set L" "prefix (path k) (square lat lon)" using cov p eq by blast
    have i: "int32 lat" "int32 lon" using int32_rowsD [OF n] p eq by auto
    show "(leaf_for_qk ix \<circ> (\<lambda>(lat, lon). point_to_qk_np1 lat lon)) p
        = Inr (case p of (lat, lon) \<Rightarrow> point_cell (e7_deg lat) (e7_deg lon) (LeafSet L))"
      using vectorised_eq_scalar [OF i k] ix eq
      by (auto simp: point_cells_np_def point_to_qk_np_def rbind_eq_Inr)
  qed
  then show ?thesis by (simp add: point_cells_np_def ix)
qed

lemma leaf_unique:
  assumes "k \<in> set L" "l \<in> set L" "prefix (path k) s" "prefix (path l) s"
  shows "k = l"
  using assms prefix_same_cases [of "path k" s "path l"] prefix_free by blast

end

text \<open>The v2 row, with the two corners as digit strings.\<close>

lemma lcp_loop_str:
  assumes s: "digits s" "length s = MAX_DEPTH" and t: "digits t" "length t = MAX_DEPTH"
    and n: "n \<le> MAX_DEPTH"
  shows "lcp_loop (code_of s) (code_of t) [0..<n] n True = lcp_str s t n"
proof -
  let ?P = "\<lambda>p :: char \<times> char. fst p = snd p" and ?z = "zip (take n s) (take n t)"
  let ?l = "lcp_loop (code_of s) (code_of t) [0..<n] n True" and ?r = "lcp_str s t n"
  have z: "length ?z = n" "\<And>i. i < n \<Longrightarrow> ?z ! i = (s ! i, t ! i)" using s t n by simp_all
  have r: "?r \<le> n" using length_takeWhile_le [of ?P ?z] z(1) by (simp add: lcp_str_def)
  have eq: "s ! i = t ! i" if "i < ?r" for i
    using set_takeWhileD [of _ ?P ?z] nth_mem [of i "takeWhile ?P ?z"] that r z(2) [of i]
    by (auto simp: lcp_str_def takeWhile_nth)
  have "take ?r s = take ?r t" using eq r n s t by (simp add: take_eq_iff_nth)
  then have le: "?r \<le> ?l" using lcp_loop_code(2) [OF s t n r] by simp
  have l: "?l \<le> n" "take ?l s = take ?l t"
    using lcp_loop_code [OF s t n] by auto
  have "\<not> ?r < ?l"
  proof
    assume lt: "?r < ?l"
    then have "s ! ?r = t ! ?r" using l n s t by (simp add: take_eq_iff_nth)
    moreover have "?r < length ?z" using lt l(1) z(1) by linarith
    then have "\<not> ?P (?z ! ?r)" using nth_length_takeWhile [of ?P ?z] unfolding lcp_str_def by blast
    ultimately show False using z(2) [of ?r] lt l(1) by simp
  qed
  then show ?thesis using le by simp
qed

lemma v2_row_strings:
  assumes i: "int32 y0" "int32 x0" "int32 y1" "int32 x1" and md: "md \<le> MAX_DEPTH"
  defines "s \<equiv> square y0 x0" and "t \<equiv> square y1 x1"
  shows "containing_cells_v2_row ix ads md (y0, x0, y1, x1) =
    (let leaf_idx = leaf_index_for_qk ix (code_of s)
     in rbind (py_nth (map depth_of (li_keys_by_lo ix)) leaf_idx) (\<lambda>leaf_depth.
        rbind (contains_qk ix leaf_idx (code_of s)) (\<lambda>leaf_valid.
        let truncated_depth = min (lcp_str s t md) leaf_depth;
            ad_sorted = sorted_set ads;
            idx = np_clip (int (searchsorted_right ad_sorted truncated_depth) - 1) 0 (int (length ad_sorted) - 1)
        in rbind (py_nth ad_sorted idx) (\<lambda>rounded_depth.
           let final_depth = (if truncated_depth = leaf_depth \<and> leaf_valid then truncated_depth else rounded_depth)
           in Inr (if final_depth = 0 then ROOT else take final_depth (take md s))))))"
  unfolding containing_cells_v2_row_def prod.case Let_def qk_np1_code [OF i(1,2)] qk_np1_code [OF i(3,4)]
    s_def t_def lcp_loop_str [OF square_digits square_digits md] digit_chars_code [OF square_digits md] ..

end
