(* ===== verification/Layout_Properties.thy ===== *)
theory Layout_Properties
  imports Layout_Lemmas
begin

text \<open>The properties of the cell layout, each with a concrete witness where it has hypotheses.\<close>

section \<open>Leaf selection and node placement\<close>

text \<open>
  C1. \<open>select_leaf_cells\<close> returns a leaf set for any nodes: valid keys no deeper than the limit,
  none an ancestor of another, each with at most \<open>max_nodes\<close> nodes unless it is at the depth
  limit, and exactly one leaf for every node.
\<close>

theorem select_leaf_cells_correct:
  assumes "md \<le> MAX_DEPTH" and "int32_rows nodes" and "nodes \<noteq> []"
  shows "\<exists>ls. select_leaf_cells nodes mn md = Inr ls \<and>
    (\<forall>k\<in>set ls. valid_key k \<and> depth_of k \<le> md \<and> (length (nodes_in k nodes) \<le> mn \<or> depth_of k = md)) \<and>
    (\<forall>k\<in>set ls. \<forall>l\<in>set ls. prefix (path k) (path l) \<longrightarrow> k = l) \<and>
    (\<forall>(lat, lon)\<in>set nodes. \<exists>!k. k \<in> set ls \<and> prefix (path k) (square lat lon))"
proof -
  obtain ls where ls: "select_leaf_cells nodes mn md = Inr ls"
    and ok: "select_ok (map uint (point_to_qk_np nodes)) mn md ROOT ls"
    using select_leaf_cells_ok [OF assms] by blast
  have bl: "built_leaves nodes mn md = ls" using assms ls by (simp add: built_leaves_def)
  have one: "\<exists>!k. k \<in> set ls \<and> prefix (path k) (square lat lon)" if "(lat, lon) \<in> set nodes" for lat lon
    using covers_prefix [OF ok assms(2) that] built.leaf_unique [of _ nodes mn md, unfolded bl] by metis
  have "valid_key k \<and> depth_of k \<le> md \<and> (length (nodes_in k nodes) \<le> mn \<or> depth_of k = md)"
    if "k \<in> set ls" for k
  proof -
    have "valid_key k" "length (path k) \<le> md"
      "range_count (map uint (point_to_qk_np nodes)) (key_lo k) (key_hi k) \<le> mn \<or> length (path k) = md"
      using ok that by (auto simp: select_ok_def)
    then show ?thesis using range_count_nodes [OF _ assms(2)] by (simp add: depth_of_path)
  qed
  moreover have "\<forall>k\<in>set ls. \<forall>l\<in>set ls. prefix (path k) (path l) \<longrightarrow> k = l"
    using ok by (simp add: select_ok_def)
  ultimately show ?thesis using ls one by blast
qed

theorem select_leaf_cells_correct_witness:
  "\<exists>ls. select_leaf_cells [(515000000, - 1000000), (- 337000000, 1512000000)] 1 13 = Inr ls \<and>
    (\<forall>k\<in>set ls. valid_key k \<and> depth_of k \<le> 13 \<and>
       (length (nodes_in k [(515000000, - 1000000), (- 337000000, 1512000000)]) \<le> 1 \<or> depth_of k = 13)) \<and>
    (\<forall>k\<in>set ls. \<forall>l\<in>set ls. prefix (path k) (path l) \<longrightarrow> k = l) \<and>
    (\<forall>(lat, lon)\<in>set [(515000000, - 1000000), (- 337000000, 1512000000)].
       \<exists>!k. k \<in> set ls \<and> prefix (path k) (square lat lon))"
  by (rule select_leaf_cells_correct) (simp_all add: MAX_DEPTH_def int32_rows_def int32_def)

text \<open>
  C2. With the leaves a build chose, \<open>point_cells_np\<close> places every node of the build in a leaf,
  the one the scalar \<open>point_cell\<close> finds, and the box of that leaf contains the node.
\<close>

theorem nodes_placed_in_leaves:
  assumes "md \<le> MAX_DEPTH" and "int32_rows nodes" and "nodes \<noteq> []"
    and ls: "select_leaf_cells nodes mn md = Inr ls"
  shows "\<exists>cells. point_cells_np nodes (LeafSet ls) = Inr cells \<and> length cells = length nodes \<and>
    (\<forall>i<length nodes. case nodes ! i of (lat, lon) \<Rightarrow>
       cells ! i \<in> set ls \<and> cells ! i = point_cell (e7_deg lat) (e7_deg lon) (LeafSet ls) \<and>
       (in_world lat lon \<longrightarrow> (\<exists>bb. cell_bbox (cells ! i) = Inr bb \<and> point_in bb lat lon)))"
proof -
  obtain ls' where "select_leaf_cells nodes mn md = Inr ls'"
    and "select_ok (map uint (point_to_qk_np nodes)) mn md ROOT ls'"
    using select_leaf_cells_ok [OF assms(1-3)] by blast
  then have ok: "select_ok (map uint (point_to_qk_np nodes)) mn md ROOT ls" using ls by simp
  have bl: "built_leaves nodes mn md = ls" using assms by (simp add: built_leaves_def)
  have cov: "\<exists>k\<in>set ls. prefix (path k) (square lat lon)" if "(lat, lon) \<in> set nodes" for lat lon
    using covers_prefix [OF ok assms(2) that] by blast
  note all = built.point_cells_np_all [OF assms(2), of nodes mn md, unfolded bl, OF cov]
  have one: "point_cell (e7_deg lat) (e7_deg lon) (LeafSet ls) \<in> set ls \<and>
      (in_world lat lon \<longrightarrow> (\<exists>bb. cell_bbox (point_cell (e7_deg lat) (e7_deg lon) (LeafSet ls)) = Inr bb
         \<and> point_in bb lat lon))" if p: "(lat, lon) \<in> set nodes" for lat lon
  proof -
    obtain k where k: "k \<in> set ls" "prefix (path k) (square lat lon)" using cov [OF p] by blast
    have i: "int32 lat" "int32 lon" using int32_rowsD [OF assms(2) p] by auto
    have "point_cell (e7_deg lat) (e7_deg lon) (LeafSet ls) = k"
      using built.point_cell_leaf [OF i, of k nodes mn md, unfolded bl, OF k] .
    moreover have "valid_key k" using built.valid [of k nodes mn md] k(1) bl by simp
    ultimately show ?thesis using point_in_cell [OF _ k(2)] k(1) by metis
  qed
  show ?thesis
    using all one nth_mem [of _ nodes] by (auto split: prod.splits; fastforce)
qed

theorem nodes_placed_in_leaves_witness:
  "\<exists>cells. point_cells_np [(10, 20)] (LeafSet [''root'']) = Inr cells \<and> length cells = 1 \<and>
     cells ! 0 \<in> set [''root''] \<and> cells ! 0 = point_cell (e7_deg 10) (e7_deg 20) (LeafSet [''root'']) \<and>
     (\<exists>bb. cell_bbox (cells ! 0) = Inr bb \<and> point_in bb 10 20)"
proof -
  have "range_count [b4 (square 10 20)] (key_lo ROOT) (key_hi ROOT) = 1"
    using code_bounds [of 10 20] by (simp add: root_range range_count_eq)
  then have "select_leaf_cells [(10, 20)] 5 13 = Inr [''root'']"
    by (simp add: select_leaf_cells_def select_recurse.simps qk_range_valid Let_def point_to_qk_np_def
        uint_qk_np1 int32_def flip: ROOT_def)
  from nodes_placed_in_leaves [OF _ _ _ this] show ?thesis
    by (auto simp: MAX_DEPTH_def int32_rows_def int32_def in_world_def)
qed

section \<open>Placement of boxes\<close>

text \<open>
  C3. When depth 0 is among the allowed ancestor depths, \<open>containing_cells_v2_np\<close> puts a box whose
  south-west corner is not before the first leaf in the order of the quadkeys in a cell that is a leaf or has an allowed ancestor depth, and that contains every point of
  the box.
\<close>

theorem containing_cells_v2_sound:
  assumes "leaf_set L" and "int32 y0" "int32 x0" "int32 y1" "int32 x1"
    and "l \<in> set L" "key_lo l \<le> b4 (square y0 x0)" and "0 \<in> set ads" and "md \<le> MAX_DEPTH"
  shows "\<exists>c. containing_cells_v2_np [(y0, x0, y1, x1)] (LeafSet L) ads md = Inr [c] \<and>
    (c \<in> set L \<or> depth_of c \<in> set ads) \<and>
    (\<forall>lat lon. y0 \<le> lat \<and> lat \<le> y1 \<and> x0 \<le> lon \<and> lon \<le> x1 \<longrightarrow> prefix (path c) (square lat lon))"
proof -
  obtain ix where ix: "LeafIndex L = Inr ix" by (rule leaf_set.LeafIndex_ok [OF assms(1)])
  obtain c where "containing_cells_v2_row ix ads md (y0, x0, y1, x1) = Inr c"
    "valid_key c" "c \<in> set L \<or> depth_of c \<in> set ads"
    "\<forall>lat lon. y0 \<le> lat \<and> lat \<le> y1 \<and> x0 \<le> lon \<and> lon \<le> x1 \<longrightarrow> prefix (path c) (square lat lon)"
    by (rule leaf_set.v2_row_sound [OF assms(1) ix assms(2-9)])
  then show ?thesis using assms(9) ix by (auto simp: containing_cells_v2_np_def)
qed

lemma leaf_set_root: "leaf_set [''root'']"
  by unfold_locales (auto simp flip: ROOT_def)

theorem containing_cells_v2_sound_witness:
  "\<exists>c. containing_cells_v2_np [(0, 0, 5, 5)] (LeafSet [''root'']) [0, 3] 13 = Inr [c] \<and>
    (c \<in> set [''root''] \<or> depth_of c \<in> set [0, 3]) \<and>
    (\<forall>lat lon. 0 \<le> lat \<and> lat \<le> 5 \<and> 0 \<le> lon \<and> lon \<le> 5 \<longrightarrow> prefix (path c) (square lat lon))"
  by (rule containing_cells_v2_sound [OF leaf_set_root, where l = "''root''"])
     (use code_bounds [of 0 0] in \<open>simp_all add: int32_def MAX_DEPTH_def root_range flip: ROOT_def\<close>)

text \<open>
  Before the first leaf the guard \<open>contains_qk\<close> passes although no leaf contains the corner:
  a small box far from the only leaf \<open>31\<close> is placed in cell \<open>00\<close>, neither a leaf nor at an allowed
  depth, although the function is meant never to return an unrounded intermediate depth.
\<close>

lemma containing_cells_v2_unrounded:
  "containing_cells_v2_np [(800000000, - 1700000000, 801000000, - 1699000000)] (LeafSet [''31''])
     DEFAULT_ANCESTOR_DEPTHS DEFAULT_MAX_DEPTH_V2 = Inr [''00''] \<and>
   ''00'' \<notin> set [''31''] \<and> depth_of ''00'' \<notin> set DEFAULT_ANCESTOR_DEPTHS"
proof -
  have s: "square 800000000 (- 1700000000) = ''00002331002331002331''"
    and t: "square 801000000 (- 1699000000) = ''00002331001213101232''" by code_simp+
  have c: "code_of ''00002331002331002331'' = 3171668157" by (simp add: code_of_def b4_def dig_def)
  have l: "lcp_str ''00002331002331002331'' ''00002331001213101232'' 13 = 10" by (simp add: lcp_str_def)
  have ix: "LeafIndex [''31''] = Inr \<lparr>li_leaves = [''31''], li_los = [893353197568],
      li_his = [962072674303], li_keys_by_lo = [''31'']\<rparr>" by code_simp
  have ads: "sorted_set [0, 3, 6, 9, 12 :: nat] = [0, 3, 6, 9, 12]"
    by (simp add: sorted_set_def)
  show ?thesis
    by (simp add: containing_cells_v2_np_def ix v2_row_strings int32_def MAX_DEPTH_def DEFAULT_MAX_DEPTH_V2_def
        s t c l ads Let_def leaf_index_for_qk_def searchsorted_right_def np_clip_def contains_qk_def py_nth_def
        depth_of_def ROOT_def DEFAULT_ANCESTOR_DEPTHS_def)
qed

section \<open>Query planning\<close>

text \<open>
  C5. The planner reads every cell that may hold an answer. A way or relation whose box contains a
  point of the query box is placed by \<open>containing_cells_v2_np\<close> in a cell which, if it has a file
  (in the base or in a delta tier), is among the cells of \<open>cells_for_bbox\<close>, provided a leaf
  covers the point and the south-west corner of the box does not come before the first leaf in the
  order of the quadkeys. C6 says what happens where no leaf covers the point.
\<close>

theorem planner_finds_placed_cell:
  assumes "leaf_cells m = Inr L" and "leaf_set L" and "manifest_version m = Inr v" "2 \<le> v"
    and "ancestor_depths m = Inr (map int ads)" "0 \<in> set ads" and "md \<le> MAX_DEPTH"
    and "int32 y0" "int32 x0" "int32 y1" "int32 x1"
    and "l \<in> set L" "key_lo l \<le> b4 (square y0 x0)"
    and "containing_cells_v2_np [(y0, x0, y1, x1)] (LeafSet L) ads md = Inr [c]"
    and "y0 \<le> lat" "lat \<le> y1" "x0 \<le> lon" "lon \<le> x1" and "in_world lat lon" and "point_in bb lat lon"
    and "k \<in> set L" "prefix (path k) (square lat lon)"
    and "rbind (table_cells m table) jkeys = Inr base" and "delta_present_cells m table = Inr dp"
    and "\<forall>p \<in> set base \<union> set dp. valid_key p" and "c \<in> set base \<union> set dp"
  shows "\<exists>cells. cat_cells_for_bbox m table (Some bb) = Inr cells \<and> c \<in> set cells"
proof -
  obtain ix where ix: "LeafIndex L = Inr ix" by (rule leaf_set.LeafIndex_ok [OF assms(2)])
  have row: "containing_cells_v2_row ix ads md (y0, x0, y1, x1) = Inr c"
    using assms(7,14) ix by (simp add: containing_cells_v2_np_def rbind_eq_Inr)
  have val: "valid_key k" if "k \<in> set L" for k using leaf_set.valid [OF assms(2) that] .
  note up = leaf_set.v2_cell_above_leaf [OF assms(2) ix assms(8-11) assms(21,22) assms(12,13) assms(6,7)
      assms(15-18) row]
  show ?thesis
    by (rule plan_covers_cell [OF assms(1) val assms(3,5) assms(21,22) assms(19,20) up(1,2) _ assms(23,24)])
       (use up(3) assms(4,25,26) in auto)
qed

definition demo_catalog :: "string list \<Rightarrow> catalog" where
  "demo_catalog ls = \<lparr>cm_root = ''/data'', cm_data = JObj
     [(''manifest_version'', JInt 2), (''leaf_cells'', JList (map JStr ls)), (''ancestor_depths'', JList [JInt 0]),
      (''tables'', JObj [(''way'', JObj [(''cells'', JObj [(''root'', JObj [(''path'', JStr ''w/root.parquet'')])])])])]\<rparr>"

lemma demo_catalog_simps:
  "leaf_cells (demo_catalog ls) = Inr ls" "manifest_version (demo_catalog ls) = Inr 2"
  "ancestor_depths (demo_catalog ls) = Inr (map int [0])"
  "rbind (table_cells (demo_catalog ls) ''way'') jkeys = Inr [''root'']"
  "delta_present_cells (demo_catalog ls) ''way'' = Inr []"
  using jints_ints [of "[0]"]
  by (simp_all add: demo_catalog_def leaf_cells_def manifest_version_def ancestor_depths_def table_cells_def
      jkeys_def delta_present_cells_def delta_tiers_def)

theorem planner_finds_placed_cell_witness:
  "\<exists>cells. cat_cells_for_bbox (demo_catalog [''root'']) ''way'' (Some (0, 0, 1, 1)) = Inr cells \<and> ''root'' \<in> set cells"
proof (rule planner_finds_placed_cell [OF demo_catalog_simps(1) leaf_set_root demo_catalog_simps(2) _
      demo_catalog_simps(3), where md = 13 and ?y0.0 = 0 and ?x0.0 = 0 and ?y1.0 = 5 and ?x1.0 = 5
        and lat = 0 and lon = 0 and l = "''root''" and k = "''root''" and base = "[''root'']" and dp = "[]"])
  have "LeafIndex [''root''] = Inr \<lparr>li_leaves = [''root''], li_los = [0], li_his = [1099511627775],
      li_keys_by_lo = [''root'']\<rparr>" by code_simp
  then show "containing_cells_v2_np [(0, 0, 5, 5)] (LeafSet [''root'']) [0] 13 = Inr [''root'']"
    using code_bounds [of 0 0]
    by (simp add: containing_cells_v2_np_def v2_row_strings int32_def MAX_DEPTH_def sorted_set_def Let_def
        leaf_index_for_qk_def searchsorted_right_def np_clip_def contains_qk_def py_nth_def depth_of_def ROOT_def)
  show "point_in (0, 0, 1, 1) 0 0" by (simp add: point_in_def e7_deg_def) code_simp
qed (use code_bounds [of 0 0] in \<open>simp_all add: int32_def MAX_DEPTH_def in_world_def root_range demo_catalog_simps
      flip: ROOT_def\<close>)

text \<open>
  C6. Where the leaves do not tile the world (an extract), a query box that meets the box of no leaf
  reads no cell of the base, not even \<open>root\<close>, which may hold a way crossing the box: what
  \<open>cells_for_bbox\<close> of the catalog returns are exactly the cells which have a file in a delta tier
  and none in the base and whose box meets the query box. \<open>cells_for_bbox\<close> of \<open>layout.cells\<close> selects
  \<open>root\<close> for the same box and leaves.
\<close>

theorem planner_gap_drops_root:
  assumes "leaf_cells m = Inr L" and "\<forall>k \<in> set L. valid_key k"
    and "\<forall>k \<in> set L. \<forall>cb. cell_bbox k = Inr cb \<longrightarrow> \<not> bbox_intersects bb cb"
    and "manifest_version m = Inr v" and "ancestor_depths m = Inr ads"
    and "rbind (table_cells m table) jkeys = Inr base" and "delta_present_cells m table = Inr dp"
    and "\<forall>c \<in> set dp. valid_key c"
  shows "(\<exists>cells. cat_cells_for_bbox m table (Some bb) = Inr cells \<and>
      set cells = {c \<in> set dp. c \<notin> set base \<and> (\<exists>cb. cell_bbox c = Inr cb \<and> bbox_intersects bb cb)}) \<and>
    cells_for_bbox bb (LeafSet L) = Some (Inr [''root''])"
proof
  show "\<exists>cells. cat_cells_for_bbox m table (Some bb) = Inr cells \<and>
      set cells = {c \<in> set dp. c \<notin> set base \<and> (\<exists>cb. cell_bbox c = Inr cb \<and> bbox_intersects bb cb)}"
    by (rule plan_outside_leaves [OF assms(1) _ _ assms(4-7)]) (use assms(2,3,8) in blast)+
  show "cells_for_bbox bb (LeafSet L) = Some (Inr [''root''])"
    using cells_for_bbox_outside_leaves [of L bb] assms(2,3) by (simp add: ROOT_def)
qed

theorem planner_gap_drops_root_witness:
  "(\<exists>cells. cat_cells_for_bbox (demo_catalog [''31'']) ''way'' (Some (10, 10, 11, 11)) = Inr cells \<and>
      set cells = {c \<in> set []. c \<notin> set [''root''] \<and>
        (\<exists>cb. cell_bbox c = Inr cb \<and> bbox_intersects (10, 10, 11, 11) cb)}) \<and>
    cells_for_bbox (10, 10, 11, 11) (LeafSet [''31'']) = Some (Inr [''root''])"
proof (rule planner_gap_drops_root [OF demo_catalog_simps(1) _ _ demo_catalog_simps(2-5)])
  have "cell_bbox ''31'' = Inr (- 45, 90, 0, 180)" by code_simp
  then show "\<forall>k \<in> set [''31'']. \<forall>cb. cell_bbox k = Inr cb \<longrightarrow> \<not> bbox_intersects (10, 10, 11, 11) cb" by simp
  show "\<forall>k \<in> set [''31'']. valid_key k" by (simp add: valid_key_def MAX_DEPTH_def)
qed simp

text \<open>
  C8. Row-group pruning is sound and effective: a file is dropped exactly when the index has row
  groups for it and the box of none of them meets the query box.
\<close>

theorem prune_files_by_bbox_exact:
  "set (prune_files_by_bbox (Some (rowgroup_by_path m rows [])) files (xmin, ymin, xmax, ymax)) =
   {f \<in> set files.
      (\<forall>relp x0 y0 x1 y1. (Some relp, Some x0, Some y0, Some x1, Some y1) \<in> set rows \<longrightarrow> mpath m relp \<noteq> f) \<or>
      (\<exists>relp x0 y0 x1 y1. (Some relp, Some x0, Some y0, Some x1, Some y1) \<in> set rows \<and> mpath m relp = f \<and>
         x0 \<le> xmax \<and> y0 \<le> ymax \<and> xmin \<le> x1 \<and> ymin \<le> y1)}"
proof -
  let ?ix = "rowgroup_by_path m rows []"
  let ?B = "\<lambda>f. {(x0, y0, x1, y1) |x0 y0 x1 y1 relp.
      (Some relp, Some x0, Some y0, Some x1, Some y1) \<in> set rows \<and> mpath m relp = f}"
  let ?R = "\<lambda>f. (\<forall>relp x0 y0 x1 y1. (Some relp, Some x0, Some y0, Some x1, Some y1) \<in> set rows \<longrightarrow> mpath m relp \<noteq> f) \<or>
      (\<exists>relp x0 y0 x1 y1. (Some relp, Some x0, Some y0, Some x1, Some y1) \<in> set rows \<and> mpath m relp = f \<and>
         x0 \<le> xmax \<and> y0 \<le> ymax \<and> xmin \<le> x1 \<and> ymin \<le> y1)"
  have B: "(case map_of ?ix f of Some bs \<Rightarrow> set bs | None \<Rightarrow> {}) = ?B f" for f
    using rowgroup_by_path_lookup [of m rows "[]" f] by simp
  have "(case map_of ?ix f of None \<Rightarrow> True | Some [] \<Rightarrow> True
      | Some boxes \<Rightarrow> \<exists>b\<in>set boxes. rg_overlaps (xmin, ymin, xmax, ymax) b) \<longleftrightarrow>
      ?B f = {} \<or> (\<exists>b\<in>?B f. rg_overlaps (xmin, ymin, xmax, ymax) b)" for f
    unfolding B [symmetric] by (auto split: option.splits list.splits)
  moreover have "?B f = {} \<or> (\<exists>b\<in>?B f. rg_overlaps (xmin, ymin, xmax, ymax) b) \<longleftrightarrow> ?R f" for f
  proof -
    have "?B f = {} \<longleftrightarrow> (\<forall>relp x0 y0 x1 y1.
        (Some relp, Some x0, Some y0, Some x1, Some y1) \<in> set rows \<longrightarrow> mpath m relp \<noteq> f)" by blast
    moreover have "(\<exists>b\<in>?B f. rg_overlaps (xmin, ymin, xmax, ymax) b) \<longleftrightarrow> (\<exists>relp x0 y0 x1 y1.
        (Some relp, Some x0, Some y0, Some x1, Some y1) \<in> set rows \<and> mpath m relp = f \<and>
         x0 \<le> xmax \<and> y0 \<le> ymax \<and> xmin \<le> x1 \<and> ymin \<le> y1)"
      unfolding Bex_def split_paired_Ex mem_Collect_eq prod.inject rg_overlaps.simps by blast
    ultimately show ?thesis by (simp only:)
  qed
  ultimately show ?thesis
    by (cases "files = []") (simp_all only: prune_files_by_bbox_def option.case set_filter if_True if_False, simp)
qed

theorem prune_files_by_bbox_exact_witness:
  "set (prune_files_by_bbox (Some (rowgroup_by_path \<lparr>cm_root = ''/d'', cm_data = JNull\<rparr>
      [(Some ''f'', Some 5, Some 5, Some 6, Some 6)] [])) [''/d/f'', ''/d/h''] (0, 0, 1, 1)) = {''/d/h''}"
proof -
  let ?m = "\<lparr>cm_root = ''/d'', cm_data = JNull\<rparr>"
  have m: "mpath ?m ''f'' = ''/d/f''" by code_simp
  have set: "set [(Some ''f'', Some 5, Some 5, Some 6, Some (6 :: int))] = {(Some ''f'', Some 5, Some 5, Some 6, Some 6)}" by simp
  show ?thesis
    unfolding prune_files_by_bbox_exact set singleton_iff prod.inject option.inject by (auto simp: m)
qed

end
