(* ===== verification/PyText.thy ===== *)
theory PyText
  imports PyFloat
begin

text \<open>
  Python's \<open>str\<close> and \<open>float\<close> where the query language needs them: character classes,
  \<open>strip\<close> and \<open>split\<close>, \<open>float(text)\<close> and \<open>int(x)\<close>. ASCII is concrete; the classes of other
  characters come from the Unicode character database of the interpreter, a parameter of type
  \<open>unicode_db\<close> (for code points below 128 the record is not consulted). Floats are finite
  rationals (doubles), infinities or nan; the sign of zero is not represented.
\<close>

datatype pyfloat = Fin rat | PInf | NInf | NaN

record unicode_db =
  u_digit :: "nat \<Rightarrow> bool"
  u_alpha :: "nat \<Rightarrow> bool"
  u_alnum :: "nat \<Rightarrow> bool"
  u_space :: "nat \<Rightarrow> bool"
  u_decimal :: "nat \<Rightarrow> nat option"
  u_printable :: "nat \<Rightarrow> bool"

definition ascii_db :: unicode_db where
  "ascii_db = \<lparr>u_digit = (\<lambda>_. False), u_alpha = (\<lambda>_. False), u_alnum = (\<lambda>_. False),
     u_space = (\<lambda>_. False), u_decimal = (\<lambda>_. None), u_printable = (\<lambda>_. False)\<rparr>"

definition ascii_digit :: "nat \<Rightarrow> bool" where "ascii_digit c \<longleftrightarrow> 48 \<le> c \<and> c \<le> 57"

definition ascii_alpha :: "nat \<Rightarrow> bool" where
  "ascii_alpha c \<longleftrightarrow> 65 \<le> c \<and> c \<le> 90 \<or> 97 \<le> c \<and> c \<le> 122"

definition isdigit :: "unicode_db \<Rightarrow> nat \<Rightarrow> bool" where
  "isdigit u c = (if c < 128 then ascii_digit c else u_digit u c)"

definition isalpha :: "unicode_db \<Rightarrow> nat \<Rightarrow> bool" where
  "isalpha u c = (if c < 128 then ascii_alpha c else u_alpha u c)"

definition isalnum :: "unicode_db \<Rightarrow> nat \<Rightarrow> bool" where
  "isalnum u c = (if c < 128 then ascii_digit c \<or> ascii_alpha c else u_alnum u c)"

definition isspace :: "unicode_db \<Rightarrow> nat \<Rightarrow> bool" where
  "isspace u c = (if c < 128 then 9 \<le> c \<and> c \<le> 13 \<or> 28 \<le> c \<and> c \<le> 32 else u_space u c)"

definition decimal :: "unicode_db \<Rightarrow> nat \<Rightarrow> nat option" where
  "decimal u c = (if c < 128 then (if ascii_digit c then Some (c - 48) else None) else u_decimal u c)"

definition py_strip :: "unicode_db \<Rightarrow> pystr \<Rightarrow> pystr" where
  "py_strip u s = rev (dropWhile (isspace u) (rev (dropWhile (isspace u) s)))"

fun py_split :: "unicode_db \<Rightarrow> pystr \<Rightarrow> pystr \<Rightarrow> pystr list" where
  "py_split u [] acc = (if acc = [] then [] else [rev acc])"
| "py_split u (c # cs) acc =
     (if isspace u c then (if acc = [] then py_split u cs [] else rev acc # py_split u cs [])
      else py_split u cs (c # acc))"

text \<open>\<open>repr(c)\<close> of a one-character string other than a quote.\<close>

definition hex_char :: "nat \<Rightarrow> nat" where
  "hex_char d = (if d < 10 then 48 + d else 87 + d)"

primrec hex_pad :: "nat \<Rightarrow> nat \<Rightarrow> pystr" where
  "hex_pad 0 c = []"
| "hex_pad (Suc w) c = hex_pad w (c div 16) @ [hex_char (c mod 16)]"

definition repr_char :: "unicode_db \<Rightarrow> nat \<Rightarrow> pystr" where
  "repr_char u c = [39] @
     (if c = 92 then [92, 92] else if c = 9 then [92, 116] else if c = 10 then [92, 110] else if c = 13 then [92, 114]
      else if c < 32 \<or> c = 127 then [92, 120] @ hex_pad 2 c
      else if c < 127 \<or> u_printable u c then [c]
      else if c < 256 then [92, 120] @ hex_pad 2 c
      else if c < 65536 then [92, 117] @ hex_pad 4 c
      else [92, 85] @ hex_pad 8 c) @ [39]"

section \<open>\<open>float(text)\<close>\<close>

text \<open>The double nearest to a rational; beyond the largest double it is an infinity.\<close>

definition to_float :: "rat \<Rightarrow> pyfloat" where
  "to_float r = (let d = fl r in if 2 ^ 1024 \<le> d then PInf else if d \<le> - (2 ^ 1024) then NInf else Fin d)"

text \<open>
  Decimal digits become ASCII digits and other whitespace a space before the text is read
  (\<open>_PyUnicode_TransformDecimalAndSpaceToASCII\<close>); another character above 127 is not a number.
\<close>

definition to_ascii :: "unicode_db \<Rightarrow> nat \<Rightarrow> nat" where
  "to_ascii u c = (if c < 128 then c else if u_space u c then 32 else case u_decimal u c of Some d \<Rightarrow> 48 + d | None \<Rightarrow> 63)"

text \<open>An underscore is allowed only between two digits.\<close>

fun drop_underscores :: "bool \<Rightarrow> pystr \<Rightarrow> pystr option" where
  "drop_underscores prev [] = Some []"
| "drop_underscores prev (c # cs) =
     (if c = 95 then
        (case cs of
           d # _ \<Rightarrow> if prev \<and> ascii_digit d then drop_underscores False cs else None
         | [] \<Rightarrow> None)
      else map_option ((#) c) (drop_underscores (ascii_digit c) cs))"

definition lower :: "nat \<Rightarrow> nat" where
  "lower c = (if 65 \<le> c \<and> c \<le> 90 then c + 32 else c)"

definition digits_value :: "pystr \<Rightarrow> nat" where
  "digits_value ds = foldl (\<lambda>v d. v * 10 + (d - 48)) 0 ds"

definition exponent_of :: "pystr \<Rightarrow> int option" where
  "exponent_of s =
     (case s of
        [] \<Rightarrow> Some 0
      | e # rest \<Rightarrow>
          if lower e \<noteq> 101 then None
          else
            let (neg, ds) = (case rest of c # cs \<Rightarrow> if c = 45 then (True, cs) else if c = 43 then (False, cs) else (False, rest)
                             | [] \<Rightarrow> (False, []))
            in if ds = [] \<or> \<not> list_all ascii_digit ds then None
               else Some (if neg then - int (digits_value ds) else int (digits_value ds)))"

definition unsigned_float :: "pystr \<Rightarrow> pyfloat option" where
  "unsigned_float s =
     (let w = map lower s
      in if w = lit ''inf'' \<or> w = lit ''infinity'' then Some PInf
         else if w = lit ''nan'' then Some NaN
         else
           let ip = takeWhile ascii_digit s; r1 = dropWhile ascii_digit s;
               (fp, r2) = (case r1 of c # cs \<Rightarrow> if c = 46 then (takeWhile ascii_digit cs, dropWhile ascii_digit cs) else ([], r1)
                           | [] \<Rightarrow> ([], []))
           in if ip = [] \<and> fp = [] then None
              else map_option (\<lambda>e. to_float (of_nat (digits_value (ip @ fp)) * 10 powi (e - int (length fp)))) (exponent_of r2))"

definition neg_float :: "pyfloat \<Rightarrow> pyfloat" where
  "neg_float x = (case x of Fin r \<Rightarrow> Fin (- r) | PInf \<Rightarrow> NInf | NInf \<Rightarrow> PInf | NaN \<Rightarrow> NaN)"

definition float_of_text :: "unicode_db \<Rightarrow> pystr \<Rightarrow> pyfloat result" where
  "float_of_text u text =
     (case drop_underscores False (py_strip u (map (to_ascii u) text)) of
        None \<Rightarrow> Inl ValueError
      | Some s \<Rightarrow>
          (let (neg, body) = (case s of c # cs \<Rightarrow> if c = 45 then (True, cs) else if c = 43 then (False, cs) else (False, s)
                              | [] \<Rightarrow> (False, []))
           in case unsigned_float body of
                None \<Rightarrow> Inl ValueError
              | Some x \<Rightarrow> Inr (if neg then neg_float x else x)))"

definition int_of_float :: "pyfloat \<Rightarrow> int result" where
  "int_of_float x = (case x of Fin r \<Rightarrow> Inr (py_int r) | NaN \<Rightarrow> Inl ValueError | _ \<Rightarrow> Inl OverflowError)"

section \<open>Lemmas\<close>

lemma isdigit_ascii [simp]: "ascii_digit c \<Longrightarrow> isdigit u c"
  by (simp add: isdigit_def ascii_digit_def)

lemma int_of_float_errors: "int_of_float x = Inl e \<Longrightarrow> e = ValueError \<or> e = OverflowError"
  by (auto simp: int_of_float_def split: pyfloat.splits)

lemma float_of_text_errors: "float_of_text u s = Inl e \<Longrightarrow> e = ValueError"
  by (auto simp: float_of_text_def Let_def split: option.splits prod.splits)

end
