(* ===== verification/Lexer.thy ===== *)
theory Lexer
  imports PyText
begin

text \<open>
  \<^verbatim>\<open>src/src/osmpq/ql/lexer.py\<close>: the tokenizer of the query language. Positions are offsets into
  the text, as in the code.
\<close>

datatype token_type =
    STRING | NUMBER | IDENT
  | LBRACKET | RBRACKET | LPAREN | RPAREN | LBRACE | RBRACE
  | SEMI | COMMA | COLON | DOT
  | EQ | NEQ | TILDE | NOTTILDE | BANG
  | LT | LTLT | GT | GTGT
  | ARROW | MINUS | EOF

text \<open>The constants of the token types, which error messages print.\<close>

fun type_text :: "token_type \<Rightarrow> string" where
  "type_text STRING = ''STRING''"
| "type_text NUMBER = ''NUMBER''"
| "type_text IDENT = ''IDENT''"
| "type_text LBRACKET = ''[''"
| "type_text RBRACKET = '']''"
| "type_text LPAREN = ''(''"
| "type_text RPAREN = '')''"
| "type_text LBRACE = ''{''"
| "type_text RBRACE = ''}''"
| "type_text SEMI = '';''"
| "type_text COMMA = '',''"
| "type_text COLON = '':''"
| "type_text DOT = ''.''"
| "type_text EQ = ''=''"
| "type_text NEQ = ''!=''"
| "type_text TILDE = ''~''"
| "type_text NOTTILDE = ''!~''"
| "type_text BANG = ''!''"
| "type_text LT = ''<''"
| "type_text LTLT = ''<<''"
| "type_text GT = ''>''"
| "type_text GTGT = ''>>''"
| "type_text ARROW = ''->''"
| "type_text MINUS = ''-''"
| "type_text EOF = ''EOF''"

datatype tok_value = VNone | VStr pystr | VNum pyfloat

record token =
  t_type :: token_type
  t_text :: pystr
  t_value :: tok_value
  t_start :: nat
  t_end :: nat
  t_line :: nat
  t_col :: nat

definition single_char_map :: "(nat \<times> token_type) list" where
  "single_char_map =
     [(91, LBRACKET), (93, RBRACKET), (40, LPAREN), (41, RPAREN), (123, LBRACE), (125, RBRACE),
      (59, SEMI), (44, COMMA), (58, COLON), (46, DOT), (61, EQ), (126, TILDE), (33, BANG),
      (60, LT), (62, GT), (45, MINUS)]"

definition escapes :: "(nat \<times> nat) list" where
  "escapes = [(110, 10), (116, 9), (114, 13), (92, 92), (34, 34), (39, 39), (47, 47)]"

definition slice :: "pystr \<Rightarrow> nat \<Rightarrow> nat \<Rightarrow> pystr" where
  "slice text a b = take (b - a) (drop a text)"

text \<open>\<open>text.rfind("\n", 0, offset)\<close> is -1 if there is no newline, so the column is then \<open>offset + 1\<close>.\<close>

definition line_col :: "pystr \<Rightarrow> nat \<Rightarrow> nat \<times> nat" where
  "line_col text offset =
     (let upto = take offset text
      in (count_list upto 10 + 1,
          offset + 1 - (length upto - length (takeWhile (\<lambda>c. c \<noteq> 10) (rev upto)))))"

definition parse_error_at :: "pystr \<Rightarrow> nat \<Rightarrow> pystr \<Rightarrow> py_error" where
  "parse_error_at text offset msg =
     (let (line, col) = line_col text offset
      in ParseError (lit ''line '' @ py_str_nat line @ lit '': parse error: '' @ msg) (Some line) (Some col))"

section \<open>Strings\<close>

definition hex_value :: "nat \<Rightarrow> nat option" where
  "hex_value c = (if 48 \<le> c \<and> c \<le> 57 then Some (c - 48)
     else if 97 \<le> c \<and> c \<le> 102 then Some (c - 87)
     else if 65 \<le> c \<and> c \<le> 70 then Some (c - 55) else None)"

definition hex4 :: "pystr \<Rightarrow> nat option" where
  "hex4 ds = (if length ds \<noteq> 4 \<or> \<not> list_all (\<lambda>c. hex_value c \<noteq> None) ds then None
     else Some (foldl (\<lambda>v c. v * 16 + the (hex_value c)) 0 ds))"

function read_string_loop :: "pystr \<Rightarrow> nat \<Rightarrow> nat \<Rightarrow> nat \<Rightarrow> pystr \<Rightarrow> (pystr \<times> nat) result" where
  "read_string_loop text i quote j out =
     (if length text \<le> j then Inl (parse_error_at text i (lit ''unterminated string literal''))
      else let c = text ! j in
        if c = quote then Inr (out, j + 1)
        else if c = 92 then
          (if length text \<le> j + 1 then Inl (parse_error_at text j (lit ''unterminated escape sequence''))
           else let esc = text ! (j + 1) in
             if esc = 117 then
               (case hex4 (slice text (j + 2) (j + 6)) of
                  None \<Rightarrow> Inl (parse_error_at text j (lit ''invalid '' @ [92] @ lit ''u escape in string literal''))
                | Some v \<Rightarrow> read_string_loop text i quote (j + 6) (out @ [v]))
             else (case map_of escapes esc of
                     Some v \<Rightarrow> read_string_loop text i quote (j + 2) (out @ [v])
                   | None \<Rightarrow> read_string_loop text i quote (j + 2) (out @ [esc])))
        else if c = 10 then Inl (parse_error_at text j (lit ''newline in string literal''))
        else read_string_loop text i quote (j + 1) (out @ [c]))"
  by pat_completeness auto
termination
  by (relation "measure (\<lambda>(text, i, quote, j, out). length text - j)") auto

declare read_string_loop.simps [simp del]

definition read_string :: "pystr \<Rightarrow> nat \<Rightarrow> (pystr \<times> nat) result" where
  "read_string text i = read_string_loop text i (text ! i) (i + 1) []"

section \<open>Scanning\<close>

text \<open>\<open>text.find("\n", i)\<close>, \<open>text.find("*/", i)\<close> and the \<open>while\<close> loops that advance \<open>j\<close>.\<close>

function find_newline :: "pystr \<Rightarrow> nat \<Rightarrow> nat option" where
  "find_newline text i = (if length text \<le> i then None else if text ! i = 10 then Some i else find_newline text (i + 1))"
  by pat_completeness auto
termination by (relation "measure (\<lambda>(text, i). length text - i)") auto

function find_close :: "pystr \<Rightarrow> nat \<Rightarrow> nat option" where
  "find_close text i = (if length text \<le> i + 1 then None
     else if text ! i = 42 \<and> text ! (i + 1) = 47 then Some i else find_close text (i + 1))"
  by pat_completeness auto
termination by (relation "measure (\<lambda>(text, i). length text - i)") auto

function scan_while :: "(nat \<Rightarrow> bool) \<Rightarrow> pystr \<Rightarrow> nat \<Rightarrow> nat" where
  "scan_while P text j = (if j < length text \<and> P (text ! j) then scan_while P text (j + 1) else j)"
  by pat_completeness auto
termination by (relation "measure (\<lambda>(P, text, j). length text - j)") auto

declare find_newline.simps [simp del] find_close.simps [simp del] scan_while.simps [simp del]

definition number_end :: "unicode_db \<Rightarrow> pystr \<Rightarrow> nat \<Rightarrow> nat" where
  "number_end u text i =
     (let j = scan_while (isdigit u) text (i + 1)
      in if j < length text \<and> text ! j = 46 \<and> j + 1 < length text \<and> isdigit u (text ! (j + 1))
         then scan_while (isdigit u) text (j + 1) else j)"

definition two_char :: "nat \<Rightarrow> nat \<Rightarrow> token_type option" where
  "two_char c d =
     (if c = 45 \<and> d = 62 then Some ARROW
      else if c = 60 \<and> d = 60 then Some LTLT
      else if c = 62 \<and> d = 62 then Some GTGT
      else if c = 33 \<and> d = 61 then Some NEQ
      else if c = 33 \<and> d = 126 then Some NOTTILDE else None)"

text \<open>
  One pass of the main loop at \<open>i\<close>: it skips to a new position, or appends a token and moves to
  its end, or raises.
\<close>

datatype lex_step = Skip nat | Emit token

definition mk_token :: "pystr \<Rightarrow> nat \<Rightarrow> nat \<Rightarrow> token_type \<Rightarrow> tok_value \<Rightarrow> token" where
  "mk_token text start j ty v =
     (let (line, col) = line_col text start
      in \<lparr>t_type = ty, t_text = slice text start j, t_value = v, t_start = start, t_end = j,
          t_line = line, t_col = col\<rparr>)"

definition lex_one :: "unicode_db \<Rightarrow> pystr \<Rightarrow> nat \<Rightarrow> lex_step result" where
  "lex_one u text i =
     (let n = length text; c = text ! i; d = (if i + 1 < n then Some (text ! (i + 1)) else None)
      in if c = 32 \<or> c = 9 \<or> c = 13 \<or> c = 10 then Inr (Skip (i + 1))
         else if c = 47 \<and> d = Some 47 then
           Inr (Skip (case find_newline text i of None \<Rightarrow> n | Some j \<Rightarrow> j))
         else if c = 47 \<and> d = Some 42 then
           (case find_close text (i + 2) of
              None \<Rightarrow> Inl (parse_error_at text i (lit ''unterminated block comment''))
            | Some j \<Rightarrow> Inr (Skip (j + 2)))
         else if c = 34 \<or> c = 39 then
           rbind (read_string text i) (\<lambda>(value, j). Inr (Emit (mk_token text i j STRING (VStr value))))
         else case (case d of Some d' \<Rightarrow> two_char c d' | None \<Rightarrow> None) of
           Some ty \<Rightarrow> Inr (Emit (mk_token text i (i + 2) ty VNone))
         | None \<Rightarrow>
             (case map_of single_char_map c of
                Some ty \<Rightarrow> Inr (Emit (mk_token text i (i + 1) ty VNone))
              | None \<Rightarrow>
                  if isdigit u c then
                    (let j = number_end u text i
                     in rbind (float_of_text u (slice text i j)) (\<lambda>v.
                          Inr (Emit (mk_token text i j NUMBER (VNum v)))))
                  else if isalpha u c \<or> c = 95 then
                    (let j = scan_while (\<lambda>x. isalnum u x \<or> x = 95) text (i + 1)
                     in Inr (Emit (mk_token text i j IDENT (VStr (slice text i j)))))
                  else Inl (parse_error_at text i (lit ''unexpected character '' @ [39, c, 39]))))"

definition step_end :: "lex_step \<Rightarrow> nat" where
  "step_end s = (case s of Skip j \<Rightarrow> j | Emit t \<Rightarrow> t_end t)"

section \<open>Progress\<close>

lemma read_string_loop_progress: "read_string_loop text i q j out = Inr (v, k) \<Longrightarrow> j < k \<and> k \<le> length text"
proof (induction "length text - j" arbitrary: j out rule: less_induct)
  case less
  have IH: "read_string_loop text i q j' out' = Inr (v, k) \<Longrightarrow> j < j' \<Longrightarrow> j < length text
      \<Longrightarrow> j' < k \<and> k \<le> length text" for j' out'
    using less.hyps [of j' out'] by simp
  show ?case
    using less.prems unfolding read_string_loop.simps [of "text" i q j out] Let_def
    by (auto split: if_splits option.splits dest!: IH)
qed

lemma find_newline_Some: "find_newline text i = Some j \<Longrightarrow> i \<le> j \<and> j < length text \<and> text ! j = 10"
proof (induction "text" i rule: find_newline.induct)
  case (1 s i)
  then show ?case unfolding find_newline.simps [of s i] by (auto split: if_splits)
qed

lemma find_close_Some: "find_close text i = Some j \<Longrightarrow> i \<le> j \<and> j + 1 < length text"
proof (induction "text" i rule: find_close.induct)
  case (1 s i)
  then show ?case unfolding find_close.simps [of s i] by (auto split: if_splits)
qed

lemma scan_while_bounds: "j \<le> scan_while P text j \<and> (j \<le> length text \<longrightarrow> scan_while P text j \<le> length text)"
proof (induction P "text" j rule: scan_while.induct)
  case (1 P s j)
  then show ?case by (subst (1 2) scan_while.simps) auto
qed

lemma number_end_bounds: "i < length text \<Longrightarrow> i < number_end u text i \<and> number_end u text i \<le> length text"
proof -
  assume i: "i < length text"
  let ?j = "scan_while (isdigit u) text (i + 1)"
  have "i + 1 \<le> ?j" "?j \<le> length text" using scan_while_bounds [of "i + 1" "isdigit u" "text"] i by auto
  then show ?thesis
    using scan_while_bounds [of "?j + 1" "isdigit u" "text"] by (auto simp: number_end_def Let_def)
qed

lemma mk_token_simps [simp]:
  "t_start (mk_token text i j ty v) = i" "t_end (mk_token text i j ty v) = j"
  "t_type (mk_token text i j ty v) = ty" "t_text (mk_token text i j ty v) = slice text i j"
  "t_value (mk_token text i j ty v) = v"
  "t_line (mk_token text i j ty v) = fst (line_col text i)" "t_col (mk_token text i j ty v) = snd (line_col text i)"
  by (simp_all add: mk_token_def split: prod.splits)

lemma lex_one_cases:
  assumes "lex_one u text i = Inr s"
  obtains (Blank) "text ! i = 32 \<or> text ! i = 9 \<or> text ! i = 13 \<or> text ! i = 10" "s = Skip (i + 1)"
  | (Line) "text ! i = 47" "i + 1 < length text" "text ! (i + 1) = 47"
      "s = Skip (case find_newline text i of None \<Rightarrow> length text | Some j \<Rightarrow> j)"
  | (Block) m where "text ! i = 47" "i + 1 < length text" "text ! (i + 1) = 42" "find_close text (i + 2) = Some m" "s = Skip (m + 2)"
  | (Str) v j where "read_string text i = Inr (v, j)" "s = Emit (mk_token text i j STRING (VStr v))"
  | (Two) d ty where "i + 1 < length text" "two_char (text ! i) d = Some ty" "s = Emit (mk_token text i (i + 2) ty VNone)"
  | (One) ty where "map_of single_char_map (text ! i) = Some ty" "s = Emit (mk_token text i (i + 1) ty VNone)"
  | (Num) v where "s = Emit (mk_token text i (number_end u text i) NUMBER (VNum v))"
  | (Word) v where "s = Emit (mk_token text i (scan_while (\<lambda>x. isalnum u x \<or> x = 95) text (i + 1)) IDENT (VStr v))"
proof -
  let ?c = "text ! i" and ?d = "if i + 1 < length text then Some (text ! (i + 1)) else None"
  let ?t = "case ?d of Some d' \<Rightarrow> two_char ?c d' | None \<Rightarrow> None"
  consider (a) "?c = 32 \<or> ?c = 9 \<or> ?c = 13 \<or> ?c = 10"
    | (b) "\<not> (?c = 32 \<or> ?c = 9 \<or> ?c = 13 \<or> ?c = 10)" "?c = 47 \<and> ?d = Some 47"
    | (c) "\<not> (?c = 32 \<or> ?c = 9 \<or> ?c = 13 \<or> ?c = 10)" "\<not> (?c = 47 \<and> ?d = Some 47)" "?c = 47 \<and> ?d = Some 42"
    | (d) "\<not> (?c = 32 \<or> ?c = 9 \<or> ?c = 13 \<or> ?c = 10)" "\<not> (?c = 47 \<and> ?d = Some 47)" "\<not> (?c = 47 \<and> ?d = Some 42)"
    by blast
  then show thesis
  proof cases
    case a
    then show thesis using assms Blank unfolding lex_one_def Let_def by simp
  next
    case b
    then show thesis using assms Line unfolding lex_one_def Let_def by (simp split: if_splits)
  next
    case c
    then show thesis using assms Block unfolding lex_one_def Let_def by (simp split: if_splits option.splits)
  next
    case d
    show thesis
    proof (cases "?c = 34 \<or> ?c = 39")
      case True
      then show thesis using assms Str d unfolding lex_one_def Let_def by (auto simp: rbind_eq_Inr)
    next
      case q: False
      have body: "(case ?t of Some ty \<Rightarrow> Inr (Emit (mk_token text i (i + 2) ty VNone))
         | None \<Rightarrow> (case map_of single_char_map ?c of
                Some ty \<Rightarrow> Inr (Emit (mk_token text i (i + 1) ty VNone))
              | None \<Rightarrow> if isdigit u ?c then rbind (float_of_text u (slice text i (number_end u text i))) (\<lambda>v.
                    Inr (Emit (mk_token text i (number_end u text i) NUMBER (VNum v))))
                  else if isalpha u ?c \<or> ?c = 95 then Inr (Emit (mk_token text i (scan_while (\<lambda>x. isalnum u x \<or> x = 95) text (i + 1)) IDENT
                      (VStr (slice text i (scan_while (\<lambda>x. isalnum u x \<or> x = 95) text (i + 1))))))
                  else Inl (parse_error_at text i (lit ''unexpected character '' @ [39, ?c, 39])))) = Inr s"
        using assms d q unfolding lex_one_def Let_def by (simp only: if_False)
      show thesis
      proof (cases ?t)
        case (Some ty)
        then show thesis using body Two [of "text ! (i + 1)" ty] by (simp split: if_splits)
      next
        case None
        then show thesis using body One Num Word by (auto simp: rbind_eq_Inr split: option.splits if_splits)
      qed
    qed
  qed
qed

lemma lex_one_progress:
  assumes i: "i < length text" and s: "lex_one u text i = Inr s"
  shows "i < step_end s \<and> step_end s \<le> length text"
  using s
proof (cases rule: lex_one_cases)
  case Line
  then show ?thesis using find_newline_Some [of "text" i] i
    by (cases "find_newline text i") (auto simp: step_end_def dest: order.order_iff_strict [THEN iffD1])
next
  case (Block m)
  then show ?thesis using find_close_Some [of "text" "i + 2" m] by (simp add: step_end_def)
next
  case (Str v j)
  then show ?thesis
    using read_string_loop_progress [OF Str(1) [unfolded read_string_def]] by (simp add: step_end_def)
next
  case (Num v)
  then show ?thesis using number_end_bounds [OF i, of u] by (simp add: step_end_def)
next
  case (Word v)
  then show ?thesis using scan_while_bounds [of "i + 1" "\<lambda>x. isalnum u x \<or> x = 95" "text"] i by (simp add: step_end_def)
qed (use i in \<open>simp_all add: step_end_def\<close>)

section \<open>The main loop\<close>

function tokenize_loop :: "unicode_db \<Rightarrow> pystr \<Rightarrow> nat \<Rightarrow> token list \<Rightarrow> token list result" where
  "tokenize_loop u text i tokens =
     (if i < length text then
        (case lex_one u text i of
           Inl e \<Rightarrow> Inl e
         | Inr (Skip j) \<Rightarrow> tokenize_loop u text j tokens
         | Inr (Emit t) \<Rightarrow> tokenize_loop u text (t_end t) (tokens @ [t]))
      else Inr (tokens @ [mk_token text (length text) (length text) EOF VNone]))"
  by pat_completeness auto
termination
  by (relation "measure (\<lambda>(u, text, i, tokens). length text - i)")
     (auto dest!: lex_one_progress simp: step_end_def)

declare tokenize_loop.simps [simp del]

definition tokenize :: "unicode_db \<Rightarrow> pystr \<Rightarrow> token list result" where
  "tokenize u text = tokenize_loop u text 0 []"

end
