(* ===== verification/Ql_Ast.thy ===== *)
theory Ql_Ast
  imports PyText
begin

text \<open>
  \<^verbatim>\<open>src/src/osmpq/ql/ast.py\<close>: the abstract syntax of the query language. Fields with a fixed set
  of literals are datatypes or program strings; set names, keys and values are user text.
\<close>

type_synonym bbox4 = "pyfloat \<times> pyfloat \<times> pyfloat \<times> pyfloat"

abbreviation default_set :: pystr where "default_set \<equiv> lit ''_''"

datatype out_format = FmtJson | FmtXml | FmtCsv

record settings =
  s_out_format :: out_format
  s_csv_fields :: "pystr list option"
  s_csv_header :: bool
  s_csv_separator :: pystr
  s_timeout :: int
  s_maxsize :: int
  s_bbox :: "bbox4 option"
  s_date :: "pystr option"
  s_diff :: "(pystr \<times> pystr option) option"
  s_adiff :: "(pystr \<times> pystr option) option"

definition default_settings :: settings where
  "default_settings = \<lparr>s_out_format = FmtXml, s_csv_fields = None, s_csv_header = True,
     s_csv_separator = [9], s_timeout = 180, s_maxsize = 536870912, s_bbox = None, s_date = None,
     s_diff = None, s_adiff = None\<rparr>"

datatype tag_op = OpEq | OpNe | OpRe | OpNre | OpExists | OpNotExists

datatype recurse_filter_kind = RfW | RfR | RfBn | RfBw | RfBr

datatype filter_ast =
    TagFilter pystr tag_op "pystr option" bool bool
  | BboxFilter pyfloat pyfloat pyfloat pyfloat
  | IdFilter "int list"
  | RecurseFilter recurse_filter_kind pystr "pystr option"
  | AroundFilter pyfloat "pystr option" "(pyfloat \<times> pyfloat) list option"
  | PolyFilter "(pyfloat \<times> pyfloat) list"
  | AreaFilter "pystr option" "int option"
  | PivotFilter pystr
  | NewerFilter pystr
  | ChangedFilter pystr "pystr option"
  | UserFilter "pystr list"
  | UidFilter "int list"
  | IfFilter pystr

datatype recurse_kind = RDown | RDownDown | RUp | RUpUp

datatype verbosity = VIds | VSkel | VBody | VTags | VMeta
datatype geometry = GNone | GGeom | GBb | GCenter
datatype out_order = OAsc | OQt

record out_spec =
  o_input_set :: pystr
  o_verbosity :: verbosity
  o_geometry :: geometry
  o_geom_bbox :: "bbox4 option"
  o_order :: out_order
  o_limit :: "int option"
  o_noids :: bool
  o_count :: bool

definition default_out :: "pystr \<Rightarrow> out_spec" where
  "default_out input_set = \<lparr>o_input_set = input_set, o_verbosity = VBody, o_geometry = GNone,
     o_geom_bbox = None, o_order = OAsc, o_limit = None, o_noids = False, o_count = False\<rparr>"

datatype statement =
    Query "string list" "filter_ast list" "pystr list" pystr
  | Union_stmt "statement list" pystr
  | Difference statement statement pystr
  | Recurse recurse_kind pystr pystr
  | Item pystr pystr
  | IsIn pystr pystr "(pyfloat \<times> pyfloat) option"
  | MapToArea pystr pystr
  | Out out_spec
  | Foreach pystr pystr "statement list"
  | If_stmt pystr "statement list" "statement list"
  | Retro pystr "statement list"
  | Timeline string int "int option" pystr
  | Unsupported string pystr

record program =
  p_settings :: settings
  p_statements :: "statement list"

end
