(* ===== verification/Parser.thy ===== *)
theory Parser
  imports Lexer Ql_Ast "HOL-Library.Sublist"
begin

text \<open>
  \<^verbatim>\<open>src/src/osmpq/ql/parser.py\<close>: the recursive-descent parser.

  The state of a \<open>Parser\<close> is the list of its tokens from \<open>self.pos\<close> on without the final EOF
  token: \<open>current()\<close> is the head, or the EOF token when the list is empty, and \<open>advance()\<close> drops
  the head (at EOF it stays). A parsing method takes the state and returns its result with the
  new state, or the exception it raises.

  A \<open>while\<close> loop carries a bound that decreases with every pass and starts at the number of
  tokens left plus one; the nesting of statements is bounded by the number of tokens. \<open>OutOfFuel\<close>
  stands for exceeding a bound, which \<open>Parser_Total\<close> shows never happens. Python's own limit on the
  depth of the recursion is not modelled: blocks nested beyond it (about a thousand calls deep) raise
  \<open>RecursionError\<close> in the program.
\<close>

record pctx =
  cx_udb :: unicode_db
  cx_text :: pystr

type_synonym 'a pres = "('a \<times> token list) result"

section \<open>Token stream\<close>

definition eof_token :: "pctx \<Rightarrow> token" where
  "eof_token cx = mk_token (cx_text cx) (length (cx_text cx)) (length (cx_text cx)) EOF VNone"

fun cur :: "pctx \<Rightarrow> token list \<Rightarrow> token" where
  "cur cx [] = eof_token cx"
| "cur cx (t # ts) = t"

definition peek :: "pctx \<Rightarrow> nat \<Rightarrow> token list \<Rightarrow> token" where
  "peek cx k ts = (if k < length ts then ts ! k else eof_token cx)"

abbreviation check :: "pctx \<Rightarrow> token_type \<Rightarrow> token list \<Rightarrow> bool" where
  "check cx ty ts \<equiv> t_type (cur cx ts) = ty"

abbreviation at_end :: "pctx \<Rightarrow> token list \<Rightarrow> bool" where
  "at_end cx ts \<equiv> check cx EOF ts"

definition error_at :: "token \<Rightarrow> pystr \<Rightarrow> py_error" where
  "error_at tok msg = ParseError (lit ''line '' @ py_str_nat (t_line tok) @ lit '': parse error: '' @ msg)
     (Some (t_line tok)) (Some (t_col tok))"

definition perror :: "pctx \<Rightarrow> token list \<Rightarrow> pystr \<Rightarrow> 'a pres" where
  "perror cx ts msg = Inl (error_at (cur cx ts) msg)"

definition quote1 :: "pystr \<Rightarrow> pystr" where
  "quote1 s = [39] @ s @ [39]"

definition label :: "token \<Rightarrow> pystr" where
  "label got = (if t_type got = EOF then lit ''end of input'' else quote1 (t_text got))"

definition expect :: "pctx \<Rightarrow> token_type \<Rightarrow> token list \<Rightarrow> token pres" where
  "expect cx ty ts =
     (if \<not> check cx ty ts
      then perror cx ts (lit ''expected '' @ quote1 (lit (type_text ty)) @ lit '', got '' @ label (cur cx ts))
      else Inr (cur cx ts, tl ts))"

definition expect_ident_text :: "pctx \<Rightarrow> token list \<Rightarrow> pystr pres" where
  "expect_ident_text cx ts =
     (if \<not> check cx IDENT ts then perror cx ts (lit ''expected identifier, got '' @ label (cur cx ts))
      else Inr (t_text (cur cx ts), tl ts))"

section \<open>Low-level readers\<close>

definition bare_glue_types :: "token_type list" where
  "bare_glue_types = [IDENT, NUMBER, COLON, DOT, MINUS]"

fun glue_loop :: "nat option \<Rightarrow> token list \<Rightarrow> pystr \<Rightarrow> pystr \<times> token list" where
  "glue_loop prev_end [] parts = (parts, [])"
| "glue_loop prev_end (tok # ts) parts =
     (if t_type tok \<in> set bare_glue_types \<and> (prev_end = None \<or> prev_end = Some (t_start tok))
      then glue_loop (Some (t_end tok)) ts (parts @ t_text tok)
      else (parts, tok # ts))"

definition str_value :: "token \<Rightarrow> pystr result" where
  "str_value t = (case t_value t of VStr s \<Rightarrow> Inr s | _ \<Rightarrow> Inl TypeError)"

definition num_value :: "token \<Rightarrow> pyfloat result" where
  "num_value t = (case t_value t of VNum x \<Rightarrow> Inr x | _ \<Rightarrow> Inl TypeError)"

definition parse_bare_or_string :: "pctx \<Rightarrow> token list \<Rightarrow> pystr pres" where
  "parse_bare_or_string cx ts =
     (if check cx STRING ts then rbind (str_value (cur cx ts)) (\<lambda>s. Inr (s, tl ts))
      else if t_type (cur cx ts) \<in> set bare_glue_types then Inr (glue_loop None ts [])
      else perror cx ts (lit ''expected a key/value, got '' @ label (cur cx ts)))"

definition expect_string_value :: "pctx \<Rightarrow> token list \<Rightarrow> pystr pres" where
  "expect_string_value cx ts = parse_bare_or_string cx ts"

definition parse_signed_number :: "pctx \<Rightarrow> token list \<Rightarrow> pyfloat pres" where
  "parse_signed_number cx ts =
     (if check cx MINUS ts then
        (let minus_tok = cur cx ts; ts = tl ts
         in if \<not> check cx NUMBER ts \<or> t_start (cur cx ts) \<noteq> t_end minus_tok
            then perror cx ts (lit ''expected a number after '' @ quote1 (lit ''-''))
            else rbind (num_value (cur cx ts)) (\<lambda>x. Inr (neg_float x, tl ts)))
      else if check cx NUMBER ts then rbind (num_value (cur cx ts)) (\<lambda>x. Inr (x, tl ts))
      else perror cx ts (lit ''expected a number, got '' @ label (cur cx ts)))"

text \<open>\<open>int(...)\<close> of a number just read.\<close>

definition parse_int :: "pctx \<Rightarrow> token list \<Rightarrow> int pres" where
  "parse_int cx ts = rbind (parse_signed_number cx ts) (\<lambda>(x, ts). rbind (int_of_float x) (\<lambda>i. Inr (i, ts)))"

text \<open>\<open>while self.check(COMMA): self.advance(); acc.append(p())\<close>\<close>

fun comma_loop :: "nat \<Rightarrow> pctx \<Rightarrow> (token list \<Rightarrow> 'a pres) \<Rightarrow> token list \<Rightarrow> 'a list \<Rightarrow> 'a list pres" where
  "comma_loop 0 cx p ts acc = Inl OutOfFuel"
| "comma_loop (Suc n) cx p ts acc =
     (if check cx COMMA ts then rbind (p (tl ts)) (\<lambda>(x, ts). comma_loop n cx p ts (acc @ [x]))
      else Inr (acc, ts))"

definition comma_list :: "pctx \<Rightarrow> (token list \<Rightarrow> 'a pres) \<Rightarrow> token list \<Rightarrow> 'a list \<Rightarrow> 'a list pres" where
  "comma_list cx p ts acc = comma_loop (length ts + 1) cx p ts acc"

definition parse_number_list :: "pctx \<Rightarrow> token list \<Rightarrow> pyfloat list pres" where
  "parse_number_list cx ts =
     rbind (parse_signed_number cx ts) (\<lambda>(x, ts). comma_list cx (parse_signed_number cx) ts [x])"

definition parse_int_list :: "pctx \<Rightarrow> token list \<Rightarrow> int list pres" where
  "parse_int_list cx ts =
     rbind (parse_number_list cx ts) (\<lambda>(nums, ts). rbind (rmap int_of_float nums) (\<lambda>is. Inr (is, ts)))"

definition stripped :: "pctx \<Rightarrow> nat \<Rightarrow> nat \<Rightarrow> pystr" where
  "stripped cx a b = py_strip (cx_udb cx) (slice (cx_text cx) a b)"

fun capture_loop :: "pctx \<Rightarrow> nat \<Rightarrow> nat \<Rightarrow> nat \<Rightarrow> token list \<Rightarrow> pystr pres" where
  "capture_loop cx start_offset end_offset depth [] = perror cx [] (lit ''unbalanced parentheses'')"
| "capture_loop cx start_offset end_offset depth (tok # ts) =
     (if t_type tok = RPAREN \<and> depth = 0 then Inr (stripped cx start_offset end_offset, tok # ts)
      else capture_loop cx start_offset (t_end tok)
             (if t_type tok = LPAREN then depth + 1 else if t_type tok = RPAREN then depth - 1 else depth) ts)"

definition capture_until_matching_rparen :: "pctx \<Rightarrow> token list \<Rightarrow> pystr pres" where
  "capture_until_matching_rparen cx ts = capture_loop cx (t_start (cur cx ts)) (t_start (cur cx ts)) 0 ts"

definition parse_output_set :: "pctx \<Rightarrow> token list \<Rightarrow> pystr pres" where
  "parse_output_set cx ts =
     (if check cx ARROW ts
      then rbind (expect cx DOT (tl ts)) (\<lambda>(_, ts). expect_ident_text cx ts)
      else Inr (default_set, ts))"

section \<open>Settings\<close>

definition parse_csv_field :: "pctx \<Rightarrow> token list \<Rightarrow> pystr pres" where
  "parse_csv_field cx ts =
     (if check cx COLON ts \<and> t_type (peek cx 1 ts) = COLON
      then rbind (expect_ident_text cx (tl (tl ts))) (\<lambda>(s, ts). Inr (lit ''::'' @ s, ts))
      else if check cx STRING ts then rbind (str_value (cur cx ts)) (\<lambda>s. Inr (s, tl ts))
      else parse_bare_or_string cx ts)"

fun csv_loop :: "nat \<Rightarrow> pctx \<Rightarrow> token list \<Rightarrow> pystr list \<Rightarrow> pystr list pres" where
  "csv_loop 0 cx ts flds = Inl OutOfFuel"
| "csv_loop (Suc n) cx ts flds =
     (if check cx SEMI ts \<or> check cx RPAREN ts then Inr (flds, ts)
      else rbind (parse_csv_field cx ts) (\<lambda>(f, ts).
        if check cx COMMA ts then csv_loop n cx (tl ts) (flds @ [f])
        else if \<not> (check cx SEMI ts \<or> check cx RPAREN ts)
          then perror cx ts (lit ''expected '' @ quote1 (lit '','') @ lit '' in csv field list'')
        else csv_loop n cx ts (flds @ [f])))"

definition parse_csv_setting :: "pctx \<Rightarrow> settings \<Rightarrow> token list \<Rightarrow> settings pres" where
  "parse_csv_setting cx s ts =
     rbind (expect cx LPAREN ts) (\<lambda>(_, ts).
     rbind (csv_loop (length ts + 1) cx ts []) (\<lambda>(flds, ts).
     let s = s\<lparr>s_csv_fields := Some flds\<rparr>
     in rbind
          (if check cx SEMI ts then
             rbind (if check cx IDENT (tl ts)
                    then rbind (expect_ident_text cx (tl ts)) (\<lambda>(w, ts). Inr (s\<lparr>s_csv_header := (w = lit ''true'')\<rparr>, ts))
                    else Inr (s, tl ts)) (\<lambda>(s, ts).
               if check cx SEMI ts
               then rbind (expect_string_value cx (tl ts)) (\<lambda>(sep, ts). Inr (s\<lparr>s_csv_separator := sep\<rparr>, ts))
               else Inr (s, ts))
           else Inr (s, ts)) (\<lambda>(s, ts).
        rbind (expect cx RPAREN ts) (\<lambda>(_, ts). Inr (s, ts)))))"

definition parse_two_strings :: "pctx \<Rightarrow> token list \<Rightarrow> (pystr \<times> pystr option) pres" where
  "parse_two_strings cx ts =
     rbind (expect_string_value cx ts) (\<lambda>(a, ts).
       if check cx COMMA ts then rbind (expect_string_value cx (tl ts)) (\<lambda>(b, ts). Inr ((a, Some b), ts))
       else Inr ((a, None), ts))"

definition bbox_of :: "pyfloat list \<Rightarrow> bbox4" where
  "bbox_of nums = (nums ! 0, nums ! 1, nums ! 2, nums ! 3)"

definition parse_setting :: "pctx \<Rightarrow> pystr \<Rightarrow> settings \<Rightarrow> token list \<Rightarrow> settings pres" where
  "parse_setting cx name s ts =
     (if name = lit ''out'' then
        rbind (expect_ident_text cx ts) (\<lambda>(fmt, ts).
          if fmt = lit ''json'' then Inr (s\<lparr>s_out_format := FmtJson\<rparr>, ts)
          else if fmt = lit ''xml'' then Inr (s\<lparr>s_out_format := FmtXml\<rparr>, ts)
          else if fmt = lit ''csv'' then parse_csv_setting cx (s\<lparr>s_out_format := FmtCsv\<rparr>) ts
          else perror cx ts (lit ''unknown output format '' @ quote1 fmt))
      else if name = lit ''timeout'' then rbind (parse_int cx ts) (\<lambda>(i, ts). Inr (s\<lparr>s_timeout := i\<rparr>, ts))
      else if name = lit ''maxsize'' then rbind (parse_int cx ts) (\<lambda>(i, ts). Inr (s\<lparr>s_maxsize := i\<rparr>, ts))
      else if name = lit ''bbox'' then
        rbind (parse_number_list cx ts) (\<lambda>(nums, ts).
          if length nums \<noteq> 4
          then perror cx ts (lit ''[bbox:...] requires exactly 4 numbers (south,west,north,east)'')
          else Inr (s\<lparr>s_bbox := Some (bbox_of nums)\<rparr>, ts))
      else if name = lit ''date'' then rbind (expect_string_value cx ts) (\<lambda>(d, ts). Inr (s\<lparr>s_date := Some d\<rparr>, ts))
      else if name = lit ''diff'' then rbind (parse_two_strings cx ts) (\<lambda>(d, ts). Inr (s\<lparr>s_diff := Some d\<rparr>, ts))
      else if name = lit ''adiff'' then rbind (parse_two_strings cx ts) (\<lambda>(d, ts). Inr (s\<lparr>s_adiff := Some d\<rparr>, ts))
      else perror cx ts (lit ''unknown global setting '' @ quote1 name))"

fun settings_loop :: "nat \<Rightarrow> pctx \<Rightarrow> settings \<Rightarrow> bool \<Rightarrow> token list \<Rightarrow> (settings \<times> bool) pres" where
  "settings_loop 0 cx s saw_any ts = Inl OutOfFuel"
| "settings_loop (Suc n) cx s saw_any ts =
     (if check cx LBRACKET ts then
        rbind (expect_ident_text cx (tl ts)) (\<lambda>(name, ts).
        rbind (expect cx COLON ts) (\<lambda>(_, ts).
        rbind (parse_setting cx name s ts) (\<lambda>(s, ts).
        rbind (expect cx RBRACKET ts) (\<lambda>(_, ts). settings_loop n cx s True ts))))
      else Inr ((s, saw_any), ts))"

definition parse_settings :: "pctx \<Rightarrow> token list \<Rightarrow> settings pres" where
  "parse_settings cx ts =
     rbind (settings_loop (length ts + 1) cx default_settings False ts) (\<lambda>((s, saw_any), ts).
       if saw_any then rbind (expect cx SEMI ts) (\<lambda>(_, ts). Inr (s, ts)) else Inr (s, ts))"

section \<open>Simple statements\<close>

fun recurse_kind_of :: "token_type \<Rightarrow> recurse_kind option" where
  "recurse_kind_of GT = Some RDown"
| "recurse_kind_of GTGT = Some RDownDown"
| "recurse_kind_of LT = Some RUp"
| "recurse_kind_of LTLT = Some RUpUp"
| "recurse_kind_of _ = None"

definition query_keywords :: "(string \<times> string list) list" where
  "query_keywords =
     [(''node'', [''node'']), (''way'', [''way'']), (''rel'', [''relation'']), (''relation'', [''relation'']),
      (''nwr'', [''node'', ''way'', ''relation'']), (''nw'', [''node'', ''way'']), (''nr'', [''node'', ''relation'']),
      (''wr'', [''way'', ''relation'']), (''area'', [''area'']), (''derived'', [''derived''])]"

definition keyword_types :: "pystr \<Rightarrow> string list option" where
  "keyword_types word = map_of (map (\<lambda>(k, v). (lit k, v)) query_keywords) word"

text \<open>The common tail \<open>output_set = self.parse_output_set(); self.expect(SEMI)\<close>.\<close>

definition output_semi :: "pctx \<Rightarrow> token list \<Rightarrow> pystr pres" where
  "output_semi cx ts =
     rbind (parse_output_set cx ts) (\<lambda>(out, ts). rbind (expect cx SEMI ts) (\<lambda>(_, ts). Inr (out, ts)))"

definition parse_recurse_op :: "pctx \<Rightarrow> pystr \<Rightarrow> token list \<Rightarrow> statement pres" where
  "parse_recurse_op cx input_set ts =
     (case recurse_kind_of (t_type (cur cx ts)) of
        None \<Rightarrow> Inl KeyError
      | Some kind \<Rightarrow> rbind (output_semi cx (tl ts)) (\<lambda>(out, ts). Inr (Recurse kind input_set out, ts)))"

definition parse_is_in :: "pctx \<Rightarrow> pystr \<Rightarrow> token list \<Rightarrow> statement pres" where
  "parse_is_in cx input_set ts =
     rbind (if check cx LPAREN ts then
              rbind (parse_signed_number cx (tl ts)) (\<lambda>(lat, ts).
              rbind (expect cx COMMA ts) (\<lambda>(_, ts).
              rbind (parse_signed_number cx ts) (\<lambda>(lon, ts).
              rbind (expect cx RPAREN ts) (\<lambda>(_, ts). Inr (Some (lat, lon), ts)))))
            else Inr (None, ts)) (\<lambda>(coords, ts).
     rbind (output_semi cx ts) (\<lambda>(out, ts). Inr (IsIn input_set out coords, ts)))"

definition parse_map_to_area :: "pctx \<Rightarrow> pystr \<Rightarrow> token list \<Rightarrow> statement pres" where
  "parse_map_to_area cx input_set ts =
     rbind (output_semi cx ts) (\<lambda>(out, ts). Inr (MapToArea input_set out, ts))"

section \<open>Filters\<close>

definition parse_optional_i_flag :: "pctx \<Rightarrow> token list \<Rightarrow> bool pres" where
  "parse_optional_i_flag cx ts =
     (if check cx COMMA ts then
        rbind (expect_ident_text cx (tl ts)) (\<lambda>(flag, ts).
          if flag \<noteq> lit ''i''
          then perror cx ts (lit ''unknown filter flag '' @ quote1 (lit '','' @ flag) @ lit '' (only '' @ quote1 (lit '',i'') @ lit '' is supported)'')
          else Inr (True, ts))
      else Inr (False, ts))"

fun tag_op_of :: "token_type \<Rightarrow> tag_op option" where
  "tag_op_of EQ = Some OpEq"
| "tag_op_of NEQ = Some OpNe"
| "tag_op_of NOTTILDE = Some OpNre"
| "tag_op_of TILDE = Some OpRe"
| "tag_op_of _ = None"

definition parse_tag_filter :: "pctx \<Rightarrow> token list \<Rightarrow> filter_ast pres" where
  "parse_tag_filter cx ts =
     rbind (expect cx LBRACKET ts) (\<lambda>(_, ts).
       if check cx BANG ts then
         rbind (parse_bare_or_string cx (tl ts)) (\<lambda>(key, ts).
         rbind (expect cx RBRACKET ts) (\<lambda>(_, ts). Inr (TagFilter key OpNotExists None False False, ts)))
       else if check cx TILDE ts then
         rbind (parse_bare_or_string cx (tl ts)) (\<lambda>(keypat, ts).
         rbind (expect cx TILDE ts) (\<lambda>(_, ts).
         rbind (parse_bare_or_string cx ts) (\<lambda>(valpat, ts).
         rbind (parse_optional_i_flag cx ts) (\<lambda>(ci, ts).
         rbind (expect cx RBRACKET ts) (\<lambda>(_, ts). Inr (TagFilter keypat OpRe (Some valpat) True ci, ts))))))
       else
         rbind (parse_bare_or_string cx ts) (\<lambda>(key, ts).
           if check cx RBRACKET ts then Inr (TagFilter key OpExists None False False, tl ts)
           else case tag_op_of (t_type (cur cx ts)) of
             None \<Rightarrow> perror cx ts (lit ''expected an operator (=, !=, ~, !~) or '' @ quote1 (lit '']'')
                       @ lit '' in tag filter, got '' @ label (cur cx ts))
           | Some op \<Rightarrow>
               rbind (parse_bare_or_string cx (tl ts)) (\<lambda>(value, ts).
               rbind (parse_optional_i_flag cx ts) (\<lambda>(ci, ts).
               rbind (expect cx RBRACKET ts) (\<lambda>(_, ts). Inr (TagFilter key op (Some value) False ci, ts))))))"

fun pairs :: "'a list \<Rightarrow> ('a \<times> 'a) list" where
  "pairs (a # b # xs) = (a, b) # pairs xs"
| "pairs _ = []"

definition recurse_filter_kinds :: "(string \<times> recurse_filter_kind) list" where
  "recurse_filter_kinds = [(''w'', RfW), (''r'', RfR), (''bn'', RfBn), (''bw'', RfBw), (''br'', RfBr)]"

definition recurse_filter_kind_of :: "pystr \<Rightarrow> recurse_filter_kind option" where
  "recurse_filter_kind_of word = map_of (map (\<lambda>(k, v). (lit k, v)) recurse_filter_kinds) word"

text \<open>\<open>if self.check(DOT): self.advance(); set_name = self.expect_ident_text()\<close>\<close>

definition parse_dot_set :: "pctx \<Rightarrow> 'a \<Rightarrow> (pystr \<Rightarrow> 'a) \<Rightarrow> token list \<Rightarrow> 'a pres" where
  "parse_dot_set cx dflt f ts =
     (if check cx DOT ts then rbind (expect_ident_text cx (tl ts)) (\<lambda>(s, ts). Inr (f s, ts)) else Inr (dflt, ts))"

definition parse_recurse_filter :: "pctx \<Rightarrow> recurse_filter_kind \<Rightarrow> token list \<Rightarrow> filter_ast pres" where
  "parse_recurse_filter cx kind ts =
     rbind (parse_dot_set cx default_set id ts) (\<lambda>(set_name, ts).
       if check cx COLON ts
       then rbind (expect_string_value cx (tl ts)) (\<lambda>(role, ts). Inr (RecurseFilter kind set_name (Some role), ts))
       else Inr (RecurseFilter kind set_name None, ts))"

definition parse_around :: "pctx \<Rightarrow> token list \<Rightarrow> filter_ast pres" where
  "parse_around cx ts =
     rbind (parse_dot_set cx None Some ts) (\<lambda>(set_name, ts).
     rbind (expect cx COLON ts) (\<lambda>(_, ts).
     rbind (parse_signed_number cx ts) (\<lambda>(radius, ts).
     rbind (comma_list cx (parse_signed_number cx) ts []) (\<lambda>(nums, ts).
       if nums \<noteq> [] then
         (if length nums mod 2 \<noteq> 0
          then perror cx ts (lit ''(around: ...) coordinate list must have an even number of values'')
          else Inr (AroundFilter radius set_name (Some (pairs nums)), ts))
       else Inr (AroundFilter radius set_name None, ts)))))"

definition parse_poly :: "pctx \<Rightarrow> token list \<Rightarrow> filter_ast pres" where
  "parse_poly cx ts =
     rbind (expect cx COLON ts) (\<lambda>(_, ts).
     rbind (expect_string_value cx ts) (\<lambda>(s, ts).
     rbind (rmap (float_of_text (cx_udb cx)) (py_split (cx_udb cx) s [])) (\<lambda>nums.
       if length nums mod 2 \<noteq> 0 \<or> length nums < 6
       then perror cx ts (lit ''(poly: ...) requires an even number of coordinates (at least 3 points)'')
       else Inr (PolyFilter (pairs nums), ts))))"

definition parse_area_filter :: "pctx \<Rightarrow> token list \<Rightarrow> filter_ast pres" where
  "parse_area_filter cx ts =
     (if check cx DOT ts
      then rbind (expect_ident_text cx (tl ts)) (\<lambda>(s, ts). Inr (AreaFilter (Some s) None, ts))
      else if check cx COLON ts
      then rbind (parse_int cx (tl ts)) (\<lambda>(i, ts). Inr (AreaFilter None (Some i), ts))
      else Inr (AreaFilter None None, ts))"

text \<open>The branches of \<open>parse_paren_filter\<close> on the word after the parenthesis, which is consumed.\<close>

definition parse_word_filter :: "pctx \<Rightarrow> pystr \<Rightarrow> token list \<Rightarrow> filter_ast pres" where
  "parse_word_filter cx word ts =
     (if word = lit ''id'' then
        rbind (expect cx COLON (tl ts)) (\<lambda>(_, ts). rbind (parse_int_list cx ts) (\<lambda>(is, ts). Inr (IdFilter is, ts)))
      else case recurse_filter_kind_of word of
        Some kind \<Rightarrow> parse_recurse_filter cx kind (tl ts)
      | None \<Rightarrow>
          if word = lit ''around'' then parse_around cx (tl ts)
          else if word = lit ''poly'' then parse_poly cx (tl ts)
          else if word = lit ''area'' then parse_area_filter cx (tl ts)
          else if word = lit ''pivot'' then
            rbind (parse_dot_set cx default_set id (tl ts)) (\<lambda>(s, ts). Inr (PivotFilter s, ts))
          else if word = lit ''newer'' then
            rbind (expect cx COLON (tl ts)) (\<lambda>(_, ts). rbind (expect_string_value cx ts) (\<lambda>(s, ts). Inr (NewerFilter s, ts)))
          else if word = lit ''changed'' then
            rbind (expect cx COLON (tl ts)) (\<lambda>(_, ts).
            rbind (parse_two_strings cx ts) (\<lambda>((since, until), ts). Inr (ChangedFilter since until, ts)))
          else if word = lit ''user'' then
            rbind (expect cx COLON (tl ts)) (\<lambda>(_, ts).
            rbind (expect_string_value cx ts) (\<lambda>(s, ts).
            rbind (comma_list cx (expect_string_value cx) ts [s]) (\<lambda>(names, ts). Inr (UserFilter names, ts))))
          else if word = lit ''uid'' then
            rbind (expect cx COLON (tl ts)) (\<lambda>(_, ts).
            rbind (parse_int cx ts) (\<lambda>(i, ts).
            rbind (comma_list cx (parse_int cx) ts [i]) (\<lambda>(is, ts). Inr (UidFilter is, ts))))
          else if word = lit ''if'' then
            rbind (expect cx COLON (tl ts)) (\<lambda>(_, ts).
            rbind (capture_until_matching_rparen cx ts) (\<lambda>(s, ts). Inr (IfFilter s, ts)))
          else perror cx ts (lit ''unknown filter '' @ quote1 word))"

definition parse_paren_filter :: "pctx \<Rightarrow> token list \<Rightarrow> filter_ast pres" where
  "parse_paren_filter cx ts =
     rbind (expect cx LPAREN ts) (\<lambda>(_, ts).
     rbind (if check cx IDENT ts then parse_word_filter cx (t_text (cur cx ts)) ts
            else if check cx NUMBER ts \<or> check cx MINUS ts then
              rbind (parse_number_list cx ts) (\<lambda>(nums, ts).
                if length nums = 4 then Inr (BboxFilter (nums ! 0) (nums ! 1) (nums ! 2) (nums ! 3), ts)
                else rbind (rmap int_of_float nums) (\<lambda>is. Inr (IdFilter is, ts)))
            else perror cx ts (lit ''unexpected token '' @ label (cur cx ts) @ lit '' in filter'')) (\<lambda>(filt, ts).
     rbind (expect cx RPAREN ts) (\<lambda>(_, ts). Inr (filt, ts))))"

section \<open>Queries and out\<close>

fun input_sets_loop :: "nat \<Rightarrow> pctx \<Rightarrow> token list \<Rightarrow> pystr list \<Rightarrow> pystr list pres" where
  "input_sets_loop 0 cx ts sets = Inl OutOfFuel"
| "input_sets_loop (Suc n) cx ts sets =
     (if check cx DOT ts
      then rbind (expect_ident_text cx (tl ts)) (\<lambda>(s, ts). input_sets_loop n cx ts (sets @ [s]))
      else Inr (sets, ts))"

fun filters_loop :: "nat \<Rightarrow> pctx \<Rightarrow> token list \<Rightarrow> filter_ast list \<Rightarrow> filter_ast list pres" where
  "filters_loop 0 cx ts filters = Inl OutOfFuel"
| "filters_loop (Suc n) cx ts filters =
     (if check cx LBRACKET ts \<or> check cx LPAREN ts
      then rbind (if check cx LBRACKET ts then parse_tag_filter cx ts else parse_paren_filter cx ts)
             (\<lambda>(f, ts). filters_loop n cx ts (filters @ [f]))
      else Inr (filters, ts))"

definition parse_query :: "pctx \<Rightarrow> string list \<Rightarrow> token list \<Rightarrow> statement pres" where
  "parse_query cx types ts =
     (let ts = tl ts
      in rbind (input_sets_loop (length ts + 1) cx ts []) (\<lambda>(input_sets, ts).
         rbind (filters_loop (length ts + 1) cx ts []) (\<lambda>(filters, ts).
         rbind (output_semi cx ts) (\<lambda>(out, ts). Inr (Query types filters input_sets out, ts)))))"

definition parse_out_geom :: "pctx \<Rightarrow> out_spec \<Rightarrow> token list \<Rightarrow> out_spec pres" where
  "parse_out_geom cx out ts =
     (if check cx LPAREN ts then
        rbind (parse_number_list cx (tl ts)) (\<lambda>(nums, ts).
          if length nums \<noteq> 4
          then perror cx ts (lit ''out geom(...) requires exactly 4 numbers (south,west,north,east)'')
          else rbind (expect cx RPAREN ts) (\<lambda>(_, ts). Inr (out\<lparr>o_geom_bbox := Some (bbox_of nums)\<rparr>, ts)))
      else Inr (out, ts))"

definition verbosities :: "(pystr \<times> verbosity) list" where
  "verbosities = [(lit ''ids'', VIds), (lit ''skel'', VSkel), (lit ''body'', VBody), (lit ''tags'', VTags), (lit ''meta'', VMeta)]"

definition out_word :: "pctx \<Rightarrow> pystr \<Rightarrow> out_spec \<Rightarrow> token list \<Rightarrow> out_spec pres" where
  "out_word cx word out ts =
     (case map_of verbosities word of
        Some v \<Rightarrow> Inr (out\<lparr>o_verbosity := v\<rparr>, tl ts)
      | None \<Rightarrow>
          if word = lit ''noids'' then Inr (out\<lparr>o_noids := True\<rparr>, tl ts)
          else if word = lit ''geom'' then parse_out_geom cx (out\<lparr>o_geometry := GGeom\<rparr>) (tl ts)
          else if word = lit ''bb'' then Inr (out\<lparr>o_geometry := GBb\<rparr>, tl ts)
          else if word = lit ''center'' then Inr (out\<lparr>o_geometry := GCenter\<rparr>, tl ts)
          else if word = lit ''qt'' then Inr (out\<lparr>o_order := OQt\<rparr>, tl ts)
          else if word = lit ''asc'' then Inr (out\<lparr>o_order := OAsc\<rparr>, tl ts)
          else if word = lit ''count'' then Inr (out\<lparr>o_count := True\<rparr>, tl ts)
          else perror cx ts (lit ''unknown '' @ quote1 (lit ''out'') @ lit '' modifier '' @ quote1 word))"

fun out_loop :: "nat \<Rightarrow> pctx \<Rightarrow> out_spec \<Rightarrow> token list \<Rightarrow> out_spec pres" where
  "out_loop 0 cx out ts = Inl OutOfFuel"
| "out_loop (Suc n) cx out ts =
     (if check cx SEMI ts then Inr (out, tl ts)
      else if check cx IDENT ts then
        rbind (out_word cx (t_text (cur cx ts)) out ts) (\<lambda>(out, ts). out_loop n cx out ts)
      else if check cx NUMBER ts then
        rbind (num_value (cur cx ts)) (\<lambda>x. rbind (int_of_float x) (\<lambda>i. out_loop n cx (out\<lparr>o_limit := Some i\<rparr>) (tl ts)))
      else perror cx ts (lit ''unexpected token '' @ label (cur cx ts) @ lit '' in '' @ quote1 (lit ''out'') @ lit '' statement''))"

definition parse_out :: "pctx \<Rightarrow> pystr \<Rightarrow> token list \<Rightarrow> statement pres" where
  "parse_out cx input_set ts =
     rbind (out_loop (length ts + 1) cx (default_out input_set) ts) (\<lambda>(out, ts). Inr (Out out, ts))"

definition parse_dot_statement :: "pctx \<Rightarrow> token list \<Rightarrow> statement pres" where
  "parse_dot_statement cx ts =
     rbind (expect_ident_text cx (tl ts)) (\<lambda>(name, ts).
       if check cx IDENT ts \<and> t_text (cur cx ts) = lit ''is_in'' then parse_is_in cx name (tl ts)
       else if check cx IDENT ts \<and> t_text (cur cx ts) = lit ''map_to_area'' then parse_map_to_area cx name (tl ts)
       else if check cx IDENT ts \<and> t_text (cur cx ts) = lit ''out'' then parse_out cx name (tl ts)
       else if recurse_kind_of (t_type (cur cx ts)) \<noteq> None then parse_recurse_op cx name ts
       else rbind (output_semi cx ts) (\<lambda>(out, ts). Inr (Item name out, ts)))"

definition timeline_types :: "(string \<times> string) list" where
  "timeline_types = [(''node'', ''node''), (''way'', ''way''), (''relation'', ''relation''), (''rel'', ''relation'')]"

definition parse_timeline :: "pctx \<Rightarrow> token list \<Rightarrow> statement pres" where
  "parse_timeline cx ts =
     rbind (expect cx LPAREN (tl ts)) (\<lambda>(_, ts).
     rbind (expect_ident_text cx ts) (\<lambda>(type_word, ts).
       case map_of (map (\<lambda>(k, v). (lit k, v)) timeline_types) type_word of
         None \<Rightarrow> perror cx ts (lit ''unknown element type '' @ quote1 type_word @ lit '' in timeline(...)'')
       | Some element_type \<Rightarrow>
           rbind (expect cx COMMA ts) (\<lambda>(_, ts).
           rbind (parse_int cx ts) (\<lambda>(element_id, ts).
           rbind (if check cx COMMA ts then rbind (parse_int cx (tl ts)) (\<lambda>(v, ts). Inr (Some v, ts)) else Inr (None, ts))
             (\<lambda>(version, ts).
           rbind (expect cx RPAREN ts) (\<lambda>(_, ts).
           rbind (output_semi cx ts) (\<lambda>(out, ts). Inr (Timeline element_type element_id version out, ts))))))))"

section \<open>Unsupported statements\<close>

text \<open>Depth counters are integers: an unmatched \<open>)\<close> makes them negative.\<close>

fun to_brace_loop :: "pctx \<Rightarrow> string \<Rightarrow> int \<Rightarrow> token list \<Rightarrow> token pres" where
  "to_brace_loop cx keyword depth_paren [] = perror cx [] (lit ''expected '' @ quote1 (lit ''{'') @ lit '' after '' @ quote1 (lit keyword))"
| "to_brace_loop cx keyword depth_paren (t # ts) =
     (if t_type t = LBRACE \<and> depth_paren = 0 then Inr (t, ts)
      else to_brace_loop cx keyword
             (if t_type t = LPAREN then depth_paren + 1 else if t_type t = RPAREN then depth_paren - 1 else depth_paren) ts)"

fun close_brace_loop :: "pctx \<Rightarrow> string \<Rightarrow> int \<Rightarrow> token \<Rightarrow> token list \<Rightarrow> token pres" where
  "close_brace_loop cx keyword depth_brace end_tok ts =
     (if depth_brace \<le> 0 then Inr (end_tok, ts)
      else case ts of
        [] \<Rightarrow> perror cx [] (lit ''unbalanced '' @ quote1 (lit ''{'') @ lit '' '' @ quote1 (lit ''}'') @ lit '' in '' @ quote1 (lit keyword) @ lit '' block'')
      | t # ts' \<Rightarrow>
          close_brace_loop cx keyword
            (if t_type t = LBRACE then depth_brace + 1 else if t_type t = RBRACE then depth_brace - 1 else depth_brace) t ts')"

declare close_brace_loop.simps [simp del]

definition parse_unsupported_block :: "pctx \<Rightarrow> string \<Rightarrow> token list \<Rightarrow> statement pres" where
  "parse_unsupported_block cx keyword ts =
     (let start_offset = t_start (cur cx ts)
      in rbind (to_brace_loop cx keyword 0 (tl ts)) (\<lambda>(brace, ts).
         rbind (close_brace_loop cx keyword 1 brace ts) (\<lambda>(end_tok, ts).
           let (end_offset, ts) = (if check cx SEMI ts then (t_end (cur cx ts), tl ts) else (t_end end_tok, ts))
           in Inr (Unsupported keyword (stripped cx start_offset end_offset), ts))))"

fun simple_loop :: "pctx \<Rightarrow> string \<Rightarrow> nat \<Rightarrow> int \<Rightarrow> int \<Rightarrow> token list \<Rightarrow> statement pres" where
  "simple_loop cx keyword start_offset depth_paren depth_brace [] =
     perror cx [] (lit ''missing '' @ quote1 (lit '';'') @ lit '' after '' @ quote1 (lit keyword) @ lit '' statement'')"
| "simple_loop cx keyword start_offset depth_paren depth_brace (tok # ts) =
     (if t_type tok = SEMI \<and> depth_paren = 0 \<and> depth_brace = 0
      then Inr (Unsupported keyword (stripped cx start_offset (t_end tok)), ts)
      else simple_loop cx keyword start_offset
             (if t_type tok = LPAREN then depth_paren + 1 else if t_type tok = RPAREN then depth_paren - 1 else depth_paren)
             (if t_type tok = LBRACE then depth_brace + 1 else if t_type tok = RBRACE then depth_brace - 1 else depth_brace) ts)"

definition parse_unsupported_simple :: "pctx \<Rightarrow> string \<Rightarrow> token list \<Rightarrow> statement pres" where
  "parse_unsupported_simple cx keyword ts = simple_loop cx keyword (t_start (cur cx ts)) 0 0 (tl ts)"

section \<open>Blocks\<close>

text \<open>The methods below take \<open>stmt\<close>, the method \<open>parse_statement\<close> they call.\<close>

type_synonym stmt_parser = "token list \<Rightarrow> statement option pres"

definition append_stmt :: "statement option \<Rightarrow> statement list \<Rightarrow> statement list" where
  "append_stmt s xs = (case s of None \<Rightarrow> xs | Some x \<Rightarrow> xs @ [x])"

fun block_loop :: "nat \<Rightarrow> stmt_parser \<Rightarrow> pctx \<Rightarrow> token list \<Rightarrow> statement list list \<Rightarrow> statement list \<Rightarrow> statement list list pres" where
  "block_loop 0 stmt cx ts prev lst = Inl OutOfFuel"
| "block_loop (Suc n) stmt cx ts prev lst =
     (if check cx RPAREN ts then Inr (prev @ [lst], ts)
      else if check cx MINUS ts then block_loop n stmt cx (tl ts) (prev @ [lst]) []
      else if at_end cx ts
        then perror cx ts (lit ''unbalanced '' @ quote1 (lit ''('') @ lit '' '' @ quote1 (lit '')'') @ lit '' in union/difference block'')
      else rbind (stmt ts) (\<lambda>(s, ts). block_loop n stmt cx ts prev (append_stmt s lst)))"

definition one_or_union :: "statement list \<Rightarrow> statement" where
  "one_or_union xs = (case xs of [x] \<Rightarrow> x | _ \<Rightarrow> Union_stmt xs default_set)"

definition parse_block :: "stmt_parser \<Rightarrow> pctx \<Rightarrow> token list \<Rightarrow> statement pres" where
  "parse_block stmt cx ts =
     rbind (expect cx LPAREN ts) (\<lambda>(_, ts).
     rbind (block_loop (length ts + 1) stmt cx ts [] []) (\<lambda>(parts, ts).
     rbind (expect cx RPAREN ts) (\<lambda>(_, ts).
     rbind (output_semi cx ts) (\<lambda>(out, ts).
       case parts of
         [p] \<Rightarrow> Inr (Union_stmt p out, ts)
       | [p, q] \<Rightarrow> Inr (Difference (one_or_union p) (one_or_union q) out, ts)
       | _ \<Rightarrow> perror cx ts (lit ''too many '' @ quote1 (lit ''-'') @ lit '' separators in a difference block (expected exactly one)'')))))"

fun body_loop :: "nat \<Rightarrow> stmt_parser \<Rightarrow> pctx \<Rightarrow> pystr \<Rightarrow> token list \<Rightarrow> statement list \<Rightarrow> statement list pres" where
  "body_loop 0 stmt cx what ts body = Inl OutOfFuel"
| "body_loop (Suc n) stmt cx what ts body =
     (if check cx RBRACE ts then Inr (body, ts)
      else if at_end cx ts
        then perror cx ts (lit ''unbalanced '' @ quote1 (lit ''{'') @ lit '' '' @ quote1 (lit ''}'') @ lit '' in '' @ what @ lit '' block'')
      else rbind (stmt ts) (\<lambda>(s, ts). body_loop n stmt cx what ts (append_stmt s body)))"

text \<open>\<open>self.expect(LBRACE)\<close>, the loop, \<open>self.expect(RBRACE)\<close>.\<close>

definition parse_body :: "stmt_parser \<Rightarrow> pctx \<Rightarrow> pystr \<Rightarrow> token list \<Rightarrow> statement list pres" where
  "parse_body stmt cx what ts =
     rbind (expect cx LBRACE ts) (\<lambda>(_, ts).
     rbind (body_loop (length ts + 1) stmt cx what ts []) (\<lambda>(body, ts).
     rbind (expect cx RBRACE ts) (\<lambda>(_, ts). Inr (body, ts))))"

definition parse_foreach :: "stmt_parser \<Rightarrow> pctx \<Rightarrow> token list \<Rightarrow> statement pres" where
  "parse_foreach stmt cx ts =
     rbind (parse_dot_set cx default_set id (tl ts)) (\<lambda>(input_set, ts).
     rbind (parse_output_set cx ts) (\<lambda>(output_set, ts).
     rbind (parse_body stmt cx (lit ''foreach'') ts) (\<lambda>(body, ts). Inr (Foreach input_set output_set body, ts))))"

definition parse_if_statement :: "stmt_parser \<Rightarrow> pctx \<Rightarrow> token list \<Rightarrow> statement pres" where
  "parse_if_statement stmt cx ts =
     rbind (expect cx LPAREN (tl ts)) (\<lambda>(_, ts).
     rbind (capture_until_matching_rparen cx ts) (\<lambda>(condition, ts).
     rbind (expect cx RPAREN ts) (\<lambda>(_, ts).
     rbind (parse_body stmt cx (lit ''if'') ts) (\<lambda>(then_stmts, ts).
       if check cx IDENT ts \<and> t_text (cur cx ts) = lit ''else''
       then rbind (parse_body stmt cx (lit ''else'') (tl ts)) (\<lambda>(otherwise, ts). Inr (If_stmt condition then_stmts otherwise, ts))
       else Inr (If_stmt condition then_stmts [], ts)))))"

definition parse_retro :: "stmt_parser \<Rightarrow> pctx \<Rightarrow> token list \<Rightarrow> statement pres" where
  "parse_retro stmt cx ts =
     rbind (expect cx LPAREN (tl ts)) (\<lambda>(_, ts).
     rbind (capture_until_matching_rparen cx ts) (\<lambda>(time_expr, ts).
     rbind (expect cx RPAREN ts) (\<lambda>(_, ts).
     rbind (parse_body stmt cx (quote1 (lit ''retro'')) ts) (\<lambda>(body, ts). Inr (Retro time_expr body, ts)))))"

definition some_stmt :: "statement pres \<Rightarrow> statement option pres" where
  "some_stmt r = rbind r (\<lambda>(s, ts). Inr (Some s, ts))"

definition parse_keyword :: "stmt_parser \<Rightarrow> pctx \<Rightarrow> pystr \<Rightarrow> token list \<Rightarrow> statement pres" where
  "parse_keyword stmt cx word ts =
     (case keyword_types word of
        Some types \<Rightarrow> parse_query cx types ts
      | None \<Rightarrow>
          if word = lit ''out'' then parse_out cx default_set (tl ts)
          else if word = lit ''foreach'' then parse_foreach stmt cx ts
          else if word = lit ''if'' then parse_if_statement stmt cx ts
          else if word = lit ''is_in'' then parse_is_in cx default_set (tl ts)
          else if word = lit ''map_to_area'' then parse_map_to_area cx default_set (tl ts)
          else if word = lit ''retro'' then parse_retro stmt cx ts
          else if word = lit ''timeline'' then parse_timeline cx ts
          else if word = lit ''for'' then parse_unsupported_block cx ''for'' ts
          else if word = lit ''complete'' then parse_unsupported_block cx ''complete'' ts
          else if word = lit ''compare'' then parse_unsupported_block cx ''compare'' ts
          else if word = lit ''make'' then parse_unsupported_simple cx ''make'' ts
          else if word = lit ''convert'' then parse_unsupported_simple cx ''convert'' ts
          else if word = lit ''local'' then parse_unsupported_simple cx ''local'' ts
          else perror cx ts (lit ''unknown statement '' @ quote1 word))"

fun parse_statement :: "nat \<Rightarrow> pctx \<Rightarrow> token list \<Rightarrow> statement option pres" where
  "parse_statement 0 cx ts = Inl OutOfFuel"
| "parse_statement (Suc f) cx ts =
     (if check cx SEMI ts then Inr (None, tl ts)
      else let tok = cur cx ts in
        if t_type tok = LPAREN then some_stmt (parse_block (parse_statement f cx) cx ts)
        else if t_type tok = DOT then some_stmt (parse_dot_statement cx ts)
        else if recurse_kind_of (t_type tok) \<noteq> None then some_stmt (parse_recurse_op cx default_set ts)
        else if t_type tok = IDENT then some_stmt (parse_keyword (parse_statement f cx) cx (t_text tok) ts)
        else perror cx ts (lit ''unexpected token '' @ label tok))"

fun program_loop :: "nat \<Rightarrow> nat \<Rightarrow> pctx \<Rightarrow> token list \<Rightarrow> statement list \<Rightarrow> statement list pres" where
  "program_loop 0 f cx ts statements = Inl OutOfFuel"
| "program_loop (Suc n) f cx ts statements =
     (if at_end cx ts then Inr (statements, ts)
      else rbind (parse_statement f cx ts) (\<lambda>(s, ts). program_loop n f cx ts (append_stmt s statements)))"

definition parse_program :: "pctx \<Rightarrow> token list \<Rightarrow> program result" where
  "parse_program cx ts =
     rbind (parse_settings cx ts) (\<lambda>(settings, ts).
     rbind (program_loop (length ts + 1) (length ts + 1) cx ts []) (\<lambda>(stmts, ts).
       Inr \<lparr>p_settings = settings, p_statements = stmts\<rparr>))"

definition parse :: "unicode_db \<Rightarrow> pystr \<Rightarrow> program result" where
  "parse u text = rbind (tokenize u text) (\<lambda>tokens. parse_program \<lparr>cx_udb = u, cx_text = text\<rparr> (butlast tokens))"

end
