(* ===== verification/Lexer_Correct.thy ===== *)
theory Lexer_Correct
  imports Lexer
begin

text \<open>
  The tokenizer covers the text: tokens are consecutive slices of it with their positions, and
  what lies between them is whitespace and comments. Quoted strings decode to the text they
  were printed from.
\<close>

definition is_blank :: "nat \<Rightarrow> bool" where
  "is_blank c \<longleftrightarrow> c = 32 \<or> c = 9 \<or> c = 13 \<or> c = 10"

inductive blank :: "pystr \<Rightarrow> nat \<Rightarrow> nat \<Rightarrow> bool" for "text" where
  blank_refl: "blank text i i"
| blank_space: "i < length text \<Longrightarrow> is_blank (text ! i) \<Longrightarrow> blank text (i + 1) j \<Longrightarrow> blank text i j"
| blank_line: "i + 1 < length text \<Longrightarrow> text ! i = 47 \<Longrightarrow> text ! (i + 1) = 47 \<Longrightarrow> i < k \<Longrightarrow> k \<le> length text \<Longrightarrow>
    \<forall>m. i \<le> m \<and> m < k \<longrightarrow> text ! m \<noteq> 10 \<Longrightarrow> k = length text \<or> text ! k = 10 \<Longrightarrow> blank text k j \<Longrightarrow> blank text i j"
| blank_block: "i + 1 < length text \<Longrightarrow> text ! i = 47 \<Longrightarrow> text ! (i + 1) = 42 \<Longrightarrow> i + 2 \<le> k \<Longrightarrow> k + 1 < length text \<Longrightarrow>
    text ! k = 42 \<Longrightarrow> text ! (k + 1) = 47 \<Longrightarrow> blank text (k + 2) j \<Longrightarrow> blank text i j"

text \<open>
  The line and column of an offset: so many whole lines lie before it, and so many characters of its own line.
\<close>

definition text_position :: "pystr \<Rightarrow> nat \<Rightarrow> nat \<Rightarrow> nat \<Rightarrow> bool" where
  "text_position text off line col \<longleftrightarrow> off \<le> length text \<and>
     (\<exists>ls rest. take off text = concat (map (\<lambda>l. l @ [10]) ls) @ rest \<and> (\<forall>l\<in>set ls. 10 \<notin> set l) \<and> 10 \<notin> set rest \<and>
        line = length ls + 1 \<and> col = length rest + 1)"

lemma split_lines: "\<exists>ls rest. (s :: pystr) = concat (map (\<lambda>l. l @ [10]) ls) @ rest \<and> (\<forall>l\<in>set ls. 10 \<notin> set l) \<and> 10 \<notin> set rest"
proof (induction "length s" arbitrary: s rule: less_induct)
  case less
  show ?case
  proof (cases "10 \<in> set s")
    case False
    then show ?thesis by (intro exI [of _ "[]"] exI [of _ s]) simp
  next
    case True
    then obtain l s' where s: "s = l @ 10 # s'" "10 \<notin> set l" by (meson split_list_first)
    then obtain ls rest where "s' = concat (map (\<lambda>l. l @ [10]) ls) @ rest" "\<forall>l\<in>set ls. 10 \<notin> set l" "10 \<notin> set rest"
      using less.hyps [of s'] by auto
    then show ?thesis using s by (intro exI [of _ "l # ls"] exI [of _ rest]) simp
  qed
qed

lemma count_lines: "\<forall>l\<in>set ls. (10 :: nat) \<notin> set l \<Longrightarrow> count_list (concat (map (\<lambda>l. l @ [10]) ls)) 10 = length ls"
  by (induction ls) (simp_all add: count_list_append)

lemma line_col_position:
  assumes "off \<le> length text"
  shows "text_position text off (fst (line_col text off)) (snd (line_col text off))"
proof -
  obtain ls rest where t: "take off text = concat (map (\<lambda>l. l @ [10]) ls) @ rest" "\<forall>l\<in>set ls. 10 \<notin> set l" "10 \<notin> set rest"
    using split_lines by blast
  let ?ls = "concat (map (\<lambda>l. l @ [10 :: nat]) ls)"
  have len: "length ?ls + length rest = off" using arg_cong [OF t(1), of length] assms by simp
  have "takeWhile (\<lambda>c. c \<noteq> 10) (rev (?ls @ rest)) = rev rest"
  proof (cases ls rule: rev_cases)
    case Nil
    then show ?thesis using t(3) by (auto simp: takeWhile_eq_all_conv)
  next
    case (snoc ls' l)
    then have "rev (?ls @ rest) = rev rest @ 10 # rev (concat (map (\<lambda>l. l @ [10]) ls') @ l)" by simp
    then show ?thesis using t(3) by (simp only:) (simp add: takeWhile_append)
  qed
  then have "line_col text off = (length ls + 1, length rest + 1)"
    using len t(2,3) by (simp add: line_col_def t(1) Let_def count_lines count_list_append count_notin)
  then show ?thesis using assms t unfolding text_position_def by auto
qed

definition value_ok :: "token \<Rightarrow> bool" where
  "value_ok t \<longleftrightarrow> (t_type t = STRING \<longrightarrow> (\<exists>s. t_value t = VStr s)) \<and> (t_type t = NUMBER \<longrightarrow> (\<exists>x. t_value t = VNum x))"

definition tok_ok :: "pystr \<Rightarrow> token \<Rightarrow> bool" where
  "tok_ok text t \<longleftrightarrow> t_start t < t_end t \<and> t_end t \<le> length text \<and> t_text t = slice text (t_start t) (t_end t) \<and>
     text_position text (t_start t) (t_line t) (t_col t) \<and> t_type t \<noteq> EOF \<and> value_ok t"

fun chain :: "pystr \<Rightarrow> nat \<Rightarrow> token list \<Rightarrow> bool" where
  "chain text i [] \<longleftrightarrow> blank text i (length text)"
| "chain text i (t # ts) \<longleftrightarrow> blank text i (t_start t) \<and> tok_ok text t \<and> chain text (t_end t) ts"

definition err_at :: "pystr \<Rightarrow> py_error \<Rightarrow> bool" where
  "err_at text e \<longleftrightarrow> (\<exists>off line col msg. text_position text off line col \<and> e = ParseError msg (Some line) (Some col))"

definition err_ok :: "pystr \<Rightarrow> py_error \<Rightarrow> bool" where
  "err_ok text e \<longleftrightarrow> err_at text e \<or> e = ValueError \<or> e = OverflowError"

text \<open>A tokenizer error that is not at a position is that of a number, from digits that Python does not convert.\<close>

definition lex_err :: "unicode_db \<Rightarrow> pystr \<Rightarrow> py_error \<Rightarrow> bool" where
  "lex_err u text e \<longleftrightarrow> err_at text e \<or>
     (\<exists>i j. i < j \<and> j \<le> length text \<and> isdigit u (text ! i) \<and> float_of_text u (slice text i j) = Inl e)"

lemma lex_err_ok: "lex_err u text e \<Longrightarrow> err_ok text e"
  using float_of_text_errors by (auto simp: lex_err_def err_ok_def)

lemma err_ok_ValueError [simp]: "err_ok text ValueError" "err_ok text OverflowError"
  by (simp_all add: err_ok_def)

lemma parse_error_at_pos [simp]: "off \<le> length text \<Longrightarrow> err_at text (parse_error_at text off msg)"
  using line_col_position [of off "text"] by (auto simp: err_at_def parse_error_at_def split: prod.splits)

section \<open>One step\<close>

lemma find_newline_first: "find_newline text i = Some j \<Longrightarrow> i \<le> m \<Longrightarrow> m < j \<Longrightarrow> text ! m \<noteq> 10"
proof (induction "text" i rule: find_newline.induct)
  case (1 s i)
  then show ?case unfolding find_newline.simps [of s i]
    by (cases "m = i") (auto split: if_splits)
qed

lemma find_newline_None: "find_newline text i = None \<Longrightarrow> i \<le> m \<Longrightarrow> m < length text \<Longrightarrow> text ! m \<noteq> 10"
proof (induction "text" i rule: find_newline.induct)
  case (1 s i)
  then show ?case unfolding find_newline.simps [of s i]
    by (cases "m = i") (auto split: if_splits)
qed

lemma find_close_text: "find_close text i = Some j \<Longrightarrow> text ! j = 42 \<and> text ! (j + 1) = 47"
proof (induction "text" i rule: find_close.induct)
  case (1 s i)
  then show ?case unfolding find_close.simps [of s i] by (auto split: if_splits)
qed

lemma single_char_not_EOF: "map_of single_char_map c = Some ty \<Longrightarrow> ty \<noteq> EOF \<and> ty \<noteq> STRING \<and> ty \<noteq> NUMBER"
  by (auto simp: single_char_map_def split: if_splits)

lemma two_char_not_EOF: "two_char c d = Some ty \<Longrightarrow> ty \<noteq> EOF \<and> ty \<noteq> STRING \<and> ty \<noteq> NUMBER"
  by (auto simp: two_char_def split: if_splits)

lemma emit_ok:
  assumes "lex_one u text i = Inr (Emit t)"
  shows "\<exists>j ty v. t = mk_token text i j ty v \<and> ty \<noteq> EOF \<and> (ty = STRING \<longrightarrow> (\<exists>s. v = VStr s)) \<and> (ty = NUMBER \<longrightarrow> (\<exists>x. v = VNum x))"
  using assms by (cases rule: lex_one_cases) (auto dest: single_char_not_EOF two_char_not_EOF)

lemma lex_one_Emit:
  assumes i: "i < length text" and s: "lex_one u text i = Inr (Emit t)"
  shows "tok_ok text t \<and> t_start t = i"
proof -
  obtain j ty v where t: "t = mk_token text i j ty v" "ty \<noteq> EOF" "ty = STRING \<longrightarrow> (\<exists>s. v = VStr s)"
    "ty = NUMBER \<longrightarrow> (\<exists>x. v = VNum x)" using emit_ok [OF s] by blast
  then show ?thesis
    using lex_one_progress [OF i s] line_col_position [of i "text"] i by (simp add: tok_ok_def step_end_def value_ok_def)
qed

lemma lex_one_Skip:
  assumes i: "i < length text" and s: "lex_one u text i = Inr (Skip j)" and b: "blank text j k"
  shows "blank text i k"
  using s
proof (cases rule: lex_one_cases)
  case Blank
  then show ?thesis using blank_space [OF i] b by (simp add: is_blank_def)
next
  case Line
  have ij: "i < j \<and> j \<le> length text"
    using lex_one_progress [OF i s] by (simp add: step_end_def)
  show ?thesis
  proof (rule blank_line [where k = j])
    show "\<forall>m. i \<le> m \<and> m < j \<longrightarrow> text ! m \<noteq> 10" "j = length text \<or> text ! j = 10"
      using Line(4) find_newline_first [of "text" i j] find_newline_None [of "text" i] find_newline_Some [of "text" i j]
      by (auto split: option.splits)
  qed (use Line ij b in auto)
next
  case (Block m)
  show ?thesis
    by (rule blank_block [where k = m])
       (use Block find_close_text [OF Block(4)] find_close_Some [OF Block(4)] b in auto)
qed simp_all

lemma read_string_loop_error:
  "i \<le> length text \<Longrightarrow> read_string_loop text i q j out = Inl e \<Longrightarrow> err_at text e"
proof (induction "length text - j" arbitrary: j out rule: less_induct)
  case less
  have IH: "read_string_loop text i q j' out' = Inl e \<Longrightarrow> j < j' \<Longrightarrow> j < length text \<Longrightarrow> err_at text e" for j' out'
    using less.hyps [of j' out'] less.prems(1) by simp
  show ?case
    using less.prems unfolding read_string_loop.simps [of "text" i q j out] Let_def
    by (auto split: if_splits option.splits dest!: IH)
qed

lemma lex_one_error:
  assumes i: "i < length text" and e: "lex_one u text i = Inl e"
  shows "lex_err u text e"
proof -
  have "lex_err u text e" if "isdigit u (text ! i)" "float_of_text u (slice text i (number_end u text i)) = Inl e"
    using that number_end_bounds [OF i, of u] by (auto simp: lex_err_def)
  moreover have "lex_err u text e" if "read_string text i = Inl e"
    using read_string_loop_error [of i "text"] that i by (simp add: read_string_def lex_err_def)
  moreover have "lex_err u text (parse_error_at text i msg)" for msg using i by (simp add: lex_err_def)
  moreover define d where "d = (if i + 1 < length text then Some (text ! (i + 1)) else None)"
  ultimately show ?thesis
    using e unfolding lex_one_def Let_def d_def [symmetric]
    by (auto simp: rbind_eq_Inl split: if_split_asm option.split_asm)
qed

section \<open>The whole text\<close>

lemma tokenize_loop_chain:
  "i \<le> length text \<Longrightarrow> tokenize_loop u text i acc = Inr ts \<Longrightarrow>
   \<exists>new. ts = acc @ new @ [mk_token text (length text) (length text) EOF VNone] \<and> chain text i new"
proof (induction "length text - i" arbitrary: i acc rule: less_induct)
  case less
  show ?case
  proof (cases "i < length text")
    case False
    then have "chain text i []" using less.prems by (simp add: blank_refl)
    then show ?thesis using less.prems False unfolding tokenize_loop.simps [of u "text" i]
      by (intro exI [of _ "[]"]) simp
  next
    case True
    obtain s where s: "lex_one u text i = Inr s"
      using less.prems True by (auto simp: tokenize_loop.simps [of u "text" i] split: sum.splits)
    note pr = lex_one_progress [OF True s]
    show ?thesis
    proof (cases s)
      case (Skip j)
      then have "tokenize_loop u text j acc = Inr ts"
        using less.prems True s by (simp add: tokenize_loop.simps [of u "text" i])
      then obtain new where new: "ts = acc @ new @ [mk_token text (length text) (length text) EOF VNone]" "chain text j new"
        using less.hyps [of j acc] pr Skip True by (auto simp: step_end_def diff_less_mono2)
      then have "chain text i new" using lex_one_Skip [OF True] s Skip by (cases new) auto
      then show ?thesis using new by blast
    next
      case (Emit t)
      then have "tokenize_loop u text (t_end t) (acc @ [t]) = Inr ts"
        using less.prems True s by (simp add: tokenize_loop.simps [of u "text" i])
      then obtain new where new: "ts = (acc @ [t]) @ new @ [mk_token text (length text) (length text) EOF VNone]"
        "chain text (t_end t) new"
        using less.hyps [of "t_end t" "acc @ [t]"] pr Emit True by (auto simp: step_end_def diff_less_mono2)
      then show ?thesis
        using lex_one_Emit [OF True] s Emit by (intro exI [of _ "t # new"]) (auto intro: blank_refl)
    qed
  qed
qed

lemma tokenize_loop_error: "tokenize_loop u text i acc = Inl e \<Longrightarrow> lex_err u text e"
proof (induction "length text - i" arbitrary: i acc rule: less_induct)
  case less
  then have i: "i < length text" by (auto simp: tokenize_loop.simps [of u "text" i] split: if_splits)
  show ?case
  proof (cases "lex_one u text i")
    case (Inl e')
    then show ?thesis using less.prems i lex_one_error [OF i Inl] by (simp add: tokenize_loop.simps [of u "text" i])
  next
    case (Inr s)
    note pr = lex_one_progress [OF i Inr]
    have IH: "lex_err u text e" if "tokenize_loop u text (step_end s) acc' = Inl e" for acc'
      using less.hyps [OF _ that] pr i by (simp add: diff_less_mono2)
    show ?thesis
      using less.prems i Inr IH by (cases s) (auto simp: tokenize_loop.simps [of u "text" i] step_end_def)
  qed
qed

lemma tokenize_Inr:
  assumes "tokenize u text = Inr ts"
  obtains toks where "ts = toks @ [mk_token text (length text) (length text) EOF VNone]" "chain text 0 toks"
  using tokenize_loop_chain [of 0 "text" u "[]" ts] assms by (auto simp: tokenize_def)

lemma chain_tok_ok: "chain text i ts \<Longrightarrow> t \<in> set ts \<Longrightarrow> tok_ok text t"
  by (induction ts arbitrary: i) auto

section \<open>String literals\<close>

definition escape1 :: "nat \<Rightarrow> pystr" where
  "escape1 c = (if c = 34 \<or> c = 92 then [92, c] else if c = 10 then [92, 110] else [c])"

definition quote_string :: "pystr \<Rightarrow> pystr" where
  "quote_string s = [34] @ concat (map escape1 s) @ [34]"

lemma drop_nthD: "drop j text = x # xs \<Longrightarrow> j < length text \<and> text ! j = x \<and> drop (Suc j) text = xs"
  by (metis Cons_nth_drop_Suc drop_all list.inject list.simps(3) not_le_imp_less)

lemma read_string_loop_quoted:
  "drop j text = concat (map escape1 s) @ 34 # post \<Longrightarrow>
   read_string_loop text i 34 j out = Inr (out @ s, j + length (concat (map escape1 s)) + 1)"
proof (induction s arbitrary: j out)
  case Nil
  then have "j < length text \<and> text ! j = 34" using drop_nthD [of j "text"] by simp
  then show ?case by (subst read_string_loop.simps) (simp add: Let_def)
next
  case (Cons c s)
  let ?rest = "concat (map escape1 s) @ 34 # post"
  show ?case
  proof (cases "c = 34 \<or> c = 92 \<or> c = 10")
    case False
    then have d: "drop j text = c # ?rest" using Cons.prems by (simp add: escape1_def [of c])
    then have "read_string_loop text i 34 (Suc j) (out @ [c]) = Inr ((out @ [c]) @ s, Suc j + length (concat (map escape1 s)) + 1)"
      using drop_nthD [OF d] by (intro Cons.IH) simp
    then show ?thesis
      using drop_nthD [OF d] False by (subst read_string_loop.simps) (simp add: Let_def escape1_def [of c])
  next
    case True
    then obtain e where e: "escape1 c = [92, e]" "map_of escapes e = Some c" "e \<noteq> 117"
      by (auto simp: escape1_def escapes_def)
    then have d: "drop j text = 92 # e # ?rest" using Cons.prems by simp
    from drop_nthD [OF d] have d2: "drop (Suc j) text = e # ?rest" by simp
    have "read_string_loop text i 34 (Suc (Suc j)) (out @ [c]) = Inr ((out @ [c]) @ s, Suc (Suc j) + length (concat (map escape1 s)) + 1)"
      using drop_nthD [OF d2] by (intro Cons.IH) simp
    then show ?thesis
      using drop_nthD [OF d] drop_nthD [OF d2] e by (subst read_string_loop.simps) (simp add: Let_def)
  qed
qed

lemma read_string_quoted:
  "read_string (pre @ quote_string s @ post) (length pre) = Inr (s, length pre + length (quote_string s))"
  using read_string_loop_quoted [of "length pre + 1" "pre @ quote_string s @ post" s post "length pre" "[]"]
  by (simp add: read_string_def quote_string_def nth_append)

end
