(* ===== verification/Parser_Total.thy ===== *)
theory Parser_Total
  imports Parser Lexer_Correct
begin

text \<open>
  Every parsing method consumes a prefix of the tokens or raises an error of the documented
  kinds at a position of the text. In particular no loop bound is ever exceeded: \<open>parse\<close>
  returns a program or raises.

  \<open>pok cx ts r\<close>: \<open>r\<close>, computed at the well-formed state \<open>ts\<close>, is an admissible error or leaves a
  suffix of \<open>ts\<close>; \<open>pok1\<close> is the same with a proper suffix. The rules for the combinators are
  collected in \<open>pok_ctl\<close>.
\<close>

definition toks_ok :: "pctx \<Rightarrow> token list \<Rightarrow> bool" where
  "toks_ok cx ts \<longleftrightarrow> (\<forall>t\<in>set ts. tok_ok (cx_text cx) t)"

definition pok :: "pctx \<Rightarrow> token list \<Rightarrow> 'a pres \<Rightarrow> bool" where
  "pok cx ts r \<longleftrightarrow> (toks_ok cx ts \<longrightarrow>
     (case r of Inl e \<Rightarrow> err_ok (cx_text cx) e | Inr (x, ts') \<Rightarrow> suffix ts' ts))"

definition pok1 :: "pctx \<Rightarrow> token list \<Rightarrow> 'a pres \<Rightarrow> bool" where
  "pok1 cx ts r \<longleftrightarrow> (toks_ok cx ts \<longrightarrow>
     (case r of Inl e \<Rightarrow> err_ok (cx_text cx) e | Inr (x, ts') \<Rightarrow> strict_suffix ts' ts))"

section \<open>Combinators\<close>

lemma toks_ok_suffix: "toks_ok cx ts \<Longrightarrow> suffix ts' ts \<Longrightarrow> toks_ok cx ts'"
  by (auto simp: toks_ok_def suffix_def)

lemma toks_ok_tl: "toks_ok cx ts \<Longrightarrow> toks_ok cx (tl ts)"
  using toks_ok_suffix suffix_tl by blast

lemma pok1_pok: "pok1 cx ts r \<Longrightarrow> pok cx ts r"
  by (auto simp: pok_def pok1_def strict_suffix_def split: sum.splits)

lemma pok_Inr: "pok cx ts (Inr (x, ts))" "pok cx ts (Inr (x, tl ts))"
  by (simp_all add: pok_def suffix_tl)

lemma pok_tl: "pok cx (tl ts) r \<Longrightarrow> pok cx ts r"
  using suffix_tl [of ts] toks_ok_tl [of cx ts]
  by (auto simp: pok_def split: sum.splits intro: suffix_order.trans)

lemma pok1_tl: "ts \<noteq> [] \<Longrightarrow> pok cx (tl ts) r \<Longrightarrow> pok1 cx ts r"
proof -
  assume n: "ts \<noteq> []" and p: "pok cx (tl ts) r"
  have "strict_suffix ts' ts" if "suffix ts' (tl ts)" for ts'
    using suffix_length_le [OF that] n that suffix_tl [of ts]
    by (metis length_greater_0_conv length_tl diff_less leD less_numeral_extra(1) strict_suffix_def suffix_order.trans)
  then show ?thesis using p toks_ok_tl [of cx ts] by (auto simp: pok_def pok1_def split: sum.splits)
qed

lemma pok1_Inr_tl: "ts \<noteq> [] \<Longrightarrow> pok1 cx ts (Inr (x, tl ts))"
  by (rule pok1_tl) (simp_all add: pok_Inr)

lemma pok_bind:
  assumes r: "pok cx ts r" and f: "\<And>x ts'. length ts' \<le> length ts \<Longrightarrow> pok cx ts' (f x ts')"
  shows "pok cx ts (rbind r (\<lambda>(x, ts). f x ts))"
proof (cases r)
  case (Inr p)
  obtain x ts' where p: "p = (x, ts')" by (cases p)
  have s: "toks_ok cx ts \<Longrightarrow> suffix ts' ts" using r Inr p by (simp add: pok_def)
  show ?thesis
    using f [of ts' x] s toks_ok_suffix [of cx ts ts'] suffix_length_le [of ts' ts] Inr p
    by (auto simp: pok_def split: sum.splits intro: suffix_order.trans)
qed (use r in \<open>simp add: pok_def\<close>)

lemma pok1_bind:
  assumes r: "pok1 cx ts r" and f: "\<And>x ts'. length ts' < length ts \<Longrightarrow> pok cx ts' (f x ts')"
  shows "pok1 cx ts (rbind r (\<lambda>(x, ts). f x ts))"
proof (cases r)
  case (Inr p)
  obtain x ts' where p: "p = (x, ts')" by (cases p)
  have s: "toks_ok cx ts \<Longrightarrow> strict_suffix ts' ts" using r Inr p by (simp add: pok1_def)
  show ?thesis
    using f [of ts' x] s toks_ok_suffix [of cx ts ts'] suffix_length_less [of ts' ts] Inr p
    by (auto simp: pok_def pok1_def strict_suffix_def split: sum.splits
        intro: suffix_order.trans dest: suffix_order.antisym)
qed (use r in \<open>simp add: pok1_def\<close>)

lemma pok_bind1:
  assumes r: "pok1 cx ts r" and f: "\<And>x ts'. length ts' < length ts \<Longrightarrow> pok cx ts' (f x ts')"
  shows "pok cx ts (rbind r (\<lambda>(x, ts). f x ts))"
  using pok1_pok [OF pok1_bind [OF r f]] .

lemma pok_if: "(c \<Longrightarrow> pok cx ts a) \<Longrightarrow> (\<not> c \<Longrightarrow> pok cx ts b) \<Longrightarrow> pok cx ts (if c then a else b)"
  by simp

lemma pok_case_prod: "(\<And>a b. x = (a, b) \<Longrightarrow> pok cx ts (f a b)) \<Longrightarrow> pok cx ts (case x of (a, b) \<Rightarrow> f a b)"
  by (cases x) simp

lemma pok_case_prod_fun: "(\<And>a b. x = (a, b) \<Longrightarrow> pok cx ts (f a b t)) \<Longrightarrow> pok cx ts ((case x of (a, b) \<Rightarrow> f a b) t)"
  by (cases x) simp

lemma pok_case_option:
  "(x = None \<Longrightarrow> pok cx ts a) \<Longrightarrow> (\<And>y. x = Some y \<Longrightarrow> pok cx ts (f y)) \<Longrightarrow>
   pok cx ts (case x of None \<Rightarrow> a | Some y \<Rightarrow> f y)"
  by (cases x) simp_all

lemma pok1_if: "(c \<Longrightarrow> pok1 cx ts a) \<Longrightarrow> (\<not> c \<Longrightarrow> pok1 cx ts b) \<Longrightarrow> pok1 cx ts (if c then a else b)"
  by simp

lemma pok1_case_option:
  "(x = None \<Longrightarrow> pok1 cx ts a) \<Longrightarrow> (\<And>y. x = Some y \<Longrightarrow> pok1 cx ts (f y)) \<Longrightarrow>
   pok1 cx ts (case x of None \<Rightarrow> a | Some y \<Rightarrow> f y)"
  by (cases x) simp_all

lemma pok_value:
  assumes "\<And>e. r = Inl e \<Longrightarrow> toks_ok cx ts \<Longrightarrow> err_ok (cx_text cx) e" and "\<And>x. pok cx ts (f x)"
  shows "pok cx ts (rbind r f)"
  using assms by (cases r) (auto simp: pok_def)

lemma pok1_value:
  assumes "\<And>e. r = Inl e \<Longrightarrow> toks_ok cx ts \<Longrightarrow> err_ok (cx_text cx) e" and "\<And>x. pok1 cx ts (f x)"
  shows "pok1 cx ts (rbind r f)"
  using assms by (cases r) (auto simp: pok1_def)

lemma err_ok_error_at: "toks_ok cx ts \<Longrightarrow> err_ok (cx_text cx) (error_at (cur cx ts) msg)"
proof (cases ts)
  case Nil
  then show ?thesis using line_col_position [of "length (cx_text cx)" "cx_text cx"]
    by (auto simp: err_ok_def err_at_def error_at_def eof_token_def)
next
  case (Cons t ts')
  assume "toks_ok cx ts"
  then have "text_position (cx_text cx) (t_start t) (t_line t) (t_col t)" using Cons by (simp add: toks_ok_def tok_ok_def)
  then show ?thesis using Cons by (auto simp: err_ok_def err_at_def error_at_def)
qed

lemma pok_perror: "pok cx ts (perror cx ts msg)"
  by (simp add: pok_def perror_def err_ok_error_at)

lemma pok1_perror: "pok1 cx ts (perror cx ts msg)"
  by (simp add: pok1_def perror_def err_ok_error_at)

lemma check_nonempty: "check cx ty ts \<Longrightarrow> ty \<noteq> EOF \<Longrightarrow> ts \<noteq> []"
  by (cases ts) (auto simp: eof_token_def)

lemma cur_value_ok: "toks_ok cx ts \<Longrightarrow> ts \<noteq> [] \<Longrightarrow> value_ok (cur cx ts)"
  by (cases ts) (auto simp: toks_ok_def tok_ok_def)

lemma num_value_error: "num_value (cur cx ts) = Inl e \<Longrightarrow> check cx NUMBER ts \<Longrightarrow> toks_ok cx ts \<Longrightarrow> err_ok tx e"
  using cur_value_ok [of cx ts] check_nonempty [of cx ts NUMBER] by (auto simp: num_value_def value_ok_def)

lemma str_value_error: "str_value (cur cx ts) = Inl e \<Longrightarrow> check cx STRING ts \<Longrightarrow> toks_ok cx ts \<Longrightarrow> err_ok tx e"
  using cur_value_ok [of cx ts] check_nonempty [of cx ts STRING] by (auto simp: str_value_def value_ok_def)

lemma int_of_float_err_ok: "int_of_float x = Inl e \<Longrightarrow> err_ok tx e"
  using int_of_float_errors [of x e] by auto

lemma rmap_error: "rmap f xs = Inl e \<Longrightarrow> \<exists>x\<in>set xs. f x = Inl e"
  by (induction xs) (auto simp: rbind_eq_Inl)

lemma pok_ints: "(\<And>x. pok cx ts (f x)) \<Longrightarrow> pok cx ts (rbind (rmap int_of_float nums) f)"
  by (rule pok_value) (auto dest!: rmap_error int_of_float_err_ok)

lemma pok_int: "(\<And>x. pok cx ts (f x)) \<Longrightarrow> pok cx ts (rbind (int_of_float v) f)"
  by (rule pok_value) (auto dest!: int_of_float_err_ok)

lemma pok_floats: "(\<And>x. pok cx ts (f x)) \<Longrightarrow> pok cx ts (rbind (rmap (float_of_text u) ws) f)"
  by (rule pok_value) (auto dest!: rmap_error float_of_text_errors)

lemmas pok_ctl = pok_if pok_case_prod pok_case_prod_fun pok_case_option pok_ints pok_int pok_floats pok_bind pok_Inr pok_perror

section \<open>Readers\<close>

lemma expect_pok1: "ty \<noteq> EOF \<Longrightarrow> pok1 cx ts (expect cx ty ts)"
  using check_nonempty [of cx ts ty] by (auto simp: expect_def intro: pok1_perror pok1_Inr_tl)

lemma expect_ident_pok1: "pok1 cx ts (expect_ident_text cx ts)"
  using check_nonempty [of cx ts IDENT] by (auto simp: expect_ident_text_def intro: pok1_perror pok1_Inr_tl)

lemma glue_loop_suffix: "suffix (snd (glue_loop p ts parts)) ts"
  by (induction p ts parts rule: glue_loop.induct) (auto intro: suffix_ConsI)

lemma bare_or_string_pok1: "pok1 cx ts (parse_bare_or_string cx ts)"
proof -
  have glue: "strict_suffix (snd (glue_loop None ts [])) ts" if g: "t_type (cur cx ts) \<in> set bare_glue_types"
  proof -
    obtain t us where t: "ts = t # us" using g by (cases ts) (auto simp: eof_token_def bare_glue_types_def)
    have "t_type t \<in> set bare_glue_types" using g unfolding t by simp
    then have "glue_loop None ts [] = glue_loop (Some (t_end t)) us (t_text t)" unfolding t by simp
    then have s: "suffix (snd (glue_loop None ts [])) us" by (simp add: glue_loop_suffix)
    have "suffix (snd (glue_loop None ts [])) ts" using suffix_ConsI [OF s, of t] t by simp
    moreover have "snd (glue_loop None ts []) \<noteq> ts" using suffix_length_le [OF s] t by fastforce
    ultimately show ?thesis by (simp add: strict_suffix_def)
  qed
  show ?thesis
  proof (cases "check cx STRING ts")
    case True
    then have "ts \<noteq> []" using check_nonempty [of cx ts STRING] by simp
    then show ?thesis
      using True str_value_error [of cx ts] pok1_Inr_tl
      unfolding parse_bare_or_string_def by (auto intro!: pok1_value)
  next
    case False
    then show ?thesis
      using glue pok1_perror
      by (auto simp: parse_bare_or_string_def pok1_def perror_def err_ok_error_at split: prod.splits)
  qed
qed

lemma string_value_pok1: "pok1 cx ts (expect_string_value cx ts)"
  by (simp add: expect_string_value_def bare_or_string_pok1)

lemma signed_number_pok1: "pok1 cx ts (parse_signed_number cx ts)"
proof -
  have num: "pok1 cx us (rbind (num_value (cur cx us)) (\<lambda>x. Inr (g x, tl us)))" if "check cx NUMBER us" for us g
    using that check_nonempty [OF that] num_value_error [of cx us] by (auto intro!: pok1_value pok1_Inr_tl)
  show ?thesis
  proof (cases "check cx MINUS ts")
    case True
    have ne: "ts \<noteq> []" using check_nonempty [OF True] by simp
    have "pok cx (tl ts) (if \<not> check cx NUMBER (tl ts) \<or> t_start (cur cx (tl ts)) \<noteq> t_end (cur cx ts)
        then perror cx (tl ts) (lit ''expected a number after '' @ quote1 (lit ''-''))
        else rbind (num_value (cur cx (tl ts))) (\<lambda>x. Inr (neg_float x, tl (tl ts))))"
      using num [of "tl ts" neg_float] by (auto intro: pok_perror pok1_pok)
    from pok1_tl [OF ne this] show ?thesis
      unfolding parse_signed_number_def Let_def if_P [OF True] .
  next
    case False
    then show ?thesis
      using num [of ts "\<lambda>x. x"] by (auto simp: parse_signed_number_def intro: pok1_perror)
  qed
qed

lemma parse_int_pok1: "pok1 cx ts (parse_int cx ts)"
  unfolding parse_int_def
  by (rule pok1_bind [OF signed_number_pok1]) (intro pok_ctl)

lemma comma_loop_pok: "(\<And>ts. pok cx ts (p ts)) \<Longrightarrow> length ts < n \<Longrightarrow> pok cx ts (comma_loop n cx p ts acc)"
proof (induction n arbitrary: ts acc)
  case (Suc n)
  show ?case
  proof (cases "check cx COMMA ts")
    case True
    then have ne: "ts \<noteq> []" using check_nonempty by blast
    have "pok cx (tl ts) (rbind (p (tl ts)) (\<lambda>(x, ts). comma_loop n cx p ts (acc @ [x])))"
    proof (rule pok_bind)
      show "pok cx (tl ts) (p (tl ts))" by (rule Suc.prems)
      show "pok cx ts' (comma_loop n cx p ts' (acc @ [x]))"
        if "length ts' \<le> length (tl ts)" for x ts'
        using Suc.IH [OF Suc.prems(1), of ts'] Suc.prems(2) that ne by (cases ts) auto
    qed
    then show ?thesis using True by (simp add: pok_tl)
  qed (simp add: pok_Inr)
qed simp

lemma comma_list_pok: "(\<And>ts. pok cx ts (p ts)) \<Longrightarrow> pok cx ts (comma_list cx p ts acc)"
  unfolding comma_list_def by (rule comma_loop_pok) auto

lemmas number_pok = signed_number_pok1 [THEN pok1_pok]
lemmas int_pok = parse_int_pok1 [THEN pok1_pok]
lemmas string_pok = string_value_pok1 [THEN pok1_pok]
lemmas bare_pok = bare_or_string_pok1 [THEN pok1_pok]
lemmas ident_pok = expect_ident_pok1 [THEN pok1_pok]

lemma expect_pok: "ty \<noteq> EOF \<Longrightarrow> pok cx ts (expect cx ty ts)"
  by (rule pok1_pok [OF expect_pok1])

lemmas reader_pok = number_pok int_pok string_pok bare_pok ident_pok expect_pok
lemmas reader_tl_pok = reader_pok [THEN pok_tl] reader_pok [THEN pok_tl, THEN pok_tl]

lemma number_list_pok1: "pok1 cx ts (parse_number_list cx ts)"
  unfolding parse_number_list_def
  by (rule pok1_bind [OF signed_number_pok1]) (intro comma_list_pok number_pok)

lemmas number_list_pok = number_list_pok1 [THEN pok1_pok]

lemma int_list_pok: "pok cx ts (parse_int_list cx ts)"
  unfolding parse_int_list_def
  by (intro pok_ctl number_list_pok)

lemma capture_loop_pok: "pok cx ts (capture_loop cx a b d ts)"
proof (induction cx a b d ts rule: capture_loop.induct)
  case (2 cx a b d tok ts)
  show ?case
  proof (cases "t_type tok = RPAREN \<and> d = 0")
    case False
    have "pok cx (tl (tok # ts)) (capture_loop cx a (t_end tok)
        (if t_type tok = LPAREN then d + 1 else if t_type tok = RPAREN then d - 1 else d) ts)"
      using 2 [OF False] by simp
    from pok_tl [OF this] show ?thesis unfolding capture_loop.simps if_not_P [OF False] .
  qed (simp add: pok_Inr)
qed (simp add: pok_perror)

lemma capture_pok: "pok cx ts (capture_until_matching_rparen cx ts)"
  by (simp add: capture_until_matching_rparen_def capture_loop_pok)

lemma output_set_pok: "pok cx ts (parse_output_set cx ts)"
  unfolding parse_output_set_def
  by (intro pok_ctl reader_pok reader_tl_pok; simp)

lemma output_semi_pok: "pok cx ts (output_semi cx ts)"
  unfolding output_semi_def by (intro pok_ctl output_set_pok reader_pok; simp)

lemma dot_set_pok: "pok cx ts (parse_dot_set cx d f ts)"
  unfolding parse_dot_set_def by (intro pok_ctl reader_tl_pok; simp)

section \<open>Settings\<close>

lemma csv_field_pok1: "pok1 cx ts (parse_csv_field cx ts)"
proof (cases "check cx COLON ts \<and> t_type (peek cx 1 ts) = COLON")
  case True
  then have ne: "ts \<noteq> []" using check_nonempty [of cx ts COLON] by simp
  have "pok cx (tl ts) (rbind (expect_ident_text cx (tl (tl ts))) (\<lambda>(s, ts). Inr (lit ''::'' @ s, ts)))"
    by (auto intro!: pok_bind reader_tl_pok pok_Inr)
  from pok1_tl [OF ne this] show ?thesis unfolding parse_csv_field_def if_P [OF True] .
next
  case False
  show ?thesis
  proof (cases "check cx STRING ts")
    case True
    then show ?thesis
      using False check_nonempty [of cx ts STRING] str_value_error [of cx ts]
      by (auto simp: parse_csv_field_def intro!: pok1_value pok1_Inr_tl)
  next
    case nstr: False
    show ?thesis unfolding parse_csv_field_def if_not_P [OF False] if_not_P [OF nstr] by (rule bare_or_string_pok1)
  qed
qed

lemma csv_loop_pok: "length ts < n \<Longrightarrow> pok cx ts (csv_loop n cx ts flds)"
proof (induction n arbitrary: ts flds)
  case (Suc n)
  have step: "pok cx ts' (if check cx COMMA ts' then csv_loop n cx (tl ts') (flds @ [f])
        else if \<not> (check cx SEMI ts' \<or> check cx RPAREN ts') then perror cx ts' m
        else csv_loop n cx ts' (flds @ [f]))" if "length ts' < length ts" for ts' f m
    using Suc.IH [of "tl ts'"] Suc.IH [of ts'] that Suc.prems by (auto intro: pok_perror pok_tl)
  show ?case
    by (auto intro!: pok_Inr pok_bind1 [OF csv_field_pok1] step)
qed simp

declare csv_loop.simps [simp del]

lemma csv_setting_pok: "pok cx ts (parse_csv_setting cx s ts)"
  unfolding parse_csv_setting_def Let_def
  by (intro pok_ctl reader_pok reader_tl_pok csv_loop_pok; simp)

lemma two_strings_pok: "pok cx ts (parse_two_strings cx ts)"
  unfolding parse_two_strings_def by (intro pok_ctl reader_pok reader_tl_pok; simp)

lemma setting_pok: "pok cx ts (parse_setting cx name s ts)"
  unfolding parse_setting_def
  by (intro pok_ctl reader_pok number_list_pok two_strings_pok csv_setting_pok; simp)

lemma settings_loop_pok: "length ts < n \<Longrightarrow> pok cx ts (settings_loop n cx s saw ts)"
proof (induction n arbitrary: ts s saw)
  case (Suc n)
  have rest: "pok cx us (rbind (expect cx COLON us) (\<lambda>(_, ts). rbind (parse_setting cx name s ts) (\<lambda>(s, ts).
      rbind (expect cx RBRACKET ts) (\<lambda>(_, ts). settings_loop n cx s True ts))))" if "length us < n" for us name
    using that by (auto intro!: pok_bind reader_pok setting_pok Suc.IH)
  have "pok cx (tl ts) (rbind (expect_ident_text cx (tl ts)) (\<lambda>(name, us). rbind (expect cx COLON us)
      (\<lambda>(_, ts). rbind (parse_setting cx name s ts) (\<lambda>(s, ts).
      rbind (expect cx RBRACKET ts) (\<lambda>(_, ts). settings_loop n cx s True ts)))))" if "check cx LBRACKET ts"
    using Suc.prems check_nonempty [OF that]
    by (cases ts) (auto intro!: pok_bind reader_pok setting_pok Suc.IH)
  then show ?case by (auto intro: pok_tl pok_Inr)
qed simp

declare settings_loop.simps [simp del]

lemma settings_pok: "pok cx ts (parse_settings cx ts)"
  unfolding parse_settings_def by (intro pok_ctl settings_loop_pok reader_pok; simp)

section \<open>Statements without a body\<close>

lemma recurse_op_pok: "recurse_kind_of (t_type (cur cx ts)) \<noteq> None \<Longrightarrow> pok cx (tl ts) (parse_recurse_op cx i ts)"
  unfolding parse_recurse_op_def by (auto intro!: pok_bind output_semi_pok pok_Inr)

lemma is_in_pok: "pok cx ts (parse_is_in cx i ts)"
  unfolding parse_is_in_def by (intro pok_ctl reader_pok reader_tl_pok output_semi_pok; simp)

lemma map_to_area_pok: "pok cx ts (parse_map_to_area cx i ts)"
  unfolding parse_map_to_area_def by (intro pok_ctl output_semi_pok; simp)

lemma i_flag_pok: "pok cx ts (parse_optional_i_flag cx ts)"
  unfolding parse_optional_i_flag_def by (intro pok_ctl reader_tl_pok; simp)

lemma tag_filter_pok1: "pok1 cx ts (parse_tag_filter cx ts)"
  unfolding parse_tag_filter_def
  by (rule pok1_bind [OF expect_pok1], simp) (intro pok_ctl reader_pok reader_tl_pok i_flag_pok; simp)

lemma recurse_filter_pok: "pok cx ts (parse_recurse_filter cx k ts)"
  unfolding parse_recurse_filter_def by (intro pok_ctl dot_set_pok reader_tl_pok; simp)

lemma around_pok: "pok cx ts (parse_around cx ts)"
  unfolding parse_around_def
  by (intro pok_ctl dot_set_pok reader_pok comma_list_pok; simp)

lemma poly_pok: "pok cx ts (parse_poly cx ts)"
  unfolding parse_poly_def by (intro pok_ctl reader_pok; simp)

lemma area_filter_pok: "pok cx ts (parse_area_filter cx ts)"
  unfolding parse_area_filter_def by (intro pok_ctl reader_tl_pok; simp)

lemma word_filter_pok: "pok cx ts (parse_word_filter cx w ts)"
  unfolding parse_word_filter_def
  by (intro pok_ctl reader_pok reader_tl_pok int_list_pok recurse_filter_pok [THEN pok_tl] around_pok [THEN pok_tl] poly_pok [THEN pok_tl] area_filter_pok [THEN pok_tl] dot_set_pok [THEN pok_tl] two_strings_pok comma_list_pok capture_pok; simp)

lemma paren_filter_pok1: "pok1 cx ts (parse_paren_filter cx ts)"
  unfolding parse_paren_filter_def
  by (rule pok1_bind [OF expect_pok1], simp) (intro pok_ctl word_filter_pok number_list_pok reader_pok; simp)

lemma input_sets_loop_pok: "length ts < n \<Longrightarrow> pok cx ts (input_sets_loop n cx ts sets)"
proof (induction n arbitrary: ts sets)
  case (Suc n)
  have "pok cx (tl ts) (rbind (expect_ident_text cx (tl ts)) (\<lambda>(s, ts). input_sets_loop n cx ts (sets @ [s])))"
    if "check cx DOT ts"
    using Suc.prems check_nonempty [OF that] by (cases ts) (auto intro!: pok_bind reader_pok Suc.IH)
  then show ?case by (auto intro: pok_tl pok_Inr)
qed simp

declare input_sets_loop.simps [simp del]

lemma filters_loop_pok: "length ts < n \<Longrightarrow> pok cx ts (filters_loop n cx ts fs)"
proof (induction n arbitrary: ts fs)
  case (Suc n)
  have "pok1 cx ts (if check cx LBRACKET ts then parse_tag_filter cx ts else parse_paren_filter cx ts)"
    by (simp add: tag_filter_pok1 paren_filter_pok1)
  from pok_bind1 [OF this, of "\<lambda>f ts. filters_loop n cx ts (fs @ [f])"] show ?case
    using Suc.IH Suc.prems by (auto intro!: pok_Inr)
qed simp

declare filters_loop.simps [simp del]

lemma query_pok: "pok cx (tl ts) (parse_query cx types ts)"
  unfolding parse_query_def Let_def
  by (intro pok_ctl input_sets_loop_pok filters_loop_pok output_semi_pok; simp)

lemma out_geom_pok: "pok cx ts (parse_out_geom cx out ts)"
  unfolding parse_out_geom_def
  by (intro pok_ctl number_list_pok [THEN pok_tl] reader_pok; simp)

lemma out_word_pok1: "ts \<noteq> [] \<Longrightarrow> pok1 cx ts (out_word cx w out ts)"
  unfolding out_word_def
  by (auto split: option.splits intro!: pok1_Inr_tl pok1_perror pok1_tl out_geom_pok)

lemma out_loop_pok: "length ts < n \<Longrightarrow> pok cx ts (out_loop n cx out ts)"
proof (induction n arbitrary: ts out)
  case (Suc n)
  have word: "pok cx ts (rbind (out_word cx w out ts) (\<lambda>(out, ts). out_loop n cx out ts))" if "ts \<noteq> []" for w
    by (rule pok_bind1 [OF out_word_pok1 [OF that]]) (use Suc in auto)
  have num: "pok cx ts (out_loop n cx o' (tl ts))" if "ts \<noteq> []" for o'
    using Suc.IH [of "tl ts" o'] Suc.prems that by (cases ts) (auto intro: pok_tl)
  show ?case
    using check_nonempty [of cx ts IDENT] check_nonempty [of cx ts NUMBER] num_value_error [of cx ts]
    by (auto intro!: pok_Inr pok_perror word num pok_value dest: int_of_float_err_ok)
qed simp

declare out_loop.simps [simp del]

lemma out_pok: "pok cx ts (parse_out cx i ts)"
  unfolding parse_out_def by (intro pok_ctl out_loop_pok; simp)

lemma dot_statement_pok: "pok cx (tl ts) (parse_dot_statement cx ts)"
  unfolding parse_dot_statement_def
  by (intro pok_ctl reader_pok is_in_pok [THEN pok_tl] map_to_area_pok [THEN pok_tl] out_pok [THEN pok_tl] recurse_op_pok [THEN pok_tl] output_semi_pok; simp)

lemma timeline_pok: "pok cx (tl ts) (parse_timeline cx ts)"
  unfolding parse_timeline_def
  by (intro pok_ctl reader_pok reader_tl_pok output_semi_pok; simp)

lemma pok_Cons: "pok cx ts r \<Longrightarrow> pok cx (t # ts) r"
  using pok_tl [of cx "t # ts" r] by simp

lemma pok_Inr_Cons: "pok cx (t # ts) (Inr (x, ts))"
  by (rule pok_Cons) (rule pok_Inr)

lemma to_brace_pok: "pok cx ts (to_brace_loop cx k d ts)"
  by (induction cx k d ts rule: to_brace_loop.induct) (auto intro: pok_perror pok_Inr_Cons pok_Cons)

lemma close_brace_pok: "pok cx ts (close_brace_loop cx k d e ts)"
proof (induction ts arbitrary: d e)
  case Nil
  then show ?case by (subst close_brace_loop.simps) (auto intro: pok_perror pok_Inr)
next
  case (Cons t ts)
  then show ?case by (subst close_brace_loop.simps) (auto intro: pok_Inr pok_Cons)
qed

lemma unsupported_block_pok: "pok cx (tl ts) (parse_unsupported_block cx k ts)"
  unfolding parse_unsupported_block_def Let_def
  by (intro pok_bind to_brace_pok close_brace_pok) (auto intro: pok_Inr)

lemma simple_loop_pok: "pok cx ts (simple_loop cx k a p b ts)"
  by (induction cx k a p b ts rule: simple_loop.induct) (auto intro: pok_perror pok_Inr_Cons pok_Cons)

lemma unsupported_simple_pok: "pok cx (tl ts) (parse_unsupported_simple cx k ts)"
  by (simp add: parse_unsupported_simple_def simple_loop_pok)

section \<open>Statements with a body\<close>

text \<open>\<open>stmt\<close> is good for states of fewer than \<open>f\<close> tokens.\<close>

definition good_stmt :: "pctx \<Rightarrow> nat \<Rightarrow> stmt_parser \<Rightarrow> bool" where
  "good_stmt cx f stmt \<longleftrightarrow> (\<forall>ts. length ts < f \<longrightarrow> pok1 cx ts (stmt ts))"

lemma good_stmtD: "good_stmt cx f stmt \<Longrightarrow> length ts < f \<Longrightarrow> pok1 cx ts (stmt ts)"
  by (simp add: good_stmt_def)

lemma block_loop_pok:
  "good_stmt cx f stmt \<Longrightarrow> length ts < f \<Longrightarrow> length ts < n \<Longrightarrow> pok cx ts (block_loop n stmt cx ts prev lst)"
proof (induction n arbitrary: ts prev lst)
  case (Suc n)
  have minus: "pok cx ts (block_loop n stmt cx (tl ts) (prev @ [lst]) [])" if "check cx MINUS ts"
    using Suc.IH [of "tl ts"] Suc.prems check_nonempty [OF that] by (cases ts) (auto intro: pok_tl)
  have "pok cx ts (rbind (stmt ts) (\<lambda>(s, ts). block_loop n stmt cx ts prev (append_stmt s lst)))"
    by (rule pok_bind1 [OF good_stmtD [OF Suc.prems(1,2)]]) (use Suc in auto)
  then show ?case using minus by (auto intro!: pok_Inr pok_perror)
qed simp

declare block_loop.simps [simp del]

lemma block_pok: "good_stmt cx f stmt \<Longrightarrow> length ts \<le> f \<Longrightarrow> pok1 cx ts (parse_block stmt cx ts)"
  unfolding parse_block_def
  by (rule pok1_bind [OF expect_pok1])
     (auto intro!: pok_bind block_loop_pok [of cx f] reader_pok output_semi_pok pok_Inr pok_perror split: list.splits)

lemma body_loop_pok:
  "good_stmt cx f stmt \<Longrightarrow> length ts < f \<Longrightarrow> length ts < n \<Longrightarrow> pok cx ts (body_loop n stmt cx what ts body)"
proof (induction n arbitrary: ts body)
  case (Suc n)
  have "pok cx ts (rbind (stmt ts) (\<lambda>(s, ts). body_loop n stmt cx what ts (append_stmt s body)))"
    by (rule pok_bind1 [OF good_stmtD [OF Suc.prems(1,2)]]) (use Suc in auto)
  then show ?case by (auto intro!: pok_Inr pok_perror)
qed simp

declare body_loop.simps [simp del]

lemma body_pok: "good_stmt cx f stmt \<Longrightarrow> length ts < f \<Longrightarrow> pok cx ts (parse_body stmt cx what ts)"
  unfolding parse_body_def by (auto intro!: pok_bind reader_pok pok_Inr body_loop_pok [of cx f])

lemma foreach_pok: "good_stmt cx f stmt \<Longrightarrow> ts \<noteq> [] \<Longrightarrow> length ts \<le> f \<Longrightarrow> pok cx (tl ts) (parse_foreach stmt cx ts)"
  unfolding parse_foreach_def
  by (cases ts) (auto intro!: pok_bind dot_set_pok output_set_pok body_pok [of cx f] pok_Inr)

lemma if_statement_pok: "good_stmt cx f stmt \<Longrightarrow> ts \<noteq> [] \<Longrightarrow> length ts \<le> f \<Longrightarrow> pok cx (tl ts) (parse_if_statement stmt cx ts)"
  unfolding parse_if_statement_def
  by (cases ts) (auto intro!: pok_bind reader_pok capture_pok body_pok [of cx f] body_pok [of cx f, THEN pok_tl] pok_Inr)

lemma retro_pok: "good_stmt cx f stmt \<Longrightarrow> ts \<noteq> [] \<Longrightarrow> length ts \<le> f \<Longrightarrow> pok cx (tl ts) (parse_retro stmt cx ts)"
  unfolding parse_retro_def
  by (cases ts) (auto intro!: pok_bind reader_pok capture_pok body_pok [of cx f] pok_Inr)

lemma keyword_pok1:
  assumes g: "good_stmt cx f stmt" "ts \<noteq> []" "length ts \<le> f"
  shows "pok1 cx ts (parse_keyword stmt cx w ts)"
  unfolding parse_keyword_def
  by (intro pok1_if pok1_case_option pok1_perror pok1_tl [OF g(2)] foreach_pok [OF g] if_statement_pok [OF g]
      retro_pok [OF g] query_pok out_pok is_in_pok map_to_area_pok timeline_pok
      unsupported_block_pok unsupported_simple_pok)

lemma some_stmt_pok1: "pok1 cx ts r \<Longrightarrow> pok1 cx ts (some_stmt r)"
  unfolding some_stmt_def by (rule pok1_bind) (auto intro: pok_Inr)

lemma recurse_kind_nonempty: "recurse_kind_of (t_type (cur cx ts)) \<noteq> None \<Longrightarrow> ts \<noteq> []"
  by (cases ts) (auto simp: eof_token_def)

lemma statement_good: "good_stmt cx f (parse_statement f cx)"
proof (induction f)
  case (Suc f)
  show ?case unfolding good_stmt_def
  proof (intro allI impI)
    fix ts :: "token list" assume l: "length ts < Suc f"
    let ?ty = "t_type (cur cx ts)"
    have b: "pok1 cx ts (parse_block (parse_statement f cx) cx ts)" using block_pok [OF Suc] l by simp
    have d: "pok1 cx ts (parse_dot_statement cx ts)" if "?ty = DOT"
      using pok1_tl [OF _ dot_statement_pok] check_nonempty [OF that] by simp
    have r: "pok1 cx ts (parse_recurse_op cx default_set ts)" if "recurse_kind_of ?ty \<noteq> None"
      using pok1_tl [OF recurse_kind_nonempty [OF that] recurse_op_pok [OF that]] .
    have k: "pok1 cx ts (parse_keyword (parse_statement f cx) cx (t_text (cur cx ts)) ts)" if "?ty = IDENT"
      using keyword_pok1 [OF Suc] check_nonempty [OF that] l by simp
    have s: "pok1 cx ts (Inr (None, tl ts) :: statement option pres)" if "?ty = SEMI"
      using pok1_Inr_tl check_nonempty [OF that] by simp
    show "pok1 cx ts (parse_statement (Suc f) cx ts)"
      using b d r k s by (simp add: Let_def some_stmt_pok1 pok1_perror)
  qed
qed (simp add: good_stmt_def)

declare parse_statement.simps [simp del]

lemma program_loop_pok: "length ts < f \<Longrightarrow> length ts < n \<Longrightarrow> pok cx ts (program_loop n f cx ts ss)"
proof (induction n arbitrary: ts ss)
  case (Suc n)
  have "pok cx ts (rbind (parse_statement f cx ts) (\<lambda>(s, ts). program_loop n f cx ts (append_stmt s ss)))"
    by (rule pok_bind1 [OF good_stmtD [OF statement_good Suc.prems(1)]]) (use Suc in auto)
  then show ?case by (auto intro!: pok_Inr)
qed simp

declare program_loop.simps [simp del]

lemma parse_program_error:
  assumes "toks_ok cx ts" and "parse_program cx ts = Inl e"
  shows "err_ok (cx_text cx) e"
proof -
  have "pok cx ts (rbind (parse_settings cx ts) (\<lambda>(settings, ts).
      rbind (program_loop (length ts + 1) (length ts + 1) cx ts []) (\<lambda>(stmts, ts). Inr ((settings, stmts), ts))))"
    by (auto intro!: pok_bind settings_pok program_loop_pok pok_Inr)
  then show ?thesis
    using assms by (auto simp: pok_def parse_program_def rbind_eq_Inl rbind_eq_Inr split: sum.splits)
qed

lemma parse_error_ok: "parse u text = Inl e \<Longrightarrow> err_ok text e"
proof -
  assume e: "parse u text = Inl e"
  show ?thesis
  proof (cases "tokenize u text")
    case (Inl e')
    then have "lex_err u text e" using e tokenize_loop_error by (simp add: parse_def tokenize_def)
    then show ?thesis by (rule lex_err_ok)
  next
    case (Inr tokens)
    obtain toks where t: "tokens = toks @ [mk_token text (length text) (length text) EOF VNone]" "chain text 0 toks"
      using tokenize_Inr [OF Inr] .
    have "toks_ok \<lparr>cx_udb = u, cx_text = text\<rparr> toks" using chain_tok_ok [OF t(2)] by (simp add: toks_ok_def)
    then show ?thesis using parse_program_error e Inr t(1) by (fastforce simp: parse_def)
  qed
qed

end
