(* ===== verification/Parser_Roundtrip.thy ===== *)
theory Parser_Roundtrip
  imports Parser
begin

text \<open>
  A printer of programs as token lists and the proof that the parser inverts it. The condition of
  \<open>if\<close>, the date of \<open>retro\<close> and the expression of an \<open>if\<close> filter are raw source text: such a text is
  printed as a token at the place where it stands in the source (\<open>sp\<close>), and the text is a source in
  which it stands there (\<open>spotted\<close>). The \<open>poly\<close> filter, whose numbers are read from a string, the
  unsupported statements and nan have no printed form here (\<open>printable\<close>); everything else the parser
  can produce has one.
\<close>

section \<open>The printer\<close>

definition tk :: "token_type \<Rightarrow> pystr \<Rightarrow> tok_value \<Rightarrow> token" where
  "tk ty txt v = \<lparr>t_type = ty, t_text = txt, t_value = v, t_start = 0, t_end = 0, t_line = 1, t_col = 1\<rparr>"

definition pt :: "token_type \<Rightarrow> token" where "pt ty = tk ty (lit (type_text ty)) VNone"
definition idt :: "pystr \<Rightarrow> token" where "idt w = tk IDENT w (VStr w)"
definition strt :: "pystr \<Rightarrow> token" where "strt s = tk STRING s (VStr s)"
definition rawt :: "(pystr \<Rightarrow> nat \<times> nat) \<Rightarrow> pystr \<Rightarrow> token" where
  "rawt sp e = (strt e)\<lparr>t_start := fst (sp e), t_end := snd (sp e)\<rparr>"
definition numt :: "pyfloat \<Rightarrow> token" where "numt x = tk NUMBER [] (VNum x)"

definition print_num :: "pyfloat \<Rightarrow> token list" where
  "print_num x = (case x of
      Fin r \<Rightarrow> if r < 0 then [pt MINUS, numt (Fin (- r))] else [numt (Fin r)]
    | PInf \<Rightarrow> [numt PInf] | NInf \<Rightarrow> [pt MINUS, numt PInf] | NaN \<Rightarrow> [numt NaN])"

definition print_int :: "int \<Rightarrow> token list" where
  "print_int i = print_num (Fin (of_int i))"

fun sep_by :: "('a \<Rightarrow> token list) \<Rightarrow> 'a list \<Rightarrow> token list" where
  "sep_by p [] = []"
| "sep_by p [x] = p x"
| "sep_by p (x # y # ys) = p x @ pt COMMA # sep_by p (y # ys)"

definition comma_all :: "('a \<Rightarrow> token list) \<Rightarrow> 'a list \<Rightarrow> token list" where
  "comma_all p xs = concat (map (\<lambda>x. pt COMMA # p x) xs)"

definition print_out_set :: "pystr \<Rightarrow> token list" where
  "print_out_set out = [pt ARROW, pt DOT, idt out]"

definition print_output :: "pystr \<Rightarrow> token list" where
  "print_output out = print_out_set out @ [pt SEMI]"

fun bbox_list :: "bbox4 \<Rightarrow> pyfloat list" where
  "bbox_list (s, w, n, e) = [s, w, n, e]"

definition print_flag :: "bool \<Rightarrow> token list" where
  "print_flag ci = (if ci then [pt COMMA, idt (lit ''i'')] else [])"

fun op_type :: "tag_op \<Rightarrow> token_type" where
  "op_type OpEq = EQ" | "op_type OpNe = NEQ" | "op_type OpNre = NOTTILDE" | "op_type _ = TILDE"

fun rf_word :: "recurse_filter_kind \<Rightarrow> string" where
  "rf_word RfW = ''w''" | "rf_word RfR = ''r''" | "rf_word RfBn = ''bn''" | "rf_word RfBw = ''bw''" | "rf_word RfBr = ''br''"

definition dot_opt :: "pystr option \<Rightarrow> token list" where
  "dot_opt s = (case s of None \<Rightarrow> [] | Some x \<Rightarrow> [pt DOT, idt x])"

definition word_colon :: "string \<Rightarrow> token list" where
  "word_colon w = [pt LPAREN, idt (lit w), pt COLON]"

definition two_opt :: "pystr option \<Rightarrow> token list" where
  "two_opt b = (case b of None \<Rightarrow> [] | Some x \<Rightarrow> [pt COMMA, strt x])"

definition unpairs :: "('a \<times> 'a) list \<Rightarrow> 'a list" where
  "unpairs xs = concat (map (\<lambda>(a, b). [a, b]) xs)"

fun print_filter :: "(pystr \<Rightarrow> nat \<times> nat) \<Rightarrow> filter_ast \<Rightarrow> token list" where
  "print_filter sp (TagFilter key op value rx ci) =
     (case value of
        None \<Rightarrow> if op = OpNotExists then [pt LBRACKET, pt BANG, strt key, pt RBRACKET] else [pt LBRACKET, strt key, pt RBRACKET]
      | Some v \<Rightarrow>
          if rx then [pt LBRACKET, pt TILDE, strt key, pt TILDE, strt v] @ print_flag ci @ [pt RBRACKET]
          else [pt LBRACKET, strt key, pt (op_type op), strt v] @ print_flag ci @ [pt RBRACKET])"
| "print_filter sp (BboxFilter s w n e) = pt LPAREN # sep_by print_num [s, w, n, e] @ [pt RPAREN]"
| "print_filter sp (IdFilter is) = word_colon ''id'' @ sep_by print_int is @ [pt RPAREN]"
| "print_filter sp (RecurseFilter k s role) =
     [pt LPAREN, idt (lit (rf_word k)), pt DOT, idt s] @ (case role of None \<Rightarrow> [] | Some r \<Rightarrow> [pt COLON, strt r]) @ [pt RPAREN]"
| "print_filter sp (AroundFilter r s coords) =
     [pt LPAREN, idt (lit ''around'')] @ dot_opt s @ pt COLON # print_num r @
     comma_all print_num (case coords of None \<Rightarrow> [] | Some cs \<Rightarrow> unpairs cs) @ [pt RPAREN]"
| "print_filter sp (AreaFilter s i) =
     [pt LPAREN, idt (lit ''area'')] @ (case s of Some x \<Rightarrow> [pt DOT, idt x]
       | None \<Rightarrow> (case i of Some n \<Rightarrow> pt COLON # print_int n | None \<Rightarrow> [])) @ [pt RPAREN]"
| "print_filter sp (PivotFilter s) = [pt LPAREN, idt (lit ''pivot''), pt DOT, idt s, pt RPAREN]"
| "print_filter sp (NewerFilter t) = word_colon ''newer'' @ [strt t, pt RPAREN]"
| "print_filter sp (ChangedFilter a b) = word_colon ''changed'' @ strt a # two_opt b @ [pt RPAREN]"
| "print_filter sp (UserFilter names) = word_colon ''user'' @ sep_by (\<lambda>s. [strt s]) names @ [pt RPAREN]"
| "print_filter sp (UidFilter is) = word_colon ''uid'' @ sep_by print_int is @ [pt RPAREN]"
| "print_filter sp (IfFilter e) = word_colon ''if'' @ [rawt sp e, pt RPAREN]"
| "print_filter sp (PolyFilter _) = []"

definition num_ok :: "pyfloat \<Rightarrow> bool" where "num_ok x \<longleftrightarrow> x \<noteq> NaN"

fun filter_ok :: "(pystr \<Rightarrow> bool) \<Rightarrow> filter_ast \<Rightarrow> bool" where
  "filter_ok ok (TagFilter key op value rx ci) =
     (case value of None \<Rightarrow> (op = OpExists \<or> op = OpNotExists) \<and> \<not> rx \<and> \<not> ci
      | Some v \<Rightarrow> if rx then op = OpRe else op \<in> {OpEq, OpNe, OpRe, OpNre})"
| "filter_ok ok (BboxFilter s w n e) = (num_ok s \<and> num_ok w \<and> num_ok n \<and> num_ok e)"
| "filter_ok ok (IdFilter is) = (is \<noteq> [])"
| "filter_ok ok (AroundFilter r s coords) =
     (num_ok r \<and> (case coords of None \<Rightarrow> True | Some cs \<Rightarrow> cs \<noteq> [] \<and> (\<forall>(a, b)\<in>set cs. num_ok a \<and> num_ok b)))"
| "filter_ok ok (AreaFilter s i) = (s = None \<or> i = None)"
| "filter_ok ok (UserFilter names) = (names \<noteq> [])"
| "filter_ok ok (UidFilter is) = (is \<noteq> [])"
| "filter_ok ok (PolyFilter _) = False"
| "filter_ok ok (IfFilter e) = ok e"
| "filter_ok ok _ = True"

text \<open>A text is what the source has between two offsets, without blanks around it.\<close>

definition spotted :: "pctx \<Rightarrow> (pystr \<Rightarrow> nat \<times> nat) \<Rightarrow> pystr \<Rightarrow> bool" where
  "spotted cx sp e \<longleftrightarrow> stripped cx (fst (sp e)) (snd (sp e)) = e"

section \<open>Readers on printed tokens\<close>

lemma tk_simps [simp]:
  "t_type (tk ty x v) = ty" "t_text (tk ty x v) = x" "t_value (tk ty x v) = v" "t_start (tk ty x v) = 0" "t_end (tk ty x v) = 0"
  by (simp_all add: tk_def)

lemma tok_simps [simp]:
  "t_type (pt ty) = ty" "t_type (idt w) = IDENT" "t_text (idt w) = w" "t_type (strt s) = STRING" "t_type (numt x) = NUMBER"
  "t_start (pt ty) = 0" "t_end (pt ty) = 0" "t_start (numt x) = 0" "num_value (numt x) = Inr x" "str_value (strt s) = Inr s"
  by (simp_all add: pt_def idt_def strt_def numt_def num_value_def str_value_def)

lemma rawt_simps [simp]: "t_type (rawt sp e) = STRING" "t_start (rawt sp e) = fst (sp e)" "t_end (rawt sp e) = snd (sp e)"
  by (simp_all add: rawt_def strt_def)

lemma capture_print [simp]:
  "spotted cx sp e \<Longrightarrow> capture_until_matching_rparen cx (rawt sp e # pt RPAREN # ts) = Inr (e, pt RPAREN # ts)"
  by (simp add: capture_until_matching_rparen_def spotted_def)

lemma pt_eq_iff [simp]: "pt a = pt b \<longleftrightarrow> a = b"
  using tok_simps(1) by metis

lemma idt_not_pt [simp]: "ty \<noteq> IDENT \<Longrightarrow> idt w \<noteq> pt ty"
  using tok_simps(1,2) by metis

lemma expect_pt [simp]: "expect cx ty (pt ty # ts) = Inr (pt ty, ts)"
  by (simp add: expect_def)

lemma ident_idt [simp]: "expect_ident_text cx (idt w # ts) = Inr (w, ts)"
  by (simp add: expect_ident_text_def)

lemma bare_strt [simp]: "parse_bare_or_string cx (strt s # ts) = Inr (s, ts)"
  by (simp add: parse_bare_or_string_def)

lemma string_strt [simp]: "expect_string_value cx (strt s # ts) = Inr (s, ts)"
  by (simp add: expect_string_value_def)

lemma signed_number_print [simp]: "num_ok x \<Longrightarrow> parse_signed_number cx (print_num x @ ts) = Inr (x, ts)"
  by (cases x) (auto simp: num_ok_def print_num_def parse_signed_number_def neg_float_def)

lemma int_of_float_int [simp]: "int_of_float (Fin (of_int i)) = Inr i"
  by (simp add: int_of_float_def py_int_def)

lemma parse_int_print [simp]: "parse_int cx (print_int i @ ts) = Inr (i, ts)"
  by (simp add: parse_int_def print_int_def num_ok_def)

lemma rmap_int_of_float [simp]: "rmap int_of_float (map (\<lambda>i. Fin (of_int i)) is) = Inr is"
  by (induction "is") auto

lemma comma_loop_print:
  assumes "\<And>x ts. x \<in> set xs \<Longrightarrow> p (pr x @ ts) = Inr (x, ts)" and "t_type t \<noteq> COMMA" and "length xs < n"
  shows "comma_loop n cx p (comma_all pr xs @ t # ts) acc = Inr (acc @ xs, t # ts)"
  using assms(1,3)
proof (induction xs arbitrary: n acc)
  case Nil
  then show ?case using assms(2) by (cases n) (auto simp: comma_all_def)
next
  case (Cons x xs)
  then obtain m where n: "n = Suc m" by (cases n) auto
  have "comma_loop m cx p (comma_all pr xs @ t # ts) (acc @ [x]) = Inr ((acc @ [x]) @ xs, t # ts)"
    using Cons n by (intro Cons.IH) auto
  then show ?case using n Cons.prems(1) [of x] by (simp add: comma_all_def)
qed

lemma length_comma_all: "length xs \<le> length (comma_all pr xs)"
  by (induction xs) (auto simp: comma_all_def)

lemma comma_list_print [simp]:
  assumes "\<And>x ts. x \<in> set xs \<Longrightarrow> p (pr x @ ts) = Inr (x, ts)" and "t_type t \<noteq> COMMA"
  shows "comma_list cx p (comma_all pr xs @ t # ts) acc = Inr (acc @ xs, t # ts)"
  unfolding comma_list_def
  using assms length_comma_all [of xs pr] by (intro comma_loop_print) auto

lemma sep_by_Cons: "sep_by pr (x # xs) = pr x @ comma_all pr xs"
  by (induction xs arbitrary: x) (auto simp: comma_all_def)

lemma number_list_print:
  assumes "nums \<noteq> []" and "\<forall>x\<in>set nums. num_ok x" and "t_type t \<noteq> COMMA"
  shows "parse_number_list cx (sep_by print_num nums @ t # ts) = Inr (nums, t # ts)"
  using assms by (cases nums) (auto simp: parse_number_list_def sep_by_Cons)

lemma sep_by_int: "sep_by print_int is = sep_by print_num (map (\<lambda>i. Fin (of_int i)) is)"
  by (induction print_int "is" rule: sep_by.induct) (auto simp: print_int_def)

lemma int_list_print:
  "is \<noteq> [] \<Longrightarrow> t_type t \<noteq> COMMA \<Longrightarrow> parse_int_list cx (sep_by print_int is @ t # ts) = Inr (is, t # ts)"
  unfolding parse_int_list_def sep_by_int
  by (subst number_list_print) (auto simp: num_ok_def)

lemma output_set_print [simp]: "parse_output_set cx (print_out_set out @ ts) = Inr (out, ts)"
  by (simp add: parse_output_set_def print_out_set_def)

lemma output_semi_print [simp]: "output_semi cx (print_output out @ ts) = Inr (out, ts)"
  by (simp add: output_semi_def print_output_def parse_output_set_def print_out_set_def)

lemma two_strings_print [simp]:
  "t_type t \<noteq> COMMA \<Longrightarrow> parse_two_strings cx (strt a # two_opt b @ t # ts) = Inr ((a, b), t # ts)"
  by (cases b) (auto simp: parse_two_strings_def two_opt_def)

lemma flag_print [simp]: "parse_optional_i_flag cx (print_flag ci @ pt RBRACKET # ts) = Inr (ci, pt RBRACKET # ts)"
  by (simp add: parse_optional_i_flag_def print_flag_def)

section \<open>Filters\<close>

lemma pairs_unpairs [simp]: "pairs (unpairs xs) = xs"
  by (induction xs) (auto simp: unpairs_def)

lemma length_unpairs [simp]: "length (unpairs xs) = 2 * length xs"
  by (induction xs) (auto simp: unpairs_def)

lemma unpairs_eq_Nil [simp]: "unpairs xs = [] \<longleftrightarrow> xs = []"
  by (cases xs) (auto simp: unpairs_def)

lemma tag_filter_print:
  "filter_ok (spotted cx sp) (TagFilter key op v rx ci) \<Longrightarrow>
   parse_tag_filter cx (print_filter sp (TagFilter key op v rx ci) @ ts) = Inr (TagFilter key op v rx ci, ts)"
  by (cases op; cases v) (auto simp: parse_tag_filter_def split: if_splits)

lemma rf_word_kind [simp]: "recurse_filter_kind_of (lit (rf_word k)) = Some k"
  by (cases k) (simp_all add: recurse_filter_kind_of_def recurse_filter_kinds_def)

lemma rf_word_not_id [simp]: "rf_word k \<noteq> ''id''"
  by (cases k) simp_all

lemma kind_of_words [simp]:
  "recurse_filter_kind_of (lit ''around'') = None" "recurse_filter_kind_of (lit ''area'') = None"
  "recurse_filter_kind_of (lit ''pivot'') = None" "recurse_filter_kind_of (lit ''newer'') = None"
  "recurse_filter_kind_of (lit ''changed'') = None" "recurse_filter_kind_of (lit ''user'') = None"
  "recurse_filter_kind_of (lit ''uid'') = None" "recurse_filter_kind_of (lit ''if'') = None"
  by (simp_all add: recurse_filter_kind_of_def recurse_filter_kinds_def)

lemma dot_set_print [simp]: "parse_dot_set cx d f (pt DOT # idt s # ts) = Inr (f s, ts)"
  by (simp add: parse_dot_set_def)

lemma dot_set_opt_print [simp]: "t_type t \<noteq> DOT \<Longrightarrow> parse_dot_set cx None Some (dot_opt s @ t # ts) = Inr (s, t # ts)"
  by (cases s) (auto simp: parse_dot_set_def dot_opt_def)

lemma around_print:
  assumes "filter_ok (spotted cx sp) (AroundFilter r s coords)"
  shows "parse_around cx (dot_opt s @ pt COLON # print_num r @
     comma_all print_num (case coords of None \<Rightarrow> [] | Some cs \<Rightarrow> unpairs cs) @ pt RPAREN # ts)
     = Inr (AroundFilter r s coords, pt RPAREN # ts)"
proof -
  let ?xs = "case coords of None \<Rightarrow> [] | Some cs \<Rightarrow> unpairs cs"
  have ok: "\<forall>x\<in>set ?xs. num_ok x" using assms by (auto simp: unpairs_def split: option.splits)
  have cl: "comma_list cx (parse_signed_number cx) (comma_all print_num ?xs @ pt RPAREN # ts) []
      = Inr ([] @ ?xs, pt RPAREN # ts)"
    by (rule comma_list_print) (use ok in auto)
  have r: "num_ok r" and c: "coords = Some cs \<Longrightarrow> cs \<noteq> []" for cs using assms by (auto split: option.splits)
  show ?thesis
    unfolding parse_around_def using r c
    by (simp add: cl del: append_Nil) (auto split: option.splits)
qed

lemma print_num_head: "\<exists>t us. print_num x = t # us \<and> (t_type t = NUMBER \<or> t_type t = MINUS)"
  by (cases x) (auto simp: print_num_def)

lemma paren_filter_print:
  assumes "filter_ok (spotted cx sp) f" and "\<And>key op v rx ci. f \<noteq> TagFilter key op v rx ci"
  shows "parse_paren_filter cx (print_filter sp f @ ts) = Inr (f, ts)"
proof (cases f)
  case (BboxFilter s w n e)
  obtain t us where t: "print_num s = t # us" "t_type t = NUMBER \<or> t_type t = MINUS" using print_num_head by blast
  have "parse_number_list cx (sep_by print_num [s, w, n, e] @ pt RPAREN # ts) = Inr ([s, w, n, e], pt RPAREN # ts)"
    using assms BboxFilter by (intro number_list_print) auto
  then show ?thesis using BboxFilter t by (auto simp: parse_paren_filter_def)
next
  case (IdFilter "is")
  then show ?thesis
    using assms int_list_print [of "is" "pt RPAREN" cx ts] by (simp add: parse_paren_filter_def parse_word_filter_def word_colon_def)
next
  case (RecurseFilter k s role)
  then show ?thesis
    by (cases role) (simp_all add: parse_paren_filter_def parse_word_filter_def parse_recurse_filter_def)
next
  case (AroundFilter r s coords)
  then show ?thesis using assms around_print [of cx sp r s coords ts]
    by (simp add: parse_paren_filter_def parse_word_filter_def)
next
  case (AreaFilter s i)
  then show ?thesis using assms
    by (cases s; cases i) (auto simp: parse_paren_filter_def parse_word_filter_def parse_area_filter_def)
next
  case (UserFilter names)
  then obtain a as where "names = a # as" using assms by (cases names) auto
  then show ?thesis using UserFilter
    by (simp add: parse_paren_filter_def parse_word_filter_def word_colon_def sep_by_Cons)
next
  case (UidFilter "is")
  then obtain a as where "is = a # as" using assms by (cases "is") auto
  then show ?thesis using UidFilter
    by (simp add: parse_paren_filter_def parse_word_filter_def word_colon_def sep_by_Cons)
next
  case (ChangedFilter a b)
  then show ?thesis by (simp add: parse_paren_filter_def parse_word_filter_def word_colon_def)
qed (use assms in \<open>auto simp: parse_paren_filter_def parse_word_filter_def word_colon_def\<close>)

lemma print_filter_head:
  "filter_ok (spotted cx sp) f \<Longrightarrow> \<exists>us. print_filter sp f = pt (case f of TagFilter _ _ _ _ _ \<Rightarrow> LBRACKET | _ \<Rightarrow> LPAREN) # us"
  by (cases f) (auto simp: word_colon_def split: option.splits)

lemma filters_loop_print:
  assumes "\<forall>f\<in>set fs. filter_ok (spotted cx sp) f" and "t_type t \<noteq> LBRACKET" "t_type t \<noteq> LPAREN" and "length fs < n"
  shows "filters_loop n cx (concat (map (print_filter sp) fs) @ t # ts) acc = Inr (acc @ fs, t # ts)"
  using assms(1,4)
proof (induction fs arbitrary: n acc)
  case Nil
  then show ?case using assms(2,3) by (cases n) auto
next
  case (Cons f fs)
  then obtain m where n: "n = Suc m" by (cases n) auto
  let ?rest = "concat (map (print_filter sp) fs) @ t # ts"
  have ok: "filter_ok (spotted cx sp) f" using Cons.prems by simp
  have IH: "filters_loop m cx ?rest (acc @ [f]) = Inr ((acc @ [f]) @ fs, t # ts)"
    using Cons n by (intro Cons.IH) auto
  obtain us where us: "print_filter sp f = pt (case f of TagFilter _ _ _ _ _ \<Rightarrow> LBRACKET | _ \<Rightarrow> LPAREN) # us"
    using print_filter_head [OF ok] by blast
  have "(if check cx LBRACKET (print_filter sp f @ ?rest) then parse_tag_filter cx (print_filter sp f @ ?rest)
      else parse_paren_filter cx (print_filter sp f @ ?rest)) = Inr (f, ?rest)"
  proof (cases "\<exists>key op v rx ci. f = TagFilter key op v rx ci")
    case True
    then obtain key op v rx ci where f: "f = TagFilter key op v rx ci" by blast
    then show ?thesis
      using tag_filter_print [OF ok [unfolded f], of ?rest] us by (simp del: print_filter.simps filter_ok.simps)
  next
    case False
    then have "check cx LPAREN (print_filter sp f @ ?rest)" using us by (cases f) auto
    then show ?thesis using paren_filter_print [OF ok] False by simp
  qed
  moreover have "check cx LBRACKET (print_filter sp f @ ?rest) \<or> check cx LPAREN (print_filter sp f @ ?rest)"
    using us by (cases f) auto
  ultimately show ?case using IH n by (simp del: print_filter.simps)
qed

section \<open>Statements\<close>

definition keyword_of :: "string list \<Rightarrow> string option" where
  "keyword_of types = map_of (map (\<lambda>(k, v). (v, k)) query_keywords) types"

fun kind_type :: "recurse_kind \<Rightarrow> token_type" where
  "kind_type RDown = GT" | "kind_type RDownDown = GTGT" | "kind_type RUp = LT" | "kind_type RUpUp = LTLT"

fun verb_word :: "verbosity \<Rightarrow> string" where
  "verb_word VIds = ''ids''" | "verb_word VSkel = ''skel''" | "verb_word VBody = ''body''"
| "verb_word VTags = ''tags''" | "verb_word VMeta = ''meta''"

definition print_geometry :: "out_spec \<Rightarrow> token list" where
  "print_geometry out =
     (case o_geom_bbox out of None \<Rightarrow> []
      | Some b \<Rightarrow> idt (lit ''geom'') # pt LPAREN # sep_by print_num (bbox_list b) @ [pt RPAREN]) @
     (case o_geometry out of GNone \<Rightarrow> []
      | GGeom \<Rightarrow> if o_geom_bbox out = None then [idt (lit ''geom'')] else []
      | GBb \<Rightarrow> [idt (lit ''bb'')] | GCenter \<Rightarrow> [idt (lit ''center'')])"

definition print_out :: "out_spec \<Rightarrow> token list" where
  "print_out out =
     idt (lit (verb_word (o_verbosity out))) # print_geometry out @
     (if o_order out = OQt then [idt (lit ''qt'')] else []) @
     (case o_limit out of None \<Rightarrow> [] | Some i \<Rightarrow> [numt (Fin (of_int i))]) @
     (if o_noids out then [idt (lit ''noids'')] else []) @
     (if o_count out then [idt (lit ''count'')] else []) @ [pt SEMI]"

definition out_ok :: "out_spec \<Rightarrow> bool" where
  "out_ok out \<longleftrightarrow> (case o_geom_bbox out of None \<Rightarrow> True
     | Some b \<Rightarrow> o_geometry out \<noteq> GNone \<and> (\<forall>x\<in>set (bbox_list b). num_ok x))"

fun print_stmt :: "(pystr \<Rightarrow> nat \<times> nat) \<Rightarrow> statement \<Rightarrow> token list" where
  "print_stmt sp (Query types filters sets out) =
     idt (lit (case keyword_of types of Some k \<Rightarrow> k | None \<Rightarrow> [])) # concat (map (\<lambda>s. [pt DOT, idt s]) sets) @
     concat (map (print_filter sp) filters) @ print_output out"
| "print_stmt sp (Union_stmt ss out) = pt LPAREN # concat (map (print_stmt sp) ss) @ pt RPAREN # print_output out"
| "print_stmt sp (Difference a b out) = pt LPAREN # print_stmt sp a @ pt MINUS # print_stmt sp b @ pt RPAREN # print_output out"
| "print_stmt sp (Recurse k i out) = [pt DOT, idt i, pt (kind_type k)] @ print_output out"
| "print_stmt sp (Item i out) = [pt DOT, idt i] @ print_output out"
| "print_stmt sp (IsIn i out coords) =
     [pt DOT, idt i, idt (lit ''is_in'')] @
     (case coords of None \<Rightarrow> [] | Some (a, b) \<Rightarrow> pt LPAREN # print_num a @ pt COMMA # print_num b @ [pt RPAREN]) @ print_output out"
| "print_stmt sp (MapToArea i out) = [pt DOT, idt i, idt (lit ''map_to_area'')] @ print_output out"
| "print_stmt sp (Out out) = [pt DOT, idt (o_input_set out), idt (lit ''out'')] @ print_out out"
| "print_stmt sp (Foreach i out body) =
     [idt (lit ''foreach''), pt DOT, idt i] @ print_out_set out @ pt LBRACE # concat (map (print_stmt sp) body) @ [pt RBRACE]"
| "print_stmt sp (Timeline ty i v out) =
     [idt (lit ''timeline''), pt LPAREN, idt (lit ty), pt COMMA] @ print_int i @
     (case v of None \<Rightarrow> [] | Some n \<Rightarrow> pt COMMA # print_int n) @ pt RPAREN # print_output out"
| "print_stmt sp (If_stmt condition then_body otherwise) =
     [idt (lit ''if''), pt LPAREN, rawt sp condition, pt RPAREN, pt LBRACE] @ concat (map (print_stmt sp) then_body) @ pt RBRACE #
     idt (lit ''else'') # pt LBRACE # concat (map (print_stmt sp) otherwise) @ [pt RBRACE]"
| "print_stmt sp (Retro time_expr body) =
     [idt (lit ''retro''), pt LPAREN, rawt sp time_expr, pt RPAREN, pt LBRACE] @ concat (map (print_stmt sp) body) @ [pt RBRACE]"
| "print_stmt sp (Unsupported _ _) = []"

fun printable :: "(pystr \<Rightarrow> bool) \<Rightarrow> statement \<Rightarrow> bool" where
  "printable ok (Query types filters sets out) = (keyword_of types \<noteq> None \<and> (\<forall>f\<in>set filters. filter_ok ok f))"
| "printable ok (Union_stmt ss out) = (\<forall>s\<in>set ss. printable ok s)"
| "printable ok (Difference a b out) = (printable ok a \<and> printable ok b)"
| "printable ok (IsIn i out coords) = (case coords of None \<Rightarrow> True | Some (a, b) \<Rightarrow> num_ok a \<and> num_ok b)"
| "printable ok (Out out) = out_ok out"
| "printable ok (Foreach i out body) = (\<forall>s\<in>set body. printable ok s)"
| "printable ok (Timeline ty i v out) = (ty \<in> {''node'', ''way'', ''relation''})"
| "printable ok (If_stmt condition then_body otherwise) =
     (ok condition \<and> (\<forall>s\<in>set then_body. printable ok s) \<and> (\<forall>s\<in>set otherwise. printable ok s))"
| "printable ok (Retro time_expr body) = (ok time_expr \<and> (\<forall>s\<in>set body. printable ok s))"
| "printable ok (Unsupported _ _) = False"
| "printable ok _ = True"

lemma keyword_of_types: "keyword_of types = Some k \<Longrightarrow> keyword_types (lit k) = Some types"
  by (auto simp: keyword_of_def keyword_types_def query_keywords_def split: if_splits)

lemma input_sets_print:
  "t_type t \<noteq> DOT \<Longrightarrow> length sets < n \<Longrightarrow>
   input_sets_loop n cx (concat (map (\<lambda>s. [pt DOT, idt s]) sets) @ t # ts) acc = Inr (acc @ sets, t # ts)"
proof (induction sets arbitrary: n acc)
  case Nil
  then show ?case by (cases n) auto
next
  case (Cons s sets)
  then obtain m where "n = Suc m" by (cases n) auto
  then show ?case using Cons by simp
qed

lemma length_concat_ge: "(\<And>x. x \<in> set xs \<Longrightarrow> 0 < length (f x)) \<Longrightarrow> length xs \<le> length (concat (map f xs))"
proof (induction xs)
  case (Cons x xs)
  have "0 < length (f x)" "length xs \<le> length (concat (map f xs))" using Cons by simp_all
  then show ?case by (simp add: less_iff_Suc_add) linarith
qed simp

lemma print_output_head: "print_output out = pt ARROW # pt DOT # idt out # [pt SEMI]"
  by (simp add: print_output_def print_out_set_def)

lemma query_print:
  assumes "\<forall>f\<in>set filters. filter_ok (spotted cx sp) f"
  shows "parse_query cx types (w # concat (map (\<lambda>s. [pt DOT, idt s]) sets) @ concat (map (print_filter sp) filters) @ print_output out @ ts)
    = Inr (Query types filters sets out, ts)"
proof -
  let ?fs = "concat (map (print_filter sp) filters)" and ?o = "print_output out @ ts"
  have o: "?o = pt ARROW # tl ?o" by (simp add: print_output_head)
  obtain t us where t: "?fs @ ?o = t # us" "t_type t \<noteq> DOT"
  proof (cases filters)
    case Nil
    then show thesis using that [of "pt ARROW" "tl ?o"] o by simp
  next
    case (Cons f fs)
    then obtain vs where "print_filter sp f = pt (case f of TagFilter _ _ _ _ _ \<Rightarrow> LBRACKET | _ \<Rightarrow> LPAREN) # vs"
      using print_filter_head [of cx sp f] assms by auto
    then show thesis
      using that [of "pt (case f of TagFilter _ _ _ _ _ \<Rightarrow> LBRACKET | _ \<Rightarrow> LPAREN)"] Cons
      by (auto simp del: print_filter.simps split: filter_ast.splits)
  qed
  let ?n = "length (concat (map (\<lambda>s. [pt DOT, idt s]) sets) @ ?fs @ ?o) + 1"
  have "length sets < ?n" using length_concat_ge [of sets "\<lambda>s. [pt DOT, idt s]"] by simp
  then have s: "input_sets_loop ?n cx (concat (map (\<lambda>s. [pt DOT, idt s]) sets) @ ?fs @ ?o) [] = Inr (sets, ?fs @ ?o)"
    using input_sets_print [OF t(2), of sets ?n cx us "[]"] unfolding t(1) by (simp del: input_sets_loop.simps)
  have "0 < length (print_filter sp f)" if "f \<in> set filters" for f
    using print_filter_head [of cx sp f] assms that by auto
  then have "length filters < length (?fs @ ?o) + 1"
    using length_concat_ge [of filters "print_filter sp"] by simp
  then have f: "filters_loop (length (?fs @ ?o) + 1) cx (?fs @ ?o) [] = Inr (filters, ?o)"
    using filters_loop_print [OF assms, of "pt ARROW" "length (?fs @ ?o) + 1" "tl ?o" "[]"]
    unfolding o [symmetric] by (simp del: filters_loop.simps)
  show ?thesis by (simp only: parse_query_def Let_def list.sel s f rbind_simps prod.case output_semi_print)
qed

lemma out_word_simps:
  "out_word cx (lit (verb_word v)) out ts = Inr (out\<lparr>o_verbosity := v\<rparr>, tl ts)"
  "out_word cx (lit ''geom'') out ts = parse_out_geom cx (out\<lparr>o_geometry := GGeom\<rparr>) (tl ts)"
  "out_word cx (lit ''bb'') out ts = Inr (out\<lparr>o_geometry := GBb\<rparr>, tl ts)"
  "out_word cx (lit ''center'') out ts = Inr (out\<lparr>o_geometry := GCenter\<rparr>, tl ts)"
  "out_word cx (lit ''qt'') out ts = Inr (out\<lparr>o_order := OQt\<rparr>, tl ts)"
  "out_word cx (lit ''noids'') out ts = Inr (out\<lparr>o_noids := True\<rparr>, tl ts)"
  "out_word cx (lit ''count'') out ts = Inr (out\<lparr>o_count := True\<rparr>, tl ts)"
  by (cases v) (simp_all add: out_word_def verbosities_def)

text \<open>One modifier of \<open>out\<close> with enough loop bound left.\<close>

lemma out_loop_word:
  "out_word cx w out (idt w # ts) = Inr (out', ts') \<Longrightarrow> 0 < n \<Longrightarrow>
   out_loop n cx out (idt w # ts) = out_loop (n - 1) cx out' ts'"
  by (cases n) simp_all

lemma out_geom_print:
  assumes "t_type t \<noteq> LPAREN"
  shows "parse_out_geom cx out (t # ts) = Inr (out, t # ts)"
  using assms by (simp add: parse_out_geom_def)

lemma out_geom_bbox_print:
  assumes "\<forall>x\<in>set (bbox_list b). num_ok x"
  shows "parse_out_geom cx out (pt LPAREN # sep_by print_num (bbox_list b) @ pt RPAREN # ts)
    = Inr (out\<lparr>o_geom_bbox := Some b\<rparr>, ts)"
proof -
  obtain s w n e where b: "b = (s, w, n, e)" by (cases b)
  have "parse_number_list cx (sep_by print_num (bbox_list b) @ pt RPAREN # ts) = Inr (bbox_list b, pt RPAREN # ts)"
    using assms b by (intro number_list_print) auto
  then show ?thesis by (simp add: parse_out_geom_def bbox_of_def b)
qed

text \<open>\<open>oruns\<close>: from one state of the \<open>out\<close> loop to another, with enough bound left at both ends.\<close>

definition oruns :: "pctx \<Rightarrow> out_spec \<Rightarrow> token list \<Rightarrow> out_spec \<Rightarrow> token list \<Rightarrow> bool" where
  "oruns cx a ts b us \<longleftrightarrow> (\<forall>n. length ts < n \<longrightarrow> (\<exists>m. length us < m \<and> out_loop n cx a ts = out_loop m cx b us))"

lemma oruns_refl: "oruns cx a ts a ts"
  by (auto simp: oruns_def)

lemma oruns_trans: "oruns cx a ts b us \<Longrightarrow> oruns cx b us c vs \<Longrightarrow> oruns cx a ts c vs"
  unfolding oruns_def by metis

lemma oruns_word:
  assumes "out_word cx w a (idt w # ts) = Inr (b, us)" and "length us \<le> length ts"
  shows "oruns cx a (idt w # ts) b us"
  unfolding oruns_def
proof (intro allI impI)
  fix n assume n: "length (idt w # ts) < n"
  then have "out_loop n cx a (idt w # ts) = out_loop (n - 1) cx b us"
    using out_loop_word [OF assms(1)] by simp
  moreover have "length us < n - 1" using n assms(2) by simp
  ultimately show "\<exists>m. length us < m \<and> out_loop n cx a (idt w # ts) = out_loop m cx b us" by blast
qed

lemma oruns_num: "oruns cx a (numt (Fin (of_int i)) # ts) (a\<lparr>o_limit := Some i\<rparr>) ts"
  unfolding oruns_def
proof (intro allI impI)
  fix n assume n: "length (numt (Fin (of_int i)) # ts) < n"
  then obtain m where "n = Suc m" "length ts < m" by (cases n) auto
  then show "\<exists>m. length ts < m \<and> out_loop n cx a (numt (Fin (of_int i)) # ts) = out_loop m cx (a\<lparr>o_limit := Some i\<rparr>) ts"
    by auto
qed

lemma oruns_geometry:
  assumes "out_ok out" and "o_geometry a = GNone" "o_geom_bbox a = None" and t: "t_type t \<noteq> LPAREN"
  shows "oruns cx a (print_geometry out @ t # ts)
    (a\<lparr>o_geometry := o_geometry out, o_geom_bbox := o_geom_bbox out\<rparr>) (t # ts)"
proof -
  have g: "oruns cx b (idt (lit ''geom'') # t # ts) (b\<lparr>o_geometry := GGeom\<rparr>) (t # ts)" for b
    by (rule oruns_word) (simp_all add: out_word_simps out_geom_print t)
  have bb: "oruns cx b (idt (lit ''bb'') # t # ts) (b\<lparr>o_geometry := GBb\<rparr>) (t # ts)"
    "oruns cx b (idt (lit ''center'') # t # ts) (b\<lparr>o_geometry := GCenter\<rparr>) (t # ts)" for b
    by (rule oruns_word; simp add: out_word_simps)+
  show ?thesis
  proof (cases "o_geom_bbox out")
    case None
    have "a\<lparr>o_geometry := GNone, o_geom_bbox := None\<rparr> = a" "a\<lparr>o_geom_bbox := None\<rparr> = a" "\<And>g. a\<lparr>o_geometry := g, o_geom_bbox := None\<rparr> = a\<lparr>o_geometry := g\<rparr>"
      using assms(2,3) by simp_all
    then show ?thesis
      using None g bb by (cases "o_geometry out") (simp_all add: print_geometry_def oruns_refl)
  next
    case (Some b)
    let ?p = "pt LPAREN # sep_by print_num (bbox_list b) @ [pt RPAREN]"
    have ok: "\<forall>x\<in>set (bbox_list b). num_ok x" "o_geometry out \<noteq> GNone" using assms(1) Some by (simp_all add: out_ok_def)
    have gb: "oruns cx c (idt (lit ''geom'') # ?p @ us) (c\<lparr>o_geometry := GGeom, o_geom_bbox := Some b\<rparr>) us" for c us
      by (rule oruns_word) (simp_all add: out_word_simps out_geom_bbox_print [OF ok(1)])
    have e: "a\<lparr>o_geometry := g, o_geom_bbox := Some b\<rparr> = a\<lparr>o_geom_bbox := Some b, o_geometry := g\<rparr>" for g
      by (cases a) simp
    show ?thesis
      using Some ok(2) gb [of a "t # ts"] oruns_trans [OF gb [of a] bb(1)] oruns_trans [OF gb [of a] bb(2)]
      by (cases "o_geometry out") (simp_all add: print_geometry_def e)
  qed
qed

lemma oruns_flag:
  assumes "\<And>b. oruns cx b (idt w # ts) (f b) ts"
  shows "oruns cx a ((if c then [idt w] else []) @ ts) (if c then f a else a) ts"
  using assms by (simp add: oruns_refl)

lemma out_spec_eqI:
  "a\<lparr>o_verbosity := o_verbosity b, o_geometry := o_geometry b, o_geom_bbox := o_geom_bbox b, o_order := o_order b,
     o_limit := o_limit b, o_noids := o_noids b, o_count := o_count b\<rparr> = (b :: out_spec)" if "o_input_set a = o_input_set b"
  using that by (cases a; cases b) simp

lemma out_print:
  assumes "out_ok out"
  shows "parse_out cx (o_input_set out) (print_out out @ ts) = Inr (Out out, ts)"
proof -
  let ?q = "if o_order out = OQt then [idt (lit ''qt'')] else []"
  let ?l = "case o_limit out of None \<Rightarrow> [] | Some i \<Rightarrow> [numt (Fin (of_int i))]"
  let ?n = "if o_noids out then [idt (lit ''noids'')] else []"
  let ?c = "if o_count out then [idt (lit ''count'')] else []"
  let ?r5 = "pt SEMI # ts" let ?r4 = "?c @ ?r5" let ?r3 = "?n @ ?r4" let ?r2 = "?l @ ?r3" let ?r1 = "?q @ ?r2"
  let ?o0 = "default_out (o_input_set out)"
  let ?o1 = "?o0\<lparr>o_verbosity := o_verbosity out\<rparr>"
  let ?o2 = "?o1\<lparr>o_geometry := o_geometry out, o_geom_bbox := o_geom_bbox out\<rparr>"
  let ?o3 = "if o_order out = OQt then ?o2\<lparr>o_order := OQt\<rparr> else ?o2"
  let ?o4 = "case o_limit out of None \<Rightarrow> ?o3 | Some i \<Rightarrow> ?o3\<lparr>o_limit := Some i\<rparr>"
  let ?o5 = "if o_noids out then ?o4\<lparr>o_noids := True\<rparr> else ?o4"
  let ?o6 = "if o_count out then ?o5\<lparr>o_count := True\<rparr> else ?o5"
  have s1: "oruns cx ?o0 (idt (lit (verb_word (o_verbosity out))) # print_geometry out @ ?r1) ?o1 (print_geometry out @ ?r1)"
    by (rule oruns_word) (simp_all add: out_word_simps)
  obtain t us where t: "?r1 = t # us" "t_type t \<noteq> LPAREN"
    by (cases "o_order out = OQt"; cases "o_limit out"; cases "o_noids out"; cases "o_count out") auto
  have s2: "oruns cx ?o1 (print_geometry out @ ?r1) ?o2 ?r1"
    unfolding t(1) by (rule oruns_geometry [OF assms _ _ t(2)]) (simp_all add: default_out_def)
  have s3: "oruns cx ?o2 ?r1 ?o3 ?r2" by (rule oruns_flag) (rule oruns_word, simp_all add: out_word_simps)
  have s4: "oruns cx ?o3 ?r2 ?o4 ?r3" by (cases "o_limit out") (simp_all add: oruns_refl oruns_num)
  have s5: "oruns cx ?o4 ?r3 ?o5 ?r4" by (rule oruns_flag) (rule oruns_word, simp_all add: out_word_simps)
  have s6: "oruns cx ?o5 ?r4 ?o6 ?r5" by (rule oruns_flag) (rule oruns_word, simp_all add: out_word_simps)
  have "?o6 = out"
    by (cases out; cases "o_order out"; cases "o_limit out") (auto simp: default_out_def)
  moreover have "print_out out @ ts = idt (lit (verb_word (o_verbosity out))) # print_geometry out @ ?r1"
    by (simp add: print_out_def)
  ultimately have "oruns cx ?o0 (print_out out @ ts) out (pt SEMI # ts)"
    using oruns_trans [OF s1 oruns_trans [OF s2 oruns_trans [OF s3 oruns_trans [OF s4 oruns_trans [OF s5 s6]]]]] by simp
  then obtain m where "length (pt SEMI # ts) < m"
    "out_loop (length (print_out out @ ts) + 1) cx ?o0 (print_out out @ ts) = out_loop m cx out (pt SEMI # ts)"
    unfolding oruns_def by (metis less_add_one)
  moreover then have "out_loop m cx out (pt SEMI # ts) = Inr (out, ts)" by (cases m) auto
  ultimately show ?thesis by (simp add: parse_out_def)
qed

section \<open>Blocks and programs\<close>

lemma print_stmt_head:
  "printable (spotted cx sp) s \<Longrightarrow> \<exists>t us. print_stmt sp s = t # us \<and> (t_type t = IDENT \<or> t_type t = LPAREN \<or> t_type t = DOT)"
  by (cases s) auto

definition reads :: "(pystr \<Rightarrow> nat \<times> nat) \<Rightarrow> stmt_parser \<Rightarrow> statement \<Rightarrow> bool" where
  "reads sp stmt s \<longleftrightarrow> (\<forall>rest. stmt (print_stmt sp s @ rest) = Inr (Some s, rest))"

lemma block_loop_print:
  "\<forall>s\<in>set ss. printable (spotted cx sp) s \<and> reads sp stmt s \<Longrightarrow>
   block_loop (length ss + n) stmt cx (concat (map (print_stmt sp) ss) @ ts) prev lst = block_loop n stmt cx ts prev (lst @ ss)"
proof (induction ss arbitrary: lst)
  case (Cons s ss)
  obtain t us where t: "print_stmt sp s = t # us" "t_type t = IDENT \<or> t_type t = LPAREN \<or> t_type t = DOT"
    using print_stmt_head Cons.prems by (metis list.set_intros(1))
  have "stmt (print_stmt sp s @ concat (map (print_stmt sp) ss) @ ts) = Inr (Some s, concat (map (print_stmt sp) ss) @ ts)"
    using Cons.prems by (simp add: reads_def)
  then have "block_loop (Suc (length ss + n)) stmt cx (print_stmt sp s @ concat (map (print_stmt sp) ss) @ ts) prev lst
      = block_loop (length ss + n) stmt cx (concat (map (print_stmt sp) ss) @ ts) prev (lst @ [s])"
    using t by (auto simp: append_stmt_def)
  then show ?case using Cons.IH [of "lst @ [s]"] Cons.prems by (simp del: block_loop.simps)
qed simp

lemma body_loop_print:
  "\<forall>s\<in>set ss. printable (spotted cx sp) s \<and> reads sp stmt s \<Longrightarrow>
   body_loop (length ss + n) stmt cx what (concat (map (print_stmt sp) ss) @ ts) body = body_loop n stmt cx what ts (body @ ss)"
proof (induction ss arbitrary: body)
  case (Cons s ss)
  obtain t us where t: "print_stmt sp s = t # us" "t_type t = IDENT \<or> t_type t = LPAREN \<or> t_type t = DOT"
    using print_stmt_head Cons.prems by (metis list.set_intros(1))
  have "stmt (print_stmt sp s @ concat (map (print_stmt sp) ss) @ ts) = Inr (Some s, concat (map (print_stmt sp) ss) @ ts)"
    using Cons.prems by (simp add: reads_def)
  then have "body_loop (Suc (length ss + n)) stmt cx what (print_stmt sp s @ concat (map (print_stmt sp) ss) @ ts) body
      = body_loop (length ss + n) stmt cx what (concat (map (print_stmt sp) ss) @ ts) (body @ [s])"
    using t by (auto simp: append_stmt_def)
  then show ?case using Cons.IH [of "body @ [s]"] Cons.prems by (simp del: body_loop.simps)
qed simp

lemma length_print_stmts: "\<forall>s\<in>set ss. printable (spotted cx sp) s \<Longrightarrow> length ss \<le> length (concat (map (print_stmt sp) ss))"
  using print_stmt_head by (intro length_concat_ge) fastforce

lemma union_print:
  assumes "\<forall>s\<in>set ss. printable (spotted cx sp) s \<and> reads sp stmt s"
  shows "parse_block stmt cx (print_stmt sp (Union_stmt ss out) @ ts) = Inr (Union_stmt ss out, ts)"
proof -
  let ?body = "concat (map (print_stmt sp) ss) @ pt RPAREN # print_output out @ ts"
  obtain n where n: "length ?body + 1 = length ss + Suc n"
    using length_print_stmts [of ss] assms by (metis (no_types, lifting) Suc_eq_plus1 add_Suc_right le_add1 le_iff_add length_append order_trans)
  have "block_loop (length ?body + 1) stmt cx ?body [] [] = Inr ([ss], pt RPAREN # print_output out @ ts)"
    unfolding n block_loop_print [OF assms] by simp
  then show ?thesis by (simp add: parse_block_def del: block_loop.simps)
qed

lemma difference_print:
  assumes "printable (spotted cx sp) a" "reads sp stmt a" "printable (spotted cx sp) b" "reads sp stmt b"
  shows "parse_block stmt cx (print_stmt sp (Difference a b out) @ ts) = Inr (Difference a b out, ts)"
proof -
  let ?tail = "pt RPAREN # print_output out @ ts"
  let ?body = "print_stmt sp a @ pt MINUS # print_stmt sp b @ ?tail"
  have a: "block_loop (1 + n) stmt cx (print_stmt sp a @ us) p l = block_loop n stmt cx us p (l @ [a])" for n us p l
    using block_loop_print [of "[a]" cx sp stmt n us p l] assms by (simp del: block_loop.simps)
  have b: "block_loop (1 + n) stmt cx (print_stmt sp b @ us) p l = block_loop n stmt cx us p (l @ [b])" for n us p l
    using block_loop_print [of "[b]" cx sp stmt n us p l] assms by (simp del: block_loop.simps)
  obtain n where n: "length ?body + 1 = 1 + Suc (1 + Suc n)"
    using print_stmt_head [OF assms(1)] by auto
  have "block_loop (length ?body + 1) stmt cx ?body [] [] = block_loop (Suc (1 + Suc n)) stmt cx (pt MINUS # print_stmt sp b @ ?tail) [] [a]"
    unfolding n a by simp
  also have "\<dots> = block_loop (1 + Suc n) stmt cx (print_stmt sp b @ ?tail) [[a]] []" by simp
  also have "\<dots> = Inr ([[a], [b]], ?tail)" unfolding b by simp
  finally show ?thesis by (simp add: parse_block_def one_or_union_def del: block_loop.simps)
qed

lemma body_print:
  assumes "\<forall>s\<in>set ss. printable (spotted cx sp) s \<and> reads sp stmt s"
  shows "parse_body stmt cx what (pt LBRACE # concat (map (print_stmt sp) ss) @ pt RBRACE # ts) = Inr (ss, ts)"
proof -
  let ?body = "concat (map (print_stmt sp) ss) @ pt RBRACE # ts"
  obtain n where n: "length ?body + 1 = length ss + Suc n"
    using length_print_stmts [of ss] assms by (metis (no_types, lifting) Suc_eq_plus1 add_Suc_right le_add1 le_iff_add length_append order_trans)
  have "body_loop (length ?body + 1) stmt cx what ?body [] = Inr (ss, pt RBRACE # ts)"
    unfolding n body_loop_print [OF assms] by simp
  then show ?thesis by (simp add: parse_body_def del: body_loop.simps)
qed

lemma keyword_none:
  "keyword_types (lit ''foreach'') = None" "keyword_types (lit ''timeline'') = None"
  "keyword_types (lit ''if'') = None" "keyword_types (lit ''retro'') = None"
  by (simp_all add: keyword_types_def query_keywords_def)

lemma timeline_print:
  "ty \<in> {''node'', ''way'', ''relation''} \<Longrightarrow>
   parse_timeline cx (print_stmt sp (Timeline ty i v out) @ ts) = Inr (Timeline ty i v out, ts)"
  by (cases v) (auto simp: parse_timeline_def timeline_types_def)

lemma recurse_kind_type [simp]: "recurse_kind_of (kind_type k) = Some k"
  by (cases k) simp_all

lemma kind_type_not: "kind_type k \<noteq> IDENT" "kind_type k \<noteq> SEMI" "kind_type k \<noteq> ARROW"
  by (cases k; simp)+

lemma dot_statement_print:
  "printable (spotted cx sp) s \<Longrightarrow> \<exists>us. print_stmt sp s = pt DOT # us \<Longrightarrow> parse_dot_statement cx (print_stmt sp s @ ts) = Inr (s, ts)"
proof (cases s)
  case (Recurse k i out)
  then show ?thesis by (simp add: parse_dot_statement_def parse_recurse_op_def kind_type_not)
next
  case (Item i out)
  then show ?thesis
    using output_semi_print [of cx out ts] by (simp add: parse_dot_statement_def print_output_head)
next
  case (IsIn i out coords)
  assume "printable (spotted cx sp) s"
  then show ?thesis
    using IsIn output_semi_print [of cx out ts]
    by (cases coords) (auto simp: parse_dot_statement_def parse_is_in_def print_output_head split: prod.splits)
next
  case (MapToArea i out)
  then show ?thesis by (simp add: parse_dot_statement_def parse_map_to_area_def)
next
  case (Out out)
  assume "printable (spotted cx sp) s"
  then show ?thesis using out_print [of out cx ts] Out by (simp add: parse_dot_statement_def)
qed auto

lemma stmt_print:
  "printable (spotted cx sp) s \<Longrightarrow> length (print_stmt sp s) < f \<Longrightarrow> reads sp (parse_statement f cx) s"
proof (induction f arbitrary: s)
  case (Suc f)
  have sub: "\<forall>s\<in>set ss. printable (spotted cx sp) s \<and> reads sp (parse_statement f cx) s"
    if "\<forall>s\<in>set ss. printable (spotted cx sp) s" "length (concat (map (print_stmt sp) ss)) < f" for ss
  proof
    fix s assume s: "s \<in> set ss"
    have "length (print_stmt sp s) \<le> length (concat (map (print_stmt sp) ss))"
      using s by (induction ss) auto
    then show "printable (spotted cx sp) s \<and> reads sp (parse_statement f cx) s" using Suc.IH that s by simp
  qed
  show ?case unfolding reads_def
  proof
    fix rest
    show "parse_statement (Suc f) cx (print_stmt sp s @ rest) = Inr (Some s, rest)"
    proof (cases s)
      case (Query types filters sets out)
      then obtain k where k: "keyword_of types = Some k" "\<forall>f\<in>set filters. filter_ok (spotted cx sp) f" using Suc.prems(1) by auto
      then show ?thesis
        using Query keyword_of_types [OF k(1)] query_print [OF k(2), of types "idt (lit k)" sets out rest]
        by (simp add: some_stmt_def parse_keyword_def)
    next
      case (Union_stmt ss out)
      then have "\<forall>s\<in>set ss. printable (spotted cx sp) s \<and> reads sp (parse_statement f cx) s"
        using Suc.prems by (intro sub) auto
      from union_print [OF this, of out rest] show ?thesis using Union_stmt by (simp add: some_stmt_def)
    next
      case (Difference a b out)
      then have "\<forall>s\<in>set [a, b]. printable (spotted cx sp) s \<and> reads sp (parse_statement f cx) s"
        using Suc.prems by (intro sub) auto
      then have "parse_block (parse_statement f cx) cx (print_stmt sp (Difference a b out) @ rest) = Inr (Difference a b out, rest)"
        by (intro difference_print) auto
      then show ?thesis using Difference by (simp add: some_stmt_def)
    next
      case (Foreach i out body)
      then have "\<forall>s\<in>set body. printable (spotted cx sp) s \<and> reads sp (parse_statement f cx) s"
        using Suc.prems by (intro sub) auto
      from body_print [OF this, of "lit ''foreach''" rest] show ?thesis
        using Foreach by (simp add: some_stmt_def parse_keyword_def keyword_none parse_foreach_def)
    next
      case (If_stmt condition tb ob)
      have "\<forall>s\<in>set tb. printable (spotted cx sp) s \<and> reads sp (parse_statement f cx) s"
        "\<forall>s\<in>set ob. printable (spotted cx sp) s \<and> reads sp (parse_statement f cx) s"
        using If_stmt Suc.prems by (intro sub; auto)+
      then show ?thesis
        using If_stmt Suc.prems(1) body_print [of tb] body_print [of ob]
        by (simp add: some_stmt_def parse_keyword_def keyword_none parse_if_statement_def)
    next
      case (Retro e body)
      then have "\<forall>s\<in>set body. printable (spotted cx sp) s \<and> reads sp (parse_statement f cx) s"
        using Suc.prems by (intro sub) auto
      from body_print [OF this, of "quote1 (lit ''retro'')" rest] show ?thesis
        using Retro Suc.prems(1) by (simp add: some_stmt_def parse_keyword_def keyword_none parse_retro_def)
    next
      case (Timeline ty i v out)
      then show ?thesis using timeline_print [of ty cx sp i v out rest] Suc.prems(1)
        by (simp add: some_stmt_def parse_keyword_def keyword_none)
    next
      case (Recurse k i out)
      then show ?thesis using dot_statement_print [of cx sp s rest] by (simp add: some_stmt_def)
    next
      case (Item i out)
      then show ?thesis using dot_statement_print [of cx sp s rest] by (simp add: some_stmt_def)
    next
      case (IsIn i out c)
      then show ?thesis using dot_statement_print [of cx sp s rest] Suc.prems(1) by (simp add: some_stmt_def)
    next
      case (MapToArea i out)
      then show ?thesis using dot_statement_print [of cx sp s rest] by (simp add: some_stmt_def)
    next
      case (Out out)
      then show ?thesis using dot_statement_print [of cx sp s rest] Suc.prems(1) by (simp add: some_stmt_def)
    qed (use Suc.prems in auto)
  qed
qed simp

section \<open>Settings and programs\<close>

definition setting :: "string \<Rightarrow> token list \<Rightarrow> token list" where
  "setting name ts = [pt LBRACKET, idt (lit name), pt COLON] @ ts @ [pt RBRACKET]"

definition print_csv :: "settings \<Rightarrow> token list" where
  "print_csv s = (case s_csv_fields s of None \<Rightarrow> []
     | Some flds \<Rightarrow> setting ''out'' ([idt (lit ''csv''), pt LPAREN] @ sep_by (\<lambda>f. [strt f]) flds @
         [pt SEMI, idt (lit (if s_csv_header s then ''true'' else ''false'')), pt SEMI, strt (s_csv_separator s), pt RPAREN]))"

definition print_format :: "settings \<Rightarrow> token list" where
  "print_format s = (case s_out_format s of FmtJson \<Rightarrow> setting ''out'' [idt (lit ''json'')]
     | FmtXml \<Rightarrow> setting ''out'' [idt (lit ''xml'')] | FmtCsv \<Rightarrow> [])"

definition print_opt :: "string \<Rightarrow> ('a \<Rightarrow> token list) \<Rightarrow> 'a option \<Rightarrow> token list" where
  "print_opt name p v = (case v of None \<Rightarrow> [] | Some x \<Rightarrow> setting name (p x))"

definition print_pair :: "pystr \<times> pystr option \<Rightarrow> token list" where
  "print_pair p = strt (fst p) # two_opt (snd p)"

definition print_settings :: "settings \<Rightarrow> token list" where
  "print_settings s = print_csv s @ print_format s @ setting ''timeout'' (print_int (s_timeout s)) @
     setting ''maxsize'' (print_int (s_maxsize s)) @
     print_opt ''bbox'' (\<lambda>b. sep_by print_num (bbox_list b)) (s_bbox s) @ print_opt ''date'' (\<lambda>d. [strt d]) (s_date s) @
     print_opt ''diff'' print_pair (s_diff s) @ print_opt ''adiff'' print_pair (s_adiff s) @ [pt SEMI]"

definition settings_ok :: "settings \<Rightarrow> bool" where
  "settings_ok s \<longleftrightarrow>
     (s_csv_fields s = None \<longrightarrow> s_out_format s \<noteq> FmtCsv \<and> s_csv_header s \<and> s_csv_separator s = [9]) \<and>
     (case s_bbox s of None \<Rightarrow> True | Some b \<Rightarrow> \<forall>x\<in>set (bbox_list b). num_ok x)"

definition print_program :: "(pystr \<Rightarrow> nat \<times> nat) \<Rightarrow> program \<Rightarrow> token list" where
  "print_program sp p = print_settings (p_settings p) @ concat (map (print_stmt sp) (p_statements p))"

definition program_ok :: "(pystr \<Rightarrow> bool) \<Rightarrow> program \<Rightarrow> bool" where
  "program_ok ok p \<longleftrightarrow> settings_ok (p_settings p) \<and> (\<forall>s\<in>set (p_statements p). printable ok s)"

text \<open>\<open>sruns\<close>: the settings loop goes from one state to another, with enough bound left.\<close>

definition sruns :: "pctx \<Rightarrow> settings \<Rightarrow> bool \<Rightarrow> token list \<Rightarrow> settings \<Rightarrow> bool \<Rightarrow> token list \<Rightarrow> bool" where
  "sruns cx a x ts b y us \<longleftrightarrow>
     (\<forall>n. length ts < n \<longrightarrow> (\<exists>m. length us < m \<and> settings_loop n cx a x ts = settings_loop m cx b y us))"

lemma sruns_refl: "sruns cx a x ts a x ts"
  by (auto simp: sruns_def)

lemma sruns_trans: "sruns cx a x ts b y us \<Longrightarrow> sruns cx b y us c z vs \<Longrightarrow> sruns cx a x ts c z vs"
  unfolding sruns_def by metis

lemma sruns_setting:
  assumes "\<And>us. parse_setting cx (lit name) a (ts @ pt RBRACKET # us) = Inr (b, pt RBRACKET # us)"
  shows "sruns cx a x (setting name ts @ us) b True us"
  unfolding sruns_def
proof (intro allI impI)
  fix n assume n: "length (setting name ts @ us) < n"
  then obtain m where m: "n = Suc m" "length us < m" by (cases n) (auto simp: setting_def)
  then have "settings_loop n cx a x (setting name ts @ us) = settings_loop m cx b True us"
    using assms by (simp add: setting_def)
  then show "\<exists>m. length us < m \<and> settings_loop n cx a x (setting name ts @ us) = settings_loop m cx b True us"
    using m(2) by blast
qed

lemma csv_loop_print:
  assumes "t_type t = SEMI"
  shows "length flds < n \<Longrightarrow> csv_loop n cx (sep_by (\<lambda>f. [strt f]) flds @ t # ts) acc = Inr (acc @ flds, t # ts)"
proof (induction "\<lambda>f. [strt f]" flds arbitrary: n acc rule: sep_by.induct)
  case 1
  then show ?case using assms by (cases n) auto
next
  case (2 f)
  then obtain m where "n = Suc (Suc m)" by (cases n; cases "n - 1") auto
  then show ?case using assms by (simp add: parse_csv_field_def)
next
  case (3 f g fs)
  then obtain m where m: "n = Suc m" by (cases n) auto
  show ?case using m 3 by (simp add: parse_csv_field_def)
qed

lemma length_sep_by: "length flds \<le> length (sep_by (\<lambda>f. [strt f]) flds)"
  by (induction "\<lambda>f. [strt f]" flds rule: sep_by.induct) auto

lemma csv_setting_print:
  "parse_csv_setting cx a (pt LPAREN # sep_by (\<lambda>f. [strt f]) flds @
     [pt SEMI, idt (lit (if h then ''true'' else ''false'')), pt SEMI, strt sep, pt RPAREN] @ us)
   = Inr (a\<lparr>s_csv_fields := Some flds, s_csv_header := h, s_csv_separator := sep\<rparr>, us)"
proof -
  let ?r = "[idt (lit (if h then ''true'' else ''false'')), pt SEMI, strt sep, pt RPAREN] @ us"
  have "csv_loop (length (sep_by (\<lambda>f. [strt f]) flds @ pt SEMI # ?r) + 1) cx (sep_by (\<lambda>f. [strt f]) flds @ pt SEMI # ?r) []
      = Inr ([] @ flds, pt SEMI # ?r)"
    by (rule csv_loop_print) (use length_sep_by [of flds] in auto)
  then show ?thesis by (simp add: parse_csv_setting_def Let_def del: csv_loop.simps)
qed

lemma sruns_opt:
  assumes "\<And>v. sruns cx a True (setting name (p v) @ us) (f (Some v) a) True us" and "f None a = a"
  shows "sruns cx a True (print_opt name p w @ us) (f w a) True us"
  using assms by (cases w) (simp_all add: print_opt_def sruns_refl)

lemma settings_print:
  assumes ok: "settings_ok s"
  shows "parse_settings cx (print_settings s @ ts) = Inr (s, ts)"
proof -
  let ?d = default_settings
  let ?r8 = "pt SEMI # ts"
  let ?r7 = "print_opt ''adiff'' print_pair (s_adiff s) @ ?r8" let ?r6 = "print_opt ''diff'' print_pair (s_diff s) @ ?r7"
  let ?r5 = "print_opt ''date'' (\<lambda>d. [strt d]) (s_date s) @ ?r6"
  let ?r4 = "print_opt ''bbox'' (\<lambda>b. sep_by print_num (bbox_list b)) (s_bbox s) @ ?r5"
  let ?r3 = "setting ''maxsize'' (print_int (s_maxsize s)) @ ?r4"
  let ?r2 = "setting ''timeout'' (print_int (s_timeout s)) @ ?r3"
  let ?s1 = "case s_csv_fields s of None \<Rightarrow> ?d | Some f \<Rightarrow> ?d\<lparr>s_out_format := FmtCsv, s_csv_fields := Some f,
      s_csv_header := s_csv_header s, s_csv_separator := s_csv_separator s\<rparr>"
  let ?x1 = "s_csv_fields s \<noteq> None"
  let ?s2 = "?s1\<lparr>s_out_format := s_out_format s\<rparr>"
  let ?s4 = "?s2\<lparr>s_timeout := s_timeout s, s_maxsize := s_maxsize s\<rparr>"
  let ?s5 = "?s4\<lparr>s_bbox := s_bbox s\<rparr>" let ?s6 = "?s5\<lparr>s_date := s_date s\<rparr>"
  let ?s7 = "?s6\<lparr>s_diff := s_diff s\<rparr>" let ?s8 = "?s7\<lparr>s_adiff := s_adiff s\<rparr>"
  have c: "sruns cx ?d False (print_csv s @ us) ?s1 ?x1 us" for us
  proof (cases "s_csv_fields s")
    case (Some f)
    have "parse_setting cx (lit ''out'') ?d ((idt (lit ''csv'') # pt LPAREN # sep_by (\<lambda>f. [strt f]) f @
         [pt SEMI, idt (lit (if s_csv_header s then ''true'' else ''false'')), pt SEMI, strt (s_csv_separator s), pt RPAREN]) @ pt RBRACKET # vs)
       = Inr (?s1, pt RBRACKET # vs)" for vs
      using csv_setting_print [of cx "?d\<lparr>s_out_format := FmtCsv\<rparr>" f "s_csv_header s" "s_csv_separator s" "pt RBRACKET # vs"] Some
      by (simp add: parse_setting_def)
    from sruns_setting [OF this] show ?thesis using Some by (simp add: print_csv_def)
  qed (simp add: print_csv_def sruns_refl)
  have f: "sruns cx ?s1 ?x1 (print_format s @ us) ?s2 True us" for us
  proof (cases "s_out_format s")
    case FmtCsv
    then have "?x1" "?s2 = ?s1" using ok by (auto simp: settings_ok_def)
    then show ?thesis using FmtCsv by (simp add: print_format_def sruns_refl)
  next
    case FmtJson
    then show ?thesis unfolding print_format_def by (simp) (rule sruns_setting, simp add: parse_setting_def)
  next
    case FmtXml
    then show ?thesis unfolding print_format_def by (simp) (rule sruns_setting, simp add: parse_setting_def)
  qed
  have t: "sruns cx ?s2 True ?r2 (?s2\<lparr>s_timeout := s_timeout s\<rparr>) True ?r3"
    by (rule sruns_setting) (simp add: parse_setting_def)
  have m: "sruns cx (?s2\<lparr>s_timeout := s_timeout s\<rparr>) True ?r3 ?s4 True ?r4"
    by (rule sruns_setting) (simp add: parse_setting_def)
  have b: "sruns cx ?s4 True ?r4 ?s5 True ?r5"
  proof (cases "s_bbox s")
    case (Some bb)
    obtain w x y z where bb: "bb = (w, x, y, z)" by (cases bb)
    have "parse_number_list cx (sep_by print_num (bbox_list bb) @ pt RBRACKET # us) = Inr (bbox_list bb, pt RBRACKET # us)" for us
      using ok Some bb by (intro number_list_print) (auto simp: settings_ok_def)
    then have "parse_setting cx (lit ''bbox'') ?s4 (sep_by print_num (bbox_list bb) @ pt RBRACKET # us) = Inr (?s5, pt RBRACKET # us)" for us
      using Some bb by (simp add: parse_setting_def bbox_of_def)
    from sruns_setting [OF this] show ?thesis using Some by (simp add: print_opt_def)
  next
    case None
    moreover have "?s5 = ?s4" using None by (cases "s_csv_fields s") (simp_all add: default_settings_def)
    ultimately show ?thesis by (simp add: print_opt_def sruns_refl)
  qed
  have d: "sruns cx ?s5 True ?r5 ?s6 True ?r6"
    by (rule sruns_opt [where f = "\<lambda>v a. a\<lparr>s_date := v\<rparr>"])
       (rule sruns_setting, simp add: parse_setting_def, simp add: default_settings_def split: option.splits)
  have df: "sruns cx ?s6 True ?r6 ?s7 True ?r7"
    by (rule sruns_opt [where f = "\<lambda>v a. a\<lparr>s_diff := v\<rparr>"])
       (rule sruns_setting, simp add: parse_setting_def print_pair_def, simp add: default_settings_def split: option.splits)
  have ad: "sruns cx ?s7 True ?r7 ?s8 True ?r8"
    by (rule sruns_opt [where f = "\<lambda>v a. a\<lparr>s_adiff := v\<rparr>"])
       (rule sruns_setting, simp add: parse_setting_def print_pair_def, simp add: default_settings_def split: option.splits)
  have "?s8 = s" using ok by (cases s; cases "s_csv_fields s") (auto simp: default_settings_def settings_ok_def)
  moreover have "print_settings s @ ts = print_csv s @ print_format s @ ?r2" by (simp add: print_settings_def)
  ultimately have "sruns cx ?d False (print_settings s @ ts) s True ?r8"
    using sruns_trans [OF c sruns_trans [OF f sruns_trans [OF t sruns_trans [OF m sruns_trans [OF b
      sruns_trans [OF d sruns_trans [OF df ad]]]]]]] by (simp only:)
  then obtain k where "length ?r8 < k"
    "settings_loop (length (print_settings s @ ts) + 1) cx ?d False (print_settings s @ ts) = settings_loop k cx s True ?r8"
    unfolding sruns_def by (metis less_add_one)
  moreover then have "settings_loop k cx s True ?r8 = Inr ((s, True), ?r8)" by (cases k) auto
  ultimately show ?thesis by (simp add: parse_settings_def)
qed

lemma program_loop_print:
  "\<forall>s\<in>set ss. printable (spotted cx sp) s \<and> reads sp (parse_statement f cx) s \<Longrightarrow>
   program_loop (length ss + Suc n) f cx (concat (map (print_stmt sp) ss)) acc = Inr (acc @ ss, [])"
proof (induction ss arbitrary: acc)
  case Nil
  then show ?case by (simp add: eof_token_def)
next
  case (Cons s ss)
  obtain t us where t: "print_stmt sp s = t # us" "t_type t = IDENT \<or> t_type t = LPAREN \<or> t_type t = DOT"
    using print_stmt_head Cons.prems by (metis list.set_intros(1))
  have "parse_statement f cx (print_stmt sp s @ concat (map (print_stmt sp) ss)) = Inr (Some s, concat (map (print_stmt sp) ss))"
    using Cons.prems by (simp add: reads_def)
  then have "program_loop (Suc (length ss + Suc n)) f cx (print_stmt sp s @ concat (map (print_stmt sp) ss)) acc
      = program_loop (length ss + Suc n) f cx (concat (map (print_stmt sp) ss)) (acc @ [s])"
    using t by (auto simp: append_stmt_def)
  then show ?case using Cons.IH [of "acc @ [s]"] Cons.prems by (simp del: program_loop.simps)
qed

lemma program_print:
  assumes "program_ok (spotted cx sp) p"
  shows "parse_program cx (print_program sp p) = Inr p"
proof -
  let ?ss = "p_statements p" and ?ts = "concat (map (print_stmt sp) (p_statements p))"
  have pr: "\<forall>s\<in>set ?ss. printable (spotted cx sp) s" using assms by (simp add: program_ok_def)
  have "\<forall>s\<in>set ?ss. printable (spotted cx sp) s \<and> reads sp (parse_statement (length ?ts + 1) cx) s"
  proof
    fix s assume s: "s \<in> set ?ss"
    have "length (print_stmt sp s) \<le> length ?ts" using s by (induction ?ss arbitrary: p) (auto simp: member_le_sum_list length_concat)
    then show "printable (spotted cx sp) s \<and> reads sp (parse_statement (length ?ts + 1) cx) s" using stmt_print pr s by simp
  qed
  note run = program_loop_print [OF this]
  obtain n where n: "length ?ts + 1 = length ?ss + Suc n"
    using length_print_stmts [OF pr] by (metis Suc_eq_plus1 add_Suc_right le_iff_add)
  have "program_loop (length ?ts + 1) (length ?ts + 1) cx ?ts [] = Inr (?ss, [])"
    using run [of n "[]"] unfolding n by (simp only: append_Nil)
  then show ?thesis
    using settings_print [of "p_settings p" cx ?ts] assms
    by (simp add: parse_program_def print_program_def program_ok_def del: program_loop.simps)
qed

end
