(* ===== verification/Query_Properties.thy ===== *)
theory Query_Properties
  imports Parser_Total Parser_Roundtrip
begin

text \<open>The properties of the query language front end: tokenizer and parser.\<close>

section \<open>The tokenizer\<close>

text \<open>
  C9. \<open>tokenize\<close> terminates on every text. Either it returns consecutive slices of the text with
  their lines and columns, separated by nothing but blanks and comments, with one end-of-file token
  last, at the end of the text; or it raises a \<open>ParseError\<close> with the line and column of an offset in the text, or the \<open>ValueError\<close> with which
  \<open>float\<close> rejects a slice that starts with a digit (a digit of another script).
\<close>

theorem tokenize_covers_text:
  "case tokenize u text of
     Inr tokens \<Rightarrow> \<exists>toks eof. tokens = toks @ [eof] \<and> chain text 0 toks \<and> t_type eof = EOF \<and> t_text eof = [] \<and>
       t_start eof = length text \<and> t_end eof = length text \<and> text_position text (length text) (t_line eof) (t_col eof)
   | Inl e \<Rightarrow> (\<exists>off line col msg. text_position text off line col \<and> e = ParseError msg (Some line) (Some col)) \<or>
       e = ValueError \<and> (\<exists>i j. i < j \<and> j \<le> length text \<and> isdigit u (text ! i) \<and> float_of_text u (slice text i j) = Inl e)"
proof (cases "tokenize u text")
  case (Inl e)
  then have "lex_err u text e" using tokenize_loop_error by (simp add: tokenize_def)
  then show ?thesis using Inl float_of_text_errors by (auto simp: lex_err_def err_at_def)
next
  case (Inr tokens)
  show ?thesis
    by (rule tokenize_Inr [OF Inr]) (use Inr line_col_position [of "length text" "text"] in \<open>auto simp: slice_def\<close>)
qed

section \<open>The parser\<close>

text \<open>
  C11. \<open>parse\<close> terminates on every text, with a program or one of three exceptions: a
  \<open>ParseError\<close> with the line and column of an offset in the text, or \<open>ValueError\<close> or \<open>OverflowError\<close> from a number. The
  fuel of the parser's loops, the number of tokens left, never runs out. (Python's limit on the depth
  of the recursion is not modelled.)
\<close>

theorem parse_total:
  "(\<exists>p. parse u text = Inr p) \<or>
   (\<exists>e. parse u text = Inl e \<and> (e = ValueError \<or> e = OverflowError \<or>
      (\<exists>off line col msg. text_position text off line col \<and> e = ParseError msg (Some line) (Some col))))"
proof (cases "parse u text")
  case (Inl e)
  then show ?thesis using parse_error_ok [OF Inl] by (auto simp: err_ok_def err_at_def)
qed simp

text \<open>
  C12. Parsing inverts printing: the tokens printed for a program parse back to that program, with its
  settings, filters, nested blocks, conditions, loops and differences. The raw texts of a program (the
  conditions of \<open>if\<close>, the dates of \<open>retro\<close>) are printed at their place in the source text. Left out
  are programs with a \<open>poly\<close> filter or an unsupported statement, numbers that are nan, types, lists
  and tag filters that no text gives (empty lists of ids, say), and the settings of CSV output without its fields.
\<close>

theorem parse_print_roundtrip:
  assumes "program_ok (spotted cx sp) p"
  shows "parse_program cx (print_program sp p) = Inr p"
  using assms by (rule program_print)

text \<open>A program whose condition stands at the start of the source text.\<close>

definition sample_program :: program where
  "sample_program = \<lparr>p_settings = default_settings\<lparr>s_out_format := FmtJson, s_timeout := 25\<rparr>,
     p_statements =
      [Difference
         (Query [''way''] [TagFilter (lit ''highway'') OpEq (Some (lit ''primary'')) False False,
            BboxFilter (Fin 51) (Fin (- 1)) (Fin 52) (Fin 0)] [] default_set)
         (Recurse RDown default_set default_set) (lit ''a''),
       If_stmt (lit ''count(ways)'') [Out (default_out (lit ''a''))] [Item default_set (lit ''b'')]]\<rparr>"

theorem parse_print_roundtrip_witness:
  "parse_program \<lparr>cx_udb = ascii_db, cx_text = lit ''count(ways)''\<rparr> (print_program (\<lambda>_. (0, 11)) sample_program) = Inr sample_program"
proof (rule parse_print_roundtrip)
  show "program_ok (spotted \<lparr>cx_udb = ascii_db, cx_text = lit ''count(ways)''\<rparr> (\<lambda>_. (0, 11))) sample_program" by code_simp
qed

text \<open>
  The parser does not turn every malformed number into a \<open>ParseError\<close>: a polygon string
  with a word in it ends the parse with the \<open>ValueError\<close> of \<open>float\<close>.
\<close>

lemma poly_word_raises_ValueError:
  "parse ascii_db (lit ''node(poly:'' @ [34] @ lit ''a b c'' @ [34] @ lit '');out;'') = Inl ValueError"
  by code_simp

end
