(* ===== verification/Evaluator.thy ===== *)
theory Evaluator
  imports Lexer
begin

text \<open>
  \<^verbatim>\<open>src/src/osmpq/ql/evaluator.py\<close>: tokenizer and recursive-descent parser of the expressions in
  \<open>(if:)\<close> filters and \<open>if\<close> statements. The parser state is the token list from \<open>self.pos\<close> on,
  without the final EOF token. \<open>while\<close> loops check that their operand consumed a token and
  the nesting of expressions is bounded by the number of tokens; \<open>OutOfFuel\<close> marks a violation
  of either, which \<open>Evaluator_Correct\<close> shows impossible. Python's own limit on the depth of the
  recursion, beyond which nested parentheses raise \<open>RecursionError\<close>, is not modelled, here and in the
  evaluation (\<open>Evalsql\<close>).
\<close>

datatype etoken_type =
    E_NUMBER | E_STRING | E_IDENT
  | E_LPAREN | E_RPAREN | E_LBRACKET | E_RBRACKET | E_COMMA | E_DOT
  | E_PLUS | E_MINUS | E_STAR | E_SLASH | E_BANG
  | E_LT | E_LE | E_GT | E_GE | E_EQEQ | E_NEQ | E_ANDAND | E_OROR
  | E_QUESTION | E_COLON | E_EOF

fun etype_text :: "etoken_type \<Rightarrow> string" where
  "etype_text E_NUMBER = ''NUMBER''"
| "etype_text E_STRING = ''STRING''"
| "etype_text E_IDENT = ''IDENT''"
| "etype_text E_LPAREN = ''(''"
| "etype_text E_RPAREN = '')''"
| "etype_text E_LBRACKET = ''[''"
| "etype_text E_RBRACKET = '']''"
| "etype_text E_COMMA = '',''"
| "etype_text E_DOT = ''.''"
| "etype_text E_PLUS = ''+''"
| "etype_text E_MINUS = ''-''"
| "etype_text E_STAR = ''*''"
| "etype_text E_SLASH = ''/''"
| "etype_text E_BANG = ''!''"
| "etype_text E_LT = ''<''"
| "etype_text E_LE = ''<=''"
| "etype_text E_GT = ''>''"
| "etype_text E_GE = ''>=''"
| "etype_text E_EQEQ = ''==''"
| "etype_text E_NEQ = ''!=''"
| "etype_text E_ANDAND = ''&&''"
| "etype_text E_OROR = ''||''"
| "etype_text E_QUESTION = ''?''"
| "etype_text E_COLON = '':''"
| "etype_text E_EOF = ''EOF''"

record etoken =
  e_type :: etoken_type
  e_text :: pystr
  e_value :: tok_value
  e_pos :: nat

definition e_single_char :: "(nat \<times> etoken_type) list" where
  "e_single_char = [(40, E_LPAREN), (41, E_RPAREN), (91, E_LBRACKET), (93, E_RBRACKET), (44, E_COMMA),
     (46, E_DOT), (43, E_PLUS), (42, E_STAR), (47, E_SLASH)]"

definition e_escapes :: "(nat \<times> nat) list" where
  "e_escapes = [(110, 10), (116, 9), (114, 13), (92, 92), (34, 34), (39, 39), (47, 47)]"

definition eval_error :: "pystr \<Rightarrow> py_error" where
  "eval_error msg = ParseError (lit ''evaluator: '' @ msg) None None"

section \<open>Tokenizer\<close>

function e_read_string_loop :: "pystr \<Rightarrow> nat \<Rightarrow> nat \<Rightarrow> pystr \<Rightarrow> (pystr \<times> nat) result" where
  "e_read_string_loop text quote j out =
     (if length text \<le> j then Inl (eval_error (lit ''unterminated string literal''))
      else let c = text ! j in
        if c = quote then Inr (out, j + 1)
        else if c = 92 \<and> j + 1 < length text then
          let esc = text ! (j + 1) in
          e_read_string_loop text quote (j + 2) (out @ [case map_of e_escapes esc of Some v \<Rightarrow> v | None \<Rightarrow> esc])
        else e_read_string_loop text quote (j + 1) (out @ [c]))"
  by pat_completeness auto
termination by (relation "measure (\<lambda>(text, quote, j, out). length text - j)") auto

declare e_read_string_loop.simps [simp del]

definition e_read_string :: "pystr \<Rightarrow> nat \<Rightarrow> (pystr \<times> nat) result" where
  "e_read_string text i = e_read_string_loop text (text ! i) (i + 1) []"

text \<open>The operators of two characters and those of one, in the order of the tests.\<close>

definition e_two_char :: "nat \<Rightarrow> nat \<Rightarrow> etoken_type option" where
  "e_two_char c d =
     (if c = 38 \<and> d = 38 then Some E_ANDAND
      else if c = 124 \<and> d = 124 then Some E_OROR
      else if c = 60 \<and> d = 61 then Some E_LE
      else if c = 62 \<and> d = 61 then Some E_GE
      else if c = 61 \<and> d = 61 then Some E_EQEQ
      else if c = 33 \<and> d = 61 then Some E_NEQ else None)"

definition e_one_char :: "nat \<Rightarrow> etoken_type option" where
  "e_one_char c =
     (if c = 60 then Some E_LT
      else if c = 62 then Some E_GT
      else if c = 33 then Some E_BANG
      else if c = 45 then Some E_MINUS
      else if c = 63 then Some E_QUESTION
      else if c = 58 then Some E_COLON
      else map_of e_single_char c)"

definition e_number_end :: "unicode_db \<Rightarrow> pystr \<Rightarrow> nat \<Rightarrow> nat" where
  "e_number_end u text i =
     (let j = scan_while (isdigit u) text i
      in if j < length text \<and> text ! j = 46 \<and> j + 1 < length text \<and> isdigit u (text ! (j + 1))
         then scan_while (isdigit u) text (j + 1) else j)"

definition e_token :: "pystr \<Rightarrow> nat \<Rightarrow> nat \<Rightarrow> etoken_type \<Rightarrow> tok_value \<Rightarrow> etoken \<times> nat" where
  "e_token text i j ty v = (\<lparr>e_type = ty, e_text = slice text i j, e_value = v, e_pos = i\<rparr>, j)"

text \<open>One pass of the loop at a character that is not blank: the token and the next position.\<close>

definition e_lex_one :: "unicode_db \<Rightarrow> pystr \<Rightarrow> nat \<Rightarrow> (etoken \<times> nat) result" where
  "e_lex_one u text i =
     (let n = length text; c = text ! i
      in if c = 34 \<or> c = 39 then
           rbind (e_read_string text i) (\<lambda>(value, j). Inr (e_token text i j E_STRING (VStr value)))
         else case (if i + 1 < n then e_two_char c (text ! (i + 1)) else None) of
           Some ty \<Rightarrow> Inr (e_token text i (i + 2) ty VNone)
         | None \<Rightarrow>
             (case e_one_char c of
                Some ty \<Rightarrow> Inr (e_token text i (i + 1) ty VNone)
              | None \<Rightarrow>
                  if isdigit u c \<or> c = 46 \<and> i + 1 < n \<and> isdigit u (text ! (i + 1)) then
                    (let j = e_number_end u text i
                     in rbind (float_of_text u (slice text i j)) (\<lambda>v. Inr (e_token text i j E_NUMBER (VNum v))))
                  else if isalpha u c \<or> c = 95 then
                    (let j = scan_while (\<lambda>x. isalnum u x \<or> x = 95) text (i + 1)
                     in Inr (e_token text i j E_IDENT (VStr (slice text i j))))
                  else Inl (eval_error (lit ''unexpected character '' @ repr_char u c @ lit '' in expression''))))"

lemma e_read_string_loop_progress: "e_read_string_loop text q j out = Inr (v, k) \<Longrightarrow> j < k \<and> k \<le> length text"
proof (induction "length text - j" arbitrary: j out rule: less_induct)
  case less
  have IH: "e_read_string_loop text q j' out' = Inr (v, k) \<Longrightarrow> j < j' \<Longrightarrow> j < length text
      \<Longrightarrow> j' < k \<and> k \<le> length text" for j' out'
    using less.hyps [of j' out'] by simp
  show ?case
    using less.prems unfolding e_read_string_loop.simps [of "text" q j out] Let_def
    by (auto split: if_splits dest!: IH)
qed

lemma e_number_end_progress:
  assumes i: "i < length text" and "isdigit u (text ! i) \<or> text ! i = 46 \<and> i + 1 < length text \<and> isdigit u (text ! (i + 1))"
  shows "i < e_number_end u text i \<and> e_number_end u text i \<le> length text"
proof -
  let ?j = "scan_while (isdigit u) text i"
  have j: "i \<le> ?j \<and> ?j \<le> length text" using scan_while_bounds [of i "isdigit u" "text"] i by simp
  have k: "?j + 1 \<le> scan_while (isdigit u) text (?j + 1) \<and>
     (?j + 1 \<le> length text \<longrightarrow> scan_while (isdigit u) text (?j + 1) \<le> length text)"
    using scan_while_bounds [of "?j + 1" "isdigit u" "text"] by simp
  show ?thesis
  proof (cases "isdigit u (text ! i)")
    case True
    then have "?j = scan_while (isdigit u) text (i + 1)" using i by (simp add: scan_while.simps [of _ _ i])
    then have "i < ?j" using scan_while_bounds [of "i + 1" "isdigit u" "text"] by simp
    then show ?thesis using j k by (auto simp: e_number_end_def Let_def)
  next
    case False
    then have "?j = i" by (simp add: scan_while.simps [of _ _ i])
    then show ?thesis using False assms k by (auto simp: e_number_end_def Let_def)
  qed
qed

lemma e_lex_one_progress:
  assumes i: "i < length text" and s: "e_lex_one u text i = Inr (t, j)"
  shows "i < j \<and> j \<le> length text"
proof (cases "text ! i = 34 \<or> text ! i = 39")
  case True
  then show ?thesis using s e_read_string_loop_progress
    by (fastforce simp: e_lex_one_def e_token_def e_read_string_def rbind_eq_Inr)
next
  case False
  have "i < scan_while (\<lambda>x. isalnum u x \<or> x = 95) text (i + 1)" "scan_while (\<lambda>x. isalnum u x \<or> x = 95) text (i + 1) \<le> length text"
    using scan_while_bounds [of "i + 1" "\<lambda>x. isalnum u x \<or> x = 95" "text"] i by auto
  then show ?thesis
    using s i False e_number_end_progress [OF i, of u]
    by (auto simp: e_lex_one_def e_token_def rbind_eq_Inr Let_def split: option.splits if_splits)
qed

function e_tokenize_loop :: "unicode_db \<Rightarrow> pystr \<Rightarrow> nat \<Rightarrow> etoken list \<Rightarrow> etoken list result" where
  "e_tokenize_loop u text i tokens =
     (if i < length text then
        (let c = text ! i in
         if c = 32 \<or> c = 9 \<or> c = 13 \<or> c = 10 then e_tokenize_loop u text (i + 1) tokens
         else case e_lex_one u text i of
             Inl e \<Rightarrow> Inl e
           | Inr (t, j) \<Rightarrow> e_tokenize_loop u text j (tokens @ [t]))
      else Inr (tokens @ [fst (e_token text (length text) (length text) E_EOF VNone)]))"
  by pat_completeness auto
termination
  by (relation "measure (\<lambda>(u, text, i, tokens). length text - i)") (auto dest!: e_lex_one_progress)

declare e_tokenize_loop.simps [simp del]

definition e_tokenize :: "unicode_db \<Rightarrow> pystr \<Rightarrow> etoken list result" where
  "e_tokenize u text = e_tokenize_loop u text 0 []"

section \<open>Syntax trees\<close>

text \<open>The operator of a \<open>Unary\<close> or \<open>BinOp\<close> is the type of its token.\<close>

datatype expr =
    Num pyfloat
  | Str pystr
  | TagAccess pystr
  | ElementCall pystr "expr list"
  | SetCount pystr
  | NamedSetCount pystr pystr
  | Aggregate pystr expr
  | Unary etoken_type expr
  | BinOp etoken_type expr expr
  | Ternary expr expr expr

definition type_keywords :: "pystr list" where
  "type_keywords = map lit [''nodes'', ''ways'', ''relations'', ''areas'', ''nwr'']"

definition agg_funcs :: "pystr list" where
  "agg_funcs = map lit [''u'', ''min'', ''max'', ''sum'', ''set'']"

definition element_func_arity :: "(pystr \<times> nat) list" where
  "element_func_arity = map (\<lambda>(n, k). (lit n, k))
     [(''id'', 0), (''type'', 0), (''version'', 0), (''timestamp'', 0), (''changeset'', 0), (''uid'', 0), (''user'', 0),
      (''count_tags'', 0), (''count_members'', 0), (''count_distinct_members'', 0), (''is_closed'', 0), (''length'', 0),
      (''lat'', 0), (''lon'', 0), (''is_tag'', 1), (''count_by_role'', 1), (''number'', 1), (''is_number'', 1)]"

section \<open>Parser\<close>

type_synonym 'a eres = "('a \<times> etoken list) result"
type_synonym eparser = "etoken list \<Rightarrow> expr eres"

fun e_cur :: "etoken list \<Rightarrow> etoken_type" where
  "e_cur [] = E_EOF"
| "e_cur (t # ts) = e_type t"

fun e_label :: "etoken list \<Rightarrow> pystr" where
  "e_label [] = lit ''end of expression''"
| "e_label (t # ts) = [39] @ e_text t @ [39]"

definition e_error :: "etoken list \<Rightarrow> pystr \<Rightarrow> 'a eres" where
  "e_error ts msg = Inl (eval_error (msg @ lit '', got '' @ e_label ts))"

definition e_expect :: "etoken_type \<Rightarrow> etoken list \<Rightarrow> etoken eres" where
  "e_expect ty ts =
     (case ts of
        t # ts' \<Rightarrow> if e_type t = ty then Inr (t, ts') else e_error ts (lit ''expected '' @ [39] @ lit (etype_text ty) @ [39])
      | [] \<Rightarrow> e_error ts (lit ''expected '' @ [39] @ lit (etype_text ty) @ [39]))"

definition e_expect_ident :: "etoken list \<Rightarrow> pystr eres" where
  "e_expect_ident ts =
     (if e_cur ts \<noteq> E_IDENT then e_error ts (lit ''expected an identifier'') else Inr (e_text (hd ts), tl ts))"

definition e_expect_type_keyword :: "etoken list \<Rightarrow> pystr eres" where
  "e_expect_type_keyword ts =
     (if e_cur ts \<noteq> E_IDENT \<or> e_text (hd ts) \<notin> set type_keywords
      then e_error ts (lit ''expected one of nodes/ways/relations/areas/nwr'') else Inr (e_text (hd ts), tl ts))"

definition e_type_call :: "etoken list \<Rightarrow> pystr eres" where
  "e_type_call ts =
     rbind (e_expect E_LPAREN ts) (\<lambda>(_, ts).
     rbind (e_expect_type_keyword ts) (\<lambda>(type_name, ts).
     rbind (e_expect E_RPAREN ts) (\<lambda>(_, ts). Inr (type_name, ts))))"

definition parse_named_count :: "eparser" where
  "parse_named_count ts =
     rbind (e_expect_ident ts) (\<lambda>(set_name, ts).
     rbind (e_expect E_DOT ts) (\<lambda>(_, ts).
     rbind (e_expect_ident ts) (\<lambda>(method, ts).
       if method \<noteq> lit ''count''
       then e_error ts (lit ''unknown set method '' @ [39] @ lit ''.'' @ method @ lit ''(...)'' @ [39] @ lit '' (only ''
              @ [39] @ lit ''.count(...)'' @ [39] @ lit '' is supported)'')
       else rbind (e_type_call ts) (\<lambda>(type_name, ts). Inr (NamedSetCount set_name type_name, ts)))))"

definition parse_tag_access :: "eparser" where
  "parse_tag_access ts =
     rbind (e_expect E_LBRACKET ts) (\<lambda>(_, ts).
       if e_cur ts \<noteq> E_STRING then e_error ts (lit ''expected a quoted tag key in t[...]'')
       else case e_value (hd ts) of
           VStr key \<Rightarrow> rbind (e_expect E_RBRACKET (tl ts)) (\<lambda>(_, ts). Inr (TagAccess key, ts))
         | _ \<Rightarrow> Inl TypeError)"

function args_loop :: "eparser \<Rightarrow> expr list \<Rightarrow> etoken list \<Rightarrow> expr list eres" where
  "args_loop p args ts =
     (if e_cur ts = E_COMMA
      then case p (tl ts) of
          Inl e \<Rightarrow> Inl e
        | Inr (a, ts') \<Rightarrow> if length ts' < length ts then args_loop p (args @ [a]) ts' else Inl OutOfFuel
      else Inr (args, ts))"
  by pat_completeness auto
termination by (relation "measure (\<lambda>(p, args, ts). length ts)") auto

declare args_loop.simps [simp del]

definition parse_args :: "eparser \<Rightarrow> etoken list \<Rightarrow> expr list eres" where
  "parse_args p ts =
     (if e_cur ts = E_RPAREN then Inr ([], ts) else rbind (p ts) (\<lambda>(a, ts). args_loop p [a] ts))"

definition parse_element_call :: "eparser \<Rightarrow> pystr \<Rightarrow> nat \<Rightarrow> eparser" where
  "parse_element_call p name expected ts =
     rbind (e_expect E_LPAREN ts) (\<lambda>(_, ts).
     rbind (parse_args p ts) (\<lambda>(args, ts).
     rbind (e_expect E_RPAREN ts) (\<lambda>(_, ts).
       if length args \<noteq> expected
       then e_error ts ([39] @ name @ lit ''()'' @ [39] @ lit '' takes '' @ py_str_nat expected
              @ lit '' argument(s), got '' @ py_str_nat (length args))
       else Inr (ElementCall name args, ts))))"

definition parse_paren :: "eparser \<Rightarrow> eparser" where
  "parse_paren p ts = rbind (p ts) (\<lambda>(e, ts). rbind (e_expect E_RPAREN ts) (\<lambda>(_, ts). Inr (e, ts)))"

definition parse_call :: "eparser \<Rightarrow> pystr \<Rightarrow> etoken list \<Rightarrow> eparser" where
  "parse_call p name here ts =
     (if name = lit ''t'' then parse_tag_access ts
      else if name = lit ''count'' then rbind (e_type_call ts) (\<lambda>(type_name, ts). Inr (SetCount type_name, ts))
      else if name \<in> set agg_funcs then
        rbind (e_expect E_LPAREN ts) (\<lambda>(_, ts).
        rbind (parse_paren p ts) (\<lambda>(inner, ts). Inr (Aggregate name inner, ts)))
      else case map_of element_func_arity name of
          Some expected \<Rightarrow> parse_element_call p name expected ts
        | None \<Rightarrow> e_error here (lit ''unknown function '' @ [39] @ name @ [39]))"

definition parse_primary :: "eparser \<Rightarrow> eparser" where
  "parse_primary p ts =
     (case ts of
        [] \<Rightarrow> e_error ts (lit ''expected an expression'')
      | tok # ts' \<Rightarrow>
          if e_type tok = E_NUMBER then (case e_value tok of VNum v \<Rightarrow> Inr (Num v, ts') | _ \<Rightarrow> Inl TypeError)
          else if e_type tok = E_STRING then (case e_value tok of VStr s \<Rightarrow> Inr (Str s, ts') | _ \<Rightarrow> Inl TypeError)
          else if e_type tok = E_LPAREN then parse_paren p ts'
          else if e_type tok = E_DOT then parse_named_count ts'
          else if e_type tok = E_IDENT then parse_call p (e_text tok) ts ts'
          else e_error ts (lit ''expected an expression''))"

fun parse_unary :: "eparser \<Rightarrow> eparser" where
  "parse_unary p [] = parse_primary p []"
| "parse_unary p (t # ts) =
     (if e_type t = E_BANG \<or> e_type t = E_MINUS
      then rbind (parse_unary p ts) (\<lambda>(e, ts). Inr (Unary (e_type t) e, ts))
      else parse_primary p (t # ts))"

text \<open>The \<open>while\<close> loop of a level of left-associative operators.\<close>

function binop_loop :: "etoken_type list \<Rightarrow> eparser \<Rightarrow> expr \<Rightarrow> eparser" where
  "binop_loop ops sub left ts =
     (if e_cur ts \<in> set ops
      then case sub (tl ts) of
          Inl e \<Rightarrow> Inl e
        | Inr (right, ts') \<Rightarrow>
            if length ts' < length ts then binop_loop ops sub (BinOp (e_cur ts) left right) ts' else Inl OutOfFuel
      else Inr (left, ts))"
  by pat_completeness auto
termination by (relation "measure (\<lambda>(ops, sub, left, ts). length ts)") auto

declare binop_loop.simps [simp del]

definition parse_level :: "etoken_type list \<Rightarrow> eparser \<Rightarrow> eparser" where
  "parse_level ops sub ts = rbind (sub ts) (\<lambda>(left, ts). binop_loop ops sub left ts)"

abbreviation mult_ops :: "etoken_type list" where "mult_ops \<equiv> [E_STAR, E_SLASH]"
abbreviation add_ops :: "etoken_type list" where "add_ops \<equiv> [E_PLUS, E_MINUS]"
abbreviation rel_ops :: "etoken_type list" where "rel_ops \<equiv> [E_LT, E_LE, E_GT, E_GE]"
abbreviation eq_ops :: "etoken_type list" where "eq_ops \<equiv> [E_EQEQ, E_NEQ]"

definition parse_multiplicative :: "eparser \<Rightarrow> eparser" where
  "parse_multiplicative p = parse_level mult_ops (parse_unary p)"

definition parse_additive :: "eparser \<Rightarrow> eparser" where
  "parse_additive p = parse_level add_ops (parse_multiplicative p)"

definition parse_relational :: "eparser \<Rightarrow> eparser" where
  "parse_relational p = parse_level rel_ops (parse_additive p)"

definition parse_equality :: "eparser \<Rightarrow> eparser" where
  "parse_equality p = parse_level eq_ops (parse_relational p)"

definition parse_and :: "eparser \<Rightarrow> eparser" where
  "parse_and p = parse_level [E_ANDAND] (parse_equality p)"

definition parse_or :: "eparser \<Rightarrow> eparser" where
  "parse_or p = parse_level [E_OROR] (parse_and p)"

text \<open>\<open>parse_expr\<close> is \<open>parse_ternary\<close>; the first argument bounds the nesting.\<close>

fun parse_ternary :: "nat \<Rightarrow> eparser" where
  "parse_ternary 0 ts = Inl OutOfFuel"
| "parse_ternary (Suc f) ts =
     rbind (parse_or (parse_ternary f) ts) (\<lambda>(cond, ts).
       if e_cur ts = E_QUESTION
       then rbind (parse_ternary f (tl ts)) (\<lambda>(then_e, ts).
            rbind (e_expect E_COLON ts) (\<lambda>(_, ts).
            rbind (parse_ternary f ts) (\<lambda>(otherwise, ts). Inr (Ternary cond then_e otherwise, ts))))
       else Inr (cond, ts))"

definition eval_parse_program :: "etoken list \<Rightarrow> expr result" where
  "eval_parse_program ts =
     rbind (parse_ternary (length ts + 1) ts) (\<lambda>(e, ts).
       if ts \<noteq> [] then Inl (eval_error (lit ''unexpected trailing input in expression'' @ lit '', got '' @ e_label ts))
       else Inr e)"

definition eval_parse :: "unicode_db \<Rightarrow> pystr \<Rightarrow> expr result" where
  "eval_parse u text = rbind (e_tokenize u text) (\<lambda>tokens. eval_parse_program (butlast tokens))"

end
