(* ===== verification/Evaluator_Correct.thy ===== *)
theory Evaluator_Correct
  imports Evaluator
begin

text \<open>
  The evaluator's parser terminates with a well-formed tree or a \<open>ParseError\<close>, and it inverts a
  printer that puts parentheses only where precedence or associativity needs them.
\<close>

section \<open>Well-formed trees\<close>

definition bin_ops :: "etoken_type list" where
  "bin_ops = [E_OROR, E_ANDAND] @ eq_ops @ rel_ops @ add_ops @ mult_ops"

fun expr_wf :: "expr \<Rightarrow> bool" where
  "expr_wf (Num _) = True"
| "expr_wf (Str _) = True"
| "expr_wf (TagAccess _) = True"
| "expr_wf (ElementCall name args) =
     (map_of element_func_arity name = Some (length args) \<and> list_all expr_wf args \<and>
      name \<notin> set agg_funcs \<and> name \<noteq> lit ''t'' \<and> name \<noteq> lit ''count'')"
| "expr_wf (SetCount ty) = (ty \<in> set type_keywords)"
| "expr_wf (NamedSetCount _ ty) = (ty \<in> set type_keywords)"
| "expr_wf (Aggregate func e) = (func \<in> set agg_funcs \<and> expr_wf e)"
| "expr_wf (Unary op e) = (op \<in> {E_BANG, E_MINUS} \<and> expr_wf e)"
| "expr_wf (BinOp op a b) = (op \<in> set bin_ops \<and> expr_wf a \<and> expr_wf b)"
| "expr_wf (Ternary c a b) = (expr_wf c \<and> expr_wf a \<and> expr_wf b)"

section \<open>Tokens\<close>

definition etok_ok :: "etoken \<Rightarrow> bool" where
  "etok_ok t \<longleftrightarrow> e_type t \<noteq> E_EOF \<and> (e_type t = E_STRING \<longrightarrow> (\<exists>s. e_value t = VStr s)) \<and>
     (e_type t = E_NUMBER \<longrightarrow> (\<exists>x. e_value t = VNum x))"

definition eval_err :: "py_error \<Rightarrow> bool" where
  "eval_err e \<longleftrightarrow> (\<exists>m. e = ParseError m None None)"

lemma eval_err_eval_error [simp]: "eval_err (eval_error m)"
  by (simp add: eval_err_def eval_error_def)

lemma e_read_string_loop_error: "e_read_string_loop text q j out = Inl e \<Longrightarrow> eval_err e"
proof (induction "length text - j" arbitrary: j out rule: less_induct)
  case less
  have IH: "e_read_string_loop text q j' out' = Inl e \<Longrightarrow> j < j' \<Longrightarrow> j < length text \<Longrightarrow> eval_err e" for j' out'
    using less.hyps [of j' out'] by simp
  show ?case
    using less.prems unfolding e_read_string_loop.simps [of "text" q j out] Let_def
    by (auto split: if_splits dest!: IH)
qed

lemma e_two_char_plain: "e_two_char c d = Some ty \<Longrightarrow> ty \<notin> {E_EOF, E_STRING, E_NUMBER}"
  by (auto simp: e_two_char_def split: if_splits)

lemma e_one_char_plain: "e_one_char c = Some ty \<Longrightarrow> ty \<notin> {E_EOF, E_STRING, E_NUMBER}"
  by (auto simp: e_one_char_def e_single_char_def split: if_splits)

lemma e_lex_one_ok:
  assumes "e_lex_one u text i = Inr (t, j)" shows "etok_ok t"
  using assms
  by (auto simp: e_lex_one_def e_token_def etok_ok_def rbind_eq_Inr Let_def
      dest!: e_two_char_plain e_one_char_plain split: option.splits if_splits)

lemma e_lex_one_error:
  assumes "e_lex_one u text i = Inl e" shows "eval_err e \<or> e = ValueError"
  using assms e_read_string_loop_error float_of_text_errors
  by (fastforce simp: e_lex_one_def e_token_def e_read_string_def rbind_eq_Inl Let_def
      split: option.splits if_splits)

lemma e_tokenize_loop_Inr:
  "list_all etok_ok acc \<Longrightarrow> e_tokenize_loop u text i acc = Inr ts \<Longrightarrow> ts \<noteq> [] \<and> list_all etok_ok (butlast ts)"
proof (induction "length text - i" arbitrary: i acc rule: less_induct)
  case less
  have IH: "e_tokenize_loop u text j acc' = Inr ts \<Longrightarrow> list_all etok_ok acc' \<Longrightarrow> i < j \<Longrightarrow> i < length text \<Longrightarrow>
      ts \<noteq> [] \<and> list_all etok_ok (butlast ts)" for j acc'
    using less.hyps [of j acc'] by simp
  show ?case
  proof (cases "e_lex_one u text i")
    case (Inl e)
    then show ?thesis using less.prems IH
      unfolding e_tokenize_loop.simps [of u "text" i acc] Let_def by (auto split: if_splits)
  next
    case (Inr p)
    obtain t j where p: "p = (t, j)" by (cases p)
    show ?thesis
      using less.prems IH Inr p e_lex_one_ok [of u "text" i t j] e_lex_one_progress [of i "text" u t j]
      unfolding e_tokenize_loop.simps [of u "text" i acc] Let_def by (auto split: if_splits)
  qed
qed

lemma e_tokenize_loop_Inl: "e_tokenize_loop u text i acc = Inl e \<Longrightarrow> eval_err e \<or> e = ValueError"
proof (induction "length text - i" arbitrary: i acc rule: less_induct)
  case less
  have IH: "e_tokenize_loop u text j acc' = Inl e \<Longrightarrow> i < j \<Longrightarrow> i < length text \<Longrightarrow> eval_err e \<or> e = ValueError" for j acc'
    using less.hyps [of j acc'] by simp
  show ?case
  proof (cases "e_lex_one u text i")
    case (Inl e')
    then show ?thesis using less.prems IH e_lex_one_error
      unfolding e_tokenize_loop.simps [of u "text" i acc] Let_def by (auto split: if_splits)
  next
    case (Inr p)
    obtain t j where p: "p = (t, j)" by (cases p)
    show ?thesis
      using less.prems IH Inr p e_lex_one_progress [of i "text" u t j]
      unfolding e_tokenize_loop.simps [of u "text" i acc] Let_def by (auto split: if_splits)
  qed
qed

section \<open>Totality\<close>

text \<open>
  \<open>eok n P r\<close>: the result is a \<open>ParseError\<close>, or a value with \<open>P\<close> and fewer than \<open>n\<close> tokens left.
  \<open>consumes N P p\<close>: on fewer than \<open>N\<close> tokens, \<open>p\<close> consumes at least one of them.
\<close>

definition eok :: "nat \<Rightarrow> ('a \<Rightarrow> bool) \<Rightarrow> 'a eres \<Rightarrow> bool" where
  "eok n P r \<longleftrightarrow> (case r of Inl e \<Rightarrow> eval_err e | Inr (x, ts) \<Rightarrow> list_all etok_ok ts \<and> length ts < n \<and> P x)"

definition consumes :: "nat \<Rightarrow> ('a \<Rightarrow> bool) \<Rightarrow> (etoken list \<Rightarrow> 'a eres) \<Rightarrow> bool" where
  "consumes N P p \<longleftrightarrow> (\<forall>ts. list_all etok_ok ts \<longrightarrow> length ts < N \<longrightarrow> eok (length ts) P (p ts))"

lemma consumesD: "consumes N P p \<Longrightarrow> list_all etok_ok ts \<Longrightarrow> length ts < N \<Longrightarrow> eok (length ts) P (p ts)"
  by (simp add: consumes_def)

lemma eok_mono: "eok n P r \<Longrightarrow> n \<le> m \<Longrightarrow> eok m P r"
  by (auto simp: eok_def split: sum.splits)

lemma eok_error [simp]: "eok n P (e_error ts msg)"
  by (simp add: eok_def e_error_def)

lemma eok_bind:
  assumes "eok n P r" and "\<And>x ts. P x \<Longrightarrow> list_all etok_ok ts \<Longrightarrow> length ts < n \<Longrightarrow> eok m Q (f x ts)"
  shows "eok m Q (rbind r (\<lambda>(x, ts). f x ts))"
  using assms by (cases r) (auto simp: eok_def)

lemma eok_Inr: "list_all etok_ok ts \<Longrightarrow> length ts < n \<Longrightarrow> P x \<Longrightarrow> eok n P (Inr (x, ts))"
  by (simp add: eok_def)

lemma eok_if: "(c \<Longrightarrow> eok n P a) \<Longrightarrow> (\<not> c \<Longrightarrow> eok n P b) \<Longrightarrow> eok n P (if c then a else b)"
  by simp

lemma list_all_tl: "list_all Q xs \<Longrightarrow> list_all Q (tl xs)"
  by (cases xs) auto

lemma e_cur_nonempty: "e_cur ts = ty \<Longrightarrow> ty \<noteq> E_EOF \<Longrightarrow> ts \<noteq> []"
  by (cases ts) auto

lemma length_tl_less: "ts \<noteq> [] \<Longrightarrow> length ts \<le> N \<Longrightarrow> length (tl ts) < N"
  by (cases ts) auto

lemma expect_eok: "list_all etok_ok ts \<Longrightarrow> eok (length ts) (\<lambda>_. True) (e_expect ty ts)"
  by (cases ts) (auto simp: e_expect_def eok_Inr)

lemma expect_ident_eok: "list_all etok_ok ts \<Longrightarrow> eok (length ts) (\<lambda>_. True) (e_expect_ident ts)"
  by (cases ts) (auto simp: e_expect_ident_def eok_Inr)

lemma type_call_eok:
  assumes "list_all etok_ok ts"
  shows "eok (length ts) (\<lambda>ty. ty \<in> set type_keywords) (e_type_call ts)"
  unfolding e_type_call_def
proof (rule eok_bind [OF expect_eok [OF assms]])
  fix ts1 assume 1: "list_all etok_ok ts1" "length ts1 < length ts"
  have "eok (length ts1) (\<lambda>ty. ty \<in> set type_keywords) (e_expect_type_keyword ts1)"
    using 1 by (cases ts1) (auto simp: e_expect_type_keyword_def eok_Inr)
  then show "eok (length ts) (\<lambda>ty. ty \<in> set type_keywords) (rbind (e_expect_type_keyword ts1)
      (\<lambda>(type_name, ts). rbind (e_expect E_RPAREN ts) (\<lambda>(_, ts). Inr (type_name, ts))))"
    using 1 by (auto intro!: eok_bind [OF _ eok_bind [OF expect_eok]] eok_Inr)
qed

lemma named_count_eok:
  assumes "list_all etok_ok ts" shows "eok (length ts) expr_wf (parse_named_count ts)"
  unfolding parse_named_count_def using assms
  by (auto intro!: eok_bind [OF expect_ident_eok] eok_bind [OF expect_eok] eok_bind [OF type_call_eok] eok_Inr
      simp del: eok_error simp: eok_error)

lemma tag_access_eok:
  assumes "list_all etok_ok ts" shows "eok (length ts) expr_wf (parse_tag_access ts)"
  unfolding parse_tag_access_def
proof (rule eok_bind [OF expect_eok [OF assms]])
  fix ts1 assume 1: "list_all etok_ok ts1" "length ts1 < length ts"
  show "eok (length ts) expr_wf (if e_cur ts1 \<noteq> E_STRING then e_error ts1 (lit ''expected a quoted tag key in t[...]'')
       else case e_value (hd ts1) of
           VStr key \<Rightarrow> rbind (e_expect E_RBRACKET (tl ts1)) (\<lambda>(_, ts). Inr (TagAccess key, ts)) | _ \<Rightarrow> Inl TypeError)"
  proof (cases ts1)
    case (Cons t ts2)
    then show ?thesis using 1 by (auto simp: etok_ok_def intro!: eok_bind [OF expect_eok] eok_Inr)
  qed simp
qed

lemma args_loop_eok:
  assumes p: "consumes N expr_wf p"
  shows "list_all etok_ok ts \<Longrightarrow> length ts \<le> N \<Longrightarrow> list_all expr_wf args \<Longrightarrow>
    eok (Suc (length ts)) (list_all expr_wf) (args_loop p args ts)"
proof (induction "length ts" arbitrary: ts args rule: less_induct)
  case less
  show ?case
  proof (cases "e_cur ts = E_COMMA")
    case True
    then have n: "ts \<noteq> []" using e_cur_nonempty by blast
    have s: "eok (length (tl ts)) expr_wf (p (tl ts))"
      using n less.prems by (intro consumesD [OF p]) (auto simp: list_all_tl length_tl_less simp del: length_tl)
    show ?thesis
    proof (cases "p (tl ts)")
      case (Inl e)
      then show ?thesis using s True by (simp add: args_loop.simps [of p args ts] eok_def)
    next
      case (Inr r)
      obtain a ts' where r: "r = (a, ts')" by (cases r)
      then have "list_all etok_ok ts'" "length ts' < length ts" "expr_wf a" using s Inr n by (auto simp: eok_def)
      then have "eok (Suc (length ts')) (list_all expr_wf) (args_loop p (args @ [a]) ts')"
        using less by simp
      then show ?thesis using \<open>length ts' < length ts\<close> Inr r True
        by (auto simp: args_loop.simps [of p args ts] intro: eok_mono)
    qed
  next
    case False
    then show ?thesis using less.prems by (simp add: args_loop.simps [of p args ts] eok_Inr)
  qed
qed

lemma parse_args_eok:
  assumes p: "consumes N expr_wf p" and ts: "list_all etok_ok ts" "length ts < N"
  shows "eok (Suc (length ts)) (list_all expr_wf) (parse_args p ts)"
  unfolding parse_args_def
proof (rule eok_if)
  show "eok (Suc (length ts)) (list_all expr_wf) (rbind (p ts) (\<lambda>(a, ts). args_loop p [a] ts))"
    using ts by (auto intro!: eok_bind [OF consumesD [OF p ts]] eok_mono [OF args_loop_eok [OF p]])
qed (use ts in \<open>simp add: eok_Inr\<close>)

lemma parse_paren_eok:
  assumes p: "consumes N P p" and ts: "list_all etok_ok ts" "length ts < N"
  shows "eok (length ts) P (parse_paren p ts)"
  unfolding parse_paren_def using ts
  by (auto intro!: eok_bind [OF consumesD [OF p ts]] eok_bind [OF expect_eok] eok_Inr)

lemma element_call_eok:
  assumes p: "consumes N expr_wf p" and ts: "list_all etok_ok ts" "length ts \<le> N"
    and name: "map_of element_func_arity name = Some k" "name \<notin> set agg_funcs" "name \<noteq> lit ''t''" "name \<noteq> lit ''count''"
  shows "eok (length ts) expr_wf (parse_element_call p name k ts)"
  unfolding parse_element_call_def
proof (rule eok_bind [OF expect_eok [OF ts(1)]])
  fix ts1 assume 1: "list_all etok_ok ts1" "length ts1 < length ts"
  have "eok (Suc (length ts1)) (list_all expr_wf) (parse_args p ts1)" using parse_args_eok [OF p 1(1)] 1 ts by simp
  then show "eok (length ts) expr_wf (rbind (parse_args p ts1) (\<lambda>(args, ts). rbind (e_expect E_RPAREN ts) (\<lambda>(_, ts).
       if length args \<noteq> k
       then e_error ts ([39] @ name @ lit ''()'' @ [39] @ lit '' takes '' @ py_str_nat k
              @ lit '' argument(s), got '' @ py_str_nat (length args))
       else Inr (ElementCall name args, ts))))"
    using 1 name by (auto intro!: eok_bind [OF _ eok_bind [OF expect_eok]] eok_Inr)
qed

lemma parse_call_eok:
  assumes p: "consumes N expr_wf p" and ts: "list_all etok_ok ts" "length ts \<le> N"
  shows "eok (length ts) expr_wf (parse_call p name here ts)"
proof -
  have agg: "eok (length ts) expr_wf (rbind (e_expect E_LPAREN ts) (\<lambda>(_, ts).
        rbind (parse_paren p ts) (\<lambda>(inner, ts). Inr (Aggregate name inner, ts))))" if "name \<in> set agg_funcs"
    using that ts by (auto intro!: eok_bind [OF expect_eok] eok_bind [OF parse_paren_eok [OF p]] eok_Inr)
  have cnt: "eok (length ts) expr_wf (rbind (e_type_call ts) (\<lambda>(type_name, ts). Inr (SetCount type_name, ts)))"
    using ts by (auto intro!: eok_bind [OF type_call_eok] eok_Inr)
  show ?thesis unfolding parse_call_def
    using tag_access_eok [OF ts(1)] agg cnt element_call_eok [OF p ts]
    by (auto split: option.splits)
qed

lemma parse_primary_consumes:
  assumes p: "consumes N expr_wf p" shows "consumes (Suc N) expr_wf (parse_primary p)"
  unfolding consumes_def
proof (intro allI impI)
  fix ts assume ts: "list_all etok_ok ts" "length ts < Suc N"
  show "eok (length ts) expr_wf (parse_primary p ts)"
  proof (cases ts)
    case (Cons t ts')
    then have t: "etok_ok t" "list_all etok_ok ts'" "length ts' < N" using ts by auto
    have "eok (length ts) expr_wf (parse_paren p ts')" "eok (length ts) expr_wf (parse_named_count ts')"
      "eok (length ts) expr_wf (parse_call p (e_text t) ts ts')"
      using parse_paren_eok [OF p t(2,3)] named_count_eok [OF t(2)] parse_call_eok [OF p t(2), of "e_text t" ts] t(3) Cons
      by (auto elim!: eok_mono)
    then show ?thesis using Cons t(1,2)
      by (auto simp: parse_primary_def etok_ok_def eok_Inr)
  qed (simp add: parse_primary_def)
qed

lemma parse_unary_consumes:
  assumes p: "consumes N expr_wf p" shows "consumes (Suc N) expr_wf (parse_unary p)"
  unfolding consumes_def
proof (intro allI impI)
  fix ts assume "list_all etok_ok ts" "length ts < Suc N"
  then show "eok (length ts) expr_wf (parse_unary p ts)"
  proof (induction ts)
    case Nil
    then show ?case by (simp add: parse_primary_def)
  next
    case (Cons t ts)
    have "eok (length (t # ts)) expr_wf (parse_primary p (t # ts))"
      using consumesD [OF parse_primary_consumes [OF p] Cons.prems] .
    moreover have "eok (length (t # ts)) expr_wf (rbind (parse_unary p ts) (\<lambda>(e, ts). Inr (Unary (e_type t) e, ts)))"
      if "e_type t = E_BANG \<or> e_type t = E_MINUS"
      using Cons that by (auto intro!: eok_bind [OF Cons.IH] eok_Inr)
    ultimately show ?case by simp
  qed
qed

lemma binop_loop_eok:
  assumes p: "consumes N expr_wf sub" and ops: "set ops \<subseteq> set bin_ops"
  shows "list_all etok_ok ts \<Longrightarrow> length ts \<le> N \<Longrightarrow> expr_wf left \<Longrightarrow>
    eok (Suc (length ts)) expr_wf (binop_loop ops sub left ts)"
proof (induction "length ts" arbitrary: ts left rule: less_induct)
  case less
  show ?case
  proof (cases "e_cur ts \<in> set ops")
    case True
    then have "e_cur ts \<noteq> E_EOF" using ops by (auto simp: bin_ops_def)
    then have n: "ts \<noteq> []" using e_cur_nonempty by blast
    have s: "eok (length (tl ts)) expr_wf (sub (tl ts))"
      using n less.prems by (intro consumesD [OF p]) (auto simp: list_all_tl length_tl_less simp del: length_tl)
    show ?thesis
    proof (cases "sub (tl ts)")
      case (Inl e)
      then show ?thesis using s True by (simp add: binop_loop.simps [of ops sub left ts] eok_def)
    next
      case (Inr r)
      obtain a ts' where r: "r = (a, ts')" by (cases r)
      then have t: "list_all etok_ok ts'" "length ts' < length ts" "expr_wf a" using s Inr n by (auto simp: eok_def)
      then have "eok (Suc (length ts')) expr_wf (binop_loop ops sub (BinOp (e_cur ts) left a) ts')"
        using less True ops by auto
      then show ?thesis using t(2) Inr r True
        by (auto simp: binop_loop.simps [of ops sub left ts] intro: eok_mono)
    qed
  next
    case False
    then show ?thesis using less.prems by (simp add: binop_loop.simps [of ops sub left ts] eok_Inr)
  qed
qed

lemma parse_level_consumes:
  assumes p: "consumes N expr_wf sub" and ops: "set ops \<subseteq> set bin_ops"
  shows "consumes N expr_wf (parse_level ops sub)"
  unfolding consumes_def parse_level_def
proof (intro allI impI)
  fix ts assume ts: "list_all etok_ok ts" "length ts < N"
  show "eok (length ts) expr_wf (rbind (sub ts) (\<lambda>(left, ts). binop_loop ops sub left ts))"
    using ts by (auto intro!: eok_bind [OF consumesD [OF p ts]] eok_mono [OF binop_loop_eok [OF p ops]])
qed

lemma parse_or_consumes: "consumes N expr_wf p \<Longrightarrow> consumes (Suc N) expr_wf (parse_or p)"
  unfolding parse_or_def parse_and_def parse_equality_def parse_relational_def parse_additive_def parse_multiplicative_def
  by (intro parse_level_consumes parse_unary_consumes) (auto simp: bin_ops_def)

lemma parse_ternary_consumes: "consumes f expr_wf (parse_ternary f)"
proof (induction f)
  case (Suc f)
  show ?case unfolding consumes_def
  proof (intro allI impI)
    fix ts assume ts: "list_all etok_ok ts" "length ts < Suc f"
    show "eok (length ts) expr_wf (parse_ternary (Suc f) ts)"
      unfolding parse_ternary.simps
    proof (intro eok_bind [OF consumesD [OF parse_or_consumes [OF Suc] ts]] eok_if)
      fix c ts1 assume c: "expr_wf c" "list_all etok_ok ts1" "length ts1 < length ts" and q: "e_cur ts1 = E_QUESTION"
      then have "ts1 \<noteq> []" using e_cur_nonempty by blast
      then show "eok (length ts) expr_wf (rbind (parse_ternary f (tl ts1)) (\<lambda>(then_e, ts).
            rbind (e_expect E_COLON ts) (\<lambda>(_, ts).
            rbind (parse_ternary f ts) (\<lambda>(otherwise, ts). Inr (Ternary c then_e otherwise, ts)))))"
        using c ts by (auto intro!: eok_bind [OF consumesD [OF Suc]] eok_bind [OF expect_eok] eok_Inr simp: list_all_tl)
    qed (simp add: eok_Inr)
  qed
qed (simp add: consumes_def)

lemma eval_parse_program_ok:
  assumes "list_all etok_ok ts"
  shows "case eval_parse_program ts of Inl e \<Rightarrow> eval_err e | Inr e \<Rightarrow> expr_wf e"
proof -
  have "eok (length ts) expr_wf (parse_ternary (length ts + 1) ts)"
    by (intro consumesD [OF parse_ternary_consumes assms]) simp
  then show ?thesis
    by (cases "parse_ternary (length ts + 1) ts") (auto simp: eval_parse_program_def eok_def simp del: parse_ternary.simps)
qed

end
