(* ===== verification/Evaluator_Roundtrip.thy ===== *)
theory Evaluator_Roundtrip
  imports Evaluator_Correct
begin

text \<open>
  A printer of evaluator expressions with the fewest parentheses the precedence levels allow,
  and the proof that the parser inverts it. Levels: 0 ternary, 1 to 6 the binary operators from
  \<open>||\<close> to \<open>*\<close>, 7 prefix operators, 8 primaries.
\<close>

section \<open>The printer\<close>

definition etk :: "etoken_type \<Rightarrow> pystr \<Rightarrow> tok_value \<Rightarrow> etoken" where
  "etk ty txt v = \<lparr>e_type = ty, e_text = txt, e_value = v, e_pos = 0\<rparr>"

definition ept :: "etoken_type \<Rightarrow> etoken" where "ept ty = etk ty (lit (etype_text ty)) VNone"
definition eid :: "pystr \<Rightarrow> etoken" where "eid w = etk E_IDENT w (VStr w)"

definition op_level :: "etoken_type \<Rightarrow> nat" where
  "op_level ty = (if ty = E_OROR then 1 else if ty = E_ANDAND then 2 else if ty \<in> set eq_ops then 3
     else if ty \<in> set rel_ops then 4 else if ty \<in> set add_ops then 5 else if ty \<in> set mult_ops then 6 else 0)"

fun level :: "expr \<Rightarrow> nat" where
  "level (Ternary _ _ _) = 0"
| "level (BinOp op _ _) = op_level op"
| "level (Unary _ _) = 7"
| "level _ = 8"

fun commas :: "etoken list list \<Rightarrow> etoken list" where
  "commas [] = []"
| "commas [x] = x"
| "commas (x # y # ys) = x @ ept E_COMMA # commas (y # ys)"

definition wrap :: "nat \<Rightarrow> expr \<Rightarrow> etoken list \<Rightarrow> etoken list" where
  "wrap k e ts = (if level e < k then ept E_LPAREN # ts @ [ept E_RPAREN] else ts)"

fun bare :: "expr \<Rightarrow> etoken list" where
  "bare (Num v) = [etk E_NUMBER [] (VNum v)]"
| "bare (Str s) = [etk E_STRING [] (VStr s)]"
| "bare (TagAccess key) = [eid (lit ''t''), ept E_LBRACKET, etk E_STRING [] (VStr key), ept E_RBRACKET]"
| "bare (ElementCall name args) = eid name # ept E_LPAREN # commas (map bare args) @ [ept E_RPAREN]"
| "bare (SetCount ty) = [eid (lit ''count''), ept E_LPAREN, eid ty, ept E_RPAREN]"
| "bare (NamedSetCount s ty) = [ept E_DOT, eid s, ept E_DOT, eid (lit ''count''), ept E_LPAREN, eid ty, ept E_RPAREN]"
| "bare (Aggregate func e) = eid func # ept E_LPAREN # bare e @ [ept E_RPAREN]"
| "bare (Unary op e) = ept op # wrap 7 e (bare e)"
| "bare (BinOp op a b) = wrap (op_level op) a (bare a) @ ept op # wrap (op_level op + 1) b (bare b)"
| "bare (Ternary c a b) = wrap 1 c (bare c) @ ept E_QUESTION # bare a @ ept E_COLON # bare b"

definition pr :: "nat \<Rightarrow> expr \<Rightarrow> etoken list" where
  "pr k e = wrap k e (bare e)"

section \<open>The levels of the parser\<close>

definition level_ops :: "nat \<Rightarrow> etoken_type list" where
  "level_ops k = (if k = 1 then [E_OROR] else if k = 2 then [E_ANDAND] else if k = 3 then eq_ops
     else if k = 4 then rel_ops else if k = 5 then add_ops else if k = 6 then mult_ops else [])"

definition lev :: "nat \<Rightarrow> eparser \<Rightarrow> eparser" where
  "lev k p = (if k = 1 then parse_or p else if k = 2 then parse_and p else if k = 3 then parse_equality p
     else if k = 4 then parse_relational p else if k = 5 then parse_additive p else if k = 6 then parse_multiplicative p
     else if k = 7 then parse_unary p else parse_primary p)"

definition cont :: "nat \<Rightarrow> eparser \<Rightarrow> expr \<Rightarrow> eparser" where
  "cont k p e ts = (if k \<le> 6 then binop_loop (level_ops k) (lev (k + 1) p) e ts else Inr (e, ts))"

text \<open>No operator of level \<open>k\<close> or higher follows.\<close>

definition stops :: "nat \<Rightarrow> etoken list \<Rightarrow> bool" where
  "stops k ts \<longleftrightarrow> op_level (e_cur ts) < k"

lemma lev_step: "1 \<le> k \<Longrightarrow> k \<le> 6 \<Longrightarrow> lev k p = parse_level (level_ops k) (lev (k + 1) p)"
  by (auto simp: lev_def level_ops_def parse_or_def parse_and_def parse_equality_def parse_relational_def
      parse_additive_def parse_multiplicative_def eval_nat_numeral le_Suc_eq)

lemma level_ops_iff: "1 \<le> k \<Longrightarrow> k \<le> 6 \<Longrightarrow> ty \<in> set (level_ops k) \<longleftrightarrow> op_level ty = k"
  by (cases ty; auto simp: level_ops_def op_level_def)

lemma bin_ops_level: "op \<in> set bin_ops \<Longrightarrow> 1 \<le> op_level op \<and> op_level op \<le> 6"
  by (auto simp: bin_ops_def op_level_def)

lemma cont_stops: "1 \<le> k \<Longrightarrow> stops k ts \<Longrightarrow> cont k p e ts = Inr (e, ts)"
  using level_ops_iff [of k "e_cur ts"] by (auto simp: cont_def stops_def binop_loop.simps [of "level_ops k" _ e ts])

lemma tok_simps_e [simp]:
  "e_type (ept ty) = ty" "e_type (eid w) = E_IDENT" "e_text (eid w) = w"
  "e_type (etk ty x v) = ty" "e_value (etk ty x v) = v" "e_text (etk ty x v) = x"
  by (simp_all add: ept_def eid_def etk_def)

lemma expect_ept [simp]: "e_expect ty (ept ty # ts) = Inr (ept ty, ts)"
  by (simp add: e_expect_def)

lemma expect_ident_eid [simp]: "e_expect_ident (eid w # ts) = Inr (w, ts)"
  by (simp add: e_expect_ident_def)

lemma type_call_print [simp]:
  "ty \<in> set type_keywords \<Longrightarrow> e_type_call (ept E_LPAREN # eid ty # ept E_RPAREN # ts) = Inr (ty, ts)"
  by (simp add: e_type_call_def e_expect_type_keyword_def)

section \<open>Reading back\<close>

text \<open>\<open>readsk\<close>: the parser of level \<open>k\<close> reads \<open>e\<close> and goes on with the loop of its level. \<open>reads0\<close>:
  the expression parser reads \<open>e\<close>.\<close>

definition readsk :: "expr \<Rightarrow> nat \<Rightarrow> bool" where
  "readsk e k \<longleftrightarrow> (\<forall>f rest. length (pr k e) \<le> f \<longrightarrow> stops (k + 1) rest \<longrightarrow>
     lev k (parse_ternary f) (pr k e @ rest) = cont k (parse_ternary f) e rest)"

definition reads0 :: "expr \<Rightarrow> bool" where
  "reads0 e \<longleftrightarrow> (\<forall>f rest. length (bare e) < f \<longrightarrow> stops 1 rest \<longrightarrow> e_cur rest \<noteq> E_QUESTION \<longrightarrow>
     parse_ternary f (bare e @ rest) = Inr (e, rest))"

lemma readskD:
  "readsk e k \<Longrightarrow> length (pr k e) \<le> f \<Longrightarrow> stops (k + 1) rest \<Longrightarrow>
   lev k (parse_ternary f) (pr k e @ rest) = cont k (parse_ternary f) e rest"
  by (simp add: readsk_def)

lemma pr_bare: "k \<le> level e \<Longrightarrow> pr k e = bare e"
  by (simp add: pr_def wrap_def)

lemma pr_paren: "level e < k \<Longrightarrow> pr k e = ept E_LPAREN # bare e @ [ept E_RPAREN]"
  by (simp add: pr_def wrap_def)

lemma op_level_le: "op_level ty \<le> 6"
  by (simp add: op_level_def)

lemma op_level_neq [simp]: "op_level ty \<noteq> 7" "op_level ty \<noteq> 8"
  using op_level_le [of ty] by auto

lemma level_cases: "level e \<le> 6 \<or> level e = 7 \<or> level e = 8"
  using op_level_le by (cases e) auto

lemma stops_top: "7 \<le> k \<Longrightarrow> stops k ts"
  using op_level_le [of "e_cur ts"] by (simp add: stops_def)

lemma stops_mono: "stops k ts \<Longrightarrow> k \<le> m \<Longrightarrow> stops m ts"
  by (simp add: stops_def)

text \<open>From level \<open>k + 1\<close> down to \<open>k\<close>, when both print the expression alike.\<close>

lemma readsk_down:
  assumes r: "readsk e (k + 1)" and k: "1 \<le> k" "k \<le> 6" and same: "pr k e = pr (k + 1) e"
  shows "readsk e k"
  unfolding readsk_def
proof (intro allI impI)
  fix f rest assume f: "length (pr k e) \<le> f" and s: "stops (k + 1) rest"
  have "lev (k + 1) (parse_ternary f) (pr (k + 1) e @ rest) = cont (k + 1) (parse_ternary f) e rest"
    using r f s same stops_mono [OF s, of "k + 2"] by (simp add: readsk_def)
  also have "\<dots> = Inr (e, rest)" using s by (intro cont_stops) auto
  finally show "lev k (parse_ternary f) (pr k e @ rest) = cont k (parse_ternary f) e rest"
    using k same by (simp add: lev_step parse_level_def cont_def)
qed

text \<open>A primary starts with no prefix operator.\<close>

lemma bare_head: "level e = 8 \<Longrightarrow> \<exists>t ts. bare e = t # ts \<and> e_type t \<noteq> E_BANG \<and> e_type t \<noteq> E_MINUS"
  by (cases e) auto

lemma readsk_unary:
  assumes r: "readsk e 8" and l: "level e \<noteq> 7"
  shows "readsk e 7"
proof -
  have "\<exists>t ts. pr 7 e = t # ts \<and> e_type t \<noteq> E_BANG \<and> e_type t \<noteq> E_MINUS"
  proof (cases "level e < 7")
    case True
    then show ?thesis by (simp add: pr_paren)
  next
    case False
    then have "level e = 8" using l level_cases [of e] by linarith
    then show ?thesis using bare_head [of e] by (simp add: pr_bare)
  qed
  moreover have "pr 7 e = pr 8 e" using l by (simp add: pr_def wrap_def)
  ultimately obtain t ts where "pr 7 e = t # ts" "pr 8 e = t # ts" "e_type t \<noteq> E_BANG" "e_type t \<noteq> E_MINUS" by auto
  then show ?thesis
    using r by (simp add: readsk_def lev_def cont_def stops_top)
qed

lemma readsk_all_down:
  assumes "k \<le> m" and "readsk e m" and "m \<le> 8" and "1 \<le> k" and "m = 8 \<Longrightarrow> level e \<noteq> 7"
    and "\<And>j. k \<le> j \<Longrightarrow> j \<le> m \<Longrightarrow> pr j e = pr m e"
  shows "readsk e k"
  using assms(1,2)
proof (induction rule: inc_induct)
  case (step n)
  then have r: "readsk e (Suc n)" by simp
  show ?case
  proof (cases "n = 7")
    case True
    then have "m = 8" using step.hyps assms(3) by simp
    then show ?thesis using r True readsk_unary [of e] assms(5) by simp
  next
    case False
    then have "n \<le> 6" using step.hyps assms(3) by linarith
    moreover have "pr n e = pr (n + 1) e"
      by (rule trans [OF assms(6) assms(6) [symmetric]]) (use step.hyps in linarith)+
    ultimately show ?thesis using readsk_down [of e n] r step.hyps(1) assms(4) by simp
  qed
qed

lemma reads_bare:
  assumes "readsk e (level e)" and "1 \<le> k" and "k \<le> level e" shows "readsk e k"
  using assms level_cases [of e] by (intro readsk_all_down [of k "level e"]) (auto simp: pr_bare)

lemma reads0_of_reads1:
  assumes "readsk e 1" and "1 \<le> level e" shows "reads0 e"
  unfolding reads0_def
proof (intro allI impI)
  fix f rest assume f: "length (bare e) < f" and s: "stops 1 rest" "e_cur rest \<noteq> E_QUESTION"
  then obtain g where g: "f = Suc g" "length (bare e) \<le> g" by (cases f) auto
  have "parse_or (parse_ternary g) (bare e @ rest) = cont 1 (parse_ternary g) e rest"
    using assms g stops_mono [OF s(1), of "Suc (Suc 0)"] by (simp add: readsk_def pr_bare lev_def)
  also have "\<dots> = Inr (e, rest)" by (rule cont_stops) (use s in auto)
  finally show "parse_ternary f (bare e @ rest) = Inr (e, rest)" using g s by simp
qed

lemma reads0D:
  "reads0 e \<Longrightarrow> length (bare e) < f \<Longrightarrow> stops 1 rest \<Longrightarrow> e_cur rest \<noteq> E_QUESTION \<Longrightarrow>
   parse_ternary f (bare e @ rest) = Inr (e, rest)"
  by (simp add: reads0_def)

lemma reads_paren8:
  assumes r: "reads0 e" and k: "level e < 8" shows "readsk e 8"
  unfolding readsk_def
proof (intro allI impI)
  fix f rest assume f: "length (pr 8 e) \<le> f"
  have "parse_ternary f (bare e @ ept E_RPAREN # rest) = Inr (e, ept E_RPAREN # rest)"
    using f k by (intro reads0D [OF r]) (auto simp: stops_def op_level_def pr_paren)
  then show "lev 8 (parse_ternary f) (pr 8 e @ rest) = cont 8 (parse_ternary f) e rest"
    using k by (simp add: pr_paren lev_def cont_def parse_primary_def parse_paren_def)
qed

lemma reads_paren:
  assumes r: "reads0 e" and k: "level e < k" "1 \<le> k" "k \<le> 8" shows "readsk e k"
proof (cases "level e = 7")
  case True
  then show ?thesis using reads_paren8 [OF r] k by (cases "k = 8") auto
next
  case False
  then show ?thesis using reads_paren8 [OF r] k by (intro readsk_all_down [of k 8]) (auto simp: pr_paren)
qed

text \<open>All levels follow from the expression's own.\<close>

definition reads_all :: "expr \<Rightarrow> bool" where
  "reads_all e \<longleftrightarrow> reads0 e \<and> (\<forall>k. 1 \<le> k \<longrightarrow> k \<le> 8 \<longrightarrow> readsk e k)"

lemma reads_all_of_level: "1 \<le> level e \<Longrightarrow> readsk e (level e) \<Longrightarrow> reads_all e"
  unfolding reads_all_def
  using reads0_of_reads1 [of e] reads_bare [of e] reads_paren [of e] by (metis order_refl not_le)

lemma reads_all_of_reads0: "level e = 0 \<Longrightarrow> reads0 e \<Longrightarrow> reads_all e"
  using reads_paren by (simp add: reads_all_def)

lemma primaryI:
  assumes "level e = 8"
    and "\<And>f rest. length (bare e) \<le> f \<Longrightarrow> parse_primary (parse_ternary f) (bare e @ rest) = Inr (e, rest)"
  shows "reads_all e"
  using assms by (intro reads_all_of_level) (auto simp: readsk_def pr_bare lev_def cont_def)

lemma args_loop_print:
  assumes "\<And>a rest. a \<in> set as \<Longrightarrow> stops 1 rest \<Longrightarrow> e_cur rest \<noteq> E_QUESTION \<Longrightarrow> p (bare a @ rest) = Inr (a, rest)"
  shows "args_loop p acc (concat (map (\<lambda>a. ept E_COMMA # bare a) as) @ ept E_RPAREN # rest) = Inr (acc @ as, ept E_RPAREN # rest)"
  using assms
proof (induction as arbitrary: acc)
  case Nil
  then show ?case by (simp add: args_loop.simps)
next
  case (Cons a as)
  let ?rest = "concat (map (\<lambda>a. ept E_COMMA # bare a) as) @ ept E_RPAREN # rest"
  have "e_cur ?rest \<in> {E_COMMA, E_RPAREN}" by (cases as) auto
  then have "p (bare a @ ?rest) = Inr (a, ?rest)"
    by (intro Cons.prems) (auto simp: stops_def op_level_def)
  moreover have "args_loop p (acc @ [a]) ?rest = Inr ((acc @ [a]) @ as, ept E_RPAREN # rest)"
    by (intro Cons.IH Cons.prems) auto
  ultimately show ?case
    by (simp add: args_loop.simps [of p acc "ept E_COMMA # bare a @ ?rest"])
qed

lemma commas_Cons: "commas (map bare (a # as)) = bare a @ concat (map (\<lambda>a. ept E_COMMA # bare a) as)"
  by (induction as arbitrary: a) auto

lemma bare_not_rparen: "expr_wf e \<Longrightarrow> \<exists>t ts. bare e = t # ts \<and> e_type t \<noteq> E_RPAREN"
proof (induction e)
  case (BinOp op a b)
  then show ?case by (auto simp: wrap_def)
next
  case (Ternary c a b)
  then show ?case by (auto simp: wrap_def)
qed auto

lemma parse_args_print:
  assumes p: "\<And>a rest. a \<in> set as \<Longrightarrow> stops 1 rest \<Longrightarrow> e_cur rest \<noteq> E_QUESTION \<Longrightarrow> p (bare a @ rest) = Inr (a, rest)"
    and wf: "list_all expr_wf as"
  shows "parse_args p (commas (map bare as) @ ept E_RPAREN # rest) = Inr (as, ept E_RPAREN # rest)"
proof (cases as)
  case Nil
  then show ?thesis by (simp add: parse_args_def)
next
  case (Cons a as')
  let ?rest = "concat (map (\<lambda>a. ept E_COMMA # bare a) as') @ ept E_RPAREN # rest"
  have "e_cur ?rest \<in> {E_COMMA, E_RPAREN}" by (cases as') auto
  then have "p (bare a @ ?rest) = Inr (a, ?rest)"
    using Cons by (intro p) (auto simp: stops_def op_level_def)
  moreover have "args_loop p [a] ?rest = Inr ([a] @ as', ept E_RPAREN # rest)"
    using p Cons by (intro args_loop_print) auto
  moreover have "e_cur (bare a @ ?rest) \<noteq> E_RPAREN"
    using bare_not_rparen [of a] wf Cons by auto
  ultimately show ?thesis
    using Cons commas_Cons [of a as'] by (simp add: parse_args_def del: map_append)
qed

lemma length_bare_arg: "a \<in> set as \<Longrightarrow> length (bare a) \<le> length (commas (map bare as))"
proof (induction as)
  case (Cons b bs)
  then show ?case by (cases bs) auto
qed simp

lemma pr_zero: "pr 0 e = bare e"
  by (simp add: pr_def wrap_def)

lemma expr_reads: "expr_wf e \<Longrightarrow> reads_all e"
proof (induction e)
  case (ElementCall name as)
  show ?case
  proof (rule primaryI)
    fix f rest assume f: "length (bare (ElementCall name as)) \<le> f"
    have "parse_args (parse_ternary f) (commas (map bare as) @ ept E_RPAREN # rest) = Inr (as, ept E_RPAREN # rest)"
    proof (rule parse_args_print)
      fix a rest assume a: "a \<in> set as" "stops 1 rest" "e_cur rest \<noteq> E_QUESTION"
      then have "reads0 a" using ElementCall by (auto simp: list_all_iff reads_all_def)
      then show "parse_ternary f (bare a @ rest) = Inr (a, rest)"
        using a f length_bare_arg [of a as] by (simp add: reads0_def)
    qed (use ElementCall in simp)
    then show "parse_primary (parse_ternary f) (bare (ElementCall name as) @ rest) = Inr (ElementCall name as, rest)"
      using ElementCall.prems by (simp add: parse_primary_def parse_call_def parse_element_call_def)
  qed simp
next
  case (Aggregate func e)
  show ?case
  proof (rule primaryI)
    fix f rest assume f: "length (bare (Aggregate func e)) \<le> f"
    have "parse_ternary f (bare e @ ept E_RPAREN # rest) = Inr (e, ept E_RPAREN # rest)"
      using Aggregate f by (simp add: reads_all_def reads0_def stops_def op_level_def)
    moreover have "func \<noteq> lit ''t''" "func \<noteq> lit ''count''" using Aggregate.prems by (auto simp: agg_funcs_def)
    ultimately show "parse_primary (parse_ternary f) (bare (Aggregate func e) @ rest) = Inr (Aggregate func e, rest)"
      using Aggregate.prems by (simp add: parse_primary_def parse_call_def parse_paren_def)
  qed simp
next
  case (Unary op e)
  show ?case
  proof (rule reads_all_of_level)
    show "readsk (Unary op e) (level (Unary op e))" unfolding readsk_def
    proof (intro allI impI)
      fix f rest assume f: "length (pr (level (Unary op e)) (Unary op e)) \<le> f"
      have "readsk e 7" using Unary by (simp add: reads_all_def)
      then have "parse_unary (parse_ternary f) (pr 7 e @ rest) = Inr (e, rest)"
        using f stops_top [of 8 rest] by (simp add: readsk_def lev_def cont_def pr_bare pr_def [of 7 e])
      then show "lev (level (Unary op e)) (parse_ternary f) (pr (level (Unary op e)) (Unary op e) @ rest)
          = cont (level (Unary op e)) (parse_ternary f) (Unary op e) rest"
        using Unary.prems by (simp add: pr_bare lev_def cont_def pr_def [of 7 e])
    qed
  qed simp
next
  case (BinOp op a b)
  let ?k = "op_level op"
  have k: "1 \<le> ?k" "?k \<le> 6" using BinOp.prems bin_ops_level by auto
  show ?case
  proof (rule reads_all_of_level)
    show "readsk (BinOp op a b) (level (BinOp op a b))" unfolding readsk_def
    proof (intro allI impI)
      fix f rest assume f: "length (pr (level (BinOp op a b)) (BinOp op a b)) \<le> f" and s: "stops (level (BinOp op a b) + 1) rest"
      let ?p = "parse_ternary f"
      have b: "pr ?k (BinOp op a b) = pr ?k a @ ept op # pr (?k + 1) b" by (simp add: pr_bare) (simp add: pr_def)
      have rb: "lev (?k + 1) ?p (pr (?k + 1) b @ rest) = Inr (b, rest)"
      proof -
        have "lev (?k + 1) ?p (pr (?k + 1) b @ rest) = cont (?k + 1) ?p b rest"
          using BinOp k f b s stops_mono [OF s, of "?k + 2"] by (simp add: reads_all_def readsk_def)
        then show ?thesis using s by (simp add: cont_stops)
      qed
      have "lev ?k ?p (pr ?k a @ ept op # pr (?k + 1) b @ rest) = cont ?k ?p a (ept op # pr (?k + 1) b @ rest)"
        using BinOp k f b by (simp add: reads_all_def readsk_def stops_def)
      also have "\<dots> = cont ?k ?p (BinOp op a b) rest"
        using k rb level_ops_iff [OF k, of op]
        by (simp add: cont_def binop_loop.simps [of _ _ a "ept op # pr (Suc ?k) b @ rest"])
      finally show "lev (level (BinOp op a b)) ?p (pr (level (BinOp op a b)) (BinOp op a b) @ rest)
          = cont (level (BinOp op a b)) ?p (BinOp op a b) rest"
        using b by simp
    qed
  qed (use k in simp)
next
  case (Ternary c a b)
  show ?case
  proof (rule reads_all_of_reads0)
    show "reads0 (Ternary c a b)" unfolding reads0_def
    proof (intro allI impI)
      fix f rest assume f: "length (bare (Ternary c a b)) < f" and s: "stops 1 rest" "e_cur rest \<noteq> E_QUESTION"
      then obtain g where g: "f = Suc g" "length (bare (Ternary c a b)) \<le> g" by (cases f) auto
      let ?r = "ept E_QUESTION # bare a @ ept E_COLON # bare b @ rest"
      have "readsk c 1" using Ternary by (simp add: reads_all_def)
      then have "lev 1 (parse_ternary g) (pr 1 c @ ?r) = cont 1 (parse_ternary g) c ?r"
        using g(2) by (intro readskD) (auto simp: stops_def op_level_def pr_def)
      also have "\<dots> = Inr (c, ?r)" by (rule cont_stops) (auto simp: stops_def op_level_def)
      finally have "parse_or (parse_ternary g) (pr 1 c @ ?r) = Inr (c, ?r)" by (simp add: lev_def)
      moreover have "parse_ternary g (bare a @ ept E_COLON # bare b @ rest) = Inr (a, ept E_COLON # bare b @ rest)"
        using Ternary g(2) by (intro reads0D) (auto simp: reads_all_def stops_def op_level_def)
      moreover have "parse_ternary g (bare b @ rest) = Inr (b, rest)"
        using Ternary g(2) s by (intro reads0D) (auto simp: reads_all_def)
      ultimately show "parse_ternary f (bare (Ternary c a b) @ rest) = Inr (Ternary c a b, rest)"
        using g(1) by (simp add: pr_def)
    qed
  qed simp
qed (auto intro!: primaryI simp: parse_primary_def parse_call_def parse_tag_access_def parse_named_count_def)

lemma eval_parse_print:
  assumes "expr_wf e" shows "eval_parse_program (bare e) = Inr e"
proof -
  have "parse_ternary (length (bare e) + 1) (bare e @ []) = Inr (e, [])"
    using expr_reads [OF assms] by (intro reads0D) (auto simp: reads_all_def stops_def op_level_def)
  then show ?thesis by (simp add: eval_parse_program_def del: parse_ternary.simps)
qed

end
