(* ===== verification/PyNum.thy ===== *)
theory PyNum
  imports PyText
begin

text \<open>
  Arithmetic, comparison and printing of Python floats, infinities and nan included, as the
  evaluator of \<open>if\<close> conditions uses them. \<open>repr\<close> is the shortest decimal that reads back to the
  same double, the nearest one when there are several.
\<close>

section \<open>Arithmetic\<close>

fun is_neg :: "pyfloat \<Rightarrow> bool" where
  "is_neg (Fin r) = (r < 0)" | "is_neg NInf = True" | "is_neg _ = False"

fun is_zero :: "pyfloat \<Rightarrow> bool" where
  "is_zero (Fin r) = (r = 0)" | "is_zero _ = False"

definition inf_signed :: "bool \<Rightarrow> pyfloat" where
  "inf_signed neg = (if neg then NInf else PInf)"

fun float_add :: "pyfloat \<Rightarrow> pyfloat \<Rightarrow> pyfloat" where
  "float_add NaN _ = NaN"
| "float_add _ NaN = NaN"
| "float_add (Fin a) (Fin b) = to_float (a + b)"
| "float_add PInf NInf = NaN"
| "float_add NInf PInf = NaN"
| "float_add (Fin _) y = y"
| "float_add x _ = x"

definition float_sub :: "pyfloat \<Rightarrow> pyfloat \<Rightarrow> pyfloat" where
  "float_sub x y = float_add x (neg_float y)"

fun float_mul :: "pyfloat \<Rightarrow> pyfloat \<Rightarrow> pyfloat" where
  "float_mul NaN _ = NaN"
| "float_mul _ NaN = NaN"
| "float_mul (Fin a) (Fin b) = to_float (a * b)"
| "float_mul x y = (if is_zero x \<or> is_zero y then NaN else inf_signed (is_neg x \<noteq> is_neg y))"

text \<open>Division by a number other than zero; the code tests for zero before it divides.\<close>

fun float_div :: "pyfloat \<Rightarrow> pyfloat \<Rightarrow> pyfloat" where
  "float_div NaN _ = NaN"
| "float_div _ NaN = NaN"
| "float_div (Fin a) (Fin b) = to_float (a / b)"
| "float_div (Fin a) _ = Fin 0"
| "float_div x (Fin b) = inf_signed (is_neg x \<noteq> (b < 0))"
| "float_div _ _ = NaN"

section \<open>Comparison\<close>

fun float_lt :: "pyfloat \<Rightarrow> pyfloat \<Rightarrow> bool" where
  "float_lt (Fin a) (Fin b) = (a < b)"
| "float_lt (Fin _) PInf = True"
| "float_lt NInf (Fin _) = True"
| "float_lt NInf PInf = True"
| "float_lt _ _ = False"

fun float_eq :: "pyfloat \<Rightarrow> pyfloat \<Rightarrow> bool" where
  "float_eq NaN _ = False"
| "float_eq x y = (x = y)"

definition float_le :: "pyfloat \<Rightarrow> pyfloat \<Rightarrow> bool" where
  "float_le x y \<longleftrightarrow> float_lt x y \<or> float_eq x y"

section \<open>Printing\<close>

text \<open>The decimal exponent of a positive number; doubles need at most 324 steps.\<close>

fun dec_exp :: "nat \<Rightarrow> rat \<Rightarrow> int" where
  "dec_exp 0 r = 0"
| "dec_exp (Suc n) r = (if 10 \<le> r then dec_exp n (r / 10) + 1 else if r < 1 then dec_exp n (r * 10) - 1 else 0)"

text \<open>The decimals with \<open>p\<close> digits on both sides of \<open>r\<close> that read back to \<open>r\<close>, nearest first.\<close>

definition digits_for :: "rat \<Rightarrow> int \<Rightarrow> nat \<Rightarrow> nat option" where
  "digits_for r e p =
     (let unit = 10 powi (e - int p + 1); lo = nat \<lfloor>r / unit\<rfloor>; hi = lo + 1;
          ok = (\<lambda>m. fl (of_nat m * unit) = r);
          near_lo = r - of_nat lo * unit \<le> of_nat hi * unit - r
      in if ok lo \<and> (near_lo \<or> \<not> ok hi) then Some lo else if ok hi then Some hi else None)"

fun shortest :: "nat \<Rightarrow> nat \<Rightarrow> rat \<Rightarrow> int \<Rightarrow> nat \<times> int" where
  "shortest 0 p r e = (nat \<lfloor>r * 10 powi (16 - e)\<rfloor>, e - 16)"
| "shortest (Suc n) p r e =
     (case digits_for r e p of Some m \<Rightarrow> (m, e - int p + 1) | None \<Rightarrow> shortest n (p + 1) r e)"

definition zeros :: "nat \<Rightarrow> pystr" where "zeros n = replicate n 48"

text \<open>\<open>repr\<close> of a positive double: fixed notation for decimal points from -3 to 16.\<close>

definition repr_pos :: "rat \<Rightarrow> pystr" where
  "repr_pos r =
     (let e = dec_exp 400 r; (m, x) = shortest 17 1 r e; ds = py_str_nat m;
          sig = rev (dropWhile (\<lambda>c. c = 48) (rev ds)); n = length sig; decpt = int (length ds) + x
      in if - 4 < decpt \<and> decpt \<le> 16 then
           (if decpt \<le> 0 then lit ''0.'' @ zeros (nat (- decpt)) @ sig
            else if int n \<le> decpt then sig @ zeros (nat decpt - n) @ lit ''.0''
            else take (nat decpt) sig @ lit ''.'' @ drop (nat decpt) sig)
         else
           (let q = decpt - 1; a = py_str_nat (nat \<bar>q\<bar>)
            in take 1 sig @ (if n = 1 then [] else lit ''.'' @ drop 1 sig) @ lit ''e'' @ (if q < 0 then lit ''-'' else lit ''+'') @
               (if length a < 2 then lit ''0'' @ a else a)))"

definition repr_float :: "pyfloat \<Rightarrow> pystr" where
  "repr_float x = (case x of
      Fin r \<Rightarrow> if r = 0 then lit ''0.0'' else if r < 0 then lit ''-'' @ repr_pos (- r) else repr_pos r
    | PInf \<Rightarrow> lit ''inf'' | NInf \<Rightarrow> lit ''-inf'' | NaN \<Rightarrow> lit ''nan'')"

section \<open>Whole numbers\<close>

lemma to_float_int: "\<bar>i\<bar> < 2 ^ 53 \<Longrightarrow> to_float (of_int i) = Fin (of_int i)"
proof -
  assume i: "\<bar>i\<bar> < 2 ^ 53"
  then have "is_double (of_int i)"
    unfolding is_double_def by (intro exI [of _ i] exI [of _ 0]) auto
  then have "fl (of_int i) = (of_int i :: rat)" by (rule fl_exact)
  moreover have "\<bar>of_int i :: rat\<bar> < 2 ^ 1024"
  proof -
    have "\<bar>of_int i :: rat\<bar> = of_int \<bar>i\<bar>" by simp
    also have "\<dots> < of_int (2 ^ 53)" using i by (simp only: of_int_less_iff)
    also have "\<dots> \<le> 2 ^ 1024" by simp
    finally show ?thesis .
  qed
  ultimately show ?thesis by (simp add: to_float_def Let_def abs_less_iff not_le)
qed

lemma digits_value_shift: "foldl (\<lambda>v d. v * 10 + (d - 48)) a (map (\<lambda>d. 48 + d) ds) = foldl (\<lambda>v d. v * 10 + d) a ds"
  for a :: nat
  by (induction ds arbitrary: a) auto

lemma digits_value_nat: "digits_value (py_str_nat n) = n"
  by (simp add: digits_value_def py_str_nat_def digits_value_shift nat_digits_value)

lemma py_str_nat_digits: "list_all ascii_digit (py_str_nat n)"
proof -
  have "d \<le> 9" if "d \<in> set (nat_digits n)" for d using nat_digits_less [OF that] by simp
  then show ?thesis by (auto simp: py_str_nat_def list_all_iff ascii_digit_def)
qed

lemma py_str_nat_nonempty [simp]: "py_str_nat n \<noteq> []"
  by (simp add: py_str_nat_def)

lemma digit_facts: "ascii_digit c \<Longrightarrow> c < 128 \<and> c \<noteq> 95 \<and> c \<noteq> 45 \<and> c \<noteq> 43 \<and> lower c = c \<and> \<not> isspace u c"
  by (auto simp: ascii_digit_def lower_def isspace_def)

lemma drop_underscores_plain: "\<forall>c\<in>set s. c \<noteq> 95 \<Longrightarrow> drop_underscores b s = Some s"
  by (induction s arbitrary: b) auto

lemma strip_plain: "s \<noteq> [] \<Longrightarrow> \<forall>c\<in>set s. \<not> isspace u c \<Longrightarrow> py_strip u s = s"
proof -
  assume s: "s \<noteq> []" "\<forall>c\<in>set s. \<not> isspace u c"
  have "dropWhile (isspace u) s = s" "dropWhile (isspace u) (rev s) = rev s"
    using s by (simp_all add: dropWhile_eq_self_iff hd_rev)
  then show ?thesis by (simp add: py_strip_def)
qed

lemma unsigned_float_nat: "int n < 2 ^ 53 \<Longrightarrow> unsigned_float (py_str_nat n) = Some (Fin (of_nat n))"
proof -
  assume n: "int n < 2 ^ 53"
  let ?s = "py_str_nat n"
  have d: "\<forall>c\<in>set ?s. ascii_digit c" using py_str_nat_digits by (simp add: list_all_iff)
  have low: "map lower ?s = ?s" using d digit_facts by (intro map_idI) blast
  have "\<not> list_all ascii_digit (lit ''inf'')" "\<not> list_all ascii_digit (lit ''infinity'')" "\<not> list_all ascii_digit (lit ''nan'')"
    by code_simp+
  then have ne: "?s \<noteq> lit ''inf''" "?s \<noteq> lit ''infinity''" "?s \<noteq> lit ''nan''"
    using py_str_nat_digits [of n] by auto
  have tw: "takeWhile ascii_digit ?s = ?s" "dropWhile ascii_digit ?s = []" using d by auto
  have "to_float (of_nat n) = Fin (of_nat n)" using to_float_int [of "int n"] n by simp
  then show ?thesis
    using ne by (simp add: unsigned_float_def low tw exponent_of_def digits_value_nat)
qed

lemma py_str_int_form: "py_str_int i = (if i < 0 then [45] else []) @ py_str_nat (nat \<bar>i\<bar>)"
  by (simp add: py_str_int_def)

lemma py_str_int_plain:
  "drop_underscores False (py_strip u (map (to_ascii u) (py_str_int i))) = Some (py_str_int i)"
proof -
  have d: "\<forall>c\<in>set (py_str_nat (nat \<bar>i\<bar>)). ascii_digit c" using py_str_nat_digits by (simp add: list_all_iff)
  have all: "\<forall>c\<in>set (py_str_int i). c < 128 \<and> c \<noteq> 95 \<and> \<not> isspace u c"
    using d by (auto simp: py_str_int_form isspace_def ascii_digit_def)
  have asc: "map (to_ascii u) (py_str_int i) = py_str_int i"
    using all by (intro map_idI) (auto simp: to_ascii_def)
  show ?thesis unfolding asc using all by (subst strip_plain) (auto simp: py_str_int_form drop_underscores_plain)
qed

lemma float_of_int_text:
  assumes "\<bar>i\<bar> < 2 ^ 53"
  shows "float_of_text u (py_str_int i) = Inr (Fin (of_int i))"
proof -
  let ?n = "nat \<bar>i\<bar>"
  obtain c cs where c: "py_str_nat ?n = c # cs" "c \<noteq> 45" "c \<noteq> 43"
    using py_str_nat_digits [of ?n] digit_facts by (cases "py_str_nat ?n") auto
  have "int ?n < 2 ^ 53" using assms by simp
  then have u: "unsigned_float (c # cs) = Some (Fin (of_nat ?n))" using unsigned_float_nat [of ?n] c(1) by simp
  show ?thesis unfolding float_of_text_def py_str_int_plain
    using c u by (cases "i < 0") (auto simp: py_str_int_form neg_float_def)
qed

end
