(* ===== verification/Evalsql.thy ===== *)
theory Evalsql
  imports Evaluator PyNum
begin

text \<open>
  \<^verbatim>\<open>src/src/osmpq/engine/evalsql.py\<close>: evaluator expressions compiled to SQL text over a row
  (\<open>compile_element\<close>) and evaluated once against a set (\<open>evaluate_set\<close>).

  SQL is text. In the fixed parts, written with \<open>sql\<close>, a back quote stands for the single quote
  and a caret for the double quote. The parameter \<open>promoted_keys\<close>, which the code passes around
  and never reads, is left out. DuckDB is a parameter: whether a table exists and the scalar a
  query returns.
\<close>

definition sql :: "string \<Rightarrow> pystr" where
  "sql s = map (\<lambda>c. if c = CHR ''`'' then 39 else if c = CHR ''^'' then 34 else of_char c) s"

definition sql_str :: "pystr \<Rightarrow> pystr" where
  "sql_str s = [39] @ concat (map (\<lambda>c. if c = 39 then [39, 39] else [c]) s) @ [39]"

definition tag_value_sql :: "pystr \<Rightarrow> pystr \<Rightarrow> pystr" where
  "tag_value_sql key alias = alias @ sql ''.tags['' @ sql_str key @ sql '']''"

section \<open>Fragments\<close>

definition is_num_sql :: "pystr \<Rightarrow> pystr" where
  "is_num_sql v = sql ''try_cast('' @ v @ sql '' AS DOUBLE) IS NOT NULL''"

definition num_sql :: "pystr \<Rightarrow> pystr" where
  "num_sql v = sql ''try_cast('' @ v @ sql '' AS DOUBLE)''"

definition format_num_sql :: "pystr \<Rightarrow> pystr" where
  "format_num_sql d =
     sql ''(CASE WHEN ('' @ d @ sql '') IS NULL THEN `nan` WHEN ('' @ d @ sql '') = floor('' @ d @ sql '') AND abs('' @ d @
     sql '') < 1e15 THEN CAST(CAST('' @ d @ sql '' AS BIGINT) AS VARCHAR) ELSE CAST('' @ d @ sql '' AS VARCHAR) END)''"

definition truthy_sql :: "pystr \<Rightarrow> pystr" where
  "truthy_sql v = sql ''('' @ v @ sql '' IS NOT NULL AND '' @ v @ sql '' != `` AND '' @ v @ sql '' != `0`)''"

definition bool_to_value_sql :: "pystr \<Rightarrow> pystr" where
  "bool_to_value_sql b = sql ''(CASE WHEN '' @ b @ sql '' THEN `1` ELSE `0` END)''"

definition cmp_op_sql :: "etoken_type \<Rightarrow> string option" where
  "cmp_op_sql op = map_of [(E_LT, ''<''), (E_LE, ''<=''), (E_GT, ''>''), (E_GE, ''>=''), (E_EQEQ, ''=''), (E_NEQ, ''!='')] op"

text \<open>\<open>v == int(v)\<close> raises \<open>OverflowError\<close> for an infinity.\<close>

definition format_py_num :: "pyfloat \<Rightarrow> pystr result" where
  "format_py_num v =
     (if v = NaN then Inr (lit ''nan'')
      else rbind (int_of_float v) (\<lambda>i.
        if v = Fin (of_int i) \<and> \<bar>i\<bar> < 10 ^ 15 then Inr (py_str_int i) else Inr (repr_float v)))"

section \<open>\<open>compile_element\<close>\<close>

definition compile_binop :: "etoken_type \<Rightarrow> pystr \<Rightarrow> pystr \<Rightarrow> pystr result" where
  "compile_binop op a b =
     (if op = E_PLUS then Inr (format_num_sql (sql ''('' @ num_sql a @ sql '' + '' @ num_sql b @ sql '')''))
      else if op = E_MINUS then Inr (format_num_sql (sql ''('' @ num_sql a @ sql '' - '' @ num_sql b @ sql '')''))
      else if op = E_STAR then Inr (format_num_sql (sql ''('' @ num_sql a @ sql '' * '' @ num_sql b @ sql '')''))
      else if op = E_SLASH then
        Inr (format_num_sql (sql ''(CASE WHEN '' @ num_sql b @ sql '' = 0 THEN NULL ELSE '' @ num_sql a @ sql '' / '' @ num_sql b @ sql '' END)''))
      else case cmp_op_sql op of
        Some o_sql \<Rightarrow>
          (let both_numeric = sql ''('' @ is_num_sql a @ sql '' AND '' @ is_num_sql b @ sql '')'';
               num_cmp = sql ''('' @ num_sql a @ sql '' '' @ sql o_sql @ sql '' '' @ num_sql b @ sql '')'';
               lex_cmp = sql ''('' @ a @ sql '' '' @ sql o_sql @ sql '' '' @ b @ sql '')''
           in Inr (bool_to_value_sql (sql ''(CASE WHEN '' @ both_numeric @ sql '' THEN '' @ num_cmp @ sql '' ELSE '' @ lex_cmp @ sql '' END)'')))
      | None \<Rightarrow>
          if op = E_ANDAND then Inr (bool_to_value_sql (sql ''('' @ truthy_sql a @ sql '' AND '' @ truthy_sql b @ sql '')''))
          else if op = E_OROR then Inr (bool_to_value_sql (sql ''('' @ truthy_sql a @ sql '' OR '' @ truthy_sql b @ sql '')''))
          else Inl (UnsupportedError (lit ''evaluator operator '' @ [39] @ lit (etype_text op) @ [39] @ lit '' is not supported'')))"

text \<open>The functions without an argument, as SQL over the row.\<close>

definition field_call_sql :: "pystr \<Rightarrow> pystr \<Rightarrow> pystr option" where
  "field_call_sql al name =
     (if name = lit ''id'' then Some (sql ''CAST('' @ al @ sql ''.id AS VARCHAR)'')
      else if name = lit ''type'' then Some (sql ''COALESCE('' @ al @ sql ''.type, ``)'')
      else if name = lit ''version'' then Some (sql ''COALESCE(CAST('' @ al @ sql ''.version AS VARCHAR), ``)'')
      else if name = lit ''timestamp'' then Some (sql ''COALESCE(strftime('' @ al @ sql ''.^timestamp^, `%Y-%m-%dT%H:%M:%SZ`), ``)'')
      else if name = lit ''changeset'' then Some (sql ''COALESCE(CAST('' @ al @ sql ''.changeset AS VARCHAR), ``)'')
      else if name = lit ''uid'' then Some (sql ''COALESCE(CAST('' @ al @ sql ''.uid AS VARCHAR), ``)'')
      else if name = lit ''user'' then Some (sql ''COALESCE('' @ al @ sql ''.^user^, ``)'')
      else if name = lit ''count_tags'' then Some (sql ''CAST(COALESCE(cardinality('' @ al @ sql ''.tags), 0) AS VARCHAR)'')
      else if name = lit ''count_members'' then
        Some (sql ''CAST(CASE WHEN '' @ al @ sql ''.type = `way` THEN COALESCE(array_length('' @ al @
          sql ''.refs), 0) WHEN '' @ al @ sql ''.type = `relation` THEN COALESCE(array_length('' @ al @
          sql ''.members), 0) ELSE 0 END AS VARCHAR)'')
      else if name = lit ''count_distinct_members'' then
        Some (sql ''CAST(CASE WHEN '' @ al @ sql ''.type = `way` THEN COALESCE(array_length(list_distinct('' @ al @
          sql ''.refs)), 0) WHEN '' @ al @ sql ''.type = `relation` THEN COALESCE(array_length(list_distinct(list_transform('' @ al @
          sql ''.members, __m -> __m.type || `:` || CAST(__m.ref AS VARCHAR)))), 0) ELSE 0 END AS VARCHAR)'')
      else if name = lit ''is_closed'' then
        Some (bool_to_value_sql (sql ''('' @ al @ sql ''.type = `way` AND array_length('' @ al @
          sql ''.refs) >= 2 AND list_first('' @ al @ sql ''.refs) = list_last('' @ al @ sql ''.refs))''))
      else if name = lit ''length'' then
        Some (format_num_sql (sql ''COALESCE(CASE WHEN '' @ al @ sql ''.type = `way` THEN ST_Length_Spheroid(ST_FlipCoordinates('' @ al @
          sql ''.geometry)) ELSE NULL END, 0)''))
      else if name = lit ''lat'' then
        Some (format_num_sql (sql ''CASE WHEN '' @ al @ sql ''.type = `node` THEN '' @ al @ sql ''.lat_e7 / 1e7 ELSE NULL END''))
      else if name = lit ''lon'' then
        Some (format_num_sql (sql ''CASE WHEN '' @ al @ sql ''.type = `node` THEN '' @ al @ sql ''.lon_e7 / 1e7 ELSE NULL END''))
      else None)"

text \<open>The functions of one argument: \<open>arg\<close> is \<open>args[0]\<close> and \<open>c\<close> its compilation, which only some use.\<close>

definition arg_call_sql :: "pystr \<Rightarrow> pystr \<Rightarrow> expr result \<Rightarrow> pystr result \<Rightarrow> pystr result" where
  "arg_call_sql al name arg c =
     (if name = lit ''count_by_role'' then
        rbind c (\<lambda>role. Inr (sql ''CAST(CASE WHEN '' @ al @ sql ''.type = `relation` THEN COALESCE(array_length(list_filter('' @ al @
          sql ''.members, __m -> __m.role = ('' @ role @ sql ''))), 0) ELSE 0 END AS VARCHAR)''))
      else if name = lit ''is_tag'' then
        rbind arg (\<lambda>key. case key of
            Str k \<Rightarrow> Inr (bool_to_value_sql (tag_value_sql k al @ sql '' IS NOT NULL''))
          | _ \<Rightarrow> Inl (UnsupportedError (lit ''is_tag(...) requires a literal string key'')))
      else if name = lit ''number'' then rbind c (\<lambda>val. Inr (format_num_sql (num_sql val)))
      else if name = lit ''is_number'' then rbind c (\<lambda>val. Inr (bool_to_value_sql (is_num_sql val)))
      else Inl (UnsupportedError (lit ''evaluator function '' @ name @ lit ''() is not supported'')))"

definition compile_call :: "pystr \<Rightarrow> pystr \<Rightarrow> expr result \<Rightarrow> pystr result \<Rightarrow> pystr result" where
  "compile_call al name arg c = (case field_call_sql al name of Some s \<Rightarrow> Inr s | None \<Rightarrow> arg_call_sql al name arg c)"

definition set_scoped_error :: py_error where
  "set_scoped_error = UnsupportedError (lit ''set-scoped count/aggregate functions are not supported in (if:)'')"

fun compile_element :: "pystr \<Rightarrow> expr \<Rightarrow> pystr result" where
  "compile_element al (Num v) = rbind (format_py_num v) (\<lambda>s. Inr (sql_str s))"
| "compile_element al (Str s) = Inr (sql_str s)"
| "compile_element al (TagAccess key) = Inr (sql ''COALESCE('' @ tag_value_sql key al @ sql '', ``)'')"
| "compile_element al (SetCount _) = Inl set_scoped_error"
| "compile_element al (NamedSetCount _ _) = Inl set_scoped_error"
| "compile_element al (Aggregate _ _) = Inl set_scoped_error"
| "compile_element al (ElementCall name []) = compile_call al name (Inl IndexError) (Inl IndexError)"
| "compile_element al (ElementCall name (a # as)) = compile_call al name (Inr a) (compile_element al a)"
| "compile_element al (Unary op e) =
     rbind (compile_element al e) (\<lambda>inner.
       if op = E_BANG then Inr (bool_to_value_sql (sql ''NOT '' @ truthy_sql inner))
       else Inr (format_num_sql (sql ''-'' @ num_sql inner)))"
| "compile_element al (BinOp op l r) =
     rbind (compile_element al l) (\<lambda>a. rbind (compile_element al r) (\<lambda>b. compile_binop op a b))"
| "compile_element al (Ternary c t e) =
     rbind (compile_element al c) (\<lambda>cond. rbind (compile_element al t) (\<lambda>then_sql. rbind (compile_element al e) (\<lambda>otherwise.
       Inr (sql ''(CASE WHEN '' @ truthy_sql cond @ sql '' THEN '' @ then_sql @ sql '' ELSE '' @ otherwise @ sql '' END)''))))"

definition compile_predicate :: "pystr \<Rightarrow> expr \<Rightarrow> pystr result" where
  "compile_predicate al e = rbind (compile_element al e) (\<lambda>s. Inr (truthy_sql s))"

section \<open>\<open>evaluate_set\<close>\<close>

datatype sql_value = SqlNull | SqlInt int | SqlDouble pyfloat | SqlText pystr

record sql_db =
  db_has_table :: "pystr \<Rightarrow> bool"
  db_scalar :: "pystr \<Rightarrow> sql_value result"

definition type_filter_sql :: "(pystr \<times> pystr) list" where
  "type_filter_sql = [(lit ''nodes'', sql ''type = `node`''), (lit ''ways'', sql ''type = `way`''),
     (lit ''relations'', sql ''type = `relation`''), (lit ''areas'', sql ''type = `area`''),
     (lit ''nwr'', sql ''type IN (`node`, `way`, `relation`)'')]"

definition require_set_table :: "sql_db \<Rightarrow> pystr \<Rightarrow> unit result" where
  "require_set_table db set_name =
     (if db_has_table db (lit ''set_'' @ set_name) then Inr ()
      else Inl (RuntimeQueryError (sql ''runtime error: set ^.'' @ set_name @ sql ''^ has not been set before'')))"

definition py_is_number :: "unicode_db \<Rightarrow> pystr \<Rightarrow> bool" where
  "py_is_number u s = (case float_of_text u s of Inr _ \<Rightarrow> True | Inl _ \<Rightarrow> False)"

definition py_to_number :: "unicode_db \<Rightarrow> pystr \<Rightarrow> pyfloat" where
  "py_to_number u s = (case float_of_text u s of Inr v \<Rightarrow> v | Inl _ \<Rightarrow> NaN)"

definition truthy_value :: "pystr \<Rightarrow> bool" where
  "truthy_value s \<longleftrightarrow> s \<noteq> [] \<and> s \<noteq> lit ''0''"

definition py_bool :: "bool \<Rightarrow> pystr" where
  "py_bool b = (if b then lit ''1'' else lit ''0'')"

text \<open>\<open>str(int(n))\<close>, \<open>str(row)\<close> and \<open>float(row)\<close> of a scalar.\<close>

definition scalar_int_text :: "sql_value \<Rightarrow> pystr result" where
  "scalar_int_text v = (case v of SqlInt i \<Rightarrow> Inr (py_str_int i) | SqlDouble x \<Rightarrow> rbind (int_of_float x) (\<lambda>i. Inr (py_str_int i))
     | SqlText _ \<Rightarrow> Inl ValueError | SqlNull \<Rightarrow> Inl TypeError)"

definition scalar_text :: "sql_value \<Rightarrow> pystr" where
  "scalar_text v = (case v of SqlNull \<Rightarrow> [] | SqlInt i \<Rightarrow> py_str_int i | SqlDouble x \<Rightarrow> repr_float x | SqlText s \<Rightarrow> s)"

definition scalar_float :: "unicode_db \<Rightarrow> sql_value \<Rightarrow> pyfloat result" where
  "scalar_float u v = (case v of SqlNull \<Rightarrow> Inl TypeError | SqlInt i \<Rightarrow> Inr (to_float (of_int i)) | SqlDouble x \<Rightarrow> Inr x
     | SqlText s \<Rightarrow> float_of_text u s)"

definition set_count :: "sql_db \<Rightarrow> pystr \<Rightarrow> pystr \<Rightarrow> pystr result" where
  "set_count db set_name type_name =
     rbind (require_set_table db set_name) (\<lambda>_.
       case map_of type_filter_sql type_name of
         None \<Rightarrow> Inl KeyError
       | Some cond \<Rightarrow>
           rbind (db_scalar db (sql ''SELECT count(*) FROM set_'' @ set_name @ sql '' WHERE '' @ cond)) scalar_int_text)"

definition aggregate_value :: "unicode_db \<Rightarrow> sql_db \<Rightarrow> pystr \<Rightarrow> pystr \<Rightarrow> pystr \<Rightarrow> pystr result" where
  "aggregate_value u db set_name func v =
     (let from_sql = sql '' FROM set_'' @ set_name @ sql '' __e''
      in if func = lit ''u'' then
           rbind (db_scalar db (sql ''SELECT CASE WHEN count(DISTINCT '' @ v @ sql '') <= 1 THEN max('' @ v @ sql '') ELSE NULL END'' @ from_sql))
             (\<lambda>row. Inr (scalar_text row))
         else if func = lit ''min'' then
           rbind (db_scalar db (sql ''SELECT min(try_cast('' @ v @ sql '' AS DOUBLE))'' @ from_sql))
             (\<lambda>row. if row = SqlNull then Inr [] else rbind (scalar_float u row) format_py_num)
         else if func = lit ''max'' then
           rbind (db_scalar db (sql ''SELECT max(try_cast('' @ v @ sql '' AS DOUBLE))'' @ from_sql))
             (\<lambda>row. if row = SqlNull then Inr [] else rbind (scalar_float u row) format_py_num)
         else if func = lit ''sum'' then
           rbind (db_scalar db (sql ''SELECT sum(try_cast('' @ v @ sql '' AS DOUBLE))'' @ from_sql))
             (\<lambda>row. if row = SqlNull then format_py_num (Fin 0) else rbind (scalar_float u row) format_py_num)
         else if func = lit ''set'' then
           rbind (db_scalar db (sql ''SELECT string_agg(DISTINCT '' @ v @ sql '', `, ` ORDER BY '' @ v @ sql '')'' @ from_sql))
             (\<lambda>row. Inr (scalar_text row))
         else Inl (UnsupportedError (lit ''aggregator '' @ func @ lit ''(...) is not supported'')))"

definition float_cmp :: "etoken_type \<Rightarrow> pyfloat \<Rightarrow> pyfloat \<Rightarrow> bool" where
  "float_cmp op a b =
     (if op = E_LT then float_lt a b else if op = E_LE then float_le a b
      else if op = E_GT then float_lt b a else if op = E_GE then float_le b a
      else if op = E_EQEQ then float_eq a b else \<not> float_eq a b)"

definition text_cmp :: "etoken_type \<Rightarrow> pystr \<Rightarrow> pystr \<Rightarrow> bool" where
  "text_cmp op a b =
     (if op = E_LT then a < b else if op = E_LE then a \<le> b
      else if op = E_GT then b < a else if op = E_GE then b \<le> a
      else if op = E_EQEQ then a = b else a \<noteq> b)"

definition eval_binop :: "unicode_db \<Rightarrow> etoken_type \<Rightarrow> pystr \<Rightarrow> pystr \<Rightarrow> pystr result" where
  "eval_binop u op a b =
     (let an = py_to_number u a; bn = py_to_number u b
      in if op = E_PLUS then format_py_num (float_add an bn)
         else if op = E_MINUS then format_py_num (float_sub an bn)
         else if op = E_STAR then format_py_num (float_mul an bn)
         else if op = E_SLASH then format_py_num (if is_zero bn then NaN else float_div an bn)
         else if cmp_op_sql op \<noteq> None then
           Inr (py_bool (if py_is_number u a \<and> py_is_number u b then float_cmp op an bn else text_cmp op a b))
         else if op = E_ANDAND then Inr (py_bool (truthy_value a \<and> truthy_value b))
         else if op = E_OROR then Inr (py_bool (truthy_value a \<or> truthy_value b))
         else Inl (UnsupportedError (lit ''evaluator operator '' @ [39] @ lit (etype_text op) @ [39] @ lit '' is not supported'')))"

definition bare_element_error :: py_error where
  "bare_element_error = RuntimeQueryError (sql ''runtime error: element-scoped function used outside an aggregator in an `if`/(if:) condition; wrap it in u(...)'')"

fun evaluate_set :: "unicode_db \<Rightarrow> sql_db \<Rightarrow> expr \<Rightarrow> pystr \<Rightarrow> pystr result" where
  "evaluate_set u db (Num v) set_name = format_py_num v"
| "evaluate_set u db (Str s) set_name = Inr s"
| "evaluate_set u db (TagAccess _) set_name = Inl bare_element_error"
| "evaluate_set u db (ElementCall _ _) set_name = Inl bare_element_error"
| "evaluate_set u db (SetCount type_name) set_name = set_count db set_name type_name"
| "evaluate_set u db (NamedSetCount other type_name) set_name = set_count db other type_name"
| "evaluate_set u db (Aggregate func e) set_name =
     rbind (require_set_table db set_name) (\<lambda>_.
     rbind (compile_element (lit ''__e'') e) (\<lambda>v. aggregate_value u db set_name func v))"
| "evaluate_set u db (Unary op e) set_name =
     rbind (evaluate_set u db e set_name) (\<lambda>val.
       if op = E_BANG then Inr (py_bool (\<not> truthy_value val)) else format_py_num (neg_float (py_to_number u val)))"
| "evaluate_set u db (BinOp op l r) set_name =
     rbind (evaluate_set u db l set_name) (\<lambda>a. rbind (evaluate_set u db r set_name) (\<lambda>b. eval_binop u op a b))"
| "evaluate_set u db (Ternary c t e) set_name =
     rbind (evaluate_set u db c set_name) (\<lambda>cond.
       if truthy_value cond then evaluate_set u db t set_name else evaluate_set u db e set_name)"

end
