(* ===== verification/Evalsql_Correct.thy ===== *)
theory Evalsql_Correct
  imports Evalsql Evaluator_Correct
begin

text \<open>
  The SQL that \<open>compile_element\<close> writes: user text reaches it only inside string literals, whose
  values it cannot leave, so that two expressions of the same shape compile to the same code
  around their literals. And the errors \<open>evaluate_set\<close> can raise.
\<close>

section \<open>SQL text as code and string literals\<close>

datatype sql_tok = Code nat | Literal pystr | Unterminated

fun lex_sql :: "pystr option \<Rightarrow> pystr \<Rightarrow> sql_tok list" where
  "lex_sql None [] = []"
| "lex_sql None (c # cs) = (if c = 39 then lex_sql (Some []) cs else Code c # lex_sql None cs)"
| "lex_sql (Some v) [] = [Unterminated]"
| "lex_sql (Some v) [c] = (if c = 39 then [Literal v] else [Unterminated])"
| "lex_sql (Some v) (c # d # cs) =
     (if c = 39 then
        (if d = 39 then lex_sql (Some (v @ [39])) cs else Literal v # Code d # lex_sql None cs)
      else lex_sql (Some (v @ [c])) (d # cs))"

text \<open>The code with the values of the literals blanked out.\<close>

fun blank_literal :: "sql_tok \<Rightarrow> sql_tok" where
  "blank_literal (Literal _) = Literal []"
| "blank_literal t = t"

definition skeleton :: "pystr \<Rightarrow> sql_tok list" where
  "skeleton s = map blank_literal (lex_sql None s)"

definition closed_sql :: "pystr \<Rightarrow> bool" where
  "closed_sql s \<longleftrightarrow> Unterminated \<notin> set (lex_sql None s)"

lemma lex_sql_append:
  assumes "Unterminated \<notin> set (lex_sql st s)" and "c \<noteq> 39"
  shows "lex_sql st (s @ c # cs) = lex_sql st s @ Code c # lex_sql None cs"
  using assms
proof (induction st s rule: lex_sql.induct)
  case (4 v d)
  then show ?case by (auto split: if_splits)
qed (auto split: if_splits)

lemma lex_sql_str: "lex_sql (Some v) (concat (map (\<lambda>c. if c = 39 then [39, 39] else [c]) s) @ [39]) = [Literal (v @ s)]"
proof (induction s arbitrary: v)
  case (Cons c s)
  show ?case
  proof (cases "c = 39")
    case True
    then show ?thesis using Cons [of "v @ [39]"] by simp
  next
    case False
    then show ?thesis using Cons [of "v @ [c]"]
      by (cases "concat (map (\<lambda>c. if c = 39 then [39, 39] else [c]) s) @ [39]") auto
  qed
qed simp

lemma sql_str_literal [simp]: "lex_sql None (sql_str s) = [Literal s]"
  using lex_sql_str [of "[]" s] by (simp add: sql_str_def)

lemma closed_sql_str [simp]: "closed_sql (sql_str s)"
  by (simp add: closed_sql_def)

text \<open>\<open>same_code\<close>: both texts are closed and differ only in the values of literals.\<close>

definition same_code :: "pystr \<Rightarrow> pystr \<Rightarrow> bool" where
  "same_code v w \<longleftrightarrow> closed_sql v \<and> closed_sql w \<and> skeleton v = skeleton w"

lemma same_code_str: "same_code (sql_str a) (sql_str b)"
  by (simp add: same_code_def skeleton_def)

text \<open>
  A fixed piece with an even number of quotes is closed; one that ends in code, and one that
  does not start with a quote. The tests run on the characters.
\<close>

definition is_quote :: "char \<Rightarrow> bool" where
  "is_quote c \<longleftrightarrow> c = CHR ''`'' \<or> c = CHR 0x27"

fun closed_chars :: "bool \<Rightarrow> string \<Rightarrow> bool" where
  "closed_chars inside [] = (\<not> inside)"
| "closed_chars inside (c # cs) = closed_chars (if is_quote c then \<not> inside else inside) cs"

definition ends_code :: "string \<Rightarrow> bool" where
  "ends_code p \<longleftrightarrow> p \<noteq> [] \<and> \<not> is_quote (last p) \<and> closed_chars False p"

definition starts_code :: "string \<Rightarrow> bool" where
  "starts_code p \<longleftrightarrow> p \<noteq> [] \<and> \<not> is_quote (hd p)"

lemma lex_sql_parity: "Unterminated \<notin> set (lex_sql st s) \<longleftrightarrow> (st = None \<longleftrightarrow> even (count_list s 39))"
  by (induction st s rule: lex_sql.induct) auto

lemma of_char_quote: "(of_char c :: nat) = 39 \<longleftrightarrow> c = CHR 0x27"
proof -
  have "(of_char (CHR 0x27) :: nat) = 39" by simp
  then show ?thesis by (metis of_char_eq_iff)
qed

lemma closed_chars_parity: "closed_chars b p \<longleftrightarrow> (b \<longleftrightarrow> odd (count_list (sql p) 39))"
  by (induction b p rule: closed_chars.induct) (auto simp: sql_def is_quote_def of_char_quote)

lemma closed_chars_sql: "closed_chars False p \<Longrightarrow> closed_sql (sql p)"
  by (simp add: closed_sql_def lex_sql_parity closed_chars_parity)

lemma sql_quote: "p \<noteq> [] \<Longrightarrow> last (sql p) = 39 \<longleftrightarrow> is_quote (last p)" "p \<noteq> [] \<Longrightarrow> hd (sql p) = 39 \<longleftrightarrow> is_quote (hd p)"
  by (auto simp: sql_def last_map hd_map is_quote_def of_char_quote)

lemma lex_sql_snoc_code:
  "Unterminated \<notin> set (lex_sql st (s @ [c])) \<Longrightarrow> c \<noteq> 39 \<Longrightarrow>
   lex_sql st (s @ c # cs) = lex_sql st (s @ [c]) @ lex_sql None cs"
proof (induction st s rule: lex_sql.induct)
  case (4 v d)
  then show ?case by (auto split: if_splits)
qed (auto split: if_splits)

lemma lex_sql_join:
  assumes "closed_sql p" and "p \<noteq> []" and "last p \<noteq> 39"
  shows "lex_sql None (p @ X) = lex_sql None p @ lex_sql None X"
  using assms lex_sql_snoc_code [of None "butlast p" "last p" X]
  by (simp add: closed_sql_def append_butlast_last_id) (metis append_butlast_last_id append.assoc append_Cons append_Nil)

lemma lex_sql_join_code:
  assumes "closed_sql v" and "X \<noteq> []" and "hd X \<noteq> 39"
  shows "lex_sql None (v @ X) = lex_sql None v @ lex_sql None X"
  using assms lex_sql_append [of None v "hd X" "tl X"] by (cases X) (auto simp: closed_sql_def)

lemma same_code_join:
  assumes "same_code a b" and "same_code X Y"
    and "lex_sql None (a @ X) = lex_sql None a @ lex_sql None X" "lex_sql None (b @ Y) = lex_sql None b @ lex_sql None Y"
  shows "same_code (a @ X) (b @ Y)"
  using assms by (simp add: same_code_def closed_sql_def skeleton_def)

lemma sql_nonempty [simp]: "sql p = [] \<longleftrightarrow> p = []"
  by (simp add: sql_def)

lemma code_end: "closed_chars False p \<Longrightarrow> same_code (sql p) (sql p)"
  by (simp add: same_code_def closed_chars_sql)

lemma code_piece: "ends_code p \<Longrightarrow> same_code X Y \<Longrightarrow> same_code (sql p @ X) (sql p @ Y)"
  by (intro same_code_join lex_sql_join) (auto simp: ends_code_def same_code_def sql_quote closed_chars_sql)

lemma code_value: "same_code v w \<Longrightarrow> starts_code q \<Longrightarrow> same_code (sql q @ X) (sql q @ Y) \<Longrightarrow> same_code (v @ sql q @ X) (w @ sql q @ Y)"
  by (rule same_code_join) (auto simp: starts_code_def sql_quote same_code_def intro!: lex_sql_join_code)

lemma code_value_end: "same_code v w \<Longrightarrow> starts_code q \<Longrightarrow> same_code (sql q) (sql q) \<Longrightarrow> same_code (v @ sql q) (w @ sql q)"
  by (intro same_code_join lex_sql_join_code) (auto simp: starts_code_def sql_quote same_code_def)

lemmas code_checks = ends_code_def starts_code_def is_quote_def

lemmas code_rules = code_value code_value_end code_piece code_end

section \<open>The fragments\<close>

lemma num_sql_code: "same_code v w \<Longrightarrow> same_code (num_sql v) (num_sql w)"
  unfolding num_sql_def by (intro code_rules; (assumption | simp add: code_checks))

lemma is_num_sql_code: "same_code v w \<Longrightarrow> same_code (is_num_sql v) (is_num_sql w)"
  unfolding is_num_sql_def by (intro code_rules; (assumption | simp add: code_checks))

lemma format_num_sql_code: "same_code v w \<Longrightarrow> same_code (format_num_sql v) (format_num_sql w)"
  unfolding format_num_sql_def by (intro code_rules; (assumption | simp add: code_checks))

lemma truthy_sql_code: "same_code v w \<Longrightarrow> same_code (truthy_sql v) (truthy_sql w)"
  unfolding truthy_sql_def by (intro code_rules; (assumption | simp add: code_checks))

lemma bool_to_value_sql_code: "same_code v w \<Longrightarrow> same_code (bool_to_value_sql v) (bool_to_value_sql w)"
  unfolding bool_to_value_sql_def by (intro code_rules; (assumption | simp add: code_checks))

lemma tag_value_sql_code: "closed_sql al \<Longrightarrow> same_code (tag_value_sql a al) (tag_value_sql b al)"
proof -
  assume "closed_sql al"
  then have "same_code al al" by (simp add: same_code_def)
  then show ?thesis
    unfolding tag_value_sql_def by (intro code_rules same_code_str; (assumption | simp add: code_checks))
qed

lemma binop_cases:
  assumes "op \<in> set bin_ops"
  obtains "op = E_PLUS" | "op = E_MINUS" | "op = E_STAR" | "op = E_SLASH"
  | o_sql where "cmp_op_sql op = Some o_sql" "op \<notin> set add_ops" "op \<notin> set mult_ops"
  | "op = E_ANDAND" | "op = E_OROR"
  using assms by (auto simp: bin_ops_def cmp_op_sql_def)

lemma cmp_op_text: "cmp_op_sql op = Some o_sql \<Longrightarrow> o_sql \<in> set [''<'', ''<='', ''>'', ''>='', ''='', ''!='']"
  by (auto simp: cmp_op_sql_def split: if_splits)

lemma cmp_op_code: "cmp_op_sql op = Some o_sql \<Longrightarrow> ends_code o_sql"
proof -
  assume "cmp_op_sql op = Some o_sql"
  then have "o_sql \<in> set [''<'', ''<='', ''>'', ''>='', ''='', ''!='']" by (rule cmp_op_text)
  moreover have "list_all ends_code [''<'', ''<='', ''>'', ''>='', ''='', ''!='']" by (simp add: code_checks)
  ultimately show ?thesis by (auto simp: list_all_iff)
qed

lemma compare_code:
  assumes ab: "same_code a a'" "same_code b b'" and o: "cmp_op_sql op = Some o_sql"
  shows "same_code (sql ''('' @ a @ sql '' '' @ sql o_sql @ sql '' '' @ b @ sql '')'') (sql ''('' @ a' @ sql '' '' @ sql o_sql @ sql '' '' @ b' @ sql '')'')"
  by (intro code_rules ab cmp_op_code [OF o]; simp add: code_checks)

lemma compile_binop_code:
  assumes ab: "same_code a a'" "same_code b b'" and s: "compile_binop op a b = Inr s" and t: "compile_binop op a' b' = Inr t"
  shows "same_code s t"
proof -
  note n = num_sql_code [OF ab(1)] num_sql_code [OF ab(2)]
  have arith: "same_code (format_num_sql (sql ''('' @ num_sql a @ sql p @ num_sql b @ sql '')''))
      (format_num_sql (sql ''('' @ num_sql a' @ sql p @ num_sql b' @ sql '')''))"
    if "starts_code p" "ends_code p" for p
    by (intro format_num_sql_code code_rules n that; simp add: code_checks)
  have "starts_code '' + ''" "ends_code '' + ''" "starts_code '' - ''" "ends_code '' - ''" "starts_code '' * ''" "ends_code '' * ''"
    by (simp_all add: code_checks)
  note ar = arith [OF this(1,2)] arith [OF this(3,4)] arith [OF this(5,6)]
  have dv: "same_code (format_num_sql (sql ''(CASE WHEN '' @ num_sql b @ sql '' = 0 THEN NULL ELSE '' @ num_sql a @ sql '' / '' @ num_sql b @ sql '' END)''))
      (format_num_sql (sql ''(CASE WHEN '' @ num_sql b' @ sql '' = 0 THEN NULL ELSE '' @ num_sql a' @ sql '' / '' @ num_sql b' @ sql '' END)''))"
    by (intro format_num_sql_code code_rules n; simp add: code_checks)
  have lg: "same_code (bool_to_value_sql (sql ''('' @ truthy_sql a @ sql p @ truthy_sql b @ sql '')''))
      (bool_to_value_sql (sql ''('' @ truthy_sql a' @ sql p @ truthy_sql b' @ sql '')''))"
    if "starts_code p" "ends_code p" for p
    by (intro bool_to_value_sql_code code_rules truthy_sql_code ab that; simp add: code_checks)
  have "starts_code '' AND ''" "ends_code '' AND ''" "starts_code '' OR ''" "ends_code '' OR ''" by (simp_all add: code_checks)
  note logic = lg [OF this(1,2)] lg [OF this(3,4)]
  have bn: "same_code (sql ''('' @ is_num_sql a @ sql '' AND '' @ is_num_sql b @ sql '')'') (sql ''('' @ is_num_sql a' @ sql '' AND '' @ is_num_sql b' @ sql '')'')"
    by (intro code_rules is_num_sql_code ab; simp add: code_checks)
  have cmp: "same_code (bool_to_value_sql (sql ''(CASE WHEN '' @ x @ sql '' THEN '' @ y @ sql '' ELSE '' @ z @ sql '' END)''))
      (bool_to_value_sql (sql ''(CASE WHEN '' @ x' @ sql '' THEN '' @ y' @ sql '' ELSE '' @ z' @ sql '' END)''))"
    if "same_code x x'" "same_code y y'" "same_code z z'" for x y z x' y' z'
    by (intro bool_to_value_sql_code code_rules that; simp add: code_checks)
  show ?thesis
  proof (cases "cmp_op_sql op")
    case None
    then show ?thesis using s t ar dv logic by (auto simp: compile_binop_def split: if_splits)
  next
    case (Some o_sql)
    then have "op \<notin> set add_ops" "op \<notin> set mult_ops" by (auto simp: cmp_op_sql_def)
    then show ?thesis
      using s t Some cmp [OF bn compare_code [OF n Some] compare_code [OF ab Some]] by (auto simp: compile_binop_def Let_def)
  qed
qed

section \<open>Whole expressions\<close>

text \<open>An expression with its strings, tag keys and numbers blanked out.\<close>

fun blank_expr :: "expr \<Rightarrow> expr" where
  "blank_expr (Num _) = Num (Fin 0)"
| "blank_expr (Str _) = Str []"
| "blank_expr (TagAccess _) = TagAccess []"
| "blank_expr (ElementCall n as) = ElementCall n (map blank_expr as)"
| "blank_expr (SetCount ty) = SetCount ty"
| "blank_expr (NamedSetCount s ty) = NamedSetCount s ty"
| "blank_expr (Aggregate func e) = Aggregate func (blank_expr e)"
| "blank_expr (Unary op a) = Unary op (blank_expr a)"
| "blank_expr (BinOp op a b) = BinOp op (blank_expr a) (blank_expr b)"
| "blank_expr (Ternary a b c) = Ternary (blank_expr a) (blank_expr b) (blank_expr c)"

definition same_shape :: "expr \<Rightarrow> expr \<Rightarrow> bool" where
  "same_shape e f \<longleftrightarrow> blank_expr e = blank_expr f"

lemma same_shape_simps:
  "same_shape (Num v) f \<longleftrightarrow> (\<exists>w. f = Num w)"
  "same_shape (Str k) f \<longleftrightarrow> (\<exists>l. f = Str l)"
  "same_shape (TagAccess k) f \<longleftrightarrow> (\<exists>l. f = TagAccess l)"
  "same_shape (ElementCall n []) f \<longleftrightarrow> f = ElementCall n []"
  "same_shape (ElementCall n (x # xs)) f \<longleftrightarrow> (\<exists>y ys. f = ElementCall n (y # ys) \<and> same_shape x y \<and> map blank_expr xs = map blank_expr ys)"
  "same_shape (Unary op x) f \<longleftrightarrow> (\<exists>y. f = Unary op y \<and> same_shape x y)"
  "same_shape (BinOp op x y) f \<longleftrightarrow> (\<exists>x' y'. f = BinOp op x' y' \<and> same_shape x x' \<and> same_shape y y')"
  "same_shape (Ternary x y z) f \<longleftrightarrow> (\<exists>x' y' z'. f = Ternary x' y' z' \<and> same_shape x x' \<and> same_shape y y' \<and> same_shape z z')"
  by (cases f; auto simp: same_shape_def)+

lemma field_call_code:
  assumes al: "closed_sql al" and s: "field_call_sql al name = Some s"
  shows "same_code s s"
proof -
  have a: "same_code al al" using al by (simp add: same_code_def)
  show ?thesis using s unfolding field_call_sql_def
    by (simp split: if_splits) ((hypsubst)+, (intro format_num_sql_code bool_to_value_sql_code code_rules a; simp add: code_checks))+
qed

lemma arg_call_code:
  assumes al: "closed_sql al" and ab: "same_shape a b"
    and IH: "\<And>x y. c = Inr x \<Longrightarrow> d = Inr y \<Longrightarrow> same_code x y"
    and s: "arg_call_sql al name (Inr a) c = Inr s" and t: "arg_call_sql al name (Inr b) d = Inr t"
  shows "same_code s t"
proof -
  have aa: "same_code al al" using al by (simp add: same_code_def)
  have role: "same_code (sql ''CAST(CASE WHEN '' @ al @ sql ''.type = `relation` THEN COALESCE(array_length(list_filter('' @ al @
          sql ''.members, __m -> __m.role = ('' @ x @ sql ''))), 0) ELSE 0 END AS VARCHAR)'')
      (sql ''CAST(CASE WHEN '' @ al @ sql ''.type = `relation` THEN COALESCE(array_length(list_filter('' @ al @
          sql ''.members, __m -> __m.role = ('' @ y @ sql ''))), 0) ELSE 0 END AS VARCHAR)'')" if "same_code x y" for x y
    by (intro code_rules aa that; simp add: code_checks)
  have tag: "same_code (bool_to_value_sql (tag_value_sql k al @ sql '' IS NOT NULL'')) (bool_to_value_sql (tag_value_sql l al @ sql '' IS NOT NULL''))" for k l
    by (intro bool_to_value_sql_code code_rules tag_value_sql_code al; simp add: code_checks)
  consider "name = lit ''count_by_role''" | "name = lit ''is_tag''" | "name = lit ''number''" | "name = lit ''is_number''"
    using s by (auto simp: arg_call_sql_def split: if_splits)
  then show ?thesis
  proof cases
    case 2
    have "\<exists>k. a = Str k" using 2 s by (cases a; simp add: arg_call_sql_def)
    moreover have "\<exists>k. b = Str k" using 2 t by (cases b; simp add: arg_call_sql_def)
    ultimately show ?thesis using 2 s t tag by (auto simp: arg_call_sql_def)
  qed (use s t role num_sql_code is_num_sql_code format_num_sql_code bool_to_value_sql_code IH in
      \<open>auto simp: arg_call_sql_def rbind_eq_Inr\<close>)
qed

lemma arg_call_IndexError: "arg_call_sql al name (Inl IndexError) (Inl IndexError) \<noteq> Inr s"
  by (simp add: arg_call_sql_def)

lemma compile_call_code:
  assumes al: "closed_sql al"
    and arg: "\<And>s t. arg_call_sql al name a c = Inr s \<Longrightarrow> arg_call_sql al name b d = Inr t \<Longrightarrow> same_code s t"
    and s: "compile_call al name a c = Inr s" and t: "compile_call al name b d = Inr t"
  shows "same_code s t"
  using s t arg field_call_code [OF al] by (auto simp: compile_call_def split: option.splits)

lemma compile_element_code:
  assumes "closed_sql al"
  shows "same_shape e f \<Longrightarrow> compile_element al e = Inr s \<Longrightarrow> compile_element al f = Inr t \<Longrightarrow> same_code s t"
proof (induction e arbitrary: f s t)
  case (TagAccess k)
  have "same_code (sql ''COALESCE('' @ tag_value_sql k al @ sql '', ``)'') (sql ''COALESCE('' @ tag_value_sql l al @ sql '', ``)'')" for l
    by (intro code_rules tag_value_sql_code assms; simp add: code_checks)
  then show ?case using TagAccess by (auto simp: same_shape_simps)
next
  case (ElementCall n as)
  show ?case
  proof (cases as)
    case Nil
    then show ?thesis
      using ElementCall.prems compile_call_code [OF assms _, of n "Inl IndexError" "Inl IndexError"] arg_call_IndexError
      by (auto simp: same_shape_simps)
  next
    case (Cons a as')
    then obtain b bs where b: "f = ElementCall n (b # bs)" "same_shape a b"
      using ElementCall.prems by (auto simp: same_shape_simps)
    have IH: "same_code x y" if "compile_element al a = Inr x" "compile_element al b = Inr y" for x y
      using ElementCall.IH [of a b x y] that b Cons by simp
    have arg: "same_code s t" if "arg_call_sql al n (Inr a) (compile_element al a) = Inr s"
        "arg_call_sql al n (Inr b) (compile_element al b) = Inr t" for s t
      using arg_call_code [OF assms b(2) IH that] .
    have calls: "compile_call al n (Inr a) (compile_element al a) = Inr s" "compile_call al n (Inr b) (compile_element al b) = Inr t"
      using ElementCall.prems Cons b(1) by simp_all
    show ?thesis by (rule compile_call_code [OF assms]) (fact arg, (fact calls)+)
  qed
next
  case (Unary op a)
  obtain a' x y where xy: "f = Unary op a'" "same_shape a a'" "compile_element al a = Inr x" "compile_element al a' = Inr y"
    using Unary.prems by (auto simp: rbind_eq_Inr same_shape_simps)
  then have c: "same_code x y" using Unary.IH by blast
  have "same_code (bool_to_value_sql (sql ''NOT '' @ truthy_sql x)) (bool_to_value_sql (sql ''NOT '' @ truthy_sql y))"
    "same_code (format_num_sql (sql ''-'' @ num_sql x)) (format_num_sql (sql ''-'' @ num_sql y))"
    by (intro bool_to_value_sql_code format_num_sql_code truthy_sql_code num_sql_code code_rules c; simp add: code_checks)+
  then show ?case using Unary.prems xy by (auto split: if_splits)
next
  case (BinOp op a b)
  obtain a' b' x y x' y' where xy: "f = BinOp op a' b'" "same_shape a a'" "same_shape b b'"
    "compile_element al a = Inr x" "compile_element al b = Inr y" "compile_element al a' = Inr x'"
    "compile_element al b' = Inr y'" "compile_binop op x y = Inr s" "compile_binop op x' y' = Inr t"
    using BinOp.prems by (auto simp: rbind_eq_Inr same_shape_simps)
  then have "same_code x x'" "same_code y y'" using BinOp.IH by blast+
  then show ?case using compile_binop_code xy(8,9) by blast
next
  case (Ternary a b c)
  have parts: "same_code (sql ''(CASE WHEN '' @ truthy_sql x @ sql '' THEN '' @ y @ sql '' ELSE '' @ z @ sql '' END)'')
      (sql ''(CASE WHEN '' @ truthy_sql x' @ sql '' THEN '' @ y' @ sql '' ELSE '' @ z' @ sql '' END)'')"
    if "same_code x x'" "same_code y y'" "same_code z z'" for x y z x' y' z'
    by (intro code_rules truthy_sql_code that; simp add: code_checks)
  obtain a' b' c' x y z x' y' z' where xy: "same_shape a a'" "same_shape b b'" "same_shape c c'"
    "compile_element al a = Inr x" "compile_element al b = Inr y" "compile_element al c = Inr z"
    "compile_element al a' = Inr x'" "compile_element al b' = Inr y'" "compile_element al c' = Inr z'"
    "s = sql ''(CASE WHEN '' @ truthy_sql x @ sql '' THEN '' @ y @ sql '' ELSE '' @ z @ sql '' END)''"
    "t = sql ''(CASE WHEN '' @ truthy_sql x' @ sql '' THEN '' @ y' @ sql '' ELSE '' @ z' @ sql '' END)''"
    using Ternary.prems by (auto simp: rbind_eq_Inr same_shape_simps)
  then have "same_code x x'" "same_code y y'" "same_code z z'" using Ternary.IH by blast+
  then show ?case unfolding xy(10,11) by (rule parts)
qed (auto simp: rbind_eq_Inr same_code_str same_shape_simps)

end
