(* ===== verification/Evalsql_Errors.thy ===== *)
theory Evalsql_Errors
  imports Evalsql Evaluator_Correct
begin

text \<open>
  The errors \<open>evaluate_set\<close> can raise on a parsed expression, and the exactness of arithmetic on
  whole numbers.
\<close>

section \<open>Errors\<close>

text \<open>
  What the code relies on of DuckDB: \<open>count(*)\<close> is an integer, \<open>min\<close>, \<open>max\<close> and \<open>sum\<close> of doubles are
  doubles or NULL. The database may raise errors of its own.
\<close>

definition db_typed :: "sql_db \<Rightarrow> bool" where
  "db_typed db \<longleftrightarrow>
     (\<forall>q v. db_scalar db (sql ''SELECT count(*) FROM set_'' @ q) = Inr v \<longrightarrow> (\<exists>n. v = SqlInt n)) \<and>
     (\<forall>p\<in>{''SELECT min(try_cast('', ''SELECT max(try_cast('', ''SELECT sum(try_cast(''}. \<forall>q v.
        db_scalar db (sql p @ q) = Inr v \<longrightarrow> v = SqlNull \<or> (\<exists>x. v = SqlDouble x))"

definition eval_error_ok :: "sql_db \<Rightarrow> py_error \<Rightarrow> bool" where
  "eval_error_ok db e \<longleftrightarrow> (\<exists>m. e = RuntimeQueryError m) \<or> (\<exists>m. e = UnsupportedError m) \<or> e = OverflowError \<or>
     (\<exists>q. db_scalar db q = Inl e)"

lemma eval_error_ok_simps [simp]:
  "eval_error_ok db (RuntimeQueryError m)" "eval_error_ok db (UnsupportedError m)" "eval_error_ok db OverflowError"
  by (simp_all add: eval_error_ok_def)

lemma db_error [simp]: "db_scalar db q = Inl e \<Longrightarrow> eval_error_ok db e"
  by (auto simp: eval_error_ok_def)

lemma format_py_num_error: "format_py_num v = Inl e \<Longrightarrow> e = OverflowError"
  by (auto simp: format_py_num_def int_of_float_def rbind_eq_Inl split: pyfloat.splits if_splits)

lemma field_call_complete: "map_of element_func_arity name = Some 0 \<Longrightarrow> field_call_sql al name \<noteq> None"
  by (auto simp: element_func_arity_def field_call_sql_def split: if_splits)

lemma compile_binop_error: "compile_binop op a b = Inl e \<Longrightarrow> \<exists>m. e = UnsupportedError m"
  by (auto simp: compile_binop_def Let_def split: if_splits option.splits)

lemma compile_element_error:
  "expr_wf e \<Longrightarrow> compile_element al e = Inl err \<Longrightarrow> (\<exists>m. err = UnsupportedError m) \<or> err = OverflowError"
proof (induction al e arbitrary: err rule: compile_element.induct)
  case (7 al name)
  then show ?case using field_call_complete [of name al] by (auto simp: compile_call_def split: option.splits)
next
  case (8 al name a as)
  then show ?case
    by (auto simp: compile_call_def arg_call_sql_def rbind_eq_Inl split: option.splits if_splits expr.splits)
qed (auto simp: rbind_eq_Inl set_scoped_error_def dest: format_py_num_error compile_binop_error split: if_splits)

lemma compile_element_ok: "expr_wf e \<Longrightarrow> compile_element al e = Inl err \<Longrightarrow> eval_error_ok db err"
  using compile_element_error [of e al err] by auto

lemma set_count_error:
  assumes db: "db_typed db" and ty: "ty \<in> set type_keywords" and e: "set_count db s ty = Inl e"
  shows "eval_error_ok db e"
proof -
  obtain cond where c: "map_of type_filter_sql ty = Some cond"
    using ty by (auto simp: type_keywords_def type_filter_sql_def)
  show ?thesis
  proof (cases "db_scalar db (sql ''SELECT count(*) FROM set_'' @ s @ sql '' WHERE '' @ cond)")
    case (Inl e')
    then show ?thesis using e c by (auto simp: set_count_def require_set_table_def rbind_eq_Inl split: if_splits)
  next
    case (Inr v)
    then obtain n where "v = SqlInt n" using db unfolding db_typed_def by blast
    then show ?thesis
      using e c Inr by (auto simp: set_count_def require_set_table_def rbind_eq_Inl scalar_int_text_def split: if_splits)
  qed
qed

lemma number_row_error:
  assumes r: "\<And>v. r = Inr v \<Longrightarrow> v = SqlNull \<or> (\<exists>x. v = SqlDouble x)" and q: "\<And>e. r = Inl e \<Longrightarrow> eval_error_ok db e"
    and e: "rbind r (\<lambda>row. if row = SqlNull then d else rbind (scalar_float u row) format_py_num) = Inl e"
    and d: "d = Inl e \<Longrightarrow> eval_error_ok db e"
  shows "eval_error_ok db e"
  using assms by (cases r) (auto simp: scalar_float_def rbind_eq_Inl dest: format_py_num_error split: if_splits)

lemma aggregate_error:
  assumes db: "db_typed db" and f: "func \<in> set agg_funcs" and e: "aggregate_value u db s func v = Inl e"
  shows "eval_error_ok db e"
proof -
  have row: "x = SqlNull \<or> (\<exists>y. x = SqlDouble y)" if "db_scalar db (sql p @ q) = Inr x"
      "p \<in> {''SELECT min(try_cast('', ''SELECT max(try_cast('', ''SELECT sum(try_cast(''}" for p q x
    using db that unfolding db_typed_def by blast
  have num: "eval_error_ok db e"
    if "rbind (db_scalar db (sql p @ q)) (\<lambda>row. if row = SqlNull then d else rbind (scalar_float u row) format_py_num) = Inl e"
      "p \<in> {''SELECT min(try_cast('', ''SELECT max(try_cast('', ''SELECT sum(try_cast(''}" "d = Inr [] \<or> d = format_py_num (Fin 0)" for p q d
  proof (rule number_row_error [OF _ _ that(1)])
    show "d = Inl e \<Longrightarrow> eval_error_ok db e" using that(3) by (auto dest: format_py_num_error [OF sym])
  qed (use row that(2) in auto)
  consider "func = lit ''u''" | "func = lit ''min''" | "func = lit ''max''" | "func = lit ''sum''" | "func = lit ''set''"
    using f by (auto simp: agg_funcs_def)
  then show ?thesis
  proof cases
    case 1
    then show ?thesis using e by (auto simp: aggregate_value_def Let_def rbind_eq_Inl)
  next
    case 2
    then show ?thesis using e num [of "''SELECT min(try_cast(''" _ "Inr []"] by (simp add: aggregate_value_def Let_def)
  next
    case 3
    then show ?thesis using e num [of "''SELECT max(try_cast(''" _ "Inr []"] by (simp add: aggregate_value_def Let_def)
  next
    case 4
    then show ?thesis using e num [of "''SELECT sum(try_cast(''" _ "format_py_num (Fin 0)"] by (simp add: aggregate_value_def Let_def)
  next
    case 5
    then show ?thesis using e by (auto simp: aggregate_value_def Let_def rbind_eq_Inl)
  qed
qed

lemma eval_binop_error: "eval_binop u op a b = Inl e \<Longrightarrow> eval_error_ok db e"
  by (auto simp: eval_binop_def Let_def dest: format_py_num_error split: if_splits)

lemma evaluate_set_error:
  assumes "db_typed db"
  shows "expr_wf e \<Longrightarrow> evaluate_set u db e s = Inl err \<Longrightarrow> eval_error_ok db err"
proof (induction e arbitrary: err)
  case (SetCount ty)
  then show ?case using set_count_error [OF assms] by simp
next
  case (NamedSetCount n ty)
  then show ?case using set_count_error [OF assms] by simp
next
  case (Aggregate func e)
  then show ?case using aggregate_error [OF assms] compile_element_ok
    by (auto simp: rbind_eq_Inl require_set_table_def split: if_splits)
next
  case (BinOp op a b)
  then show ?case using eval_binop_error by (auto simp: rbind_eq_Inl)
qed (auto simp: rbind_eq_Inl bare_element_error_def dest: format_py_num_error split: if_splits)

section \<open>Whole numbers\<close>

lemma format_int: "\<bar>i\<bar> < 10 ^ 15 \<Longrightarrow> format_py_num (Fin (of_int i)) = Inr (py_str_int i)"
  by (simp add: format_py_num_def int_of_float_def py_int_def)

lemma number_of_int: "\<bar>i\<bar> < 10 ^ 15 \<Longrightarrow> py_to_number u (py_str_int i) = Fin (of_int i)"
  by (simp add: py_to_number_def float_of_int_text)

lemma is_number_int: "\<bar>i\<bar> < 10 ^ 15 \<Longrightarrow> py_is_number u (py_str_int i)"
  by (simp add: py_is_number_def float_of_int_text)

text \<open>On integers, the operators are the integer operators.\<close>

definition int_op :: "etoken_type \<Rightarrow> int \<Rightarrow> int \<Rightarrow> int" where
  "int_op op a b = (if op = E_PLUS then a + b else if op = E_MINUS then a - b else a * b)"

lemma eval_binop_int:
  assumes a: "\<bar>a\<bar> < 10 ^ 15" and b: "\<bar>b\<bar> < 10 ^ 15" and op: "op \<in> {E_PLUS, E_MINUS, E_STAR}" and r: "\<bar>int_op op a b\<bar> < 10 ^ 15"
  shows "eval_binop u op (py_str_int a) (py_str_int b) = Inr (py_str_int (int_op op a b))"
proof -
  have t: "to_float (of_int (int_op op a b)) = Fin (of_int (int_op op a b))" using r by (intro to_float_int) simp
  have "\<exists>v. eval_binop u op (py_str_int a) (py_str_int b) = format_py_num v \<and> v = to_float (of_int (int_op op a b))"
    using op number_of_int [OF a, of u] number_of_int [OF b, of u]
    by (auto simp: eval_binop_def int_op_def float_sub_def neg_float_def)
  then show ?thesis using t format_int [OF r] by auto
qed

lemma eval_compare_int:
  assumes a: "\<bar>a\<bar> < 10 ^ 15" and b: "\<bar>b\<bar> < 10 ^ 15"
  shows "eval_binop u E_LT (py_str_int a) (py_str_int b) = Inr (py_bool (a < b))"
    and "eval_binop u E_EQEQ (py_str_int a) (py_str_int b) = Inr (py_bool (a = b))"
  using number_of_int [OF a, of u] number_of_int [OF b, of u] is_number_int [OF a, of u] is_number_int [OF b, of u]
  by (simp_all add: eval_binop_def cmp_op_sql_def float_cmp_def)

text \<open>
  The integer that an expression of whole numbers, \<open>+\<close>, \<open>-\<close> and \<open>*\<close> stands for, as long as every number and every result in it is below \<open>10^15\<close>.
\<close>

definition bounded_int :: "int \<Rightarrow> int option" where
  "bounded_int i = (if \<bar>i\<bar> < 10 ^ 15 then Some i else None)"

fun int_expr :: "expr \<Rightarrow> int option" where
  "int_expr (Num (Fin r)) = (if r = of_int \<lfloor>r\<rfloor> then bounded_int \<lfloor>r\<rfloor> else None)"
| "int_expr (Unary op e) = (if op = E_MINUS then map_option uminus (int_expr e) else None)"
| "int_expr (BinOp op l r) =
     (if op \<in> {E_PLUS, E_MINUS, E_STAR} then Option.bind (int_expr l) (\<lambda>a. Option.bind (int_expr r) (\<lambda>b. bounded_int (int_op op a b))) else None)"
| "int_expr _ = None"

lemma bounded_int_Some: "bounded_int i = Some n \<longleftrightarrow> n = i \<and> \<bar>i\<bar> < 10 ^ 15"
  by (auto simp: bounded_int_def)

lemma int_expr_bound: "int_expr e = Some n \<Longrightarrow> \<bar>n\<bar> < 10 ^ 15"
  by (induction e arbitrary: n rule: int_expr.induct) (auto simp: bounded_int_Some bind_eq_Some_conv split: if_splits)

lemma evaluate_int_expr: "int_expr e = Some n \<Longrightarrow> evaluate_set u db e s = Inr (py_str_int n)"
proof (induction e arbitrary: n rule: int_expr.induct)
  case (1 r)
  then show ?case using format_int [of "\<lfloor>r\<rfloor>"] by (simp add: bounded_int_Some split: if_splits)
next
  case (2 op e)
  then obtain m where m: "op = E_MINUS" "int_expr e = Some m" "n = - m" by (auto split: if_splits)
  have "format_py_num (Fin (of_int (- m))) = Inr (py_str_int (- m))" using int_expr_bound [OF m(2)] by (intro format_int) simp
  then show ?case using 2 m number_of_int [OF int_expr_bound [OF m(2)], of u] by (simp add: neg_float_def)
next
  case (3 op l r)
  then obtain a b where ab: "op \<in> {E_PLUS, E_MINUS, E_STAR}" "int_expr l = Some a" "int_expr r = Some b" "n = int_op op a b" "\<bar>int_op op a b\<bar> < 10 ^ 15"
    by (auto simp: bind_eq_Some_conv bounded_int_Some split: if_splits)
  then show ?case using 3 eval_binop_int [OF int_expr_bound [OF ab(2)] int_expr_bound [OF ab(3)] ab(1,5), of u] by simp
qed simp_all

end
