(* ===== verification/Evaluator_Properties.thy ===== *)
theory Evaluator_Properties
  imports Evaluator_Roundtrip Evalsql_Correct Evalsql_Errors
begin

text \<open>The properties of the evaluator of \<open>if\<close> conditions.\<close>

section \<open>The parser\<close>

text \<open>
  C14. Parsing an evaluator expression terminates on every text, with a well-formed tree or with
  a \<open>ParseError\<close> without position, or a \<open>ValueError\<close> from a number. Well-formed: known functions
  with the right number of arguments, known type keywords, aggregators and operators. (Python's limit
  on the depth of the recursion is not modelled.)
\<close>

theorem eval_parse_typed:
  "case eval_parse u text of
     Inr e \<Rightarrow> expr_wf e
   | Inl err \<Rightarrow> (\<exists>m. err = ParseError m None None) \<or> err = ValueError"
proof (cases "e_tokenize u text")
  case (Inl err)
  then show ?thesis using e_tokenize_loop_Inl by (auto simp: eval_parse_def e_tokenize_def eval_err_def)
next
  case (Inr tokens)
  have "list_all etok_ok (butlast tokens)"
    using e_tokenize_loop_Inr [of "[]" u "text" 0 tokens] Inr by (simp add: e_tokenize_def)
  then show ?thesis using eval_parse_program_ok [of "butlast tokens"] Inr
    by (auto simp: eval_parse_def eval_err_def split: sum.splits)
qed

text \<open>
  C15. Parsing inverts printing with the fewest parentheses: the precedence of the operators and
  their associativity are those of the grammar in the module's header.
\<close>

theorem eval_parse_inverts_print:
  assumes "expr_wf e"
  shows "eval_parse_program (bare e) = Inr e"
  using assms by (rule eval_parse_print)

definition sample_expr :: expr where
  "sample_expr = Ternary
     (BinOp E_OROR (BinOp E_LT (BinOp E_PLUS (Num (Fin 1)) (BinOp E_STAR (Num (Fin 2)) (Num (Fin 3)))) (Num (Fin 9)))
        (Unary E_BANG (BinOp E_EQEQ (TagAccess (lit ''a'')) (Str (lit ''b'')))))
     (BinOp E_MINUS (Num (Fin 1)) (BinOp E_MINUS (Num (Fin 2)) (Num (Fin 3))))
     (Aggregate (lit ''max'') (ElementCall (lit ''number'') [TagAccess (lit ''ele'')]))"

theorem eval_parse_inverts_print_witness:
  "eval_parse_program (bare sample_expr) = Inr sample_expr"
proof (rule eval_parse_inverts_print)
  show "expr_wf sample_expr" by code_simp
qed

section \<open>Compilation to SQL\<close>

text \<open>
  C16. User text cannot change the SQL that \<open>compile_element\<close> writes: expressions of the same
  shape, with any strings and tag keys in them, compile to the same code around their string
  literals, and every literal is closed.
\<close>

theorem compile_element_injection_safe:
  assumes "closed_sql al" and "same_shape e f"
    and "compile_element al e = Inr s" and "compile_element al f = Inr t"
  shows "skeleton s = skeleton t \<and> Unterminated \<notin> set (lex_sql None s)"
  using compile_element_code [OF assms] by (simp add: same_code_def closed_sql_def)

definition name_is :: "pystr \<Rightarrow> expr" where
  "name_is s = BinOp E_EQEQ (TagAccess (lit ''name'')) (Str s)"

definition name_is_sql :: "pystr \<Rightarrow> pystr" where
  "name_is_sql s = (case compile_element (lit ''__e'') (name_is s) of Inr x \<Rightarrow> x | Inl _ \<Rightarrow> [])"

theorem compile_element_injection_safe_witness:
  "skeleton (name_is_sql (lit ''x'' @ [39] @ lit '' OR 1=1 --'')) = skeleton (name_is_sql (lit ''Main Street'')) \<and>
   Unterminated \<notin> set (lex_sql None (name_is_sql (lit ''x'' @ [39] @ lit '' OR 1=1 --'')))"
proof (rule compile_element_injection_safe)
  show "closed_sql (lit ''__e'')" by code_simp
  show "same_shape (name_is (lit ''x'' @ [39] @ lit '' OR 1=1 --'')) (name_is (lit ''Main Street''))"
    by (simp add: name_is_def same_shape_def)
qed (simp_all add: name_is_sql_def name_is_def compile_binop_def cmp_op_sql_def)

section \<open>Evaluation against a set\<close>

text \<open>
  C17. On a parsed expression, \<open>evaluate_set\<close> returns a value or raises \<open>RuntimeQueryError\<close>,
  \<open>UnsupportedError\<close>, \<open>OverflowError\<close> or an error of the database: never a lookup, index or type
  error of Python.
\<close>

theorem evaluate_set_errors:
  assumes "expr_wf e" and "db_typed db"
  shows "(\<exists>v. evaluate_set u db e s = Inr v) \<or>
    (\<exists>err. evaluate_set u db e s = Inl err \<and>
      ((\<exists>m. err = RuntimeQueryError m) \<or> (\<exists>m. err = UnsupportedError m) \<or> err = OverflowError \<or>
       (\<exists>q. db_scalar db q = Inl err)))"
  using evaluate_set_error [OF assms(2,1), of u s]
  by (cases "evaluate_set u db e s") (auto simp: eval_error_ok_def)

definition sample_db :: sql_db where
  "sample_db = \<lparr>db_has_table = (\<lambda>t. t = lit ''set__''),
     db_scalar = (\<lambda>q. Inr (if take 7 (drop 7 q) = lit ''count(*'' then SqlInt 2 else SqlNull))\<rparr>"

lemma sample_db_typed: "db_typed sample_db"
  by (auto simp: db_typed_def sample_db_def sql_def lit_def)

definition few_nodes :: expr where
  "few_nodes = BinOp E_ANDAND (BinOp E_LT (SetCount (lit ''nodes'')) (Num (Fin 3)))
     (Unary E_BANG (Aggregate (lit ''sum'') (TagAccess (lit ''ele''))))"

theorem evaluate_set_errors_witness:
  "(\<exists>v. evaluate_set ascii_db sample_db few_nodes (lit ''_'') = Inr v) \<or>
    (\<exists>err. evaluate_set ascii_db sample_db few_nodes (lit ''_'') = Inl err \<and>
      ((\<exists>m. err = RuntimeQueryError m) \<or> (\<exists>m. err = UnsupportedError m) \<or> err = OverflowError \<or>
       (\<exists>q. db_scalar sample_db q = Inl err)))"
proof (rule evaluate_set_errors)
  show "expr_wf few_nodes" by code_simp
  show "db_typed sample_db" by (rule sample_db_typed)
qed

text \<open>
  C18. Whole numbers are exact: an expression built from them with \<open>+\<close>, \<open>-\<close>, \<open>*\<close> and the minus sign, in which every number and every
  intermediate result is below \<open>10^15\<close>, evaluates to the decimal digits of its integer value, without a decimal point, although the code computes in
  doubles and passes each intermediate result on as text. Division is not covered.
\<close>

theorem evaluate_int_exact:
  assumes "int_expr e = Some n"
  shows "evaluate_set u db e s = Inr (py_str_int n) \<and> \<bar>n\<bar> < 10 ^ 15"
  using evaluate_int_expr [OF assms] int_expr_bound [OF assms] by simp

theorem evaluate_int_exact_witness:
  "evaluate_set ascii_db sample_db
     (BinOp E_STAR (Unary E_MINUS (Num (Fin 12345678))) (BinOp E_PLUS (Num (Fin 999)) (Num (Fin 1)))) (lit ''_'') = Inr (py_str_int (- 12345678000))"
proof -
  have "int_expr (BinOp E_STAR (Unary E_MINUS (Num (Fin 12345678))) (BinOp E_PLUS (Num (Fin 999)) (Num (Fin 1)))) = Some (- 12345678000)"
    by (simp add: int_op_def bounded_int_def)
  then show ?thesis by (rule evaluate_int_exact [THEN conjunct1])
qed

text \<open>
  A condition can end with an uncaught Python error: \<open>"inf"\<close> reads as a number, and printing an
  infinite result raises \<open>OverflowError\<close> because \<open>_format_py_num\<close> compares it with \<open>int(v)\<close>.
\<close>

theorem evaluate_infinity_raises:
  "eval_parse ascii_db ([45, 34] @ lit ''inf'' @ [34]) = Inr (Unary E_MINUS (Str (lit ''inf''))) \<and>
   evaluate_set ascii_db db (Unary E_MINUS (Str (lit ''inf''))) s = Inl OverflowError"
proof
  show "eval_parse ascii_db ([45, 34] @ lit ''inf'' @ [34]) = Inr (Unary E_MINUS (Str (lit ''inf'')))"
    by code_simp
  have "unsigned_float (lit ''inf'') = Some PInf" by (simp add: unsigned_float_def lit_def lower_def)
  then have "py_to_number ascii_db (lit ''inf'') = PInf"
    by (simp add: py_to_number_def float_of_text_def lit_def to_ascii_def py_strip_def isspace_def)
  then show "evaluate_set ascii_db db (Unary E_MINUS (Str (lit ''inf''))) s = Inl OverflowError"
    by (simp add: format_py_num_def int_of_float_def neg_float_def)
qed

end
