(* ===== verification/Store.thy ===== *)
theory Store
  imports Catalog PyText "HOL-Library.AList"
begin

text \<open>
  \<^verbatim>\<open>src/src/osmpq/store.py\<close>: the object stores. A store's operations are the record \<open>store_ops\<close>, over
  a state and a type of file contents. The local store is modelled with the file system's links
  and inodes, because what \<open>_atomic_write_bytes\<close> is for is not to touch an inode that a
  hard-linked snapshot of the root shares. The requests of the S3 client are not modelled; the
  keys they use are.
\<close>

record ('s, 'b) store_ops =
  read_bytes :: "'s \<Rightarrow> string \<Rightarrow> 'b result"
  write_bytes :: "'s \<Rightarrow> string \<Rightarrow> 'b \<Rightarrow> 's result"
  store_exists :: "'s \<Rightarrow> string \<Rightarrow> bool"
  store_list :: "'s \<Rightarrow> string \<Rightarrow> string list"
  store_delete :: "'s \<Rightarrow> string \<Rightarrow> 's result"

section \<open>\<open>MemoryStore\<close>\<close>

type_synonym 'b memory = "(string \<times> 'b) list"

definition mem_key :: "string \<Rightarrow> string" where
  "mem_key rel = lstrip CHR ''/'' rel"

definition mem_read :: "'b memory \<Rightarrow> string \<Rightarrow> 'b result" where
  "mem_read m rel = (case map_of m (mem_key rel) of Some b \<Rightarrow> Inr b | None \<Rightarrow> Inl FileNotFoundError)"

definition mem_write :: "'b memory \<Rightarrow> string \<Rightarrow> 'b \<Rightarrow> 'b memory result" where
  "mem_write m rel data = Inr (AList.update (mem_key rel) data m)"

definition mem_exists :: "'b memory \<Rightarrow> string \<Rightarrow> bool" where
  "mem_exists m rel \<longleftrightarrow> mem_key rel \<in> set (map fst m)"

definition mem_list :: "'b memory \<Rightarrow> string \<Rightarrow> string list" where
  "mem_list m pre = sort (filter (starts_with (mem_key pre)) (map fst m))"

definition mem_delete :: "'b memory \<Rightarrow> string \<Rightarrow> 'b memory result" where
  "mem_delete m rel = Inr (AList.delete (mem_key rel) m)"

definition memory_store :: "('b memory, 'b) store_ops" where
  "memory_store = \<lparr>read_bytes = mem_read, write_bytes = mem_write, store_exists = mem_exists,
     store_list = mem_list, store_delete = mem_delete\<rparr>"

section \<open>The file system\<close>

text \<open>Paths are relative to the root, as lists of components. A file is a link to an inode.\<close>

type_synonym path_comps = "string list"

record 'b fs =
  fs_link :: "(path_comps \<times> nat) list"
  fs_data :: "(nat \<times> 'b) list"
  fs_dirs :: "path_comps list"

definition fs_is_file :: "'b fs \<Rightarrow> path_comps \<Rightarrow> bool" where
  "fs_is_file s p \<longleftrightarrow> p \<in> set (map fst (fs_link s))"

text \<open>The directories on the way to a path, and whether a file stands in the place of one of them.\<close>

definition parents :: "path_comps \<Rightarrow> path_comps list" where
  "parents d = map (\<lambda>k. take k d) [1..<length d + 1]"

definition dir_blocked :: "'b fs \<Rightarrow> path_comps \<Rightarrow> bool" where
  "dir_blocked s d \<longleftrightarrow> list_ex (fs_is_file s) (parents d)"

definition fs_read :: "'b fs \<Rightarrow> path_comps \<Rightarrow> 'b result" where
  "fs_read s p =
     (case map_of (fs_link s) p of
        None \<Rightarrow> Inl (if p = [] \<or> p \<in> set (fs_dirs s) \<or> dir_blocked s (butlast p) then OSError else FileNotFoundError)
      | Some i \<Rightarrow> (case map_of (fs_data s) i of Some b \<Rightarrow> Inr b | None \<Rightarrow> Inl OSError))"

definition fresh_inode :: "'b fs \<Rightarrow> nat" where
  "fresh_inode s = Suc (fold max (map snd (fs_link s) @ map fst (fs_data s)) 0)"

text \<open>The system calls of an atomic write, one step each.\<close>

datatype 'b fs_op =
    MkDirs path_comps
  | CreateFile path_comps 'b
  | WriteFile path_comps 'b
  | ReplaceFile path_comps path_comps
  | UnlinkFile path_comps

fun fs_do :: "'b fs_op \<Rightarrow> 'b fs \<Rightarrow> 'b fs" where
  "fs_do (MkDirs d) s = s\<lparr>fs_dirs := fs_dirs s @ filter (\<lambda>p. p \<notin> set (fs_dirs s)) (parents d)\<rparr>"
| "fs_do (CreateFile p b) s =
     s\<lparr>fs_link := AList.update p (fresh_inode s) (fs_link s), fs_data := AList.update (fresh_inode s) b (fs_data s)\<rparr>"
| "fs_do (WriteFile p b) s =
     (case map_of (fs_link s) p of None \<Rightarrow> s | Some i \<Rightarrow> s\<lparr>fs_data := AList.update i b (fs_data s)\<rparr>)"
| "fs_do (ReplaceFile p q) s =
     (case map_of (fs_link s) p of None \<Rightarrow> s | Some i \<Rightarrow> s\<lparr>fs_link := AList.update q i (AList.delete p (fs_link s))\<rparr>)"
| "fs_do (UnlinkFile p) s = s\<lparr>fs_link := AList.delete p (fs_link s)\<rparr>"

definition fs_run :: "'b fs_op list \<Rightarrow> 'b fs \<Rightarrow> 'b fs" where
  "fs_run ops s = fold fs_do ops s"

text \<open>\<open>mkstemp\<close> makes a new name in the directory; here a suffix longer than every name there.\<close>

definition mkstemp :: "'b fs \<Rightarrow> path_comps \<Rightarrow> path_comps" where
  "mkstemp s p =
     butlast p @ [''.'' @ last p @ ''.'' @ replicate (fold max (map (length \<circ> last \<circ> fst) (fs_link s)) 0) CHR ''x'' @ ''.tmp'']"

definition atomic_write_ops :: "'b fs \<Rightarrow> path_comps \<Rightarrow> 'b \<Rightarrow> 'b \<Rightarrow> 'b fs_op list" where
  "atomic_write_ops s p e0 data =
     (let tmp = mkstemp s p
      in [MkDirs (butlast p), CreateFile tmp e0, WriteFile tmp data, ReplaceFile tmp p])"

text \<open>
  \<open>mkdir\<close> raises where a file stands in the place of a directory, and \<open>os.replace\<close> where the target
  is a directory; the calls of a write that neither refuses succeed.
\<close>

definition write_blocked :: "'b fs \<Rightarrow> path_comps \<Rightarrow> bool" where
  "write_blocked s p \<longleftrightarrow> p = [] \<or> p \<in> set (fs_dirs s) \<or> dir_blocked s (butlast p)"

text \<open>An exception before the replacement removes the temporary file and is raised again.\<close>

definition atomic_write_failed :: "'b fs \<Rightarrow> path_comps \<Rightarrow> 'b \<Rightarrow> 'b \<Rightarrow> nat \<Rightarrow> 'b fs" where
  "atomic_write_failed s p e0 data k =
     fs_run (take k (atomic_write_ops s p e0 data) @ [UnlinkFile (mkstemp s p)]) s"

definition atomic_write_bytes :: "'b \<Rightarrow> path_comps \<Rightarrow> 'b \<Rightarrow> 'b fs \<Rightarrow> 'b fs" where
  "atomic_write_bytes e0 p data s = fs_run (atomic_write_ops s p e0 data) s"

section \<open>\<open>LocalStore\<close>\<close>

definition local_path :: "string \<Rightarrow> path_comps" where
  "local_path rel = path_parts (lstrip CHR ''/'' rel)"

definition local_read :: "'b fs \<Rightarrow> string \<Rightarrow> 'b result" where
  "local_read s rel = fs_read s (local_path rel)"

definition local_write :: "'b \<Rightarrow> 'b fs \<Rightarrow> string \<Rightarrow> 'b \<Rightarrow> 'b fs result" where
  "local_write e0 s rel data =
     (if write_blocked s (local_path rel) then Inl OSError else Inr (atomic_write_bytes e0 (local_path rel) data s))"

definition local_exists :: "'b fs \<Rightarrow> string \<Rightarrow> bool" where
  "local_exists s rel \<longleftrightarrow> fs_is_file s (local_path rel) \<or> local_path rel \<in> set (fs_dirs s) \<or> local_path rel = []"

definition posix :: "path_comps \<Rightarrow> string" where
  "posix p = join_with ''/'' p"

definition local_list :: "'b fs \<Rightarrow> string \<Rightarrow> string list" where
  "local_list s pre =
     (let base = local_path pre
      in sort (if base \<in> set (fs_dirs s) \<or> base = []
               then map (posix \<circ> fst) (filter (\<lambda>(p, _). strict_prefix base p) (fs_link s))
               else if fs_is_file s base then [posix base] else []))"

definition local_delete :: "'b fs \<Rightarrow> string \<Rightarrow> 'b fs result" where
  "local_delete s rel =
     (if \<not> local_exists s rel then Inr s
      else if fs_is_file s (local_path rel) then Inr (fs_do (UnlinkFile (local_path rel)) s) else Inl OSError)"

definition local_store :: "'b \<Rightarrow> ('b fs, 'b) store_ops" where
  "local_store e0 = \<lparr>read_bytes = local_read, write_bytes = local_write e0, store_exists = local_exists,
     store_list = local_list, store_delete = local_delete\<rparr>"

text \<open>\<open>upload_file\<close>: copy a file's content into place; nothing when source and destination are the same file.\<close>

definition local_upload :: "'b \<Rightarrow> 'b fs \<Rightarrow> path_comps \<Rightarrow> string \<Rightarrow> 'b fs result" where
  "local_upload e0 s src rel =
     (let dest = local_path rel; s1 = fs_do (MkDirs (butlast dest)) s
      in if dir_blocked s (butlast dest) then Inl OSError
         else if src = dest then Inr s1
         else rbind (fs_read s1 src) (\<lambda>b. if write_blocked s1 dest then Inl OSError else Inr (atomic_write_bytes e0 dest b s1)))"

section \<open>\<open>S3Store\<close> keys and \<open>for_root\<close>\<close>

definition strip_slashes :: "string \<Rightarrow> string" where
  "strip_slashes s = rstrip CHR ''/'' (lstrip CHR ''/'' s)"

record s3_store =
  s3_bucket :: string
  s3_prefix :: string

definition S3Store :: "string \<Rightarrow> string \<Rightarrow> s3_store" where
  "S3Store bucket pre = \<lparr>s3_bucket = bucket, s3_prefix = strip_slashes pre\<rparr>"

definition s3_key :: "s3_store \<Rightarrow> string \<Rightarrow> string" where
  "s3_key s rel = (let rel = lstrip CHR ''/'' rel in if s3_prefix s \<noteq> [] then s3_prefix s @ ''/'' @ rel else rel)"

text \<open>\<open>list\<close> on the keys that the paginated listing returns.\<close>

definition s3_list :: "s3_store \<Rightarrow> string list \<Rightarrow> string list" where
  "s3_list s keys = sort (map (\<lambda>key. if s3_prefix s \<noteq> [] then drop (length (s3_prefix s) + 1) key else key) keys)"

definition s3_url :: "s3_store \<Rightarrow> string \<Rightarrow> string" where
  "s3_url s rel = ''s3://'' @ s3_bucket s @ ''/'' @ s3_key s rel"

definition is_remote_root :: "string \<Rightarrow> bool" where
  "is_remote_root r \<longleftrightarrow> starts_with ''s3://'' r"

datatype any_store = Local string | S3 s3_store

definition for_root :: "string \<Rightarrow> any_store" where
  "for_root r =
     (if is_remote_root r
      then (let without_scheme = drop 5 r; bucket = takeWhile (\<lambda>c. c \<noteq> CHR ''/'') without_scheme;
                pre = drop (length bucket + 1) without_scheme
            in S3 (S3Store bucket pre))
      else Local r)"

section \<open>\<open>s3_secret_sql\<close>\<close>

definition sql_esc :: "pystr \<Rightarrow> pystr" where
  "sql_esc s = concat (map (\<lambda>c. if c = 39 then [39, 39] else [c]) s)"

text \<open>The environment maps names to values; \<open>strip().lower()\<close> of \<open>OSMPQ_S3_USE_SSL\<close> for ASCII text.\<close>

definition env_get :: "(string \<times> pystr) list \<Rightarrow> string \<Rightarrow> pystr \<Rightarrow> pystr" where
  "env_get env k dflt = (case map_of env k of Some v \<Rightarrow> v | None \<Rightarrow> dflt)"

definition ssl_flag :: "unicode_db \<Rightarrow> (string \<times> pystr) list \<Rightarrow> string" where
  "ssl_flag u env =
     (if map lower (py_strip u (env_get env ''OSMPQ_S3_USE_SSL'' (lit ''true''))) \<in> {lit ''0'', lit ''false'', lit ''no''}
      then ''false'' else ''true'')"

definition s3_secret_sql :: "unicode_db \<Rightarrow> (string \<times> pystr) list \<Rightarrow> pystr option" where
  "s3_secret_sql u env =
     (let key_id = env_get env ''OSMPQ_S3_KEY_ID'' []; secret = env_get env ''OSMPQ_S3_SECRET'' [];
          endpoint = env_get env ''OSMPQ_S3_ENDPOINT'' [];
          region = env_get env ''OSMPQ_S3_REGION'' (lit ''auto''); url_style = env_get env ''OSMPQ_S3_URL_STYLE'' (lit ''path'');
          q = (\<lambda>v. [39] @ sql_esc v @ [39])
      in if key_id = [] \<or> secret = [] \<or> endpoint = [] then None
         else Some (lit ''CREATE OR REPLACE SECRET osmpq_s3 ('' @ [10] @ lit ''    TYPE S3,'' @ [10] @
           lit ''    KEY_ID '' @ q key_id @ lit '','' @ [10] @ lit ''    SECRET '' @ q secret @ lit '','' @ [10] @
           lit ''    ENDPOINT '' @ q endpoint @ lit '','' @ [10] @ lit ''    REGION '' @ q region @ lit '','' @ [10] @
           lit ''    URL_STYLE '' @ q url_style @ lit '','' @ [10] @ lit ''    USE_SSL '' @ lit (ssl_flag u env) @ [10] @ lit '')''))"

section \<open>The contract of a store\<close>

text \<open>
  What the clients of a store rely on: on states that satisfy the invariant, a written file is
  read back, writing one file leaves the others, and \<open>exists\<close> says whether a file can be read.
  \<open>key\<close> is the file a name denotes; \<open>ok\<close> selects the names of files (not of directories).
\<close>

locale object_store =
  fixes ops :: "('s, 'b) store_ops" and inv :: "'s \<Rightarrow> bool" and key :: "string \<Rightarrow> 'k" and ok :: "string \<Rightarrow> bool"
  assumes write_succeeds: "inv s \<Longrightarrow> ok rel \<Longrightarrow> \<exists>s'. write_bytes ops s rel b = Inr s'"
    and inv_write: "inv s \<Longrightarrow> ok rel \<Longrightarrow> write_bytes ops s rel b = Inr s' \<Longrightarrow> inv s'"
    and read_write: "inv s \<Longrightarrow> ok rel \<Longrightarrow> write_bytes ops s rel b = Inr s' \<Longrightarrow> read_bytes ops s' rel = Inr b"
    and read_write_other: "inv s \<Longrightarrow> ok rel \<Longrightarrow> ok rel' \<Longrightarrow> key rel \<noteq> key rel' \<Longrightarrow>
      write_bytes ops s rel b = Inr s' \<Longrightarrow> read_bytes ops s' rel' = read_bytes ops s rel'"
    and exists_read: "inv s \<Longrightarrow> ok rel \<Longrightarrow> read_bytes ops s rel = Inr b \<Longrightarrow> store_exists ops s rel"
    and read_missing: "read_bytes ops s rel = Inl e \<Longrightarrow> e = FileNotFoundError \<or> e = OSError"
begin

lemma exists_write: "inv s \<Longrightarrow> ok rel \<Longrightarrow> write_bytes ops s rel b = Inr s' \<Longrightarrow> store_exists ops s' rel"
  using exists_read inv_write read_write by blast

end

section \<open>The memory store meets the contract\<close>

interpretation memory: object_store memory_store "\<lambda>_. True" mem_key "\<lambda>_. True"
  by unfold_locales
     (auto simp: memory_store_def mem_read_def mem_write_def mem_exists_def update_conv' dest: map_of_SomeD
       intro: rev_image_eqI split: option.splits)

section \<open>Atomic writes\<close>

lemma fold_max_ge: "x \<in> set xs \<Longrightarrow> x \<le> fold max xs (a :: nat)" "a \<le> fold max xs a"
proof (induction xs arbitrary: a)
  case (Cons y ys)
  { case 1 then show ?case using Cons(1) [of "max y a"] Cons(2) [of "max y a"] by auto }
  { case 2 then show ?case using Cons(2) [of "max y a"] by simp }
qed simp_all

lemma fresh_inode_link: "(p, i) \<in> set (fs_link s) \<Longrightarrow> i < fresh_inode s"
  using fold_max_ge(1) [of i "map snd (fs_link s) @ map fst (fs_data s)" 0]
  by (force simp: fresh_inode_def less_Suc_eq_le)

lemma fresh_inode_data: "map_of (fs_data s) (fresh_inode s) = None"
proof -
  have "i < fresh_inode s" if "i \<in> fst ` set (fs_data s)" for i
    using that fold_max_ge(1) [of i "map snd (fs_link s) @ map fst (fs_data s)" 0]
    by (force simp: fresh_inode_def less_Suc_eq_le)
  then show ?thesis by (auto simp: map_of_eq_None_iff)
qed

lemma mkstemp_fresh: "map_of (fs_link s) (mkstemp s p) = None"
proof -
  let ?M = "fold max (map (length \<circ> last \<circ> fst) (fs_link s)) 0"
  have "mkstemp s p \<noteq> q" if "q \<in> fst ` set (fs_link s)" for q
  proof -
    have "length (last q) \<le> ?M" using that by (intro fold_max_ge(1)) auto
    moreover have "?M < length (last (mkstemp s p))" by (simp add: mkstemp_def)
    ultimately show ?thesis by auto
  qed
  then show ?thesis by (auto simp: map_of_eq_None_iff)
qed

lemma mkstemp_neq: "p \<noteq> [] \<Longrightarrow> mkstemp s p \<noteq> p"
proof
  assume "p \<noteq> []" "mkstemp s p = p"
  then have "length (last (mkstemp s p)) = length (last p)" by simp
  then show False by (simp add: mkstemp_def)
qed

text \<open>
  The contents other names see during a write: nothing of them changes, and the name itself
  changes in one step.
\<close>

lemma link_inode_neq: "map_of (fs_link s) q = Some i \<Longrightarrow> i \<noteq> fresh_inode s"
  using fresh_inode_link map_of_SomeD by fastforce

lemma fs_link_mkdirs [simp]: "fs_link (fs_do (MkDirs d) s) = fs_link s" "fs_data (fs_do (MkDirs d) s) = fs_data s"
  by simp_all

definition fs_content :: "'b fs \<Rightarrow> path_comps \<Rightarrow> 'b option" where
  "fs_content s p = Option.bind (map_of (fs_link s) p) (map_of (fs_data s))"

lemma fs_read_content: "fs_read s p = Inr b \<longleftrightarrow> fs_content s p = Some b"
  by (auto simp: fs_read_def fs_content_def split: option.splits)

lemma atomic_write_steps:
  assumes p: "p \<noteq> []" and q: "q \<noteq> mkstemp s p"
  shows "fs_content (fs_run (take k (atomic_write_ops s p e0 data)) s) q = (if q = p \<and> 4 \<le> k then Some data else fs_content s q)"
proof -
  let ?t = "mkstemp s p" and ?i = "fresh_inode s"
  let ?s1 = "fs_do (MkDirs (butlast p)) s"
  have i: "fresh_inode ?s1 = ?i" by (simp add: fresh_inode_def)
  have t: "map_of (fs_link s) ?t = None" "?t \<noteq> p" using mkstemp_fresh mkstemp_neq [OF p] by auto
  have dom: "i \<noteq> ?i" if "map_of (fs_link s) x = Some i" for x i using link_inode_neq [OF that] .
  consider "k = 0" | "k = 1" | "k = 2" | "k = 3" | "4 \<le> k" by linarith
  then show ?thesis
  proof cases
    case 5
    then have "take k (atomic_write_ops s p e0 data) = atomic_write_ops s p e0 data"
      by (simp add: atomic_write_ops_def Let_def)
    then show ?thesis
      using t q 5 dom by (auto simp: atomic_write_ops_def Let_def fs_run_def fs_content_def i update_conv' delete_conv'
          simp del: fs_do.simps(1) split: Option.bind_splits)
  qed (use t q dom in \<open>auto simp: atomic_write_ops_def Let_def fs_run_def fs_content_def i update_conv' numeral_2_eq_2 numeral_3_eq_3
        simp del: fs_do.simps(1) split: Option.bind_splits\<close>)
qed

lemma atomic_write_content:
  "p \<noteq> [] \<Longrightarrow> q \<noteq> mkstemp s p \<Longrightarrow> fs_content (atomic_write_bytes e0 p data s) q = (if q = p then Some data else fs_content s q)"
  using atomic_write_steps [of p q s 4 e0 data] by (simp add: atomic_write_bytes_def atomic_write_ops_def Let_def)

lemma atomic_write_tmp: "p \<noteq> [] \<Longrightarrow> fs_content (atomic_write_bytes e0 p data s) (mkstemp s p) = None"
  using mkstemp_fresh [of s p] mkstemp_neq [of p s]
  by (auto simp: atomic_write_bytes_def atomic_write_ops_def Let_def fs_run_def fs_content_def update_conv' delete_conv'
      simp del: fs_do.simps(1))

lemma fs_content_tmp: "fs_content s (mkstemp s p) = None"
  using mkstemp_fresh [of s p] by (simp add: fs_content_def)

lemma atomic_write_all:
  "p \<noteq> [] \<Longrightarrow> fs_content (atomic_write_bytes e0 p data s) q = (if q = p then Some data else fs_content s q)"
  using atomic_write_content atomic_write_tmp fs_content_tmp mkstemp_neq by (metis (no_types, lifting))

section \<open>The local store meets the contract\<close>

text \<open>For the files of the manifest directory, which has no subdirectories.\<close>

definition doc_name :: "string \<Rightarrow> bool" where
  "doc_name rel \<longleftrightarrow> (\<exists>f. local_path rel = [''manifest'', f])"

definition local_inv :: "'b fs \<Rightarrow> bool" where
  "local_inv s \<longleftrightarrow> (\<forall>d\<in>set (fs_dirs s). \<not> (length d = 2 \<and> hd d = ''manifest''))"

lemma atomic_write_dirs: "fs_dirs (atomic_write_bytes e0 p data s) = fs_dirs (fs_do (MkDirs (butlast p)) s)"
  by (simp add: atomic_write_bytes_def atomic_write_ops_def Let_def fs_run_def split: option.splits)

lemma atomic_write_link:
  "p \<noteq> [] \<Longrightarrow> q \<noteq> p \<Longrightarrow> map_of (fs_link (atomic_write_bytes e0 p data s)) q = map_of (fs_link s) q"
  using mkstemp_fresh [of s p] mkstemp_neq [of p s]
  by (auto simp: atomic_write_bytes_def atomic_write_ops_def Let_def fs_run_def update_conv' delete_conv'
      simp del: fs_do.simps(1))

text \<open>The manifest directory itself is not a file.\<close>

definition docs_inv :: "'b fs \<Rightarrow> bool" where
  "docs_inv s \<longleftrightarrow> local_inv s \<and> \<not> fs_is_file s [''manifest'']"

lemma dir_blocked_doc: "dir_blocked s (butlast [''manifest'', f]) = fs_is_file s [''manifest'']"
  by (simp add: dir_blocked_def parents_def)

lemma docs_not_blocked: "docs_inv s \<Longrightarrow> doc_name rel \<Longrightarrow> \<not> write_blocked s (local_path rel)"
  by (auto simp: docs_inv_def doc_name_def write_blocked_def dir_blocked_doc local_inv_def simp del: butlast.simps)

lemma is_file_map_of: "fs_is_file s p \<longleftrightarrow> map_of (fs_link s) p \<noteq> None"
  by (simp add: fs_is_file_def map_of_eq_None_iff)

lemma local_writeD:
  assumes "local_write e0 s rel b = Inr s'"
  shows "s' = atomic_write_bytes e0 (local_path rel) b s" and "local_path rel \<noteq> []"
  using assms by (auto simp: local_write_def write_blocked_def split: if_splits)

lemma docs_inv_write:
  assumes "docs_inv s" and "doc_name rel" and w: "local_write e0 s rel b = Inr s'"
  shows "docs_inv s'"
proof -
  obtain f where f: "local_path rel = [''manifest'', f]" using assms(2) by (auto simp: doc_name_def)
  have "local_inv s'"
    using assms(1) f by (auto simp: docs_inv_def local_inv_def local_writeD(1) [OF w] atomic_write_dirs parents_def)
  moreover have "\<not> fs_is_file s' [''manifest'']"
    using assms(1) f atomic_write_link [OF local_writeD(2) [OF w], of "[''manifest'']" e0 b s]
    by (simp add: docs_inv_def is_file_map_of local_writeD(1) [OF w])
  ultimately show ?thesis by (simp add: docs_inv_def)
qed

lemma docs_read:
  assumes "docs_inv s" and "doc_name rel"
  shows "local_read s rel = (case map_of (fs_link s) (local_path rel) of None \<Rightarrow> Inl FileNotFoundError
    | Some i \<Rightarrow> (case map_of (fs_data s) i of Some b \<Rightarrow> Inr b | None \<Rightarrow> Inl OSError))"
  using docs_not_blocked [OF assms] by (auto simp: local_read_def fs_read_def write_blocked_def split: option.splits)

lemma local_read_other:
  assumes "docs_inv s" and "doc_name rel" and "doc_name rel'" and "local_path rel \<noteq> local_path rel'"
    and w: "local_write e0 s rel b = Inr s'"
  shows "local_read s' rel' = local_read s rel'"
proof -
  note s' = local_writeD [OF w]
  have c: "fs_content s' (local_path rel') = fs_content s (local_path rel')"
    using s'(2) assms(4) by (simp add: s'(1) atomic_write_all)
  have l: "map_of (fs_link s') (local_path rel') = map_of (fs_link s) (local_path rel')"
    using s'(2) assms(4) by (simp add: s'(1) atomic_write_link)
  show ?thesis
    using c l unfolding docs_read [OF docs_inv_write [OF assms(1,2) w] assms(3)] docs_read [OF assms(1,3)]
    by (auto simp: fs_content_def split: option.splits)
qed

interpretation local: object_store "local_store e0" docs_inv local_path doc_name
proof
  show "\<And>s rel b. docs_inv s \<Longrightarrow> doc_name rel \<Longrightarrow> \<exists>s'. write_bytes (local_store e0) s rel b = Inr s'"
    by (simp add: local_store_def local_write_def docs_not_blocked)
  show "\<And>s rel b s'. docs_inv s \<Longrightarrow> doc_name rel \<Longrightarrow> write_bytes (local_store e0) s rel b = Inr s' \<Longrightarrow> docs_inv s'"
    by (simp add: local_store_def docs_inv_write)
  show "\<And>s rel b s'. docs_inv s \<Longrightarrow> doc_name rel \<Longrightarrow> write_bytes (local_store e0) s rel b = Inr s' \<Longrightarrow>
      read_bytes (local_store e0) s' rel = Inr b"
    using local_writeD by (fastforce simp: local_store_def local_read_def fs_read_content atomic_write_all)
  show "\<And>s rel rel' b s'. docs_inv s \<Longrightarrow> doc_name rel \<Longrightarrow> doc_name rel' \<Longrightarrow> local_path rel \<noteq> local_path rel' \<Longrightarrow>
      write_bytes (local_store e0) s rel b = Inr s' \<Longrightarrow> read_bytes (local_store e0) s' rel' = read_bytes (local_store e0) s rel'"
    by (simp add: local_store_def local_read_other)
  show "\<And>s rel b. docs_inv s \<Longrightarrow> doc_name rel \<Longrightarrow> read_bytes (local_store e0) s rel = Inr b \<Longrightarrow> store_exists (local_store e0) s rel"
    by (auto simp: local_store_def local_read_def fs_read_def local_exists_def fs_is_file_def dest: map_of_SomeD
        intro: rev_image_eqI split: option.splits if_splits)
  show "\<And>s rel e. read_bytes (local_store e0) s rel = Inl e \<Longrightarrow> e = FileNotFoundError \<or> e = OSError"
    by (auto simp: local_store_def local_read_def fs_read_def split: option.splits if_splits)
qed

end
