(* ===== verification/PyInt.thy ===== *)
theory PyInt
  imports PyNum
begin

text \<open>\<open>int(text)\<close>: whitespace around, a sign, decimal digits with single underscores between them.\<close>

definition int_of_text :: "unicode_db \<Rightarrow> pystr \<Rightarrow> int result" where
  "int_of_text u text =
     (case drop_underscores False (py_strip u (map (to_ascii u) text)) of
        None \<Rightarrow> Inl ValueError
      | Some s \<Rightarrow>
          (let (neg, ds) = (case s of c # cs \<Rightarrow> if c = 45 then (True, cs) else if c = 43 then (False, cs) else (False, s)
                            | [] \<Rightarrow> (False, []))
           in if ds = [] \<or> \<not> list_all ascii_digit ds then Inl ValueError
              else Inr (if neg then - int (digits_value ds) else int (digits_value ds))))"

lemma int_of_text_error: "int_of_text u s = Inl e \<Longrightarrow> e = ValueError"
  by (auto simp: int_of_text_def Let_def split: option.splits prod.splits if_splits)

lemma int_of_int_text: "int_of_text u (py_str_int i) = Inr i"
proof -
  let ?n = "nat \<bar>i\<bar>"
  obtain c cs where c: "py_str_nat ?n = c # cs" "c \<noteq> 45" "c \<noteq> 43"
    using py_str_nat_digits [of ?n] digit_facts by (cases "py_str_nat ?n") auto
  have v: "digits_value (c # cs) = ?n" "list_all ascii_digit (c # cs)"
    using digits_value_nat [of ?n] py_str_nat_digits [of ?n] c(1) by simp_all
  show ?thesis unfolding int_of_text_def py_str_int_plain
    using c v by (cases "i < 0") (auto simp: py_str_int_form)
qed

end
