(* ===== verification/Manifest.thy ===== *)
theory Manifest
  imports Store PyInt
begin

text \<open>
  \<^verbatim>\<open>src/src/osmpq/layout/manifest.py\<close>: the manifest, its dictionary form, the paths it refers to,
  and its files under \<open>manifest/\<close> in a store. The contents of a file are the document that
  \<open>json.dumps\<close> wrote (and \<open>json.loads\<close> reads back) or plain text that is not JSON. Paths are
  strings, as annotated; a path of another type, which \<open>all_paths\<close> would append as it is, is an
  error of the model.
\<close>

datatype blob = JsonBytes json | TextBytes pystr

definition MANIFEST_VERSION :: int where "MANIFEST_VERSION = 1"
definition SCHEMA_VERSION :: int where "SCHEMA_VERSION = 1"
definition COORDINATE_SCALE :: int where "COORDINATE_SCALE = 10000000"

definition DEFAULT_PROMOTED_KEYS :: "string list" where
  "DEFAULT_PROMOTED_KEYS = [''amenity'', ''shop'', ''highway'', ''building'', ''name'', ''natural'', ''landuse'', ''leisure'',
     ''railway'', ''waterway'', ''place'', ''tourism'']"

record manifest =
  mf_generation :: json
  mf_timestamp_osm_base :: json
  mf_source :: json
  mf_extent :: json
  mf_leaf_cells :: json
  mf_tables :: json
  mf_byid :: json
  mf_index :: json
  mf_promoted_keys :: json
  mf_replication_sequence :: json
  mf_manifest_version :: json
  mf_schema_version :: json
  mf_coordinate_scale :: json
  mf_ancestor_depths :: json
  mf_max_depth :: json
  mf_rowgroup_index :: json
  mf_producer :: json
  mf_stats :: json
  mf_replication_source :: json
  mf_deltas :: json
  mf_areas :: json
  mf_history :: json

section \<open>Dictionary form\<close>

text \<open>\<open>version >= k\<close> raises for a version that is not a number.\<close>

definition to_dict :: "manifest \<Rightarrow> json result" where
  "to_dict m =
     rbind (jint (mf_manifest_version m)) (\<lambda>v. Inr (JObj
       ([(''manifest_version'', mf_manifest_version m), (''generation'', mf_generation m),
         (''schema_version'', mf_schema_version m), (''coordinate_scale'', mf_coordinate_scale m),
         (''promoted_keys'', mf_promoted_keys m), (''timestamp_osm_base'', mf_timestamp_osm_base m),
         (''replication_sequence'', mf_replication_sequence m), (''source'', mf_source m), (''extent'', mf_extent m),
         (''leaf_cells'', mf_leaf_cells m), (''tables'', mf_tables m), (''byid'', mf_byid m), (''index'', mf_index m)] @
        (if 2 \<le> v then [(''ancestor_depths'', mf_ancestor_depths m), (''max_depth'', mf_max_depth m),
           (''rowgroup_index'', mf_rowgroup_index m), (''producer'', mf_producer m), (''stats'', mf_stats m)] else []) @
        (if 3 \<le> v then [(''replication_source'', mf_replication_source m), (''deltas'', mf_deltas m)] else []) @
        (if 4 \<le> v then [(''areas'', mf_areas m)] else []) @
        (if 5 \<le> v then [(''history'', mf_history m)] else []))))"

definition from_dict :: "json \<Rightarrow> manifest result" where
  "from_dict d =
     rbind (jindex d ''generation'') (\<lambda>gen.
     rbind (jindex d ''timestamp_osm_base'') (\<lambda>ts.
     rbind (jindex d ''source'') (\<lambda>src.
     rbind (jindex d ''extent'') (\<lambda>ext.
     rbind (jindex d ''leaf_cells'') (\<lambda>leaves.
     rbind (jget d ''tables'' empty_obj) (\<lambda>tables.
     rbind (jget d ''byid'' empty_obj) (\<lambda>byid.
     rbind (jget d ''index'' empty_obj) (\<lambda>idx.
     rbind (jget d ''promoted_keys'' (JList (map JStr DEFAULT_PROMOTED_KEYS))) (\<lambda>promoted.
     rbind (jget d ''replication_sequence'' JNull) (\<lambda>rseq.
     rbind (jget d ''manifest_version'' (JInt MANIFEST_VERSION)) (\<lambda>mv.
     rbind (jget d ''schema_version'' (JInt SCHEMA_VERSION)) (\<lambda>sv.
     rbind (jget d ''coordinate_scale'' (JInt COORDINATE_SCALE)) (\<lambda>scale.
     rbind (jget d ''ancestor_depths'' JNull) (\<lambda>anc.
     rbind (jget d ''max_depth'' JNull) (\<lambda>maxd.
     rbind (jget d ''rowgroup_index'' empty_obj) (\<lambda>rgi.
     rbind (jget d ''producer'' empty_obj) (\<lambda>prod.
     rbind (jget d ''stats'' empty_obj) (\<lambda>stats.
     rbind (jget d ''replication_source'' JNull) (\<lambda>rsrc.
     rbind (jget d ''deltas'' empty_obj) (\<lambda>deltas.
     rbind (jget d ''areas'' empty_obj) (\<lambda>areas.
     rbind (jget d ''history'' JNull) (\<lambda>hist.
       Inr \<lparr>mf_generation = gen, mf_timestamp_osm_base = ts, mf_source = src, mf_extent = ext, mf_leaf_cells = leaves,
         mf_tables = tables, mf_byid = byid, mf_index = idx, mf_promoted_keys = promoted, mf_replication_sequence = rseq,
         mf_manifest_version = mv, mf_schema_version = sv, mf_coordinate_scale = scale, mf_ancestor_depths = anc,
         mf_max_depth = maxd, mf_rowgroup_index = rgi, mf_producer = prod, mf_stats = stats, mf_replication_source = rsrc,
         mf_deltas = deltas, mf_areas = areas, mf_history = hist\<rparr>))))))))))))))))))))))"

section \<open>Accessors and paths\<close>

definition jget2 :: "json \<Rightarrow> string \<Rightarrow> string \<Rightarrow> json result" where
  "jget2 d a b = rbind (jget d a empty_obj) (\<lambda>x. jget x b empty_obj)"

definition node_cell_files :: "manifest \<Rightarrow> string \<Rightarrow> json result" where
  "node_cell_files m cell = rbind (jget2 (mf_tables m) ''node'' ''cells'') (\<lambda>c. jget c cell empty_obj)"

definition way_cell_file :: "manifest \<Rightarrow> string \<Rightarrow> json result" where
  "way_cell_file m cell = rbind (jget2 (mf_tables m) ''way'' ''cells'') (\<lambda>c. jget c cell JNull)"

definition relation_cell_file :: "manifest \<Rightarrow> string \<Rightarrow> json result" where
  "relation_cell_file m cell = rbind (jget2 (mf_tables m) ''relation'' ''cells'') (\<lambda>c. jget c cell JNull)"

text \<open>Appending the results of a loop body to one list.\<close>

definition collect :: "('a \<Rightarrow> 'b list result) \<Rightarrow> 'a list \<Rightarrow> 'b list result" where
  "collect f xs = rbind (rmap f xs) (\<lambda>yss. Inr (concat yss))"

definition one_path :: "json \<Rightarrow> string list result" where
  "one_path entry = rbind (jindex entry ''path'') (\<lambda>p. rbind (jstr p) (\<lambda>s. Inr [s]))"

definition part_paths :: "json \<Rightarrow> string list result" where
  "part_paths parts = rbind (jiter parts) (collect one_path)"

text \<open>A table entry: its own path, or those of its tagged and untagged parts.\<close>

definition entry_paths :: "json \<Rightarrow> string list result" where
  "entry_paths entry =
     rbind (jin ''path'' entry) (\<lambda>has.
       if has then one_path entry
       else collect (\<lambda>part. rbind (jget entry part JNull) (\<lambda>v. if truthy v then one_path v else Inr [])) [''tagged'', ''untagged''])"

text \<open>An optional path: nothing for a false entry or a false path.\<close>

definition opt_path :: "json \<Rightarrow> string list result" where
  "opt_path entry =
     (if truthy entry
      then rbind (jget entry ''path'' JNull) (\<lambda>p. if truthy p then rbind (jstr p) (\<lambda>s. Inr [s]) else Inr [])
      else Inr [])"

definition str_path :: "json \<Rightarrow> string list result" where
  "str_path p = (if truthy p then rbind (jstr p) (\<lambda>s. Inr [s]) else Inr [])"

fun is_obj :: "json \<Rightarrow> bool" where
  "is_obj (JObj _) = True" | "is_obj _ = False"

definition tier_paths :: "json \<Rightarrow> string list result" where
  "tier_paths entry =
     rbind (jget entry ''files'' empty_obj) (\<lambda>files.
     rbind (jvalues files) (collect (\<lambda>tf. if is_obj tf then rbind (jvalues tf) (collect str_path) else str_path tf)))"

definition table_paths :: "json \<Rightarrow> string list result" where
  "table_paths spec = rbind (jget spec ''cells'' empty_obj) (\<lambda>cells. rbind (jvalues cells) (collect entry_paths))"

definition area_paths :: "json \<Rightarrow> string list result" where
  "area_paths areas =
     (if truthy areas
      then collect (\<lambda>r. r)
        [rbind (jget areas ''index'' JNull) opt_path, rbind (jget areas ''way_index'' JNull) opt_path,
         rbind (jget areas ''cells'' empty_obj) (\<lambda>c. rbind (jvalues c) (collect (\<lambda>e. rbind (jget e ''path'' JNull) str_path)))]
      else Inr [])"

definition history_paths :: "json \<Rightarrow> string list result" where
  "history_paths h =
     (if truthy h
      then collect (\<lambda>r. r)
        [rbind (jget h ''spatial'' empty_obj) (\<lambda>s. rbind (jvalues s) (collect (\<lambda>cells. rbind (jvalues cells) (collect part_paths)))),
         rbind (jget h ''byid'' empty_obj) (\<lambda>s. rbind (jvalues s) (collect part_paths)),
         rbind (jget h ''tiers'' empty_obj) (\<lambda>t. rbind (jvalues t) (collect tier_paths))]
      else Inr [])"

definition all_paths :: "manifest \<Rightarrow> string list result" where
  "all_paths m =
     collect (\<lambda>r. r)
       [rbind (jvalues (mf_tables m)) (collect table_paths),
        rbind (jvalues (mf_byid m)) (collect part_paths),
        rbind (jvalues (mf_index m)) (collect part_paths),
        rbind (jvalues (mf_rowgroup_index m)) (rmap jstr),
        area_paths (mf_areas m),
        rbind (jvalues (mf_deltas m)) (collect tier_paths),
        history_paths (mf_history m)]"

section \<open>Files\<close>

definition int_str :: "int \<Rightarrow> string" where
  "int_str n = map char_of (py_str_int n)"

definition manifest_file :: "int \<Rightarrow> string" where
  "manifest_file n = ''manifest/'' @ int_str n @ ''.json''"

definition latest_file :: string where
  "latest_file = ''manifest/LATEST''"

fun json_loads :: "blob \<Rightarrow> json result" where
  "json_loads (JsonBytes j) = Inr j"
| "json_loads (TextBytes _) = Inl ValueError"

fun int_of_bytes :: "unicode_db \<Rightarrow> blob \<Rightarrow> int result" where
  "int_of_bytes u (TextBytes s) = int_of_text u s"
| "int_of_bytes u (JsonBytes _) = Inl ValueError"

definition read_latest :: "unicode_db \<Rightarrow> ('s, blob) store_ops \<Rightarrow> 's \<Rightarrow> int option result" where
  "read_latest u ops s =
     (if \<not> store_exists ops s latest_file then Inr None
      else rbind (read_bytes ops s latest_file) (\<lambda>b. rbind (int_of_bytes u b) (\<lambda>n. Inr (Some n))))"

definition next_manifest_number :: "unicode_db \<Rightarrow> ('s, blob) store_ops \<Rightarrow> 's \<Rightarrow> int result" where
  "next_manifest_number u ops s =
     rbind (read_latest u ops s) (\<lambda>latest. Inr (case latest of Some n \<Rightarrow> n + 1 | None \<Rightarrow> 1))"

text \<open>\<open>LATEST\<close> is written last, and not at all when the first write raises.\<close>

definition write_manifest :: "('s, blob) store_ops \<Rightarrow> manifest \<Rightarrow> int \<Rightarrow> 's \<Rightarrow> 's result" where
  "write_manifest ops m n s =
     rbind (to_dict m) (\<lambda>d.
     rbind (write_bytes ops s (manifest_file n) (JsonBytes d)) (\<lambda>s1.
       write_bytes ops s1 latest_file (TextBytes (py_str_int n))))"

definition load_manifest :: "('s, blob) store_ops \<Rightarrow> 's \<Rightarrow> int \<Rightarrow> manifest result" where
  "load_manifest ops s n =
     (if \<not> store_exists ops s (manifest_file n) then Inl FileNotFoundError
      else rbind (read_bytes ops s (manifest_file n)) (\<lambda>b. rbind (json_loads b) from_dict))"

definition load_latest :: "unicode_db \<Rightarrow> ('s, blob) store_ops \<Rightarrow> 's \<Rightarrow> manifest result" where
  "load_latest u ops s =
     rbind (read_latest u ops s) (\<lambda>n. case n of None \<Rightarrow> Inl FileNotFoundError | Some n \<Rightarrow> load_manifest ops s n)"

end
