(* ===== verification/Manifest_Correct.thy ===== *)
theory Manifest_Correct
  imports Manifest
begin

text \<open>
  The dictionary form of a manifest reads back, and a manifest is published atomically in any
  store that meets the contract of \<open>object_store\<close>.
\<close>

section \<open>Dictionary form\<close>

text \<open>Fields above the manifest's version have their defaults, as \<open>to_dict\<close> leaves them out.\<close>

definition version_ok :: "manifest \<Rightarrow> bool" where
  "version_ok m \<longleftrightarrow> (case mf_manifest_version m of JInt v \<Rightarrow>
     (v < 2 \<longrightarrow> mf_ancestor_depths m = JNull \<and> mf_max_depth m = JNull \<and> mf_rowgroup_index m = empty_obj \<and>
        mf_producer m = empty_obj \<and> mf_stats m = empty_obj) \<and>
     (v < 3 \<longrightarrow> mf_replication_source m = JNull \<and> mf_deltas m = empty_obj) \<and>
     (v < 4 \<longrightarrow> mf_areas m = empty_obj) \<and> (v < 5 \<longrightarrow> mf_history m = JNull)
   | _ \<Rightarrow> False)"

lemma to_dict_from_dict:
  assumes "version_ok m"
  shows "\<exists>d. to_dict m = Inr d \<and> from_dict d = Inr m"
proof -
  obtain v where v: "mf_manifest_version m = JInt v" using assms by (auto simp: version_ok_def split: json.splits)
  consider "5 \<le> v" | "v = 4" | "v = 3" | "v = 2" | "v < 2" by linarith
  then show ?thesis
    using assms v by cases (simp_all add: to_dict_def from_dict_def version_ok_def)
qed

section \<open>Names of the manifest directory\<close>

lemma int_str_inj: "int_str a = int_str b \<Longrightarrow> a = b"
proof -
  assume ab: "int_str a = int_str b"
  have lt: "\<forall>c\<in>set (py_str_int n). c < 256" for n
    using py_str_nat_digits [of "nat \<bar>n\<bar>"] by (auto simp: py_str_int_form list_all_iff ascii_digit_def)
  have inj: "map of_char (int_str n) = py_str_int n" for n
    unfolding int_str_def map_map using lt [of n] by (intro map_idI) (simp add: of_char_of)
  have "py_str_int a = py_str_int b" using ab inj [of a] inj [of b] by simp
  then have "(Inr a :: int result) = Inr b"
    unfolding int_of_int_text [of ascii_db, symmetric] by (rule arg_cong)
  then show ?thesis by (rule Inr_inject)
qed

lemma int_str_chars: "c \<in> set (int_str n) \<Longrightarrow> c \<noteq> CHR ''/'' \<and> c \<noteq> CHR ''L'' \<and> c \<noteq> CHR ''.''"
proof -
  assume "c \<in> set (int_str n)"
  then obtain k where k: "k \<in> set (py_str_int n)" "c = char_of k" by (auto simp: int_str_def)
  then have "k = 45 \<or> ascii_digit k" using py_str_nat_digits [of "nat \<bar>n\<bar>"] by (auto simp: py_str_int_form list_all_iff split: if_splits)
  then have lt: "k < 256 \<and> (k = 45 \<or> 48 \<le> k \<and> k \<le> 57)" by (auto simp: ascii_digit_def)
  then have "(of_char c :: nat) = k" using k(2) by simp
  then show ?thesis using lt by auto
qed

lemma int_str_nonempty [simp]: "int_str n \<noteq> []"
  by (simp add: int_str_def py_str_int_form)

lemma split_on_none: "c \<notin> set s \<Longrightarrow> split_on c s = [s]"
  by (induction s) auto

lemma split_on_append: "c \<notin> set a \<Longrightarrow> split_on c (a @ c # b) = a # split_on c b"
  by (induction a) auto

lemma local_path_doc:
  assumes "CHR ''/'' \<notin> set f" and "f \<noteq> []" and "f \<noteq> ''.''"
  shows "local_path (''manifest/'' @ f) = [''manifest'', f]"
proof -
  have "split_on CHR ''/'' (''manifest'' @ CHR ''/'' # f) = [''manifest'', f]"
    using assms(1) by (subst split_on_append) (auto simp: split_on_none)
  then show ?thesis using assms by (simp add: local_path_def path_parts_def lstrip_def)
qed

lemma local_path_manifest: "local_path (manifest_file n) = [''manifest'', int_str n @ ''.json'']"
  unfolding manifest_file_def
proof (rule local_path_doc)
  show "CHR ''/'' \<notin> set (int_str n @ ''.json'')" using int_str_chars [of "CHR ''/''" n] by auto
qed auto

lemma local_path_latest: "local_path latest_file = [''manifest'', ''LATEST'']"
  using local_path_doc [of "''LATEST''"] by (simp add: latest_file_def)

lemma manifest_not_latest: "int_str n @ ''.json'' \<noteq> ''LATEST''"
proof
  assume "int_str n @ ''.json'' = ''LATEST''"
  then have "hd (int_str n @ ''.json'') = CHR ''L''" by simp
  then have "hd (int_str n) = CHR ''L''" by simp
  then show False using int_str_chars [of "hd (int_str n)" n] by simp
qed

section \<open>Publishing\<close>

text \<open>A store whose names of manifests and of \<open>LATEST\<close> denote different files.\<close>

locale manifest_store = object_store ops inv key ok
  for ops :: "('s, blob) store_ops" and inv :: "'s \<Rightarrow> bool" and key :: "string \<Rightarrow> 'k" and ok :: "string \<Rightarrow> bool" +
  assumes manifest_ok: "ok (manifest_file n)" and latest_ok: "ok latest_file"
    and manifest_key: "key (manifest_file a) = key (manifest_file b) \<Longrightarrow> a = b"
    and latest_key: "key (manifest_file n) \<noteq> key latest_file"
begin

lemma read_latest_write:
  "inv s \<Longrightarrow> write_bytes ops s latest_file (TextBytes (py_str_int n)) = Inr s' \<Longrightarrow> read_latest u ops s' = Inr (Some n)"
  by (simp add: read_latest_def exists_write [OF _ latest_ok] read_write [OF _ latest_ok] int_of_int_text)

lemma load_manifest_read:
  "inv s \<Longrightarrow> read_bytes ops s (manifest_file n) = Inr b \<Longrightarrow> load_manifest ops s n = rbind (json_loads b) from_dict"
  using exists_read [OF _ manifest_ok] by (simp add: load_manifest_def)

text \<open>What a reader sees after \<open>write_manifest\<close>: the new manifest.\<close>

lemma load_latest_write:
  assumes s: "inv s" and m: "version_ok m"
  shows "\<exists>s'. write_manifest ops m n s = Inr s' \<and> inv s' \<and> load_latest u ops s' = Inr m"
proof -
  obtain d where d: "to_dict m = Inr d" "from_dict d = Inr m" using to_dict_from_dict [OF m] by blast
  obtain s1 where s1: "write_bytes ops s (manifest_file n) (JsonBytes d) = Inr s1"
    using write_succeeds [OF s manifest_ok] by blast
  have i: "inv s1" using inv_write [OF s manifest_ok s1] .
  obtain s2 where s2: "write_bytes ops s1 latest_file (TextBytes (py_str_int n)) = Inr s2"
    using write_succeeds [OF i latest_ok] by blast
  have i2: "inv s2" using inv_write [OF i latest_ok s2] .
  have "read_bytes ops s2 (manifest_file n) = Inr (JsonBytes d)"
    using read_write_other [OF i latest_ok manifest_ok latest_key [THEN not_sym] s2] read_write [OF s manifest_ok s1] by simp
  then have "load_manifest ops s2 n = Inr m" using load_manifest_read [OF i2] d by simp
  then have "load_latest u ops s2 = Inr m" using read_latest_write [OF i s2] by (simp add: load_latest_def)
  then show ?thesis using d i2 s1 s2 by (simp add: write_manifest_def)
qed

text \<open>A writer that stops after its first write leaves readers with the manifest they had.\<close>

lemma load_latest_interrupted:
  assumes s: "inv s" and old: "read_latest u ops s = Inr (Some k)" and new: "n \<noteq> k"
    and m: "read_bytes ops s (manifest_file k) = Inr b" and l: "read_bytes ops s latest_file = Inr c"
    and s1: "write_bytes ops s (manifest_file n) body = Inr s1"
  shows "load_latest u ops s1 = load_latest u ops s"
proof -
  have i: "inv s1" using inv_write [OF s manifest_ok s1] .
  have r: "read_bytes ops s1 (manifest_file k) = Inr b" "read_bytes ops s1 latest_file = Inr c"
    using read_write_other [OF s manifest_ok _ _ s1] manifest_ok latest_ok m l new manifest_key latest_key by metis+
  have "read_latest u ops s1 = read_latest u ops s"
    using exists_read [OF i latest_ok r(2)] exists_read [OF s latest_ok l] r(2) l by (simp add: read_latest_def)
  moreover have "load_manifest ops s1 k = load_manifest ops s k"
    using load_manifest_read [OF i r(1)] load_manifest_read [OF s m] by simp
  ultimately show ?thesis using old by (simp add: load_latest_def)
qed

lemma next_number_fresh:
  assumes "read_latest u ops s = Inr (Some k)"
  shows "next_manifest_number u ops s = Inr (k + 1)"
  using assms by (simp add: next_manifest_number_def)

end

interpretation memory_manifests: manifest_store memory_store "\<lambda>_. True" mem_key "\<lambda>_. True"
proof
  have k: "mem_key (manifest_file n) = manifest_file n" "mem_key latest_file = latest_file" for n
    by (simp_all add: mem_key_def lstrip_def manifest_file_def latest_file_def)
  show "\<And>a b. mem_key (manifest_file a) = mem_key (manifest_file b) \<Longrightarrow> a = b"
    using int_str_inj by (simp add: k) (simp add: manifest_file_def)
  show "\<And>n. mem_key (manifest_file n) \<noteq> mem_key latest_file"
    using manifest_not_latest by (simp add: k) (simp add: manifest_file_def latest_file_def)
qed simp_all

interpretation local_manifests: manifest_store "local_store e0" docs_inv local_path doc_name
proof
  show "\<And>a b. local_path (manifest_file a) = local_path (manifest_file b) \<Longrightarrow> a = b"
    using int_str_inj by (simp add: local_path_manifest)
  show "\<And>n. local_path (manifest_file n) \<noteq> local_path latest_file"
    using manifest_not_latest by (simp add: local_path_manifest local_path_latest)
qed (auto simp: doc_name_def local_path_manifest local_path_latest)

end
