(* ===== verification/Gc.thy ===== *)
theory Gc
  imports Manifest_Correct
begin

text \<open>
  \<^verbatim>\<open>src/src/osmpq/build/gc.py\<close>: deletion of the files that no recent manifest refers to, on the
  file system of \<open>Store\<close>. The result is paired with the state, because an exception during the
  deletions leaves what was deleted before it.
\<close>

section \<open>References of a manifest\<close>

text \<open>\<open>paths.add(v)\<close>: only strings can equal a file name; an unhashable value raises.\<close>

fun add_value :: "json \<Rightarrow> string list result" where
  "add_value (JStr s) = Inr [s]"
| "add_value (JList _) = Inl TypeError"
| "add_value (JObj _) = Inl TypeError"
| "add_value _ = Inr []"

definition gc_path :: "json \<Rightarrow> string list result" where
  "gc_path entry = rbind (jindex entry ''path'') add_value"

definition gc_values :: "json \<Rightarrow> string \<Rightarrow> json list result" where
  "gc_values d k = rbind (jget d k JNull) (\<lambda>v. jvalues (jor v empty_obj))"

definition gc_parts :: "json \<Rightarrow> string list result" where
  "gc_parts parts = rbind (jiter parts) (collect gc_path)"

definition gc_entry :: "json \<Rightarrow> string list result" where
  "gc_entry entry =
     rbind (jin ''path'' entry) (\<lambda>has.
       if has then gc_path entry
       else collect (\<lambda>part. rbind (jget entry part JNull) (\<lambda>v. if truthy v then rbind (jindex entry part) gc_path else Inr [])) [''tagged'', ''untagged''])"

definition gc_area_cell :: "json \<Rightarrow> string list result" where
  "gc_area_cell entry = rbind (jin ''path'' entry) (\<lambda>has. if has then gc_path entry else Inr [])"

definition gc_tier_value :: "json \<Rightarrow> string list result" where
  "gc_tier_value v = (case v of JObj kvs \<Rightarrow> collect add_value (map snd kvs) | JStr s \<Rightarrow> Inr [s] | _ \<Rightarrow> Inr [])"

definition gc_hist_files :: "json \<Rightarrow> string list result" where
  "gc_hist_files tf = rbind (jvalues (jor tf empty_obj)) (collect (\<lambda>p. if truthy p then add_value p else Inr []))"

definition gc_table :: "json \<Rightarrow> string list result" where
  "gc_table spec = rbind (gc_values spec ''cells'') (collect gc_entry)"

definition gc_areas :: "json \<Rightarrow> string list result" where
  "gc_areas areas =
     collect (\<lambda>r. r)
       [rbind (jget areas ''index'' JNull) (\<lambda>v. if truthy v then gc_path v else Inr []),
        rbind (jget areas ''way_index'' JNull) (\<lambda>v. if truthy v then gc_path v else Inr []),
        rbind (gc_values areas ''cells'') (collect gc_area_cell)]"

definition gc_history :: "json \<Rightarrow> string list result" where
  "gc_history hist =
     collect (\<lambda>r. r)
       [rbind (gc_values hist ''spatial'') (collect (\<lambda>cells. rbind (jvalues cells) (collect gc_parts))),
        rbind (gc_values hist ''byid'') (collect gc_parts),
        rbind (gc_values hist ''tiers'') (collect (\<lambda>tier. rbind (gc_values tier ''files'') (collect gc_hist_files)))]"

definition referenced_paths :: "json \<Rightarrow> string list result" where
  "referenced_paths man =
     collect (\<lambda>r. r)
       [rbind (gc_values man ''tables'') (collect gc_table),
        rbind (gc_values man ''byid'') (collect gc_parts),
        rbind (gc_values man ''index'') (collect gc_parts),
        rbind (gc_values man ''rowgroup_index'') (collect add_value),
        rbind (jget man ''areas'' JNull) (\<lambda>areas. gc_areas (jor areas empty_obj)),
        rbind (gc_values man ''deltas'') (collect (\<lambda>tier. rbind (gc_values tier ''files'') (collect gc_tier_value))),
        rbind (jget man ''history'' JNull) (\<lambda>hist. gc_history (jor hist empty_obj))]"

section \<open>Files\<close>

definition stem_number :: "unicode_db \<Rightarrow> path_comps \<Rightarrow> int option" where
  "stem_number u p =
     (case p of
        [d, f] \<Rightarrow>
          if d = ''manifest'' \<and> suffix ''.json'' f
          then (case int_of_text u (map of_char (take (length f - 5) f)) of Inr n \<Rightarrow> Some n | Inl _ \<Rightarrow> None)
          else None
      | _ \<Rightarrow> None)"

definition manifest_numbers :: "unicode_db \<Rightarrow> 'b fs \<Rightarrow> int list" where
  "manifest_numbers u s = sort (List.map_filter (\<lambda>(p, i). stem_number u p) (fs_link s))"

definition in_manifest :: "path_comps \<Rightarrow> bool" where
  "in_manifest p = (case p of d # _ \<Rightarrow> d = ''manifest'' | [] \<Rightarrow> False)"

definition all_files_under :: "'b fs \<Rightarrow> path_comps list" where
  "all_files_under s = filter (\<lambda>p. \<not> in_manifest p) (map fst (fs_link s))"

definition rel_path :: "path_comps \<Rightarrow> string" where
  "rel_path p = map (\<lambda>c. if c = CHR 0x5C then CHR ''/'' else c) (posix p)"

definition manifest_path :: "int \<Rightarrow> path_comps" where
  "manifest_path n = [''manifest'', int_str n @ ''.json'']"

text \<open>\<open>rglob\<close> lists the directories; the deepest come first.\<close>

definition has_child :: "'b fs \<Rightarrow> path_comps \<Rightarrow> bool" where
  "has_child s d \<longleftrightarrow> (\<exists>p\<in>set (map fst (fs_link s)) \<union> set (fs_dirs s). p \<noteq> [] \<and> butlast p = d)"

definition prune_step :: "path_comps \<Rightarrow> string list \<times> 'b fs \<Rightarrow> string list \<times> 'b fs" where
  "prune_step d acc =
     (case acc of (removed, s) \<Rightarrow>
        if d = [] \<or> in_manifest d \<or> has_child s d then (removed, s)
        else (removed @ [rel_path d], s\<lparr>fs_dirs := filter (\<lambda>x. x \<noteq> d) (fs_dirs s)\<rparr>))"

definition prune_empty_dirs :: "'b fs \<Rightarrow> string list \<times> 'b fs" where
  "prune_empty_dirs s = fold prune_step (sort_key (\<lambda>d. - int (length d)) (fs_dirs s)) ([], s)"

fun unlink_all :: "path_comps list \<Rightarrow> 'b fs \<Rightarrow> unit result \<times> 'b fs" where
  "unlink_all [] s = (Inr (), s)"
| "unlink_all (p # ps) s =
     (if fs_is_file s p then unlink_all ps (fs_do (UnlinkFile p) s) else (Inl FileNotFoundError, s))"

section \<open>\<open>gc\<close>\<close>

record gc_result =
  removed_files :: "string list"
  removed_manifests :: "string list"
  removed_dirs :: "string list"

definition keep_numbers :: "int \<Rightarrow> int list \<Rightarrow> int list" where
  "keep_numbers keep numbers = (if 0 < keep then remdups (drop (length numbers - nat keep) numbers) else [])"

definition referenced :: "blob fs \<Rightarrow> int list \<Rightarrow> string list result" where
  "referenced s ns =
     collect (\<lambda>n. rbind (fs_read s (manifest_path n)) (\<lambda>b. rbind (json_loads b) referenced_paths)) ns"

definition gc :: "unicode_db \<Rightarrow> int \<Rightarrow> bool \<Rightarrow> blob fs \<Rightarrow> gc_result result \<times> blob fs" where
  "gc u keep dry_run s =
     (let numbers = manifest_numbers u s
      in if numbers = [] then (Inr \<lparr>removed_files = [], removed_manifests = [], removed_dirs = []\<rparr>, s)
         else
           let kept = keep_numbers keep numbers
           in case referenced s kept of
                Inl e \<Rightarrow> (Inl e, s)
              | Inr refs \<Rightarrow>
                  let to_delete = filter (\<lambda>p. rel_path p \<notin> set refs) (all_files_under s);
                      old = filter (\<lambda>n. n \<notin> set kept) numbers;
                      files = map rel_path to_delete; docs = map (\<lambda>n. manifest_file n) old
                  in if dry_run
                     then (Inr \<lparr>removed_files = files, removed_manifests = docs, removed_dirs = []\<rparr>, s)
                     else case unlink_all (to_delete @ map manifest_path old) s of
                            (Inl e, s') \<Rightarrow> (Inl e, s')
                          | (Inr _, s') \<Rightarrow>
                              (case prune_empty_dirs s' of (dirs, s'') \<Rightarrow>
                                 (Inr \<lparr>removed_files = files, removed_manifests = docs, removed_dirs = dirs\<rparr>, s'')))"

end
