(* ===== verification/Gc_Correct.thy ===== *)
theory Gc_Correct
  imports Gc
begin

text \<open>
  Garbage collection collects at least the paths a manifest refers to, deletes exactly the
  unreferenced files and the old manifests, and leaves the current manifest readable.
\<close>

section \<open>\<open>gc\<close> and \<open>all_paths\<close>\<close>

lemma collect_subset:
  assumes "collect f xs = Inr as" and "collect g xs = Inr bs"
    and "\<And>x a b. f x = Inr a \<Longrightarrow> g x = Inr b \<Longrightarrow> set a \<subseteq> set b"
  shows "set as \<subseteq> set bs"
  using assms(1,2)
proof (induction xs arbitrary: as bs)
  case (Cons x xs)
  obtain a as' b bs' where "f x = Inr a" "collect f xs = Inr as'" "as = a @ as'"
    "g x = Inr b" "collect g xs = Inr bs'" "bs = b @ bs'"
    using Cons.prems by (auto simp: collect_def rbind_eq_Inr)
  then show ?case using Cons.IH [of as' bs'] assms(3) [of x a b] by auto
qed (simp add: collect_def)

lemma collect_bind_subset:
  assumes "rbind r (collect f) = Inr as" and "rbind r' (collect g) = Inr bs"
    and "\<And>xs. r = Inr xs \<Longrightarrow> r' = Inr xs"
    and "\<And>x a b. f x = Inr a \<Longrightarrow> g x = Inr b \<Longrightarrow> set a \<subseteq> set b"
  shows "set as \<subseteq> set bs"
proof -
  obtain xs where "r = Inr xs" "collect f xs = Inr as" using assms(1) by (auto simp: rbind_eq_Inr)
  moreover have "collect g xs = Inr bs" using assms(2,3) calculation by simp
  ultimately show ?thesis using collect_subset assms(4) by blast
qed

lemma bind_subset:
  "rbind r f = Inr a \<Longrightarrow> rbind r g = Inr b \<Longrightarrow> (\<And>v. f v = Inr a \<Longrightarrow> g v = Inr b \<Longrightarrow> set a \<subseteq> set b) \<Longrightarrow> set a \<subseteq> set b"
  by (cases r) auto

lemma one_path_gc: "one_path e = Inr a \<Longrightarrow> gc_path e = Inr b \<Longrightarrow> set a \<subseteq> set b"
  by (auto simp: one_path_def gc_path_def rbind_eq_Inr elim!: jstr.elims)

lemma part_paths_gc: "part_paths e = Inr a \<Longrightarrow> gc_parts e = Inr b \<Longrightarrow> set a \<subseteq> set b"
  unfolding part_paths_def gc_parts_def by (erule collect_bind_subset, assumption, simp, erule (1) one_path_gc)

lemma part_get: "jget entry part JNull = Inr v \<Longrightarrow> truthy v \<Longrightarrow> jindex entry part = Inr v"
  by (cases entry) (auto split: option.splits)

lemma entry_paths_gc: "entry_paths e = Inr a \<Longrightarrow> gc_entry e = Inr b \<Longrightarrow> set a \<subseteq> set b"
proof -
  assume a: "entry_paths e = Inr a" and b: "gc_entry e = Inr b"
  obtain has where h: "jin ''path'' e = Inr has" using a by (auto simp: entry_paths_def rbind_eq_Inr)
  have part: "set x \<subseteq> set y"
    if "rbind (jget e part JNull) (\<lambda>v. if truthy v then one_path v else Inr []) = Inr x"
      "rbind (jget e part JNull) (\<lambda>v. if truthy v then rbind (jindex e part) gc_path else Inr []) = Inr y" for part x y
    using that part_get [of e part] one_path_gc by (auto simp: rbind_eq_Inr split: if_splits)
  show ?thesis
  proof (cases has)
    case True
    then show ?thesis using a b h one_path_gc by (simp add: entry_paths_def gc_entry_def)
  next
    case False
    then show ?thesis
      using a b h collect_subset [OF _ _ part] by (simp add: entry_paths_def gc_entry_def)
  qed
qed

lemma str_path_gc: "str_path p = Inr a \<Longrightarrow> add_value p = Inr b \<Longrightarrow> set a \<subseteq> set b"
  by (auto simp: str_path_def rbind_eq_Inr elim!: jstr.elims split: if_splits)

lemma str_path_strict: "str_path p = Inr a \<Longrightarrow> (if truthy p then add_value p else Inr []) = Inr b \<Longrightarrow> set a \<subseteq> set b"
  by (auto simp: str_path_def rbind_eq_Inr elim!: jstr.elims split: if_splits)

text \<open>A value read with a default and the same value read with \<open>or {}\<close>.\<close>

lemma gc_values_get: "rbind (jget d k empty_obj) jvalues = Inr xs \<Longrightarrow> gc_values d k = Inr xs"
  by (cases d) (auto simp: gc_values_def jor_def jvalues_def rbind_eq_Inr split: option.splits elim!: truthy.elims)

lemma values_bind: "rbind (jget d k empty_obj) (\<lambda>v. rbind (jvalues v) f) = rbind (rbind (jget d k empty_obj) jvalues) f"
  by (cases "jget d k empty_obj") auto

lemma tier_paths_gc:
  assumes "tier_paths e = Inr a" and "rbind (gc_values e ''files'') (collect gc_tier_value) = Inr b"
  shows "set a \<subseteq> set b"
proof (rule collect_bind_subset [OF assms(1) [unfolded tier_paths_def values_bind] assms(2)])
  show "\<And>x a b. (if is_obj x then rbind (jvalues x) (collect str_path) else str_path x) = Inr a \<Longrightarrow> gc_tier_value x = Inr b \<Longrightarrow> set a \<subseteq> set b"
  proof -
    fix x a b
    assume "(if is_obj x then rbind (jvalues x) (collect str_path) else str_path x) = Inr a" and "gc_tier_value x = Inr b"
    then show "set a \<subseteq> set b"
      by (cases x) (auto simp: gc_tier_value_def jvalues_def str_path_def rbind_eq_Inr split: if_splits
          dest: collect_subset [OF _ _ str_path_gc])
  qed
qed (rule gc_values_get)

lemma hist_tier_paths_gc:
  assumes "tier_paths e = Inr a" and "rbind (gc_values e ''files'') (collect gc_hist_files) = Inr b"
  shows "set a \<subseteq> set b"
proof (rule collect_bind_subset [OF assms(1) [unfolded tier_paths_def values_bind] assms(2)])
  show "\<And>x a b. (if is_obj x then rbind (jvalues x) (collect str_path) else str_path x) = Inr a \<Longrightarrow> gc_hist_files x = Inr b \<Longrightarrow> set a \<subseteq> set b"
  proof -
    fix x a b
    assume "(if is_obj x then rbind (jvalues x) (collect str_path) else str_path x) = Inr a" and "gc_hist_files x = Inr b"
    then show "set a \<subseteq> set b"
      by (cases x) (auto simp: gc_hist_files_def jvalues_def jor_def str_path_def rbind_eq_Inr split: if_splits
          dest: collect_subset [OF _ _ str_path_strict])
  qed
qed (rule gc_values_get)

text \<open>What \<open>gc\<close> reads of the dictionary form is what the manifest has.\<close>

lemma jvalues_jor: "jvalues v = Inr xs \<Longrightarrow> jvalues (jor v empty_obj) = Inr xs"
  by (cases v) (auto simp: jor_def jvalues_def)

lemma to_dict_fields:
  assumes "version_ok m" and "to_dict m = Inr d"
  shows "gc_values d ''tables'' = jvalues (jor (mf_tables m) empty_obj)"
    and "gc_values d ''byid'' = jvalues (jor (mf_byid m) empty_obj)"
    and "gc_values d ''index'' = jvalues (jor (mf_index m) empty_obj)"
    and "gc_values d ''rowgroup_index'' = jvalues (jor (mf_rowgroup_index m) empty_obj)"
    and "gc_values d ''deltas'' = jvalues (jor (mf_deltas m) empty_obj)"
    and "\<exists>v. jget d ''areas'' JNull = Inr v \<and> jor v empty_obj = jor (mf_areas m) empty_obj"
    and "\<exists>v. jget d ''history'' JNull = Inr v \<and> jor v empty_obj = jor (mf_history m) empty_obj"
proof -
  obtain v where v: "mf_manifest_version m = JInt v" using assms(1) by (auto simp: version_ok_def split: json.splits)
  have d: "d = JObj
       ([(''manifest_version'', mf_manifest_version m), (''generation'', mf_generation m),
         (''schema_version'', mf_schema_version m), (''coordinate_scale'', mf_coordinate_scale m),
         (''promoted_keys'', mf_promoted_keys m), (''timestamp_osm_base'', mf_timestamp_osm_base m),
         (''replication_sequence'', mf_replication_sequence m), (''source'', mf_source m), (''extent'', mf_extent m),
         (''leaf_cells'', mf_leaf_cells m), (''tables'', mf_tables m), (''byid'', mf_byid m), (''index'', mf_index m)] @
        (if 2 \<le> v then [(''ancestor_depths'', mf_ancestor_depths m), (''max_depth'', mf_max_depth m),
           (''rowgroup_index'', mf_rowgroup_index m), (''producer'', mf_producer m), (''stats'', mf_stats m)] else []) @
        (if 3 \<le> v then [(''replication_source'', mf_replication_source m), (''deltas'', mf_deltas m)] else []) @
        (if 4 \<le> v then [(''areas'', mf_areas m)] else []) @
        (if 5 \<le> v then [(''history'', mf_history m)] else []))"
    using assms(2) v by (simp add: to_dict_def)
  show "gc_values d ''tables'' = jvalues (jor (mf_tables m) empty_obj)"
    "gc_values d ''byid'' = jvalues (jor (mf_byid m) empty_obj)"
    "gc_values d ''index'' = jvalues (jor (mf_index m) empty_obj)"
    by (simp_all add: d gc_values_def)
  show "gc_values d ''rowgroup_index'' = jvalues (jor (mf_rowgroup_index m) empty_obj)"
    using assms(1) v by (cases "2 \<le> v") (simp_all add: d gc_values_def version_ok_def jor_def)
  show "gc_values d ''deltas'' = jvalues (jor (mf_deltas m) empty_obj)"
    using assms(1) v by (cases "3 \<le> v"; cases "2 \<le> v") (simp_all add: d gc_values_def version_ok_def jor_def)
  show "\<exists>v. jget d ''areas'' JNull = Inr v \<and> jor v empty_obj = jor (mf_areas m) empty_obj"
    using assms(1) v by (cases "4 \<le> v"; cases "3 \<le> v"; cases "2 \<le> v") (simp_all add: d version_ok_def jor_def)
  show "\<exists>v. jget d ''history'' JNull = Inr v \<and> jor v empty_obj = jor (mf_history m) empty_obj"
    using assms(1) v by (cases "5 \<le> v"; cases "4 \<le> v"; cases "3 \<le> v"; cases "2 \<le> v") (simp_all add: d version_ok_def jor_def)
qed

lemma rowgroup_gc: "rmap jstr xs = Inr as \<Longrightarrow> collect add_value xs = Inr bs \<Longrightarrow> set as \<subseteq> set bs"
proof (induction xs arbitrary: as bs)
  case (Cons x xs)
  obtain s as' where "jstr x = Inr s" "rmap jstr xs = Inr as'" "as = s # as'"
    using Cons.prems(1) by (auto simp: rbind_eq_Inr)
  moreover have "x = JStr s" using calculation(1) by (cases x) auto
  moreover obtain bs' where "collect add_value xs = Inr bs'" "bs = s # bs'"
    using Cons.prems(2) calculation(4) by (auto simp: collect_def rbind_eq_Inr)
  ultimately show ?case using Cons.IH by auto
qed simp

lemma opt_path_gc: "opt_path v = Inr a \<Longrightarrow> (if truthy v then gc_path v else Inr []) = Inr b \<Longrightarrow> set a \<subseteq> set b"
  by (cases v) (auto simp: opt_path_def gc_path_def rbind_eq_Inr split: if_splits option.splits elim!: jstr.elims)

lemma area_cell_gc: "rbind (jget e ''path'' JNull) str_path = Inr a \<Longrightarrow> gc_area_cell e = Inr b \<Longrightarrow> set a \<subseteq> set b"
  by (cases e) (auto simp: gc_area_cell_def gc_path_def str_path_def rbind_eq_Inr split: if_splits option.splits
      elim!: jstr.elims dest: map_of_SomeD intro: rev_image_eqI)

lemma collect_Cons: "collect f (x # xs) = Inr ys \<longleftrightarrow> (\<exists>a b. f x = Inr a \<and> collect f xs = Inr b \<and> ys = a @ b)"
  by (auto simp: collect_def rbind_eq_Inr)

lemma collect_Nil: "collect f [] = Inr []"
  by (simp add: collect_def)

lemma tables_gc: "table_paths x = Inr a \<Longrightarrow> gc_table x = Inr b \<Longrightarrow> set a \<subseteq> set b"
  unfolding table_paths_def gc_table_def values_bind
  by (erule (1) collect_bind_subset) (erule gc_values_get, erule (1) entry_paths_gc)

lemma truthy_jor: "truthy v \<Longrightarrow> jor v w = v"
  by (simp add: jor_def)

lemma areas_gc:
  assumes "area_paths v = Inr as" and "gc_areas (jor v empty_obj) = Inr bs"
  shows "set as \<subseteq> set bs"
proof (cases "truthy v")
  case True
  obtain a b c b1 b2 b3 where abc: "rbind (jget v ''index'' JNull) opt_path = Inr a" "rbind (jget v ''way_index'' JNull) opt_path = Inr b"
    "rbind (rbind (jget v ''cells'' empty_obj) jvalues) (collect (\<lambda>e. rbind (jget e ''path'' JNull) str_path)) = Inr c" "as = a @ b @ c"
    and b: "rbind (jget v ''index'' JNull) (\<lambda>v. if truthy v then gc_path v else Inr []) = Inr b1"
      "rbind (jget v ''way_index'' JNull) (\<lambda>v. if truthy v then gc_path v else Inr []) = Inr b2"
      "rbind (gc_values v ''cells'') (collect gc_area_cell) = Inr b3" "bs = b1 @ b2 @ b3"
    using assms unfolding area_paths_def if_P [OF True] gc_areas_def values_bind truthy_jor [OF True] collect_Cons collect_Nil by auto
  have "set a \<subseteq> set b1" by (rule bind_subset [OF abc(1) b(1)]) (erule (1) opt_path_gc)
  moreover have "set b \<subseteq> set b2" by (rule bind_subset [OF abc(2) b(2)]) (erule (1) opt_path_gc)
  moreover have "set c \<subseteq> set b3"
    using abc(3) b(3) by (rule collect_bind_subset) (erule gc_values_get, erule (1) area_cell_gc)
  ultimately show ?thesis using abc(4) b(4) by auto
qed (use assms(1) in \<open>simp add: area_paths_def\<close>)

lemma history_gc:
  assumes "history_paths h = Inr as" and "gc_history (jor h empty_obj) = Inr bs"
  shows "set as \<subseteq> set bs"
proof (cases "truthy h")
  case True
  obtain a b c b1 b2 b3 where abc:
    "rbind (rbind (jget h ''spatial'' empty_obj) jvalues) (collect (\<lambda>cells. rbind (jvalues cells) (collect part_paths))) = Inr a"
    "rbind (rbind (jget h ''byid'' empty_obj) jvalues) (collect part_paths) = Inr b"
    "rbind (rbind (jget h ''tiers'' empty_obj) jvalues) (collect tier_paths) = Inr c" "as = a @ b @ c"
    and b: "rbind (gc_values h ''spatial'') (collect (\<lambda>cells. rbind (jvalues cells) (collect gc_parts))) = Inr b1"
      "rbind (gc_values h ''byid'') (collect gc_parts) = Inr b2"
      "rbind (gc_values h ''tiers'') (collect (\<lambda>tier. rbind (gc_values tier ''files'') (collect gc_hist_files))) = Inr b3" "bs = b1 @ b2 @ b3"
    using assms unfolding history_paths_def if_P [OF True] gc_history_def values_bind truthy_jor [OF True] collect_Cons collect_Nil by auto
  have cells: "set x \<subseteq> set y" if "rbind (jvalues cs) (collect part_paths) = Inr x" "rbind (jvalues cs) (collect gc_parts) = Inr y" for cs x y
    using that by (rule collect_bind_subset) (assumption, erule (1) part_paths_gc)
  have "set a \<subseteq> set b1"
    using abc(1) b(1) by (rule collect_bind_subset) (erule gc_values_get, erule (1) cells)
  moreover have "set b \<subseteq> set b2"
    using abc(2) b(2) by (rule collect_bind_subset) (erule gc_values_get, erule (1) part_paths_gc)
  moreover have "set c \<subseteq> set b3"
    using abc(3) b(3) by (rule collect_bind_subset) (erule gc_values_get, erule (1) hist_tier_paths_gc)
  ultimately show ?thesis using abc(4) b(4) by auto
qed (use assms(1) in \<open>simp add: history_paths_def\<close>)

lemma referenced_covers:
  assumes m: "version_ok m" "to_dict m = Inr d" and ps: "all_paths m = Inr ps" and rs: "referenced_paths d = Inr rs"
  shows "set ps \<subseteq> set rs"
proof -
  note f = to_dict_fields [OF m]
  obtain ar hi where ar: "jget d ''areas'' JNull = Inr ar" "jor ar empty_obj = jor (mf_areas m) empty_obj"
    and hi: "jget d ''history'' JNull = Inr hi" "jor hi empty_obj = jor (mf_history m) empty_obj" using f(6,7) by blast
  obtain r1 r2 r3 r4 r5 r6 r7 where r:
    "rbind (jvalues (jor (mf_tables m) empty_obj)) (collect gc_table) = Inr r1"
    "rbind (jvalues (jor (mf_byid m) empty_obj)) (collect gc_parts) = Inr r2"
    "rbind (jvalues (jor (mf_index m) empty_obj)) (collect gc_parts) = Inr r3"
    "rbind (jvalues (jor (mf_rowgroup_index m) empty_obj)) (collect add_value) = Inr r4"
    "gc_areas (jor (mf_areas m) empty_obj) = Inr r5"
    "rbind (jvalues (jor (mf_deltas m) empty_obj)) (collect (\<lambda>tier. rbind (gc_values tier ''files'') (collect gc_tier_value))) = Inr r6"
    "gc_history (jor (mf_history m) empty_obj) = Inr r7" "rs = r1 @ r2 @ r3 @ r4 @ r5 @ r6 @ r7"
    using rs unfolding referenced_paths_def f(1-5) ar hi rbind_simps collect_Cons collect_Nil by auto
  obtain p1 p2 p3 p4 p5 p6 p7 where p:
    "rbind (jvalues (mf_tables m)) (collect table_paths) = Inr p1" "rbind (jvalues (mf_byid m)) (collect part_paths) = Inr p2"
    "rbind (jvalues (mf_index m)) (collect part_paths) = Inr p3" "rbind (jvalues (mf_rowgroup_index m)) (rmap jstr) = Inr p4"
    "area_paths (mf_areas m) = Inr p5" "rbind (jvalues (mf_deltas m)) (collect tier_paths) = Inr p6"
    "history_paths (mf_history m) = Inr p7" "ps = p1 @ p2 @ p3 @ p4 @ p5 @ p6 @ p7"
    using ps unfolding all_paths_def collect_Cons collect_Nil by auto
  have "set p1 \<subseteq> set r1" by (rule collect_bind_subset [OF p(1) r(1)]) (erule jvalues_jor, erule (1) tables_gc)
  moreover have "set p2 \<subseteq> set r2" by (rule collect_bind_subset [OF p(2) r(2)]) (erule jvalues_jor, erule (1) part_paths_gc)
  moreover have "set p3 \<subseteq> set r3" by (rule collect_bind_subset [OF p(3) r(3)]) (erule jvalues_jor, erule (1) part_paths_gc)
  moreover have "set p4 \<subseteq> set r4"
  proof -
    obtain xs where "jvalues (mf_rowgroup_index m) = Inr xs" "rmap jstr xs = Inr p4" using p(4) by (auto simp: rbind_eq_Inr)
    then show ?thesis using r(4) jvalues_jor rowgroup_gc by fastforce
  qed
  moreover have "set p5 \<subseteq> set r5" using areas_gc [OF p(5) r(5)] .
  moreover have "set p6 \<subseteq> set r6" by (rule collect_bind_subset [OF p(6) r(6)]) (erule jvalues_jor, erule (1) tier_paths_gc)
  moreover have "set p7 \<subseteq> set r7" using history_gc [OF p(7) r(7)] .
  ultimately show ?thesis unfolding p(8) r(8) by auto
qed

section \<open>What is deleted\<close>

lemma unlink_all_state:
  "unlink_all ps s = (Inr x, s') \<Longrightarrow>
   fs_data s' = fs_data s \<and> (\<forall>q. map_of (fs_link s') q = (if q \<in> set ps then None else map_of (fs_link s) q))"
proof (induction ps arbitrary: s)
  case (Cons p ps)
  then show ?case by (auto simp: delete_conv' split: if_splits)
qed simp

lemma prune_state: "fs_link (snd (fold prune_step ds acc)) = fs_link (snd acc) \<and> fs_data (snd (fold prune_step ds acc)) = fs_data (snd acc)"
  by (induction ds arbitrary: acc) (auto simp: prune_step_def split: prod.splits)

text \<open>What a name holds after a collection that kept the references \<open>refs\<close>.\<close>

definition collected :: "unicode_db \<Rightarrow> int \<Rightarrow> 'b fs \<Rightarrow> string list \<Rightarrow> path_comps \<Rightarrow> 'b option" where
  "collected u keep s refs p =
     (if in_manifest p
       then if \<exists>k\<in>set (manifest_numbers u s) - set (keep_numbers keep (manifest_numbers u s)). p = manifest_path k
            then None else fs_content s p
       else if rel_path p \<in> set refs then fs_content s p else None)"

lemma gc_state:
  assumes g: "gc u keep False s = (Inr r, s')" and n: "manifest_numbers u s \<noteq> []"
  obtains refs where "referenced s (keep_numbers keep (manifest_numbers u s)) = Inr refs"
    and "\<forall>p. fs_content s' p = collected u keep s refs p"
    and "\<forall>k\<in>set (manifest_numbers u s) - set (keep_numbers keep (manifest_numbers u s)). map_of (fs_link s') (manifest_path k) = None"
proof -
  let ?ns = "manifest_numbers u s" and ?kept = "keep_numbers keep (manifest_numbers u s)"
  obtain refs where refs: "referenced s ?kept = Inr refs"
    using g n by (auto simp: gc_def Let_def split: sum.splits)
  let ?del = "filter (\<lambda>p. rel_path p \<notin> set refs) (all_files_under s)"
  let ?old = "filter (\<lambda>k. k \<notin> set ?kept) ?ns"
  obtain s1 where s1: "unlink_all (?del @ map manifest_path ?old) s = (Inr (), s1)" and s': "s' = snd (prune_empty_dirs s1)"
    using g n refs by (auto simp: gc_def Let_def split: sum.splits prod.splits)
  have c: "fs_content s' p = (if p \<in> set ?del \<or> p \<in> manifest_path ` set ?old then None else fs_content s p)" for p
    using unlink_all_state [OF s1] prune_state [of _ "([], s1)"] s'
    by (simp add: fs_content_def prune_empty_dirs_def)
  have none: "fs_content s p = None" if "p \<notin> fst ` set (fs_link s)" for p
    using that by (auto simp: fs_content_def map_of_eq_None_iff [symmetric])
  have m: "in_manifest (manifest_path k)" for k by (simp add: in_manifest_def manifest_path_def)
  show thesis
  proof (rule that [OF refs], intro allI)
    show "\<forall>k\<in>set ?ns - set ?kept. map_of (fs_link s') (manifest_path k) = None"
      using unlink_all_state [OF s1] prune_state [of _ "([], s1)"] s' by (auto simp: prune_empty_dirs_def)
    fix p
    show "fs_content s' p = collected u keep s refs p"
    proof (cases "in_manifest p")
      case True
      then have "p \<notin> set ?del" by (simp add: all_files_under_def)
      then show ?thesis using c [of p] True by (auto simp: collected_def)
    next
      case False
      then have "p \<notin> manifest_path ` set ?old" using m by auto
      then show ?thesis using c [of p] False none [of p] by (auto simp: collected_def all_files_under_def)
    qed
  qed
qed

text \<open>The newest manifest is kept whenever at least one is.\<close>

lemma keep_newest: "0 < keep \<Longrightarrow> ns \<noteq> [] \<Longrightarrow> last ns \<in> set (keep_numbers keep ns)"
proof -
  assume k: "0 < keep" and n: "ns \<noteq> []"
  let ?d = "drop (length ns - nat keep) ns"
  have "length ns - nat keep < length ns" using k n by (intro diff_less) auto
  then have "?d \<noteq> []" by simp
  then have "last ?d \<in> set ?d" by (rule last_in_set)
  moreover have "last ?d = last ns" using \<open>?d \<noteq> []\<close> by (simp add: last_drop)
  ultimately show ?thesis using k by (simp add: keep_numbers_def)
qed

lemma last_max: "x \<in> set ns \<Longrightarrow> \<forall>y\<in>set ns. y \<le> x \<Longrightarrow> sorted ns \<Longrightarrow> last ns = (x :: int)"
proof -
  assume x: "x \<in> set ns" and m: "\<forall>y\<in>set ns. y \<le> x" and s: "sorted ns"
  then have ne: "ns \<noteq> []" by auto
  obtain i where i: "i < length ns" "ns ! i = x" using x by (auto simp: in_set_conv_nth)
  then have "x \<le> ns ! (length ns - 1)" using s sorted_nth_mono [of ns i "length ns - 1"] by simp
  then have "x \<le> last ns" using ne by (simp add: last_conv_nth)
  then show ?thesis using m last_in_set [OF ne] by force
qed

end
