(* ===== verification/Publish.thy ===== *)
theory Publish
  imports Gc_Correct
begin

text \<open>
  Publishing a manifest in the local store, seen at the level of the file system's steps, and
  garbage collection beside it.
\<close>

section \<open>Loading from the contents of the files\<close>

definition latest_path :: path_comps where
  "latest_path = [''manifest'', ''LATEST'']"

lemma local_doc_path: "local_path (manifest_file n) = manifest_path n" "local_path latest_file = latest_path"
  by (simp_all add: local_path_manifest local_path_latest manifest_path_def latest_path_def)

lemma content_exists: "fs_content s (local_path rel) = Some b \<Longrightarrow> local_exists s rel"
  by (auto simp: fs_content_def local_exists_def fs_is_file_def bind_eq_Some_conv dest!: map_of_SomeD intro: rev_image_eqI)

lemma load_latest_content:
  assumes "fs_content s latest_path = Some c" and "int_of_bytes u c = Inr k" and "fs_content s (manifest_path k) = Some b"
  shows "load_latest u (local_store e0) s = rbind (json_loads b) from_dict"
    and "read_latest u (local_store e0) s = Inr (Some k)"
proof -
  show l: "read_latest u (local_store e0) s = Inr (Some k)"
    using assms(1,2) content_exists [of s latest_file]
    by (simp add: read_latest_def local_store_def local_read_def local_doc_path fs_read_content [THEN iffD2])
  have "load_manifest (local_store e0) s k = rbind (json_loads b) from_dict"
    using assms(3) content_exists [of s "manifest_file k"]
    by (simp add: load_manifest_def local_store_def local_read_def local_doc_path fs_read_content [THEN iffD2])
  then show "load_latest u (local_store e0) s = rbind (json_loads b) from_dict" using l by (simp add: load_latest_def)
qed

lemma load_latest_content_iff:
  assumes "load_latest u (local_store e0) s = Inr m"
  obtains c k b where "fs_content s latest_path = Some c" and "int_of_bytes u c = Inr k"
    and "fs_content s (manifest_path k) = Some b" and "rbind (json_loads b) from_dict = Inr m"
proof -
  obtain k where k: "read_latest u (local_store e0) s = Inr (Some k)" and m: "load_manifest (local_store e0) s k = Inr m"
    using assms by (auto simp: load_latest_def rbind_eq_Inr split: option.splits)
  obtain c where c: "fs_content s latest_path = Some c" "int_of_bytes u c = Inr k"
    using k by (auto simp: read_latest_def local_store_def local_read_def local_doc_path rbind_eq_Inr fs_read_content split: if_splits)
  obtain b where "fs_content s (manifest_path k) = Some b" "rbind (json_loads b) from_dict = Inr m"
    using m by (auto simp: load_manifest_def local_store_def local_read_def local_doc_path rbind_eq_Inr fs_read_content split: if_splits)
  then show thesis using that c by blast
qed

section \<open>The steps of publishing\<close>

definition publish_steps :: "blob \<Rightarrow> json \<Rightarrow> int \<Rightarrow> blob fs \<Rightarrow> blob fs_op list" where
  "publish_steps e0 d n s =
     (let ops = atomic_write_ops s (manifest_path n) e0 (JsonBytes d)
      in ops @ atomic_write_ops (fs_run ops s) latest_path e0 (TextBytes (py_str_int n)))"

lemma fs_run_append: "fs_run (a @ b) s = fs_run b (fs_run a s)"
  by (simp add: fs_run_def)

lemma write_blocked_latest:
  "write_blocked (atomic_write_bytes e0 (manifest_path n) b s) latest_path = write_blocked s latest_path"
proof -
  have p: "fs_is_file (atomic_write_bytes e0 (manifest_path n) b s) [''manifest''] = fs_is_file s [''manifest'']"
    using atomic_write_link [of "manifest_path n" "[''manifest'']" e0 b s] by (simp add: is_file_map_of manifest_path_def)
  have "latest_path \<in> set (fs_dirs (atomic_write_bytes e0 (manifest_path n) b s)) \<longleftrightarrow> latest_path \<in> set (fs_dirs s)"
    by (auto simp: atomic_write_dirs parents_def manifest_path_def latest_path_def)
  then show ?thesis
    by (simp only: write_blocked_def latest_path_def dir_blocked_doc p)
qed

lemma write_manifest_steps:
  "to_dict m = Inr d \<Longrightarrow> write_manifest (local_store e0) m n s =
     (if write_blocked s (manifest_path n) \<or> write_blocked s latest_path then Inl OSError
      else Inr (fs_run (publish_steps e0 d n s) s))"
  by (simp add: write_manifest_def local_store_def local_write_def local_doc_path write_blocked_latest)
     (simp add: publish_steps_def Let_def fs_run_append atomic_write_bytes_def)

lemma last_no_dot: "hd (last p) \<noteq> CHR ''.'' \<Longrightarrow> p \<noteq> mkstemp s q"
  by (auto simp: mkstemp_def)

lemma docs_not_tmp: "manifest_path k \<noteq> mkstemp s q" "latest_path \<noteq> mkstemp s q"
proof -
  have "hd (int_str k) \<noteq> CHR ''.''" using int_str_chars [of "hd (int_str k)" k] by simp
  then show "manifest_path k \<noteq> mkstemp s q" by (intro last_no_dot) (simp add: manifest_path_def)
  show "latest_path \<noteq> mkstemp s q" by (intro last_no_dot) (simp add: latest_path_def)
qed

lemma manifest_path_simps [simp]:
  "manifest_path a = manifest_path b \<longleftrightarrow> a = b" "manifest_path a \<noteq> latest_path" "latest_path \<noteq> manifest_path a"
  "manifest_path a \<noteq> []" "latest_path \<noteq> []"
  using int_str_inj manifest_not_latest [of a] manifest_not_latest [of a, THEN not_sym]
  by (auto simp: manifest_path_def latest_path_def)

text \<open>The contents of the two kinds of documents after any number of steps.\<close>

lemma publish_contents:
  "fs_content (fs_run (take j (publish_steps e0 d n s)) s) (manifest_path k) =
     (if k = n \<and> 4 \<le> j then Some (JsonBytes d) else fs_content s (manifest_path k))"
  "fs_content (fs_run (take j (publish_steps e0 d n s)) s) latest_path =
     (if 8 \<le> j then Some (TextBytes (py_str_int n)) else fs_content s latest_path)"
proof -
  let ?o1 = "atomic_write_ops s (manifest_path n) e0 (JsonBytes d)"
  let ?s1 = "fs_run ?o1 s"
  have l: "length ?o1 = 4" by (simp add: atomic_write_ops_def Let_def)
  note st = atomic_write_steps [OF manifest_path_simps(4) docs_not_tmp(1), where s = s]
    atomic_write_steps [OF manifest_path_simps(4) docs_not_tmp(2), where s = s]
    atomic_write_steps [OF manifest_path_simps(5) docs_not_tmp(1), where s = ?s1]
    atomic_write_steps [OF manifest_path_simps(5) docs_not_tmp(2), where s = ?s1]
  have a: "take j (publish_steps e0 d n s) =
      take j ?o1 @ take (j - 4) (atomic_write_ops ?s1 latest_path e0 (TextBytes (py_str_int n)))"
    by (simp add: publish_steps_def Let_def l)
  have full: "fs_content ?s1 q = (if q = manifest_path n then Some (JsonBytes d) else fs_content s q)" for q
    using atomic_write_all [of "manifest_path n" e0 "JsonBytes d" s q] by (simp add: atomic_write_bytes_def)
  show "fs_content (fs_run (take j (publish_steps e0 d n s)) s) (manifest_path k) =
      (if k = n \<and> 4 \<le> j then Some (JsonBytes d) else fs_content s (manifest_path k))"
  proof (cases "4 \<le> j")
    case True
    then have "take j ?o1 = ?o1" using l by simp
    then show ?thesis using True by (simp add: a fs_run_append st(3) full)
  qed (simp add: a st(1))
  show "fs_content (fs_run (take j (publish_steps e0 d n s)) s) latest_path =
      (if 8 \<le> j then Some (TextBytes (py_str_int n)) else fs_content s latest_path)"
  proof (cases "4 \<le> j")
    case True
    then have "take j ?o1 = ?o1" using l by simp
    then show ?thesis using True by (auto simp: a fs_run_append st(4) full)
  qed (simp add: a st(2))
qed

lemma load_after_steps:
  assumes old: "load_latest u (local_store e0) s = Inr old" and n: "next_manifest_number u (local_store e0) s = Inr n"
    and d: "to_dict m = Inr d" and m: "version_ok m"
  shows "load_latest u (local_store e0) (fs_run (take j (publish_steps e0 d n s)) s) = Inr (if 8 \<le> j then m else old)"
proof -
  obtain c k b where s: "fs_content s latest_path = Some c" "int_of_bytes u c = Inr k"
    "fs_content s (manifest_path k) = Some b" "rbind (json_loads b) from_dict = Inr old"
    using load_latest_content_iff [OF old] .
  have nk: "n = k + 1" using n load_latest_content(2) [OF s(1-3)] by (simp add: next_manifest_number_def)
  let ?s = "fs_run (take j (publish_steps e0 d n s)) s"
  show ?thesis
  proof (cases "8 \<le> j")
    case True
    have "rbind (json_loads (JsonBytes d)) from_dict = Inr m" using to_dict_from_dict [OF m] d by auto
    then show ?thesis
      using load_latest_content(1) [of ?s "TextBytes (py_str_int n)" u n "JsonBytes d" e0] True
      by (simp add: publish_contents int_of_int_text)
  next
    case False
    then show ?thesis
      using load_latest_content(1) [of ?s c u k b e0] s nk by (simp add: publish_contents)
  qed
qed

section \<open>Garbage collection\<close>

lemma stem_number_manifest: "stem_number u (manifest_path n) = Some n"
proof -
  have lt: "\<forall>c\<in>set (py_str_int n). c < 256"
    using py_str_nat_digits [of "nat \<bar>n\<bar>"] by (auto simp: py_str_int_form list_all_iff ascii_digit_def)
  have "map of_char (int_str n) = py_str_int n"
    unfolding int_str_def map_map using lt by (intro map_idI) (simp add: of_char_of)
  then show ?thesis by (simp add: stem_number_def manifest_path_def suffix_def int_of_int_text)
qed

lemma content_link: "fs_content s p = Some b \<Longrightarrow> p \<in> fst ` set (fs_link s)"
  by (auto simp: fs_content_def bind_eq_Some_conv dest!: map_of_SomeD intro: rev_image_eqI)

lemma manifest_numbers_content: "fs_content s (manifest_path n) = Some b \<Longrightarrow> n \<in> set (manifest_numbers u s)"
  using content_link [of s "manifest_path n"] stem_number_manifest [of u n]
  by (force simp: manifest_numbers_def List.map_filter_def)

lemma latest_in_manifest: "in_manifest latest_path" "in_manifest (manifest_path n)"
  by (simp_all add: in_manifest_def latest_path_def manifest_path_def)

lemma gc_docs:
  assumes g: "gc u keep False s = (Inr r, s')" and n: "manifest_numbers u s \<noteq> []"
  shows "fs_content s' latest_path = fs_content s latest_path"
    and "fs_content s' (manifest_path k) =
      (if k \<in> set (manifest_numbers u s) - set (keep_numbers keep (manifest_numbers u s)) then None else fs_content s (manifest_path k))"
proof -
  obtain refs where "\<forall>p. fs_content s' p = collected u keep s refs p"
    using gc_state [OF g n] by blast
  then show "fs_content s' latest_path = fs_content s latest_path"
    "fs_content s' (manifest_path k) =
      (if k \<in> set (manifest_numbers u s) - set (keep_numbers keep (manifest_numbers u s)) then None else fs_content s (manifest_path k))"
    by (simp_all add: collected_def latest_in_manifest)
qed

lemma collect_member: "collect f xs = Inr ys \<Longrightarrow> x \<in> set xs \<Longrightarrow> \<exists>a. f x = Inr a \<and> set a \<subseteq> set ys"
  by (induction xs arbitrary: ys) (auto simp: collect_Cons, fastforce)

lemma gc_keeps_files:
  assumes g: "gc u keep False s = (Inr r, s')" and n: "manifest_numbers u s \<noteq> []"
    and k: "k \<in> set (keep_numbers keep (manifest_numbers u s))"
    and d: "fs_content s (manifest_path k) = Some (JsonBytes d)" "to_dict m = Inr d" "version_ok m"
    and p: "all_paths m = Inr ps" "rel_path p \<in> set ps" "\<not> in_manifest p"
  shows "fs_content s' p = fs_content s p"
proof -
  obtain refs where refs: "referenced s (keep_numbers keep (manifest_numbers u s)) = Inr refs"
    and c: "\<forall>p. fs_content s' p = collected u keep s refs p"
    using gc_state [OF g n] by blast
  have "fs_read s (manifest_path k) = Inr (JsonBytes d)" using d(1) by (simp add: fs_read_content)
  then obtain rs where rs: "referenced_paths d = Inr rs" "set rs \<subseteq> set refs"
    using collect_member [OF refs [unfolded referenced_def] k] by auto
  then have "rel_path p \<in> set refs" using referenced_covers [OF d(3,2) p(1) rs(1)] p(2) by auto
  then show ?thesis using c p(3) by (simp add: collected_def)
qed

lemma prune_dirs: "set (fs_dirs (snd (fold prune_step ds acc))) \<subseteq> set (fs_dirs (snd acc))"
proof (induction ds arbitrary: acc)
  case (Cons d ds)
  have "set (fs_dirs (snd (prune_step d acc))) \<subseteq> set (fs_dirs (snd acc))"
    by (cases acc) (auto simp: prune_step_def)
  then show ?case using Cons [of "prune_step d acc"] by simp
qed simp

lemma unlink_dirs: "fs_dirs (snd (unlink_all ps s)) = fs_dirs s"
  by (induction ps arbitrary: s) auto

lemma gc_inv:
  assumes g: "gc u keep b s = (r, s')" and inv: "local_inv s"
  shows "local_inv s'"
proof -
  have "s' = s \<or> (\<exists>ps. s' = snd (unlink_all ps s) \<or> s' = snd (prune_empty_dirs (snd (unlink_all ps s))))"
    using g by (auto simp: gc_def Let_def split: if_splits sum.splits prod.splits) (metis snd_conv)+
  then have "set (fs_dirs s') \<subseteq> set (fs_dirs s)"
    using prune_dirs unlink_dirs unfolding prune_empty_dirs_def by (metis snd_conv subset_refl)
  then show ?thesis using inv by (auto simp: local_inv_def)
qed

lemma keep_one_newest: "sorted ns \<Longrightarrow> k \<in> set ns \<Longrightarrow> n \<in> set ns \<Longrightarrow> k < n \<Longrightarrow> k \<notin> set (keep_numbers 1 ns)"
proof -
  assume s: "sorted ns" and k: "k \<in> set ns" and n: "n \<in> set ns" and kn: "k < n"
  have "ns \<noteq> []" using k by auto
  then obtain xs x where ns: "ns = xs @ [x]" by (metis rev_exhaust)
  have "n \<le> x" using s n by (auto simp: ns sorted_append)
  then show ?thesis using kn by (simp add: ns keep_numbers_def)
qed

lemma fs_do_dirs: "\<forall>d\<in>set (fs_dirs (fs_do x s)). d \<in> set (fs_dirs s) \<or> (\<exists>e. x = MkDirs e \<and> d \<in> set (parents e))"
  by (cases x) (auto split: option.splits)

lemma publish_inv: "local_inv s \<Longrightarrow> local_inv (fs_run (take j (publish_steps e0 d n s)) s)"
proof -
  have step: "local_inv t \<Longrightarrow> local_inv (fs_run xs t)" if "\<forall>x\<in>set xs. \<forall>e. x = MkDirs e \<longrightarrow> e = [''manifest'']" for xs and t :: "blob fs"
    using that
  proof (induction xs arbitrary: t)
    case (Cons x xs)
    have "local_inv (fs_do x t)"
      using Cons.prems fs_do_dirs [of x t] by (fastforce simp: local_inv_def parents_def)
    then show ?case using Cons by (simp add: fs_run_def)
  qed (simp add: fs_run_def)
  assume "local_inv s"
  moreover have "\<forall>x\<in>set (publish_steps e0 d n s). \<forall>e. x = MkDirs e \<longrightarrow> e = [''manifest'']"
    by (auto simp: publish_steps_def atomic_write_ops_def Let_def manifest_path_def latest_path_def)
  ultimately show ?thesis using step [of "take j (publish_steps e0 d n s)"] set_take_subset by fastforce
qed

lemma load_latest_missing:
  assumes "fs_content s latest_path = Some c" and "int_of_bytes u c = Inr k" and "map_of (fs_link s) (manifest_path k) = None" and "local_inv s"
  shows "load_latest u (local_store e0) s = Inl FileNotFoundError"
proof -
  have "read_latest u (local_store e0) s = Inr (Some k)"
    using assms(1,2) content_exists [of s latest_file]
    by (simp add: read_latest_def local_store_def local_read_def local_doc_path fs_read_content [THEN iffD2])
  moreover have "\<not> local_exists s (manifest_file k)"
    using assms(3,4) by (auto simp: local_exists_def fs_is_file_def local_doc_path local_inv_def map_of_eq_None_iff manifest_path_def)
  ultimately show ?thesis by (simp add: load_latest_def load_manifest_def local_store_def)
qed

lemma gc_removes_doc:
  assumes "gc u keep False s = (Inr r, s')" and "k \<in> set (manifest_numbers u s)" and "k \<notin> set (keep_numbers keep (manifest_numbers u s))"
  shows "map_of (fs_link s') (manifest_path k) = None"
proof -
  have "manifest_numbers u s \<noteq> []" using assms(2) by auto
  then show ?thesis using gc_state [OF assms(1)] assms(2,3) by (metis DiffI)
qed

end
