(* ===== verification/Storage_Properties.thy ===== *)
theory Storage_Properties
  imports Publish
begin

text \<open>
  Properties of the storage layer: the atomic writes of the local store, the manifest's
  dictionary form and publication, and garbage collection.
\<close>

text \<open>
  C20: an atomic write that stops after any number of its system calls (create the directory,
  create the temporary file, write it, replace) leaves every name but the temporary one with
  the contents it had, except that after the replacement the written name has the new ones;
  in particular names that share an inode with the replaced file keep its old contents. A
  write that fails before the replacement and cleans up leaves all contents as they were.
\<close>

theorem atomic_write_crash_safe:
  assumes "p \<noteq> []"
  shows "(\<forall>k q. q \<noteq> mkstemp s p \<longrightarrow>
      fs_content (fs_run (take k (atomic_write_ops s p e0 data)) s) q = (if q = p \<and> 4 \<le> k then Some data else fs_content s q)) \<and>
    (\<forall>k q. k < 4 \<longrightarrow> fs_content (atomic_write_failed s p e0 data k) q = fs_content s q) \<and>
    (\<forall>q. fs_content (atomic_write_bytes e0 p data s) q = (if q = p then Some data else fs_content s q))"
proof (intro conjI allI impI)
  fix k :: nat and q
  assume k: "k < 4"
  let ?s = "fs_run (take k (atomic_write_ops s p e0 data)) s"
  have e: "fs_content (atomic_write_failed s p e0 data k) q = (if q = mkstemp s p then None else fs_content ?s q)"
    by (simp add: atomic_write_failed_def fs_run_append) (simp add: fs_run_def fs_content_def delete_conv')
  show "fs_content (atomic_write_failed s p e0 data k) q = fs_content s q"
    using k atomic_write_steps [OF assms, of q s k e0 data] fs_content_tmp [of s p] unfolding e by (cases "q = mkstemp s p") auto
qed (use assms in \<open>simp_all add: atomic_write_steps atomic_write_all\<close>)

text \<open>A file and a hard link to it, both named in the root, of which one is overwritten.\<close>

definition linked_fs :: "blob fs" where
  "linked_fs = \<lparr>fs_link = [([''a.parquet''], 1), ([''b.parquet''], 1)], fs_data = [(1, TextBytes [111])], fs_dirs = []\<rparr>"

theorem atomic_write_crash_safe_witness:
  "fs_content (atomic_write_bytes (TextBytes []) [''a.parquet''] (TextBytes [110]) linked_fs) [''a.parquet''] = Some (TextBytes [110]) \<and>
   fs_content (atomic_write_bytes (TextBytes []) [''a.parquet''] (TextBytes [110]) linked_fs) [''b.parquet''] = Some (TextBytes [111])"
  using atomic_write_crash_safe [of "[''a.parquet'']" linked_fs "TextBytes []" "TextBytes [110]"]
  by (simp add: linked_fs_def fs_content_def)

text \<open>
  C21: a manifest whose fields above its own version have their defaults is the manifest that
  \<open>from_dict\<close> reads from its \<open>to_dict\<close>.
\<close>

theorem manifest_dict_roundtrip:
  assumes "version_ok m"
  shows "\<exists>d. to_dict m = Inr d \<and> from_dict d = Inr m"
  using assms by (rule to_dict_from_dict)

definition sample_manifest :: "json \<Rightarrow> manifest" where
  "sample_manifest byid =
     \<lparr>mf_generation = JStr ''g1'', mf_timestamp_osm_base = JNull, mf_source = JNull, mf_extent = JNull, mf_leaf_cells = JList [],
      mf_tables = empty_obj, mf_byid = byid, mf_index = empty_obj, mf_promoted_keys = JList [], mf_replication_sequence = JNull,
      mf_manifest_version = JInt 1, mf_schema_version = JInt 1, mf_coordinate_scale = JInt 10000000, mf_ancestor_depths = JNull,
      mf_max_depth = JNull, mf_rowgroup_index = empty_obj, mf_producer = empty_obj, mf_stats = empty_obj,
      mf_replication_source = JNull, mf_deltas = empty_obj, mf_areas = empty_obj, mf_history = JNull\<rparr>"

lemma sample_version_ok [simp]: "version_ok (sample_manifest byid)"
  by (simp add: sample_manifest_def version_ok_def)

theorem manifest_dict_roundtrip_witness:
  "\<exists>d. to_dict (sample_manifest empty_obj) = Inr d \<and> from_dict d = Inr (sample_manifest empty_obj)"
  by (rule manifest_dict_roundtrip) simp

text \<open>
  C22: publishing a manifest in the local store is atomic for readers. \<open>write_manifest\<close> under
  the next manifest number is the eight system calls of its two atomic writes, or raises where the
  file system refuses one of the two names, and after any number of the calls a reader that loads
  the latest manifest gets the one it had before, up to the last call, and the new one after it.
\<close>

theorem manifest_publish_atomic:
  assumes "load_latest u (local_store e0) s = Inr old"
    and "next_manifest_number u (local_store e0) s = Inr n"
    and "version_ok m" and "to_dict m = Inr d"
  shows "write_manifest (local_store e0) m n s =
      (if write_blocked s (manifest_path n) \<or> write_blocked s latest_path then Inl OSError
       else Inr (fs_run (publish_steps e0 d n s) s)) \<and>
    length (publish_steps e0 d n s) = 8 \<and>
    (\<forall>j. load_latest u (local_store e0) (fs_run (take j (publish_steps e0 d n s)) s) = Inr (if 8 \<le> j then m else old))"
proof (intro conjI allI)
  show "write_manifest (local_store e0) m n s =
      (if write_blocked s (manifest_path n) \<or> write_blocked s latest_path then Inl OSError
       else Inr (fs_run (publish_steps e0 d n s) s))"
    using assms(4) by (rule write_manifest_steps)
  show "length (publish_steps e0 d n s) = 8"
    by (simp add: publish_steps_def atomic_write_ops_def Let_def)
qed (rule load_after_steps [OF assms(1,2,4,3)])

definition parts_json :: "string list \<Rightarrow> json" where
  "parts_json ps = JObj [(''node'', JList (map (\<lambda>p. JObj [(''path'', JStr p)]) ps))]"

definition sample_dict :: "json \<Rightarrow> json" where
  "sample_dict byid = (case to_dict (sample_manifest byid) of Inr d \<Rightarrow> d | Inl _ \<Rightarrow> JNull)"

lemma sample_to_dict: "to_dict (sample_manifest byid) = Inr (sample_dict byid)"
  by (simp add: sample_dict_def sample_manifest_def to_dict_def)

text \<open>A root with manifest 7, one file that it refers to and one that it does not.\<close>

definition sample_root :: "blob fs" where
  "sample_root =
     \<lparr>fs_link = [([''manifest'', ''LATEST''], 0), ([''manifest'', ''7.json''], 1), ([''byid'', ''a''], 2), ([''byid'', ''z''], 3)],
      fs_data = [(0, TextBytes [55]), (1, JsonBytes (sample_dict (parts_json [''byid/a'']))), (2, TextBytes []), (3, TextBytes [])],
      fs_dirs = [[''manifest''], [''byid'']]\<rparr>"

lemma sample_paths: "manifest_path 7 = [''manifest'', ''7.json'']" "py_str_int 7 = [55]"
  by code_simp+

lemma sample_latest: "int_of_text u [55] = Inr 7"
  using int_of_int_text [of u 7] by (simp add: sample_paths)

lemma sample_root_load:
  "load_latest u (local_store e0) sample_root = Inr (sample_manifest (parts_json [''byid/a'']))"
  "next_manifest_number u (local_store e0) sample_root = Inr 8"
proof -
  have c: "fs_content sample_root latest_path = Some (TextBytes [55])"
    "fs_content sample_root (manifest_path 7) = Some (JsonBytes (sample_dict (parts_json [''byid/a''])))"
    by (simp_all add: fs_content_def sample_root_def latest_path_def sample_paths)
  note l = load_latest_content [OF c(1) _ c(2), of u e0]
  show "load_latest u (local_store e0) sample_root = Inr (sample_manifest (parts_json [''byid/a'']))"
    using l(1) to_dict_from_dict [OF sample_version_ok, of "parts_json [''byid/a'']"] by (auto simp: sample_latest sample_to_dict)
  show "next_manifest_number u (local_store e0) sample_root = Inr 8"
    using l(2) by (simp add: sample_latest next_manifest_number_def)
qed

theorem manifest_publish_atomic_witness:
  "load_latest ascii_db (local_store (TextBytes []))
     (fs_run (take 7 (publish_steps (TextBytes []) (sample_dict empty_obj) 8 sample_root)) sample_root) =
   Inr (sample_manifest (parts_json [''byid/a''])) \<and>
   write_manifest (local_store (TextBytes [])) (sample_manifest empty_obj) 8 sample_root =
   Inr (fs_run (publish_steps (TextBytes []) (sample_dict empty_obj) 8 sample_root) sample_root)"
proof -
  have "\<not> (write_blocked sample_root (manifest_path 8) \<or> write_blocked sample_root latest_path)" by code_simp
  then show ?thesis
    using manifest_publish_atomic [OF sample_root_load sample_version_ok sample_to_dict] by simp
qed

lemma sample_all_paths: "all_paths (sample_manifest (parts_json [''byid/a''])) = Inr [''byid/a'']"
  "referenced_paths (sample_dict (parts_json [''byid/a''])) = Inr [''byid/a'']"
  by code_simp+

text \<open>
  C24: garbage collection is safe for readers. When \<open>LATEST\<close> names the newest manifest of the
  root and at least one manifest is kept, a collection that succeeds leaves the latest manifest
  loading as before and keeps the contents of every file that it refers to.
\<close>

theorem gc_keeps_latest:
  assumes "gc u keep False s = (Inr r, s')" and "0 < keep"
    and "read_latest u (local_store e0) s = Inr (Some k)" and "\<forall>j\<in>set (manifest_numbers u s). j \<le> k"
    and "load_latest u (local_store e0) s = Inr m" and "version_ok m" and "to_dict m = Inr d"
    and "fs_read s (manifest_path k) = Inr (JsonBytes d)" and "all_paths m = Inr ps"
  shows "load_latest u (local_store e0) s' = Inr m \<and>
    (\<forall>p. rel_path p \<in> set ps \<and> \<not> in_manifest p \<longrightarrow> fs_content s' p = fs_content s p)"
proof -
  obtain c k' b where c: "fs_content s latest_path = Some c" "int_of_bytes u c = Inr k'"
    "fs_content s (manifest_path k') = Some b" "rbind (json_loads b) from_dict = Inr m"
    using load_latest_content_iff [OF assms(5)] .
  have k: "k' = k" using load_latest_content(2) [OF c(1-3), of e0] assms(3) by simp
  let ?ns = "manifest_numbers u s"
  have in_ns: "k \<in> set ?ns" using c(3) k by (auto intro: manifest_numbers_content)
  then have ne: "?ns \<noteq> []" by auto
  have "last ?ns = k" using in_ns assms(4) by (intro last_max) (auto simp: manifest_numbers_def)
  then have kept: "k \<in> set (keep_numbers keep ?ns)" using keep_newest [OF assms(2) ne] by simp
  have b: "b = JsonBytes d" using c(3) assms(8) k by (simp add: fs_read_content)
  have "fs_content s' latest_path = Some c" "fs_content s' (manifest_path k') = Some b"
    using gc_docs [OF assms(1) ne] kept c k by auto
  then have "load_latest u (local_store e0) s' = Inr m" using load_latest_content(1) c by simp
  moreover have "fs_content s' p = fs_content s p" if "rel_path p \<in> set ps" "\<not> in_manifest p" for p
    using gc_keeps_files [OF assms(1) ne kept _ assms(7,6,9) that] c(3) b k by simp
  ultimately show ?thesis by blast
qed

definition sample_collected :: "blob fs" where
  "sample_collected =
     sample_root\<lparr>fs_link := [([''manifest'', ''LATEST''], 0), ([''manifest'', ''7.json''], 1), ([''byid'', ''a''], 2)]\<rparr>"

lemma sample_gc:
  "gc ascii_db 2 False sample_root =
     (Inr \<lparr>removed_files = [''byid/z''], removed_manifests = [], removed_dirs = []\<rparr>, sample_collected)"
  by code_simp

lemma sample_reads:
  "read_latest ascii_db (local_store (TextBytes [])) sample_root = Inr (Some 7)"
  "fs_read sample_root (manifest_path 7) = Inr (JsonBytes (sample_dict (parts_json [''byid/a''])))"
  "manifest_numbers ascii_db sample_root = [7]"
  by code_simp+

theorem gc_keeps_latest_witness:
  "load_latest ascii_db (local_store (TextBytes [])) sample_collected = Inr (sample_manifest (parts_json [''byid/a''])) \<and>
   fs_content sample_collected [''byid'', ''a''] = fs_content sample_root [''byid'', ''a'']"
  using gc_keeps_latest [OF sample_gc _ sample_reads(1) _ sample_root_load(1) sample_version_ok sample_to_dict
      sample_reads(2) sample_all_paths(1)]
  by (simp add: sample_reads(3) rel_path_def posix_def in_manifest_def)

text \<open>
  C25: the collection is not safe beside an interrupted publication. When a writer has stopped
  after \<open><n>.json\<close> is in place (its first atomic write) and before its last system call, readers still load the old
  manifest, but a collection that keeps one manifest keeps the unpublished one: it deletes the
  manifest that \<open>LATEST\<close> names, and loading the latest manifest raises \<open>FileNotFoundError\<close>.
\<close>

theorem gc_after_interrupted_publish:
  assumes "load_latest u (local_store e0) s = Inr old" and "next_manifest_number u (local_store e0) s = Inr n"
    and "version_ok m" and "to_dict m = Inr d" and "local_inv s" and "4 \<le> j" and "j < 8"
    and "s1 = fs_run (take j (publish_steps e0 d n s)) s" and "gc u 1 False s1 = (Inr r, s2)"
  shows "load_latest u (local_store e0) s1 = Inr old \<and> load_latest u (local_store e0) s2 = Inl FileNotFoundError"
proof
  show "load_latest u (local_store e0) s1 = Inr old"
    using load_after_steps [OF assms(1,2,4,3), of j] assms(7,8) by simp
  obtain c k b where c: "fs_content s latest_path = Some c" "int_of_bytes u c = Inr k" "fs_content s (manifest_path k) = Some b"
    using load_latest_content_iff [OF assms(1)] .
  have nk: "n = k + 1" using assms(2) load_latest_content(2) [OF c] by (simp add: next_manifest_number_def)
  have c1: "fs_content s1 latest_path = Some c" "fs_content s1 (manifest_path k) = Some b" "fs_content s1 (manifest_path n) = Some (JsonBytes d)"
    using c nk assms(6,7) by (simp_all add: assms(8) publish_contents)
  let ?ns = "manifest_numbers u s1"
  have ns: "k \<in> set ?ns" "n \<in> set ?ns" using c1(2,3) by (auto intro: manifest_numbers_content)
  have k: "k \<notin> set (keep_numbers 1 ?ns)" using keep_one_newest [of ?ns k n] ns nk by (simp add: manifest_numbers_def)
  have "?ns \<noteq> []" using ns by auto
  note g = gc_docs [OF assms(9) this]
  have l: "fs_content s2 latest_path = Some c" using g(1) c1 by simp
  have inv: "local_inv s2" using gc_inv [OF assms(9)] publish_inv [OF assms(5)] assms(8) by simp
  show "load_latest u (local_store e0) s2 = Inl FileNotFoundError"
    using load_latest_missing [OF l c(2) gc_removes_doc [OF assms(9) ns(1) k] inv] .
qed

theorem gc_after_interrupted_publish_witness:
  "\<exists>r s2. gc ascii_db 1 False (fs_run (take 4 (publish_steps (TextBytes []) (sample_dict empty_obj) 8 sample_root)) sample_root) = (Inr r, s2) \<and>
     load_latest ascii_db (local_store (TextBytes [])) s2 = Inl FileNotFoundError"
proof -
  let ?s1 = "fs_run (take 4 (publish_steps (TextBytes []) (sample_dict empty_obj) 8 sample_root)) sample_root"
  have "isl (fst (gc ascii_db 1 False ?s1)) = False" by code_simp
  then obtain r s2 where g: "gc ascii_db 1 False ?s1 = (Inr r, s2)" by (metis isl_def old.sum.exhaust surj_pair fst_conv)
  have "local_inv sample_root" by (simp add: local_inv_def sample_root_def)
  then show ?thesis
    using gc_after_interrupted_publish [OF sample_root_load sample_version_ok sample_to_dict _ _ _ refl g] g by auto
qed

end
