(* ===== verification/Hilbert.thy ===== *)
theory Hilbert
  imports Cells_Grid
begin

unbundle bit_operations_syntax

text \<open>
  \<^verbatim>\<open>src/src/osmpq/layout/hilbert.py\<close> and \<^verbatim>\<open>src/src/osmpq/engine/hilbert.py\<close>: the Hilbert curve index
  of a point, in Python integers, in numpy arrays (signed coordinates and unsigned indexes of 64
  bits) and in Arrow arrays (64 bits, with nulls). Arrays are lists of rows; an operation on
  whole arrays is the operation on each row, and an error in a row is the error of the call.
  Coordinates are stored in 32 bits; the scalar functions are those of integers within the range
  of a double (Python's division raises for the others).
\<close>

definition ORDER :: nat where "ORDER = 20"

section \<open>\<open>layout.hilbert\<close>\<close>

function hilbert_loop :: "int \<Rightarrow> int \<Rightarrow> int \<Rightarrow> int \<Rightarrow> int \<Rightarrow> int" where
  "hilbert_loop n s x y d =
     (if 0 < s then
        let rx = (if 0 < x AND s then 1 else 0); ry = (if 0 < y AND s then 1 else 0);
            d = d + s * s * ((3 * rx) XOR ry);
            (x, y) = (if ry = 0 then (let (x, y) = (if rx = 1 then (n - 1 - x, n - 1 - y) else (x, y)) in (y, x)) else (x, y))
        in hilbert_loop n (s div 2) x y d
      else d)"
  by pat_completeness auto

termination
  by (relation "measure (\<lambda>(n, s, x, y, d). nat s)") auto

declare hilbert_loop.simps [simp del]

definition hilbert_xy2d :: "nat \<Rightarrow> int \<Rightarrow> int \<Rightarrow> int" where
  "hilbert_xy2d order x y = (let n = push_bit order 1 in hilbert_loop n (n div 2) x y 0)"

definition hilbert_grid_xy :: "int \<Rightarrow> int \<Rightarrow> int \<times> int" where
  "hilbert_grid_xy lat_e7 lon_e7 =
     (let n = push_bit ORDER (1 :: int); lat = fdiv (fl (of_int lat_e7)) 10000000; lon = fdiv (fl (of_int lon_e7)) 10000000;
          x = py_int (fmul (fdiv (fadd lon 180) 360) (of_int n)); y = py_int (fmul (fdiv (fadd lat 90) 180) (of_int n))
      in (min (max x 0) (n - 1), min (max y 0) (n - 1)))"

definition hilbert_key :: "int \<Rightarrow> int \<Rightarrow> int" where
  "hilbert_key lat_e7 lon_e7 = (let (x, y) = hilbert_grid_xy lat_e7 lon_e7 in hilbert_xy2d ORDER x y)"

text \<open>The numpy loop: \<open>where\<close> evaluates both sides, and \<open>d\<close> is unsigned.\<close>

function hilbert_np_loop :: "int \<Rightarrow> int \<Rightarrow> 64 word \<Rightarrow> 64 word \<Rightarrow> 64 word \<Rightarrow> 64 word" where
  "hilbert_np_loop n s x y d =
     (if 0 < s then
        let rx = (if 0 <s (x AND word_of_int s) then 1 else 0); ry = (if 0 <s (y AND word_of_int s) then 1 else 0);
            d = d + word_of_int (s * s) * ((3 * rx) XOR ry);
            swap_mask = (ry = 0); flip_mask = (swap_mask \<and> rx = 1);
            x = (if flip_mask then word_of_int n - 1 - x else x); y = (if flip_mask then word_of_int n - 1 - y else y);
            new_x = (if swap_mask then y else x); new_y = (if swap_mask then x else y)
        in hilbert_np_loop n (s div 2) new_x new_y d
      else d)"
  by pat_completeness auto

termination
  by (relation "measure (\<lambda>(n, s, x, y, d). nat s)") auto

declare hilbert_np_loop.simps [simp del]

definition hilbert_keys1 :: "64 word \<Rightarrow> 64 word \<Rightarrow> 64 word" where
  "hilbert_keys1 lat_e7 lon_e7 =
     (let n = push_bit ORDER (1 :: int);
          lat = fdiv (fl (of_int (sint lat_e7))) 10000000; lon = fdiv (fl (of_int (sint lon_e7))) 10000000;
          x = np_clip \<lfloor>fmul (fdiv (fadd lon 180) 360) (of_int n)\<rfloor> 0 (n - 1);
          y = np_clip \<lfloor>fmul (fdiv (fadd lat 90) 180) (of_int n)\<rfloor> 0 (n - 1)
      in hilbert_np_loop n (n div 2) (word_of_int x) (word_of_int y) 0)"

text \<open>\<open>np.asarray(.., dtype=np.int64)\<close> refuses an integer that does not fit.\<close>

definition as_int64 :: "int \<Rightarrow> 64 word result" where
  "as_int64 v = (if - (2 ^ 63) \<le> v \<and> v < 2 ^ 63 then Inr (word_of_int v) else Inl OverflowError)"

definition hilbert_keys :: "(int \<times> int) list \<Rightarrow> 64 word list result" where
  "hilbert_keys rows =
     rbind (rmap (\<lambda>(lat_e7, lon_e7). as_int64 lat_e7) rows) (\<lambda>lats.
     rbind (rmap (\<lambda>(lat_e7, lon_e7). as_int64 lon_e7) rows) (\<lambda>lons.
       Inr (map2 hilbert_keys1 lats lons)))"

section \<open>\<open>engine.hilbert\<close>: scalars\<close>

definition SIDE :: int where "SIDE = push_bit ORDER 1"
definition MAXCOORD :: int where "MAXCOORD = SIDE - 1"

definition rot :: "int \<Rightarrow> int \<Rightarrow> int \<Rightarrow> int \<Rightarrow> int \<Rightarrow> int \<times> int" where
  "rot n x y rx ry =
     (if ry = 0 then (let (x, y) = (if rx = 1 then (n - 1 - x, n - 1 - y) else (x, y)) in (y, x)) else (x, y))"

function xy2d_loop :: "int \<Rightarrow> int \<Rightarrow> int \<Rightarrow> int \<Rightarrow> int \<Rightarrow> int" where
  "xy2d_loop n s x y d =
     (if 0 < s then
        let rx = (if 0 < x AND s then 1 else 0); ry = (if 0 < y AND s then 1 else 0);
            d = d + s * s * ((3 * rx) XOR ry); (x, y) = rot n x y rx ry
        in xy2d_loop n (s div 2) x y d
      else d)"
  by pat_completeness auto

termination
  by (relation "measure (\<lambda>(n, s, x, y, d). nat s)") auto

declare xy2d_loop.simps [simp del]

definition xy2d :: "nat \<Rightarrow> int \<Rightarrow> int \<Rightarrow> int" where
  "xy2d order x y = (let n = push_bit order 1 in xy2d_loop n (n div 2) x y 0)"

definition lonlat_to_xy :: "rat \<Rightarrow> rat \<Rightarrow> int \<times> int" where
  "lonlat_to_xy lon lat =
     (let x = py_int (fmul (fdiv (fadd lon 180) 360) (of_int SIDE)); y = py_int (fmul (fdiv (fadd lat 90) 180) (of_int SIDE))
      in (max 0 (min MAXCOORD x), max 0 (min MAXCOORD y)))"

definition lonlat_to_hilbert :: "rat \<Rightarrow> rat \<Rightarrow> int" where
  "lonlat_to_hilbert lon lat = (let (x, y) = lonlat_to_xy lon lat in xy2d ORDER x y)"

definition e7_to_hilbert :: "int \<Rightarrow> int \<Rightarrow> int" where
  "e7_to_hilbert lon_e7 lat_e7 = lonlat_to_hilbert (fdiv (fl (of_int lon_e7)) 10000000) (fdiv (fl (of_int lat_e7)) 10000000)"

definition bbox_e7_center_hilbert :: "int \<Rightarrow> int \<Rightarrow> int \<Rightarrow> int \<Rightarrow> int" where
  "bbox_e7_center_hilbert xmin_e7 ymin_e7 xmax_e7 ymax_e7 =
     (let lon = fdiv (fdiv (fl (of_int (xmin_e7 + xmax_e7))) 2) 10000000;
          lat = fdiv (fdiv (fl (of_int (ymin_e7 + ymax_e7))) 2) 10000000
      in lonlat_to_hilbert lon lat)"

section \<open>\<open>engine.hilbert\<close>: Arrow arrays\<close>

text \<open>A value or null; element-wise functions give null when an argument is.\<close>

definition lift1 :: "('a \<Rightarrow> 'b) \<Rightarrow> 'a option \<Rightarrow> 'b option" where
  "lift1 f x = map_option f x"

definition lift2 :: "('a \<Rightarrow> 'b \<Rightarrow> 'c) \<Rightarrow> 'a option \<Rightarrow> 'b option \<Rightarrow> 'c option" where
  "lift2 f x y = Option.bind x (\<lambda>a. map_option (f a) y)"

definition if_else :: "bool option \<Rightarrow> 'a option \<Rightarrow> 'a option \<Rightarrow> 'a option" where
  "if_else c x y = Option.bind c (\<lambda>b. if b then x else y)"

text \<open>\<open>cast(.., int64, safe=False)\<close> truncates towards zero and keeps 64 bits.\<close>

definition vec_axis :: "rat \<Rightarrow> rat \<Rightarrow> rat option \<Rightarrow> 64 word option" where
  "vec_axis shift width deg =
     (let f = lift1 (\<lambda>v. fmul v (of_int SIDE)) (lift1 (\<lambda>v. fdiv v width) (lift1 (\<lambda>v. fadd v shift) deg));
          x = lift1 (\<lambda>v. word_of_int (py_int v) :: 64 word) f;
          lo = lift1 (\<lambda>v. if v \<le>s word_of_int MAXCOORD then v else word_of_int MAXCOORD) x
      in lift1 (\<lambda>v. if v <s 0 then 0 else v) lo)"

definition vec_deg_to_xy :: "rat option \<Rightarrow> rat option \<Rightarrow> 64 word option \<times> 64 word option" where
  "vec_deg_to_xy lon_deg lat_deg = (vec_axis 180 360 lon_deg, vec_axis 90 180 lat_deg)"

text \<open>\<open>cast(.., float64)\<close> is a safe cast: it raises where an integer has more than 53 bits.\<close>

definition vec_float64 :: "64 word option \<Rightarrow> rat option result" where
  "vec_float64 e7 =
     (case e7 of
        None \<Rightarrow> Inr None
      | Some w \<Rightarrow> if - (2 ^ 53) \<le> sint w \<and> sint w \<le> 2 ^ 53 then Inr (Some (fl (of_int (sint w)))) else Inl ValueError)"

definition vec_deg :: "64 word option \<Rightarrow> rat option result" where
  "vec_deg e7 = rbind (vec_float64 e7) (\<lambda>f. Inr (lift1 (\<lambda>v. fdiv v 10000000) f))"

definition vec_lonlat_to_xy :: "64 word option \<Rightarrow> 64 word option \<Rightarrow> (64 word option \<times> 64 word option) result" where
  "vec_lonlat_to_xy lon_e7 lat_e7 =
     rbind (vec_deg lon_e7) (\<lambda>lon_deg. rbind (vec_deg lat_e7) (\<lambda>lat_deg. Inr (vec_deg_to_xy lon_deg lat_deg)))"

function vec_xy2d_loop :: "int \<Rightarrow> 64 word option \<Rightarrow> 64 word option \<Rightarrow> 64 word option \<Rightarrow> 64 word option" where
  "vec_xy2d_loop s x y d =
     (if 0 < s then
        let rx = lift1 (\<lambda>v. if 0 <s (v AND word_of_int s) then 1 else 0 :: 64 word) x;
            ry = lift1 (\<lambda>v. if 0 <s (v AND word_of_int s) then 1 else 0 :: 64 word) y;
            d = lift2 (+) d (lift1 (\<lambda>v. word_of_int (s * s) * v) (lift2 (XOR) (lift1 (\<lambda>v. 3 * v) rx) ry));
            neg = lift2 (\<and>) (lift1 (\<lambda>v. v = 0) ry) (lift1 (\<lambda>v. v = 1) rx);
            x2 = if_else neg (lift1 (\<lambda>v. word_of_int (SIDE - 1) - v) x) x;
            y2 = if_else neg (lift1 (\<lambda>v. word_of_int (SIDE - 1) - v) y) y;
            swap = lift1 (\<lambda>v. v = 0) ry
        in vec_xy2d_loop (s div 2) (if_else swap y2 x) (if_else swap x2 y) d
      else d)"
  by pat_completeness auto

termination
  by (relation "measure (\<lambda>(s, x, y, d). nat s)") auto

declare vec_xy2d_loop.simps [simp del]

definition vec_xy2d :: "64 word option \<Rightarrow> 64 word option \<Rightarrow> 64 word option" where
  "vec_xy2d x y = vec_xy2d_loop (SIDE div 2) x y (lift1 (\<lambda>v. v * 0) x)"

text \<open>The cast to unsigned checks its argument; an index is never negative.\<close>

definition vec_hilbert_from_xy :: "64 word option \<Rightarrow> 64 word option \<Rightarrow> 64 word option result" where
  "vec_hilbert_from_xy x y =
     (case vec_xy2d x y of Some w \<Rightarrow> if w <s 0 then Inl ValueError else Inr (Some w) | None \<Rightarrow> Inr None)"

definition vec_node_hilbert :: "64 word option \<Rightarrow> 64 word option \<Rightarrow> 64 word option result" where
  "vec_node_hilbert lon_e7 lat_e7 = rbind (vec_lonlat_to_xy lon_e7 lat_e7) (\<lambda>(x, y). vec_hilbert_from_xy x y)"

definition vec_center :: "64 word option \<Rightarrow> 64 word option \<Rightarrow> rat option result" where
  "vec_center lo hi =
     rbind (vec_float64 lo) (\<lambda>a. rbind (vec_float64 hi) (\<lambda>b. Inr (lift1 (\<lambda>v. fdiv v (fmul 2 10000000)) (lift2 fadd a b))))"

definition vec_bbox_hilbert :: "64 word option \<Rightarrow> 64 word option \<Rightarrow> 64 word option \<Rightarrow> 64 word option \<Rightarrow> 64 word option result" where
  "vec_bbox_hilbert xmin_e7 ymin_e7 xmax_e7 ymax_e7 =
     rbind (vec_center xmin_e7 xmax_e7) (\<lambda>lon_deg. rbind (vec_center ymin_e7 ymax_e7) (\<lambda>lat_deg.
       let (x, y) = vec_deg_to_xy lon_deg lat_deg in vec_hilbert_from_xy x y))"

section \<open>The curve\<close>

text \<open>The Hilbert curve of order \<open>k\<close>: the index of a cell, and the cell of an index.\<close>

definition quad :: "int \<Rightarrow> int \<Rightarrow> int" where
  "quad rx ry = (if rx = 0 then (if ry = 0 then 0 else 1) else (if ry = 0 then 3 else 2))"

primrec hil :: "nat \<Rightarrow> int \<Rightarrow> int \<Rightarrow> int" where
  "hil 0 x y = 0"
| "hil (Suc k) x y =
     (let s = 2 ^ k; rx = x div s; ry = y div s; u = x mod s; v = y mod s
      in s * s * quad rx ry +
         (if ry = 0 then (if rx = 0 then hil k v u else hil k (s - 1 - v) (s - 1 - u)) else hil k u v))"

primrec unhil :: "nat \<Rightarrow> int \<Rightarrow> int \<times> int" where
  "unhil 0 d = (0, 0)"
| "unhil (Suc k) d =
     (let s = 2 ^ k; q = d div (s * s); (u, v) = unhil k (d mod (s * s))
      in if q = 0 then (v, u) else if q = 1 then (u, v + s) else if q = 2 then (u + s, v + s) else (2 * s - 1 - v, s - 1 - u))"

end
