(* ===== verification/Hilbert_Correct.thy ===== *)
theory Hilbert_Correct
  imports Hilbert
begin

unbundle bit_operations_syntax

text \<open>
  The loops compute the Hilbert curve: the index is a bijection between the cells of the grid
  and the numbers below \<open>4 ^ order\<close>, and consecutive indexes are neighbouring cells. The
  vectorised versions agree with the scalar one.
\<close>

section \<open>The curve\<close>

lemma quad_bounds: "0 \<le> quad a b" "quad a b \<le> 3"
  by (auto simp: quad_def)

lemma two_four: "(2 :: int) ^ k * 2 ^ k = 4 ^ k"
  by (simp flip: power_mult_distrib)

lemma hil_bounds: "0 \<le> hil k x y" "hil k x y < 4 ^ k"
proof (induction k arbitrary: x y)
  case (Suc k)
  { case 1 then show ?case using Suc.IH(1) quad_bounds(1) by (simp add: Let_def) }
  { case 2
    have "(4 :: int) ^ k * quad a b \<le> 4 ^ k * 3" for a b using quad_bounds(2) by (intro mult_left_mono) auto
    then have "(4 :: int) ^ k * quad a b + hil k u v < 4 * 4 ^ k" for a b u v
      using Suc.IH(2) [of u v] add_le_less_mono [of "4 ^ k * quad a b" "4 ^ k * 3" "hil k u v" "4 ^ k"] by simp
    then show ?case by (simp add: Let_def two_four) }
qed simp_all

definition in_grid :: "nat \<Rightarrow> int \<times> int \<Rightarrow> bool" where
  "in_grid k p \<longleftrightarrow> 0 \<le> fst p \<and> fst p < 2 ^ k \<and> 0 \<le> snd p \<and> snd p < 2 ^ k"

lemma unhil_in_grid: "in_grid k (unhil k d)"
proof (induction k arbitrary: d)
  case (Suc k)
  obtain u v where uv: "unhil k (d mod (2 ^ k * 2 ^ k)) = (u, v)" by fastforce
  then have "in_grid k (u, v)" using Suc [of "d mod (2 ^ k * 2 ^ k)"] by simp
  then show ?case by (auto simp: in_grid_def Let_def uv)
qed (simp add: in_grid_def)

text \<open>Splitting a number below \<open>2 s\<close> (or \<open>4 s\<close>) into its digit and its rest.\<close>

lemma digit_rest: "0 \<le> r \<Longrightarrow> r < (s :: int) \<Longrightarrow> (s * q + r) div s = q \<and> (s * q + r) mod s = r"
  by simp

lemma half_cases:
  assumes "0 \<le> x" and "x < 2 * (s :: int)" and "0 < s"
  shows "(x div s = 0 \<and> x mod s = x \<and> x < s) \<or> (x div s = 1 \<and> x mod s = x - s \<and> s \<le> x)"
proof (cases "x < s")
  case False
  then have "(s * 1 + (x - s)) div s = 1 \<and> (s * 1 + (x - s)) mod s = x - s" using assms by (intro digit_rest) auto
  then show ?thesis using False by simp
qed (use assms in simp)

lemma div_below: "0 < b \<Longrightarrow> a < c * b \<Longrightarrow> a div b < (c :: int)"
  using int_le_div_iff [of b c a] by linarith

lemma unhil_hil:
  assumes "in_grid k (x, y)"
  shows "unhil k (hil k x y) = (x, y)"
  using assms
proof (induction k arbitrary: x y)
  case (Suc k)
  let ?s = "(2 :: int) ^ k"
  have xy: "0 \<le> x" "x < 2 * ?s" "0 \<le> y" "y < 2 * ?s" using Suc.prems by (auto simp: in_grid_def)
  have d: "(?s * ?s * q + hil k u v) div (?s * ?s) = q \<and> (?s * ?s * q + hil k u v) mod (?s * ?s) = hil k u v" for q u v
    using hil_bounds [of k u v] by (intro digit_rest) (simp_all add: two_four)
  note dd = d [THEN conjunct1] d [THEN conjunct2]
  have IH: "unhil k (hil k u v) = (u, v)" if "0 \<le> u" "u < ?s" "0 \<le> v" "v < ?s" for u v
    using Suc.IH that by (simp add: in_grid_def)
  show ?case
    using half_cases [OF xy(1,2)] half_cases [OF xy(3,4)] xy
    by (auto simp: Let_def quad_def dd [of 0, simplified] dd [of 1, simplified] dd [of 2, simplified] dd [of 3, simplified] IH)
qed (simp add: in_grid_def)

lemma split_digit: "0 < m \<Longrightarrow> \<exists>q r. (d :: int) = m * q + r \<and> 0 \<le> r \<and> r < m"
  by (intro exI [of _ "d div m"] exI [of _ "d mod m"]) simp

lemma hil_unhil:
  assumes "0 \<le> d" and "d < 4 ^ k"
  shows "hil k (fst (unhil k d)) (snd (unhil k d)) = d"
  using assms
proof (induction k arbitrary: d)
  case (Suc k)
  let ?s = "(2 :: int) ^ k"
  obtain q r where e: "d = ?s * ?s * q + r" and r: "0 \<le> r" "r < ?s * ?s" using split_digit [of "?s * ?s" d] by auto
  note dq = digit_rest [OF r, of q]
  obtain u v where uv: "unhil k r = (u, v)" by fastforce
  have IH: "hil k u v = r" using Suc.IH [of r] r uv by (simp add: two_four)
  have g: "0 \<le> u" "u < ?s" "0 \<le> v" "v < ?s" using unhil_in_grid [of k r] uv by (auto simp: in_grid_def)
  have q: "0 \<le> q" "q < 4"
    using Suc.prems div_below [of "4 ^ k" d 4] dq pos_imp_zdiv_nonneg_iff [of "4 ^ k" d] by (simp_all add: two_four e)
  have m: "(u + ?s) div ?s = 1" "(u + ?s) mod ?s = u" "(v + ?s) div ?s = 1" "(v + ?s) mod ?s = v"
    using g digit_rest [of u ?s 1] digit_rest [of v ?s 1] by (simp_all add: add.commute)
  have f: "(2 * ?s - 1 - v) div ?s = 1" "(2 * ?s - 1 - v) mod ?s = ?s - 1 - v"
    using g digit_rest [of "?s - 1 - v" ?s 1] by (simp_all add: algebra_simps)
  have n: "(?s - 1 - u) div ?s = 0" "(?s - 1 - u) mod ?s = ?s - 1 - u" using g by simp_all
  consider "q = 0" | "q = 1" | "q = 2" | "q = 3" using q by linarith
  then show ?case
    unfolding e by cases (use g dq m f n IH in \<open>simp_all add: Let_def uv quad_def\<close>)
qed simp

section \<open>Neighbours\<close>

definition near :: "int \<times> int \<Rightarrow> int \<times> int \<Rightarrow> bool" where
  "near p q \<longleftrightarrow> \<bar>fst p - fst q\<bar> + \<bar>snd p - snd q\<bar> = 1"

lemma unhil_first: "unhil k 0 = (0, 0)"
  by (induction k) (simp_all add: Let_def)

lemma unhil_last: "unhil k (4 ^ k - 1) = (2 ^ k - 1, 0)"
proof (induction k)
  case (Suc k)
  let ?s = "(2 :: int) ^ k"
  have "(4 :: int) ^ Suc k - 1 = ?s * ?s * 3 + (?s * ?s - 1)" by (simp add: two_four)
  then have "((4 :: int) ^ Suc k - 1) div (?s * ?s) = 3 \<and> (4 ^ Suc k - 1) mod (?s * ?s) = ?s * ?s - 1"
    using digit_rest [of "?s * ?s - 1" "?s * ?s" 3] by (simp add: two_four)
  then show ?case using Suc by (simp add: Let_def two_four)
qed simp

lemma unhil_near:
  assumes "0 \<le> d" and "d + 1 < 4 ^ k"
  shows "near (unhil k d) (unhil k (d + 1))"
  using assms
proof (induction k arbitrary: d)
  case (Suc k)
  let ?m = "(4 :: int) ^ k"
  obtain q r where e: "d = ?m * q + r" and r: "0 \<le> r" "r < ?m" using split_digit [of ?m d] by auto
  note dq = digit_rest [OF r, of q, folded e]
  have q: "0 \<le> q" "q < 4" using Suc.prems dq div_below [of ?m d 4] pos_imp_zdiv_nonneg_iff [of ?m d] by simp_all
  show ?case
  proof (cases "r + 1 < ?m")
    case True
    have d1: "(d + 1) div ?m = q" "(d + 1) mod ?m = r + 1"
      using digit_rest [of "r + 1" ?m q] r True by (simp_all add: e add.assoc)
    obtain u v u' v' where uv: "unhil k r = (u, v)" "unhil k (r + 1) = (u', v')" by fastforce
    have "near (u, v) (u', v')" using Suc.IH [OF r(1) True] uv by simp
    then show ?thesis using dq by (auto simp: near_def Let_def two_four d1 uv)
  next
    case False
    then have rm: "r = ?m - 1" using r by linarith
    then have "d + 1 = ?m * (q + 1) + 0" using e by (simp add: distrib_left)
    then have d1: "(d + 1) div ?m = q + 1" "(d + 1) mod ?m = 0"
      using digit_rest [of 0 ?m "q + 1"] by simp_all
    have "q \<noteq> 3"
    proof
      assume "q = 3"
      then have "d + 1 = 4 * ?m" using e rm by simp
      then show False using Suc.prems by simp
    qed
    then consider "q = 0" | "q = 1" | "q = 2" using q by linarith
    then show ?thesis
      by cases (use dq in \<open>simp_all add: near_def Let_def two_four d1 rm unhil_first unhil_last\<close>)
  qed
qed simp

section \<open>The scalar loops\<close>

lemma and_pow: "0 < x AND 2 ^ k \<longleftrightarrow> (x :: int) mod 2 ^ Suc k div 2 ^ k = 1"
proof -
  have d: "x mod 2 ^ Suc k div 2 ^ k = x div 2 ^ k mod 2"
    using drop_bit_take_bit [of k "Suc k" x] by (simp add: drop_bit_eq_div take_bit_eq_mod)
  have "x AND 2 ^ k = (if bit x k then 2 ^ k else 0)"
    by (rule bit_eqI) (auto simp: bit_simps)
  then show ?thesis unfolding d by (simp add: mod_2_eq_odd bit_iff_odd)
qed

lemma xor_quad:
  "rx = 0 \<or> rx = 1 \<Longrightarrow> ry = 0 \<or> ry = 1 \<Longrightarrow> (3 * rx) XOR ry = quad rx (ry :: int)"
  by (auto simp: quad_def)

lemma flip_mod: "k \<le> m \<Longrightarrow> (2 ^ m - 1 - x) mod 2 ^ k = 2 ^ k - 1 - (x :: int) mod 2 ^ k"
proof -
  assume "k \<le> m"
  then obtain c where c: "(2 :: int) ^ m = 2 ^ k * c" by (metis dvdE le_imp_power_dvd)
  have "2 ^ m - 1 - x = 2 ^ k * (c - 1 - x div 2 ^ k) + (2 ^ k - 1 - x mod 2 ^ k)"
    unfolding c using div_mult_mod_eq [of x "2 ^ k"] by (simp add: algebra_simps)
  moreover have "0 \<le> 2 ^ k - 1 - x mod 2 ^ k" "2 ^ k - 1 - x mod 2 ^ k < 2 ^ k"
    using pos_mod_bound [of "2 ^ k" x] pos_mod_sign [of "2 ^ k" x] zero_less_power [of "2 :: int" k] by linarith+
  ultimately show ?thesis using digit_rest by metis
qed

lemma hilbert_loop_step:
  assumes "0 < s"
  shows "hilbert_loop n s x y d =
    (if 0 < y AND s
     then hilbert_loop n (s div 2) x y (d + s * s * (if 0 < x AND s then 2 else 1))
     else if 0 < x AND s then hilbert_loop n (s div 2) (n - 1 - y) (n - 1 - x) (d + s * s * 3)
     else hilbert_loop n (s div 2) y x d)"
  using assms by (subst hilbert_loop.simps) (simp add: Let_def)

lemma hilbert_loop_hil:
  "k \<le> m \<Longrightarrow> hilbert_loop (2 ^ m) (2 ^ k div 2) x y d = d + hil k (x mod 2 ^ k) (y mod 2 ^ k)"
proof (induction k arbitrary: x y d)
  case 0
  then show ?case by (simp add: hilbert_loop.simps)
next
  case (Suc k)
  have IH: "hilbert_loop (2 ^ m) (2 ^ k div 2) x y d = d + hil k (x mod 2 ^ k) (y mod 2 ^ k)" for x y d
    using Suc by simp
  have m: "z mod 2 ^ Suc k mod 2 ^ k = z mod 2 ^ k" for z :: int
    by (simp add: mod_mod_cancel)
  have b: "z mod 2 ^ Suc k div 2 ^ k = 0 \<or> z mod 2 ^ Suc k div 2 ^ k = 1" for z :: int
    using half_cases [of "z mod 2 ^ Suc k" "2 ^ k"] by auto
  have s: "(2 :: int) ^ Suc k div 2 = 2 ^ k" by simp
  have f: "(2 ^ m - 1 - z) mod 2 ^ k = 2 ^ k - 1 - z mod 2 ^ k" for z :: int using flip_mod Suc.prems by simp
  show ?case
    unfolding s hilbert_loop_step [OF zero_less_power [OF zero_less_numeral]] and_pow IH f hil.simps(2) Let_def m
    using b [of x] b [of y] by (elim disjE) (simp_all del: power_Suc add: quad_def)
qed

lemma xy2d_loop_step:
  assumes "0 < s"
  shows "xy2d_loop n s x y d =
    (if 0 < y AND s
     then xy2d_loop n (s div 2) x y (d + s * s * (if 0 < x AND s then 2 else 1))
     else if 0 < x AND s then xy2d_loop n (s div 2) (n - 1 - y) (n - 1 - x) (d + s * s * 3)
     else xy2d_loop n (s div 2) y x d)"
  using assms by (subst xy2d_loop.simps) (simp add: Let_def rot_def)

lemma xy2d_loop_eq: "xy2d_loop n s x y d = hilbert_loop n s x y d"
proof (induction "nat s" arbitrary: s x y d rule: less_induct)
  case less
  show ?case
  proof (cases "0 < s")
    case True
    then show ?thesis using less [of "s div 2"] by (simp add: xy2d_loop_step hilbert_loop_step)
  qed (simp add: xy2d_loop.simps hilbert_loop.simps)
qed

lemma hilbert_xy2d_hil: "hilbert_xy2d order x y = hil order (x mod 2 ^ order) (y mod 2 ^ order)"
  using hilbert_loop_hil [of order order x y 0] by (simp add: hilbert_xy2d_def push_bit_eq_mult Let_def)

lemma xy2d_eq: "xy2d order x y = hilbert_xy2d order x y"
  by (simp add: xy2d_def hilbert_xy2d_def xy2d_loop_eq)

section \<open>The vectorised loops\<close>

lemma sint_small: "- (2 ^ 63) \<le> i \<Longrightarrow> i < 2 ^ 63 \<Longrightarrow> sint (word_of_int i :: 64 word) = i"
  by (simp add: signed_of_int signed_take_bit_int_eq_self)

lemma word_and_pos:
  assumes "0 \<le> s" and "s < 2 ^ 63"
  shows "0 <s (word_of_int x AND word_of_int s :: 64 word) \<longleftrightarrow> 0 < x AND s"
proof -
  have "x AND s \<le> s" "0 \<le> x AND s" using assms AND_upper2 [of s x] by simp_all
  then have "sint (word_of_int (x AND s) :: 64 word) = x AND s" using assms by (intro sint_small) linarith+
  then show ?thesis by (simp add: word_sless_alt of_int_and_eq)
qed

lemma np_loop_step:
  assumes "0 < s"
  shows "hilbert_np_loop n s x y d =
    (if 0 <s (y AND word_of_int s)
     then hilbert_np_loop n (s div 2) x y (d + word_of_int (s * s) * (if 0 <s (x AND word_of_int s) then 2 else 1))
     else if 0 <s (x AND word_of_int s)
     then hilbert_np_loop n (s div 2) (word_of_int n - 1 - y) (word_of_int n - 1 - x) (d + word_of_int (s * s) * 3)
     else hilbert_np_loop n (s div 2) y x d)"
  using assms by (subst hilbert_np_loop.simps) (simp add: Let_def)

lemma np_loop_eq:
  "s < 2 ^ 63 \<Longrightarrow>
   hilbert_np_loop n s (word_of_int x) (word_of_int y) (word_of_int d) = word_of_int (hilbert_loop n s x y d)"
proof (induction "nat s" arbitrary: s x y d rule: less_induct)
  case less
  show ?case
  proof (cases "0 < s")
    case True
    have IH: "hilbert_np_loop n (s div 2) (word_of_int x) (word_of_int y) (word_of_int d) =
        word_of_int (hilbert_loop n (s div 2) x y d)" for x y d
      using less.hyps [of "s div 2"] less.prems True by simp
    show ?thesis
      using True less.prems
      by (simp add: np_loop_step hilbert_loop_step word_and_pos IH [symmetric])
  qed (simp add: hilbert_loop.simps hilbert_np_loop.simps)
qed

lemma vec_loop_step:
  assumes "0 < s"
  shows "vec_xy2d_loop s (Some x) (Some y) (Some d) =
    (if 0 <s (y AND word_of_int s)
     then vec_xy2d_loop (s div 2) (Some x) (Some y) (Some (d + word_of_int (s * s) * (if 0 <s (x AND word_of_int s) then 2 else 1)))
     else if 0 <s (x AND word_of_int s)
     then vec_xy2d_loop (s div 2) (Some (word_of_int (SIDE - 1) - y)) (Some (word_of_int (SIDE - 1) - x)) (Some (d + word_of_int (s * s) * 3))
     else vec_xy2d_loop (s div 2) (Some y) (Some x) (Some d))"
  using assms by (subst vec_xy2d_loop.simps) (simp add: Let_def lift1_def lift2_def if_else_def)

lemma vec_loop_eq: "vec_xy2d_loop s (Some x) (Some y) (Some d) = Some (hilbert_np_loop SIDE s x y d)"
proof (induction "nat s" arbitrary: s x y d rule: less_induct)
  case less
  show ?case
  proof (cases "0 < s")
    case True
    have w: "word_of_int (SIDE - 1) - v = word_of_int SIDE - 1 - v" for v :: "64 word" by simp
    show ?thesis using less [of "s div 2"] True by (simp add: vec_loop_step np_loop_step w del: of_int_diff)
  qed (simp add: vec_xy2d_loop.simps hilbert_np_loop.simps)
qed

lemma vec_loop_null: "vec_xy2d_loop s x y None = None"
proof (induction "nat s" arbitrary: s x y rule: less_induct)
  case less
  then show ?case by (subst vec_xy2d_loop.simps) (simp add: Let_def lift2_def)
qed

lemma SIDE_eq: "SIDE = 2 ^ 20" "push_bit ORDER (1 :: int) = 2 ^ 20"
  by (simp_all add: SIDE_def ORDER_def push_bit_eq_mult)

lemma vec_xy2d_null: "vec_xy2d None y = None" "vec_xy2d x None = None"
proof -
  show "vec_xy2d None y = None" by (simp add: vec_xy2d_def lift1_def vec_loop_null)
  show "vec_xy2d x None = None"
    unfolding vec_xy2d_def by (subst vec_xy2d_loop.simps) (simp add: Let_def lift1_def lift2_def vec_loop_null SIDE_eq)
qed

lemma vec_xy2d_eq: "vec_xy2d (Some (word_of_int x)) (Some (word_of_int y)) = Some (word_of_int (hilbert_xy2d ORDER x y))"
  using np_loop_eq [of "SIDE div 2" SIDE x y 0]
  by (simp add: vec_xy2d_def lift1_def vec_loop_eq hilbert_xy2d_def Let_def SIDE_eq ORDER_def)

lemma vec_hilbert_eq:
  "vec_hilbert_from_xy (Some (word_of_int x)) (Some (word_of_int y)) = Inr (Some (word_of_int (hilbert_xy2d ORDER x y)))"
proof -
  let ?h = "hilbert_xy2d ORDER x y"
  have "0 \<le> ?h" "?h < 4 ^ 20" using hil_bounds [of 20] by (simp_all add: hilbert_xy2d_hil ORDER_def)
  then have "sint (word_of_int ?h :: 64 word) = ?h" by (intro sint_small) simp_all
  then show ?thesis using \<open>0 \<le> ?h\<close> by (simp add: vec_hilbert_from_xy_def vec_xy2d_eq word_sless_alt)
qed

section \<open>The grid\<close>

lemma fl_abs_le: "is_double m \<Longrightarrow> \<bar>x\<bar> \<le> m \<Longrightarrow> \<bar>fl x\<bar> \<le> m"
  using fl_le_double [of m x] fl_ge_double [of "- m" x] is_double_minus [of m] by (simp add: abs_le_iff)

lemma is_double_pow: "k \<le> 970 \<Longrightarrow> is_double (2 ^ k)"
  unfolding is_double_def by (intro exI [of _ 1] exI [of _ "int k"]) (simp add: power_int_def)

definition axis_value :: "rat \<Rightarrow> rat \<Rightarrow> rat" where
  "axis_value shift v = fmul (fdiv (fadd v shift) (2 * shift)) (2 ^ 20)"

lemma axis_value_bound:
  assumes "\<bar>v\<bar> \<le> 2 ^ 40" and "shift = 90 \<or> shift = 180"
  shows "\<bar>axis_value shift v\<bar> \<le> 2 ^ 61"
proof -
  have "\<bar>fadd v shift\<bar> \<le> 2 ^ 41" unfolding fadd_def using assms by (intro fl_abs_le is_double_pow) auto
  then have "\<bar>fdiv (fadd v shift) (2 * shift)\<bar> \<le> 2 ^ 41" unfolding fdiv_def using assms(2)
    by (intro fl_abs_le is_double_pow) (auto simp: abs_le_iff)
  then show ?thesis unfolding axis_value_def fmul_def by (intro fl_abs_le is_double_pow) (auto simp: abs_le_iff)
qed

lemma py_int_bound: "\<bar>x\<bar> \<le> of_int m \<Longrightarrow> \<bar>py_int x\<bar> \<le> m"
  by (auto simp: py_int_def abs_le_iff) linarith+

lemma vec_axis_eq:
  assumes "\<bar>v\<bar> \<le> 2 ^ 40" and "shift = 90 \<or> shift = 180"
  shows "vec_axis shift (2 * shift) (Some v) = Some (word_of_int (max 0 (min MAXCOORD (py_int (axis_value shift v)))))"
proof -
  let ?i = "py_int (axis_value shift v)"
  have "\<bar>?i\<bar> \<le> 2 ^ 61" using axis_value_bound [OF assms] by (intro py_int_bound) simp
  then have i: "sint (word_of_int ?i :: 64 word) = ?i" by (intro sint_small) (simp_all add: abs_le_iff)
  have m: "sint (word_of_int MAXCOORD :: 64 word) = MAXCOORD" by (rule sint_small) (simp_all add: MAXCOORD_def SIDE_eq)
  have av: "fmul (fdiv (fadd v shift) (2 * shift)) (of_int SIDE) = axis_value shift v" by (simp add: axis_value_def SIDE_eq)
  have "0 \<le> MAXCOORD" by (simp add: MAXCOORD_def SIDE_eq)
  then show ?thesis
    using i m by (auto simp: vec_axis_def lift1_def Let_def av word_sle_eq word_sless_alt min_def max_def)
qed

section \<open>Agreement\<close>

lemma grid_axis:
  "fmul (fdiv (fadd v 180) 360) (of_int SIDE) = axis_value 180 v" "fmul (fdiv (fadd v 90) 180) (of_int SIDE) = axis_value 90 v"
  "fmul (fdiv (fadd v 180) 360) (of_int (push_bit ORDER 1)) = axis_value 180 v"
  "fmul (fdiv (fadd v 90) 180) (of_int (push_bit ORDER 1)) = axis_value 90 v"
  by (simp_all add: axis_value_def SIDE_def ORDER_def push_bit_eq_mult)

lemma clip_swap: "max 0 (min MAXCOORD x) = np_clip x 0 (2 ^ 20 - 1)"
  by (simp add: np_clip_def MAXCOORD_def SIDE_eq)

lemma hilbert_grid_eq:
  "hilbert_grid_xy lat_e7 lon_e7 =
     (np_clip (py_int (axis_value 180 (e7_deg lon_e7))) 0 (2 ^ 20 - 1), np_clip (py_int (axis_value 90 (e7_deg lat_e7))) 0 (2 ^ 20 - 1))"
  unfolding hilbert_grid_xy_def Let_def e7_deg_def [symmetric] grid_axis by (simp add: np_clip_def ORDER_def)

lemma hilbert_keys1_eq: "hilbert_keys1 lat_e7 lon_e7 = word_of_int (hilbert_key (sint lat_e7) (sint lon_e7))"
proof -
  have "hilbert_keys1 lat_e7 lon_e7 = word_of_int (hilbert_xy2d ORDER
      (np_clip \<lfloor>axis_value 180 (e7_deg (sint lon_e7))\<rfloor> 0 (2 ^ 20 - 1))
      (np_clip \<lfloor>axis_value 90 (e7_deg (sint lat_e7))\<rfloor> 0 (2 ^ 20 - 1)))"
    unfolding hilbert_keys1_def Let_def e7_deg_def [symmetric] grid_axis hilbert_xy2d_def SIDE_eq(2)
    using np_loop_eq [of "2 ^ 20 div 2" "2 ^ 20" _ _ 0] by (simp add: axis_value_def)
  then show ?thesis by (simp add: hilbert_key_def hilbert_grid_eq py_int_clip)
qed

definition int64 :: "int \<Rightarrow> bool" where
  "int64 v \<longleftrightarrow> - (2 ^ 63) \<le> v \<and> v < 2 ^ 63"

lemma sint_int64: "int64 v \<Longrightarrow> sint (word_of_int v :: 64 word) = v"
  by (auto intro!: sint_small simp: int64_def)

lemma rmap_as_int64:
  "rmap (\<lambda>r. as_int64 (f r)) rows = (if list_all (\<lambda>r. int64 (f r)) rows then Inr (map (\<lambda>r. word_of_int (f r)) rows)
     else Inl OverflowError)"
  by (induction rows) (auto simp: as_int64_def int64_def)

lemma hilbert_keys_eq:
  "hilbert_keys rows =
     (if list_all (\<lambda>(lat, lon). int64 lat \<and> int64 lon) rows
      then Inr (map (\<lambda>(lat, lon). word_of_int (hilbert_key lat lon)) rows) else Inl OverflowError)"
proof -
  have k: "hilbert_keys rows = (if list_all (\<lambda>r. int64 (fst r)) rows \<and> list_all (\<lambda>r. int64 (snd r)) rows
      then Inr (map (\<lambda>r. hilbert_keys1 (word_of_int (fst r)) (word_of_int (snd r))) rows) else Inl OverflowError)"
    unfolding hilbert_keys_def case_prod_unfold rmap_as_int64 by (simp add: zip_map_fst_snd zip_map_map case_prod_unfold zip_same_conv_map)
  have "hilbert_keys1 (word_of_int (fst r)) (word_of_int (snd r)) = word_of_int (hilbert_key (fst r) (snd r))"
    if "int64 (fst r)" "int64 (snd r)" for r
    using that by (simp add: hilbert_keys1_eq sint_int64)
  then show ?thesis unfolding k by (auto simp: list_all_iff case_prod_beta)
qed

lemma lonlat_eq: "lonlat_to_xy lon lat = (max 0 (min MAXCOORD (py_int (axis_value 180 lon))), max 0 (min MAXCOORD (py_int (axis_value 90 lat))))"
  unfolding lonlat_to_xy_def Let_def grid_axis ..

lemma e7_to_hilbert_eq: "e7_to_hilbert lon_e7 lat_e7 = hilbert_key lat_e7 lon_e7"
  by (simp add: e7_to_hilbert_def lonlat_to_hilbert_def lonlat_eq clip_swap hilbert_key_def hilbert_grid_eq xy2d_eq flip: e7_deg_def)

lemma vec_deg_hilbert:
  assumes "\<bar>lon\<bar> \<le> 2 ^ 40" and "\<bar>lat\<bar> \<le> 2 ^ 40"
  shows "(let (x, y) = vec_deg_to_xy (Some lon) (Some lat) in vec_hilbert_from_xy x y) = Inr (Some (word_of_int (lonlat_to_hilbert lon lat)))"
  using vec_axis_eq [OF assms(1), of 180] vec_axis_eq [OF assms(2), of 90]
  by (simp add: vec_deg_to_xy_def vec_hilbert_eq lonlat_to_hilbert_def lonlat_eq xy2d_eq)

lemma e7_deg_bound: "\<bar>e7_deg (sint (w :: 64 word))\<bar> \<le> 2 ^ 40"
proof -
  have "- (2 ^ 63) \<le> sint w" "sint w < 2 ^ 63" using sint_ge [of w] sint_lt [of w] by simp_all
  then have "\<bar>sint w\<bar> \<le> 2 ^ 63" by linarith
  then have "\<bar>of_int (sint w) :: rat\<bar> \<le> of_int (2 ^ 63)" unfolding of_int_abs [symmetric] by (rule of_int_le_iff [THEN iffD2])
  then have "\<bar>fl (of_int (sint w))\<bar> \<le> 2 ^ 63" by (intro fl_abs_le is_double_pow) simp_all
  then show ?thesis unfolding e7_deg_def fdiv_def by (intro fl_abs_le is_double_pow) (auto simp: abs_le_iff)
qed

text \<open>The safe cast to double, and the key of a pair of coordinates or nulls.\<close>

definition cast_ok :: "64 word option \<Rightarrow> bool" where
  "cast_ok e7 \<longleftrightarrow> (case e7 of None \<Rightarrow> True | Some w \<Rightarrow> \<bar>sint w\<bar> \<le> 2 ^ 53)"

lemma vec_float64_eq:
  "vec_float64 e7 = (if cast_ok e7 then Inr (map_option (\<lambda>w. fl (of_int (sint w))) e7) else Inl ValueError)"
  by (auto simp: vec_float64_def cast_ok_def abs_le_iff split: option.splits)

lemma vec_deg_eq:
  "vec_deg e7 = (if cast_ok e7 then Inr (map_option (\<lambda>w. e7_deg (sint w)) e7) else Inl ValueError)"
  by (cases e7) (simp_all add: vec_deg_def vec_float64_eq lift1_def e7_deg_def)

lemma vec_node_hilbert_eq:
  "vec_node_hilbert lon lat =
     (if cast_ok lon \<and> cast_ok lat
      then Inr (case (lon, lat) of (Some a, Some b) \<Rightarrow> Some (word_of_int (e7_to_hilbert (sint a) (sint b))) | _ \<Rightarrow> None)
      else Inl ValueError)"
proof -
  have some: "(\<lambda>(x, y). vec_hilbert_from_xy x y) (vec_deg_to_xy (Some (e7_deg (sint a))) (Some (e7_deg (sint b)))) =
      Inr (Some (word_of_int (e7_to_hilbert (sint a) (sint b))))" for a b :: "64 word"
    using vec_deg_hilbert [OF e7_deg_bound e7_deg_bound, of a b] by (simp add: e7_to_hilbert_def e7_deg_def Let_def)
  have null: "(\<lambda>(x, y). vec_hilbert_from_xy x y) (vec_deg_to_xy None l) = Inr None"
    "(\<lambda>(x, y). vec_hilbert_from_xy x y) (vec_deg_to_xy l None) = Inr None" for l
    by (simp_all add: vec_deg_to_xy_def vec_axis_def lift1_def Let_def vec_hilbert_from_xy_def vec_xy2d_null)
  show ?thesis
    using some null by (cases lon; cases lat) (simp_all add: vec_node_hilbert_def vec_lonlat_to_xy_def vec_deg_eq)
qed

lemma center_eq:
  assumes "int32 a" and "int32 b"
  shows "vec_center (Some (word_of_int a)) (Some (word_of_int b)) = Inr (Some (fdiv (fdiv (fl (of_int (a + b))) 2) 10000000))"
    and "\<bar>fdiv (fdiv (fl (of_int (a + b))) 2) 10000000\<bar> \<le> 2 ^ 40"
proof -
  have ab: "\<bar>a\<bar> \<le> 2 ^ 31" "\<bar>b\<bar> \<le> 2 ^ 31" using assms by (auto simp: int32_def abs_le_iff)
  have s: "sint (word_of_int a :: 64 word) = a" "sint (word_of_int b :: 64 word) = b"
    using ab by (auto intro!: sint_small simp: abs_le_iff)
  have s2: "\<bar>a + b\<bar> < 2 ^ 53" using ab abs_triangle_ineq [of a b] by simp
  have h: "fl (of_int (a + b) / 2) = of_int (a + b) / 2" using is_doubleI [OF s2, of 1] by (intro fl_exact) (simp only: power_one_right)
  have d: "fl (of_int a) = of_int a" "fl (of_int b) = of_int b" "fl (of_int (a + b)) = of_int (a + b)" "fl 20000000 = 20000000"
    using ab s2 is_double_int [of a] is_double_int [of b] is_double_int [of "a + b"] is_double_int [of 20000000]
    by (auto intro!: fl_exact)
  have c: "vec_float64 (Some (word_of_int a)) = Inr (Some (of_int a))" "vec_float64 (Some (word_of_int b)) = Inr (Some (of_int b))"
    unfolding vec_float64_eq option.map s d using ab by (simp_all add: cast_ok_def s del: of_int_sint)
  show "vec_center (Some (word_of_int a)) (Some (word_of_int b)) = Inr (Some (fdiv (fdiv (fl (of_int (a + b))) 2) 10000000))"
    unfolding vec_center_def c rbind_simps lift1_def lift2_def option.map Option.bind.bind_lunit d fadd_def of_int_add [symmetric] fdiv_def h fmul_def
    using d(4) by simp
  have "\<bar>of_int (a + b) / 2 / 10000000 :: rat\<bar> \<le> 2 ^ 40" using ab by (simp add: abs_le_iff)
  then show "\<bar>fdiv (fdiv (fl (of_int (a + b))) 2) 10000000\<bar> \<le> 2 ^ 40"
    unfolding fdiv_def d h by (intro fl_abs_le is_double_pow) simp_all
qed

lemma vec_bbox_hilbert_eq:
  assumes "int32 a" "int32 b" "int32 c" "int32 d"
  shows "vec_bbox_hilbert (Some (word_of_int a)) (Some (word_of_int b)) (Some (word_of_int c)) (Some (word_of_int d)) =
    Inr (Some (word_of_int (bbox_e7_center_hilbert a b c d)))"
  using vec_deg_hilbert [OF center_eq(2) [OF assms(1,3)] center_eq(2) [OF assms(2,4)]]
  by (simp add: vec_bbox_hilbert_def center_eq(1) assms bbox_e7_center_hilbert_def Let_def)

end
