(* ===== verification/Hilbert_Properties.thy ===== *)
theory Hilbert_Properties
  imports Hilbert_Correct
begin

text \<open>
  Properties of the Hilbert keys: the loops compute a Hilbert curve, and the five
  implementations agree.
\<close>

lemma hilbert_on_grid: "in_grid k (x, y) \<Longrightarrow> hilbert_xy2d k x y = hil k x y"
  by (simp add: hilbert_xy2d_hil in_grid_def)

text \<open>
  C26: \<open>hilbert_xy2d\<close> is a bijection between the cells of the grid of side \<open>2 ^ order\<close> and the
  indexes below \<open>4 ^ order\<close>, for every order.
\<close>

theorem hilbert_xy2d_bijective:
  "bij_betw (\<lambda>(x, y). hilbert_xy2d order x y) ({0..<2 ^ order} \<times> {0..<2 ^ order}) {0..<4 ^ order}"
proof (rule bij_betw_byWitness [of _ "unhil order"])
  show "\<forall>a\<in>{0..<2 ^ order} \<times> {0..<2 ^ order}. unhil order (case a of (x, y) \<Rightarrow> hilbert_xy2d order x y) = a"
    by (auto simp: hilbert_on_grid in_grid_def unhil_hil)
  show "\<forall>d\<in>{0..<4 ^ order}. (case unhil order d of (x, y) \<Rightarrow> hilbert_xy2d order x y) = d"
  proof
    fix d :: int
    assume d: "d \<in> {0..<4 ^ order}"
    obtain x y where xy: "unhil order d = (x, y)" by fastforce
    have "in_grid order (x, y)" using unhil_in_grid [of order d] xy by simp
    then show "(case unhil order d of (x, y) \<Rightarrow> hilbert_xy2d order x y) = d"
      using hil_unhil [of d order] d by (simp add: xy hilbert_on_grid)
  qed
  show "(\<lambda>(x, y). hilbert_xy2d order x y) ` ({0..<2 ^ order} \<times> {0..<2 ^ order}) \<subseteq> {0..<4 ^ order}"
    using hil_bounds by (auto simp: hilbert_xy2d_hil)
  show "unhil order ` {0..<4 ^ order} \<subseteq> {0..<2 ^ order} \<times> {0..<2 ^ order}"
    using unhil_in_grid [of order] by (intro image_subsetI) (simp add: in_grid_def mem_Times_iff)
qed

text \<open>
  C27: cells with consecutive indexes are neighbours: they differ by one in one coordinate.
\<close>

theorem hilbert_xy2d_continuous:
  assumes "0 \<le> x" and "x < 2 ^ order" and "0 \<le> y" and "y < 2 ^ order"
    and "0 \<le> x'" and "x' < 2 ^ order" and "0 \<le> y'" and "y' < 2 ^ order"
    and "hilbert_xy2d order x' y' = hilbert_xy2d order x y + 1"
  shows "\<bar>x' - x\<bar> + \<bar>y' - y\<bar> = 1"
proof -
  have g: "in_grid order (x, y)" "in_grid order (x', y')" using assms by (simp_all add: in_grid_def)
  let ?d = "hil order x y"
  have e: "hil order x' y' = ?d + 1" using assms(9) g by (simp add: hilbert_on_grid)
  have "near (unhil order ?d) (unhil order (?d + 1))"
    using hil_bounds(1) [of order x y] hil_bounds(2) [of order x' y'] e by (intro unhil_near) auto
  then have "near (x, y) (x', y')" using unhil_hil [OF g(1)] unhil_hil [OF g(2)] e by simp
  then show ?thesis by (auto simp: near_def abs_minus_commute)
qed

lemma hilbert_small: "hilbert_xy2d 2 1 2 = 7" "hilbert_xy2d 2 2 2 = 8"
  by code_simp+

theorem hilbert_xy2d_continuous_witness:
  "hilbert_xy2d 2 2 2 = hilbert_xy2d 2 1 2 + 1 \<and> \<bar>2 - 1\<bar> + \<bar>2 - 2\<bar> = (1 :: int)"
  using hilbert_xy2d_continuous [of 1 2 2 2 2] by (simp add: hilbert_small)

text \<open>
  C28: the numpy version gives the scalar key of every row when the coordinates fit in 64 bits, and
  raises otherwise; the scalar keys are below \<open>2 ^ 40\<close>, so no key wraps around. The engine's own
  scalar version is the same function, and its Arrow version gives the same key for every pair of
  coordinates of at most 53 bits, null exactly when one of them is null, and raises for the others.
\<close>

theorem hilbert_versions_agree:
  "hilbert_keys rows =
     (if list_all (\<lambda>(lat_e7, lon_e7). int64 lat_e7 \<and> int64 lon_e7) rows
      then Inr (map (\<lambda>(lat_e7, lon_e7). word_of_int (hilbert_key lat_e7 lon_e7)) rows) else Inl OverflowError) \<and>
   e7_to_hilbert lon_e7 lat_e7 = hilbert_key lat_e7 lon_e7 \<and>
   0 \<le> hilbert_key lat_e7 lon_e7 \<and> hilbert_key lat_e7 lon_e7 < 2 ^ 40 \<and>
   vec_node_hilbert lon lat =
     (if cast_ok lon \<and> cast_ok lat
      then Inr (case (lon, lat) of (Some a, Some b) \<Rightarrow> Some (word_of_int (hilbert_key (sint b) (sint a))) | _ \<Rightarrow> None)
      else Inl ValueError)"
proof -
  have "0 \<le> hilbert_key a c \<and> hilbert_key a c < 2 ^ 40" for a c
    using hil_bounds [of 20] by (simp add: hilbert_key_def hilbert_grid_eq hilbert_xy2d_hil ORDER_def)
  then show ?thesis by (cases lon; cases lat) (simp_all add: hilbert_keys_eq vec_node_hilbert_eq e7_to_hilbert_eq)
qed

end
