(* ===== verification/Server.thy ===== *)
theory Server
  imports Parser PyInt "HOL-Library.AList" "HOL-Library.Multiset"
begin

text \<open>
  \<^verbatim>\<open>src/src/osmpq/server.py\<close> and \<open>CancelToken\<close> of \<^verbatim>\<open>src/src/osmpq/engine/executor.py\<close>: the query
  slots, cancellation, and the handler of \<open>/api/interpreter\<close>. The state behind \<open>_slots_lock\<close> is
  the record \<open>slots\<close>; every operation that takes the lock is one function on it, so one step of
  the threads that share it.
\<close>

section \<open>Environment\<close>

type_synonym env = "(string \<times> pystr) list"

definition server_env_int :: "unicode_db \<Rightarrow> env \<Rightarrow> string \<Rightarrow> int \<Rightarrow> int" where
  "server_env_int u env nm dflt =
     (case map_of env nm of None \<Rightarrow> dflt | Some raw \<Rightarrow> (case int_of_text u raw of Inr n \<Rightarrow> n | Inl _ \<Rightarrow> dflt))"

definition server_env_bool :: "unicode_db \<Rightarrow> env \<Rightarrow> string \<Rightarrow> bool \<Rightarrow> bool" where
  "server_env_bool u env nm dflt =
     (case map_of env nm of None \<Rightarrow> dflt
      | Some raw \<Rightarrow> map lower (py_strip u raw) \<notin> {lit ''0'', lit ''false'', lit ''no'', []})"

definition slots_per_ip :: "unicode_db \<Rightarrow> env \<Rightarrow> int" where
  "slots_per_ip u env = server_env_int u env ''OSMPQ_SLOTS_PER_IP'' 2"

definition max_concurrent :: "unicode_db \<Rightarrow> env \<Rightarrow> int" where
  "max_concurrent u env = server_env_int u env ''OSMPQ_MAX_CONCURRENT'' 8"

definition max_timeout :: "unicode_db \<Rightarrow> env \<Rightarrow> int" where
  "max_timeout u env = server_env_int u env ''OSMPQ_MAX_TIMEOUT'' 180"

definition max_maxsize :: "unicode_db \<Rightarrow> env \<Rightarrow> int" where
  "max_maxsize u env = server_env_int u env ''OSMPQ_MAX_MAXSIZE'' 1073741824"

definition trust_proxy :: "unicode_db \<Rightarrow> env \<Rightarrow> bool" where
  "trust_proxy u env = server_env_bool u env ''OSMPQ_TRUST_PROXY'' False"

text \<open>The request: two headers and the peer's address.\<close>

record request =
  cf_connecting_ip :: "pystr option"
  x_forwarded_for :: "pystr option"
  client_host :: "pystr option"

definition client_ip :: "unicode_db \<Rightarrow> env \<Rightarrow> request \<Rightarrow> pystr" where
  "client_ip u env req =
     (let peer = (case client_host req of Some h \<Rightarrow> h | None \<Rightarrow> lit ''unknown'')
      in if trust_proxy u env
         then (case cf_connecting_ip req of
                 Some (c # cf) \<Rightarrow> py_strip u (c # cf)
               | _ \<Rightarrow> (case x_forwarded_for req of
                         Some (c # xff) \<Rightarrow> py_strip u (takeWhile (\<lambda>d. d \<noteq> 44) (c # xff))
                       | _ \<Rightarrow> peer))
         else peer)"

section \<open>\<open>CancelToken\<close>\<close>

text \<open>An operation returns the token and the cursor that it interrupts, if any.\<close>

record token =
  tk_con :: "nat option"
  tk_cancelled :: bool

definition new_token :: token where
  "new_token = \<lparr>tk_con = None, tk_cancelled = False\<rparr>"

definition token_bind :: "nat \<Rightarrow> token \<Rightarrow> token \<times> nat option" where
  "token_bind con t = (t\<lparr>tk_con := Some con\<rparr>, if tk_cancelled t then Some con else None)"

definition token_unbind :: "token \<Rightarrow> token" where
  "token_unbind t = t\<lparr>tk_con := None\<rparr>"

definition token_cancel :: "token \<Rightarrow> token \<times> nat option" where
  "token_cancel t = (t\<lparr>tk_cancelled := True\<rparr>, tk_con t)"

section \<open>Slots\<close>

text \<open>A query's \<open>CancelToken\<close> is found under the query's number.\<close>

record running_query =
  rq_id :: int
  rq_ip :: pystr
  rq_maxsize :: int
  rq_timeout :: int
  rq_start :: rat

record slots =
  sl_running :: "(int \<times> running_query) list"
  sl_ip_counts :: "(pystr \<times> int) list"
  sl_id_seq :: int

definition no_slots :: slots where
  "no_slots = \<lparr>sl_running = [], sl_ip_counts = [], sl_id_seq = 1\<rparr>"

definition ip_count :: "slots \<Rightarrow> pystr \<Rightarrow> int" where
  "ip_count s ip = (case map_of (sl_ip_counts s) ip of Some n \<Rightarrow> n | None \<Rightarrow> 0)"

definition try_acquire :: "int \<Rightarrow> int \<Rightarrow> rat \<Rightarrow> pystr \<Rightarrow> slots \<Rightarrow> running_query option \<times> slots" where
  "try_acquire mc spi now ip s =
     (if mc \<le> int (length (sl_running s)) then (None, s)
      else if spi \<le> ip_count s ip then (None, s)
      else let qid = sl_id_seq s;
               rq = \<lparr>rq_id = qid, rq_ip = ip, rq_maxsize = 0, rq_timeout = 0, rq_start = now\<rparr>
           in (Some rq, \<lparr>sl_running = AList.update qid rq (sl_running s),
                sl_ip_counts = AList.update ip (ip_count s ip + 1) (sl_ip_counts s), sl_id_seq = qid + 1\<rparr>))"

definition release :: "running_query \<Rightarrow> slots \<Rightarrow> slots" where
  "release rq s =
     (let remaining = ip_count s (rq_ip rq) - 1
      in s\<lparr>sl_running := AList.delete (rq_id rq) (sl_running s),
           sl_ip_counts := (if remaining \<le> 0 then AList.delete (rq_ip rq) (sl_ip_counts s)
                            else AList.update (rq_ip rq) remaining (sl_ip_counts s))\<rparr>)"

definition running_for_ip :: "pystr \<Rightarrow> slots \<Rightarrow> running_query list" where
  "running_for_ip ip s = filter (\<lambda>rq. rq_ip rq = ip) (map snd (sl_running s))"

text \<open>\<open>rq.maxsize = ..\<close> and \<open>rq.timeout = ..\<close> on the object that \<open>_running\<close> holds.\<close>

definition set_limits :: "int \<Rightarrow> int \<Rightarrow> int \<Rightarrow> slots \<Rightarrow> slots" where
  "set_limits qid maxsize timeout s =
     s\<lparr>sl_running := map (\<lambda>(i, q). (i, if i = qid then q\<lparr>rq_maxsize := maxsize, rq_timeout := timeout\<rparr> else q)) (sl_running s)\<rparr>"

definition slots_available :: "int \<Rightarrow> pystr \<Rightarrow> slots \<Rightarrow> int" where
  "slots_available spi ip s = max 0 (spi - int (length (running_for_ip ip s)))"

text \<open>The page of \<open>/api/kill_my_queries\<close>.\<close>

definition killed_page :: "running_query list \<Rightarrow> pystr" where
  "killed_page mine =
     lit ''<html><body><p>The following queries have been killed:</p>'' @ [10] @
     concat (map (\<lambda>rq. lit ''<p> pid: '' @ py_str_int (rq_id rq) @ lit '' </p>'' @ [10]) (sort_key rq_id mine)) @
     lit ''</body></html>''"

section \<open>The handler\<close>

definition error_html :: "pystr \<Rightarrow> nat \<Rightarrow> pystr" where
  "error_html msg line =
     lit ''<html><body><p><strong style='' @ [34] @ lit ''color:#FF0000'' @ [34] @ lit ''>Error</strong>: line '' @
     py_str_nat line @ lit '': parse error: '' @ msg @ lit ''</p></body></html>''"

definition rate_limit_html :: pystr where
  "rate_limit_html =
     lit ''<html><body><p>Error: runtime error: open64: 0 Success /osm3s_v0.7.62_osm_base Dispatcher_Client::request_read_and_idx::rate_limited. Please check /api/status for the quota of your IP address.</p></body></html>''"

definition clamp :: "int \<Rightarrow> int \<Rightarrow> int" where
  "clamp cap v = (if v \<noteq> 0 then min v cap else cap)"

definition clamp_settings :: "unicode_db \<Rightarrow> env \<Rightarrow> settings \<Rightarrow> settings" where
  "clamp_settings u env st =
     st\<lparr>s_timeout := clamp (max_timeout u env) (s_timeout st), s_maxsize := clamp (max_maxsize u env) (s_maxsize st)\<rparr>"

record response =
  resp_status :: nat
  resp_body :: pystr
  resp_cache :: "pystr option"

datatype outcome = Response response | Raises py_error

definition html_response :: "pystr \<Rightarrow> nat \<Rightarrow> outcome" where
  "html_response body status = Response \<lparr>resp_status = status, resp_body = body, resp_cache = None\<rparr>"

text \<open>
  One request from its query text to its response. The engine (\<open>get_engine\<close>) and its run, the rendering of its result
  and the result's remark are arguments.
\<close>

definition finish_response :: "('r \<Rightarrow> pystr result) \<Rightarrow> ('r \<Rightarrow> pystr option) \<Rightarrow> 'r \<Rightarrow> outcome" where
  "finish_response render remark r =
     (case render r of
        Inl e \<Rightarrow> Raises e
      | Inr body \<Rightarrow>
          Response \<lparr>resp_status = 200, resp_body = body,
            resp_cache = Some (case remark r of Some (c # cs) \<Rightarrow> lit ''no-store'' | _ \<Rightarrow> lit ''public, max-age=60'')\<rparr>)"

definition run_outcome :: "('r \<Rightarrow> pystr result) \<Rightarrow> ('r \<Rightarrow> pystr option) \<Rightarrow> 'r result \<Rightarrow> outcome" where
  "run_outcome render remark res =
     (case res of
        Inr r \<Rightarrow> finish_response render remark r
      | Inl (UnsupportedError m) \<Rightarrow> html_response (error_html m 1) 400
      | Inl e \<Rightarrow> Raises e)"

definition handle_interpreter ::
  "unicode_db \<Rightarrow> env \<Rightarrow> (program \<Rightarrow> int \<Rightarrow> 'r result) \<Rightarrow> ('r \<Rightarrow> pystr result) \<Rightarrow> ('r \<Rightarrow> pystr option) \<Rightarrow>
   rat \<Rightarrow> pystr \<Rightarrow> pystr \<Rightarrow> slots \<Rightarrow> outcome \<times> slots" where
  "handle_interpreter u env run render remark now ip query s =
     (case parse u query of
        Inl (ParseError msg line col) \<Rightarrow>
          (html_response (error_html msg (case line of Some l \<Rightarrow> if l = 0 then 1 else l | None \<Rightarrow> 1)) 400, s)
      | Inl e \<Rightarrow> (Raises e, s)
      | Inr p \<Rightarrow>
          (let st = clamp_settings u env (p_settings p); p = p\<lparr>p_settings := st\<rparr>
           in case try_acquire (max_concurrent u env) (slots_per_ip u env) now ip s of
                (None, s1) \<Rightarrow> (html_response rate_limit_html 429, s1)
              | (Some rq, s1) \<Rightarrow>
                  (let s2 = set_limits (rq_id rq) (s_maxsize st) (s_timeout st) s1;
                       res = run p (s_timeout st); s3 = release rq s2
                   in (run_outcome render remark res, s3))))"

section \<open>Threads\<close>

text \<open>
  The requests and the kills of a server, interleaved at the operations that take a lock. A
  request holds its slot from \<open>Acquired\<close> to \<open>Unbound\<close>; a kill cancels the tokens of a snapshot of
  an address's queries one by one. \<open>w_ip\<close> and \<open>w_owner\<close> record, for the statements below, the
  address of each query and the query of each cursor, and \<open>w_log\<close> the interrupts that were sent:
  the address on whose behalf, the query and the cursor.
\<close>

datatype req_phase =
    Start pystr
  | Acquired running_query
  | Holding running_query
  | Bound running_query nat
  | Unbound running_query
  | Replied

datatype kill_phase = KillStart pystr | Killing pystr "int list"

record world =
  w_slots :: slots
  w_tokens :: "int \<Rightarrow> token"
  w_req :: "nat \<Rightarrow> req_phase"
  w_kill :: "nat \<Rightarrow> kill_phase"
  w_cursor :: nat
  w_ip :: "int \<Rightarrow> pystr option"
  w_owner :: "nat \<Rightarrow> int option"
  w_log :: "(pystr \<times> int \<times> nat) list"

definition log_interrupt :: "pystr \<Rightarrow> int \<Rightarrow> nat option \<Rightarrow> (pystr \<times> int \<times> nat) list \<Rightarrow> (pystr \<times> int \<times> nat) list" where
  "log_interrupt ip q c sent = (case c of None \<Rightarrow> sent | Some con \<Rightarrow> sent @ [(ip, q, con)])"

inductive server_step :: "int \<Rightarrow> int \<Rightarrow> world \<Rightarrow> world \<Rightarrow> bool" for mc spi where
  acquire: "w_req w r = Start ip \<Longrightarrow> try_acquire mc spi now ip (w_slots w) = (Some rq, s') \<Longrightarrow>
     server_step mc spi w (w\<lparr>w_slots := s', w_tokens := (w_tokens w)(rq_id rq := new_token),
       w_ip := (w_ip w)(rq_id rq \<mapsto> ip), w_req := (w_req w)(r := Acquired rq)\<rparr>)"
| reject: "w_req w r = Start ip \<Longrightarrow> try_acquire mc spi now ip (w_slots w) = (None, s') \<Longrightarrow>
     server_step mc spi w (w\<lparr>w_slots := s', w_req := (w_req w)(r := Replied)\<rparr>)"
| limits: "w_req w r = Acquired rq \<Longrightarrow>
     server_step mc spi w (w\<lparr>w_slots := set_limits (rq_id rq) maxsize timeout (w_slots w), w_req := (w_req w)(r := Holding rq)\<rparr>)"
| no_engine: "w_req w r = Holding rq \<Longrightarrow>
     server_step mc spi w (w\<lparr>w_slots := release rq (w_slots w), w_req := (w_req w)(r := Replied)\<rparr>)"
| bind: "w_req w r = Holding rq \<Longrightarrow> token_bind (w_cursor w) (w_tokens w (rq_id rq)) = (t, c) \<Longrightarrow>
     server_step mc spi w (w\<lparr>w_tokens := (w_tokens w)(rq_id rq := t), w_owner := (w_owner w)(w_cursor w \<mapsto> rq_id rq),
       w_log := log_interrupt (rq_ip rq) (rq_id rq) c (w_log w), w_req := (w_req w)(r := Bound rq (w_cursor w)),
       w_cursor := Suc (w_cursor w)\<rparr>)"
| unbind: "w_req w r = Bound rq con \<Longrightarrow>
     server_step mc spi w (w\<lparr>w_tokens := (w_tokens w)(rq_id rq := token_unbind (w_tokens w (rq_id rq))), w_req := (w_req w)(r := Unbound rq)\<rparr>)"
| finish: "w_req w r = Unbound rq \<Longrightarrow>
     server_step mc spi w (w\<lparr>w_slots := release rq (w_slots w), w_req := (w_req w)(r := Replied)\<rparr>)"
| snapshot: "w_kill w k = KillStart ip \<Longrightarrow>
     server_step mc spi w (w\<lparr>w_kill := (w_kill w)(k := Killing ip (map rq_id (running_for_ip ip (w_slots w))))\<rparr>)"
| cancel: "w_kill w k = Killing ip (q # qs) \<Longrightarrow> token_cancel (w_tokens w q) = (t, c) \<Longrightarrow>
     server_step mc spi w (w\<lparr>w_tokens := (w_tokens w)(q := t), w_log := log_interrupt ip q c (w_log w),
       w_kill := (w_kill w)(k := Killing ip qs)\<rparr>)"

definition init_world :: "(nat \<Rightarrow> pystr) \<Rightarrow> nat \<Rightarrow> (nat \<Rightarrow> pystr) \<Rightarrow> world" where
  "init_world ips n kills =
     \<lparr>w_slots = no_slots, w_tokens = (\<lambda>_. new_token), w_req = (\<lambda>r. if r < n then Start (ips r) else Replied),
      w_kill = (\<lambda>k. KillStart (kills k)), w_cursor = 0, w_ip = Map.empty, w_owner = Map.empty, w_log = []\<rparr>"

end
