(* ===== verification/Server_Correct.thy ===== *)
theory Server_Correct
  imports Server
begin

text \<open>
  The slots refine a multiset of addresses, the limits hold in every reachable state of the
  interleaved server, an interrupt only reaches the cursor of a query of the address on whose
  behalf it was sent, and every slot is given back.
\<close>

section \<open>Slots as a multiset\<close>

definition held :: "slots \<Rightarrow> pystr multiset" where
  "held s = image_mset (rq_ip \<circ> snd) (mset (sl_running s))"

text \<open>The representation: numbers are unique and below the next one, and the counts are those of the queries.\<close>

definition slots_inv :: "slots \<Rightarrow> bool" where
  "slots_inv s \<longleftrightarrow>
     distinct (map fst (sl_running s)) \<and> (\<forall>(i, rq)\<in>set (sl_running s). rq_id rq = i \<and> i < sl_id_seq s) \<and>
     (\<forall>ip. map_of (sl_ip_counts s) ip = (if ip \<in># held s then Some (int (count (held s) ip)) else None))"

lemma ip_count_held: "slots_inv s \<Longrightarrow> ip_count s ip = int (count (held s) ip)"
  by (auto simp: slots_inv_def ip_count_def not_in_iff)

lemma update_fresh: "k \<notin> set (map fst xs) \<Longrightarrow> AList.update k v xs = xs @ [(k, v)]"
  by (induction xs) auto

lemma fresh_id: "slots_inv s \<Longrightarrow> sl_id_seq s \<notin> set (map fst (sl_running s))"
  by (auto simp: slots_inv_def)

lemma acquire_refines:
  assumes inv: "slots_inv s"
  shows "try_acquire mc spi now ip s = (None, s') \<Longrightarrow>
      s' = s \<and> (mc \<le> int (size (held s)) \<or> spi \<le> int (count (held s) ip))"
    and "try_acquire mc spi now ip s = (Some rq, s') \<Longrightarrow>
      int (size (held s)) < mc \<and> int (count (held s) ip) < spi \<and> slots_inv s' \<and> held s' = add_mset ip (held s) \<and>
      rq_ip rq = ip \<and> rq_id rq = sl_id_seq s \<and> sl_id_seq s' = sl_id_seq s + 1 \<and> sl_running s' = sl_running s @ [(rq_id rq, rq)]"
proof -
  have len: "length (sl_running s) = size (held s)" by (simp add: held_def)
  note c = ip_count_held [OF inv]
  show "try_acquire mc spi now ip s = (None, s') \<Longrightarrow> s' = s \<and> (mc \<le> int (size (held s)) \<or> spi \<le> int (count (held s) ip))"
    by (auto simp: try_acquire_def Let_def len c split: if_splits)
  assume a: "try_acquire mc spi now ip s = (Some rq, s')"
  have g: "int (size (held s)) < mc" "int (count (held s) ip) < spi" and rq: "rq_ip rq = ip" "rq_id rq = sl_id_seq s"
    and s': "s' = \<lparr>sl_running = sl_running s @ [(sl_id_seq s, rq)],
      sl_ip_counts = AList.update ip (int (count (held s) ip) + 1) (sl_ip_counts s), sl_id_seq = sl_id_seq s + 1\<rparr>"
    using a by (auto simp: try_acquire_def Let_def len c update_fresh [OF fresh_id [OF inv]] split: if_splits)
  have h: "held s' = add_mset ip (held s)" by (simp add: held_def s' rq)
  have "slots_inv s'"
    unfolding slots_inv_def h
  proof (intro conjI allI)
    show "distinct (map fst (sl_running s'))" using inv fresh_id [OF inv] by (auto simp: slots_inv_def s')
    show "\<forall>(i, rq)\<in>set (sl_running s'). rq_id rq = i \<and> i < sl_id_seq s'" using inv by (auto simp: slots_inv_def s' rq)
    show "map_of (sl_ip_counts s') a = (if a \<in># add_mset ip (held s) then Some (int (count (add_mset ip (held s)) a)) else None)" for a
      using inv by (auto simp: slots_inv_def s' update_conv')
  qed
  then show "int (size (held s)) < mc \<and> int (count (held s) ip) < spi \<and> slots_inv s' \<and> held s' = add_mset ip (held s) \<and>
      rq_ip rq = ip \<and> rq_id rq = sl_id_seq s \<and> sl_id_seq s' = sl_id_seq s + 1 \<and> sl_running s' = sl_running s @ [(rq_id rq, rq)]"
    using g rq h by (simp add: s')
qed

lemma mset_delete_key:
  "distinct (map fst xs) \<Longrightarrow> map_of xs k = Some v \<Longrightarrow> mset (AList.delete k xs) = mset xs - {#(k, v)#}"
proof (induction xs)
  case (Cons x xs)
  obtain a b where x: "x = (a, b)" by fastforce
  show ?case
  proof (cases "a = k")
    case True
    then have "AList.delete k xs = xs" using Cons.prems(1) by (intro delete_id) (auto simp: x)
    then show ?thesis using True Cons.prems(2) by (simp add: x)
  next
    case False
    then have "(k, v) \<in># mset xs" using Cons.prems(2) by (auto simp: x dest: map_of_SomeD)
    then show ?thesis using Cons False by (simp add: x multiset_eq_iff)
  qed
qed simp

lemma release_refines:
  assumes inv: "slots_inv s" and rq: "map_of (sl_running s) (rq_id rq) = Some q" "rq_ip q = rq_ip rq"
  shows "slots_inv (release rq s) \<and> held (release rq s) = held s - {#rq_ip rq#} \<and> rq_ip rq \<in># held s \<and>
    sl_running (release rq s) = AList.delete (rq_id rq) (sl_running s) \<and> sl_id_seq (release rq s) = sl_id_seq s"
proof -
  let ?s = "release rq s"
  have d: "distinct (map fst (sl_running s))" using inv by (simp add: slots_inv_def)
  have "(rq_id rq, q) \<in># mset (sl_running s)" using rq(1) by (auto dest: map_of_SomeD)
  then have m: "rq_ip rq \<in># held s" using rq(2) by (force simp: held_def)
  have h: "held ?s = held s - {#rq_ip rq#}"
    using mset_delete_key [OF d rq(1)] rq(2) \<open>(rq_id rq, q) \<in># mset (sl_running s)\<close>
    by (simp add: held_def release_def Let_def image_mset_Diff)
  have "map_of (sl_ip_counts ?s) a = (if a \<in># held ?s then Some (int (count (held ?s) a)) else None)" for a
  proof -
    have n: "map_of (sl_ip_counts s) b = (if b \<in># held s then Some (int (count (held s) b)) else None)" for b
      using inv by (simp add: slots_inv_def)
    have pos: "0 < count (held s) (rq_ip rq)" using m by simp
    show ?thesis
      unfolding h using n [of a] pos
      by (auto simp: release_def Let_def ip_count_held [OF inv] update_conv' delete_conv' in_diff_count not_in_iff of_nat_diff)
  qed
  moreover have "distinct (map fst (sl_running ?s))" using d by (simp add: release_def Let_def distinct_delete)
  moreover have "\<forall>(i, q)\<in>set (sl_running ?s). rq_id q = i \<and> i < sl_id_seq ?s"
    using inv by (auto simp: slots_inv_def release_def Let_def AList.delete_eq)
  ultimately show ?thesis using m h by (simp add: slots_inv_def) (simp add: release_def Let_def)
qed

section \<open>Requests and slots\<close>

fun holding :: "req_phase \<Rightarrow> running_query option" where
  "holding (Acquired rq) = Some rq"
| "holding (Holding rq) = Some rq"
| "holding (Bound rq c) = Some rq"
| "holding (Unbound rq) = Some rq"
| "holding (Start ip) = None"
| "holding Replied = None"

definition view :: "req_phase \<Rightarrow> (int \<times> pystr) option" where
  "view p = map_option (\<lambda>rq. (rq_id rq, rq_ip rq)) (holding p)"

lemma view_simps [simp]:
  "view (Acquired rq) = Some (rq_id rq, rq_ip rq)" "view (Holding rq) = Some (rq_id rq, rq_ip rq)"
  "view (Bound rq c) = Some (rq_id rq, rq_ip rq)" "view (Unbound rq) = Some (rq_id rq, rq_ip rq)"
  "view (Start ip) = None" "view Replied = None"
  by (simp_all add: view_def)

definition run_ips :: "slots \<Rightarrow> int \<Rightarrow> pystr option" where
  "run_ips s i = map_option rq_ip (map_of (sl_running s) i)"

text \<open>Each request holds its own slot, and every slot is held.\<close>

definition slots_match :: "slots \<Rightarrow> (nat \<Rightarrow> (int \<times> pystr) option) \<Rightarrow> bool" where
  "slots_match s h \<longleftrightarrow>
     (\<forall>r i ip. h r = Some (i, ip) \<longrightarrow> run_ips s i = Some ip) \<and>
     (\<forall>r r' i ip ip'. h r = Some (i, ip) \<and> h r' = Some (i, ip') \<longrightarrow> r = r') \<and>
     (\<forall>i. run_ips s i \<noteq> None \<longrightarrow> (\<exists>r ip. h r = Some (i, ip)))"

lemma slots_matchD:
  assumes "slots_match s h"
  shows "h r = Some (i, ip) \<Longrightarrow> run_ips s i = Some ip" "h r = Some (i, ip) \<Longrightarrow> h r' = Some (i, ip') \<Longrightarrow> r' = r"
    "run_ips s i = Some ip \<Longrightarrow> \<exists>r ip. h r = Some (i, ip)"
  using assms by (auto simp: slots_match_def)

lemma slots_match_acquire:
  assumes m: "slots_match s h" and h: "h r = None" and i: "run_ips s i = None" and s': "run_ips s' = (run_ips s)(i \<mapsto> ip)"
  shows "slots_match s' (h(r \<mapsto> (i, ip)))"
proof -
  have n: "h r' \<noteq> Some (i, ip')" for r' ip' using slots_matchD(1) [OF m, of r' i ip'] i by auto
  have 1: "run_ips s' j = Some a" if "(h(r \<mapsto> (i, ip))) r' = Some (j, a)" for r' j a
    using that slots_matchD(1) [OF m, of r' j a] n [of r'] by (auto simp: s' split: if_splits)
  have 2: "r1 = r2" if "(h(r \<mapsto> (i, ip))) r1 = Some (j, a)" "(h(r \<mapsto> (i, ip))) r2 = Some (j, b)" for r1 r2 j a b
    using that slots_matchD(2) [OF m, of r1 j a r2 b] n [of r1] n [of r2] by (auto split: if_splits)
  have 3: "\<exists>r' a. (h(r \<mapsto> (i, ip))) r' = Some (j, a)" if x: "run_ips s' j \<noteq> None" for j
  proof (cases "j = i")
    case False
    then obtain b where "run_ips s j = Some b" using x by (auto simp: s')
    then obtain r' a where "h r' = Some (j, a)" using slots_matchD(3) [OF m] by blast
    then show ?thesis using h by (intro exI [of _ r'] exI [of _ a]) auto
  qed auto
  show ?thesis unfolding slots_match_def using 1 2 3 by blast
qed

lemma slots_match_release:
  assumes m: "slots_match s h" and h: "h r = Some (i, ip)" and s': "run_ips s' = (run_ips s)(i := None)"
  shows "slots_match s' (h(r := None))"
proof -
  have n: "r' = r" if "h r' = Some (i, ip')" for r' ip' using slots_matchD(2) [OF m h that] .
  have 1: "run_ips s' j = Some a" if "(h(r := None)) r' = Some (j, a)" for r' j a
    using that slots_matchD(1) [OF m, of r' j a] n [of r' a] by (auto simp: s' split: if_splits)
  have 2: "r1 = r2" if "(h(r := None)) r1 = Some (j, a)" "(h(r := None)) r2 = Some (j, b)" for r1 r2 j a b
    using that slots_matchD(2) [OF m, of r1 j a r2 b] by (auto split: if_splits)
  have 3: "\<exists>r' a. (h(r := None)) r' = Some (j, a)" if x: "run_ips s' j \<noteq> None" for j
  proof -
    have "j \<noteq> i" using x by (auto simp: s')
    then obtain b where "run_ips s j = Some b" using x by (auto simp: s')
    then obtain r' a where "h r' = Some (j, a)" using slots_matchD(3) [OF m] by blast
    then show ?thesis using h \<open>j \<noteq> i\<close> by (intro exI [of _ r'] exI [of _ a]) auto
  qed
  show ?thesis unfolding slots_match_def using 1 2 3 by blast
qed

definition held_by :: "world \<Rightarrow> nat \<Rightarrow> (int \<times> pystr) option" where
  "held_by w r = view (w_req w r)"

lemma set_limits_same:
  "run_ips (set_limits i a b s) = run_ips s" "held (set_limits i a b s) = held s" "sl_id_seq (set_limits i a b s) = sl_id_seq s"
  "slots_inv (set_limits i a b s) = slots_inv s"
proof -
  let ?f = "\<lambda>(j, q). (j, if j = i then q\<lparr>rq_maxsize := a, rq_timeout := b\<rparr> else q)"
  have r: "sl_running (set_limits i a b s) = map ?f (sl_running s)" by (simp add: set_limits_def)
  have "map_option rq_ip (map_of (map ?f xs) j) = map_option rq_ip (map_of xs j)" for xs j
    by (induction xs) auto
  then show "run_ips (set_limits i a b s) = run_ips s"
    unfolding run_ips_def r by blast
  have k: "map fst (map ?f xs) = map fst xs" for xs by (induction xs) auto
  show h: "held (set_limits i a b s) = held s"
    unfolding held_def r mset_map image_mset.compositionality by (intro image_mset_cong) auto
  have c: "sl_ip_counts (set_limits i a b s) = sl_ip_counts s" by (simp add: set_limits_def)
  show seq: "sl_id_seq (set_limits i a b s) = sl_id_seq s" by (simp add: set_limits_def)
  have e: "(\<forall>(j, q)\<in>set (map ?f xs). rq_id q = j \<and> j < n) \<longleftrightarrow> (\<forall>(j, q)\<in>set xs. rq_id q = j \<and> j < n)" for xs n
    by (induction xs) (auto split: if_splits)
  show "slots_inv (set_limits i a b s) = slots_inv s"
    unfolding slots_inv_def h seq r k c e ..
qed

definition slots_part :: "int \<Rightarrow> int \<Rightarrow> world \<Rightarrow> bool" where
  "slots_part mc spi w \<longleftrightarrow>
     slots_inv (w_slots w) \<and> int (size (held (w_slots w))) \<le> max 0 mc \<and>
     (\<forall>ip. int (count (held (w_slots w)) ip) \<le> max 0 spi) \<and> slots_match (w_slots w) (held_by w)"

lemma held_by_upd: "held_by (w'\<lparr>w_req := (w_req w)(r := p)\<rparr>) = (held_by w)(r := view p)"
  by (auto simp: held_by_def)

lemma release_part:
  assumes p: "slots_part mc spi w" and v: "view (w_req w r) = Some (rq_id rq, rq_ip rq)"
    and s: "w_slots w' = release rq (w_slots w)" and h: "held_by w' = (held_by w)(r := None)"
  shows "slots_part mc spi w'"
proof -
  let ?s = "w_slots w"
  have inv: "slots_inv ?s" and m: "slots_match ?s (held_by w)" using p by (auto simp: slots_part_def)
  have hb: "held_by w r = Some (rq_id rq, rq_ip rq)" using v by (simp add: held_by_def)
  then obtain q where q: "map_of (sl_running ?s) (rq_id rq) = Some q" "rq_ip q = rq_ip rq"
    using m by (force simp: slots_match_def run_ips_def)
  note r = release_refines [OF inv q]
  have "run_ips (release rq ?s) = (run_ips ?s)(rq_id rq := None)"
    using r by (auto simp: run_ips_def delete_conv')
  then have "slots_match (release rq ?s) ((held_by w)(r := None))" using slots_match_release [OF m hb] by blast
  moreover have "int (size (held (release rq ?s))) \<le> max 0 mc" using p r size_mset_mono [of "held ?s - {#rq_ip rq#}" "held ?s"]
    by (auto simp: slots_part_def)
  moreover have "int (count (held (release rq ?s)) ip) \<le> max 0 spi" for ip
    using p r by (simp add: slots_part_def) (metis diff_le_self of_nat_le_iff order_trans)
  ultimately show ?thesis using r by (simp add: slots_part_def s h)
qed

lemma acquire_part:
  assumes p: "slots_part mc spi w" and r: "w_req w r = Start ip"
    and a: "try_acquire mc spi now ip (w_slots w) = (Some rq, s')"
    and s: "w_slots w' = s'" and h: "held_by w' = (held_by w)(r \<mapsto> (rq_id rq, rq_ip rq))"
  shows "slots_part mc spi w'"
proof -
  let ?s = "w_slots w"
  have inv: "slots_inv ?s" and m: "slots_match ?s (held_by w)" using p by (auto simp: slots_part_def)
  note q = acquire_refines(2) [OF inv a]
  have f: "map_of (sl_running ?s) (rq_id rq) = None" using fresh_id [OF inv] q by (simp add: map_of_eq_None_iff)
  have "run_ips s' = (run_ips ?s)(rq_id rq \<mapsto> rq_ip rq)" using q f by (auto simp: run_ips_def map_add_def split: option.splits)
  then have "slots_match s' ((held_by w)(r \<mapsto> (rq_id rq, rq_ip rq)))"
    using slots_match_acquire [OF m] f r by (simp add: held_by_def run_ips_def)
  then show ?thesis using q p by (auto simp: slots_part_def s h)
qed

lemma same_part:
  "slots_part mc spi w \<Longrightarrow> run_ips (w_slots w') = run_ips (w_slots w) \<Longrightarrow> held (w_slots w') = held (w_slots w) \<Longrightarrow>
   slots_inv (w_slots w') = slots_inv (w_slots w) \<Longrightarrow> held_by w' = held_by w \<Longrightarrow> slots_part mc spi w'"
  by (simp add: slots_part_def slots_match_def)

lemma slots_part_step:
  assumes "server_step mc spi w w'" and p: "slots_part mc spi w"
  shows "slots_part mc spi w'"
  using assms(1)
proof cases
  case (acquire r ip now rq s')
  show ?thesis by (rule acquire_part [OF p acquire(2,3)]) (auto simp: acquire(1) held_by_def)
next
  case (reject r ip now s')
  have "s' = w_slots w" using acquire_refines(1) reject(3) p by (auto simp: slots_part_def)
  then show ?thesis using reject by (intro same_part [OF p]) (auto simp: held_by_def)
next
  case (limits r rq maxsize timeout)
  show ?thesis using limits by (intro same_part [OF p]) (auto simp: held_by_def set_limits_same)
next
  case (no_engine r rq)
  show ?thesis using no_engine by (intro release_part [OF p, of r rq]) (auto simp: held_by_def)
next
  case (bind r rq t c)
  show ?thesis using bind by (intro same_part [OF p]) (auto simp: held_by_def)
next
  case (unbind r rq con)
  show ?thesis using unbind by (intro same_part [OF p]) (auto simp: held_by_def)
next
  case (finish r rq)
  show ?thesis using finish by (intro release_part [OF p, of r rq]) (auto simp: held_by_def)
next
  case (snapshot k ip)
  show ?thesis using snapshot by (intro same_part [OF p]) (auto simp: held_by_def)
next
  case (cancel k ip q qs t c)
  show ?thesis using cancel by (intro same_part [OF p]) (auto simp: held_by_def)
qed

section \<open>Kills\<close>

text \<open>The recorded addresses are those of the queries, and a kill only names queries of its address.\<close>

definition ip_part :: "world \<Rightarrow> bool" where
  "ip_part w \<longleftrightarrow>
     (\<forall>i ip. run_ips (w_slots w) i = Some ip \<longrightarrow> w_ip w i = Some ip) \<and>
     (\<forall>i ip. w_ip w i = Some ip \<longrightarrow> i < sl_id_seq (w_slots w)) \<and>
     (\<forall>k ip qs. w_kill w k = Killing ip qs \<longrightarrow> (\<forall>q\<in>set qs. w_ip w q = Some ip))"

lemma run_ips_member: "slots_inv s \<Longrightarrow> rq \<in> set (running_for_ip ip s) \<Longrightarrow> run_ips s (rq_id rq) = Some ip"
  by (fastforce simp: slots_inv_def running_for_ip_def run_ips_def)

lemma ip_part_step:
  assumes "server_step mc spi w w'" and p: "slots_part mc spi w" and i: "ip_part w"
  shows "ip_part w'"
proof -
  have inv: "slots_inv (w_slots w)" using p by (simp add: slots_part_def)
  have rel: "ip_part (w\<lparr>w_slots := release rq (w_slots w), w_req := f\<rparr>)" if "view (w_req w r) = Some (rq_id rq, rq_ip rq)" for rq r f
  proof -
    have "run_ips (w_slots w) (rq_id rq) = Some (rq_ip rq)"
      using p that by (fastforce simp: slots_part_def slots_match_def held_by_def)
    then obtain q where q: "map_of (sl_running (w_slots w)) (rq_id rq) = Some q" "rq_ip q = rq_ip rq" by (auto simp: run_ips_def)
    show ?thesis using release_refines [OF inv q] i by (auto simp: ip_part_def run_ips_def delete_conv' split: if_splits)
  qed
  show ?thesis
    using assms(1)
  proof cases
    case (acquire r ip now rq s')
    note q = acquire_refines(2) [OF inv acquire(3)]
    have f: "map_of (sl_running (w_slots w)) (rq_id rq) = None" using fresh_id [OF inv] q by (simp add: map_of_eq_None_iff)
    have "run_ips s' = (run_ips (w_slots w))(rq_id rq \<mapsto> ip)" using q f by (auto simp: run_ips_def map_add_def split: option.splits)
    then show ?thesis using i q unfolding acquire(1) ip_part_def by (auto dest: spec) force+
  next
    case (reject r ip now s')
    have "s' = w_slots w" using acquire_refines(1) [OF inv] reject(3) by auto
    then show ?thesis using i by (auto simp: reject(1) ip_part_def)
  next
    case (limits r rq maxsize timeout)
    show ?thesis using i by (auto simp: limits(1) ip_part_def set_limits_same)
  next
    case (no_engine r rq)
    show ?thesis unfolding no_engine(1) by (rule rel [of r]) (simp add: no_engine(2))
  next
    case (bind r rq t c)
    show ?thesis using i by (auto simp: bind(1) ip_part_def)
  next
    case (unbind r rq con)
    show ?thesis using i by (auto simp: unbind(1) ip_part_def)
  next
    case (finish r rq)
    show ?thesis unfolding finish(1) by (rule rel [of r]) (simp add: finish(2))
  next
    case (snapshot k ip)
    show ?thesis using i run_ips_member [OF inv] by (auto simp: snapshot(1) ip_part_def)
  next
    case (cancel k ip q qs t c)
    show ?thesis using i cancel(2) by (auto simp: cancel(1) ip_part_def)
  qed
qed

text \<open>A token refers to a cursor exactly while its request is bound to it.\<close>

definition con_part :: "world \<Rightarrow> bool" where
  "con_part w \<longleftrightarrow>
     (\<forall>q c. tk_con (w_tokens w q) = Some c \<longrightarrow> (\<exists>r rq. w_req w r = Bound rq c \<and> rq_id rq = q)) \<and>
     (\<forall>r rq c. w_req w r = Bound rq c \<longrightarrow> w_owner w c = Some (rq_id rq)) \<and>
     (\<forall>c q. w_owner w c = Some q \<longrightarrow> c < w_cursor w)"

lemma con_partD:
  assumes "con_part w"
  shows "tk_con (w_tokens w q) = Some c \<Longrightarrow> \<exists>r rq. w_req w r = Bound rq c \<and> rq_id rq = q"
    "w_req w r = Bound rq c \<Longrightarrow> w_owner w c = Some (rq_id rq)" "w_owner w c = Some q \<Longrightarrow> c < w_cursor w"
  using assms by (auto simp: con_part_def)

lemma bound_unique:
  assumes p: "slots_part mc spi w" and r: "view (w_req w r) = Some (rq_id rq, rq_ip rq)"
    and r': "w_req w r' = Bound rq' c" "rq_id rq' = rq_id rq"
  shows "r' = r"
proof -
  have m: "slots_match (w_slots w) (held_by w)" using p by (simp add: slots_part_def)
  show ?thesis
    using slots_matchD(2) [OF m, of r "rq_id rq" "rq_ip rq" r' "rq_ip rq'"] r r' by (simp add: held_by_def)
qed

text \<open>A request that is not bound may move to another phase that is not bound.\<close>

lemma con_part_move:
  assumes c: "con_part w" and r: "\<forall>rq c. w_req w r \<noteq> Bound rq c" "\<forall>rq c. ph \<noteq> Bound rq c"
    and t: "\<And>q. tk_con (w_tokens w' q) = tk_con (w_tokens w q) \<or> tk_con (w_tokens w' q) = None"
    and w: "w_req w' = (w_req w)(r := ph)" "w_owner w' = w_owner w" "w_cursor w' = w_cursor w"
  shows "con_part w'"
proof -
  have 1: "\<exists>r rq. w_req w' r = Bound rq c \<and> rq_id rq = q" if "tk_con (w_tokens w' q) = Some c" for q c
  proof -
    have "tk_con (w_tokens w q) = Some c" using t [of q] that by auto
    then obtain r' rq where "w_req w r' = Bound rq c" "rq_id rq = q" using con_partD(1) [OF c] by blast
    then show ?thesis using r(1) w(1) by (intro exI [of _ r'] exI [of _ rq]) auto
  qed
  have 2: "w_owner w' c = Some (rq_id rq)" if "w_req w' r' = Bound rq c" for r' rq c
    using that con_partD(2) [OF assms(1), of r' rq c] r(2) w by (auto split: if_splits)
  show ?thesis unfolding con_part_def using 1 2 con_partD(3) [OF c] w(2,3) by simp
qed

lemma con_part_step:
  assumes "server_step mc spi w w'" and p: "slots_part mc spi w" and c: "con_part w"
  shows "con_part w'"
  using assms(1)
proof cases
  case (acquire r ip now rq s')
  then show ?thesis by (intro con_part_move [OF c, of r "Acquired rq"]) (auto simp: new_token_def)
next
  case (reject r ip now s')
  then show ?thesis by (intro con_part_move [OF c, of r Replied]) auto
next
  case (limits r rq maxsize timeout)
  then show ?thesis by (intro con_part_move [OF c, of r "Holding rq"]) auto
next
  case (no_engine r rq)
  then show ?thesis by (intro con_part_move [OF c, of r Replied]) auto
next
  case (bind r rq tk i)
  have tk: "tk_con tk = Some (w_cursor w)" using bind(3) by (auto simp: token_bind_def)
  have 1: "\<exists>r rq. w_req w' r = Bound rq c \<and> rq_id rq = q" if "tk_con (w_tokens w' q) = Some c" for q c
  proof (cases "q = rq_id rq")
    case True
    then show ?thesis using that tk by (intro exI [of _ r] exI [of _ rq]) (auto simp: bind(1))
  next
    case False
    then have "tk_con (w_tokens w q) = Some c" using that by (simp add: bind(1))
    then obtain r' rq' where "w_req w r' = Bound rq' c" "rq_id rq' = q" using con_partD(1) [OF assms(3)] by blast
    then show ?thesis using bind(2) by (intro exI [of _ r'] exI [of _ rq']) (auto simp: bind(1))
  qed
  have 2: "w_owner w' c' = Some (rq_id rq')" if "w_req w' r' = Bound rq' c'" for r' rq' c'
  proof (cases "r' = r")
    case False
    then have b: "w_req w r' = Bound rq' c'" using that by (simp add: bind(1))
    then have "w_owner w c' = Some (rq_id rq')" using con_partD(2) [OF c] by blast
    moreover have "c' \<noteq> w_cursor w" using con_partD(3) [OF c calculation] by simp
    ultimately show ?thesis by (simp add: bind(1))
  qed (use that in \<open>simp add: bind(1)\<close>)
  have 3: "c' < w_cursor w'" if "w_owner w' c' = Some q" for c' q
    using that con_partD(3) [OF c, of c' q] by (auto simp: bind(1) split: if_splits)
  show ?thesis unfolding con_part_def using 1 2 3 by blast
next
  case (unbind r rq con)
  have 1: "\<exists>r rq. w_req w' r = Bound rq c' \<and> rq_id rq = q" if t: "tk_con (w_tokens w' q) = Some c'" for q c'
  proof -
    have q: "q \<noteq> rq_id rq" "tk_con (w_tokens w q) = Some c'" using t by (auto simp: unbind(1) token_unbind_def split: if_splits)
    then obtain r' rq' where r': "w_req w r' = Bound rq' c'" "rq_id rq' = q" using con_partD(1) [OF c] by blast
    then have "r' \<noteq> r" using q(1) unbind(2) by auto
    then show ?thesis using r' by (intro exI [of _ r'] exI [of _ rq']) (auto simp: unbind(1))
  qed
  have 2: "w_owner w' c' = Some (rq_id rq')" if "w_req w' r' = Bound rq' c'" for r' rq' c'
    using that con_partD(2) [OF c, of r' rq' c'] by (auto simp: unbind(1) split: if_splits)
  show ?thesis unfolding con_part_def using 1 2 con_partD(3) [OF c] by (simp add: unbind(1))
next
  case (finish r rq)
  then show ?thesis by (intro con_part_move [OF c, of r Replied]) auto
next
  case (snapshot k ip)
  then show ?thesis using c by (simp add: con_part_def)
next
  case (cancel k ip q qs tk i)
  have "tk_con tk = tk_con (w_tokens w q)" using cancel(3) by (auto simp: token_cancel_def)
  then show ?thesis using c by (simp add: cancel(1) con_part_def)
qed

text \<open>Interrupts went to cursors of queries of the address they were sent for.\<close>

definition log_part :: "world \<Rightarrow> bool" where
  "log_part w \<longleftrightarrow> (\<forall>(ip, q, c)\<in>set (w_log w). w_ip w q = Some ip \<and> w_owner w c = Some q)"

lemma set_log_interrupt: "set (log_interrupt ip q c sent) = set sent \<union> (case c of None \<Rightarrow> {} | Some con \<Rightarrow> {(ip, q, con)})"
  by (simp add: log_interrupt_def split: option.splits)

lemma log_part_same: "log_part w \<Longrightarrow> w_log w' = w_log w \<Longrightarrow> w_ip w' = w_ip w \<Longrightarrow> w_owner w' = w_owner w \<Longrightarrow> log_part w'"
  by (simp add: log_part_def)

lemma log_part_step:
  assumes "server_step mc spi w w'" and p: "slots_part mc spi w" and i: "ip_part w" and c: "con_part w" and l: "log_part w"
  shows "log_part w'"
  using assms(1)
proof cases
  case (acquire r ip now rq s')
  have "slots_inv (w_slots w)" using p by (simp add: slots_part_def)
  then have "rq_id rq = sl_id_seq (w_slots w)" using acquire_refines(2) acquire(3) by blast
  then have n: "w_ip w (rq_id rq) = None" using i by (cases "w_ip w (rq_id rq)") (auto simp: ip_part_def)
  then have "a \<noteq> rq_id rq" if "(b, a, d) \<in> set (w_log w)" for a b d using l that by (auto simp: log_part_def)
  then show ?thesis using l by (fastforce simp: acquire(1) log_part_def)
next
  case (bind r rq tk ci)
  have ip: "w_ip w (rq_id rq) = Some (rq_ip rq)"
    using p i bind(2) slots_matchD(1) [of "w_slots w" "held_by w" r "rq_id rq" "rq_ip rq"]
    by (auto simp: slots_part_def ip_part_def held_by_def)
  have fresh: "w_owner w (w_cursor w) = None" using con_partD(3) [OF c, of "w_cursor w"] by (cases "w_owner w (w_cursor w)") auto
  have ci: "ci = None \<or> ci = Some (w_cursor w)" using bind(3) by (auto simp: token_bind_def)
  have old: "w_ip w q = Some a \<and> w_owner w c' = Some q" if "(a, q, c') \<in> set (w_log w)" for a q c'
    using l that by (auto simp: log_part_def)
  show ?thesis
    unfolding log_part_def bind(1) using ci ip fresh by (auto simp: set_log_interrupt dest: old)
next
  case (cancel k ip q qs tk ci)
  have ip: "w_ip w q = Some ip" using i cancel(2) by (auto simp: ip_part_def)
  have own: "w_owner w con = Some q" if "ci = Some con" for con
    using that cancel(3) con_partD(1,2) [OF c] by (fastforce simp: token_cancel_def)
  show ?thesis using l ip own by (auto simp: cancel(1) log_part_def set_log_interrupt split: option.splits)
qed (auto intro: log_part_same [OF l])

section \<open>One request\<close>

lemma acquire_release:
  assumes inv: "slots_inv s" and a: "try_acquire mc spi now ip s = (Some rq, s1)"
  shows "let s3 = release rq (set_limits (rq_id rq) x y s1) in sl_running s3 = sl_running s \<and> held s3 = held s \<and> slots_inv s3"
proof -
  let ?s2 = "set_limits (rq_id rq) x y s1"
  let ?f = "\<lambda>(j, q). (j, if j = rq_id rq then q\<lparr>rq_maxsize := x, rq_timeout := y\<rparr> else q)"
  note q = acquire_refines(2) [OF inv a]
  have fresh: "rq_id rq \<notin> set (map fst (sl_running s))" using fresh_id [OF inv] q by simp
  then have n: "map_of (sl_running s) (rq_id rq) = None" by (simp add: map_of_eq_None_iff)
  have "map ?f (sl_running s) = sl_running s" using fresh by (intro map_idI) force
  then have r2: "sl_running ?s2 = sl_running s @ [?f (rq_id rq, rq)]" using q by (simp add: set_limits_def)
  have "map_of (sl_running ?s2) (rq_id rq) = Some (rq\<lparr>rq_maxsize := x, rq_timeout := y\<rparr>)" using n by (simp add: r2 map_add_def)
  note r = release_refines [OF _ this]
  have "AList.delete (rq_id rq) (sl_running s) = sl_running s" using fresh by simp
  then have "AList.delete (rq_id rq) (sl_running ?s2) = sl_running s" unfolding r2 by (simp add: AList.delete_eq)
  then show ?thesis using r q by (simp add: Let_def set_limits_same)
qed

section \<open>Reachable states\<close>

definition world_inv :: "int \<Rightarrow> int \<Rightarrow> world \<Rightarrow> bool" where
  "world_inv mc spi w \<longleftrightarrow> slots_part mc spi w \<and> ip_part w \<and> con_part w \<and> log_part w"

lemma world_inv_step: "world_inv mc spi w \<Longrightarrow> server_step mc spi w w' \<Longrightarrow> world_inv mc spi w'"
  using slots_part_step ip_part_step con_part_step log_part_step by (auto simp: world_inv_def)

lemma world_inv_init: "world_inv mc spi (init_world ips n kills)"
  by (auto simp: world_inv_def slots_part_def ip_part_def con_part_def log_part_def init_world_def slots_inv_def held_def no_slots_def
      slots_match_def run_ips_def held_by_def new_token_def)

lemma world_inv_reach: "(server_step mc spi)\<^sup>*\<^sup>* (init_world ips n kills) w \<Longrightarrow> world_inv mc spi w"
  by (induction rule: rtranclp_induct) (auto intro: world_inv_init world_inv_step)

section \<open>Progress\<close>

fun rank :: "req_phase \<Rightarrow> nat" where
  "rank (Start ip) = 5" | "rank (Acquired rq) = 4" | "rank (Holding rq) = 3" | "rank (Bound rq c) = 2"
| "rank (Unbound rq) = 1" | "rank Replied = 0"

definition pending :: "nat \<Rightarrow> world \<Rightarrow> nat" where
  "pending n w = (\<Sum>r<n. rank (w_req w r))"

lemma pending_decreases:
  "r < n \<Longrightarrow> w_req w' = (w_req w)(r := ph) \<Longrightarrow> rank ph < rank (w_req w r) \<Longrightarrow> pending n w' < pending n w"
  unfolding pending_def by (rule sum_strict_mono_ex1) auto

lemma step_down:
  "server_step mc spi w w' \<Longrightarrow> r < n \<Longrightarrow> w_req w' = (w_req w)(r := ph) \<Longrightarrow> rank ph < rank (w_req w r) \<Longrightarrow>
   \<exists>w'. server_step mc spi w w' \<and> pending n w' < pending n w"
  using pending_decreases by blast

text \<open>Every request that is not answered can take a step, towards its answer.\<close>

lemma request_progress:
  assumes "r < n" and "w_req w r \<noteq> Replied"
  shows "\<exists>w'. server_step mc spi w w' \<and> pending n w' < pending n w"
proof (cases "w_req w r")
  case (Start ip)
  obtain res s' where a: "try_acquire mc spi 0 ip (w_slots w) = (res, s')" by fastforce
  show ?thesis
  proof (cases res)
    case None
    show ?thesis by (rule step_down [OF server_step.reject [OF Start a [unfolded None]] assms(1)]) (auto simp: Start)
  next
    case (Some rq)
    show ?thesis by (rule step_down [OF server_step.acquire [OF Start a [unfolded Some]] assms(1)]) (auto simp: Start)
  qed
next
  case (Acquired rq)
  show ?thesis by (rule step_down [OF server_step.limits [OF Acquired] assms(1)]) (auto simp: Acquired)
next
  case (Holding rq)
  show ?thesis by (rule step_down [OF server_step.no_engine [OF Holding] assms(1)]) (auto simp: Holding)
next
  case (Bound rq c)
  show ?thesis by (rule step_down [OF server_step.unbind [OF Bound] assms(1)]) (auto simp: Bound)
next
  case (Unbound rq)
  show ?thesis by (rule step_down [OF server_step.finish [OF Unbound] assms(1)]) (auto simp: Unbound)
qed (use assms in simp)

lemma others_replied: "(server_step mc spi)\<^sup>*\<^sup>* (init_world ips n kills) w \<Longrightarrow> n \<le> r \<Longrightarrow> w_req w r = Replied"
  by (induction arbitrary: r rule: rtranclp_induct) (auto simp: init_world_def elim!: server_step.cases)

lemma steps_never_add_pending:
  assumes "server_step mc spi w w'"
  shows "pending n w' \<le> pending n w"
proof -
  have "rank (w_req w' r) \<le> rank (w_req w r)" for r using assms by cases auto
  then show ?thesis unfolding pending_def by (intro sum_mono) auto
qed

lemma all_can_reply:
  "(server_step mc spi)\<^sup>*\<^sup>* (init_world ips n kills) w \<Longrightarrow>
   \<exists>w'. (server_step mc spi)\<^sup>*\<^sup>* w w' \<and> (\<forall>r. w_req w' r = Replied)"
proof (induction "pending n w" arbitrary: w rule: less_induct)
  case less
  show ?case
  proof (cases "\<exists>r<n. w_req w r \<noteq> Replied")
    case True
    then obtain w1 where w1: "server_step mc spi w w1" "pending n w1 < pending n w" using request_progress by blast
    then have "(server_step mc spi)\<^sup>*\<^sup>* (init_world ips n kills) w1" using less.prems by auto
    then obtain w' where "(server_step mc spi)\<^sup>*\<^sup>* w1 w'" "\<forall>r. w_req w' r = Replied" using less.hyps [OF w1(2)] by blast
    then show ?thesis using w1(1) by (meson converse_rtranclp_into_rtranclp)
  next
    case False
    then have "w_req w r = Replied" for r using others_replied [OF less.prems, of r] by (cases "r < n") auto
    then show ?thesis by blast
  qed
qed

lemma quiescent:
  assumes "world_inv mc spi w" and r: "\<forall>r. w_req w r = Replied"
  shows "sl_running (w_slots w) = [] \<and> sl_ip_counts (w_slots w) = []"
proof -
  have inv: "slots_inv (w_slots w)" and m: "slots_match (w_slots w) (held_by w)"
    using assms(1) by (auto simp: world_inv_def slots_part_def)
  have "run_ips (w_slots w) i = None" for i
    using m r by (cases "run_ips (w_slots w) i") (auto simp: slots_match_def held_by_def)
  then have "map_of (sl_running (w_slots w)) = Map.empty" by (intro ext) (simp add: run_ips_def)
  then have e: "sl_running (w_slots w) = []" by simp
  then have "map_of (sl_ip_counts (w_slots w)) = Map.empty" using inv by (intro ext) (simp add: slots_inv_def held_def)
  then show ?thesis using e by simp
qed

end
