(* ===== verification/Server_Properties.thy ===== *)
theory Server_Properties
  imports Server_Correct
begin

text \<open>Properties of the query server: slots, cancellation and the request handler.\<close>

text \<open>
  C30: the slot table refines the multiset of the addresses that hold a slot. On a state that
  satisfies the representation invariant, \<open>_try_acquire\<close> refuses exactly when the global or the
  address's own limit is reached and changes nothing then, and otherwise adds the address;
  \<open>_release\<close> of a running query takes its address out; both keep the invariant.
\<close>

theorem slots_refine_multiset:
  assumes "slots_inv s"
  shows "(case try_acquire mc spi now ip s of
      (None, s') \<Rightarrow> (mc \<le> int (size (held s)) \<or> spi \<le> int (count (held s) ip)) \<and> s' = s
    | (Some rq, s') \<Rightarrow> int (size (held s)) < mc \<and> int (count (held s) ip) < spi \<and>
        slots_inv s' \<and> held s' = add_mset ip (held s) \<and> rq \<in> set (running_for_ip ip s')) \<and>
    (\<forall>i rq. map_of (sl_running s) i = Some rq \<longrightarrow>
       slots_inv (release rq s) \<and> held (release rq s) = held s - {#rq_ip rq#} \<and> rq_ip rq \<in># held s)"
proof (intro conjI allI impI)
  show "case try_acquire mc spi now ip s of
      (None, s') \<Rightarrow> (mc \<le> int (size (held s)) \<or> spi \<le> int (count (held s) ip)) \<and> s' = s
    | (Some rq, s') \<Rightarrow> int (size (held s)) < mc \<and> int (count (held s) ip) < spi \<and>
        slots_inv s' \<and> held s' = add_mset ip (held s) \<and> rq \<in> set (running_for_ip ip s')"
  proof (cases "try_acquire mc spi now ip s")
    case (Pair a s1)
    show ?thesis
    proof (cases a)
      case None
      then show ?thesis using acquire_refines(1) [OF assms Pair [unfolded None]] Pair by auto
    next
      case (Some rq)
      then show ?thesis using acquire_refines(2) [OF assms Pair [unfolded Some]] Pair by (simp add: running_for_ip_def)
    qed
  qed
  fix i rq
  assume i: "map_of (sl_running s) i = Some rq"
  then have "rq_id rq = i" using assms by (auto simp: slots_inv_def dest: map_of_SomeD)
  then have "map_of (sl_running s) (rq_id rq) = Some rq" using i by simp
  note r = release_refines [OF assms this]
  show "slots_inv (release rq s)" "held (release rq s) = held s - {#rq_ip rq#}" "rq_ip rq \<in># held s" using r by simp_all
qed

lemma no_slots_inv: "slots_inv no_slots"
  by (simp add: slots_inv_def no_slots_def held_def)

theorem slots_refine_multiset_witness:
  "case try_acquire 8 2 0 (lit ''10.0.0.1'') no_slots of (None, s') \<Rightarrow> False | (Some rq, s') \<Rightarrow> held s' = {#lit ''10.0.0.1''#}"
  using slots_refine_multiset [OF no_slots_inv, where mc = 8 and spi = 2 and ip = "lit ''10.0.0.1''" and now = 0]
  by (auto simp: no_slots_def held_def split: prod.splits option.splits)

text \<open>
  C31: invariant of the server under every interleaving of its requests and kills: at most
  \<open>OSMPQ_MAX_CONCURRENT\<close> queries run and at most \<open>OSMPQ_SLOTS_PER_IP\<close> of one address, the counts
  per address are exact, the queries that hold a slot are exactly those of the requests between
  their acquisition and their release, and no two requests hold the same slot.
\<close>

theorem server_slots_invariant:
  assumes "(server_step mc spi)\<^sup>*\<^sup>* (init_world ips n kills) w"
  shows "int (length (sl_running (w_slots w))) \<le> max 0 mc \<and>
    (\<forall>ip. int (length (running_for_ip ip (w_slots w))) \<le> max 0 spi \<and>
      ip_count (w_slots w) ip = int (length (running_for_ip ip (w_slots w)))) \<and>
    (\<forall>i. i \<in> fst ` set (sl_running (w_slots w)) \<longleftrightarrow> (\<exists>r rq. holding (w_req w r) = Some rq \<and> rq_id rq = i)) \<and>
    (\<forall>r r' rq rq'. holding (w_req w r) = Some rq \<and> holding (w_req w r') = Some rq' \<and> rq_id rq = rq_id rq' \<longrightarrow> r = r')"
proof -
  have p: "slots_part mc spi w" using world_inv_reach [OF assms] by (simp add: world_inv_def)
  let ?s = "w_slots w"
  have inv: "slots_inv ?s" and m: "slots_match ?s (held_by w)" using p by (auto simp: slots_part_def)
  have len: "length (sl_running ?s) = size (held ?s)" by (simp add: held_def)
  have "length (filter (\<lambda>rq. rq_ip rq = ip) (map snd xs)) = count (image_mset (rq_ip \<circ> snd) (mset xs)) ip" for ip and xs :: "(int \<times> running_query) list"
    by (induction xs) auto
  then have cnt: "length (running_for_ip ip ?s) = count (held ?s) ip" for ip
    by (simp only: running_for_ip_def held_def)
  have h: "held_by w r = Some (i, ip) \<longleftrightarrow> (\<exists>rq. holding (w_req w r) = Some rq \<and> rq_id rq = i \<and> rq_ip rq = ip)" for r i ip
    by (auto simp: held_by_def view_def)
  have k: "i \<in> fst ` set (sl_running ?s) \<longleftrightarrow> (\<exists>ip. run_ips ?s i = Some ip)" for i
    by (auto simp: run_ips_def dom_map_of_conv_image_fst [symmetric] dom_def)
  show ?thesis
  proof (intro conjI allI impI)
    show "int (length (sl_running ?s)) \<le> max 0 mc" using p by (simp add: slots_part_def len)
    show "int (length (running_for_ip ip ?s)) \<le> max 0 spi" for ip using p by (simp add: slots_part_def cnt)
    show "ip_count ?s ip = int (length (running_for_ip ip ?s))" for ip by (simp add: ip_count_held [OF inv] cnt)
    show "i \<in> fst ` set (sl_running ?s) \<longleftrightarrow> (\<exists>r rq. holding (w_req w r) = Some rq \<and> rq_id rq = i)" for i
      unfolding k using slots_matchD(1,3) [OF m] h by metis
    show "r = r'" if "holding (w_req w r) = Some rq \<and> holding (w_req w r') = Some rq' \<and> rq_id rq = rq_id rq'" for r r' rq rq'
      using slots_matchD(2) [OF m, of r' "rq_id rq'" "rq_ip rq'" r "rq_ip rq"] that h by simp
  qed
qed

text \<open>Two requests of one address, of which one has acquired its slot.\<close>

definition one_slot_world :: world where
  "one_slot_world =
     (let w = init_world (\<lambda>_. lit ''10.0.0.1'') 2 (\<lambda>_. lit ''10.0.0.1'')
      in case try_acquire 8 1 0 (lit ''10.0.0.1'') (w_slots w) of
           (Some rq, s') \<Rightarrow> w\<lparr>w_slots := s', w_tokens := (w_tokens w)(rq_id rq := new_token),
             w_ip := (w_ip w)(rq_id rq \<mapsto> lit ''10.0.0.1''), w_req := (w_req w)(0 := Acquired rq)\<rparr>
         | (None, s') \<Rightarrow> w)"

lemma one_slot_reach: "(server_step 8 1)\<^sup>*\<^sup>* (init_world (\<lambda>_. lit ''10.0.0.1'') 2 (\<lambda>_. lit ''10.0.0.1'')) one_slot_world"
proof (cases "try_acquire 8 1 0 (lit ''10.0.0.1'') (w_slots (init_world (\<lambda>_. lit ''10.0.0.1'') 2 (\<lambda>_. lit ''10.0.0.1'')))")
  case (Pair res s')
  have start: "w_req (init_world (\<lambda>_. lit ''10.0.0.1'') 2 (\<lambda>_. lit ''10.0.0.1'')) 0 = Start (lit ''10.0.0.1'')"
    by (simp add: init_world_def)
  show ?thesis
  proof (cases res)
    case (Some rq)
    show ?thesis
      using server_step.acquire [OF start Pair [unfolded Some]] Pair Some by (simp add: one_slot_world_def Let_def r_into_rtranclp)
  qed (use Pair in \<open>simp add: one_slot_world_def Let_def\<close>)
qed

theorem server_slots_invariant_witness: "ip_count (w_slots one_slot_world) (lit ''10.0.0.1'') \<le> 1 \<and> length (sl_running (w_slots one_slot_world)) = 1"
proof -
  have "length (sl_running (w_slots one_slot_world)) = 1"
    by (simp add: one_slot_world_def Let_def try_acquire_def init_world_def no_slots_def ip_count_def)
  then show ?thesis using server_slots_invariant [OF one_slot_reach] by auto
qed

text \<open>
  C32: cancellation is safe: in every reachable state, each interrupt that was sent went to a
  cursor that a query of the cancelling address had bound, and a token holds a cursor only while
  its own request is bound to it, so a kill that arrives after a query has ended interrupts
  nothing.
\<close>

theorem cancel_interrupts_own_queries:
  assumes "(server_step mc spi)\<^sup>*\<^sup>* (init_world ips n kills) w"
  shows "(\<forall>(ip, q, c)\<in>set (w_log w). w_ip w q = Some ip \<and> w_owner w c = Some q) \<and>
    (\<forall>q c. tk_con (w_tokens w q) = Some c \<longrightarrow> (\<exists>r rq. w_req w r = Bound rq c \<and> rq_id rq = q)) \<and>
    (\<forall>k ip q qs. w_kill w k = Killing ip (q # qs) \<longrightarrow> w_ip w q = Some ip)"
  using world_inv_reach [OF assms] by (auto simp: world_inv_def log_part_def con_part_def ip_part_def)

theorem cancel_interrupts_own_queries_witness: "\<forall>q. tk_con (w_tokens one_slot_world q) = None"
proof
  fix q
  have "w_req one_slot_world r \<noteq> Bound rq c" for r rq c
    by (simp add: one_slot_world_def Let_def try_acquire_def init_world_def no_slots_def ip_count_def)
  then show "tk_con (w_tokens one_slot_world q) = None"
    using cancel_interrupts_own_queries [OF one_slot_reach] by (metis option.exhaust)
qed

text \<open>
  C33: no slot is lost. From every reachable state the requests can all be answered, every
  unanswered request can take a step towards its answer and no step takes a request back; and
  when all requests are answered no slot is held and no address has a count.
\<close>

theorem server_releases_all_slots:
  assumes "(server_step mc spi)\<^sup>*\<^sup>* (init_world ips n kills) w"
  shows "(\<exists>w'. (server_step mc spi)\<^sup>*\<^sup>* w w' \<and> (\<forall>r. w_req w' r = Replied) \<and>
      sl_running (w_slots w') = [] \<and> sl_ip_counts (w_slots w') = []) \<and>
    (\<forall>r<n. w_req w r \<noteq> Replied \<longrightarrow> (\<exists>w'. server_step mc spi w w' \<and> pending n w' < pending n w)) \<and>
    (\<forall>w'. server_step mc spi w w' \<longrightarrow> pending n w' \<le> pending n w) \<and>
    ((\<forall>r. w_req w r = Replied) \<longrightarrow> sl_running (w_slots w) = [] \<and> sl_ip_counts (w_slots w) = [])"
proof (intro conjI allI impI)
  obtain w' where w': "(server_step mc spi)\<^sup>*\<^sup>* w w'" "\<forall>r. w_req w' r = Replied" using all_can_reply [OF assms] by blast
  then have "(server_step mc spi)\<^sup>*\<^sup>* (init_world ips n kills) w'" using assms by simp
  then have "sl_running (w_slots w') = [] \<and> sl_ip_counts (w_slots w') = []" using quiescent [OF world_inv_reach] w'(2) by blast
  then show "\<exists>w'. (server_step mc spi)\<^sup>*\<^sup>* w w' \<and> (\<forall>r. w_req w' r = Replied) \<and>
      sl_running (w_slots w') = [] \<and> sl_ip_counts (w_slots w') = []" using w' by blast
qed (use quiescent [OF world_inv_reach [OF assms]] request_progress steps_never_add_pending in blast)+

theorem server_releases_all_slots_witness:
  "\<exists>w'. (server_step 8 1)\<^sup>*\<^sup>* one_slot_world w' \<and> (\<forall>r. w_req w' r = Replied) \<and> sl_running (w_slots w') = []"
  using server_releases_all_slots [OF one_slot_reach] by blast

text \<open>The limit that holds when one is asked for and the server has a cap; zero asks for none.\<close>

definition limited :: "int \<Rightarrow> int \<Rightarrow> int" where
  "limited cap asked = (if asked = 0 \<or> cap < asked then cap else asked)"

text \<open>
  C34: the handler of \<open>/api/interpreter\<close>, for every engine, query and outcome: the slots are
  afterwards what they were before, up to the number of the next query; a syntax error or an
  unsupported feature is answered with status 400 and excess with 429, while other errors of
  the parser, the engine or the rendering are raised. The engine gets the program as it was parsed, all settings included, but for
  the time and size limits: each is the one asked for, or the server's own where that is smaller or where zero was asked for.
\<close>

theorem handle_interpreter_outcome:
  assumes "slots_inv s" and "handle_interpreter u env run render remark now ip query s = (out, s')"
  shows "sl_running s' = sl_running s \<and> held s' = held s \<and> slots_inv s' \<and>
    (case parse u query of
       Inl (ParseError m l c) \<Rightarrow> \<exists>r. out = Response r \<and> resp_status r = 400
     | Inl e \<Rightarrow> out = Raises e
     | Inr p \<Rightarrow>
         if max_concurrent u env \<le> int (size (held s)) \<or> slots_per_ip u env \<le> int (count (held s) ip)
         then \<exists>r. out = Response r \<and> resp_status r = 429
         else \<exists>p'. p' = p\<lparr>p_settings := (p_settings p)\<lparr>
               s_timeout := limited (max_timeout u env) (s_timeout (p_settings p)),
               s_maxsize := limited (max_maxsize u env) (s_maxsize (p_settings p))\<rparr>\<rparr> \<and>
           (case run p' (s_timeout (p_settings p')) of
              Inl (UnsupportedError m) \<Rightarrow> \<exists>r. out = Response r \<and> resp_status r = 400
            | Inl e \<Rightarrow> out = Raises e
            | Inr res \<Rightarrow> (case render res of Inl e \<Rightarrow> out = Raises e | Inr body \<Rightarrow> \<exists>r. out = Response r \<and> resp_status r = 200 \<and> resp_body r = body)))"
proof (cases "parse u query")
  case (Inl e)
  then show ?thesis using assms by (cases e) (auto simp: handle_interpreter_def html_response_def)
next
  case (Inr p)
  let ?st = "clamp_settings u env (p_settings p)" and ?mc = "max_concurrent u env" and ?spi = "slots_per_ip u env"
  let ?p = "p\<lparr>p_settings := ?st\<rparr>"
  have st: "?p = p\<lparr>p_settings := (p_settings p)\<lparr>
      s_timeout := limited (max_timeout u env) (s_timeout (p_settings p)),
      s_maxsize := limited (max_maxsize u env) (s_maxsize (p_settings p))\<rparr>\<rparr>"
    by (simp add: clamp_settings_def clamp_def limited_def min_def)
  obtain a s1 where a: "try_acquire ?mc ?spi now ip s = (a, s1)" by fastforce
  show ?thesis
  proof (cases a)
    case None
    then show ?thesis
      using acquire_refines(1) [OF assms(1) a [unfolded None]] assms a Inr
      by (auto simp: handle_interpreter_def Let_def html_response_def)
  next
    case (Some rq)
    let ?s3 = "release rq (set_limits (rq_id rq) (s_maxsize ?st) (s_timeout ?st) s1)"
    have oo: "out = run_outcome render remark (run ?p (s_timeout ?st))" "s' = ?s3"
      using assms(2) a Some Inr by (auto simp: handle_interpreter_def Let_def)
    have run: "case run ?p (s_timeout ?st) of
              Inl (UnsupportedError m) \<Rightarrow> \<exists>r. out = Response r \<and> resp_status r = 400
            | Inl e \<Rightarrow> out = Raises e
            | Inr res \<Rightarrow> (case render res of Inl e \<Rightarrow> out = Raises e | Inr body \<Rightarrow> \<exists>r. out = Response r \<and> resp_status r = 200 \<and> resp_body r = body)"
      unfolding oo(1) by (auto simp: run_outcome_def finish_response_def html_response_def split: sum.splits py_error.splits)
    have "\<not> (?mc \<le> int (size (held s)) \<or> ?spi \<le> int (count (held s) ip))"
      using acquire_refines(2) [OF assms(1) a [unfolded Some]] by auto
    moreover have "sl_running s' = sl_running s \<and> held s' = held s \<and> slots_inv s'"
      using acquire_release [OF assms(1) a [unfolded Some]] by (simp add: oo(2) Let_def)
    moreover have own: "p_settings ?p = ?st" by simp
    have "\<exists>p'. p' = p\<lparr>p_settings := (p_settings p)\<lparr>s_timeout := limited (max_timeout u env) (s_timeout (p_settings p)),
        s_maxsize := limited (max_maxsize u env) (s_maxsize (p_settings p))\<rparr>\<rparr> \<and>
      (case run p' (s_timeout (p_settings p')) of
              Inl (UnsupportedError m) \<Rightarrow> \<exists>r. out = Response r \<and> resp_status r = 400
            | Inl e \<Rightarrow> out = Raises e
            | Inr res \<Rightarrow> (case render res of Inl e \<Rightarrow> out = Raises e | Inr body \<Rightarrow> \<exists>r. out = Response r \<and> resp_status r = 200 \<and> resp_body r = body))"
      by (rule exI [of _ ?p], rule conjI, rule st) (use run in \<open>simp only: own\<close>)
    ultimately show ?thesis unfolding Inr sum.case by (simp only: if_False simp_thms)
  qed
qed

theorem handle_interpreter_outcome_witness:
  "\<exists>r s'. handle_interpreter ascii_db [] (\<lambda>p t. Inr ()) (\<lambda>_. Inr (lit ''ok'')) (\<lambda>_. None) 0 (lit ''10.0.0.1'') (lit ''out;'') no_slots =
     (Response r, s') \<and> resp_status r = 200 \<and> sl_running s' = []"
proof -
  obtain out s' where h: "handle_interpreter ascii_db [] (\<lambda>p t. Inr ()) (\<lambda>_. Inr (lit ''ok'')) (\<lambda>_. None) 0 (lit ''10.0.0.1'')
      (lit ''out;'') no_slots = (out, s')" by fastforce
  have "isl (parse ascii_db (lit ''out;'')) = False" by code_simp
  then obtain p where p: "parse ascii_db (lit ''out;'') = Inr p" by (cases "parse ascii_db (lit ''out;'')") auto
  have "max_concurrent ascii_db [] = 8" "slots_per_ip ascii_db [] = 2"
    by (simp_all add: max_concurrent_def slots_per_ip_def server_env_int_def)
  then show ?thesis
    using handle_interpreter_outcome [OF no_slots_inv h] h by (auto simp: p held_def no_slots_def)
qed

end
