(* ===== verification/Update_Server.thy ===== *)
theory Update_Server
  imports Manifest_Correct
begin

text \<open>
  \<^verbatim>\<open>src/src/osmpq/update/server.py\<close>: the update endpoint. One run at a time: the module's
  \<open>_running\<close> flag is tested and set under a lock by \<open>run_endpoint\<close> and cleared under it by the
  worker. The update itself (\<open>run_once\<close>) is an argument.
\<close>

section \<open>Options\<close>

record update_options =
  uo_root :: pystr
  uo_source :: "pystr option"
  uo_max_diffs :: int
  uo_tmpdir :: "pystr option"
  uo_threads :: "int option"
  uo_memory_limit :: "pystr option"

definition env_or_none :: "(string \<times> pystr) list \<Rightarrow> string \<Rightarrow> pystr option" where
  "env_or_none env nm = (case map_of env nm of Some (c # cs) \<Rightarrow> Some (c # cs) | _ \<Rightarrow> None)"

definition update_env_int :: "unicode_db \<Rightarrow> (string \<times> pystr) list \<Rightarrow> string \<Rightarrow> int option" where
  "update_env_int u env nm =
     (case env_or_none env nm of None \<Rightarrow> None
      | Some raw \<Rightarrow> (case int_of_text u raw of Inr n \<Rightarrow> Some n | Inl _ \<Rightarrow> None))"

definition build_options :: "unicode_db \<Rightarrow> (string \<times> pystr) list \<Rightarrow> update_options result" where
  "build_options u env =
     (case env_or_none env ''OSMPQ_ROOT'' of
        None \<Rightarrow> Inl RuntimeError
      | Some r \<Rightarrow>
          Inr \<lparr>uo_root = r, uo_source = env_or_none env ''OSMPQ_REPLICATION_SOURCE'',
            uo_max_diffs = (case update_env_int u env ''OSMPQ_UPDATE_MAX_DIFFS'' of Some n \<Rightarrow> if n = 0 then 60 else n | None \<Rightarrow> 60),
            uo_tmpdir = env_or_none env ''OSMPQ_UPDATE_TMPDIR'', uo_threads = update_env_int u env ''OSMPQ_UPDATE_THREADS'',
            uo_memory_limit = env_or_none env ''OSMPQ_UPDATE_MEMORY_LIMIT''\<rparr>)"

section \<open>Status\<close>

text \<open>Every exception is answered with nothing.\<close>

definition manifest_info :: "unicode_db \<Rightarrow> ('s, blob) store_ops \<Rightarrow> 's \<Rightarrow> int option \<times> json option" where
  "manifest_info u ops s =
     ((case rbind (read_bytes ops s latest_file) (int_of_bytes u) of Inr n \<Rightarrow> Some n | Inl _ \<Rightarrow> None),
      (case load_latest u ops s of Inr m \<Rightarrow> Some (mf_timestamp_osm_base m) | Inl _ \<Rightarrow> None))"

section \<open>Runs\<close>

datatype 'r run_phase = RStart | RRunning | REnding "'r result" | RReplied nat

record 'r updater =
  u_running :: bool
  u_last_summary :: "'r option"
  u_last_error :: "py_error option"
  u_req :: "nat \<Rightarrow> 'r run_phase"

text \<open>The body of \<open>_run_locked\<close> up to its \<open>finally\<close>.\<close>

definition run_body :: "unicode_db \<Rightarrow> (string \<times> pystr) list \<Rightarrow> (update_options \<Rightarrow> 'r result) \<Rightarrow> 'r updater \<Rightarrow> 'r result \<times> 'r updater" where
  "run_body u env run_once st =
     (case rbind (build_options u env) run_once of
        Inr summary \<Rightarrow> (Inr summary, st\<lparr>u_last_summary := Some summary, u_last_error := None\<rparr>)
      | Inl e \<Rightarrow> (Inl e, st\<lparr>u_last_error := Some e\<rparr>))"

inductive update_step :: "unicode_db \<Rightarrow> (string \<times> pystr) list \<Rightarrow> (update_options \<Rightarrow> 'r result) \<Rightarrow> 'r updater \<Rightarrow> 'r updater \<Rightarrow> bool"
  for u env run_once where
  busy: "u_req st r = RStart \<Longrightarrow> u_running st \<Longrightarrow> update_step u env run_once st (st\<lparr>u_req := (u_req st)(r := RReplied 409)\<rparr>)"
| start: "u_req st r = RStart \<Longrightarrow> \<not> u_running st \<Longrightarrow>
     update_step u env run_once st (st\<lparr>u_running := True, u_req := (u_req st)(r := RRunning)\<rparr>)"
| body: "u_req st r = RRunning \<Longrightarrow> run_body u env run_once st = (res, st') \<Longrightarrow>
     update_step u env run_once st (st'\<lparr>u_req := (u_req st')(r := REnding res)\<rparr>)"
| ending: "u_req st r = REnding res \<Longrightarrow>
     update_step u env run_once st (st\<lparr>u_running := False,
       u_req := (u_req st)(r := RReplied (case res of Inr _ \<Rightarrow> 200 | Inl _ \<Rightarrow> 500))\<rparr>)"

definition init_updater :: "nat \<Rightarrow> 'r updater" where
  "init_updater n = \<lparr>u_running = False, u_last_summary = None, u_last_error = None, u_req = (\<lambda>r. if r < n then RStart else RReplied 0)\<rparr>"

section \<open>Mutual exclusion\<close>

fun running_phase :: "'r run_phase \<Rightarrow> bool" where
  "running_phase RRunning = True" | "running_phase (REnding res) = True" | "running_phase RStart = False" | "running_phase (RReplied n) = False"

definition updater_inv :: "'r updater \<Rightarrow> bool" where
  "updater_inv st \<longleftrightarrow> (u_running st \<longleftrightarrow> (\<exists>r. running_phase (u_req st r))) \<and>
     (\<forall>r r'. running_phase (u_req st r) \<and> running_phase (u_req st r') \<longrightarrow> r = r')"

lemma run_body_same: "run_body u env run_once st = (res, st') \<Longrightarrow> u_running st' = u_running st \<and> u_req st' = u_req st"
  by (auto simp: run_body_def split: sum.splits)

lemma updater_inv_upd:
  assumes inv: "updater_inv st" and q: "u_req st' = (u_req st)(r := ph)"
    and f: "u_running st' = (if running_phase ph then True else if running_phase (u_req st r) then False else u_running st)"
    and g: "running_phase ph \<Longrightarrow> running_phase (u_req st r) \<or> \<not> u_running st"
  shows "updater_inv st'"
proof -
  have run: "u_running st \<longleftrightarrow> (\<exists>x. running_phase (u_req st x))" using inv by (simp add: updater_inv_def)
  have one: "x = y" if "running_phase (u_req st x)" "running_phase (u_req st y)" for x y
    using inv that by (simp add: updater_inv_def)
  consider (on) "running_phase ph" | (off) "\<not> running_phase ph" "running_phase (u_req st r)"
    | (same) "\<not> running_phase ph" "\<not> running_phase (u_req st r)" by blast
  then show ?thesis
  proof cases
    case on
    have "x = r" if "running_phase (u_req st x)" for x using g [OF on] run one that by blast
    then have "running_phase (u_req st' x) \<longleftrightarrow> x = r" for x using on by (cases "x = r") (auto simp: q)
    then show ?thesis using on f by (simp add: updater_inv_def)
  next
    case off
    have none: "\<not> running_phase (u_req st' x)" for x using one [OF off(2), of x] off(1) by (cases "x = r") (auto simp: q)
    then show ?thesis using f off by (simp add: updater_inv_def)
  next
    case same
    then have "running_phase (u_req st' x) = running_phase (u_req st x)" for x by (simp add: q)
    then show ?thesis using same f inv by (simp add: updater_inv_def)
  qed
qed

lemma updater_inv_step: "update_step u env run_once st st' \<Longrightarrow> updater_inv st \<Longrightarrow> updater_inv st'"
proof (induction rule: update_step.induct)
  case (busy st r)
  then show ?case by (intro updater_inv_upd [OF busy(3), of _ r "RReplied 409"]) auto
next
  case (start st r)
  then show ?case by (intro updater_inv_upd [OF start(3), of _ r RRunning]) auto
next
  case (body st r res st')
  note s = run_body_same [OF body(2)]
  have "u_running st" using body(1,3) unfolding updater_inv_def by (metis running_phase.simps(1))
  then show ?case using s body(1) by (intro updater_inv_upd [OF body(3), of _ r "REnding res"]) auto
next
  case (ending st r res)
  then show ?case by (intro updater_inv_upd [OF ending(2), of _ r "RReplied (case res of Inr _ \<Rightarrow> 200 | Inl _ \<Rightarrow> 500)"]) auto
qed

lemma updater_inv_reach: "(update_step u env run_once)\<^sup>*\<^sup>* (init_updater n) st \<Longrightarrow> updater_inv st"
proof (induction rule: rtranclp_induct)
  case base
  then show ?case by (simp add: updater_inv_def init_updater_def)
qed (rule updater_inv_step)

text \<open>A run that has started can always go on to its answer, and the flag is then clear.\<close>

lemma run_can_end:
  assumes "updater_inv st" and "running_phase (u_req st r)"
  shows "\<exists>st' n. (update_step u env run_once)\<^sup>*\<^sup>* st st' \<and> u_req st' r = RReplied n \<and> \<not> u_running st'"
proof -
  have last: "\<exists>st' n. (update_step u env run_once)\<^sup>*\<^sup>* s st' \<and> u_req st' r = RReplied n \<and> \<not> u_running st'"
    if "u_req s r = REnding res" for s res
    by (rule exI, rule exI, intro conjI, rule r_into_rtranclp, rule update_step.ending [OF that]) simp_all
  show ?thesis
  proof (cases "u_req st r")
    case RRunning
    obtain res st1 where b: "run_body u env run_once st = (res, st1)" by fastforce
    let ?s = "st1\<lparr>u_req := (u_req st1)(r := REnding res)\<rparr>"
    have "update_step u env run_once st ?s" using update_step.body [OF RRunning b] .
    then show ?thesis using last [of ?s res] by (auto intro: converse_rtranclp_into_rtranclp)
  qed (use assms(2) last in auto)
qed

end
