(* ===== verification/Replication.thy ===== *)
theory Replication
  imports PyInt "HOL-Library.AList"
begin

text \<open>
  \<^verbatim>\<open>src/src/osmpq/update/replication.py\<close>: the client of a replication directory. The HTTP client is
  an argument: a function that answers one GET and changes a network state. The download
  directory is a map from file names to contents.
\<close>

section \<open>Names and state files\<close>

definition zfill3 :: "nat \<Rightarrow> pystr" where
  "zfill3 n = replicate (3 - length (py_str_nat n)) 48 @ py_str_nat n"

definition sequence_path :: "int \<Rightarrow> pystr result" where
  "sequence_path seq =
     (if seq < 0 then Inl ValueError
      else let n = nat seq
           in Inr (zfill3 (n div 1000000) @ [47] @ zfill3 (n div 1000 mod 1000) @ [47] @ zfill3 (n mod 1000)))"

text \<open>\<open>splitlines\<close>, with the text of the current line reversed.\<close>

definition line_break :: "nat \<Rightarrow> bool" where
  "line_break c \<longleftrightarrow> c \<in> {10, 11, 12, 13, 28, 29, 30, 133, 8232, 8233}"

function splitlines_acc :: "pystr \<Rightarrow> pystr \<Rightarrow> pystr list" where
  "splitlines_acc [] acc = (if acc = [] then [] else [rev acc])"
| "splitlines_acc (c # cs) acc =
     (if line_break c
      then rev acc # splitlines_acc (if c = 13 \<and> cs \<noteq> [] \<and> hd cs = 10 then tl cs else cs) []
      else splitlines_acc cs (c # acc))"
  by pat_completeness auto
termination by (relation "measure (\<lambda>(cs, acc). length cs)") auto

definition splitlines :: "pystr \<Rightarrow> pystr list" where
  "splitlines s = splitlines_acc s []"

text \<open>\<open>replace\<close> of a two-character text by one character.\<close>

fun replace2 :: "nat \<Rightarrow> nat \<Rightarrow> nat \<Rightarrow> pystr \<Rightarrow> pystr" where
  "replace2 a b r (x # y # s) = (if x = a \<and> y = b then r # replace2 a b r s else x # replace2 a b r (y # s))"
| "replace2 a b r s = s"

definition state_line :: "unicode_db \<Rightarrow> pystr \<Rightarrow> int option \<times> pystr option \<Rightarrow> (int option \<times> pystr option) result" where
  "state_line u line st =
     (case st of (seq, ts) \<Rightarrow>
      let line = py_strip u line
      in if line = [] \<or> hd line = 35 \<or> 61 \<notin> set line then Inr (seq, ts)
         else let key = takeWhile (\<lambda>c. c \<noteq> 61) line; value = tl (dropWhile (\<lambda>c. c \<noteq> 61) line);
                  value = replace2 92 92 92 (replace2 92 58 58 value)
              in if key = lit ''sequenceNumber'' then rbind (int_of_text u value) (\<lambda>n. Inr (Some n, ts))
                 else if key = lit ''timestamp'' then Inr (seq, Some value)
                 else Inr (seq, ts))"

fun state_lines :: "unicode_db \<Rightarrow> pystr list \<Rightarrow> int option \<times> pystr option \<Rightarrow> (int option \<times> pystr option) result" where
  "state_lines u [] st = Inr st"
| "state_lines u (l # ls) st = rbind (state_line u l st) (state_lines u ls)"

definition parse_state_text :: "unicode_db \<Rightarrow> pystr \<Rightarrow> (int \<times> pystr option) result" where
  "parse_state_text u text =
     rbind (state_lines u (splitlines text) (None, None)) (\<lambda>(seq, ts).
       case seq of None \<Rightarrow> Inl ValueError | Some n \<Rightarrow> Inr (n, ts))"

section \<open>Requests\<close>

datatype http = Transport | Reply nat pystr

type_synonym 'n client = "'n \<Rightarrow> pystr \<Rightarrow> http \<times> 'n"

text \<open>\<open>raise_for_status\<close> accepts the 2xx codes. The pauses between attempts are not modelled.\<close>

fun get_loop :: "'n client \<Rightarrow> pystr \<Rightarrow> nat \<Rightarrow> py_error option \<Rightarrow> 'n \<Rightarrow> pystr option result \<times> 'n" where
  "get_loop get url 0 last_exc net = (Inl (case last_exc of Some e \<Rightarrow> e | None \<Rightarrow> RuntimeError), net)"
| "get_loop get url (Suc k) last_exc net =
     (case get net url of
        (Transport, net') \<Rightarrow> get_loop get url k (Some HTTPError) net'
      | (Reply code body, net') \<Rightarrow>
          if code = 404 then (Inr None, net')
          else if 500 \<le> code then get_loop get url k (Some HTTPError) net'
          else if 200 \<le> code \<and> code < 300 then (Inr (Some body), net')
          else (Inl HTTPError, net'))"

record replication_client =
  rc_source :: pystr
  rc_retries :: int

definition ReplicationClient :: "pystr \<Rightarrow> int \<Rightarrow> replication_client" where
  "ReplicationClient source retries =
     \<lparr>rc_source = rev (dropWhile (\<lambda>c. c = 47) (rev source)), rc_retries = retries\<rparr>"

definition client_get :: "replication_client \<Rightarrow> 'n client \<Rightarrow> pystr \<Rightarrow> 'n \<Rightarrow> pystr option result \<times> 'n" where
  "client_get rc get url net = get_loop get url (nat (rc_retries rc)) None net"

definition latest_sequence :: "unicode_db \<Rightarrow> replication_client \<Rightarrow> 'n client \<Rightarrow> 'n \<Rightarrow> int result \<times> 'n" where
  "latest_sequence u rc get net =
     (case client_get rc get (rc_source rc @ lit ''/state.txt'') net of
        (Inl e, net') \<Rightarrow> (Inl e, net')
      | (Inr None, net') \<Rightarrow> (Inl RuntimeError, net')
      | (Inr (Some body), net') \<Rightarrow> (rbind (parse_state_text u body) (\<lambda>(seq, ts). Inr seq), net'))"

section \<open>Downloads\<close>

type_synonym files = "(pystr \<times> pystr) list"

record fetch_result =
  fr_seq :: int
  fr_osc_path :: pystr
  fr_state_path :: pystr
  fr_timestamp :: "pystr option"

definition osc_name :: "int \<Rightarrow> pystr" where "osc_name seq = py_str_int seq @ lit ''.osc.gz''"
definition state_name :: "int \<Rightarrow> pystr" where "state_name seq = py_str_int seq @ lit ''.state.txt''"
definition part_name :: "int \<Rightarrow> pystr" where "part_name seq = py_str_int seq @ lit ''.osc.osc.gz.part''"

text \<open>The cached state file: its timestamp, or its removal when it cannot be read.\<close>

definition cached_state :: "unicode_db \<Rightarrow> int \<Rightarrow> files \<Rightarrow> pystr option \<times> files" where
  "cached_state u seq dir =
     (case map_of dir (state_name seq) of
        None \<Rightarrow> (None, dir)
      | Some body \<Rightarrow> (case parse_state_text u body of Inr (_, ts) \<Rightarrow> (ts, dir) | Inl _ \<Rightarrow> (None, AList.delete (state_name seq) dir)))"

definition fetch_osc :: "replication_client \<Rightarrow> 'n client \<Rightarrow> int \<Rightarrow> pystr \<Rightarrow> pystr option \<Rightarrow> files \<Rightarrow> 'n \<Rightarrow>
    fetch_result option result \<times> files \<times> 'n" where
  "fetch_osc rc get seq frag ts dir net =
     (let fr = \<lparr>fr_seq = seq, fr_osc_path = osc_name seq, fr_state_path = state_name seq, fr_timestamp = ts\<rparr>
      in if map_of dir (osc_name seq) \<noteq> None then (Inr (Some fr), dir, net)
         else case client_get rc get (rc_source rc @ [47] @ frag @ lit ''.osc.gz'') net of
                (Inl e, net') \<Rightarrow> (Inl e, dir, net')
              | (Inr None, net') \<Rightarrow> (Inr None, dir, net')
              | (Inr (Some body), net') \<Rightarrow>
                  (Inr (Some fr), AList.update (osc_name seq) body (AList.delete (part_name seq) dir), net'))"

definition fetch :: "unicode_db \<Rightarrow> replication_client \<Rightarrow> 'n client \<Rightarrow> int \<Rightarrow> files \<Rightarrow> 'n \<Rightarrow> fetch_result option result \<times> files \<times> 'n" where
  "fetch u rc get seq dir net =
     (case sequence_path seq of
        Inl e \<Rightarrow> (Inl e, dir, net)
      | Inr frag \<Rightarrow>
          (case cached_state u seq dir of (ts, dir) \<Rightarrow>
           if map_of dir (state_name seq) \<noteq> None then fetch_osc rc get seq frag ts dir net
           else case client_get rc get (rc_source rc @ [47] @ frag @ lit ''.state.txt'') net of
                  (Inl e, net') \<Rightarrow> (Inl e, dir, net')
                | (Inr None, net') \<Rightarrow> (Inr None, dir, net')
                | (Inr (Some body), net') \<Rightarrow>
                    (let dir = AList.update (state_name seq) body dir
                     in case parse_state_text u body of
                          Inl e \<Rightarrow> (Inl e, dir, net')
                        | Inr (_, ts) \<Rightarrow> fetch_osc rc get seq frag ts dir net')))"

fun fetch_loop :: "unicode_db \<Rightarrow> replication_client \<Rightarrow> 'n client \<Rightarrow> nat \<Rightarrow> int \<Rightarrow> int \<Rightarrow> files \<Rightarrow> 'n \<Rightarrow> fetch_result list result \<times> files \<times> 'n" where
  "fetch_loop u rc get 0 seq latest dir net = (Inr [], dir, net)"
| "fetch_loop u rc get (Suc k) seq latest dir net =
     (if latest < seq then (Inr [], dir, net)
      else case fetch u rc get seq dir net of
             (Inl e, dir, net) \<Rightarrow> (Inl e, dir, net)
           | (Inr None, dir, net) \<Rightarrow> (Inr [], dir, net)
           | (Inr (Some r), dir, net) \<Rightarrow>
               (case fetch_loop u rc get k (seq + 1) latest dir net of
                  (Inl e, dir, net) \<Rightarrow> (Inl e, dir, net)
                | (Inr rs, dir, net) \<Rightarrow> (Inr (r # rs), dir, net)))"

definition fetch_range :: "unicode_db \<Rightarrow> replication_client \<Rightarrow> 'n client \<Rightarrow> int \<Rightarrow> int \<Rightarrow> files \<Rightarrow> 'n \<Rightarrow> fetch_result list result \<times> files \<times> 'n" where
  "fetch_range u rc get from_seq max_diffs dir net =
     (case latest_sequence u rc get net of
        (Inl e, net') \<Rightarrow> (Inl e, dir, net')
      | (Inr latest, net') \<Rightarrow> fetch_loop u rc get (nat max_diffs) from_seq latest dir net')"

section \<open>Names\<close>

lemma py_str_int_inj: "py_str_int a = py_str_int b \<longleftrightarrow> a = b"
proof
  assume "py_str_int a = py_str_int b"
  then have "(Inr a :: int result) = Inr b" unfolding int_of_int_text [of ascii_db, symmetric] by (rule arg_cong)
  then show "a = b" by simp
qed simp

lemma py_str_int_chars: "c \<in> set (py_str_int n) \<Longrightarrow> c = 45 \<or> 48 \<le> c \<and> c \<le> 57"
  using py_str_nat_digits [of "nat \<bar>n\<bar>"] by (auto simp: py_str_int_form list_all_iff ascii_digit_def split: if_splits)

lemma until_dot: "takeWhile (\<lambda>c. c \<noteq> 46) (py_str_int n @ 46 # s) = py_str_int n" "dropWhile (\<lambda>c. c \<noteq> 46) (py_str_int n @ 46 # s) = 46 # s"
proof -
  have "\<forall>c\<in>set (py_str_int n). c \<noteq> 46" using py_str_int_chars by force
  then show "takeWhile (\<lambda>c. c \<noteq> 46) (py_str_int n @ 46 # s) = py_str_int n" "dropWhile (\<lambda>c. c \<noteq> 46) (py_str_int n @ 46 # s) = 46 # s"
    by (simp_all add: takeWhile_append dropWhile_append)
qed

lemma dotted_inj: "py_str_int a @ 46 # s = py_str_int b @ 46 # t \<longleftrightarrow> a = b \<and> s = t"
  using until_dot [of a s] until_dot [of b t] py_str_int_inj by (metis list.inject)

lemma names [simp]:
  "osc_name a = osc_name b \<longleftrightarrow> a = b" "state_name a = state_name b \<longleftrightarrow> a = b" "part_name a = part_name b \<longleftrightarrow> a = b"
  "osc_name a \<noteq> state_name b" "state_name a \<noteq> osc_name b" "part_name a \<noteq> osc_name b" "osc_name a \<noteq> part_name b"
  "part_name a \<noteq> state_name b" "state_name a \<noteq> part_name b"
  by (simp_all add: osc_name_def state_name_def part_name_def lit_def dotted_inj py_str_int_inj)

section \<open>Downloads\<close>

text \<open>A downloaded sequence: its change file is there, and its state file, which has the timestamp.\<close>

definition downloaded :: "unicode_db \<Rightarrow> files \<Rightarrow> fetch_result \<Rightarrow> bool" where
  "downloaded u dir r \<longleftrightarrow> map_of dir (osc_name (fr_seq r)) \<noteq> None \<and>
     (\<exists>body n. map_of dir (state_name (fr_seq r)) = Some body \<and> parse_state_text u body = Inr (n, fr_timestamp r))"

lemma downloaded_other:
  assumes "downloaded u dir r" and "fr_seq r \<noteq> seq" and "fetch u rc get seq dir net = (res, dir', net')"
  shows "downloaded u dir' r"
proof -
  have "map_of dir' (osc_name (fr_seq r)) = map_of dir (osc_name (fr_seq r)) \<and> map_of dir' (state_name (fr_seq r)) = map_of dir (state_name (fr_seq r))"
    using assms(2,3)
    by (auto simp: fetch_def fetch_osc_def cached_state_def Let_def update_conv' delete_conv' split: sum.splits option.splits prod.splits if_splits)
  then show ?thesis using assms(1) by (simp add: downloaded_def)
qed

lemma fetch_osc_downloaded:
  assumes "fetch_osc rc get seq frag ts dir net = (Inr (Some r), dir', net')"
    and "map_of dir (state_name seq) = Some body" and "parse_state_text u body = Inr (n, ts)"
  shows "fr_seq r = seq \<and> downloaded u dir' r"
  using assms
  by (auto simp: fetch_osc_def Let_def downloaded_def update_conv' delete_conv' split: sum.splits option.splits prod.splits if_splits)

lemma fetch_downloaded:
  assumes "fetch u rc get seq dir net = (Inr (Some r), dir', net')"
  shows "fr_seq r = seq \<and> downloaded u dir' r"
proof -
  obtain frag where frag: "sequence_path seq = Inr frag" using assms by (auto simp: fetch_def split: sum.splits)
  obtain ts dir1 where c: "cached_state u seq dir = (ts, dir1)" by fastforce
  show ?thesis
  proof (cases "map_of dir1 (state_name seq)")
    case (Some body)
    then obtain n where p: "parse_state_text u body = Inr (n, ts)"
      using c by (auto simp: cached_state_def delete_conv' split: option.splits sum.splits)
    have f: "fetch_osc rc get seq frag ts dir1 net = (Inr (Some r), dir', net')"
      using assms c Some frag by (simp add: fetch_def)
    show ?thesis by (rule fetch_osc_downloaded [OF f Some p])
  next
    case None
    obtain body n ts net1 where p: "parse_state_text u body = Inr (n, ts)"
      and f: "fetch_osc rc get seq frag ts (AList.update (state_name seq) body dir1) net1 = (Inr (Some r), dir', net')"
      using assms c None frag by (auto simp: fetch_def Let_def split: sum.splits option.splits prod.splits)
    show ?thesis by (rule fetch_osc_downloaded [OF f _ p]) (simp add: update_conv')
  qed
qed

lemma fetch_loop_spec:
  "fetch_loop u rc get k seq latest dir net = (Inr rs, dir', net') \<Longrightarrow>
   length rs \<le> k \<and> map fr_seq rs = map (\<lambda>i. seq + int i) [0..<length rs] \<and> (rs \<noteq> [] \<longrightarrow> seq + int (length rs) - 1 \<le> latest) \<and>
   (\<forall>r\<in>set rs. downloaded u dir' r) \<and> (\<forall>r. fr_seq r < seq \<and> downloaded u dir r \<longrightarrow> downloaded u dir' r)"
proof (induction k arbitrary: seq dir net rs)
  case (Suc k)
  show ?case
  proof (cases "latest < seq")
    case False
    obtain res dir1 net1 where f: "fetch u rc get seq dir net = (res, dir1, net1)" by (cases "fetch u rc get seq dir net") auto
    have other: "downloaded u dir1 r" if "fr_seq r < seq" "downloaded u dir r" for r using downloaded_other [OF that(2) _ f] that(1) by simp
    show ?thesis
    proof (cases res)
      case (Inr fr)
      show ?thesis
      proof (cases fr)
        case None
        then show ?thesis using Suc.prems False f Inr other by auto
      next
        case (Some r)
        obtain rs1 where l: "fetch_loop u rc get k (seq + 1) latest dir1 net1 = (Inr rs1, dir', net')" and rs: "rs = r # rs1"
          using Suc.prems False f Inr Some by (auto split: sum.splits prod.splits)
        note IH = Suc.IH [OF l] and d = fetch_downloaded [OF f [unfolded Inr Some]]
        have "map fr_seq rs = map (\<lambda>i. seq + int i) [0..<length rs]"
          using IH d by (simp add: rs upt_conv_Cons map_Suc_upt [symmetric] del: upt_Suc)
        moreover have "seq + int (length rs) - 1 \<le> latest" using IH False by (cases "rs1 = []") (auto simp: rs)
        moreover have "downloaded u dir' r'" if "fr_seq r' < seq + 1" "downloaded u dir1 r'" for r' using IH that by blast
        ultimately show ?thesis using IH d other by (auto simp: rs)
      qed
    qed (use Suc.prems False f in auto)
  qed (use Suc.prems in auto)
qed simp

text \<open>The loop stops before its limit only where a sequence is not published.\<close>

text \<open>Nothing is returned only where the server answers 404.\<close>

lemma get_loop_None: "get_loop get url k e net = (Inr None, net') \<Longrightarrow> \<exists>net0 body. get net0 url = (Reply 404 body, net')"
  by (induction k arbitrary: e net) (auto split: prod.splits http.splits if_splits)

lemma fetch_None:
  assumes "fetch u rc get seq dir net = (Inr None, dir', net')"
  shows "\<exists>frag ext net0 body. sequence_path seq = Inr frag \<and> ext \<in> {''.state.txt'', ''.osc.gz''} \<and>
    get net0 (rc_source rc @ [47] @ frag @ lit ext) = (Reply 404 body, net')"
  using assms
  by (fastforce simp: fetch_def fetch_osc_def client_get_def Let_def dest!: get_loop_None split: sum.splits option.splits prod.splits if_splits)

lemma fetch_loop_stop:
  "fetch_loop u rc get k seq latest dir net = (Inr rs, dir', net') \<Longrightarrow> length rs < k \<Longrightarrow> seq + int (length rs) \<le> latest \<Longrightarrow>
   \<exists>dir1 net1. fetch u rc get (seq + int (length rs)) dir1 net1 = (Inr None, dir', net')"
proof (induction k arbitrary: seq dir net rs)
  case (Suc k)
  obtain fr dir1 net1 where f: "fetch u rc get seq dir net = (Inr fr, dir1, net1)"
    using Suc.prems by (auto split: prod.splits sum.splits if_splits)
  show ?case
  proof (cases fr)
    case None
    then show ?thesis using Suc.prems f by (auto split: if_splits)
  next
    case (Some r)
    obtain rs1 where l: "fetch_loop u rc get k (seq + 1) latest dir1 net1 = (Inr rs1, dir', net')" and rs: "rs = r # rs1"
      using Suc.prems f Some by (auto split: sum.splits prod.splits if_splits)
    then show ?thesis using Suc.IH [OF l] Suc.prems(2,3) by (simp add: rs algebra_simps)
  qed
qed simp

section \<open>State files\<close>

text \<open>A state file as osmosis writes it: comments, the sequence number and the timestamp, escaped.\<close>

definition escape_value :: "pystr \<Rightarrow> pystr" where
  "escape_value s = concat (map (\<lambda>c. if c = 92 then [92, 92] else if c = 58 then [92, 58] else [c]) s)"

definition state_text :: "pystr list \<Rightarrow> int \<Rightarrow> pystr \<Rightarrow> pystr" where
  "state_text comments n ts =
     concat (map (\<lambda>l. l @ [10])
       (map (\<lambda>c. 35 # c) comments @ [lit ''sequenceNumber='' @ py_str_int n, lit ''timestamp='' @ escape_value ts]))"

definition one_line :: "pystr \<Rightarrow> bool" where "one_line s \<longleftrightarrow> list_all (\<lambda>c. \<not> line_break c) s"

lemma replace2_skip: "x \<noteq> a \<or> s = [] \<or> hd s \<noteq> b \<Longrightarrow> replace2 a b r (x # s) = x # replace2 a b r s"
  by (cases s) auto

lemma unescape_colons: "replace2 92 58 58 (escape_value s) = concat (map (\<lambda>c. if c = 92 then [92, 92] else [c]) s)"
proof (induction s)
  case (Cons c s)
  have hd: "escape_value s = [] \<or> hd (escape_value s) \<noteq> 58" by (cases s) (auto simp: escape_value_def)
  have "escape_value (c # s) = (if c = 92 then [92, 92] else if c = 58 then [92, 58] else [c]) @ escape_value s"
    by (simp add: escape_value_def)
  then show ?case using Cons hd by (auto simp: replace2_skip)
qed (simp add: escape_value_def)

lemma unescape_backslashes: "replace2 92 92 92 (concat (map (\<lambda>c. if c = 92 then [92, 92] else [c]) s)) = s"
  by (induction s) (auto simp: replace2_skip)

lemmas unescape = unescape_backslashes [folded unescape_colons]

lemma splitlines_line: "one_line l \<Longrightarrow> splitlines_acc (l @ 10 # rest) acc = (rev acc @ l) # splitlines_acc rest []"
  by (induction l arbitrary: acc) (auto simp: one_line_def line_break_def)

lemma splitlines_lines: "list_all one_line ls \<Longrightarrow> splitlines (concat (map (\<lambda>l. l @ [10]) ls)) = ls"
  unfolding splitlines_def by (induction ls) (simp_all add: splitlines_line)

lemma strip_ends: "s \<noteq> [] \<Longrightarrow> \<not> isspace u (hd s) \<Longrightarrow> \<not> isspace u (last s) \<Longrightarrow> py_strip u s = s"
proof -
  assume s: "s \<noteq> []" "\<not> isspace u (hd s)" "\<not> isspace u (last s)"
  have "dropWhile (isspace u) s = s" "dropWhile (isspace u) (rev s) = rev s"
    using s by (auto simp: dropWhile_eq_self_iff hd_rev)
  then show ?thesis by (simp add: py_strip_def)
qed

lemma state_line_key:
  assumes "61 \<notin> set key" and "key \<noteq> []" and "hd key \<noteq> 35" and "\<not> isspace u (hd key)" and "v = [] \<or> \<not> isspace u (last v)"
  shows "state_line u (key @ 61 # v) (seq, ts) =
    (let value = replace2 92 92 92 (replace2 92 58 58 v)
     in if key = lit ''sequenceNumber'' then rbind (int_of_text u value) (\<lambda>n. Inr (Some n, ts))
        else if key = lit ''timestamp'' then Inr (seq, Some value) else Inr (seq, ts))"
proof -
  have key: "takeWhile (\<lambda>c. c \<noteq> 61) (key @ 61 # v) = key" "dropWhile (\<lambda>c. c \<noteq> 61) (key @ 61 # v) = 61 # v"
    using assms(1) by (auto simp: takeWhile_append dropWhile_append)
  have strip: "py_strip u (key @ 61 # v) = key @ 61 # v"
    using assms by (intro strip_ends) (auto simp: isspace_def)
  show ?thesis using assms(2,3) unfolding state_line_def split_conv strip Let_def key by simp
qed

lemma isspace_35: "\<not> isspace u 35"
  by (simp add: isspace_def)

lemma dropWhile_snoc: "\<not> P a \<Longrightarrow> dropWhile P (xs @ [a]) = dropWhile P xs @ [a]"
  by (induction xs) auto

lemma state_line_comment: "state_line u (35 # c) st = Inr st"
proof -
  have "dropWhile (isspace u) (35 # c) = 35 # c" by (simp add: isspace_def)
  moreover have "\<exists>d. rev (dropWhile (isspace u) (rev (35 # c))) = 35 # d"
    by (simp add: dropWhile_snoc isspace_35)
  ultimately show ?thesis by (auto simp: state_line_def py_strip_def split: prod.splits)
qed

lemma state_lines_append: "state_lines u (xs @ ys) st = rbind (state_lines u xs st) (state_lines u ys)"
  by (induction xs arbitrary: st) (auto simp: rbind_def split: sum.splits)

lemma state_lines_comments: "state_lines u (map (\<lambda>c. 35 # c) cs) st = Inr st"
  by (induction cs) (simp_all add: state_line_comment rbind_def)

lemma escape_last: "s \<noteq> [] \<Longrightarrow> escape_value s \<noteq> [] \<and> last (escape_value s) = last s"
  by (induction s) (auto simp: escape_value_def)

lemma escape_one_line: "one_line (escape_value s) \<longleftrightarrow> one_line s"
proof (induction s)
  case (Cons c s)
  then show ?case by (simp add: escape_value_def one_line_def line_break_def)
qed (simp add: escape_value_def)

lemma parse_state_print:
  assumes "list_all one_line comments" and "one_line ts" and "ts = [] \<or> \<not> isspace u (last ts)"
  shows "parse_state_text u (state_text comments n ts) = Inr (n, Some ts)"
proof -
  let ?seq = "lit ''sequenceNumber='' @ py_str_int n" and ?ts = "lit ''timestamp='' @ escape_value ts"
  have chars: "\<not> line_break c \<and> \<not> isspace u c \<and> c \<noteq> 92" if "c \<in> set (py_str_int n)" for c
    using py_str_int_chars [OF that] by (auto simp: line_break_def isspace_def)
  have nb: "escape_value (py_str_int n) = py_str_int n"
  proof -
    have "c \<noteq> 92 \<and> c \<noteq> 58" if "c \<in> set (py_str_int n)" for c using py_str_int_chars [OF that] by auto
    then have "map (\<lambda>c. if c = 92 then [92, 92] else if c = 58 then [92, 58] else [c]) (py_str_int n) = map (\<lambda>c. [c]) (py_str_int n)"
      by (auto simp: map_eq_conv)
    then show ?thesis unfolding escape_value_def by (simp only: concat_map_singleton map_ident)
  qed
  have "one_line (py_str_int n)" using chars by (simp add: one_line_def list_all_iff)
  then have lines: "splitlines (state_text comments n ts) = map (\<lambda>c. 35 # c) comments @ [?seq, ?ts]"
    unfolding state_text_def using assms(1,2) escape_one_line [of ts]
    by (intro splitlines_lines) (auto simp: list_all_iff one_line_def lit_def line_break_def)
  have ne: "py_str_int n \<noteq> []" by (simp add: py_str_int_form)
  have "state_line u ?seq st = Inr (Some n, snd st)" for st
    using state_line_key [of "lit ''sequenceNumber''" u "py_str_int n" "fst st" "snd st"] chars [OF last_in_set [OF ne]] unescape [of "py_str_int n"]
    by (simp add: lit_def isspace_def nb int_of_int_text rbind_def)
  moreover have "state_line u ?ts (Some n, None) = Inr (Some n, Some ts)"
    using state_line_key [of "lit ''timestamp''" u "escape_value ts" "Some n" None] assms(3) escape_last [of ts] unescape [of ts]
    by (cases "ts = []") (simp_all add: lit_def isspace_def, simp add: escape_value_def)
  ultimately show ?thesis
    by (simp add: parse_state_text_def lines state_lines_append state_lines_comments rbind_def)
qed

section \<open>Sequence paths\<close>

lemma zfill3_chars: "47 \<notin> set (zfill3 n)"
  using py_str_nat_digits [of n] by (auto simp: zfill3_def list_all_iff ascii_digit_def)

lemma zfill3_value: "digits_value (zfill3 n) = n"
proof -
  have "foldl (\<lambda>v d. v * 10 + (d - 48)) 0 (replicate k (48::nat)) = (0::nat)" for k by (induction k) simp_all
  then show ?thesis using digits_value_nat [of n] by (simp add: zfill3_def digits_value_def)
qed

lemma zfill3_inj: "zfill3 a = zfill3 b \<longleftrightarrow> a = b"
  by (metis zfill3_value)

lemma slash_inj:
  assumes "a @ 47 # x = b @ 47 # y" and "47 \<notin> set a" and "47 \<notin> set b"
  shows "a = b \<and> x = (y :: pystr)"
proof -
  have w: "takeWhile (\<lambda>c. c \<noteq> 47) (p @ 47 # z) = p" "dropWhile (\<lambda>c. c \<noteq> 47) (p @ 47 # z) = 47 # z" if "47 \<notin> set p" for p z :: pystr
    using that by (auto simp: takeWhile_append dropWhile_append)
  show ?thesis using w(1) [OF assms(2), of x] w(1) [OF assms(3), of y] w(2) [OF assms(2), of x] w(2) [OF assms(3), of y] assms(1) by simp
qed

lemma sequence_path_inj: "sequence_path a = Inr p \<Longrightarrow> sequence_path b = Inr p \<Longrightarrow> a = b"
proof -
  assume p: "sequence_path a = Inr p" "sequence_path b = Inr p"
  let ?m = "nat a" and ?n = "nat b"
  have nn: "0 \<le> a" "0 \<le> b" using p by (auto simp: sequence_path_def split: if_splits)
  have "zfill3 (?m div 1000000) @ 47 # zfill3 (?m div 1000 mod 1000) @ 47 # zfill3 (?m mod 1000) =
        zfill3 (?n div 1000000) @ 47 # zfill3 (?n div 1000 mod 1000) @ 47 # zfill3 (?n mod 1000)"
    using p nn by (simp add: sequence_path_def Let_def)
  note e = slash_inj [OF this zfill3_chars zfill3_chars]
  note f = slash_inj [OF conjunct2 [OF e] zfill3_chars zfill3_chars]
  have parts: "?m div 1000000 = ?n div 1000000" "?m div 1000 mod 1000 = ?n div 1000 mod 1000" "?m mod 1000 = ?n mod 1000"
    using e f by (simp_all add: zfill3_inj)
  have "k = (k div 1000000) * 1000000 + (k div 1000 mod 1000) * 1000 + k mod 1000" for k :: nat
  proof -
    have "k div 1000000 = k div 1000 div 1000" using div_mult2_eq [of k 1000 1000] by simp
    then show ?thesis using div_mult_mod_eq [of k 1000] div_mult_mod_eq [of "k div 1000" 1000] by linarith
  qed
  then have "?m = ?n" using parts by metis
  then show "a = b" using nn by simp
qed

lemma sequence_path_form:
  assumes "0 \<le> seq"
  shows "sequence_path seq = Inr (zfill3 (nat seq div 1000000) @ [47] @ zfill3 (nat seq div 1000 mod 1000) @ [47] @ zfill3 (nat seq mod 1000))"
  using assms by (simp add: sequence_path_def Let_def)

end
