(* ===== verification/Osc.thy ===== *)
theory Osc
  imports Cells "HOL-Library.AList" "HOL-Library.Multiset" "HOL-Library.Product_Lexorder"
begin

text \<open>
  \<^verbatim>\<open>src/src/osmpq/update/osc.py\<close>: a batch of change files as three tables. The reader of change
  files (pyosmium) is an argument that gives the objects of one file in order. A table is the list
  of its rows, once every column of a bounded integer type fits.
\<close>

section \<open>Objects and rows\<close>

record osm_object_meta =
  o_id :: int
  o_deleted :: bool
  o_version :: int
  o_timestamp :: "(int \<times> int option) option"
  o_changeset :: int
  o_uid :: "int option"
  o_user :: pystr
  o_tags :: "(pystr \<times> pystr) list option"

datatype osm_object =
    Osm_node osm_object_meta "(bool \<times> rat \<times> rat) option"
  | Osm_way osm_object_meta "int list"
  | Osm_relation osm_object_meta "(pystr \<times> int \<times> pystr) list"

record osc_row =
  r_id :: int
  r_deleted :: bool
  r_version :: int
  r_timestamp :: "(int \<times> int option) option"
  r_changeset :: int
  r_uid :: "int option"
  r_user :: pystr
  r_tags :: "(pystr \<times> pystr) list option"
  r_seq :: int

record node_row = osc_row +
  r_lat_e7 :: "int option"
  r_lon_e7 :: "int option"

record way_row = osc_row +
  r_refs :: "int list"

record relation_row = osc_row +
  r_members :: "(pystr \<times> int \<times> pystr) list"

text \<open>A dictionary keeps the place of a key and takes its last value.\<close>

definition py_dict :: "('k \<times> 'v) list \<Rightarrow> ('k \<times> 'v) list" where
  "py_dict kvs = fold (\<lambda>(k, v). AList.update k v) kvs []"

definition tags_of :: "osm_object_meta \<Rightarrow> (pystr \<times> pystr) list option" where
  "tags_of m = (case o_tags m of None \<Rightarrow> None | Some ts \<Rightarrow> if ts = [] then None else Some (py_dict ts))"

definition drop_tzinfo :: "(int \<times> int option) option \<Rightarrow> (int \<times> int option) option" where
  "drop_tzinfo ts = map_option (\<lambda>(t, tz). (t, None)) ts"

definition osc_e7 :: "rat \<Rightarrow> int" where "osc_e7 x = rne (fmul x 10000000)"

definition node_row_of :: "int \<Rightarrow> osm_object_meta \<Rightarrow> (bool \<times> rat \<times> rat) option \<Rightarrow> node_row" where
  "node_row_of seq m loc =
     (let place = (case loc of Some (True, lat, lon) \<Rightarrow> Some (osc_e7 lat, osc_e7 lon) | _ \<Rightarrow> None)
      in \<lparr>r_id = o_id m, r_deleted = o_deleted m, r_version = o_version m, r_timestamp = drop_tzinfo (o_timestamp m),
          r_changeset = o_changeset m, r_uid = o_uid m, r_user = o_user m, r_tags = tags_of m, r_seq = seq,
          r_lat_e7 = map_option fst place, r_lon_e7 = map_option snd place\<rparr>)"

definition way_row_of :: "int \<Rightarrow> osm_object_meta \<Rightarrow> int list \<Rightarrow> way_row" where
  "way_row_of seq m refs =
     \<lparr>r_id = o_id m, r_deleted = o_deleted m, r_version = o_version m, r_timestamp = drop_tzinfo (o_timestamp m),
      r_changeset = o_changeset m, r_uid = o_uid m, r_user = o_user m, r_tags = tags_of m, r_seq = seq, r_refs = refs\<rparr>"

definition relation_row_of :: "int \<Rightarrow> osm_object_meta \<Rightarrow> (pystr \<times> int \<times> pystr) list \<Rightarrow> relation_row" where
  "relation_row_of seq m members =
     \<lparr>r_id = o_id m, r_deleted = o_deleted m, r_version = o_version m, r_timestamp = drop_tzinfo (o_timestamp m),
      r_changeset = o_changeset m, r_uid = o_uid m, r_user = o_user m, r_tags = tags_of m, r_seq = seq, r_members = members\<rparr>"

section \<open>Tables\<close>

definition int_fits :: "nat \<Rightarrow> int \<Rightarrow> bool" where
  "int_fits w n \<longleftrightarrow> - (2 ^ (w - 1)) \<le> n \<and> n < 2 ^ (w - 1)"

definition opt_fits :: "nat \<Rightarrow> int option \<Rightarrow> bool" where
  "opt_fits w v = (case v of None \<Rightarrow> True | Some n \<Rightarrow> int_fits w n)"

definition row_fits :: "'a osc_row_scheme \<Rightarrow> bool" where
  "row_fits r \<longleftrightarrow> int_fits 64 (r_id r) \<and> int_fits 32 (r_version r) \<and> int_fits 64 (r_changeset r) \<and> opt_fits 32 (r_uid r) \<and>
     int_fits 64 (r_seq r) \<and> (case r_timestamp r of None \<Rightarrow> True | Some (t, tz) \<Rightarrow> int_fits 64 t)"

definition table_of :: "('r \<Rightarrow> bool) \<Rightarrow> 'r list \<Rightarrow> 'r list result" where
  "table_of fits rows = (if list_all fits rows then Inr rows else Inl ValueError)"

definition node_fits :: "node_row \<Rightarrow> bool" where
  "node_fits r \<longleftrightarrow> row_fits r \<and> opt_fits 32 (r_lat_e7 r) \<and> opt_fits 32 (r_lon_e7 r)"

definition way_fits :: "way_row \<Rightarrow> bool" where
  "way_fits r \<longleftrightarrow> row_fits r \<and> list_all (int_fits 64) (r_refs r)"

definition relation_fits :: "relation_row \<Rightarrow> bool" where
  "relation_fits r \<longleftrightarrow> row_fits r \<and> list_all (\<lambda>(t, ref, role). int_fits 64 ref) (r_members r)"

definition by_id :: "(int \<times> 'a osc_row_scheme) list \<Rightarrow> 'a osc_row_scheme list" where
  "by_id d = sort_key r_id (map snd d)"

definition by_id_version :: "'a osc_row_scheme list \<Rightarrow> 'a osc_row_scheme list" where
  "by_id_version rows = sort_key (\<lambda>r. (r_id r, r_version r)) rows"

definition nodes_to_table :: "node_row list \<Rightarrow> node_row list result" where "nodes_to_table rows = table_of node_fits rows"
definition ways_to_table :: "way_row list \<Rightarrow> way_row list result" where "ways_to_table rows = table_of way_fits rows"
definition relations_to_table :: "relation_row list \<Rightarrow> relation_row list result" where "relations_to_table rows = table_of relation_fits rows"

section \<open>A batch\<close>

record osc_state =
  s_nodes :: "(int \<times> node_row) list"
  s_ways :: "(int \<times> way_row) list"
  s_relations :: "(int \<times> relation_row) list"
  s_nodes_all :: "node_row list"
  s_ways_all :: "way_row list"
  s_relations_all :: "relation_row list"
  s_first_seq :: "int option"
  s_last_seq :: "int option"

record batch_result =
  br_node :: "node_row list"
  br_way :: "way_row list"
  br_relation :: "relation_row list"
  br_first_seq :: "int option"
  br_last_seq :: "int option"
  br_n_files :: nat
  br_node_all :: "node_row list"
  br_way_all :: "way_row list"
  br_relation_all :: "relation_row list"

fun batch_object :: "int \<Rightarrow> osm_object \<Rightarrow> osc_state \<Rightarrow> osc_state" where
  "batch_object seq (Osm_node m loc) st =
     (let row = node_row_of seq m loc
      in st\<lparr>s_nodes := AList.update (o_id m) row (s_nodes st), s_nodes_all := s_nodes_all st @ [row]\<rparr>)"
| "batch_object seq (Osm_way m refs) st =
     (let row = way_row_of seq m refs
      in st\<lparr>s_ways := AList.update (o_id m) row (s_ways st), s_ways_all := s_ways_all st @ [row]\<rparr>)"
| "batch_object seq (Osm_relation m members) st =
     (let row = relation_row_of seq m members
      in st\<lparr>s_relations := AList.update (o_id m) row (s_relations st), s_relations_all := s_relations_all st @ [row]\<rparr>)"

fun batch_files :: "('p \<Rightarrow> osm_object list result) \<Rightarrow> (int \<times> 'p) list \<Rightarrow> osc_state \<Rightarrow> osc_state result" where
  "batch_files reader [] st = Inr st"
| "batch_files reader ((seq, path) # rest) st =
     (let st = st\<lparr>s_first_seq := Some (case s_first_seq st of None \<Rightarrow> seq | Some f \<Rightarrow> min f seq),
                  s_last_seq := Some (case s_last_seq st of None \<Rightarrow> seq | Some l \<Rightarrow> max l seq)\<rparr>
      in rbind (reader path) (\<lambda>objs. batch_files reader rest (fold (batch_object seq) objs st)))"

definition init_batch :: osc_state where
  "init_batch = \<lparr>s_nodes = [], s_ways = [], s_relations = [], s_nodes_all = [], s_ways_all = [], s_relations_all = [],
     s_first_seq = None, s_last_seq = None\<rparr>"

definition parse_batch :: "('p \<Rightarrow> osm_object list result) \<Rightarrow> (int \<times> 'p) list \<Rightarrow> batch_result result" where
  "parse_batch reader seq_files =
     rbind (batch_files reader seq_files init_batch) (\<lambda>st.
     rbind (nodes_to_table (by_id (s_nodes st))) (\<lambda>node.
     rbind (ways_to_table (by_id (s_ways st))) (\<lambda>way.
     rbind (relations_to_table (by_id (s_relations st))) (\<lambda>relation.
     rbind (nodes_to_table (by_id_version (s_nodes_all st))) (\<lambda>node_all.
     rbind (ways_to_table (by_id_version (s_ways_all st))) (\<lambda>way_all.
     rbind (relations_to_table (by_id_version (s_relations_all st))) (\<lambda>relation_all.
     Inr \<lparr>br_node = node, br_way = way, br_relation = relation, br_first_seq = s_first_seq st, br_last_seq = s_last_seq st,
          br_n_files = length seq_files, br_node_all = node_all, br_way_all = way_all, br_relation_all = relation_all\<rparr>)))))))"

section \<open>The rows of a batch\<close>

text \<open>The rows that the objects of the files give, in the order they are read.\<close>

fun node_rows :: "int \<times> osm_object list \<Rightarrow> node_row list" where
  "node_rows (seq, objs) = concat (map (\<lambda>obj. case obj of Osm_node m loc \<Rightarrow> [node_row_of seq m loc] | _ \<Rightarrow> []) objs)"

fun way_rows :: "int \<times> osm_object list \<Rightarrow> way_row list" where
  "way_rows (seq, objs) = concat (map (\<lambda>obj. case obj of Osm_way m refs \<Rightarrow> [way_row_of seq m refs] | _ \<Rightarrow> []) objs)"

fun relation_rows :: "int \<times> osm_object list \<Rightarrow> relation_row list" where
  "relation_rows (seq, objs) = concat (map (\<lambda>obj. case obj of Osm_relation m ms \<Rightarrow> [relation_row_of seq m ms] | _ \<Rightarrow> []) objs)"

text \<open>The last row of an id.\<close>

definition last_row :: "'a osc_row_scheme list \<Rightarrow> int \<Rightarrow> 'a osc_row_scheme option" where
  "last_row rows i = find (\<lambda>r. r_id r = i) (rev rows)"

definition keep_last :: "'a osc_row_scheme list \<Rightarrow> (int \<times> 'a osc_row_scheme) list" where
  "keep_last rows = fold (\<lambda>r. AList.update (r_id r) r) rows []"

lemma keep_last_snoc: "keep_last (rows @ [r]) = AList.update (r_id r) r (keep_last rows)"
  by (simp add: keep_last_def)

lemma keep_last_snoc2: "keep_last (a @ b @ [r]) = AList.update (r_id r) r (keep_last (a @ b))"
  using keep_last_snoc [of "a @ b" r] by simp

lemma keep_last_distinct: "distinct (map fst (keep_last rows))"
  by (induction rows rule: rev_induct) (simp_all add: keep_last_snoc distinct_update, simp add: keep_last_def)

lemma keep_last_map: "map_of (keep_last rows) i = last_row rows i"
  by (induction rows rule: rev_induct) (auto simp: keep_last_snoc update_conv' last_row_def, simp add: keep_last_def)

lemma last_row_id: "last_row rows i = Some r \<Longrightarrow> r_id r = i \<and> r \<in> set rows"
  by (auto simp: last_row_def find_Some_iff dest: nth_mem) (metis length_rev nth_mem set_rev)

lemma by_id_keep_last:
  "set (by_id (keep_last rows)) = {r. last_row rows (r_id r) = Some r}" (is ?set)
  "sorted (map r_id (by_id (keep_last rows)))" "distinct (map r_id (by_id (keep_last rows)))" (is ?distinct)
proof -
  have elem: "(k, r) \<in> set (keep_last rows) \<longleftrightarrow> last_row rows k = Some r" for k r
    by (simp add: keep_last_map [symmetric] keep_last_distinct)
  have keys: "r_id r = k" if "(k, r) \<in> set (keep_last rows)" for k r
    using that last_row_id [of rows k r] by (simp add: elem)
  have "r \<in> snd ` set (keep_last rows) \<longleftrightarrow> last_row rows (r_id r) = Some r" for r
  proof
    assume "r \<in> snd ` set (keep_last rows)"
    then obtain k where k: "(k, r) \<in> set (keep_last rows)" by auto
    then show "last_row rows (r_id r) = Some r" using keys [OF k] by (simp add: elem)
  next
    assume "last_row rows (r_id r) = Some r"
    then have "(r_id r, r) \<in> set (keep_last rows)" by (simp add: elem)
    then show "r \<in> snd ` set (keep_last rows)" by force
  qed
  then show ?set by (auto simp: by_id_def)
  have "map r_id (map snd (keep_last rows)) = map fst (keep_last rows)" using keys by (auto simp: map_eq_conv)
  then have "distinct (map r_id (map snd (keep_last rows)))" by (simp only: keep_last_distinct)
  moreover have "mset (map r_id (by_id (keep_last rows))) = mset (map r_id (map snd (keep_last rows)))"
    by (simp only: by_id_def mset_map mset_sort)
  ultimately show ?distinct using mset_eq_imp_distinct_iff by blast
qed (simp add: by_id_def)

section \<open>The loop over the files\<close>

text \<open>The state after files whose objects are given, with what it has seen.\<close>

definition seen_rows :: "(int \<times> osm_object list) list \<Rightarrow> osc_state \<Rightarrow> bool" where
  "seen_rows fs st \<longleftrightarrow>
     s_nodes_all st = concat (map node_rows fs) \<and> s_ways_all st = concat (map way_rows fs) \<and>
     s_relations_all st = concat (map relation_rows fs) \<and>
     s_nodes st = keep_last (s_nodes_all st) \<and> s_ways st = keep_last (s_ways_all st) \<and>
     s_relations st = keep_last (s_relations_all st) \<and>
     s_first_seq st = (if fs = [] then None else Some (Min (fst ` set fs))) \<and>
     s_last_seq st = (if fs = [] then None else Some (Max (fst ` set fs)))"

lemma row_ids [simp]:
  "r_id (node_row_of seq m loc) = o_id m" "r_id (way_row_of seq m refs) = o_id m" "r_id (relation_row_of seq m ms) = o_id m"
  by (simp_all add: node_row_of_def way_row_of_def relation_row_of_def Let_def)

lemma batch_object_rows:
  assumes "seen_rows (fs @ [(seq, objs)]) st"
  shows "seen_rows (fs @ [(seq, objs @ [obj])]) (batch_object seq obj st)"
  using assms by (cases obj) (simp_all add: seen_rows_def Let_def keep_last_snoc2)

lemma batch_objects_rows:
  assumes "seen_rows (fs @ [(seq, [])]) st"
  shows "seen_rows (fs @ [(seq, objs)]) (fold (batch_object seq) objs st)"
proof (induction objs rule: rev_induct)
  case (snoc obj objs)
  then show ?case by (simp add: batch_object_rows)
qed (use assms in simp)

lemma batch_files_rows:
  assumes "batch_files reader sfs st = Inr st'" and "seen_rows fs st"
  shows "\<exists>fs'. list_all2 (\<lambda>(s, p) (s', objs). s' = s \<and> reader p = Inr objs) sfs fs' \<and> seen_rows (fs @ fs') st'"
  using assms
proof (induction reader sfs st arbitrary: fs rule: batch_files.induct)
  case (2 reader seq path rest st)
  let ?st = "st\<lparr>s_first_seq := Some (case s_first_seq st of None \<Rightarrow> seq | Some f \<Rightarrow> min f seq),
                s_last_seq := Some (case s_last_seq st of None \<Rightarrow> seq | Some l \<Rightarrow> max l seq)\<rparr>"
  obtain objs where objs: "reader path = Inr objs"
    and rest: "batch_files reader rest (fold (batch_object seq) objs ?st) = Inr st'"
    using 2(2) by (auto simp: Let_def rbind_def split: sum.splits)
  have "seen_rows (fs @ [(seq, [])]) ?st"
    using 2(3) by (cases "fs = []") (auto simp: seen_rows_def min.commute max.commute)
  then have "seen_rows (fs @ [(seq, objs)]) (fold (batch_object seq) objs ?st)" by (rule batch_objects_rows)
  from 2(1) [OF refl rest this] obtain fs' where
    "list_all2 (\<lambda>(s, p) (s', objs). s' = s \<and> reader p = Inr objs) rest fs'" "seen_rows (fs @ (seq, objs) # fs') st'" by auto
  then show ?case using objs by (intro exI [of _ "(seq, objs) # fs'"]) simp
qed (auto intro: exI [of _ "[]"])

lemma seen_rows_init: "seen_rows [] init_batch"
  by (simp add: seen_rows_def init_batch_def keep_last_def)

lemma parse_batch_state:
  assumes "parse_batch reader seq_files = Inr b"
  shows "\<exists>st. batch_files reader seq_files init_batch = Inr st \<and>
    br_node b = by_id (s_nodes st) \<and> br_way b = by_id (s_ways st) \<and> br_relation b = by_id (s_relations st) \<and>
    br_node_all b = by_id_version (s_nodes_all st) \<and> br_way_all b = by_id_version (s_ways_all st) \<and>
    br_relation_all b = by_id_version (s_relations_all st) \<and> br_first_seq b = s_first_seq st \<and> br_last_seq b = s_last_seq st \<and>
    br_n_files b = length seq_files"
  using assms
  by (auto simp: parse_batch_def nodes_to_table_def ways_to_table_def relations_to_table_def rbind_def table_of_def split: sum.splits if_splits)

text \<open>
  All rows of a batch: nothing lost or added, in order of id and version, rows of the same version in the order read.
\<close>

definition version_ordered :: "'a osc_row_scheme list \<Rightarrow> 'a osc_row_scheme list \<Rightarrow> bool" where
  "version_ordered rows table \<longleftrightarrow> mset table = mset rows \<and>
     sorted_wrt (\<lambda>r s. r_id r < r_id s \<or> r_id r = r_id s \<and> r_version r \<le> r_version s) table \<and>
     (\<forall>i v. filter (\<lambda>r. r_id r = i \<and> r_version r = v) table = filter (\<lambda>r. r_id r = i \<and> r_version r = v) rows)"

lemma by_id_version_ordered: "version_ordered rows (by_id_version rows)"
proof -
  let ?k = "\<lambda>r :: 'a osc_row_scheme. (r_id r, r_version r)"
  have "sorted_wrt (\<lambda>r s. ?k r \<le> ?k s) (sort_key ?k rows)" using sorted_sort_key [of ?k rows] by (simp add: sorted_map)
  then have "sorted_wrt (\<lambda>r s. r_id r < r_id s \<or> r_id r = r_id s \<and> r_version r \<le> r_version s) (sort_key ?k rows)"
    by (rule sorted_wrt_mono_rel [rotated]) (auto simp: less_eq_prod_def)
  moreover have "filter (\<lambda>r. r_id r = i \<and> r_version r = v) (sort_key ?k rows) = filter (\<lambda>r. r_id r = i \<and> r_version r = v) rows" for i v
  proof -
    have "filter (\<lambda>r. ?k r = (i, v)) (sort_key ?k rows) = filter (\<lambda>r. ?k r = (i, v)) rows"
      by (rule sort_key_stable)
    then show ?thesis by (simp only: prod.inject)
  qed
  ultimately show ?thesis by (simp add: version_ordered_def by_id_version_def)
qed

end
