(* ===== verification/Tiers.thy ===== *)
theory Tiers
  imports PyInt "HOL-Library.Product_Lexorder"
begin

text \<open>
  The rolling tiers of \<^verbatim>\<open>src/src/osmpq/update/updater.py\<close>: a batch of changed rows is merged into the
  hour tier, and at an hour or day boundary the tiers are folded into the next ones. The SQL
  statements are given as the list operations they stand for: a table is the list of its rows, a
  left join a list of matches. A row has its id, cell, Hilbert key, the change columns and the rest
  of its columns as one value, of a smaller type for the by-id tables than for the spatial ones.
  A Parquet file is its table; the directory maps paths to files.
\<close>

section \<open>Rows and merging\<close>

datatype delta_type = DNode | DWay | DRelation

datatype tier = Hour | Day | Week

record 'c drow =
  d_id :: int
  d_cell :: "string option"
  d_hilbert :: "nat option"
  d_cols :: 'c
  d_deleted :: bool
  d_prev_cell :: "string option"
  d_seq :: int

text \<open>A row with the columns of the by-id table.\<close>

definition proj_row :: "('s \<Rightarrow> 'b) \<Rightarrow> 's drow \<Rightarrow> 'b drow" where
  "proj_row p r = \<lparr>d_id = d_id r, d_cell = d_cell r, d_hilbert = d_hilbert r, d_cols = p (d_cols r), d_deleted = d_deleted r,
     d_prev_cell = d_prev_cell r, d_seq = d_seq r\<rparr>"

text \<open>\<open>t LEFT JOIN old o ON o.id = t.id\<close>, with the first recorded \<open>prev_cell\<close>.\<close>

definition join_prev :: "'x drow list \<Rightarrow> 'b drow list \<Rightarrow> 'x drow list" where
  "join_prev new old =
     concat (map (\<lambda>n. case filter (\<lambda>x. d_id x = d_id n) old of [] \<Rightarrow> [n] | ms \<Rightarrow> map (\<lambda>x. n\<lparr>d_prev_cell := d_prev_cell x\<rparr>) ms) new)"

definition ids_of :: "'x drow list \<Rightarrow> int set" where
  "ids_of t = d_id ` set t"

definition merge_byid :: "'b drow list \<Rightarrow> 'b drow list \<Rightarrow> 'b drow list" where
  "merge_byid new old = join_prev new old @ filter (\<lambda>x. d_id x \<notin> ids_of new) old"

definition merge_spatial :: "'s drow list \<Rightarrow> 'b drow list \<Rightarrow> 'b drow list \<Rightarrow> 's drow list \<Rightarrow> 's drow list" where
  "merge_spatial new new_byid old_byid old =
     join_prev new old_byid @
     concat (map (\<lambda>ob. map (\<lambda>os. os\<lparr>d_deleted := d_deleted ob, d_prev_cell := d_prev_cell ob, d_seq := d_seq ob\<rparr>)
                          (filter (\<lambda>os. d_id os = d_id ob) old))
                 (filter (\<lambda>ob. d_id ob \<notin> ids_of new_byid) old_byid))"

definition merge_type :: "'b drow list \<times> 's drow list \<Rightarrow> ('b drow list \<times> 's drow list) option \<Rightarrow> 'b drow list \<times> 's drow list" where
  "merge_type new old =
     (case old of None \<Rightarrow> new
      | Some (ob, os) \<Rightarrow> (merge_byid (fst new) ob, merge_spatial (snd new) (fst new) ob os))"

section \<open>Files\<close>

type_synonym delta_path = "pystr list"

datatype ('b, 's) pfile =
    ByidFile "'b drow list"
  | SpatialFile "'s drow list"
  | TombFile "(delta_type \<times> int \<times> string \<times> int) list"

type_synonym ('b, 's) delta_dir = "delta_path \<Rightarrow> ('b, 's) pfile option"

record tier_meta =
  tm_version :: int
  tm_seq_from :: int
  tm_seq_to :: int
  tm_timestamp :: "pystr option"
  tm_rows :: "delta_type \<Rightarrow> nat"
  tm_cells :: "delta_type \<Rightarrow> string list"
  tm_byid :: "delta_type \<Rightarrow> delta_path"
  tm_spatial :: "delta_type \<Rightarrow> delta_path"
  tm_tombstones :: delta_path

type_synonym deltas = "tier \<Rightarrow> tier_meta option"

fun type_name :: "delta_type \<Rightarrow> string" where
  "type_name DNode = ''node''" | "type_name DWay = ''way''" | "type_name DRelation = ''relation''"

fun tier_name :: "tier \<Rightarrow> string" where
  "tier_name Hour = ''hour''" | "tier_name Day = ''day''" | "tier_name Week = ''week''"

definition delta_types :: "delta_type list" where "delta_types = [DNode, DWay, DRelation]"

definition out_dir :: "pystr \<Rightarrow> tier \<Rightarrow> int \<Rightarrow> delta_path" where
  "out_dir gen tr version = [lit ''delta'', gen, lit (tier_name tr), py_str_int version]"

definition byid_path :: "pystr \<Rightarrow> tier \<Rightarrow> int \<Rightarrow> delta_type \<Rightarrow> delta_path" where
  "byid_path gen tr version typ = out_dir gen tr version @ [lit (type_name typ @ ''.byid.parquet'')]"

definition spatial_path :: "pystr \<Rightarrow> tier \<Rightarrow> int \<Rightarrow> delta_type \<Rightarrow> delta_path" where
  "spatial_path gen tr version typ = out_dir gen tr version @ [lit (type_name typ @ ''.spatial.parquet'')]"

definition tomb_path :: "pystr \<Rightarrow> tier \<Rightarrow> int \<Rightarrow> delta_path" where
  "tomb_path gen tr version = out_dir gen tr version @ [lit ''tombstones.parquet'']"

text \<open>\<open>ORDER BY\<close> puts nulls last.\<close>

definition nulls_last :: "'a \<Rightarrow> 'a option \<Rightarrow> bool \<times> 'a" where
  "nulls_last z v = (case v of None \<Rightarrow> (True, z) | Some x \<Rightarrow> (False, x))"

definition by_row_id :: "'b drow list \<Rightarrow> 'b drow list" where
  "by_row_id t = sort_key d_id t"

definition by_cell_hilbert :: "'s drow list \<Rightarrow> 's drow list" where
  "by_cell_hilbert t = sort_key (\<lambda>r. (nulls_last [] (d_cell r), nulls_last 0 (d_hilbert r), d_id r)) t"

definition cells_of :: "'s drow list \<Rightarrow> string list" where
  "cells_of t = sorted_list_of_set {c. \<exists>r\<in>set t. d_cell r = Some c}"

text \<open>A comparison with null is null, which a filter drops.\<close>

definition is_tombstone :: "'b drow \<Rightarrow> bool" where
  "is_tombstone r \<longleftrightarrow> d_prev_cell r \<noteq> None \<and> (d_cell r \<noteq> None \<and> d_prev_cell r \<noteq> d_cell r \<or> d_deleted r)"

definition tombstones :: "(delta_type \<Rightarrow> 'b drow list) \<Rightarrow> (delta_type \<times> int \<times> string \<times> int) list" where
  "tombstones byid =
     sort_key (\<lambda>(typ, i, prev, sq). (prev, type_name typ, i))
       (concat (map (\<lambda>typ. map (\<lambda>r. (typ, d_id r, the (d_prev_cell r), d_seq r)) (filter is_tombstone (byid typ))) delta_types))"

definition write_tier_version ::
  "pystr \<Rightarrow> tier \<Rightarrow> (delta_type \<Rightarrow> 'b drow list \<times> 's drow list) \<Rightarrow> int \<Rightarrow> int \<Rightarrow> pystr option \<Rightarrow> int \<Rightarrow> ('b, 's) delta_dir \<Rightarrow>
   (tier_meta \<times> ('b, 's) delta_dir) option" where
  "write_tier_version gen tr merged seq_from seq_to timestamp version dir =
     (if sum_list (map (\<lambda>typ. length (fst (merged typ))) delta_types) = 0 then None
      else
        let dir = fold (\<lambda>typ dir. dir(byid_path gen tr version typ \<mapsto> ByidFile (by_row_id (fst (merged typ))),
                                      spatial_path gen tr version typ \<mapsto> SpatialFile (by_cell_hilbert (snd (merged typ))))) delta_types dir;
            dir = dir(tomb_path gen tr version \<mapsto> TombFile (tombstones (\<lambda>typ. fst (merged typ))))
        in Some (\<lparr>tm_version = version, tm_seq_from = seq_from, tm_seq_to = seq_to, tm_timestamp = timestamp,
                  tm_rows = (\<lambda>typ. length (fst (merged typ))), tm_cells = (\<lambda>typ. cells_of (snd (merged typ))),
                  tm_byid = byid_path gen tr version, tm_spatial = spatial_path gen tr version, tm_tombstones = tomb_path gen tr version\<rparr>, dir))"

section \<open>Timestamps\<close>

text \<open>
  \<open>datetime.strptime(s, "%Y-%m-%dT%H:%M:%SZ")\<close>: each field is read up to the separator that follows it;
  letters match in either case; the month, day, hour, minute and second may have one digit, the day also
  with a space before it; the date must exist.
\<close>

definition field_value :: "unicode_db \<Rightarrow> pystr \<Rightarrow> nat option" where
  "field_value u ds = (if ds \<noteq> [] \<and> list_all (\<lambda>c. decimal u c \<noteq> None) ds then Some (digits_value (map (\<lambda>c. 48 + the (decimal u c)) ds)) else None)"

definition short_field :: "unicode_db \<Rightarrow> nat \<Rightarrow> nat \<Rightarrow> pystr \<Rightarrow> nat option" where
  "short_field u lo hi ds =
     (if length ds \<le> 2 then (case field_value u ds of Some n \<Rightarrow> if lo \<le> n \<and> n \<le> hi then Some n else None | None \<Rightarrow> None) else None)"

definition until_sep :: "nat \<Rightarrow> pystr \<Rightarrow> (pystr \<times> pystr) option" where
  "until_sep c s = (case dropWhile (\<lambda>x. lower x \<noteq> c) s of [] \<Rightarrow> None | x # rest \<Rightarrow> Some (takeWhile (\<lambda>x. lower x \<noteq> c) s, rest))"

definition leap_year :: "nat \<Rightarrow> bool" where
  "leap_year y \<longleftrightarrow> 4 dvd y \<and> (\<not> 100 dvd y \<or> 400 dvd y)"

definition days_in_month :: "nat \<Rightarrow> nat \<Rightarrow> nat" where
  "days_in_month y m = (if m = 2 then (if leap_year y then 29 else 28) else if m \<in> {4, 6, 9, 11} then 30 else 31)"

type_synonym datetime = "nat \<times> nat \<times> nat \<times> nat \<times> nat \<times> nat"

definition parse_ts_text :: "unicode_db \<Rightarrow> pystr \<Rightarrow> datetime option" where
  "parse_ts_text u s =
     (case until_sep 45 s of None \<Rightarrow> None | Some (y, s) \<Rightarrow>
      (case until_sep 45 s of None \<Rightarrow> None | Some (mo, s) \<Rightarrow>
      (case until_sep 116 s of None \<Rightarrow> None | Some (d, s) \<Rightarrow>
      (case until_sep 58 s of None \<Rightarrow> None | Some (h, s) \<Rightarrow>
      (case until_sep 58 s of None \<Rightarrow> None | Some (mi, s) \<Rightarrow>
      (case until_sep 122 s of None \<Rightarrow> None | Some (sec, s) \<Rightarrow>
        if s \<noteq> [] \<or> length y \<noteq> 4 then None
        else case (field_value u y, short_field u 1 12 mo,
                   short_field u 1 31 (if length d = 2 \<and> hd d = 32 then tl d else d), short_field u 0 23 h, short_field u 0 59 mi, short_field u 0 59 sec) of
               (Some y, Some mo, Some d, Some h, Some mi, Some sec) \<Rightarrow>
                 if 1 \<le> y \<and> d \<le> days_in_month y mo then Some (y, mo, d, h, mi, sec) else None
             | _ \<Rightarrow> None))))))"

definition parse_ts :: "unicode_db \<Rightarrow> pystr option \<Rightarrow> datetime option" where
  "parse_ts u s = (case s of Some (c # cs) \<Rightarrow> parse_ts_text u (c # cs) | _ \<Rightarrow> None)"

fun floor_hour :: "datetime \<Rightarrow> datetime" where "floor_hour (y, mo, d, h, mi, s) = (y, mo, d, h, 0, 0)"

fun floor_day :: "datetime \<Rightarrow> datetime" where "floor_day (y, mo, d, h, mi, s) = (y, mo, d, 0, 0, 0)"

definition crossed :: "(datetime \<Rightarrow> datetime) \<Rightarrow> datetime option \<Rightarrow> datetime option \<Rightarrow> bool" where
  "crossed flr old new = (case (old, new) of (Some a, Some b) \<Rightarrow> flr a \<noteq> flr b | _ \<Rightarrow> False)"

definition tier_crossings :: "unicode_db \<Rightarrow> deltas \<Rightarrow> pystr option \<Rightarrow> bool \<times> bool" where
  "tier_crossings u deltas batch_timestamp =
     (let dt = (\<lambda>m. case m of None \<Rightarrow> None | Some m \<Rightarrow> parse_ts u (tm_timestamp m));
          hour_crossed = crossed floor_hour (dt (deltas Hour)) (parse_ts u batch_timestamp)
      in (hour_crossed, hour_crossed \<and> crossed floor_day (dt (deltas Day)) (parse_ts u batch_timestamp)))"

section \<open>Writing the tiers\<close>

text \<open>The tables of a tier; a file that is not there cannot be read.\<close>

definition load_old :: "('b, 's) delta_dir \<Rightarrow> tier_meta option \<Rightarrow> (delta_type \<Rightarrow> ('b drow list \<times> 's drow list) option) result" where
  "load_old dir meta =
     (case meta of None \<Rightarrow> Inr (\<lambda>_. None)
      | Some m \<Rightarrow>
          let read = (\<lambda>typ. case (dir (tm_byid m typ), dir (tm_spatial m typ)) of (Some (ByidFile b), Some (SpatialFile s)) \<Rightarrow> Some (b, s) | _ \<Rightarrow> None)
          in if list_all (\<lambda>typ. read typ \<noteq> None) delta_types then Inr read else Inl OSError)"

definition next_version :: "tier_meta option \<Rightarrow> int" where
  "next_version m = (case m of None \<Rightarrow> 0 | Some m \<Rightarrow> tm_version m) + 1"

definition min_seq_from :: "tier_meta option \<Rightarrow> int \<Rightarrow> int" where
  "min_seq_from m s = (case m of None \<Rightarrow> s | Some m \<Rightarrow> min (tm_seq_from m) s)"

text \<open>Write one version of a tier and note it, unless it would be empty.\<close>

definition put_tier ::
  "pystr \<Rightarrow> tier \<Rightarrow> (delta_type \<Rightarrow> 'b drow list \<times> 's drow list) \<Rightarrow> int \<Rightarrow> int \<Rightarrow> pystr option \<Rightarrow> int \<Rightarrow>
   (tier \<rightharpoonup> int) \<times> deltas \<times> ('b, 's) delta_dir \<Rightarrow> (tier \<rightharpoonup> int) \<times> deltas \<times> ('b, 's) delta_dir" where
  "put_tier gen tr merged seq_from seq_to ts version st =
     (case st of (versions, deltas, dir) \<Rightarrow>
      case write_tier_version gen tr merged seq_from seq_to ts version dir of
        None \<Rightarrow> (versions, deltas, dir)
      | Some (meta, dir) \<Rightarrow> (versions(tr \<mapsto> tm_version meta), deltas(tr \<mapsto> meta), dir))"

definition batch_tables :: "('s \<Rightarrow> 'b) \<Rightarrow> (delta_type \<Rightarrow> 's drow list) \<Rightarrow> delta_type \<Rightarrow> 'b drow list \<times> 's drow list" where
  "batch_tables p resolved typ = (map (proj_row p) (resolved typ), resolved typ)"

definition write_tiers ::
  "unicode_db \<Rightarrow> pystr \<Rightarrow> ('s \<Rightarrow> 'b) \<Rightarrow> deltas \<Rightarrow> (delta_type \<Rightarrow> 's drow list) \<Rightarrow> int \<Rightarrow> int \<Rightarrow> pystr option \<Rightarrow> ('b, 's) delta_dir \<Rightarrow>
   ((tier \<rightharpoonup> int) \<times> deltas \<times> ('b, 's) delta_dir) result" where
  "write_tiers u gen p deltas resolved first_seq last_seq batch_ts dir =
     (let batch = batch_tables p resolved; st = (Map.empty, deltas, dir);
          (hour_crossed, day_crossed) = tier_crossings u deltas batch_ts
      in if \<not> hour_crossed then
           rbind (load_old dir (deltas Hour)) (\<lambda>old_hour.
             let seq_from = (case deltas Hour of None \<Rightarrow> first_seq | Some m \<Rightarrow> tm_seq_from m)
             in Inr (put_tier gen Hour (\<lambda>typ. merge_type (batch typ) (old_hour typ)) seq_from last_seq batch_ts (next_version (deltas Hour)) st))
         else
           rbind (load_old dir (deltas Hour)) (\<lambda>old_hour.
           rbind (load_old dir (deltas Day)) (\<lambda>old_day.
             let hour_meta = the (deltas Hour);
                 merged_day = (\<lambda>typ. merge_type (the (old_hour typ)) (old_day typ));
                 day_seq_from = min_seq_from (deltas Day) (tm_seq_from hour_meta);
                 day_seq_to = tm_seq_to hour_meta; day_ts = tm_timestamp hour_meta; day_version = next_version (deltas Day)
             in rbind (if day_crossed then
                         rbind (load_old dir (deltas Week)) (\<lambda>old_week.
                           let st = put_tier gen Week (\<lambda>typ. merge_type (merged_day typ) (old_week typ))
                                      (min_seq_from (deltas Week) day_seq_from) day_seq_to day_ts (next_version (deltas Week)) st
                           in Inr (put_tier gen Day batch first_seq last_seq batch_ts day_version st))
                       else Inr (put_tier gen Day merged_day day_seq_from day_seq_to day_ts day_version st)) (\<lambda>st.
                Inr (put_tier gen Hour batch first_seq last_seq batch_ts (next_version (deltas Hour)) st)))))"

section \<open>Reading the tiers\<close>

definition tier_rows :: "deltas \<Rightarrow> ('b, 's) delta_dir \<Rightarrow> delta_type \<Rightarrow> tier \<Rightarrow> 'b drow list" where
  "tier_rows deltas dir typ tr =
     (case deltas tr of None \<Rightarrow> [] | Some m \<Rightarrow> (case dir (tm_byid m typ) of Some (ByidFile b) \<Rightarrow> b | _ \<Rightarrow> []))"

text \<open>One row for each id, from the highest tier that has it.\<close>

fun first_rows :: "'b drow list \<Rightarrow> 'b drow list" where
  "first_rows [] = []"
| "first_rows (r # rs) = r # filter (\<lambda>x. d_id x \<noteq> d_id r) (first_rows rs)"

definition raw_view :: "deltas \<Rightarrow> ('b, 's) delta_dir \<Rightarrow> delta_type \<Rightarrow> 'b drow list" where
  "raw_view deltas dir typ = first_rows (concat (map (tier_rows deltas dir typ) [Hour, Day, Week]))"

definition alive_view :: "deltas \<Rightarrow> ('b, 's) delta_dir \<Rightarrow> delta_type \<Rightarrow> 'b drow list" where
  "alive_view deltas dir typ = filter (\<lambda>r. \<not> d_deleted r) (raw_view deltas dir typ)"

section \<open>The current state\<close>

text \<open>The columns of a base row: id, cell, Hilbert key and the rest.\<close>

type_synonym 'b base_row = "int \<times> string option \<times> nat option \<times> 'b"

definition base_columns :: "'b drow \<Rightarrow> 'b base_row" where
  "base_columns r = (d_id r, d_cell r, d_hilbert r, d_cols r)"

record byid_part =
  pt_min :: "int option"
  pt_max :: "int option"
  pt_path :: delta_path

definition select_parts :: "byid_part list \<Rightarrow> int \<Rightarrow> int \<Rightarrow> delta_path list" where
  "select_parts parts lo hi =
     map pt_path (filter (\<lambda>q. case (pt_min q, pt_max q) of (Some mn, Some mx) \<Rightarrow> \<not> (mx < lo \<or> hi < mn) | _ \<Rightarrow> False) parts)"

definition fetch_current :: "byid_part list \<Rightarrow> (delta_path \<Rightarrow> 'b base_row list) \<Rightarrow> deltas \<Rightarrow> ('b, 's) delta_dir \<Rightarrow> delta_type \<Rightarrow> int list \<Rightarrow> 'b base_row list" where
  "fetch_current parts read_base deltas dir typ ids =
     (if ids = [] then []
      else map base_columns (filter (\<lambda>r. d_id r \<in> set ids) (alive_view deltas dir typ)) @
           filter (\<lambda>b. fst b \<in> set ids \<and> fst b \<notin> ids_of (raw_view deltas dir typ))
             (concat (map read_base (select_parts parts (Min (set ids)) (Max (set ids))))))"

text \<open>Rows of a batch, given by id and version, that are newer than what is stored.\<close>

definition drop_stale_versions :: "('b \<Rightarrow> int) \<Rightarrow> ('r \<Rightarrow> int \<times> int) \<Rightarrow> 'b base_row list \<Rightarrow> 'r list \<Rightarrow> 'r list" where
  "drop_stale_versions version_of key prior batch =
     concat (map (\<lambda>b. case filter (\<lambda>q. fst q = fst (key b)) prior of [] \<Rightarrow> [b]
                        | ms \<Rightarrow> map (\<lambda>_. b) (filter (\<lambda>q. version_of (snd (snd (snd q))) < snd (key b)) ms)) batch)"

end
