(* ===== verification/Tiers_Correct.thy ===== *)
theory Tiers_Correct
  imports Tiers
begin

text \<open>
  The tiers as a store of rows by id: a write overlays the batch on what the tiers held, keeps every
  file that the old manifest refers to, and leaves the by-id and the spatial tables in agreement.
\<close>

section \<open>Tables by id\<close>

definition row_of :: "'x drow list \<Rightarrow> int \<Rightarrow> 'x drow option" where
  "row_of t i = find (\<lambda>r. d_id r = i) t"

definition one_per_id :: "'x drow list \<Rightarrow> bool" where
  "one_per_id t \<longleftrightarrow> distinct (map d_id t)"

lemma row_of_simps [simp]: "row_of [] i = None" "row_of (r # t) i = (if d_id r = i then Some r else row_of t i)"
  by (simp_all add: row_of_def)

lemma row_of_append: "row_of (a @ b) i = (case row_of a i of None \<Rightarrow> row_of b i | Some r \<Rightarrow> Some r)"
  by (induction a) auto

lemma row_of_None: "row_of t i = None \<longleftrightarrow> i \<notin> ids_of t"
  by (induction t) (auto simp: ids_of_def)

lemma row_of_id: "row_of t i = Some r \<Longrightarrow> d_id r = i \<and> r \<in> set t"
  by (induction t) (auto split: if_splits)

lemma row_of_iff: "one_per_id t \<Longrightarrow> row_of t i = Some r \<longleftrightarrow> r \<in> set t \<and> d_id r = i"
  by (induction t) (auto simp: one_per_id_def)

lemma row_of_same_set: "one_per_id a \<Longrightarrow> one_per_id b \<Longrightarrow> set a = set b \<Longrightarrow> row_of a = row_of b"
  by (rule ext, rule option.exhaust, auto) (metis option.exhaust row_of_iff)+

lemma one_per_id_Cons [simp]: "one_per_id (r # t) \<longleftrightarrow> d_id r \<notin> ids_of t \<and> one_per_id t" "one_per_id []"
  by (auto simp: one_per_id_def ids_of_def)

lemma ids_of_simps [simp]: "ids_of [] = {}" "ids_of (r # t) = insert (d_id r) (ids_of t)" "ids_of (a @ b) = ids_of a \<union> ids_of b"
  by (auto simp: ids_of_def)

lemma one_per_id_append: "one_per_id (a @ b) \<longleftrightarrow> one_per_id a \<and> one_per_id b \<and> ids_of a \<inter> ids_of b = {}"
  by (induction a) auto

lemma one_per_id_filter: "one_per_id t \<Longrightarrow> one_per_id (filter P t)" "ids_of (filter P t) \<subseteq> ids_of t"
  by (auto simp: one_per_id_def distinct_map_filter ids_of_def)

lemma sort_rows: "one_per_id (sort_key f t) \<longleftrightarrow> one_per_id t" "one_per_id t \<Longrightarrow> row_of (sort_key f t) = row_of t"
proof -
  show one: "one_per_id (sort_key f t) \<longleftrightarrow> one_per_id t"
    unfolding one_per_id_def distinct_map by (simp add: distinct_sort)
  show "row_of (sort_key f t) = row_of t" if "one_per_id t" using one that by (intro row_of_same_set) simp_all
qed

lemma filter_id: "one_per_id t \<Longrightarrow> filter (\<lambda>x. d_id x = i) t = (case row_of t i of None \<Rightarrow> [] | Some r \<Rightarrow> [r])"
proof (induction t)
  case (Cons r t)
  have "filter (\<lambda>x. d_id x = i) t = []" if "i \<notin> ids_of t" for i using that by (auto simp: filter_empty_conv ids_of_def)
  then show ?case using Cons by auto
qed simp

lemma ids_of_filter: "ids_of (filter (\<lambda>x. d_id x \<notin> S) t) = ids_of t - S"
  by (auto simp: ids_of_def)

lemma row_of_filter_id: "row_of (filter (\<lambda>x. d_id x \<notin> S) t) i = (if i \<in> S then None else row_of t i)"
  by (induction t) auto

section \<open>Merging\<close>

definition with_prev :: "'x drow \<Rightarrow> 'b drow option \<Rightarrow> 'x drow" where
  "with_prev r x = (case x of None \<Rightarrow> r | Some x \<Rightarrow> r\<lparr>d_prev_cell := d_prev_cell x\<rparr>)"

lemma with_prev_id [simp]: "d_id (with_prev r x) = d_id r"
  by (simp add: with_prev_def split: option.splits)

lemma join_prev_map:
  fixes new :: "'x drow list"
  assumes "one_per_id old"
  shows "join_prev new old = map (\<lambda>n. with_prev n (row_of old (d_id n))) new"
proof -
  have "(case filter (\<lambda>x. d_id x = d_id n) old of [] \<Rightarrow> [n] | ms \<Rightarrow> map (\<lambda>x. n\<lparr>d_prev_cell := d_prev_cell x\<rparr>) ms) =
      [with_prev n (row_of old (d_id n))]" for n :: "'x drow"
    using assms by (simp add: filter_id with_prev_def split: option.splits)
  then show ?thesis unfolding join_prev_def by (simp only: concat_map_singleton)
qed

lemma row_of_map: "(\<And>r. d_id (f r) = d_id r) \<Longrightarrow> row_of (map f t) i = map_option f (row_of t i)"
  by (induction t) auto

lemma ids_of_map: "(\<And>r. d_id (f r) = d_id r) \<Longrightarrow> ids_of (map f t) = ids_of t"
  by (simp add: ids_of_def image_image)

lemma one_per_id_map: "(\<And>r. d_id (f r) = d_id r) \<Longrightarrow> one_per_id (map f t) \<longleftrightarrow> one_per_id t"
  by (simp add: one_per_id_def comp_def)

lemma merge_byid_rows:
  assumes "one_per_id new" and "one_per_id old"
  shows "one_per_id (merge_byid new old)"
    and "row_of (merge_byid new old) i = (case row_of new i of None \<Rightarrow> row_of old i | Some r \<Rightarrow> Some (with_prev r (row_of old i)))"
proof -
  let ?f = "\<lambda>n. with_prev n (row_of old (d_id n))"
  have j: "join_prev new old = map ?f new" by (rule join_prev_map [OF assms(2)])
  have f: "d_id (?f n) = d_id n" for n by simp
  show "one_per_id (merge_byid new old)"
    using assms one_per_id_filter(1) [OF assms(2), of "\<lambda>x. d_id x \<notin> ids_of new"]
    by (auto simp: merge_byid_def j one_per_id_append one_per_id_map ids_of_map ids_of_filter)
  show "row_of (merge_byid new old) i = (case row_of new i of None \<Rightarrow> row_of old i | Some r \<Rightarrow> Some (with_prev r (row_of old i)))"
    using row_of_id [of new i] row_of_None [of new i]
    by (auto simp: merge_byid_def j row_of_append row_of_map [of ?f, OF f] row_of_filter_id split: option.splits)
qed

text \<open>The tables of one type in a tier agree: the by-id row of an id is that of the spatial table.\<close>

definition tables_agree :: "('s \<Rightarrow> 'b) \<Rightarrow> 'b drow list \<times> 's drow list \<Rightarrow> bool" where
  "tables_agree p t \<longleftrightarrow> one_per_id (fst t) \<and> one_per_id (snd t) \<and> (\<forall>i. row_of (fst t) i = map_option (proj_row p) (row_of (snd t) i))"

lemma proj_row_simps [simp]: "d_id (proj_row p r) = d_id r" "d_prev_cell (proj_row p r) = d_prev_cell r" "d_deleted (proj_row p r) = d_deleted r"
  "d_seq (proj_row p r) = d_seq r" "d_cell (proj_row p r) = d_cell r"
  by (simp_all add: proj_row_def)

lemma proj_with_prev: "proj_row p (with_prev r x) = with_prev (proj_row p r) x"
  by (simp add: with_prev_def proj_row_def split: option.splits)

lemma merge_spatial_old:
  assumes "tables_agree p (ob, os)"
  shows "concat (map (\<lambda>b. map (\<lambda>s. s\<lparr>d_deleted := d_deleted b, d_prev_cell := d_prev_cell b, d_seq := d_seq b\<rparr>) (filter (\<lambda>s. d_id s = d_id b) os))
      (filter (\<lambda>b. d_id b \<notin> S) ob)) = map (\<lambda>b. the (row_of os (d_id b))) (filter (\<lambda>b. d_id b \<notin> S) ob)"
proof -
  have one: "one_per_id os" "one_per_id ob" using assms by (simp_all add: tables_agree_def)
  have "map (\<lambda>s. s\<lparr>d_deleted := d_deleted b, d_prev_cell := d_prev_cell b, d_seq := d_seq b\<rparr>) (filter (\<lambda>s. d_id s = d_id b) os) = [the (row_of os (d_id b))]"
    if "b \<in> set ob" for b
  proof -
    have "row_of ob (d_id b) = Some b" using that one(2) by (simp add: row_of_iff)
    then obtain s where "row_of os (d_id b) = Some s" "proj_row p s = b" using assms by (auto simp: tables_agree_def)
    then show ?thesis using one(1) by (auto simp: filter_id proj_row_def)
  qed
  then have "map (\<lambda>b. map (\<lambda>s. s\<lparr>d_deleted := d_deleted b, d_prev_cell := d_prev_cell b, d_seq := d_seq b\<rparr>) (filter (\<lambda>s. d_id s = d_id b) os))
      (filter (\<lambda>b. d_id b \<notin> S) ob) = map (\<lambda>b. [the (row_of os (d_id b))]) (filter (\<lambda>b. d_id b \<notin> S) ob)" by simp
  then show ?thesis by (simp only: concat_map_singleton)
qed

lemma agree_rows: "tables_agree p (b, s) \<Longrightarrow> ids_of b = ids_of s"
  by (auto simp: tables_agree_def) (metis map_option_is_None row_of_None)+

lemma merge_type_agree:
  assumes new: "tables_agree p new" and old: "\<And>t. old = Some t \<Longrightarrow> tables_agree p t"
  shows "tables_agree p (merge_type new old)"
proof (cases old)
  case None
  then show ?thesis using new by (simp add: merge_type_def)
next
  case (Some t)
  obtain nb ns where n: "new = (nb, ns)" by (cases new)
  obtain ob os where t: "t = (ob, os)" by (cases t)
  have an: "tables_agree p (nb, ns)" and ao: "tables_agree p (ob, os)" using new old Some n t by auto
  have one: "one_per_id nb" "one_per_id ns" "one_per_id ob" "one_per_id os" using an ao by (simp_all add: tables_agree_def)
  let ?f = "\<lambda>n. with_prev n (row_of ob (d_id n))" and ?keep = "filter (\<lambda>b. d_id b \<notin> ids_of nb) ob"
  have ms: "merge_spatial ns nb ob os = map ?f ns @ map (\<lambda>b. the (row_of os (d_id b))) ?keep"
    unfolding merge_spatial_def merge_spatial_old [OF ao] join_prev_map [OF one(3)] ..
  have os_row: "row_of os (d_id b) = Some (the (row_of os (d_id b)))" "d_id (the (row_of os (d_id b))) = d_id b" if "b \<in> set ob" for b
  proof -
    have "row_of ob (d_id b) = Some b" using that one(3) by (simp add: row_of_iff)
    then obtain s where "row_of os (d_id b) = Some s" using ao by (auto simp: tables_agree_def)
    then show "row_of os (d_id b) = Some (the (row_of os (d_id b)))" "d_id (the (row_of os (d_id b))) = d_id b"
      using row_of_id [of os "d_id b" s] by simp_all
  qed
  have idm: "map d_id (map (\<lambda>b. the (row_of os (d_id b))) ?keep) = map d_id ?keep" using os_row(2) by simp
  have keep: "one_per_id (map (\<lambda>b. the (row_of os (d_id b))) ?keep)"
    using one_per_id_filter(1) [OF one(3)] unfolding one_per_id_def idm .
  have ids: "ids_of (map (\<lambda>b. the (row_of os (d_id b))) ?keep) = ids_of ?keep"
    using arg_cong [OF idm, of set] by (simp add: ids_of_def image_image)
  have row: "row_of (map (\<lambda>b. the (row_of os (d_id b))) ?keep) i = (if i \<in> ids_of nb then None else row_of os i)" for i
  proof -
    have "row_of (map (\<lambda>b. the (row_of os (d_id b))) bs) i = (if i \<in> ids_of bs then row_of os i else None)" if "set bs \<subseteq> set ob" for bs
      using that
    proof (induction bs)
      case (Cons b bs)
      then show ?case using os_row [of b] by (cases "d_id b = i") auto
    qed simp
    from this [of ?keep] show ?thesis using agree_rows [OF ao] row_of_None [of os i]
      by (auto simp: ids_of_filter split: if_splits)
  qed
  have "one_per_id (merge_spatial ns nb ob os)"
    using one keep ids agree_rows [OF an] by (auto simp: ms one_per_id_append one_per_id_map ids_of_map ids_of_filter)
  moreover have "row_of (merge_byid nb ob) i = map_option (proj_row p) (row_of (merge_spatial ns nb ob os) i)" for i
  proof (cases "row_of ns i")
    case None
    then have "row_of nb i = None" "i \<notin> ids_of nb" using an agree_rows [OF an] by (simp_all add: tables_agree_def row_of_None)
    then show ?thesis using None ao by (simp add: merge_byid_rows [OF one(1,3)] ms row_of_append row_of_map row tables_agree_def)
  next
    case (Some r)
    then have "row_of nb i = Some (proj_row p r)" "d_id r = i" using an row_of_id [OF Some] by (simp_all add: tables_agree_def)
    then show ?thesis using Some by (simp add: merge_byid_rows [OF one(1,3)] ms row_of_append row_of_map proj_with_prev)
  qed
  ultimately show ?thesis using merge_byid_rows(1) [OF one(1,3)] by (simp add: merge_type_def Some n t tables_agree_def)
qed

section \<open>Versions of a tier\<close>

lemma lit_inj [simp]: "lit a = lit b \<longleftrightarrow> a = b"
  by (simp add: lit_def inj_map_eq_map inj_def)

lemma py_str_int_eq: "py_str_int a = py_str_int b \<longleftrightarrow> a = b"
proof
  assume "py_str_int a = py_str_int b"
  then have "(Inr a :: int result) = Inr b" unfolding int_of_int_text [of ascii_db, symmetric] by (rule arg_cong)
  then show "a = b" by simp
qed simp

lemma tier_name_inj [simp]: "tier_name a = tier_name b \<longleftrightarrow> a = b"
  by (cases a; cases b) simp_all

lemma out_dir_inj: "out_dir gen tr v = out_dir gen tr' v' \<longleftrightarrow> tr = tr' \<and> v = v'"
  by (simp add: out_dir_def py_str_int_eq)

lemma type_name_inj [simp]: "type_name a = type_name b \<longleftrightarrow> a = b"
  by (cases a; cases b) simp_all

lemma file_names [simp]:
  "type_name a @ ''.byid.parquet'' = type_name b @ ''.byid.parquet'' \<longleftrightarrow> a = b" "type_name a @ ''.spatial.parquet'' = type_name b @ ''.spatial.parquet'' \<longleftrightarrow> a = b"
  "type_name a @ ''.byid.parquet'' \<noteq> type_name b @ ''.spatial.parquet''" "type_name a @ ''.byid.parquet'' \<noteq> ''tombstones.parquet''"
  "type_name a @ ''.spatial.parquet'' \<noteq> ''tombstones.parquet''"
  by (cases a; cases b; simp)+

lemma take_path: "take 4 (byid_path gen tr v typ) = out_dir gen tr v" "take 4 (spatial_path gen tr v typ) = out_dir gen tr v"
  "take 4 (tomb_path gen tr v) = out_dir gen tr v"
  by (simp_all add: byid_path_def spatial_path_def tomb_path_def out_dir_def)

lemma paths_in_version:
  "byid_path gen tr v a = byid_path gen tr v b \<longleftrightarrow> a = b" "spatial_path gen tr v a = spatial_path gen tr v b \<longleftrightarrow> a = b"
  "byid_path gen tr v a \<noteq> spatial_path gen tr v b" "spatial_path gen tr v b \<noteq> byid_path gen tr v a"
  "byid_path gen tr v a \<noteq> tomb_path gen tr v" "spatial_path gen tr v a \<noteq> tomb_path gen tr v"
  using file_names(3) [of a b] by (auto simp: byid_path_def spatial_path_def tomb_path_def)

text \<open>
  A tier as its manifest entry describes it: its files are those of its version, the tables agree, the
  counts and cells are those of the tables, and every moved or deleted row has its tombstone.
\<close>

definition tomb_set :: "(delta_type \<Rightarrow> 'b drow list) \<Rightarrow> (delta_type \<times> int \<times> string \<times> int) set" where
  "tomb_set byid = {(typ, d_id r, c, d_seq r) | typ r c. r \<in> set (byid typ) \<and> is_tombstone r \<and> d_prev_cell r = Some c}"

definition tier_ok :: "('s \<Rightarrow> 'b) \<Rightarrow> pystr \<Rightarrow> ('b, 's) delta_dir \<Rightarrow> tier \<Rightarrow> tier_meta \<Rightarrow> bool" where
  "tier_ok p gen dir tr m \<longleftrightarrow>
     tm_byid m = byid_path gen tr (tm_version m) \<and> tm_spatial m = spatial_path gen tr (tm_version m) \<and>
     tm_tombstones m = tomb_path gen tr (tm_version m) \<and>
     (\<exists>T ts. (\<forall>typ. tables_agree p (T typ) \<and> dir (tm_byid m typ) = Some (ByidFile (fst (T typ))) \<and>
               dir (tm_spatial m typ) = Some (SpatialFile (snd (T typ))) \<and> tm_rows m typ = length (fst (T typ)) \<and>
               tm_cells m typ = cells_of (snd (T typ))) \<and>
        dir (tm_tombstones m) = Some (TombFile ts) \<and> set ts = tomb_set (\<lambda>typ. fst (T typ)))"

definition deltas_ok :: "('s \<Rightarrow> 'b) \<Rightarrow> pystr \<Rightarrow> deltas \<Rightarrow> ('b, 's) delta_dir \<Rightarrow> bool" where
  "deltas_ok p gen deltas dir \<longleftrightarrow> (\<forall>tr m. deltas tr = Some m \<longrightarrow> tier_ok p gen dir tr m)"

lemma all_types: "set delta_types = UNIV"
  by (auto simp: delta_types_def) (metis delta_type.exhaust)

lemma tombstones_set: "set (tombstones byid) = tomb_set byid"
proof -
  have "set (tombstones byid) = (\<Union>typ. (\<lambda>r. (typ, d_id r, the (d_prev_cell r), d_seq r)) ` set (filter is_tombstone (byid typ)))"
    by (simp add: tombstones_def all_types)
  also have "\<dots> = tomb_set byid" by (force simp: tomb_set_def is_tombstone_def)
  finally show ?thesis .
qed

lemma tables_agree_sorted: "tables_agree p t \<Longrightarrow> tables_agree p (by_row_id (fst t), by_cell_hilbert (snd t))"
  by (simp add: tables_agree_def by_row_id_def by_cell_hilbert_def sort_rows)

lemma write_tier_version_ok:
  assumes w: "write_tier_version gen tr merged sf sto ts v dir = Some (m, dir')" and a: "\<And>typ. tables_agree p (merged typ)"
  shows "tier_ok p gen dir' tr m" and "tm_version m = v" and "tm_timestamp m = ts"
    and "take 4 q \<noteq> out_dir gen tr v \<Longrightarrow> dir' q = dir q"
    and "dir' (tm_byid m typ) = Some (ByidFile (by_row_id (fst (merged typ))))"
proof -
  let ?T = "\<lambda>typ. (by_row_id (fst (merged typ)), by_cell_hilbert (snd (merged typ)))"
  have m: "tm_version m = v" "tm_byid m = byid_path gen tr v" "tm_spatial m = spatial_path gen tr v" "tm_tombstones m = tomb_path gen tr v"
    "tm_timestamp m = ts" "tm_rows m = (\<lambda>typ. length (fst (merged typ)))" "tm_cells m = (\<lambda>typ. cells_of (snd (merged typ)))"
    using w by (auto simp: write_tier_version_def Let_def split: if_splits)
  have dir': "dir' = (dir(byid_path gen tr v DNode \<mapsto> ByidFile (fst (?T DNode)), spatial_path gen tr v DNode \<mapsto> SpatialFile (snd (?T DNode)),
      byid_path gen tr v DWay \<mapsto> ByidFile (fst (?T DWay)), spatial_path gen tr v DWay \<mapsto> SpatialFile (snd (?T DWay)),
      byid_path gen tr v DRelation \<mapsto> ByidFile (fst (?T DRelation)), spatial_path gen tr v DRelation \<mapsto> SpatialFile (snd (?T DRelation)),
      tomb_path gen tr v \<mapsto> TombFile (tombstones (\<lambda>typ. fst (merged typ)))))"
    using w by (auto simp: write_tier_version_def Let_def delta_types_def split: if_splits)
  note d = paths_in_version
  have b: "dir' (byid_path gen tr v ty) = Some (ByidFile (fst (?T ty)))" for ty by (cases ty) (simp_all add: dir' d)
  have s: "dir' (spatial_path gen tr v ty) = Some (SpatialFile (snd (?T ty)))" for ty by (cases ty) (simp_all add: dir' d d(4))
  have t: "dir' (tomb_path gen tr v) = Some (TombFile (tombstones (\<lambda>typ. fst (merged typ))))" by (simp add: dir')
  show "tm_version m = v" "tm_timestamp m = ts" by (rule m)+
  show "dir' (tm_byid m typ) = Some (ByidFile (by_row_id (fst (merged typ))))" by (simp add: m b)
  show "dir' q = dir q" if "take 4 q \<noteq> out_dir gen tr v" using that take_path [of gen tr v] by (auto simp: dir')
  have sets: "set (by_row_id t) = set t" "set (by_cell_hilbert t') = set t'" for t t' by (simp_all add: by_row_id_def by_cell_hilbert_def)
  have cells: "cells_of (snd (?T ty)) = cells_of (snd (merged ty))" for ty by (simp add: cells_of_def sets)
  have rows: "length (fst (?T ty)) = length (fst (merged ty))" for ty by (simp add: by_row_id_def)
  have tombs: "set (tombstones (\<lambda>typ. fst (merged typ))) = tomb_set (\<lambda>typ. fst (?T typ))"
    unfolding tombstones_set by (simp add: tomb_set_def sets)
  have agree: "tables_agree p (?T ty)" for ty by (rule tables_agree_sorted [OF a])
  show "tier_ok p gen dir' tr m" unfolding tier_ok_def m
    by (intro conjI refl exI [of _ ?T] exI [of _ "tombstones (\<lambda>typ. fst (merged typ))"] allI agree b s t cells [symmetric] rows [symmetric] tombs)
qed

lemma tier_ok_same:
  assumes "tier_ok p gen dir tr m" and "\<And>q. take 4 q = out_dir gen tr (tm_version m) \<Longrightarrow> dir' q = dir q"
  shows "tier_ok p gen dir' tr m"
proof -
  have "dir' (tm_byid m ty) = dir (tm_byid m ty)" "dir' (tm_spatial m ty) = dir (tm_spatial m ty)" "dir' (tm_tombstones m) = dir (tm_tombstones m)" for ty
    using assms by (simp_all add: tier_ok_def take_path)
  note same = this
  show ?thesis using assms(1) unfolding tier_ok_def same .
qed

section \<open>The state that the tiers stand for\<close>

text \<open>A row apart from the cell it came from, and the rows of a tier and of all tiers by id.\<close>

definition content :: "'b drow \<Rightarrow> 'b drow" where "content r = r\<lparr>d_prev_cell := None\<rparr>"

definition rows_by_id :: "'b drow list \<Rightarrow> int \<Rightarrow> 'b drow option" where
  "rows_by_id t i = map_option content (row_of t i)"

definition overlay :: "(int \<Rightarrow> 'a option) \<Rightarrow> (int \<Rightarrow> 'a option) \<Rightarrow> int \<Rightarrow> 'a option" where
  "overlay f g i = (case f i of None \<Rightarrow> g i | Some r \<Rightarrow> Some r)"

definition tier_state :: "deltas \<Rightarrow> ('b, 's) delta_dir \<Rightarrow> delta_type \<Rightarrow> int \<Rightarrow> 'b drow option" where
  "tier_state deltas dir typ = rows_by_id (raw_view deltas dir typ)"

text \<open>The cells that the rows record as previous; the lowest tier has the first record.\<close>

definition prevs :: "'b drow list \<Rightarrow> int \<Rightarrow> string option option" where
  "prevs t i = map_option d_prev_cell (row_of t i)"

definition first_prev :: "deltas \<Rightarrow> ('b, 's) delta_dir \<Rightarrow> delta_type \<Rightarrow> int \<Rightarrow> string option option" where
  "first_prev deltas dir ty = overlay (prevs (tier_rows deltas dir ty Week))
     (overlay (prevs (tier_rows deltas dir ty Day)) (prevs (tier_rows deltas dir ty Hour)))"

lemma overlay_simps [simp]: "overlay (\<lambda>_. None) g = g" "overlay f (overlay f g) = overlay f g" "overlay (overlay f g) h = overlay f (overlay g h)"
  "overlay f (\<lambda>_. None) = f" "overlay f f = f"
  by (auto simp: overlay_def fun_eq_iff split: option.splits)

text \<open>The rows of all tiers, apart from \<open>prev_cell\<close>.\<close>

definition stored :: "deltas \<Rightarrow> ('b, 's) delta_dir \<Rightarrow> delta_type \<Rightarrow> 'b drow set" where
  "stored deltas dir ty = ran (rows_by_id (tier_rows deltas dir ty Hour)) \<union> ran (rows_by_id (tier_rows deltas dir ty Day)) \<union> ran (rows_by_id (tier_rows deltas dir ty Week))"

lemma ran_overlay: "x \<in> ran (overlay f g) \<Longrightarrow> x \<in> ran f \<or> x \<in> ran g"
  by (auto simp: ran_def overlay_def split: option.splits)

lemma overlay_absorb: "overlay f (overlay g (overlay f (overlay g h))) = overlay f (overlay g h)"
  by (auto simp: overlay_def fun_eq_iff split: option.splits)

lemma rows_by_id_append: "rows_by_id (a @ b) = overlay (rows_by_id a) (rows_by_id b)"
  by (auto simp: rows_by_id_def overlay_def fun_eq_iff row_of_append split: option.splits)

lemma rows_by_id_Nil: "rows_by_id [] = (\<lambda>_. None)"
  by (simp add: rows_by_id_def fun_eq_iff)

lemma prevs_Nil: "prevs [] = (\<lambda>_. None)"
  by (simp add: prevs_def fun_eq_iff)

lemma rows_cong: "row_of a = row_of b \<Longrightarrow> rows_by_id a = rows_by_id b \<and> prevs a = prevs b"
  by (simp add: rows_by_id_def prevs_def fun_eq_iff)

lemma row_of_first_rows: "row_of (first_rows t) i = row_of t i"
proof (induction t)
  case (Cons r t)
  have "row_of (filter (\<lambda>x. d_id x \<noteq> j) u) i = (if i = j then None else row_of u i)" for j and u :: "'a drow list"
    by (induction u) auto
  then show ?case using Cons by auto
qed simp

lemma tier_state_tiers:
  "tier_state deltas dir typ = overlay (rows_by_id (tier_rows deltas dir typ Hour))
     (overlay (rows_by_id (tier_rows deltas dir typ Day)) (rows_by_id (tier_rows deltas dir typ Week)))"
  by (simp add: tier_state_def raw_view_def rows_by_id_append [symmetric], simp add: rows_by_id_def row_of_first_rows fun_eq_iff)

lemma content_with_prev: "content (with_prev r x) = content r"
  by (simp add: content_def with_prev_def split: option.splits)

lemma rows_merge:
  assumes "one_per_id new" and "one_per_id old"
  shows "rows_by_id (merge_byid new old) = overlay (rows_by_id new) (rows_by_id old)"
  by (auto simp: rows_by_id_def overlay_def fun_eq_iff merge_byid_rows [OF assms] content_with_prev split: option.splits)

definition opt_rows :: "('b drow list \<times> 's drow list) option \<Rightarrow> 'b drow list" where
  "opt_rows t = (case t of None \<Rightarrow> [] | Some (b, s) \<Rightarrow> b)"

lemma prevs_merge:
  assumes "one_per_id new" and "one_per_id old"
  shows "prevs (merge_byid new old) = overlay (prevs old) (prevs new)" and "ids_of old \<subseteq> ids_of (merge_byid new old)"
proof -
  show "prevs (merge_byid new old) = overlay (prevs old) (prevs new)"
    by (auto simp: prevs_def overlay_def fun_eq_iff merge_byid_rows [OF assms] with_prev_def split: option.splits)
  show "ids_of old \<subseteq> ids_of (merge_byid new old)"
    using merge_byid_rows(2) [OF assms] row_of_None [of "merge_byid new old"] row_of_None [of old] by (fastforce split: option.splits)
qed

lemma rows_merge_type:
  assumes "tables_agree p new" and "\<forall>t. old = Some t \<longrightarrow> tables_agree p t"
  shows "rows_by_id (fst (merge_type new old)) = overlay (rows_by_id (fst new)) (rows_by_id (opt_rows old))"
    and "prevs (fst (merge_type new old)) = overlay (prevs (opt_rows old)) (prevs (fst new))"
    and "ids_of (opt_rows old) \<subseteq> ids_of (fst (merge_type new old))"
proof -
  have "rows_by_id (fst (merge_type new old)) = overlay (rows_by_id (fst new)) (rows_by_id (opt_rows old)) \<and>
      prevs (fst (merge_type new old)) = overlay (prevs (opt_rows old)) (prevs (fst new)) \<and> ids_of (opt_rows old) \<subseteq> ids_of (fst (merge_type new old))"
  proof (cases old)
    case None
    then show ?thesis by (simp add: merge_type_def opt_rows_def rows_by_id_Nil prevs_Nil ids_of_def)
  next
    case (Some t)
    then show ?thesis using assms by (cases t) (auto simp: merge_type_def opt_rows_def tables_agree_def rows_merge prevs_merge(1) dest: set_mp [OF prevs_merge(2)])
  qed
  then show "rows_by_id (fst (merge_type new old)) = overlay (rows_by_id (fst new)) (rows_by_id (opt_rows old))"
    "prevs (fst (merge_type new old)) = overlay (prevs (opt_rows old)) (prevs (fst new))" "ids_of (opt_rows old) \<subseteq> ids_of (fst (merge_type new old))" by blast+
qed

section \<open>Writing\<close>

lemma load_old_ok:
  assumes "deltas_ok p gen deltas dir"
  obtains T where "load_old dir (deltas tr) = Inr T" "\<And>ty t. T ty = Some t \<Longrightarrow> tables_agree p t"
    "\<And>ty. opt_rows (T ty) = tier_rows deltas dir ty tr" "\<And>ty. deltas tr \<noteq> None \<Longrightarrow> T ty \<noteq> None"
proof (cases "deltas tr")
  case None
  then show ?thesis using that [of "\<lambda>_. None"] by (simp add: load_old_def opt_rows_def tier_rows_def)
next
  case (Some m)
  then have "tier_ok p gen dir tr m" using assms by (simp add: deltas_ok_def)
  then obtain T where T: "\<And>ty. tables_agree p (T ty)" "\<And>ty. dir (tm_byid m ty) = Some (ByidFile (fst (T ty)))"
      "\<And>ty. dir (tm_spatial m ty) = Some (SpatialFile (snd (T ty)))" unfolding tier_ok_def by blast
  have "load_old dir (deltas tr) = Inr (\<lambda>ty. Some (T ty))" using T(2,3) by (simp add: load_old_def Some Let_def delta_types_def)
  moreover have "opt_rows (Some (T ty)) = tier_rows deltas dir ty tr" for ty by (cases "T ty") (simp add: opt_rows_def tier_rows_def Some T)
  ultimately show ?thesis using that [of "\<lambda>ty. Some (T ty)"] T(1) by simp
qed

lemma tier_rows_same:
  assumes "deltas_ok p gen deltas dir" and "deltas' tr = deltas tr"
    and "\<And>m q. deltas tr = Some m \<Longrightarrow> take 4 q = out_dir gen tr (tm_version m) \<Longrightarrow> dir' q = dir q"
  shows "tier_rows deltas' dir' ty tr = tier_rows deltas dir ty tr"
proof (cases "deltas tr")
  case (Some m)
  then have "tm_byid m = byid_path gen tr (tm_version m)" using assms(1) by (simp add: deltas_ok_def tier_ok_def)
  then have "dir' (tm_byid m ty) = dir (tm_byid m ty)" using assms(3) [OF Some] by (simp add: take_path)
  then show ?thesis using Some assms(2) by (simp add: tier_rows_def)
qed (simp add: tier_rows_def assms(2))

lemma put_tier_ok:
  assumes ok: "deltas_ok p gen deltas dir" and fresh: "\<forall>m. deltas tr = Some m \<longrightarrow> tm_version m \<noteq> v" and a: "\<And>ty. tables_agree p (merged ty)"
    and put: "put_tier gen tr merged sf sto ts v (vs, deltas, dir) = (vs', deltas', dir')"
  shows "deltas_ok p gen deltas' dir'" and "tr' \<noteq> tr \<Longrightarrow> deltas' tr' = deltas tr'" and "take 4 q \<noteq> out_dir gen tr v \<Longrightarrow> dir' q = dir q"
    and "tr' \<noteq> tr \<Longrightarrow> tier_rows deltas' dir' ty tr' = tier_rows deltas dir ty tr'"
    and "(\<exists>ty. fst (merged ty) \<noteq> []) \<and> (\<forall>ty. row_of (tier_rows deltas' dir' ty tr) = row_of (fst (merged ty))) \<or>
      (\<forall>ty. fst (merged ty) = [] \<and> tier_rows deltas' dir' ty tr = tier_rows deltas dir ty tr)"
proof -
  have "deltas_ok p gen deltas' dir' \<and> (tr' \<noteq> tr \<longrightarrow> deltas' tr' = deltas tr') \<and> (take 4 q \<noteq> out_dir gen tr v \<longrightarrow> dir' q = dir q) \<and>
      (tr' \<noteq> tr \<longrightarrow> tier_rows deltas' dir' ty tr' = tier_rows deltas dir ty tr') \<and>
      ((\<exists>ty. fst (merged ty) \<noteq> []) \<and> (\<forall>ty. row_of (tier_rows deltas' dir' ty tr) = row_of (fst (merged ty))) \<or>
       (\<forall>ty. fst (merged ty) = [] \<and> tier_rows deltas' dir' ty tr = tier_rows deltas dir ty tr))" for tr' q ty
  proof (cases "write_tier_version gen tr merged sf sto ts v dir")
    case None
    then have "length (fst (merged ty)) = 0" for ty
      by (cases ty) (auto simp: write_tier_version_def Let_def delta_types_def split: if_splits)
    then show ?thesis using None ok put by (simp add: put_tier_def)
  next
    case (Some md)
    obtain m d where md: "md = (m, d)" by (cases md)
    note w = write_tier_version_ok [OF Some [unfolded md] a]
    have st: "deltas' = deltas(tr \<mapsto> m)" "dir' = d" using put Some md by (auto simp: put_tier_def)
    have other: "dir' q = dir q" if "deltas tr0 = Some m0" "take 4 q = out_dir gen tr0 (tm_version m0)" for tr0 m0 q
      using that fresh by (intro w(4) [unfolded st(2) [symmetric]]) (auto simp: out_dir_inj)
    have "tier_ok p gen dir' tr0 m0" if "deltas' tr0 = Some m0" for tr0 m0
    proof (cases "tr0 = tr")
      case True
      then show ?thesis using that w(1) by (simp add: st)
    next
      case False
      then have m0: "deltas tr0 = Some m0" using that by (simp add: st)
      then have "tier_ok p gen dir tr0 m0" using ok by (simp add: deltas_ok_def)
      then show ?thesis by (rule tier_ok_same) (rule other [OF m0])
    qed
    then have "deltas_ok p gen deltas' dir'" by (simp add: deltas_ok_def)
    moreover have "tier_rows deltas' dir' ty tr' = tier_rows deltas dir ty tr'" if "tr' \<noteq> tr"
      using that by (intro tier_rows_same [OF ok]) (auto simp: st(1) intro: other)
    moreover have "row_of (tier_rows deltas' dir' ty tr) = row_of (fst (merged ty))" for ty
      using w(5) [of ty] a [of ty] by (simp add: st tier_rows_def by_row_id_def sort_rows tables_agree_def fun_eq_iff)
    moreover have "\<exists>ty. fst (merged ty) \<noteq> []"
      using Some by (auto simp: write_tier_version_def delta_types_def split: if_splits)
    ultimately show ?thesis using w(4) by (simp add: st)
  qed
  then show "deltas_ok p gen deltas' dir'" "tr' \<noteq> tr \<Longrightarrow> deltas' tr' = deltas tr'" "take 4 q \<noteq> out_dir gen tr v \<Longrightarrow> dir' q = dir q"
    "tr' \<noteq> tr \<Longrightarrow> tier_rows deltas' dir' ty tr' = tier_rows deltas dir ty tr'"
    "(\<exists>ty. fst (merged ty) \<noteq> []) \<and> (\<forall>ty. row_of (tier_rows deltas' dir' ty tr) = row_of (fst (merged ty))) \<or>
      (\<forall>ty. fst (merged ty) = [] \<and> tier_rows deltas' dir' ty tr = tier_rows deltas dir ty tr)" by blast+
qed

lemma next_version_fresh: "x = Some m \<Longrightarrow> tm_version m \<noteq> next_version x"
  by (simp add: next_version_def)

lemma batch_agree: "one_per_id (resolved ty) \<Longrightarrow> tables_agree p (batch_tables p resolved ty)"
  by (simp add: batch_tables_def tables_agree_def one_per_id_map row_of_map)

text \<open>The directories of the versions that a write may create.\<close>

definition new_dirs :: "pystr \<Rightarrow> deltas \<Rightarrow> delta_path set" where
  "new_dirs gen deltas = {out_dir gen tr (next_version (deltas tr)) | tr. True}"

definition write_result :: "('s \<Rightarrow> 'b) \<Rightarrow> pystr \<Rightarrow> (delta_type \<Rightarrow> 's drow list) \<Rightarrow> deltas \<Rightarrow> ('b, 's) delta_dir \<Rightarrow> deltas \<Rightarrow> ('b, 's) delta_dir \<Rightarrow> bool" where
  "write_result p gen resolved deltas dir deltas' dir' \<longleftrightarrow>
     deltas_ok p gen deltas' dir' \<and> (\<forall>q. take 4 q \<notin> new_dirs gen deltas \<longrightarrow> dir' q = dir q) \<and>
     (\<forall>ty. tier_state deltas' dir' ty = overlay (rows_by_id (map (proj_row p) (resolved ty))) (tier_state deltas dir ty) \<and>
        first_prev deltas' dir' ty = overlay (first_prev deltas dir ty) (prevs (resolved ty)) \<and>
        stored deltas' dir' ty \<subseteq> stored deltas dir ty \<union> ran (rows_by_id (map (proj_row p) (resolved ty))))"

text \<open>A tier that is merged with its own rows has the merged rows afterwards, written or not.\<close>

lemma put_merged_rows:
  assumes "(\<exists>ty. fst (merged ty) \<noteq> []) \<and> (\<forall>ty. row_of (tier_rows deltas' dir' ty tr) = row_of (fst (merged ty))) \<or>
      (\<forall>ty. fst (merged ty) = [] \<and> tier_rows deltas' dir' ty tr = tier_rows deltas dir ty tr)"
    and sub: "ids_of (tier_rows deltas dir ty tr) \<subseteq> ids_of (fst (merged ty))"
  shows "rows_by_id (tier_rows deltas' dir' ty tr) = rows_by_id (fst (merged ty)) \<and> prevs (tier_rows deltas' dir' ty tr) = prevs (fst (merged ty))"
  using assms(1)
proof
  assume e: "\<forall>ty. fst (merged ty) = [] \<and> tier_rows deltas' dir' ty tr = tier_rows deltas dir ty tr"
  then have "ids_of (tier_rows deltas dir ty tr) = {}" using sub by (simp add: ids_of_def)
  then have "tier_rows deltas dir ty tr = []" by (simp add: ids_of_def)
  then show ?thesis using e by simp
qed (use rows_cong in blast)

lemma prevs_batch: "prevs (fst (batch_tables p resolved ty)) = prevs (resolved ty)" "prevs (map (proj_row p) (resolved ty)) = prevs (resolved ty)"
  by (auto simp: batch_tables_def prevs_def row_of_map option.map_comp comp_def fun_eq_iff)

lemma rows_batch: "rows_by_id (fst (batch_tables p resolved ty)) = rows_by_id (map (proj_row p) (resolved ty))"
  by (simp add: batch_tables_def)

text \<open>A tier that gets the batch alone keeps its rows if the batch is empty.\<close>

lemma put_batch_rows:
  assumes "(\<exists>ty. fst (batch_tables p resolved ty) \<noteq> []) \<and> (\<forall>ty. row_of (tier_rows deltas' dir' ty tr) = row_of (fst (batch_tables p resolved ty))) \<or>
      (\<forall>ty. fst (batch_tables p resolved ty) = [] \<and> tier_rows deltas' dir' ty tr = tier_rows deltas dir ty tr)"
  shows "(\<forall>ty. resolved ty = [] \<and> tier_rows deltas' dir' ty tr = tier_rows deltas dir ty tr) \<or>
    (\<exists>ty. resolved ty \<noteq> []) \<and> (\<forall>ty. rows_by_id (tier_rows deltas' dir' ty tr) = rows_by_id (map (proj_row p) (resolved ty)) \<and>
      prevs (tier_rows deltas' dir' ty tr) = prevs (resolved ty))"
  using assms
proof
  assume a: "(\<exists>ty. fst (batch_tables p resolved ty) \<noteq> []) \<and> (\<forall>ty. row_of (tier_rows deltas' dir' ty tr) = row_of (fst (batch_tables p resolved ty)))"
  then have "\<exists>ty. resolved ty \<noteq> []" by (auto simp: batch_tables_def)
  moreover have "rows_by_id (tier_rows deltas' dir' ty tr) = rows_by_id (map (proj_row p) (resolved ty)) \<and>
      prevs (tier_rows deltas' dir' ty tr) = prevs (resolved ty)" for ty
    using a rows_cong [of "tier_rows deltas' dir' ty tr" "fst (batch_tables p resolved ty)"] by (simp add: prevs_batch rows_batch)
  ultimately show ?thesis by blast
qed (simp add: batch_tables_def)

lemma write_hour:
  assumes ok: "deltas_ok p gen deltas dir" and one: "\<And>ty. one_per_id (resolved ty)"
    and T: "\<And>ty t. T ty = Some t \<Longrightarrow> tables_agree p t" "\<And>ty. opt_rows (T ty) = tier_rows deltas dir ty Hour"
    and put: "put_tier gen Hour (\<lambda>ty. merge_type (batch_tables p resolved ty) (T ty)) sf sto ts (next_version (deltas Hour)) (vs, deltas, dir) = (vs', deltas', dir')"
  shows "write_result p gen resolved deltas dir deltas' dir'"
proof -
  have a: "tables_agree p (merge_type (batch_tables p resolved ty) (T ty))" for ty by (intro merge_type_agree batch_agree one T)
  have m: "rows_by_id (fst (merge_type (batch_tables p resolved ty) (T ty))) = overlay (rows_by_id (map (proj_row p) (resolved ty))) (rows_by_id (tier_rows deltas dir ty Hour))"
    "prevs (fst (merge_type (batch_tables p resolved ty) (T ty))) = overlay (prevs (tier_rows deltas dir ty Hour)) (prevs (resolved ty))"
    "ids_of (tier_rows deltas dir ty Hour) \<subseteq> ids_of (fst (merge_type (batch_tables p resolved ty) (T ty)))" for ty
    using rows_merge_type [of p "batch_tables p resolved ty" "T ty"] batch_agree [of resolved ty p, OF one] T(1) [of ty] unfolding T(2) rows_batch prevs_batch by simp_all
  have fresh0: "\<forall>m. deltas Hour = Some m \<longrightarrow> tm_version m \<noteq> next_version (deltas Hour)" by (simp add: next_version_def)
  note w = put_tier_ok [OF ok fresh0 a put]
  have "rows_by_id (tier_rows deltas' dir' ty Hour) = overlay (rows_by_id (map (proj_row p) (resolved ty))) (rows_by_id (tier_rows deltas dir ty Hour)) \<and>
      prevs (tier_rows deltas' dir' ty Hour) = overlay (prevs (tier_rows deltas dir ty Hour)) (prevs (resolved ty))" for ty
    using put_merged_rows [OF w(5) m(3)] m(1,2) by simp
  then have "tier_state deltas' dir' ty = overlay (rows_by_id (map (proj_row p) (resolved ty))) (tier_state deltas dir ty) \<and>
      first_prev deltas' dir' ty = overlay (first_prev deltas dir ty) (prevs (resolved ty)) \<and>
      stored deltas' dir' ty \<subseteq> stored deltas dir ty \<union> ran (rows_by_id (map (proj_row p) (resolved ty)))" for ty
    using w(4) [of Day] w(4) [of Week] by (auto simp: tier_state_tiers first_prev_def stored_def dest: ran_overlay)
  then show ?thesis using w(1,3) by (auto simp: write_result_def new_dirs_def)
qed

text \<open>The fold of the hour tier into the day tier.\<close>

lemma write_fold:
  assumes ok: "deltas_ok p gen deltas dir" and one: "\<And>ty. one_per_id (resolved ty)"
    and H: "\<And>ty. tables_agree p (H ty)" "\<And>ty. fst (H ty) = tier_rows deltas dir ty Hour"
    and D: "\<And>ty t. D ty = Some t \<Longrightarrow> tables_agree p t" "\<And>ty. opt_rows (D ty) = tier_rows deltas dir ty Day"
    and put1: "put_tier gen Day (\<lambda>ty. merge_type (H ty) (D ty)) sf1 st1 ts1 (next_version (deltas Day)) (vs, deltas, dir) = (vs1, deltas1, dir1)"
    and put2: "put_tier gen Hour (batch_tables p resolved) sf2 st2 ts2 (next_version (deltas Hour)) (vs1, deltas1, dir1) = (vs2, deltas2, dir2)"
  shows "write_result p gen resolved deltas dir deltas2 dir2"
proof -
  have a: "tables_agree p (merge_type (H ty) (D ty))" for ty by (intro merge_type_agree H D)
  have m: "rows_by_id (fst (merge_type (H ty) (D ty))) = overlay (rows_by_id (tier_rows deltas dir ty Hour)) (rows_by_id (tier_rows deltas dir ty Day))"
    "prevs (fst (merge_type (H ty) (D ty))) = overlay (prevs (tier_rows deltas dir ty Day)) (prevs (tier_rows deltas dir ty Hour))"
    "ids_of (tier_rows deltas dir ty Day) \<subseteq> ids_of (fst (merge_type (H ty) (D ty)))" for ty
    using rows_merge_type [OF H(1) [of ty], of "D ty"] D(1) [of ty] unfolding D(2) H(2) by simp_all
  have fresh0: "\<forall>m. deltas Day = Some m \<longrightarrow> tm_version m \<noteq> next_version (deltas Day)" by (simp add: next_version_def)
  note w1 = put_tier_ok [OF ok fresh0 a put1]
  have hour: "deltas1 Hour = deltas Hour" using w1(2) by simp
  have fresh: "\<forall>m. deltas1 Hour = Some m \<longrightarrow> tm_version m \<noteq> next_version (deltas Hour)" by (simp add: hour next_version_def)
  note w2 = put_tier_ok [OF w1(1) fresh batch_agree [OF one] put2]
  have day: "rows_by_id (tier_rows deltas1 dir1 ty Day) = overlay (rows_by_id (tier_rows deltas dir ty Hour)) (rows_by_id (tier_rows deltas dir ty Day))"
    "prevs (tier_rows deltas1 dir1 ty Day) = overlay (prevs (tier_rows deltas dir ty Day)) (prevs (tier_rows deltas dir ty Hour))" for ty
    using put_merged_rows [OF w1(5) m(3)] m(1,2) by simp_all
  have "tier_state deltas2 dir2 ty = overlay (rows_by_id (map (proj_row p) (resolved ty))) (tier_state deltas dir ty) \<and>
      first_prev deltas2 dir2 ty = overlay (first_prev deltas dir ty) (prevs (resolved ty)) \<and>
      stored deltas2 dir2 ty \<subseteq> stored deltas dir ty \<union> ran (rows_by_id (map (proj_row p) (resolved ty)))" for ty
    using put_batch_rows [OF w2(5)] w1(4) [of Week] w1(4) [of Hour] w2(4) [of Day] w2(4) [of Week] day
    by (auto simp: tier_state_tiers first_prev_def rows_by_id_Nil prevs_Nil stored_def dest: ran_overlay)
  moreover have "dir2 q = dir q" if "take 4 q \<notin> new_dirs gen deltas" for q
    using w1(3) [of q] w2(3) [of q] that by (auto simp: new_dirs_def)
  ultimately show ?thesis using w2(1) by (simp add: write_result_def)
qed

text \<open>The fold of both into the week tier.\<close>

lemma write_fold_week:
  assumes ok: "deltas_ok p gen deltas dir" and one: "\<And>ty. one_per_id (resolved ty)"
    and H: "\<And>ty. tables_agree p (H ty)" "\<And>ty. fst (H ty) = tier_rows deltas dir ty Hour"
    and D: "\<And>ty t. D ty = Some t \<Longrightarrow> tables_agree p t" "\<And>ty. opt_rows (D ty) = tier_rows deltas dir ty Day"
    and W: "\<And>ty t. W ty = Some t \<Longrightarrow> tables_agree p t" "\<And>ty. opt_rows (W ty) = tier_rows deltas dir ty Week"
    and put0: "put_tier gen Week (\<lambda>ty. merge_type (merge_type (H ty) (D ty)) (W ty)) sf0 st0 ts0 (next_version (deltas Week)) (vs, deltas, dir) = (vs0, deltas0, dir0)"
    and put1: "put_tier gen Day (batch_tables p resolved) sf1 st1 ts1 (next_version (deltas Day)) (vs0, deltas0, dir0) = (vs1, deltas1, dir1)"
    and put2: "put_tier gen Hour (batch_tables p resolved) sf2 st2 ts2 (next_version (deltas Hour)) (vs1, deltas1, dir1) = (vs2, deltas2, dir2)"
  shows "write_result p gen resolved deltas dir deltas2 dir2"
proof -
  let ?r = "\<lambda>ty tr. rows_by_id (tier_rows deltas dir ty tr)" and ?p = "\<lambda>ty tr. prevs (tier_rows deltas dir ty tr)"
  have hd: "tables_agree p (merge_type (H ty) (D ty))" for ty by (intro merge_type_agree H D)
  have a: "tables_agree p (merge_type (merge_type (H ty) (D ty)) (W ty))" for ty by (intro merge_type_agree hd W)
  have m1: "rows_by_id (fst (merge_type (H ty) (D ty))) = overlay (rows_by_id (tier_rows deltas dir ty Hour)) (rows_by_id (tier_rows deltas dir ty Day))"
    "prevs (fst (merge_type (H ty) (D ty))) = overlay (prevs (tier_rows deltas dir ty Day)) (prevs (tier_rows deltas dir ty Hour))"
    "ids_of (tier_rows deltas dir ty Day) \<subseteq> ids_of (fst (merge_type (H ty) (D ty)))" for ty
    using rows_merge_type [OF H(1) [of ty], of "D ty"] D(1) [of ty] unfolding D(2) H(2) by simp_all
  have m: "rows_by_id (fst (merge_type (merge_type (H ty) (D ty)) (W ty))) = overlay (?r ty Hour) (overlay (?r ty Day) (?r ty Week))"
    "prevs (fst (merge_type (merge_type (H ty) (D ty)) (W ty))) = overlay (?p ty Week) (overlay (?p ty Day) (?p ty Hour))"
    "ids_of (tier_rows deltas dir ty Week) \<subseteq> ids_of (fst (merge_type (merge_type (H ty) (D ty)) (W ty)))" for ty
    using rows_merge_type [OF hd [of ty], of "W ty"] W(1) [of ty] unfolding W(2) m1 by simp_all
  have fresh0: "\<forall>m. deltas Week = Some m \<longrightarrow> tm_version m \<noteq> next_version (deltas Week)" by (simp add: next_version_def)
  note w0 = put_tier_ok [OF ok fresh0 a put0]
  have fresh1: "\<forall>m. deltas0 Day = Some m \<longrightarrow> tm_version m \<noteq> next_version (deltas Day)" using w0(2) [of Day] by (simp add: next_version_def)
  note w1 = put_tier_ok [OF w0(1) fresh1 batch_agree [OF one] put1]
  have fresh2: "\<forall>m. deltas1 Hour = Some m \<longrightarrow> tm_version m \<noteq> next_version (deltas Hour)"
    using w0(2) [of Hour] w1(2) [of Hour] by (simp add: next_version_def)
  note w2 = put_tier_ok [OF w1(1) fresh2 batch_agree [OF one] put2]
  have week: "rows_by_id (tier_rows deltas0 dir0 ty Week) = overlay (?r ty Hour) (overlay (?r ty Day) (?r ty Week))"
    "prevs (tier_rows deltas0 dir0 ty Week) = overlay (?p ty Week) (overlay (?p ty Day) (?p ty Hour))" for ty
    using put_merged_rows [OF w0(5) m(3)] m(1,2) by simp_all
  have other: "tier_rows deltas2 dir2 ty Week = tier_rows deltas0 dir0 ty Week" "tier_rows deltas2 dir2 ty Day = tier_rows deltas1 dir1 ty Day"
    "tier_rows deltas1 dir1 ty Hour = tier_rows deltas dir ty Hour" "tier_rows deltas0 dir0 ty Day = tier_rows deltas dir ty Day" for ty
    using w0(4) w1(4) w2(4) by simp_all
  have "tier_state deltas2 dir2 ty = overlay (rows_by_id (map (proj_row p) (resolved ty))) (tier_state deltas dir ty) \<and>
      first_prev deltas2 dir2 ty = overlay (first_prev deltas dir ty) (prevs (resolved ty)) \<and>
      stored deltas2 dir2 ty \<subseteq> stored deltas dir ty \<union> ran (rows_by_id (map (proj_row p) (resolved ty)))" for ty
  proof (cases "\<forall>ty. resolved ty = []")
    case True
    then have "tier_rows deltas2 dir2 ty Hour = tier_rows deltas1 dir1 ty Hour" "tier_rows deltas1 dir1 ty Day = tier_rows deltas0 dir0 ty Day"
      using put_batch_rows [OF w1(5)] put_batch_rows [OF w2(5)] by blast+
    then show ?thesis using True by (auto simp: tier_state_tiers first_prev_def other week rows_by_id_Nil prevs_Nil overlay_absorb stored_def dest!: ran_overlay)
  next
    case False
    then have "rows_by_id (tier_rows deltas1 dir1 ty Day) = rows_by_id (map (proj_row p) (resolved ty)) \<and> prevs (tier_rows deltas1 dir1 ty Day) = prevs (resolved ty)"
      "rows_by_id (tier_rows deltas2 dir2 ty Hour) = rows_by_id (map (proj_row p) (resolved ty)) \<and> prevs (tier_rows deltas2 dir2 ty Hour) = prevs (resolved ty)"
      using put_batch_rows [OF w1(5)] put_batch_rows [OF w2(5)] by blast+
    then show ?thesis by (auto simp: tier_state_tiers first_prev_def other week stored_def dest!: ran_overlay)
  qed
  moreover have "dir2 q = dir q" if "take 4 q \<notin> new_dirs gen deltas" for q
    using w0(3) [of q] w1(3) [of q] w2(3) [of q] that by (auto simp: new_dirs_def)
  ultimately show ?thesis using w2(1) by (simp add: write_result_def)
qed

lemma write_tiers_ok:
  assumes ok: "deltas_ok p gen deltas dir" and one: "\<And>ty. one_per_id (resolved ty)"
  obtains vs deltas' dir' where "write_tiers u gen p deltas resolved first_seq last_seq ts dir = Inr (vs, deltas', dir')"
    "write_result p gen resolved deltas dir deltas' dir'"
proof -
  obtain hc dc where c: "tier_crossings u deltas ts = (hc, dc)" by fastforce
  obtain H where H: "load_old dir (deltas Hour) = Inr H" "\<And>ty t. H ty = Some t \<Longrightarrow> tables_agree p t"
    "\<And>ty. opt_rows (H ty) = tier_rows deltas dir ty Hour" "\<And>ty. deltas Hour \<noteq> None \<Longrightarrow> H ty \<noteq> None" by (rule load_old_ok [OF ok, of Hour]) blast
  show ?thesis
  proof (cases hc)
    case False
    obtain vs' deltas' dir' where put: "put_tier gen Hour (\<lambda>ty. merge_type (batch_tables p resolved ty) (H ty))
        (case deltas Hour of None \<Rightarrow> first_seq | Some m \<Rightarrow> tm_seq_from m) last_seq ts (next_version (deltas Hour)) (Map.empty, deltas, dir) = (vs', deltas', dir')"
      by (rule prod_cases3)
    have "write_tiers u gen p deltas resolved first_seq last_seq ts dir = Inr (vs', deltas', dir')"
      using put by (simp add: write_tiers_def c False H(1) rbind_def Let_def)
    moreover have "write_result p gen resolved deltas dir deltas' dir'" by (rule write_hour [OF ok one _ H(3) put]) (rule H(2))
    ultimately show ?thesis by (rule that)
  next
    case True
    then have "deltas Hour \<noteq> None" using c by (cases "deltas Hour") (auto simp: tier_crossings_def Let_def crossed_def)
    then have hs: "H ty = Some (the (H ty))" for ty using H(4) by auto
    have ha: "tables_agree p (the (H ty))" for ty by (rule H(2) [OF hs])
    have hr: "fst (the (H ty)) = tier_rows deltas dir ty Hour" for ty
      using H(3) [of ty] hs [of ty] by (cases "the (H ty)") (simp add: opt_rows_def)
    obtain D where D: "load_old dir (deltas Day) = Inr D" "\<And>ty t. D ty = Some t \<Longrightarrow> tables_agree p t"
      "\<And>ty. opt_rows (D ty) = tier_rows deltas dir ty Day" by (rule load_old_ok [OF ok, of Day]) blast
    let ?hm = "the (deltas Hour)"
    let ?sf = "min_seq_from (deltas Day) (tm_seq_from ?hm)" and ?st = "tm_seq_to ?hm" and ?ts = "tm_timestamp ?hm" and ?md = "\<lambda>ty. merge_type (the (H ty)) (D ty)"
    show ?thesis
    proof (cases dc)
      case False
      obtain vs1 deltas1 dir1 where put1: "put_tier gen Day ?md ?sf ?st ?ts (next_version (deltas Day)) (Map.empty, deltas, dir) = (vs1, deltas1, dir1)"
        by (rule prod_cases3)
      obtain vs2 deltas2 dir2 where put2: "put_tier gen Hour (batch_tables p resolved) first_seq last_seq ts (next_version (deltas Hour)) (vs1, deltas1, dir1) = (vs2, deltas2, dir2)"
        by (rule prod_cases3)
      have "write_tiers u gen p deltas resolved first_seq last_seq ts dir = Inr (vs2, deltas2, dir2)"
        using put1 put2 \<open>hc\<close> False by (simp add: write_tiers_def c H(1) D(1) rbind_def Let_def)
      moreover have "write_result p gen resolved deltas dir deltas2 dir2" by (rule write_fold [OF ok one ha hr _ D(3) put1 put2]) (rule D(2))
      ultimately show ?thesis by (rule that)
    next
      case True
      obtain W where W: "load_old dir (deltas Week) = Inr W" "\<And>ty t. W ty = Some t \<Longrightarrow> tables_agree p t"
        "\<And>ty. opt_rows (W ty) = tier_rows deltas dir ty Week" by (rule load_old_ok [OF ok, of Week]) blast
      obtain vs0 deltas0 dir0 where put0: "put_tier gen Week (\<lambda>ty. merge_type (?md ty) (W ty)) (min_seq_from (deltas Week) ?sf) ?st ?ts (next_version (deltas Week)) (Map.empty, deltas, dir) = (vs0, deltas0, dir0)"
        by (rule prod_cases3)
      obtain vs1 deltas1 dir1 where put1: "put_tier gen Day (batch_tables p resolved) first_seq last_seq ts (next_version (deltas Day)) (vs0, deltas0, dir0) = (vs1, deltas1, dir1)"
        by (rule prod_cases3)
      obtain vs2 deltas2 dir2 where put2: "put_tier gen Hour (batch_tables p resolved) first_seq last_seq ts (next_version (deltas Hour)) (vs1, deltas1, dir1) = (vs2, deltas2, dir2)"
        by (rule prod_cases3)
      have "write_tiers u gen p deltas resolved first_seq last_seq ts dir = Inr (vs2, deltas2, dir2)"
        using put0 put1 put2 \<open>hc\<close> True by (simp add: write_tiers_def c H(1) D(1) W(1) rbind_def Let_def)
      moreover have "write_result p gen resolved deltas dir deltas2 dir2"
        by (rule write_fold_week [OF ok one ha hr _ D(3) _ W(3) put0 put1 put2]) (rule D(2), assumption, rule W(2))
      ultimately show ?thesis by (rule that)
    qed
  qed
qed

text \<open>The files of the old manifest are not among those that a write may create.\<close>

definition delta_files :: "deltas \<Rightarrow> delta_path set" where
  "delta_files deltas = {q. \<exists>tr m. deltas tr = Some m \<and> ((\<exists>ty. q = tm_byid m ty \<or> q = tm_spatial m ty) \<or> q = tm_tombstones m)}"

lemma delta_files_old:
  assumes "deltas_ok p gen deltas dir" and "q \<in> delta_files deltas"
  shows "take 4 q \<notin> new_dirs gen deltas"
proof -
  obtain tr m where m: "deltas tr = Some m" "(\<exists>ty. q = tm_byid m ty \<or> q = tm_spatial m ty) \<or> q = tm_tombstones m" using assms(2) by (auto simp: delta_files_def)
  then have "take 4 q = out_dir gen tr (tm_version m)" using assms(1) by (auto simp: deltas_ok_def tier_ok_def take_path)
  then show ?thesis using m(1) next_version_fresh by (auto simp: new_dirs_def out_dir_inj)
qed

section \<open>The current state\<close>

lemma fetch_current_rows:
  assumes "ids \<noteq> []" and range: "\<And>q b. q \<in> set parts \<Longrightarrow> b \<in> set (read_base (pt_path q)) \<Longrightarrow> \<exists>mn mx. pt_min q = Some mn \<and> pt_max q = Some mx \<and> mn \<le> fst b \<and> fst b \<le> mx"
  shows "b \<in> set (fetch_current parts read_base deltas dir ty ids) \<longleftrightarrow>
    fst b \<in> set ids \<and> (case row_of (raw_view deltas dir ty) (fst b) of
      Some _ \<Rightarrow> \<exists>r\<in>set (raw_view deltas dir ty). \<not> d_deleted r \<and> b = base_columns r
    | None \<Rightarrow> \<exists>q\<in>set parts. b \<in> set (read_base (pt_path q)))"
proof -
  let ?raw = "raw_view deltas dir ty"
  have part: "pt_path q \<in> set (select_parts parts (Min (set ids)) (Max (set ids)))" if qb: "q \<in> set parts" "b \<in> set (read_base (pt_path q))" "fst b \<in> set ids" for q
  proof -
    obtain mn mx where r: "pt_min q = Some mn" "pt_max q = Some mx" "mn \<le> fst b" "fst b \<le> mx" using range [OF qb(1,2)] by blast
    have "Min (set ids) \<le> fst b" "fst b \<le> Max (set ids)" using qb(3) by simp_all
    then show ?thesis using r qb(1) by (force simp: select_parts_def)
  qed
  have sub: "\<exists>q\<in>set parts. x = pt_path q" if "x \<in> set (select_parts parts lo hi)" for x lo hi using that by (auto simp: select_parts_def)
  have base: "(\<exists>x\<in>set (select_parts parts (Min (set ids)) (Max (set ids))). b \<in> set (read_base x)) \<longleftrightarrow> (\<exists>q\<in>set parts. b \<in> set (read_base (pt_path q)))"
    if "fst b \<in> set ids"
  proof
    assume "\<exists>x\<in>set (select_parts parts (Min (set ids)) (Max (set ids))). b \<in> set (read_base x)"
    then obtain x where "x \<in> set (select_parts parts (Min (set ids)) (Max (set ids)))" "b \<in> set (read_base x)" by blast
    then show "\<exists>q\<in>set parts. b \<in> set (read_base (pt_path q))" using sub by blast
  qed (use part that in blast)
  have alive: "(\<exists>r\<in>set ?raw. \<not> d_deleted r \<and> d_id r \<in> set ids \<and> b = base_columns r) \<longleftrightarrow>
      fst b \<in> set ids \<and> row_of ?raw (fst b) \<noteq> None \<and> (\<exists>r\<in>set ?raw. \<not> d_deleted r \<and> b = base_columns r)"
    by (auto simp: base_columns_def row_of_None ids_of_def)
  have "b \<in> set (fetch_current parts read_base deltas dir ty ids) \<longleftrightarrow>
      (\<exists>r\<in>set ?raw. \<not> d_deleted r \<and> d_id r \<in> set ids \<and> b = base_columns r) \<or>
      fst b \<in> set ids \<and> fst b \<notin> ids_of ?raw \<and> (\<exists>q\<in>set parts. b \<in> set (read_base (pt_path q)))"
    using assms(1) base by (auto simp: fetch_current_def alive_view_def)
  then show ?thesis unfolding alive by (auto simp: row_of_None [symmetric] split: option.splits)
qed

end
