(* ===== verification/Update_Properties.thy ===== *)
theory Update_Properties
  imports Update_Server Replication Osc Tiers_Correct
begin

text \<open>
  The properties of the updater's parts: the rolling tiers, one run at a time, the replication
  client and the parser of change files.
\<close>

text \<open>
  C13. Writing a batch to the rolling tiers refines one store of rows by id: with tiers in order
  and one row per id in the batch, the write succeeds, and for every type the rows that the tiers
  then stand for (hour before day before week) are those of the batch over those of before, apart
  from \<open>prev_cell\<close>, whether or not an hour or a day has been crossed and even if the batch is empty.
  The tiers are in order again: by-id and spatial tables agree, and counts, cells and tombstones are
  those of the tables. No file that the old manifest refers to is changed.
\<close>

theorem write_tiers_refines_overlay:
  assumes "deltas_ok p gen deltas dir" and "\<forall>ty. one_per_id (resolved ty)"
  shows "\<exists>vs deltas' dir'. write_tiers u gen p deltas resolved first_seq last_seq ts dir = Inr (vs, deltas', dir') \<and>
    deltas_ok p gen deltas' dir' \<and> (\<forall>q\<in>delta_files deltas. dir' q = dir q) \<and>
    (\<forall>ty. tier_state deltas' dir' ty = overlay (rows_by_id (map (proj_row p) (resolved ty))) (tier_state deltas dir ty))"
proof -
  have one: "one_per_id (resolved ty)" for ty using assms(2) by blast
  obtain vs deltas' dir' where w: "write_tiers u gen p deltas resolved first_seq last_seq ts dir = Inr (vs, deltas', dir')"
    "write_result p gen resolved deltas dir deltas' dir'"
    by (rule write_tiers_ok [OF assms(1) one])
  then show ?thesis using delta_files_old [OF assms(1)] unfolding write_result_def by blast
qed

text \<open>A first batch with one moved node.\<close>

theorem write_tiers_refines_overlay_witness:
  "\<exists>vs deltas' dir'. write_tiers ascii_db (lit ''g1'') (\<lambda>x. x) (\<lambda>_. None)
      (\<lambda>ty. if ty = DNode then [\<lparr>d_id = 7, d_cell = Some ''0'', d_hilbert = None, d_cols = (), d_deleted = False, d_prev_cell = Some ''1'', d_seq = 5\<rparr>] else [])
      5 5 (Some (lit ''2024-06-01T10:00:00Z'')) Map.empty = Inr (vs, deltas', dir') \<and>
    tier_state deltas' dir' DNode 7 = Some \<lparr>d_id = 7, d_cell = Some ''0'', d_hilbert = None, d_cols = (), d_deleted = False, d_prev_cell = None, d_seq = 5\<rparr>"
    (is "\<exists>vs deltas' dir'. write_tiers _ _ _ ?D ?r 5 5 ?ts ?dir = _ \<and> _")
proof -
  have ok: "deltas_ok (\<lambda>x. x) (lit ''g1'') ?D ?dir" by (simp add: deltas_ok_def)
  have one: "\<forall>ty. one_per_id (?r ty)" by simp
  obtain vs deltas' dir' where w: "write_tiers ascii_db (lit ''g1'') (\<lambda>x. x) ?D ?r 5 5 ?ts ?dir = Inr (vs, deltas', dir')"
    and s: "tier_state deltas' dir' DNode = overlay (rows_by_id (map (proj_row (\<lambda>x. x)) (?r DNode))) (tier_state ?D ?dir DNode)"
    using write_tiers_refines_overlay [OF ok one, of ascii_db 5 5 ?ts] by blast
  have "tier_state deltas' dir' DNode 7 = Some \<lparr>d_id = 7, d_cell = Some ''0'', d_hilbert = None, d_cols = (), d_deleted = False, d_prev_cell = None, d_seq = 5\<rparr>"
    by (simp add: s overlay_def rows_by_id_def proj_row_def content_def)
  then show ?thesis using w by blast
qed

text \<open>
  C35. However requests to the update endpoint interleave, at most one run is in progress, and the
  \<open>_running\<close> flag is set exactly while one is; and a run that has started can go on to its answer,
  after which the flag is clear, whether the update succeeded or raised.
\<close>

theorem updater_exclusive:
  assumes "(update_step u env run_once)\<^sup>*\<^sup>* (init_updater n) st"
  shows "(\<forall>r r'. running_phase (u_req st r) \<and> running_phase (u_req st r') \<longrightarrow> r = r') \<and>
    (u_running st \<longleftrightarrow> (\<exists>r. running_phase (u_req st r))) \<and>
    (\<forall>r. running_phase (u_req st r) \<longrightarrow>
      (\<exists>st' code. (update_step u env run_once)\<^sup>*\<^sup>* st st' \<and> u_req st' r = RReplied code \<and> \<not> u_running st'))"
proof -
  note inv = updater_inv_reach [OF assms]
  then show ?thesis using run_can_end [OF inv] unfolding updater_inv_def by blast
qed

theorem updater_exclusive_witness:
  "\<exists>st. (update_step ascii_db [] (\<lambda>_. Inr ()))\<^sup>*\<^sup>* (init_updater 2) st \<and> u_req st 0 = RRunning \<and> u_req st 1 = RReplied 409 \<and>
     (\<forall>r. running_phase (u_req st r) \<longrightarrow> r = 0)"
proof -
  let ?i = "init_updater 2 :: unit updater" and ?s = "update_step ascii_db [] (\<lambda>_. Inr ())"
  let ?a = "?i\<lparr>u_running := True, u_req := (u_req ?i)(0 := RRunning)\<rparr>"
  let ?b = "?a\<lparr>u_req := (u_req ?a)(1 := RReplied 409)\<rparr>"
  have "?s ?i ?a" by (rule update_step.start) (simp_all add: init_updater_def)
  moreover have "?s ?a ?b" by (rule update_step.busy) (simp_all add: init_updater_def)
  ultimately have reach: "?s\<^sup>*\<^sup>* ?i ?b" by (meson converse_rtranclp_into_rtranclp rtranclp.rtrancl_refl)
  have "running_phase (u_req ?b 0)" by simp
  then have "\<forall>r. running_phase (u_req ?b r) \<longrightarrow> r = 0" using updater_exclusive [OF reach] by blast
  then show ?thesis using reach by (intro exI [of _ ?b]) simp
qed

text \<open>
  C36. When \<open>fetch_range\<close> returns, it gives consecutive sequences from \<open>from_seq\<close>, at most
  \<open>max_diffs\<close> of them and none past the latest sequence of the source. For each the change file
  and a readable state file with that timestamp are in the directory at the end. It gives fewer
  than allowed only because the server answered 404 to the request for the state file or the change file of the next sequence, the last request made.
\<close>

theorem fetch_range_consecutive:
  assumes "fetch_range u rc get from_seq max_diffs dir net = (Inr rs, dir', net')"
  shows "\<exists>latest net1. latest_sequence u rc get net = (Inr latest, net1) \<and>
    length rs \<le> nat max_diffs \<and> map fr_seq rs = map (\<lambda>i. from_seq + int i) [0..<length rs] \<and>
    (\<forall>r\<in>set rs. fr_seq r \<le> latest \<and> downloaded u dir' r) \<and>
    (length rs < nat max_diffs \<and> from_seq + int (length rs) \<le> latest \<longrightarrow>
      (\<exists>frag ext net2 body. sequence_path (from_seq + int (length rs)) = Inr frag \<and> ext \<in> {''.state.txt'', ''.osc.gz''} \<and>
        get net2 (rc_source rc @ [47] @ frag @ lit ext) = (Reply 404 body, net')))"
proof -
  obtain latest net1 where l: "latest_sequence u rc get net = (Inr latest, net1)"
    and f: "fetch_loop u rc get (nat max_diffs) from_seq latest dir net1 = (Inr rs, dir', net')"
    using assms by (auto simp: fetch_range_def split: prod.splits sum.splits)
  note s = fetch_loop_spec [OF f]
  have seqs: "map fr_seq rs = map (\<lambda>i. from_seq + int i) [0..<length rs]" using s by blast
  have "fr_seq r \<le> latest" if "r \<in> set rs" for r
  proof -
    have "fr_seq r \<in> set (map fr_seq rs)" using that by simp
    then obtain i where "i < length rs" "fr_seq r = from_seq + int i" unfolding seqs by auto
    moreover have "rs \<noteq> []" using that by auto
    ultimately show ?thesis using s by linarith
  qed
  moreover have "\<exists>frag ext net2 body. sequence_path (from_seq + int (length rs)) = Inr frag \<and> ext \<in> {''.state.txt'', ''.osc.gz''} \<and>
      get net2 (rc_source rc @ [47] @ frag @ lit ext) = (Reply 404 body, net')"
    if stop: "length rs < nat max_diffs" "from_seq + int (length rs) \<le> latest"
  proof -
    obtain dir1 net2 where "fetch u rc get (from_seq + int (length rs)) dir1 net2 = (Inr None, dir', net')" using fetch_loop_stop [OF f stop] by (elim exE)
    then show ?thesis by (rule fetch_None)
  qed
  ultimately show ?thesis using l s by (intro exI [of _ latest] exI [of _ net1] conjI impI ballI) simp_all
qed

text \<open>A source at sequence 6 that serves every file: sequences 5 and 6 are fetched.\<close>

theorem fetch_range_consecutive_witness:
  "\<exists>rs dir'. fetch_range ascii_db (ReplicationClient (lit ''http://r/'') 1) (\<lambda>_ _. (Reply 200 (state_text [] 6 (lit ''t'')), ())) 5 3 [] () =
     (Inr rs, dir', ()) \<and> map fr_seq rs = [5, 6] \<and> (\<forall>r\<in>set rs. downloaded ascii_db dir' r)"
proof -
  have p: "parse_state_text ascii_db (state_text [] 6 (lit ''t'')) = Inr (6, Some (lit ''t''))"
    by (rule parse_state_print) (simp_all add: one_line_def lit_def line_break_def isspace_def)
  let ?get = "\<lambda>(_ :: unit) (_ :: pystr). (Reply 200 (state_text [] 6 (lit ''t'')), ())" and ?rc = "ReplicationClient (lit ''http://r/'') 1"
  let ?fr = "\<lambda>seq. \<lparr>fr_seq = seq, fr_osc_path = osc_name seq, fr_state_path = state_name seq, fr_timestamp = Some (lit ''t'')\<rparr>"
  have n: "nat 1 = Suc 0" "nat 3 = Suc (Suc (Suc 0))" by simp_all
  have g: "client_get ?rc ?get url () = (Inr (Some (state_text [] 6 (lit ''t''))), ())" for url
    by (simp add: client_get_def ReplicationClient_def n)
  have one: "\<exists>dir'. fetch ascii_db ?rc ?get seq dir () = (Inr (Some (?fr seq)), dir', ()) \<and>
      (\<forall>s. s \<noteq> seq \<longrightarrow> map_of dir' (state_name s) = map_of dir (state_name s) \<and> map_of dir' (osc_name s) = map_of dir (osc_name s))"
    if "0 \<le> seq" "map_of dir (state_name seq) = None" "map_of dir (osc_name seq) = None" for seq dir
    using that by (simp add: fetch_def cached_state_def fetch_osc_def sequence_path_form g p update_conv' delete_conv' Let_def)
  obtain d5 where d5: "fetch ascii_db ?rc ?get 5 [] () = (Inr (Some (?fr 5)), d5, ())"
      "map_of d5 (state_name 6) = None" "map_of d5 (osc_name 6) = None" using one [of 5 "[]"] by auto
  obtain d6 where d6: "fetch ascii_db ?rc ?get 6 d5 () = (Inr (Some (?fr 6)), d6, ())" using one [of 6 d5] d5 by auto
  have f: "fetch_range ascii_db ?rc ?get 5 3 [] () = (Inr [?fr 5, ?fr 6], d6, ())"
    by (simp add: fetch_range_def latest_sequence_def g p rbind_def n d5 d6 del: nat_numeral)
  then show ?thesis using fetch_range_consecutive [OF f] by (intro exI [of _ "[?fr 5, ?fr 6]"] exI [of _ d6]) auto
qed

text \<open>
  C37. A state file as the replication server writes it, with comments, the sequence number and a
  timestamp whose colons and backslashes are escaped, is read back to that number and timestamp.
  And the path of a sequence number determines the number.
\<close>

theorem replication_state_roundtrip:
  assumes "list_all one_line comments" and "one_line ts" and "ts = [] \<or> \<not> isspace u (last ts)"
  shows "parse_state_text u (state_text comments n ts) = Inr (n, Some ts) \<and>
    (0 \<le> n \<longrightarrow> (\<exists>p. sequence_path n = Inr p \<and> (\<forall>m. sequence_path m = Inr p \<longrightarrow> m = n)))"
  using parse_state_print [OF assms] sequence_path_form [of n] sequence_path_inj [of _ _ n] by blast

theorem replication_state_roundtrip_witness:
  "parse_state_text ascii_db (state_text [lit ''Sat''] 6131 (lit ''2024-06-01T10:05:00Z'')) = Inr (6131, Some (lit ''2024-06-01T10:05:00Z''))"
proof -
  have a: "list_all one_line [lit ''Sat'']" "one_line (lit ''2024-06-01T10:05:00Z'')"
      "lit ''2024-06-01T10:05:00Z'' = [] \<or> \<not> isspace ascii_db (last (lit ''2024-06-01T10:05:00Z''))"
    by (simp_all add: one_line_def lit_def line_break_def isspace_def)
  show ?thesis using replication_state_roundtrip [OF a] by (rule conjunct1)
qed

text \<open>
  C38. A parsed batch: with \<open>fs\<close> the objects the reader gives for the files, each table has
  exactly the last row of each id over the whole batch, once, in ascending order of id; each
  \<open>_all\<close> table has all rows, in order of id and version, rows of the same version in the order
  read; and the first and last sequences are the least and greatest.
\<close>

theorem parse_batch_last_wins:
  assumes "parse_batch reader seq_files = Inr b"
  shows "\<exists>fs. list_all2 (\<lambda>(s, p) (s', objs). s' = s \<and> reader p = Inr objs) seq_files fs \<and>
    (let ns = concat (map node_rows fs); ws = concat (map way_rows fs); rs = concat (map relation_rows fs)
     in set (br_node b) = {r. last_row ns (r_id r) = Some r} \<and> sorted (map r_id (br_node b)) \<and> distinct (map r_id (br_node b)) \<and>
        set (br_way b) = {r. last_row ws (r_id r) = Some r} \<and> sorted (map r_id (br_way b)) \<and> distinct (map r_id (br_way b)) \<and>
        set (br_relation b) = {r. last_row rs (r_id r) = Some r} \<and> sorted (map r_id (br_relation b)) \<and> distinct (map r_id (br_relation b)) \<and>
        version_ordered ns (br_node_all b) \<and> version_ordered ws (br_way_all b) \<and> version_ordered rs (br_relation_all b)) \<and>
    br_first_seq b = (if fs = [] then None else Some (Min (fst ` set fs))) \<and>
    br_last_seq b = (if fs = [] then None else Some (Max (fst ` set fs))) \<and> br_n_files b = length seq_files"
proof -
  obtain st where st: "batch_files reader seq_files init_batch = Inr st"
    and b: "br_node b = by_id (s_nodes st)" "br_way b = by_id (s_ways st)" "br_relation b = by_id (s_relations st)"
      "br_node_all b = by_id_version (s_nodes_all st)" "br_way_all b = by_id_version (s_ways_all st)"
      "br_relation_all b = by_id_version (s_relations_all st)" "br_first_seq b = s_first_seq st" "br_last_seq b = s_last_seq st"
      "br_n_files b = length seq_files"
    using parse_batch_state [OF assms] by blast
  obtain fs where fs: "list_all2 (\<lambda>(s, p) (s', objs). s' = s \<and> reader p = Inr objs) seq_files fs" "seen_rows fs st"
    using batch_files_rows [OF st seen_rows_init] by auto
  then have "s_nodes st = keep_last (s_nodes_all st)" "s_ways st = keep_last (s_ways_all st)" "s_relations st = keep_last (s_relations_all st)"
    "s_nodes_all st = concat (map node_rows fs)" "s_ways_all st = concat (map way_rows fs)" "s_relations_all st = concat (map relation_rows fs)"
    "s_first_seq st = (if fs = [] then None else Some (Min (fst ` set fs)))" "s_last_seq st = (if fs = [] then None else Some (Max (fst ` set fs)))"
    by (simp_all add: seen_rows_def)
  then show ?thesis using fs(1) unfolding b Let_def by (intro exI [of _ fs] conjI) (simp_all only: by_id_keep_last by_id_version_ordered)
qed

text \<open>Two versions of one node in two files: the second stands in the table, both in the full one.\<close>

theorem parse_batch_last_wins_witness:
  "\<exists>b. parse_batch (\<lambda>v. Inr [Osm_node \<lparr>o_id = 7, o_deleted = False, o_version = v, o_timestamp = None, o_changeset = 1, o_uid = None,
       o_user = [], o_tags = None\<rparr> None]) [(10, 1), (11, 2)] = Inr b \<and>
     map r_version (br_node b) = [2] \<and> map r_version (br_node_all b) = [1, 2] \<and> distinct (map r_id (br_node b))"
proof -
  let ?b = "parse_batch (\<lambda>v. Inr [Osm_node \<lparr>o_id = 7, o_deleted = False, o_version = v, o_timestamp = None, o_changeset = 1, o_uid = None,
       o_user = [], o_tags = None\<rparr> None]) [(10, 1), (11, 2)]"
  have "(case ?b of Inr b \<Rightarrow> map r_version (br_node b) = [2] \<and> map r_version (br_node_all b) = [1, 2] | Inl _ \<Rightarrow> False)" by code_simp
  then obtain b where b: "?b = Inr b" and v: "map r_version (br_node b) = [2] \<and> map r_version (br_node_all b) = [1, 2]"
    by (simp only: split: sum.splits)
  have "distinct (map r_id (br_node b))" using parse_batch_last_wins [OF b] by (auto simp: Let_def)
  then show ?thesis using b v by (intro exI [of _ b] conjI) simp_all
qed

end
