(* ===== verification/Tagsql.thy ===== *)
theory Tagsql
  imports Evalsql_Correct Ql_Ast
begin

text \<open>
  \<^verbatim>\<open>src/src/osmpq/engine/tagsql.py\<close> and the text of the user, uid and timestamp filters of
  \<^verbatim>\<open>src/src/osmpq/engine/metafilters.py\<close>: query filters as SQL predicates. A fixed piece of SQL is
  written with \<open>`\<close> for the single and \<open>^\<close> for the double quote.
\<close>

section \<open>Tag filters\<close>

definition is_promotable_ident :: "pystr \<Rightarrow> bool" where
  "is_promotable_ident key \<longleftrightarrow> key \<noteq> [] \<and> list_all (\<lambda>c. 97 \<le> c \<and> c \<le> 122 \<or> 48 \<le> c \<and> c \<le> 57 \<or> c = 95) key"

definition tag_sql_escape :: "pystr \<Rightarrow> pystr" where
  "tag_sql_escape s = concat (map (\<lambda>c. if c = 39 then [39, 39] else [c]) s)"

definition col_ref :: "pystr \<Rightarrow> pystr set \<Rightarrow> pystr \<Rightarrow> pystr \<times> bool" where
  "col_ref key promoted_keys prefix =
     (if key \<in> promoted_keys \<and> is_promotable_ident key then (prefix @ sql ''^'' @ key @ sql ''^'', True)
      else (prefix @ sql ''tags[`'' @ tag_sql_escape key @ sql ''`]'', False))"

definition negative_only_op :: "tag_op \<Rightarrow> bool" where
  "negative_only_op op \<longleftrightarrow> op \<in> {OpNe, OpNotExists}"

definition is_negative_only :: "(pystr \<times> tag_op \<times> pystr option \<times> bool \<times> bool) list \<Rightarrow> bool" where
  "is_negative_only fs = list_all (\<lambda>(key, op, value, key_re, ci). negative_only_op op) fs"

definition value_or_blank :: "pystr option \<Rightarrow> pystr" where
  "value_or_blank v = (case v of Some s \<Rightarrow> s | None \<Rightarrow> [])"

definition regex_flag :: "bool \<Rightarrow> pystr" where
  "regex_flag ci = (if ci then sql '', `i`'' else [])"

text \<open>A filter is its key, operator, value, whether the key is a pattern, and whether case is ignored.\<close>

fun tag_filter_sql :: "pystr \<times> tag_op \<times> pystr option \<times> bool \<times> bool \<Rightarrow> pystr set \<Rightarrow> pystr \<Rightarrow> pystr" where
  "tag_filter_sql (key, op, value, key_is_regex, case_insensitive) promoted_keys prefix =
     (let val = tag_sql_escape (value_or_blank value); flag = regex_flag case_insensitive;
          val_expr = fst (col_ref key promoted_keys prefix)
      in if key_is_regex
         then prefix @ sql ''tags IS NOT NULL AND list_bool_or(list_transform(map_entries('' @ prefix @
              sql ''tags), e -> regexp_matches(e.key, `'' @ tag_sql_escape key @ sql ''`) AND regexp_matches(e.value, `'' @ val @
              sql ''`'' @ flag @ sql '')))''
         else case op of
           OpExists \<Rightarrow> val_expr @ sql '' IS NOT NULL''
         | OpNotExists \<Rightarrow> val_expr @ sql '' IS NULL''
         | OpEq \<Rightarrow> val_expr @ sql '' = `'' @ val @ sql ''`''
         | OpNe \<Rightarrow> sql ''('' @ val_expr @ sql '' IS NULL OR '' @ val_expr @ sql '' != `'' @ val @ sql ''`)''
         | OpRe \<Rightarrow> val_expr @ sql '' IS NOT NULL AND regexp_matches('' @ val_expr @ sql '', `'' @ val @ sql ''`'' @ flag @ sql '')''
         | OpNre \<Rightarrow> sql ''('' @ val_expr @ sql '' IS NULL OR NOT regexp_matches('' @ val_expr @ sql '', `'' @ val @ sql ''`'' @ flag @ sql ''))'')"

fun join_with :: "pystr \<Rightarrow> pystr list \<Rightarrow> pystr" where
  "join_with sep [] = []"
| "join_with sep (x # xs) = (if xs = [] then x else x @ sep @ join_with sep xs)"

definition tag_filters_sql :: "(pystr \<times> tag_op \<times> pystr option \<times> bool \<times> bool) list \<Rightarrow> pystr set \<Rightarrow> pystr \<Rightarrow> pystr" where
  "tag_filters_sql fs promoted_keys prefix =
     (let parts = map (\<lambda>f. tag_filter_sql f promoted_keys prefix) fs
      in if parts = [] then sql ''TRUE'' else join_with (sql '' AND '') (map (\<lambda>p. sql ''('' @ p @ sql '')'') parts))"

section \<open>Metadata filters\<close>

text \<open>\<open>\<^verbatim>\<open>^\d{4}-\d{2}-\d{2}T\d{2}:\d{2}:\d{2}Z$\<close>\<close>: the dollar also matches before a final newline.\<close>

definition timestamp_shape :: "unicode_db \<Rightarrow> pystr \<Rightarrow> bool" where
  "timestamp_shape u s \<longleftrightarrow>
     list_all2 (\<lambda>p c. if p = CHR ''0'' then decimal u c \<noteq> None else c = of_char p) ''0000-00-00T00:00:00Z'' s"

definition check_timestamp :: "unicode_db \<Rightarrow> pystr \<Rightarrow> pystr result" where
  "check_timestamp u s =
     (if timestamp_shape u s \<or> s \<noteq> [] \<and> last s = 10 \<and> timestamp_shape u (butlast s) then Inr s
      else Inl (RuntimeQueryError (lit ''runtime error: date \"'' @ s @ lit ''\" is invalid. It should look like \"2000-01-01T00:00:00Z\".'')))"

definition user_predicate :: "pystr list \<Rightarrow> pystr \<Rightarrow> pystr" where
  "user_predicate names alias = alias @ sql ''.^user^ IN ('' @ join_with (sql '', '') (map sql_str names) @ sql '')''"

definition uid_predicate :: "int list \<Rightarrow> pystr \<Rightarrow> pystr" where
  "uid_predicate uids alias = alias @ sql ''.uid IN ('' @ join_with (sql '', '') (map py_str_int uids) @ sql '')''"

section \<open>Code and literals\<close>

text \<open>The values of the string literals of a text, and the names its filter uses.\<close>

fun literal_value :: "sql_tok \<Rightarrow> pystr list" where
  "literal_value (Literal v) = [v]" | "literal_value t = []"

definition literals :: "pystr \<Rightarrow> pystr list" where
  "literals s = concat (map literal_value (lex_sql None s))"

lemma lex_code: "39 \<notin> set p \<Longrightarrow> lex_sql None (p @ X) = map Code p @ lex_sql None X"
  by (induction p) auto

lemma lex_code_end: "39 \<notin> set p \<Longrightarrow> lex_sql None p = map Code p"
  using lex_code [of p "[]"] by simp

lemma lex_literal:
  assumes "X = [] \<or> hd X \<noteq> 39"
  shows "lex_sql (Some []) (tag_sql_escape v @ 39 # X) = Literal v # lex_sql None X"
proof -
  have "lex_sql (Some []) (tag_sql_escape v @ 39 # X) = lex_sql None (sql_str v @ X)" by (simp add: sql_str_def tag_sql_escape_def)
  also have "\<dots> = Literal v # lex_sql None X"
    using assms lex_sql_join_code [of "sql_str v" X] by (cases "X = []") auto
  finally show ?thesis .
qed

text \<open>The tokens of a column reference, of a filter and of a list of filters.\<close>

definition ref_toks :: "pystr \<Rightarrow> pystr set \<Rightarrow> pystr \<Rightarrow> sql_tok list" where
  "ref_toks key promoted_keys prefix =
     (if key \<in> promoted_keys \<and> is_promotable_ident key then map Code (prefix @ [34] @ key @ [34])
      else map Code (prefix @ lit ''tags['') @ [Literal key, Code 93])"

lemma promotable_chars: "is_promotable_ident key \<Longrightarrow> 39 \<notin> set key"
  by (auto simp: is_promotable_ident_def list_all_iff)

lemma lex_ref: "39 \<notin> set prefix \<Longrightarrow> lex_sql None (fst (col_ref key promoted_keys prefix) @ X) = ref_toks key promoted_keys prefix @ lex_sql None X"
  by (auto simp: col_ref_def ref_toks_def sql_def lit_def lex_code lex_literal dest: promotable_chars)

definition flag_toks :: "bool \<Rightarrow> sql_tok list" where
  "flag_toks ci = (if ci then [Code 44, Code 32, Literal (lit ''i'')] else [])"

lemma lex_flag: "lex_sql None (regex_flag ci @ 41 # X) = flag_toks ci @ Code 41 # lex_sql None X"
  by (simp add: regex_flag_def flag_toks_def sql_def lit_def)

lemma hd_flag: "hd (regex_flag ci @ 41 # X) \<noteq> 39"
  by (simp add: regex_flag_def sql_def)

text \<open>The user's texts in a filter, in the order they stand in its SQL.\<close>

definition ref_texts :: "pystr \<Rightarrow> pystr set \<Rightarrow> pystr list" where
  "ref_texts key promoted_keys = (if key \<in> promoted_keys \<and> is_promotable_ident key then [] else [key])"

fun filter_texts :: "pystr set \<Rightarrow> pystr \<times> tag_op \<times> pystr option \<times> bool \<times> bool \<Rightarrow> pystr list" where
  "filter_texts pk (key, op, value, key_re, ci) =
     (let v = value_or_blank value; k = ref_texts key pk; flag = (if ci then [lit ''i''] else [])
      in if key_re then [key, v] @ flag
         else case op of OpExists \<Rightarrow> k | OpNotExists \<Rightarrow> k | OpEq \<Rightarrow> k @ [v] | OpNe \<Rightarrow> k @ k @ [v]
              | OpRe \<Rightarrow> k @ k @ [v] @ flag | OpNre \<Rightarrow> k @ k @ [v] @ flag)"

text \<open>Two filters of the same shape: they differ in values, and in keys that are not columns.\<close>

fun same_filter_shape :: "pystr set \<Rightarrow> pystr \<times> tag_op \<times> pystr option \<times> bool \<times> bool \<Rightarrow> pystr \<times> tag_op \<times> pystr option \<times> bool \<times> bool \<Rightarrow> bool" where
  "same_filter_shape pk (key, op, value, key_re, ci) (key', op', value', key_re', ci') \<longleftrightarrow>
     op = op' \<and> key_re = key_re' \<and> ci = ci' \<and> (key = key' \<or> key_re \<or> ref_texts key pk \<noteq> [] \<and> ref_texts key' pk \<noteq> [])"

definition tok_literals :: "sql_tok list \<Rightarrow> pystr list" where
  "tok_literals ts = concat (map literal_value ts)"

lemma tok_literals_simps [simp]:
  "tok_literals [] = []" "tok_literals (Code c # ts) = tok_literals ts" "tok_literals (Literal v # ts) = v # tok_literals ts"
  "tok_literals (a @ b) = tok_literals a @ tok_literals b" "tok_literals (map Code cs) = []"
  by (simp_all add: tok_literals_def comp_def)

lemma ref_literals: "tok_literals (ref_toks key pk prefix) = ref_texts key pk" "Unterminated \<notin> set (ref_toks key pk prefix)"
  "ref_texts key pk \<noteq> [] \<Longrightarrow> ref_texts key' pk \<noteq> [] \<Longrightarrow> map blank_literal (ref_toks key pk prefix) = map blank_literal (ref_toks key' pk prefix)"
  by (auto simp: ref_toks_def ref_texts_def split: if_splits)

lemma flag_literals: "tok_literals (flag_toks ci) = (if ci then [lit ''i''] else [])" "Unterminated \<notin> set (flag_toks ci)"
  by (simp_all add: flag_toks_def)

lemmas filter_lex = lex_code lex_code_end lex_literal lex_ref lex_flag hd_flag

text \<open>The tokens of a filter.\<close>

fun filter_toks :: "pystr set \<Rightarrow> pystr \<Rightarrow> pystr \<times> tag_op \<times> pystr option \<times> bool \<times> bool \<Rightarrow> sql_tok list" where
  "filter_toks pk prefix (key, op, value, key_re, ci) =
     (let v = Literal (value_or_blank value); k = ref_toks key pk prefix; flag = flag_toks ci; code = (\<lambda>s. map Code (sql s))
      in if key_re
         then map Code prefix @ code ''tags IS NOT NULL AND list_bool_or(list_transform(map_entries('' @ map Code prefix @
              code ''tags), e -> regexp_matches(e.key, '' @ [Literal key] @ code '') AND regexp_matches(e.value, '' @ [v] @ flag @ code '')))''
         else case op of
           OpExists \<Rightarrow> k @ code '' IS NOT NULL''
         | OpNotExists \<Rightarrow> k @ code '' IS NULL''
         | OpEq \<Rightarrow> k @ code '' = '' @ [v]
         | OpNe \<Rightarrow> code ''('' @ k @ code '' IS NULL OR '' @ k @ code '' != '' @ [v] @ code '')''
         | OpRe \<Rightarrow> k @ code '' IS NOT NULL AND regexp_matches('' @ k @ code '', '' @ [v] @ flag @ code '')''
         | OpNre \<Rightarrow> code ''('' @ k @ code '' IS NULL OR NOT regexp_matches('' @ k @ code '', '' @ [v] @ flag @ code ''))'')"

lemma lex_filter:
  assumes "39 \<notin> set prefix" and "X = [] \<or> hd X \<noteq> 39"
  shows "lex_sql None (tag_filter_sql f promoted_keys prefix @ X) = filter_toks promoted_keys prefix f @ lex_sql None X"
proof -
  obtain key op val key_re ci where f: "f = (key, op, val, key_re, ci)" by (cases f)
  have re: "lex_sql None (tag_filter_sql (key, op, val, True, ci) promoted_keys prefix @ X) = filter_toks promoted_keys prefix (key, op, val, True, ci) @ lex_sql None X"
    using assms by (simp add: Let_def sql_def filter_lex)
  have "lex_sql None (tag_filter_sql (key, op, val, False, ci) promoted_keys prefix @ X) = filter_toks promoted_keys prefix (key, op, val, False, ci) @ lex_sql None X"
    using assms by (cases op) (simp_all add: Let_def sql_def filter_lex)
  then show ?thesis using re by (cases key_re) (simp_all only: f)
qed

lemma filter_toks_texts: "tok_literals (filter_toks pk prefix f) = filter_texts pk f" "Unterminated \<notin> set (filter_toks pk prefix f)"
proof -
  obtain key op val key_re ci where f: "f = (key, op, val, key_re, ci)" by (cases f)
  show "tok_literals (filter_toks pk prefix f) = filter_texts pk f" "Unterminated \<notin> set (filter_toks pk prefix f)"
    unfolding f by (cases key_re; cases op; simp add: Let_def ref_literals flag_literals image_iff)+
qed

lemma filter_toks_shape:
  assumes "same_filter_shape pk f f'"
  shows "map blank_literal (filter_toks pk prefix f) = map blank_literal (filter_toks pk prefix f')"
proof -
  obtain key op val key_re ci where f: "f = (key, op, val, key_re, ci)" by (cases f)
  obtain key' val' where f': "f' = (key', op, val', key_re, ci)" using assms by (cases f') (auto simp: f)
  show ?thesis
  proof (cases key_re)
    case False
    then have "map blank_literal (ref_toks key pk prefix) = map blank_literal (ref_toks key' pk prefix)"
      using assms ref_literals(3) [of key pk key' prefix] by (auto simp: f f')
    then show ?thesis using False by (cases op) (simp_all add: f f' Let_def)
  qed (simp add: f f' Let_def)
qed

fun join_toks :: "sql_tok list \<Rightarrow> sql_tok list list \<Rightarrow> sql_tok list" where
  "join_toks sep [] = []"
| "join_toks sep (x # xs) = (if xs = [] then x else x @ sep @ join_toks sep xs)"

text \<open>The whole predicate: literals with the user's texts, and code that depends only on the shape.\<close>

definition filters_toks :: "pystr set \<Rightarrow> pystr \<Rightarrow> (pystr \<times> tag_op \<times> pystr option \<times> bool \<times> bool) list \<Rightarrow> sql_tok list" where
  "filters_toks pk prefix fs = (if fs = [] then map Code (sql ''TRUE'')
     else join_toks (map Code (sql '' AND '')) (map (\<lambda>f. Code 40 # filter_toks pk prefix f @ [Code 41]) fs))"

lemma lex_filters:
  assumes "39 \<notin> set prefix"
  shows "lex_sql None (tag_filters_sql fs promoted_keys prefix) = filters_toks promoted_keys prefix fs"
proof -
  have part: "lex_sql None (sql ''('' @ tag_filter_sql f promoted_keys prefix @ sql '')'' @ X) = Code 40 # filter_toks promoted_keys prefix f @ Code 41 # lex_sql None X" for f X
    using lex_filter [OF assms, of "sql '')'' @ X" f promoted_keys] by (simp add: sql_def)
  have "lex_sql None (join_with (sql '' AND '') (map (\<lambda>f. sql ''('' @ tag_filter_sql f promoted_keys prefix @ sql '')'') fs)) =
      join_toks (map Code (sql '' AND '')) (map (\<lambda>f. Code 40 # filter_toks promoted_keys prefix f @ [Code 41]) fs)"
  proof (induction fs)
    case (Cons f fs)
    show ?case using Cons part [of f "[]"] part [of f "sql '' AND '' @ Y" for Y] by (simp add: sql_def filter_lex)
  qed simp
  then show ?thesis by (auto simp: tag_filters_sql_def filters_toks_def Let_def comp_def sql_def)
qed

lemma join_toks_props:
  "tok_literals (join_toks (map Code c) (map (\<lambda>f. Code 40 # t f @ [Code 41]) fs)) = concat (map (\<lambda>f. tok_literals (t f)) fs)"
  "\<forall>f\<in>set fs. Unterminated \<notin> set (t f) \<Longrightarrow> Unterminated \<notin> set (join_toks (map Code c) (map (\<lambda>f. Code 40 # t f @ [Code 41]) fs))"
  "list_all2 (\<lambda>f f'. map blank_literal (t f) = map blank_literal (t f')) fs fs' \<Longrightarrow>
   map blank_literal (join_toks (map Code c) (map (\<lambda>f. Code 40 # t f @ [Code 41]) fs)) = map blank_literal (join_toks (map Code c) (map (\<lambda>f. Code 40 # t f @ [Code 41]) fs'))"
proof -
  show "tok_literals (join_toks (map Code c) (map (\<lambda>f. Code 40 # t f @ [Code 41]) fs)) = concat (map (\<lambda>f. tok_literals (t f)) fs)"
    by (induction fs) simp_all
  show "Unterminated \<notin> set (join_toks (map Code c) (map (\<lambda>f. Code 40 # t f @ [Code 41]) fs))" if "\<forall>f\<in>set fs. Unterminated \<notin> set (t f)"
    using that by (induction fs) auto
  show "map blank_literal (join_toks (map Code c) (map (\<lambda>f. Code 40 # t f @ [Code 41]) fs)) = map blank_literal (join_toks (map Code c) (map (\<lambda>f. Code 40 # t f @ [Code 41]) fs'))"
    if "list_all2 (\<lambda>f f'. map blank_literal (t f) = map blank_literal (t f')) fs fs'"
    using that by (induction rule: list_all2_induct) (auto simp: list_all2_lengthD)
qed

end
