(* ===== verification/Result.thy ===== *)
theory Result
  imports PyNum Ql_Ast
begin

text \<open>
  \<^verbatim>\<open>src/src/osmpq/engine/result.py\<close>: the elements of an answer as XML and CSV text. An element is a
  record with an optional field for each key that \<open>build_elements\<close> may leave out. The functions
  \<open>escape\<close> and \<open>quoteattr\<close> are those of \<open>xml.sax.saxutils\<close>.
\<close>

section \<open>Elements\<close>

record member_el =
  m_type :: pystr
  m_ref :: int
  m_role :: "pystr option"
  m_place :: "(pyfloat \<times> pyfloat) option"
  m_geometry :: "(pyfloat \<times> pyfloat) list option"

record element =
  el_type :: pystr
  el_id :: int
  el_lat :: "pyfloat option"
  el_lon :: "pyfloat option"
  el_version :: "int option"
  el_timestamp :: "pystr option"
  el_changeset :: "int option"
  el_uid :: "int option"
  el_user :: "pystr option"
  el_visible :: "bool option"
  el_tags :: "(pystr \<times> pystr) list option"
  el_bounds :: "(pyfloat \<times> pyfloat \<times> pyfloat \<times> pyfloat) option"
  el_center :: "(pyfloat \<times> pyfloat) option"
  el_nodes :: "int list option"
  el_geometry :: "(pyfloat \<times> pyfloat) option list option"
  el_members :: "member_el list option"

record action_el =
  a_action :: pystr
  a_old :: "element option"
  a_new :: "element option"

section \<open>Quoting\<close>

definition replace_char :: "nat \<Rightarrow> string \<Rightarrow> pystr \<Rightarrow> pystr" where
  "replace_char c t s = concat (map (\<lambda>x. if x = c then lit t else [x]) s)"

definition xml_escape :: "pystr \<Rightarrow> pystr" where
  "xml_escape s = replace_char 60 ''&lt;'' (replace_char 62 ''&gt;'' (replace_char 38 ''&amp;'' s))"

definition quoteattr :: "pystr \<Rightarrow> pystr" where
  "quoteattr s =
     (let d = replace_char 9 ''&#9;'' (replace_char 13 ''&#13;'' (replace_char 10 ''&#10;'' (xml_escape s)))
      in if 34 \<in> set d
         then (if 39 \<in> set d then [34] @ replace_char 34 ''&quot;'' d @ [34] else [39] @ d @ [39])
         else [34] @ d @ [34])"

definition xml_attr :: "string \<Rightarrow> pystr option \<Rightarrow> pystr" where
  "xml_attr nm v = (case v of None \<Rightarrow> [] | Some s \<Rightarrow> lit '' '' @ lit nm @ lit ''='' @ quoteattr s)"

text \<open>An attribute that the code writes without quoting its value.\<close>

definition raw_attr :: "string \<Rightarrow> pystr \<Rightarrow> pystr" where
  "raw_attr nm v = lit '' '' @ lit nm @ [61, 34] @ v @ [34]"

section \<open>XML\<close>

definition meta_attrs :: "element \<Rightarrow> pystr" where
  "meta_attrs el = xml_attr ''version'' (map_option py_str_int (el_version el)) @ xml_attr ''timestamp'' (el_timestamp el) @
     xml_attr ''changeset'' (map_option py_str_int (el_changeset el)) @ xml_attr ''uid'' (map_option py_str_int (el_uid el)) @
     xml_attr ''user'' (el_user el) @
     xml_attr ''visible'' (map_option (\<lambda>b. if b then lit ''true'' else lit ''false'') (el_visible el))"

definition tag_xml :: "pystr \<times> pystr \<Rightarrow> pystr" where
  "tag_xml kv = lit ''<tag k='' @ quoteattr (fst kv) @ lit '' v='' @ quoteattr (snd kv) @ lit ''/>''"

definition tags_xml :: "element \<Rightarrow> pystr" where
  "tags_xml el = (case el_tags el of None \<Rightarrow> [] | Some kvs \<Rightarrow> concat (map tag_xml kvs))"

definition bounds_xml :: "element \<Rightarrow> pystr" where
  "bounds_xml el = (case el_bounds el of None \<Rightarrow> []
     | Some (minlat, minlon, maxlat, maxlon) \<Rightarrow>
         lit ''<bounds'' @ raw_attr ''minlat'' (repr_float minlat) @ raw_attr ''minlon'' (repr_float minlon) @
         raw_attr ''maxlat'' (repr_float maxlat) @ raw_attr ''maxlon'' (repr_float maxlon) @ lit ''/>'')"

definition center_xml :: "element \<Rightarrow> pystr" where
  "center_xml el = (case el_center el of None \<Rightarrow> []
     | Some (lat, lon) \<Rightarrow> lit ''<center'' @ raw_attr ''lat'' (repr_float lat) @ raw_attr ''lon'' (repr_float lon) @ lit ''/>'')"

definition close_xml :: "pystr \<Rightarrow> string \<Rightarrow> pystr \<Rightarrow> pystr" where
  "close_xml head nm body = (if body = [] then head @ lit ''/>'' else head @ lit ''>'' @ body @ lit ''</'' @ lit nm @ lit ''>'')"

definition timeline_xml :: "element \<Rightarrow> pystr" where
  "timeline_xml el = lit ''<timeline'' @ raw_attr ''id'' (py_str_int (el_id el)) @ lit ''>'' @ tags_xml el @ lit ''</timeline>''"

definition node_xml :: "element \<Rightarrow> pystr" where
  "node_xml el =
     close_xml (lit ''<node'' @ raw_attr ''id'' (py_str_int (el_id el)) @ xml_attr ''lat'' (map_option repr_float (el_lat el)) @
       xml_attr ''lon'' (map_option repr_float (el_lon el)) @ meta_attrs el) ''node'' (tags_xml el)"

definition nd_ref :: "int \<Rightarrow> pystr" where "nd_ref ref = lit ''<nd'' @ raw_attr ''ref'' (py_str_int ref) @ lit ''/>''"

definition nd_place :: "pyfloat \<times> pyfloat \<Rightarrow> pystr" where
  "nd_place p = lit ''<nd'' @ raw_attr ''lat'' (repr_float (fst p)) @ raw_attr ''lon'' (repr_float (snd p)) @ lit ''/>''"

definition nd_ref_place :: "int \<times> (pyfloat \<times> pyfloat) option \<Rightarrow> pystr" where
  "nd_ref_place rp = (case snd rp of None \<Rightarrow> nd_ref (fst rp)
     | Some p \<Rightarrow> lit ''<nd'' @ raw_attr ''ref'' (py_str_int (fst rp)) @ raw_attr ''lat'' (repr_float (fst p)) @
         raw_attr ''lon'' (repr_float (snd p)) @ lit ''/>'')"

definition way_nodes_xml :: "element \<Rightarrow> pystr result" where
  "way_nodes_xml el =
     (case (el_nodes el, el_geometry el) of
        (Some ns, Some g) \<Rightarrow> if length ns = length g then Inr (concat (map nd_ref_place (zip ns g))) else Inr (concat (map nd_ref ns))
      | (Some ns, None) \<Rightarrow> Inr (concat (map nd_ref ns))
      | (None, Some g) \<Rightarrow> rbind (rmap (\<lambda>pt. case pt of None \<Rightarrow> Inl TypeError | Some p \<Rightarrow> Inr (nd_place p)) g) (\<lambda>ps. Inr (concat ps))
      | (None, None) \<Rightarrow> Inr [])"

definition way_xml :: "element \<Rightarrow> pystr result" where
  "way_xml el = rbind (way_nodes_xml el) (\<lambda>nds.
     Inr (close_xml (lit ''<way'' @ raw_attr ''id'' (py_str_int (el_id el)) @ meta_attrs el) ''way''
       (bounds_xml el @ center_xml el @ nds @ tags_xml el)))"

definition area_xml :: "element \<Rightarrow> pystr" where
  "area_xml el = close_xml (lit ''<area'' @ raw_attr ''id'' (py_str_int (el_id el)) @ meta_attrs el) ''area'' (tags_xml el)"

definition member_xml :: "member_el \<Rightarrow> pystr" where
  "member_xml m =
     (let head = lit ''<member'' @ raw_attr ''type'' (m_type m) @ raw_attr ''ref'' (py_str_int (m_ref m)) @ lit '' role='' @
                 quoteattr (case m_role m of Some r \<Rightarrow> r | None \<Rightarrow> [])
      in if m_type m = lit ''node'' \<and> m_place m \<noteq> None
         then head @ raw_attr ''lat'' (repr_float (fst (the (m_place m)))) @ raw_attr ''lon'' (repr_float (snd (the (m_place m)))) @ lit ''/>''
         else if m_type m = lit ''way'' \<and> m_geometry m \<noteq> None
         then head @ lit ''>'' @ concat (map nd_place (the (m_geometry m))) @ lit ''</member>''
         else head @ lit ''/>'')"

definition relation_xml :: "element \<Rightarrow> pystr" where
  "relation_xml el =
     close_xml (lit ''<relation'' @ raw_attr ''id'' (py_str_int (el_id el)) @ meta_attrs el) ''relation''
       (bounds_xml el @ center_xml el @ concat (map member_xml (case el_members el of Some ms \<Rightarrow> ms | None \<Rightarrow> [])) @ tags_xml el)"

definition element_xml :: "element \<Rightarrow> pystr result" where
  "element_xml el =
     (if el_type el = lit ''count'' then Inr (lit ''<count>'' @ tags_xml el @ lit ''</count>'')
      else if el_type el = lit ''node'' then Inr (node_xml el)
      else if el_type el = lit ''way'' then way_xml el
      else if el_type el = lit ''relation'' then Inr (relation_xml el)
      else if el_type el = lit ''area'' then Inr (area_xml el)
      else if el_type el = lit ''timeline'' then Inr (timeline_xml el)
      else Inr [])"

definition required :: "'a option \<Rightarrow> 'a result" where
  "required v = (case v of None \<Rightarrow> Inl KeyError | Some x \<Rightarrow> Inr x)"

definition nl :: pystr where "nl = [10]"

definition wrapped :: "string \<Rightarrow> pystr \<Rightarrow> pystr" where
  "wrapped nm body = lit ''<'' @ lit nm @ lit ''>'' @ nl @ lit ''  '' @ body @ nl @ lit ''</'' @ lit nm @ lit ''>''"

definition action_xml :: "action_el \<Rightarrow> pystr result" where
  "action_xml a =
     rbind (if a_action a = lit ''create'' then rbind (required (a_new a)) element_xml
            else if a_action a = lit ''delete'' then
              rbind (required (a_old a)) (\<lambda>old. rbind (element_xml old) (\<lambda>x.
                case a_new a of None \<Rightarrow> Inr (wrapped ''old'' x)
                | Some new \<Rightarrow> rbind (element_xml new) (\<lambda>y. Inr (wrapped ''old'' x @ nl @ wrapped ''new'' y))))
            else
              rbind (required (a_old a)) (\<lambda>old. rbind (element_xml old) (\<lambda>x.
              rbind (required (a_new a)) (\<lambda>new. rbind (element_xml new) (\<lambda>y. Inr (wrapped ''old'' x @ nl @ wrapped ''new'' y))))))
       (\<lambda>body. Inr (lit ''<action'' @ raw_attr ''type'' (a_action a) @ lit ''>'' @ nl @ body @ nl @ lit ''</action>'' @ nl))"

definition GENERATOR :: pystr where "GENERATOR = lit ''osmpq 0.0.1''"

definition COPYRIGHT :: pystr where
  "COPYRIGHT = lit ''The data included in this document is from www.openstreetmap.org. The data is made available under ODbL.''"

text \<open>The document, for a list of elements or of actions.\<close>

definition render_xml :: "('e \<Rightarrow> pystr result) \<Rightarrow> 'e list \<Rightarrow> pystr option \<Rightarrow> pystr option \<Rightarrow> pystr result" where
  "render_xml item els timestamp_osm_base remark =
     rbind (rmap item els) (\<lambda>body.
       Inr (lit ''<?xml version=\"1.0\" encoding=\"UTF-8\"?>'' @
            lit ''<osm version=\"0.6\" generator=\"'' @ xml_escape GENERATOR @ lit ''\">'' @
            lit ''<note>'' @ xml_escape COPYRIGHT @ lit ''</note>'' @
            (case timestamp_osm_base of Some (c # t) \<Rightarrow> lit ''<meta osm_base=\"'' @ xml_escape (c # t) @ lit ''\"/>'' | _ \<Rightarrow> []) @
            concat body @
            (case remark of Some (c # t) \<Rightarrow> lit ''<remark>'' @ xml_escape (c # t) @ lit ''</remark>'' | _ \<Rightarrow> []) @
            lit ''</osm>''))"

section \<open>CSV\<close>

definition csv_header_name :: "pystr \<Rightarrow> pystr" where
  "csv_header_name f = (if take 2 f = [58, 58] then 64 # drop 2 f else f)"

definition text_or_blank :: "pystr option \<Rightarrow> pystr" where
  "text_or_blank v = (case v of None \<Rightarrow> [] | Some s \<Rightarrow> s)"

definition csv_lat_lon :: "element \<Rightarrow> pyfloat option \<Rightarrow> (pyfloat \<times> pyfloat \<Rightarrow> pyfloat) \<Rightarrow> pystr" where
  "csv_lat_lon el own which =
     text_or_blank (map_option repr_float (if el_type el = lit ''node'' then own else map_option which (el_center el)))"

definition tag_value :: "element \<Rightarrow> pystr \<Rightarrow> pystr" where
  "tag_value el k = text_or_blank (case el_tags el of None \<Rightarrow> None | Some kvs \<Rightarrow> map_of kvs k)"

definition csv_field_value :: "element \<Rightarrow> pystr \<Rightarrow> pystr" where
  "csv_field_value el f =
     (if el_type el = lit ''count'' then (if f = lit ''::count'' then tag_value el (lit ''total'') else [])
      else if f = lit ''::id'' then py_str_int (el_id el)
      else if f = lit ''::type'' then el_type el
      else if f = lit ''::otype'' then
        (if el_type el = lit ''node'' then lit ''n'' else if el_type el = lit ''way'' then lit ''w''
         else if el_type el = lit ''relation'' then lit ''r'' else [])
      else if f = lit ''::lat'' then csv_lat_lon el (el_lat el) fst
      else if f = lit ''::lon'' then csv_lat_lon el (el_lon el) snd
      else if f = lit ''::count'' then []
      else if f = lit ''::version'' then text_or_blank (map_option py_str_int (el_version el))
      else if f = lit ''::timestamp'' then text_or_blank (el_timestamp el)
      else if f = lit ''::changeset'' then text_or_blank (map_option py_str_int (el_changeset el))
      else if f = lit ''::uid'' then text_or_blank (map_option py_str_int (el_uid el))
      else if f = lit ''::user'' then text_or_blank (el_user el)
      else tag_value el f)"

fun sep_join :: "pystr \<Rightarrow> pystr list \<Rightarrow> pystr" where
  "sep_join sep [] = []"
| "sep_join sep (x # xs) = (if xs = [] then x else x @ sep @ sep_join sep xs)"

definition render_csv :: "settings option \<Rightarrow> element list \<Rightarrow> pystr" where
  "render_csv st els =
     (let cols = (case st of None \<Rightarrow> [] | Some s \<Rightarrow> (case s_csv_fields s of None \<Rightarrow> [] | Some fs \<Rightarrow> fs));
          sep = (case st of None \<Rightarrow> [9] | Some s \<Rightarrow> s_csv_separator s);
          header = (case st of None \<Rightarrow> True | Some s \<Rightarrow> s_csv_header s);
          lines = (if header then [sep_join sep (map csv_header_name cols)] else []) @
                  map (\<lambda>el. sep_join sep (map (csv_field_value el) cols)) els
      in sep_join [10] lines @ (if lines = [] then [] else [10]))"

end
