(* ===== verification/Result_Correct.thy ===== *)
theory Result_Correct
  imports Result "HOL-Library.Sublist"
begin

text \<open>
  A reader of XML text as events, and the events that the elements stand for. The text that
  \<open>result.py\<close> writes reads back as those events: no text of a tag, a role or a user name can open
  or close an element or an attribute.
\<close>

section \<open>A reader\<close>

datatype xml_event =
    XStart pystr "(pystr \<times> pystr) list"
  | XEmpty pystr "(pystr \<times> pystr) list"
  | XEnd pystr
  | XText pystr

definition entities :: "(pystr \<times> nat) list" where
  "entities = [(lit ''&lt;'', 60), (lit ''&gt;'', 62), (lit ''&amp;'', 38), (lit ''&quot;'', 34), (lit ''&#10;'', 10),
     (lit ''&#13;'', 13), (lit ''&#9;'', 9)]"

function decode :: "pystr \<Rightarrow> pystr" where
  "decode [] = []"
| "decode (c # cs) =
     (case find (\<lambda>(t, v). prefix t (c # cs)) entities of
        Some (t, v) \<Rightarrow> v # decode (drop (length t - 1) cs)
      | None \<Rightarrow> c # decode cs)"
  by pat_completeness auto
termination by (relation "measure length") auto

function read_attrs :: "pystr \<Rightarrow> ((pystr \<times> pystr) list \<times> bool \<times> pystr) option" where
  "read_attrs [] = None"
| "read_attrs (c # s) =
     (if c = 62 then Some ([], False, s)
      else if c = 47 then (if s \<noteq> [] \<and> hd s = 62 then Some ([], True, tl s) else None)
      else if c = 32 then
        (case dropWhile (\<lambda>x. x \<noteq> 61) s of
           e # q # s3 \<Rightarrow>
             if (q = 34 \<or> q = 39) \<and> q \<in> set s3 \<and> 60 \<notin> set (takeWhile (\<lambda>x. x \<noteq> q) s3)
             then map_option (\<lambda>(as, b, r). ((takeWhile (\<lambda>x. x \<noteq> 61) s, decode (takeWhile (\<lambda>x. x \<noteq> q) s3)) # as, b, r))
                    (read_attrs (tl (dropWhile (\<lambda>x. x \<noteq> q) s3)))
             else None
         | _ \<Rightarrow> None)
      else None)"
  by pat_completeness auto
termination
proof (relation "measure length", goal_cases)
  case (2 c s e s2 q s3)
  have "length (dropWhile (\<lambda>x. x \<noteq> 61) s) \<le> length s" "length (dropWhile (\<lambda>x. x \<noteq> q) s3) \<le> length s3" by (rule length_dropWhile_le)+
  then show ?case using 2 by simp
qed simp

lemma read_attrs_shorter: "read_attrs s = Some (as, b, r) \<Longrightarrow> length r < length s"
proof (induction s arbitrary: as b r rule: read_attrs.induct)
  case (2 c s)
  show ?case
  proof (cases "c = 32")
    case True
    then obtain e q s3 as' where d: "dropWhile (\<lambda>x. x \<noteq> 61) s = e # q # s3"
      and q: "(q = 34 \<or> q = 39) \<and> q \<in> set s3 \<and> 60 \<notin> set (takeWhile (\<lambda>x. x \<noteq> q) s3)"
      and r: "read_attrs (tl (dropWhile (\<lambda>x. x \<noteq> q) s3)) = Some (as', b, r)"
      using 2(2) by (auto split: list.splits if_splits)
    have "length r < length (tl (dropWhile (\<lambda>x. x \<noteq> q) s3))" using 2(1) True d q r by simp
    moreover have "length (dropWhile (\<lambda>x. x \<noteq> 61) s) \<le> length s" "length (dropWhile (\<lambda>x. x \<noteq> q) s3) \<le> length s3" by (rule length_dropWhile_le)+
    ultimately show ?thesis using d by simp
  qed (use 2(2) in \<open>auto split: if_splits\<close>)
qed simp

function read_xml :: "pystr \<Rightarrow> xml_event list option" where
  "read_xml [] = Some []"
| "read_xml (c # s) =
     (if c \<noteq> 60 then map_option (\<lambda>es. XText (decode (c # takeWhile (\<lambda>x. x \<noteq> 60) s)) # es) (read_xml (dropWhile (\<lambda>x. x \<noteq> 60) s))
      else if s \<noteq> [] \<and> hd s = 47 then
        (if 62 \<in> set s then map_option (\<lambda>es. XEnd (takeWhile (\<lambda>x. x \<noteq> 62) (tl s)) # es) (read_xml (tl (dropWhile (\<lambda>x. x \<noteq> 62) s)))
         else None)
      else (case read_attrs (dropWhile (\<lambda>x. x \<notin> {32, 47, 62}) s) of
              None \<Rightarrow> None
            | Some (as, b, r) \<Rightarrow>
                let nm = takeWhile (\<lambda>x. x \<notin> {32, 47, 62}) s
                in map_option (\<lambda>es. (if b then XEmpty nm as else XStart nm as) # es) (read_xml r)))"
  by pat_completeness auto
termination
proof (relation "measure length", goal_cases)
  case (2 c s)
  then show ?case using length_dropWhile_le [of "\<lambda>x. x \<noteq> 60" s] by simp
next
  case (3 c s)
  then show ?case using length_dropWhile_le [of "\<lambda>x. x \<noteq> 62" s] by simp
next
  case (4 c s x2 as y b r)
  then show ?case using read_attrs_shorter [of "dropWhile (\<lambda>x. x \<notin> {32, 47, 62}) s" as b r] length_dropWhile_le [of "\<lambda>x. x \<notin> {32, 47, 62}" s] by simp
qed simp

section \<open>Quoted text\<close>

text \<open>Text as the writer encodes it, character by character.\<close>

definition enc :: "bool \<Rightarrow> bool \<Rightarrow> nat \<Rightarrow> pystr" where
  "enc attr dq c =
     (if c = 38 then lit ''&amp;'' else if c = 60 then lit ''&lt;'' else if c = 62 then lit ''&gt;''
      else if attr \<and> c = 10 then lit ''&#10;'' else if attr \<and> c = 13 then lit ''&#13;'' else if attr \<and> c = 9 then lit ''&#9;''
      else if dq \<and> c = 34 then lit ''&quot;'' else [c])"

lemma replace_char_concat: "replace_char c t (concat (map f s)) = concat (map (\<lambda>x. replace_char c t (f x)) s)"
  by (induction s) (simp_all add: replace_char_def)

lemma xml_escape_enc: "xml_escape s = concat (map (enc False False) s)"
proof -
  have amp: "replace_char 38 ''&amp;'' s = concat (map (\<lambda>x. replace_char 38 ''&amp;'' [x]) s)" by (simp add: replace_char_def)
  have "xml_escape s = concat (map (\<lambda>x. replace_char 60 ''&lt;'' (replace_char 62 ''&gt;'' (replace_char 38 ''&amp;'' [x]))) s)"
    unfolding xml_escape_def amp replace_char_concat ..
  also have "(\<lambda>x. replace_char 60 ''&lt;'' (replace_char 62 ''&gt;'' (replace_char 38 ''&amp;'' [x]))) = enc False False"
    by (auto simp: replace_char_def enc_def lit_def fun_eq_iff)
  finally show ?thesis .
qed

lemma attr_text_enc:
  "replace_char 9 ''&#9;'' (replace_char 13 ''&#13;'' (replace_char 10 ''&#10;'' (xml_escape s))) = concat (map (enc True False) s)"
proof -
  have "(\<lambda>x. replace_char 9 ''&#9;'' (replace_char 13 ''&#13;'' (replace_char 10 ''&#10;'' (enc False False x)))) = enc True False"
    by (auto simp: replace_char_def enc_def lit_def fun_eq_iff)
  then show ?thesis by (simp add: xml_escape_enc replace_char_concat)
qed

lemma attr_quot_enc: "replace_char 34 ''&quot;'' (concat (map (enc True False) s)) = concat (map (enc True True) s)"
proof -
  have "(\<lambda>x. replace_char 34 ''&quot;'' (enc True False x)) = enc True True"
    by (auto simp: replace_char_def enc_def lit_def fun_eq_iff)
  then show ?thesis by (simp add: replace_char_concat)
qed

lemma decode_enc: "decode (concat (map (enc attr dq) s)) = s"
proof (induction s)
  case (Cons c s)
  have "decode (enc attr dq c @ X) = c # decode X" for X
    by (auto simp: enc_def lit_def entities_def)
  then show ?case using Cons by simp
qed simp

lemma enc_chars: "60 \<notin> set (concat (map (enc attr dq) s))" "34 \<notin> set (concat (map (enc attr True) s))"
  by (auto simp: enc_def lit_def)

lemma quoteattr_form:
  obtains q v where "quoteattr s = q # v @ [q]" "q = 34 \<or> q = 39" "q \<notin> set v" "60 \<notin> set v" "decode v = s"
proof (cases "34 \<in> set (concat (map (enc True False) s))")
  case True
  show ?thesis
  proof (cases "39 \<in> set (concat (map (enc True False) s))")
    case True
    with \<open>34 \<in> _\<close> show ?thesis
      using that [of 34 "concat (map (enc True True) s)"] enc_chars [of True] decode_enc [of True True s]
      by (simp add: quoteattr_def Let_def attr_text_enc attr_quot_enc)
  next
    case False
    with \<open>34 \<in> _\<close> show ?thesis
      using that [of 39 "concat (map (enc True False) s)"] enc_chars(1) [of True False] decode_enc [of True False s]
      by (simp add: quoteattr_def Let_def attr_text_enc)
  qed
next
  case False
  then show ?thesis
    using that [of 34 "concat (map (enc True False) s)"] enc_chars(1) [of True False] decode_enc [of True False s]
    by (simp add: quoteattr_def Let_def attr_text_enc)
qed

text \<open>Text without special characters is written as it is.\<close>

definition plain :: "pystr \<Rightarrow> bool" where
  "plain s \<longleftrightarrow> list_all (\<lambda>c. c \<notin> {9, 10, 13, 34, 38, 60, 62}) s"

lemma plain_enc: "plain s \<Longrightarrow> concat (map (enc attr dq) s) = s"
  by (induction s) (auto simp: plain_def enc_def)

lemma quoteattr_plain: "plain s \<Longrightarrow> quoteattr s = [34] @ s @ [34]"
  by (auto simp: quoteattr_def attr_text_enc plain_enc Let_def, auto simp: plain_def list_all_iff)

section \<open>Events as text\<close>

definition attrs_text :: "(pystr \<times> pystr) list \<Rightarrow> pystr" where
  "attrs_text as = concat (map (\<lambda>(k, v). [32] @ k @ [61] @ quoteattr v) as)"

fun event_text :: "xml_event \<Rightarrow> pystr" where
  "event_text (XStart nm as) = [60] @ nm @ attrs_text as @ [62]"
| "event_text (XEmpty nm as) = [60] @ nm @ attrs_text as @ [47, 62]"
| "event_text (XEnd nm) = [60, 47] @ nm @ [62]"
| "event_text (XText t) = xml_escape t"

definition events_text :: "xml_event list \<Rightarrow> pystr" where
  "events_text es = concat (map event_text es)"

definition name_ok :: "pystr \<Rightarrow> bool" where
  "name_ok nm \<longleftrightarrow> nm \<noteq> [] \<and> list_all (\<lambda>c. c \<notin> {32, 47, 60, 61, 62}) nm"

fun event_ok :: "xml_event \<Rightarrow> bool" where
  "event_ok (XStart nm as) = (name_ok nm \<and> list_all (name_ok \<circ> fst) as)"
| "event_ok (XEmpty nm as) = (name_ok nm \<and> list_all (name_ok \<circ> fst) as)"
| "event_ok (XEnd nm) = name_ok nm"
| "event_ok (XText t) = (t \<noteq> [])"

fun is_text :: "xml_event \<Rightarrow> bool" where
  "is_text (XText t) = True" | "is_text (XStart nm as) = False" | "is_text (XEmpty nm as) = False" | "is_text (XEnd nm) = False"

text \<open>Names are fit for names, and two texts are not next to each other.\<close>

fun events_ok :: "xml_event list \<Rightarrow> bool" where
  "events_ok [] = True"
| "events_ok (e # es) = (event_ok e \<and> (is_text e \<longrightarrow> es = [] \<or> \<not> is_text (hd es)) \<and> events_ok es)"

lemma until: "d \<notin> set p \<Longrightarrow> takeWhile (\<lambda>x. x \<noteq> d) (p @ d # X) = p" "d \<notin> set p \<Longrightarrow> dropWhile (\<lambda>x. x \<noteq> d) (p @ d # X) = d # X"
  by (auto simp: takeWhile_append dropWhile_append)

lemma read_attrs_print:
  assumes "list_all (name_ok \<circ> fst) as"
  shows "read_attrs (attrs_text as @ 62 # X) = Some (as, False, X)" "read_attrs (attrs_text as @ 47 # 62 # X) = Some (as, True, X)"
proof -
  have step: "read_attrs (attrs_text ((k, v) # as) @ X) = map_option (\<lambda>(as', b, r). ((k, v) # as', b, r)) (read_attrs (attrs_text as @ X))"
    if "name_ok k" for k v as X
  proof -
    obtain q w where q: "quoteattr v = q # w @ [q]" "q = 34 \<or> q = 39" "q \<notin> set w" "60 \<notin> set w" "decode w = v" by (rule quoteattr_form)
    have k: "61 \<notin> set k" using that by (auto simp: name_ok_def list_all_iff)
    have "attrs_text ((k, v) # as) @ X = 32 # k @ 61 # q # w @ q # attrs_text as @ X" by (simp add: attrs_text_def q(1))
    then show ?thesis using q(2-5) by (simp add: until [OF k] until [OF q(3)])
  qed
  show "read_attrs (attrs_text as @ 62 # X) = Some (as, False, X)" "read_attrs (attrs_text as @ 47 # 62 # X) = Some (as, True, X)"
    using assms by (induction as) (auto simp: step simp del: read_attrs.simps, simp_all add: attrs_text_def)
qed

lemma name_until:
  assumes "name_ok nm" and "hd X \<in> {32, 47, 62}" and "X \<noteq> []"
  shows "takeWhile (\<lambda>x. x \<notin> {32, 47, 62}) (nm @ X) = nm" "dropWhile (\<lambda>x. x \<notin> {32, 47, 62}) (nm @ X) = X"
proof -
  have "\<forall>c\<in>set nm. c \<notin> {32, 47, 62}" using assms(1) by (auto simp: name_ok_def list_all_iff)
  then show "takeWhile (\<lambda>x. x \<notin> {32, 47, 62}) (nm @ X) = nm" "dropWhile (\<lambda>x. x \<notin> {32, 47, 62}) (nm @ X) = X"
    using assms(2,3) by (cases X; auto simp: takeWhile_append dropWhile_append)+
qed

lemma attrs_text_hd: "attrs_text as @ 62 # X \<noteq> []" "hd (attrs_text as @ 62 # X) \<in> {32, 47, 62}" "hd (attrs_text as @ 47 # X) \<in> {32, 47, 62}"
  by (cases as; auto simp: attrs_text_def)+

lemma read_tag:
  assumes "name_ok nm" and "list_all (name_ok \<circ> fst) as"
  shows "read_xml (event_text (XStart nm as) @ X) = map_option (\<lambda>es. XStart nm as # es) (read_xml X)"
    "read_xml (event_text (XEmpty nm as) @ X) = map_option (\<lambda>es. XEmpty nm as # es) (read_xml X)"
    "read_xml (event_text (XEnd nm) @ X) = map_option (\<lambda>es. XEnd nm # es) (read_xml X)"
proof -
  obtain c cs where nm: "nm = c # cs" "c \<noteq> 47" using assms(1) by (cases nm) (auto simp: name_ok_def)
  have n62: "62 \<notin> set nm" using assms(1) by (auto simp: name_ok_def list_all_iff)
  have hd: "hd (nm @ Y) \<noteq> 47" "nm @ Y \<noteq> []" for Y using nm by auto
  show "read_xml (event_text (XStart nm as) @ X) = map_option (\<lambda>es. XStart nm as # es) (read_xml X)"
    using hd read_attrs_print(1) [OF assms(2), of X] name_until [OF assms(1) attrs_text_hd(2,1), of as X] by (simp add: Let_def)
  show "read_xml (event_text (XEmpty nm as) @ X) = map_option (\<lambda>es. XEmpty nm as # es) (read_xml X)"
    using hd read_attrs_print(2) [OF assms(2), of X] name_until [OF assms(1) attrs_text_hd(3), of as "62 # X"] by (simp add: Let_def)
  show "read_xml (event_text (XEnd nm) @ X) = map_option (\<lambda>es. XEnd nm # es) (read_xml X)"
    using until [OF n62, of X] by simp
qed

lemma event_text_hd: "event_ok e \<Longrightarrow> \<not> is_text e \<Longrightarrow> event_text e \<noteq> [] \<and> hd (event_text e) = 60"
  by (cases e) auto

lemma read_events: "events_ok es \<Longrightarrow> read_xml (events_text es) = Some es"
proof (induction es)
  case (Cons e es)
  then have IH: "read_xml (events_text es) = Some es" by simp
  have cons: "events_text (e # es) = event_text e @ events_text es" by (simp add: events_text_def)
  show ?case
  proof (cases e)
    case (XText t)
    have next60: "events_text es = [] \<or> hd (events_text es) = 60"
      using Cons.prems XText event_text_hd [of "hd es"] by (cases es) (auto simp: events_text_def)
    have dec: "decode (xml_escape t) = t" by (simp add: xml_escape_enc decode_enc)
    moreover have "t \<noteq> []" using Cons.prems XText by simp
    ultimately have "xml_escape t \<noteq> []" by force
    then have t: "xml_escape t \<noteq> []" "60 \<notin> set (xml_escape t)" "decode (xml_escape t) = t"
      using dec enc_chars(1) [of False False t] by (simp_all add: xml_escape_enc del: set_concat)
    then obtain c cs where c: "xml_escape t = c # cs" "c \<noteq> 60" "60 \<notin> set cs" by (cases "xml_escape t") auto
    have "takeWhile (\<lambda>x. x \<noteq> 60) (cs @ events_text es) = cs" "dropWhile (\<lambda>x. x \<noteq> 60) (cs @ events_text es) = events_text es"
      using next60 c(3) until [of 60 cs "tl (events_text es)"] by (cases "events_text es"; auto simp: takeWhile_eq_all_conv dropWhile_eq_Nil_conv)+
    then show ?thesis using c IH t by (simp add: cons [unfolded XText] XText del: decode.simps)
  next
    case (XStart nm as)
    then show ?thesis using Cons.prems IH by (simp add: cons [unfolded XStart] read_tag(1) del: read_xml.simps event_text.simps)
  next
    case (XEmpty nm as)
    then show ?thesis using Cons.prems IH by (simp add: cons [unfolded XEmpty] read_tag(2) del: read_xml.simps event_text.simps)
  next
    case (XEnd nm)
    then show ?thesis using Cons.prems IH by (simp add: cons [unfolded XEnd] read_tag(3) [of nm "[]"] del: read_xml.simps event_text.simps)
  qed
qed (simp add: events_text_def)

section \<open>The events of elements\<close>

definition opt_attr :: "string \<Rightarrow> pystr option \<Rightarrow> (pystr \<times> pystr) list" where
  "opt_attr nm v = (case v of None \<Rightarrow> [] | Some s \<Rightarrow> [(lit nm, s)])"

definition meta_events :: "element \<Rightarrow> (pystr \<times> pystr) list" where
  "meta_events el = opt_attr ''version'' (map_option py_str_int (el_version el)) @ opt_attr ''timestamp'' (el_timestamp el) @
     opt_attr ''changeset'' (map_option py_str_int (el_changeset el)) @ opt_attr ''uid'' (map_option py_str_int (el_uid el)) @
     opt_attr ''user'' (el_user el) @ opt_attr ''visible'' (map_option (\<lambda>b. if b then lit ''true'' else lit ''false'') (el_visible el))"

definition id_attr :: "element \<Rightarrow> pystr \<times> pystr" where "id_attr el = (lit ''id'', py_str_int (el_id el))"

definition tag_events :: "element \<Rightarrow> xml_event list" where
  "tag_events el = (case el_tags el of None \<Rightarrow> []
     | Some kvs \<Rightarrow> map (\<lambda>kv. XEmpty (lit ''tag'') [(lit ''k'', fst kv), (lit ''v'', snd kv)]) kvs)"

definition place_attrs :: "pyfloat \<times> pyfloat \<Rightarrow> (pystr \<times> pystr) list" where
  "place_attrs p = [(lit ''lat'', repr_float (fst p)), (lit ''lon'', repr_float (snd p))]"

definition bounds_events :: "element \<Rightarrow> xml_event list" where
  "bounds_events el = (case el_bounds el of None \<Rightarrow> []
     | Some (a, b, c, d) \<Rightarrow> [XEmpty (lit ''bounds'') [(lit ''minlat'', repr_float a), (lit ''minlon'', repr_float b),
         (lit ''maxlat'', repr_float c), (lit ''maxlon'', repr_float d)]])"

definition center_events :: "element \<Rightarrow> xml_event list" where
  "center_events el = (case el_center el of None \<Rightarrow> [] | Some p \<Rightarrow> [XEmpty (lit ''center'') (place_attrs p)])"

text \<open>A vertex has its node id when the node list is given, and its place when that is known.\<close>

definition nd_event :: "int option \<Rightarrow> (pyfloat \<times> pyfloat) option \<Rightarrow> xml_event" where
  "nd_event ref p = XEmpty (lit ''nd'') (opt_attr ''ref'' (map_option py_str_int ref) @ (case p of None \<Rightarrow> [] | Some p \<Rightarrow> place_attrs p))"

definition way_node_events :: "element \<Rightarrow> xml_event list" where
  "way_node_events el =
     (case (el_nodes el, el_geometry el) of
        (Some ns, g) \<Rightarrow> map (\<lambda>(n, p). nd_event (Some n) p)
           (zip ns (if g \<noteq> None \<and> length (the g) = length ns then the g else replicate (length ns) None))
      | (None, Some g) \<Rightarrow> map (nd_event None) g
      | (None, None) \<Rightarrow> [])"

definition member_events :: "member_el \<Rightarrow> xml_event list" where
  "member_events m =
     (let as = [(lit ''type'', m_type m), (lit ''ref'', py_str_int (m_ref m)), (lit ''role'', case m_role m of Some r \<Rightarrow> r | None \<Rightarrow> [])]
      in if m_type m = lit ''node'' \<and> m_place m \<noteq> None then [XEmpty (lit ''member'') (as @ place_attrs (the (m_place m)))]
         else if m_type m = lit ''way'' \<and> m_geometry m \<noteq> None
         then XStart (lit ''member'') as # map (\<lambda>p. nd_event None (Some p)) (the (m_geometry m)) @ [XEnd (lit ''member'')]
         else [XEmpty (lit ''member'') as])"

definition close_events :: "string \<Rightarrow> (pystr \<times> pystr) list \<Rightarrow> xml_event list \<Rightarrow> xml_event list" where
  "close_events nm as body = (if body = [] then [XEmpty (lit nm) as] else XStart (lit nm) as # body @ [XEnd (lit nm)])"

definition element_events :: "element \<Rightarrow> xml_event list" where
  "element_events el =
     (let as = id_attr el # meta_events el; box = bounds_events el @ center_events el; tags = tag_events el
      in if el_type el = lit ''count'' then XStart (lit ''count'') [] # tags @ [XEnd (lit ''count'')]
         else if el_type el = lit ''node''
         then close_events ''node'' (id_attr el # opt_attr ''lat'' (map_option repr_float (el_lat el)) @
                opt_attr ''lon'' (map_option repr_float (el_lon el)) @ meta_events el) tags
         else if el_type el = lit ''way'' then close_events ''way'' as (box @ way_node_events el @ tags)
         else if el_type el = lit ''relation''
         then close_events ''relation'' as (box @ concat (map member_events (case el_members el of Some ms \<Rightarrow> ms | None \<Rightarrow> [])) @ tags)
         else if el_type el = lit ''area'' then close_events ''area'' as tags
         else if el_type el = lit ''timeline'' then XStart (lit ''timeline'') [id_attr el] # tags @ [XEnd (lit ''timeline'')]
         else [])"

text \<open>Member types are words, and a way with places for its vertices but no node list has all places.\<close>

definition element_ok :: "element \<Rightarrow> bool" where
  "element_ok el \<longleftrightarrow> (\<forall>m\<in>set (case el_members el of Some ms \<Rightarrow> ms | None \<Rightarrow> []). plain (m_type m)) \<and>
     (el_nodes el = None \<longrightarrow> None \<notin> set (case el_geometry el of Some g \<Rightarrow> g | None \<Rightarrow> []))"

section \<open>The text of elements\<close>

lemma plain_append [simp]: "plain (a @ b) \<longleftrightarrow> plain a \<and> plain b"
  by (simp add: plain_def)

lemma plain_nat: "plain (py_str_nat n)"
  using py_str_nat_digits [of n] by (auto simp: plain_def list_all_iff ascii_digit_def)

lemma plain_int [simp]: "plain (py_str_int n)"
  using plain_nat [of "nat \<bar>n\<bar>"] by (simp add: py_str_int_form plain_def)

lemma plain_sub: "plain s \<Longrightarrow> plain (take n s)" "plain s \<Longrightarrow> plain (drop n s)" "plain s \<Longrightarrow> plain (rev s)" "plain s \<Longrightarrow> plain (dropWhile P s)"
  by (auto simp: plain_def list_all_iff dest: in_set_takeD in_set_dropD set_dropWhileD)

lemma plain_repr_pos: "plain (repr_pos r)"
proof -
  obtain m x where mx: "shortest 17 1 r (dec_exp 400 r) = (m, x)" by fastforce
  define sig where "sig = rev (dropWhile (\<lambda>c. c = 48) (rev (py_str_nat m)))"
  have sig: "plain sig" unfolding sig_def by (intro plain_sub plain_nat)
  have "plain (zeros n)" for n by (simp add: zeros_def plain_def list_all_iff)
  moreover have "plain (lit ''0.'')" "plain (lit ''.0'')" "plain (lit ''.'')" "plain (lit ''e'')" "plain (lit ''-'')" "plain (lit ''+'')" "plain (lit ''0'')" "plain []"
    by (simp_all add: plain_def lit_def)
  ultimately show ?thesis
    unfolding repr_pos_def Let_def mx split_conv sig_def [symmetric] by (simp add: plain_sub sig plain_nat)
qed

lemma plain_repr [simp]: "plain (repr_float x)"
  using plain_repr_pos by (cases x) (auto simp: repr_float_def, auto simp: plain_def lit_def)

lemma events_text_simps [simp]:
  "events_text [] = []" "events_text (e # es) = event_text e @ events_text es" "events_text (a @ b) = events_text a @ events_text b"
  by (simp_all add: events_text_def)

lemma attrs_text_simps [simp]:
  "attrs_text [] = []" "attrs_text ((k, v) # as) = [32] @ k @ [61] @ quoteattr v @ attrs_text as" "attrs_text (a @ b) = attrs_text a @ attrs_text b"
  by (simp_all add: attrs_text_def)

lemma xml_attr_text: "xml_attr nm v = attrs_text (opt_attr nm v)"
  by (simp add: xml_attr_def opt_attr_def lit_def split: option.splits)

lemma raw_attr_text: "plain v \<Longrightarrow> raw_attr nm v = attrs_text [(lit nm, v)]"
  by (simp add: raw_attr_def quoteattr_plain lit_def)

lemma meta_text: "meta_attrs el = attrs_text (meta_events el)"
  by (simp add: meta_attrs_def meta_events_def xml_attr_text)

lemma tags_text: "tags_xml el = events_text (tag_events el)"
proof -
  have "concat (map tag_xml kvs) = events_text (map (\<lambda>kv. XEmpty (lit ''tag'') [(lit ''k'', fst kv), (lit ''v'', snd kv)]) kvs)" for kvs
    by (induction kvs) (simp_all add: tag_xml_def lit_def)
  then show ?thesis by (simp add: tags_xml_def tag_events_def split: option.splits)
qed

lemma bounds_text: "bounds_xml el = events_text (bounds_events el)"
  by (simp add: bounds_xml_def bounds_events_def raw_attr_text split: option.splits) (simp add: lit_def)

lemma center_text: "center_xml el = events_text (center_events el)"
  by (simp add: center_xml_def center_events_def place_attrs_def raw_attr_text split: option.splits) (simp add: lit_def)

lemma nd_text: "nd_ref n = event_text (nd_event (Some n) None)" "nd_place p = event_text (nd_event None (Some p))"
  "nd_ref_place (n, q) = event_text (nd_event (Some n) q)"
  by (auto simp: nd_ref_def nd_place_def nd_ref_place_def nd_event_def opt_attr_def place_attrs_def raw_attr_text split: option.splits)
    (simp_all add: lit_def)

lemma event_nonempty: "events_text (nd_event a b # es) \<noteq> []"
  by (simp add: nd_event_def)

lemma concat_events: "(\<And>x. x \<in> set xs \<Longrightarrow> f x = event_text (g x)) \<Longrightarrow> concat (map f xs) = events_text (map g xs)"
  by (induction xs) simp_all

lemma concat_events2: "(\<And>x. x \<in> set xs \<Longrightarrow> f x = events_text (g x)) \<Longrightarrow> concat (map f xs) = events_text (concat (map g xs))"
  by (induction xs) simp_all

lemma way_nodes_text:
  assumes "element_ok el"
  shows "way_nodes_xml el = Inr (events_text (way_node_events el))"
proof -
  have refs: "concat (map nd_ref ns) = events_text (map (\<lambda>(n, p). nd_event (Some n) p) (zip ns (replicate (length ns) None)))" for ns
    by (induction ns) (simp_all add: nd_text)
  have both: "concat (map nd_ref_place (zip ns g)) = events_text (map (\<lambda>(n, p). nd_event (Some n) p) (zip ns g))" for ns g
    by (rule concat_events) (auto simp: nd_text)
  have places: "rmap (\<lambda>pt. case pt of None \<Rightarrow> Inl TypeError | Some p \<Rightarrow> Inr (nd_place p)) g = Inr (map (event_text \<circ> nd_event None) g)"
    if "None \<notin> set g" for g
    using that
  proof (induction g)
    case (Cons a g)
    then show ?case by (cases a) (simp_all add: rbind_def nd_text)
  qed simp
  have cat: "concat (map (event_text \<circ> nd_event None) g) = events_text (map (nd_event None) g)" for g
    by (induction g) simp_all
  show ?thesis
  proof (cases "el_nodes el")
    case None
    show ?thesis
    proof (cases "el_geometry el")
      case (Some g)
      then show ?thesis using assms None places [of g] cat [of g] by (simp add: way_nodes_xml_def way_node_events_def rbind_def element_ok_def)
    qed (simp add: way_nodes_xml_def way_node_events_def None)
  next
    case (Some ns)
    then show ?thesis by (cases "el_geometry el") (simp_all add: way_nodes_xml_def way_node_events_def refs both)
  qed
qed

lemma events_text_empty: "list_all (\<lambda>e. \<not> is_text e) es \<Longrightarrow> events_text es = [] \<longleftrightarrow> es = []"
  by (cases es) (auto elim: is_text.elims)

lemma close_text:
  assumes "head = lit ''<'' @ lit nm @ attrs_text as" and "body = events_text es" and "list_all (\<lambda>e. \<not> is_text e) es"
  shows "close_xml head nm body = events_text (close_events nm as es)"
  using events_text_empty [OF assms(3)] by (auto simp: close_xml_def close_events_def assms(1,2) lit_def)

lemma member_text:
  assumes "plain (m_type m)"
  shows "member_xml m = events_text (member_events m)"
proof -
  let ?as = "[(lit ''type'', m_type m), (lit ''ref'', py_str_int (m_ref m)), (lit ''role'', case m_role m of Some r \<Rightarrow> r | None \<Rightarrow> [])]"
  have head: "lit ''<member'' @ raw_attr ''type'' (m_type m) @ raw_attr ''ref'' (py_str_int (m_ref m)) @ lit '' role='' @
      quoteattr (case m_role m of Some r \<Rightarrow> r | None \<Rightarrow> []) @ X = [60] @ lit ''member'' @ attrs_text ?as @ X" for X
    using assms by (simp add: raw_attr_text) (simp add: lit_def)
  have geo: "concat (map nd_place g) = events_text (map (\<lambda>p. nd_event None (Some p)) g)" for g
    by (rule concat_events) (rule nd_text)
  have place: "raw_attr ''lat'' (repr_float (fst p)) @ raw_attr ''lon'' (repr_float (snd p)) @ X = attrs_text (place_attrs p) @ X" for p X
    by (simp add: raw_attr_text place_attrs_def)
  show ?thesis
    unfolding member_xml_def member_events_def Let_def append_assoc head geo place
    by (auto simp: lit_def)
qed

text \<open>No element has text of its own.\<close>

lemma no_text: "list_all (\<lambda>e. \<not> is_text e) (bounds_events el)" "list_all (\<lambda>e. \<not> is_text e) (center_events el)"
  "list_all (\<lambda>e. \<not> is_text e) (tag_events el)" "list_all (\<lambda>e. \<not> is_text e) (way_node_events el)"
  "list_all (\<lambda>e. \<not> is_text e) (member_events m)"
  by (auto simp: bounds_events_def center_events_def tag_events_def way_node_events_def member_events_def nd_event_def list_all_iff Let_def split: option.splits)

lemma element_text:
  assumes "element_ok el"
  shows "element_xml el = Inr (events_text (element_events el))"
proof -
  let ?ms = "case el_members el of Some ms \<Rightarrow> ms | None \<Rightarrow> []"
  have idt: "raw_attr ''id'' (py_str_int (el_id el)) = attrs_text [id_attr el]" by (simp add: raw_attr_text id_attr_def)
  have members: "concat (map member_xml ?ms) = events_text (concat (map member_events ?ms))"
    using assms by (intro concat_events2 member_text) (simp add: element_ok_def)
  have nt: "list_all (\<lambda>e. \<not> is_text e) (concat (map member_events ?ms))" using no_text(5) by (auto simp: list_all_iff)
  have node: "node_xml el = events_text (close_events ''node'' (id_attr el # opt_attr ''lat'' (map_option repr_float (el_lat el)) @
      opt_attr ''lon'' (map_option repr_float (el_lon el)) @ meta_events el) (tag_events el))"
    unfolding node_xml_def by (rule close_text) (simp_all add: idt xml_attr_text meta_text tags_text no_text id_attr_def, simp add: lit_def)
  have way: "way_xml el = Inr (events_text (close_events ''way'' (id_attr el # meta_events el)
      ((bounds_events el @ center_events el) @ way_node_events el @ tag_events el)))"
    unfolding way_xml_def way_nodes_text [OF assms] rbind_def sum.case
    by (rule arg_cong [where f = Inr], rule close_text) (simp_all add: idt meta_text bounds_text center_text tags_text no_text id_attr_def, simp add: lit_def)
  have relation: "relation_xml el = events_text (close_events ''relation'' (id_attr el # meta_events el)
      ((bounds_events el @ center_events el) @ concat (map member_events ?ms) @ tag_events el))"
    unfolding relation_xml_def
    by (rule close_text) (simp_all add: idt meta_text bounds_text center_text members tags_text no_text nt id_attr_def, simp add: lit_def)
  have area: "area_xml el = events_text (close_events ''area'' (id_attr el # meta_events el) (tag_events el))"
    unfolding area_xml_def by (rule close_text) (simp_all add: idt meta_text tags_text no_text id_attr_def, simp add: lit_def)
  have timeline: "timeline_xml el = events_text (XStart (lit ''timeline'') [id_attr el] # tag_events el @ [XEnd (lit ''timeline'')])"
    by (simp add: timeline_xml_def idt tags_text) (simp add: lit_def)
  have count: "lit ''<count>'' @ tags_xml el @ lit ''</count>'' = events_text (XStart (lit ''count'') [] # tag_events el @ [XEnd (lit ''count'')])"
    by (simp add: tags_text) (simp add: lit_def)
  show ?thesis
    unfolding element_xml_def element_events_def Let_def node way relation area timeline count by (simp only: if_distrib [of events_text] if_distrib [of Inr] events_text_simps(1))
qed

section \<open>Documents\<close>

fun well_nested :: "pystr list \<Rightarrow> xml_event list \<Rightarrow> bool" where
  "well_nested st [] = (st = [])"
| "well_nested st (XStart nm as # es) = well_nested (nm # st) es"
| "well_nested st (XEnd nm # es) = (st \<noteq> [] \<and> hd st = nm \<and> well_nested (tl st) es)"
| "well_nested st (XEmpty nm as # es) = well_nested st es"
| "well_nested st (XText t # es) = well_nested st es"

definition doc_events :: "element list \<Rightarrow> pystr option \<Rightarrow> pystr option \<Rightarrow> xml_event list" where
  "doc_events els ts remark =
     [XStart (lit ''osm'') [(lit ''version'', lit ''0.6''), (lit ''generator'', GENERATOR)],
      XStart (lit ''note'') [], XText COPYRIGHT, XEnd (lit ''note'')] @
     (case ts of Some (c # t) \<Rightarrow> [XEmpty (lit ''meta'') [(lit ''osm_base'', c # t)]] | _ \<Rightarrow> []) @
     concat (map element_events els) @
     (case remark of Some (c # t) \<Rightarrow> [XStart (lit ''remark'') [], XText (c # t), XEnd (lit ''remark'')] | _ \<Rightarrow> []) @
     [XEnd (lit ''osm'')]"

definition nested :: "xml_event list \<Rightarrow> bool" where
  "nested es \<longleftrightarrow> (\<forall>st r. well_nested st (es @ r) = well_nested st r)"

lemma nested_intros:
  "nested []" "nested es \<Longrightarrow> nested (XEmpty nm as # es)" "nested a \<Longrightarrow> nested b \<Longrightarrow> nested (a @ b)"
  "nested es \<Longrightarrow> nested (XStart nm as # es @ [XEnd nm])" "(\<And>x. x \<in> set xs \<Longrightarrow> nested (f x)) \<Longrightarrow> nested (concat (map f xs))"
proof -
  show "nested (concat (map f xs))" if "\<And>x. x \<in> set xs \<Longrightarrow> nested (f x)"
    using that by (induction xs) (auto simp: nested_def)
qed (simp_all add: nested_def)

lemma nested_flat: "(\<And>e. e \<in> set es \<Longrightarrow> \<exists>nm as. e = XEmpty nm as) \<Longrightarrow> nested es"
proof (induction es)
  case (Cons e es)
  have "\<exists>nm as. e = XEmpty nm as" by (rule Cons.prems) simp
  moreover have "nested es" using Cons by simp
  ultimately show ?case by (auto intro: nested_intros)
qed (rule nested_intros)

lemma nested_parts: "nested (tag_events el)" "nested (bounds_events el)" "nested (center_events el)" "nested (way_node_events el)" "nested (member_events m)"
proof -
  show "nested (tag_events el)" "nested (bounds_events el)" "nested (center_events el)" "nested (way_node_events el)"
    by (rule nested_flat; auto simp: tag_events_def bounds_events_def center_events_def way_node_events_def nd_event_def split: option.splits)+
  have "nested (map (\<lambda>p. nd_event None (Some p)) g)" for g by (rule nested_flat) (auto simp: nd_event_def)
  then show "nested (member_events m)" by (auto simp: member_events_def Let_def intro: nested_intros)
qed

lemma nested_close: "nested es \<Longrightarrow> nested (close_events nm as es)"
  by (auto simp: close_events_def intro: nested_intros)

lemma nested_element: "nested (element_events el)"
proof -
  have "nested (concat (map member_events ms))" for ms by (intro nested_intros nested_parts)
  then show ?thesis
    using nested_parts(1-4) by (auto simp: element_events_def Let_def intro!: nested_close nested_intros(1,3,4) simp del: append_assoc)
qed

text \<open>The names are fit for names.\<close>

lemma names_ok [simp]:
  "name_ok (lit ''osm'')" "name_ok (lit ''version'')" "name_ok (lit ''generator'')" "name_ok (lit ''note'')" "name_ok (lit ''meta'')"
  "name_ok (lit ''osm_base'')" "name_ok (lit ''remark'')" "name_ok (lit ''tag'')" "name_ok (lit ''k'')" "name_ok (lit ''v'')"
  "name_ok (lit ''bounds'')" "name_ok (lit ''minlat'')" "name_ok (lit ''minlon'')" "name_ok (lit ''maxlat'')" "name_ok (lit ''maxlon'')"
  "name_ok (lit ''center'')" "name_ok (lit ''lat'')" "name_ok (lit ''lon'')" "name_ok (lit ''nd'')" "name_ok (lit ''ref'')"
  "name_ok (lit ''member'')" "name_ok (lit ''type'')" "name_ok (lit ''role'')" "name_ok (lit ''id'')" "name_ok (lit ''timestamp'')"
  "name_ok (lit ''changeset'')" "name_ok (lit ''uid'')" "name_ok (lit ''user'')" "name_ok (lit ''visible'')" "name_ok (lit ''count'')"
  "name_ok (lit ''node'')" "name_ok (lit ''way'')" "name_ok (lit ''relation'')" "name_ok (lit ''area'')" "name_ok (lit ''timeline'')"
  by (simp_all add: name_ok_def lit_def)

definition tags_only :: "xml_event list \<Rightarrow> bool" where
  "tags_only es \<longleftrightarrow> list_all (\<lambda>e. event_ok e \<and> \<not> is_text e) es"

lemma tags_only_append [simp]: "tags_only [] = True" "tags_only (a @ b) \<longleftrightarrow> tags_only a \<and> tags_only b" "tags_only (e # es) \<longleftrightarrow> event_ok e \<and> \<not> is_text e \<and> tags_only es"
  by (auto simp: tags_only_def)

lemma events_ok_append: "tags_only a \<Longrightarrow> events_ok (a @ b) \<longleftrightarrow> events_ok b"
  by (induction a) auto

lemma opt_attr_ok [simp]: "name_ok (lit nm) \<Longrightarrow> list_all (name_ok \<circ> fst) (opt_attr nm v)"
  by (simp add: opt_attr_def split: option.splits)

lemma attrs_ok [simp]: "list_all (name_ok \<circ> fst) (meta_events el)" "list_all (name_ok \<circ> fst) (place_attrs p)" "name_ok (fst (id_attr el))"
  by (simp_all add: meta_events_def place_attrs_def id_attr_def)

lemma nd_event_ok [simp]: "event_ok (nd_event a b)" "\<not> is_text (nd_event a b)"
  by (simp_all add: nd_event_def split: option.splits)

lemma tags_only_map: "(\<And>x. x \<in> set xs \<Longrightarrow> event_ok (f x) \<and> \<not> is_text (f x)) \<Longrightarrow> tags_only (map f xs)"
  by (simp add: tags_only_def list_all_iff)

lemma tags_only_concat: "(\<And>x. x \<in> set xs \<Longrightarrow> tags_only (f x)) \<Longrightarrow> tags_only (concat (map f xs))"
  by (induction xs) simp_all

lemma tags_only_parts [simp]: "tags_only (tag_events el)" "tags_only (bounds_events el)" "tags_only (center_events el)" "tags_only (way_node_events el)"
  "tags_only (member_events m)"
proof -
  show "tags_only (tag_events el)" "tags_only (bounds_events el)" "tags_only (center_events el)"
    by (auto simp: tag_events_def bounds_events_def center_events_def split: option.splits intro: tags_only_map)
  show "tags_only (way_node_events el)" by (auto simp: way_node_events_def split: option.splits prod.splits intro!: tags_only_map)
  have "tags_only (map (\<lambda>p. nd_event None (Some p)) g)" for g by (rule tags_only_map) simp
  then show "tags_only (member_events m)" by (auto simp: member_events_def Let_def)
qed

lemma tags_only_close: "name_ok (lit nm) \<Longrightarrow> list_all (name_ok \<circ> fst) as \<Longrightarrow> tags_only es \<Longrightarrow> tags_only (close_events nm as es)"
  by (simp add: close_events_def)

lemma tags_only_element: "tags_only (element_events el)"
proof -
  have "tags_only (concat (map member_events ms))" for ms by (rule tags_only_concat) simp
  then show ?thesis by (auto simp: element_events_def Let_def intro!: tags_only_close)
qed

lemma doc_events_ok: "events_ok (doc_events els ts remark)"
proof -
  have els: "tags_only (concat (map element_events els))" by (intro tags_only_concat tags_only_element)
  show ?thesis unfolding doc_events_def
    by (auto simp: events_ok_append els COPYRIGHT_def split: option.splits list.splits)
qed

lemma doc_nested: "well_nested [] (doc_events els ts remark)"
proof -
  have "nested (concat (map element_events els))" by (intro nested_intros nested_element)
  then show ?thesis by (auto simp: doc_events_def nested_def split: option.splits list.splits)
qed

lemma render_text:
  assumes "\<forall>el\<in>set els. element_ok el" and "\<forall>t. ts = Some t \<longrightarrow> plain t"
  shows "render_xml element_xml els ts remark = Inr (lit ''<?xml version=\"1.0\" encoding=\"UTF-8\"?>'' @ events_text (doc_events els ts remark))"
proof -
  have els: "rmap element_xml els = Inr (map (events_text \<circ> element_events) els)"
    using assms(1) by (induction els) (simp_all add: element_text rbind_def)
  have cat: "concat (map (events_text \<circ> element_events) els) = events_text (concat (map element_events els))" by (induction els) simp_all
  have gen: "plain GENERATOR" "plain (lit ''0.6'')" by (simp_all add: plain_def GENERATOR_def lit_def)
  have esc: "xml_escape t = t" if "plain t" for t using that by (simp add: xml_escape_enc plain_enc)
  have head: "lit ''<osm version=\"0.6\" generator=\"'' @ xml_escape GENERATOR @ lit ''\">'' @ X =
      event_text (XStart (lit ''osm'') [(lit ''version'', lit ''0.6''), (lit ''generator'', GENERATOR)]) @ X" for X
    by (simp add: quoteattr_plain gen esc) (simp add: lit_def)
  have meta: "(case ts of Some (c # t) \<Rightarrow> lit ''<meta osm_base=\"'' @ xml_escape (c # t) @ lit ''\"/>'' | _ \<Rightarrow> []) =
      events_text (case ts of Some (c # t) \<Rightarrow> [XEmpty (lit ''meta'') [(lit ''osm_base'', c # t)]] | _ \<Rightarrow> [])"
    using assms(2) by (auto simp: quoteattr_plain esc split: option.splits list.splits) (simp add: lit_def)
  have note1: "lit ''<note>'' @ xml_escape COPYRIGHT @ lit ''</note>'' @ X = events_text [XStart (lit ''note'') [], XText COPYRIGHT, XEnd (lit ''note'')] @ X" for X
    by simp (simp add: lit_def)
  have rem: "(case remark of Some (c # t) \<Rightarrow> lit ''<remark>'' @ xml_escape (c # t) @ lit ''</remark>'' | _ \<Rightarrow> []) =
      events_text (case remark of Some (c # t) \<Rightarrow> [XStart (lit ''remark'') [], XText (c # t), XEnd (lit ''remark'')] | _ \<Rightarrow> [])"
    by (auto split: option.splits list.splits) (simp_all add: lit_def)
  have tail: "lit ''</osm>'' = events_text [XEnd (lit ''osm'')]" by simp (simp add: lit_def)
  show ?thesis unfolding render_xml_def els rbind_def sum.case cat head meta rem tail note1 doc_events_def by (simp del: event_text.simps)
qed

end
