(* ===== verification/Engine_Properties.thy ===== *)
theory Engine_Properties
  imports Tagsql Result_Correct
begin

text \<open>
  The properties of the engine's texts: the SQL of tag filters and the XML of an answer.
\<close>

text \<open>
  C39. The SQL of a list of tag filters: with a table prefix that has no quote, every string
  literal is closed, the values of the literals are exactly the keys and values of the filters in
  order (and the \<open>i\<close> flag), and the code around them depends only on the shape of the filters, not
  on their texts. So no key or value of a query reaches the database as code.
\<close>

theorem tag_filters_sql_safe:
  assumes "39 \<notin> set pre"
  shows "closed_sql (tag_filters_sql fs promoted_keys pre) \<and>
    literals (tag_filters_sql fs promoted_keys pre) = concat (map (filter_texts promoted_keys) fs) \<and>
    (\<forall>fs'. list_all2 (same_filter_shape promoted_keys) fs fs' \<longrightarrow>
      skeleton (tag_filters_sql fs promoted_keys pre) = skeleton (tag_filters_sql fs' promoted_keys pre))"
proof -
  let ?t = "filter_toks promoted_keys pre"
  have un: "\<forall>f\<in>set fs. Unterminated \<notin> set (?t f)" using filter_toks_texts(2) by blast
  have "closed_sql (tag_filters_sql fs promoted_keys pre)"
    using join_toks_props(2) [OF un] by (auto simp: closed_sql_def lex_filters [OF assms] filters_toks_def)
  moreover have "literals (tag_filters_sql fs promoted_keys pre) = concat (map (filter_texts promoted_keys) fs)"
    by (auto simp: literals_def tok_literals_def [symmetric] lex_filters [OF assms] filters_toks_def join_toks_props(1) filter_toks_texts(1))
  moreover have "skeleton (tag_filters_sql fs promoted_keys pre) = skeleton (tag_filters_sql fs' promoted_keys pre)"
    if "list_all2 (same_filter_shape promoted_keys) fs fs'" for fs'
  proof -
    have "list_all2 (\<lambda>f f'. map blank_literal (?t f) = map blank_literal (?t f')) fs fs'"
      using that by (rule list_all2_mono) (rule filter_toks_shape)
    then show ?thesis using join_toks_props(3) that by (auto simp: skeleton_def lex_filters [OF assms] filters_toks_def)
  qed
  ultimately show ?thesis by blast
qed

text \<open>A value that tries to leave its literal stays inside it.\<close>

theorem tag_filters_sql_safe_witness:
  "literals (tag_filters_sql [(lit ''highway'', OpEq, Some (39 # lit '' OR TRUE --''), False, False)] {lit ''highway''} []) = [39 # lit '' OR TRUE --'']"
proof -
  have "is_promotable_ident (lit ''highway'')" by (simp add: is_promotable_ident_def lit_def)
  then show ?thesis
    using tag_filters_sql_safe [of "[]" "[(lit ''highway'', OpEq, Some (39 # lit '' OR TRUE --''), False, False)]" "{lit ''highway''}"]
    by (simp add: ref_texts_def value_or_blank_def)
qed

text \<open>
  C40. The XML of an answer: the document is written, a reader gets back exactly the events of the
  elements with the attributes, tags, members, vertices and remark they hold, and its elements are
  properly nested. Texts of tags, roles, users and the remark are arbitrary. It assumes that the
  timestamp and the member types need no quoting, as \<open>result.py\<close> writes them raw, and that a way
  without a node list has no vertex left out.
\<close>

theorem render_xml_roundtrip:
  assumes "\<forall>el\<in>set els. element_ok el" and "\<forall>t. ts = Some t \<longrightarrow> plain t"
  shows "\<exists>d. render_xml element_xml els ts remark = Inr (lit ''<?xml version=\"1.0\" encoding=\"UTF-8\"?>'' @ d) \<and>
    read_xml d = Some (doc_events els ts remark) \<and> well_nested [] (doc_events els ts remark)"
  using render_text [OF assms] read_events [OF doc_events_ok] doc_nested by blast

theorem render_xml_roundtrip_witness:
  "\<exists>d. render_xml element_xml [\<lparr>el_type = lit ''way'', el_id = 7, el_lat = None, el_lon = None, el_version = Some 2, el_timestamp = None,
       el_changeset = None, el_uid = None, el_user = Some (lit ''a<b>''), el_visible = None, el_tags = Some [(lit ''name'', [34, 39, 38, 10])],
       el_bounds = None, el_center = None, el_nodes = Some [1, 2], el_geometry = None, el_members = None\<rparr>] (Some (lit ''2024'')) None =
       Inr (lit ''<?xml version=\"1.0\" encoding=\"UTF-8\"?>'' @ d) \<and>
     (\<exists>a b c. read_xml d = Some (a @ [XStart (lit ''way'') b, XEmpty (lit ''nd'') [(lit ''ref'', py_str_int 1)], XEmpty (lit ''nd'') [(lit ''ref'', py_str_int 2)],
       XEmpty (lit ''tag'') [(lit ''k'', lit ''name''), (lit ''v'', [34, 39, 38, 10])]] @ c))"
    (is "\<exists>d. render_xml element_xml [?el] ?ts None = Inr (?p @ d) \<and> ?Q d")
proof -
  have "element_ok ?el" by (simp add: element_ok_def)
  moreover have "plain (lit ''2024'')" by (simp add: plain_def lit_def)
  ultimately obtain d where d: "render_xml element_xml [?el] ?ts None = Inr (?p @ d)" "read_xml d = Some (doc_events [?el] ?ts None)"
    using render_xml_roundtrip [of "[?el]" ?ts None] by auto
  have "element_events ?el = [XStart (lit ''way'') (id_attr ?el # meta_events ?el), XEmpty (lit ''nd'') [(lit ''ref'', py_str_int 1)],
      XEmpty (lit ''nd'') [(lit ''ref'', py_str_int 2)], XEmpty (lit ''tag'') [(lit ''k'', lit ''name''), (lit ''v'', [34, 39, 38, 10])], XEnd (lit ''way'')]"
    by (simp add: element_events_def Let_def close_events_def bounds_events_def center_events_def way_node_events_def tag_events_def nd_event_def opt_attr_def
        lit_def)
  then have "doc_events [?el] ?ts None = take 5 (doc_events [?el] ?ts None) @ [XStart (lit ''way'') (id_attr ?el # meta_events ?el),
      XEmpty (lit ''nd'') [(lit ''ref'', py_str_int 1)], XEmpty (lit ''nd'') [(lit ''ref'', py_str_int 2)],
      XEmpty (lit ''tag'') [(lit ''k'', lit ''name''), (lit ''v'', [34, 39, 38, 10])]] @ drop 9 (doc_events [?el] ?ts None)"
    by (simp add: doc_events_def) (simp add: lit_def)
  then have "?Q d" unfolding d(2) by blast
  then show ?thesis using d(1) by blast
qed

end
