(* ===== verification/Render.thy ===== *)
theory Render
  imports Result Tiers Cells
begin

text \<open>
  \<^verbatim>\<open>src/src/osmpq/engine/render.py\<close>: the rows of a set as the elements of an answer. A set is the list of
  its rows; \<open>ORDER BY\<close> is a stable sort, which decides the order of rows that tie where the
  database may choose any. The vertices of member ways and the places of member nodes, which the code
  reads from the spatial files, are arguments of \<open>row_to_element\<close>, and the geometry text of a way row
  is the one after \<open>hydrate_way_geometry\<close>. Node coordinates are not null. Geometry texts come from \<open>ST_AsText\<close> and
  are ASCII.
\<close>

section \<open>Numbers, timestamps and geometry texts\<close>

text \<open>\<open>round(x, 7)\<close>: the double next to the nearest decimal with seven places, ties to even.\<close>

fun py_round7 :: "pyfloat \<Rightarrow> pyfloat" where
  "py_round7 (Fin x) = Fin (fl (of_int (rne (x * 10000000)) / 10000000))"
| "py_round7 x = x"

definition e7 :: "int \<Rightarrow> pyfloat" where
  "e7 v = py_round7 (Fin (e7_deg v))"

definition pad2 :: "nat \<Rightarrow> pystr" where
  "pad2 n = (if n < 10 then 48 # py_str_nat n else py_str_nat n)"

definition format_timestamp :: "datetime \<Rightarrow> pystr" where
  "format_timestamp ts = (case ts of (y, mo, d, h, mi, s) \<Rightarrow>
     py_str_nat y @ lit ''-'' @ pad2 mo @ lit ''-'' @ pad2 d @ lit ''T'' @ pad2 h @ lit '':'' @ pad2 mi @ lit '':'' @ pad2 s @ lit ''Z'')"

fun split_sep :: "nat \<Rightarrow> pystr \<Rightarrow> pystr \<Rightarrow> pystr list" where
  "split_sep c [] acc = [rev acc]"
| "split_sep c (x # xs) acc = (if x = c then rev acc # split_sep c xs [] else split_sep c xs (x # acc))"

definition upper :: "nat \<Rightarrow> nat" where
  "upper c = (if 97 \<le> c \<and> c \<le> 122 then c - 32 else c)"

definition index_of :: "nat \<Rightarrow> pystr \<Rightarrow> nat result" where
  "index_of c s = (if c \<in> set s then Inr (length (takeWhile (\<lambda>x. x \<noteq> c) s)) else Inl ValueError)"

definition rindex_of :: "nat \<Rightarrow> pystr \<Rightarrow> nat result" where
  "rindex_of c s = (if c \<in> set s then Inr (length s - 1 - length (takeWhile (\<lambda>x. x \<noteq> c) (rev s))) else Inl ValueError)"

definition wkt_point :: "unicode_db \<Rightarrow> pystr \<Rightarrow> (pyfloat \<times> pyfloat) result" where
  "wkt_point u pair = (case py_split u pair [] of
     [lon_s, lat_s] \<Rightarrow> rbind (float_of_text u lon_s) (\<lambda>lon. rbind (float_of_text u lat_s) (\<lambda>lat. Inr (lon, lat)))
   | _ \<Rightarrow> Inl ValueError)"

definition parse_linestring_wkt :: "unicode_db \<Rightarrow> pystr option \<Rightarrow> (pyfloat \<times> pyfloat) list option result" where
  "parse_linestring_wkt u wkt = (case wkt of
     Some (c # cs) \<Rightarrow>
       (let inner = py_strip u (c # cs)
        in rbind (if take 10 (map upper inner) = lit ''LINESTRING''
                  then rbind (index_of 40 inner) (\<lambda>i. rbind (rindex_of 41 inner) (\<lambda>j. Inr (drop (i + 1) (take j inner))))
                  else Inr inner)
             (\<lambda>inner. rbind (rmap (wkt_point u) (filter (\<lambda>pair. pair \<noteq> []) (map (py_strip u) (split_sep 44 inner []))))
                (\<lambda>pts. Inr (Some pts))))
   | _ \<Rightarrow> Inr None)"

section \<open>Rows\<close>

record row_member =
  rm_type :: pystr
  rm_ref :: int
  rm_role :: "pystr option"

record out_row =
  r_type :: pystr
  r_id :: int
  r_lat_e7 :: int
  r_lon_e7 :: int
  r_refs :: "int list option"
  r_members :: "row_member list option"
  r_tags :: "(pystr \<times> pystr) list option"
  r_version :: "int option"
  r_changeset :: "int option"
  r_timestamp :: "datetime option"
  r_uid :: "int option"
  r_user :: "pystr option"
  r_bbox_e7 :: "int option \<times> int option \<times> int option \<times> int option"
  r_geometry_wkt :: "pystr option"
  r_hilbert :: "nat option"

definition bounds_dict :: "out_row \<Rightarrow> (pyfloat \<times> pyfloat \<times> pyfloat \<times> pyfloat) option" where
  "bounds_dict row = (case r_bbox_e7 row of
     (Some xmin, Some ymin, Some xmax, Some ymax) \<Rightarrow> Some (e7 ymin, e7 xmin, e7 ymax, e7 xmax)
   | _ \<Rightarrow> None)"

definition e7_middle :: "int \<Rightarrow> int \<Rightarrow> pyfloat" where
  "e7_middle lo hi = py_round7 (Fin (fdiv (fdiv (fl (of_int (lo + hi))) 2) 10000000))"

definition center_dict :: "out_row \<Rightarrow> (pyfloat \<times> pyfloat) option" where
  "center_dict row = (case r_bbox_e7 row of
     (Some xmin, Some ymin, Some xmax, Some ymax) \<Rightarrow> Some (e7_middle ymin ymax, e7_middle xmin xmax)
   | _ \<Rightarrow> None)"

section \<open>Order and limit\<close>

definition type_rank :: "pystr \<Rightarrow> nat" where
  "type_rank t = (if t = lit ''node'' then 0 else if t = lit ''way'' then 1 else 2)"

definition order_asc :: "out_row \<Rightarrow> nat \<times> int" where
  "order_asc r = (type_rank (r_type r), r_id r)"

definition order_qt :: "out_row \<Rightarrow> (bool \<times> nat) \<times> int" where
  "order_qt r = (nulls_last 0 (r_hilbert r), r_id r)"

definition order_rows :: "out_order \<Rightarrow> out_row list \<Rightarrow> out_row list" where
  "order_rows ord rows = (case ord of OAsc \<Rightarrow> sort_key order_asc rows | OQt \<Rightarrow> sort_key order_qt rows)"

definition fetch_out_rows :: "out_row list \<Rightarrow> out_order \<Rightarrow> int option \<Rightarrow> out_row list" where
  "fetch_out_rows rows ord limit =
     (case limit of None \<Rightarrow> order_rows ord rows | Some n \<Rightarrow> take (nat n) (order_rows ord rows))"

definition count_type :: "string \<Rightarrow> out_row list \<Rightarrow> nat" where
  "count_type t rows = length (filter (\<lambda>r. r_type r = lit t) rows)"

text \<open>Nodes, ways, relations, areas and all rows.\<close>

definition fetch_counts :: "out_row list \<Rightarrow> nat \<times> nat \<times> nat \<times> nat \<times> nat" where
  "fetch_counts rows =
     (let nodes = count_type ''node'' rows; ways = count_type ''way'' rows;
          relations = count_type ''relation'' rows; areas = count_type ''area'' rows;
          other_total = length (filter (\<lambda>r. r_type r \<notin> lit ` {''node'', ''way'', ''relation'', ''area''}) rows)
      in (nodes, ways, relations, areas, nodes + ways + relations + areas + other_total))"

section \<open>Clipping\<close>

fun point_in_bbox :: "pyfloat \<times> pyfloat \<Rightarrow> bbox4 \<Rightarrow> bool" where
  "point_in_bbox (lon, lat) (s, w, n, e) \<longleftrightarrow> float_le s lat \<and> float_le lat n \<and> float_le w lon \<and> float_le lon e"

definition clip_way_geometry :: "(pyfloat \<times> pyfloat) list \<Rightarrow> bbox4 \<Rightarrow> (pyfloat \<times> pyfloat) option list" where
  "clip_way_geometry pts bbox =
     (let n = length pts; inside = map (\<lambda>p. point_in_bbox p bbox) pts
      in map (\<lambda>i. if inside ! i \<or> (0 < i \<and> inside ! (i - 1)) \<or> (i < n - 1 \<and> inside ! (i + 1)) then Some (pts ! i) else None) [0..<n])"

fun py_min :: "pyfloat list \<Rightarrow> pyfloat" where
  "py_min (x # xs) = foldl (\<lambda>m x. if float_lt x m then x else m) x xs"

fun py_max :: "pyfloat list \<Rightarrow> pyfloat" where
  "py_max (x # xs) = foldl (\<lambda>m x. if float_lt m x then x else m) x xs"

definition clipped_bounds :: "(pyfloat \<times> pyfloat) option list \<Rightarrow> (pyfloat \<times> pyfloat \<times> pyfloat \<times> pyfloat) option" where
  "clipped_bounds points =
     (let kept = List.map_filter id points; lons = map fst kept; lats = map snd kept
      in if kept = [] then None
         else Some (py_round7 (py_min lats), py_round7 (py_min lons), py_round7 (py_max lats), py_round7 (py_max lons)))"

definition round_point :: "pyfloat \<times> pyfloat \<Rightarrow> pyfloat \<times> pyfloat" where
  "round_point p = (py_round7 (snd p), py_round7 (fst p))"

definition geometry_points_to_json :: "(pyfloat \<times> pyfloat) option list \<Rightarrow> (pyfloat \<times> pyfloat) option list" where
  "geometry_points_to_json points = map (map_option round_point) points"

section \<open>Elements\<close>

definition member_type_name :: "pystr \<Rightarrow> pystr" where
  "member_type_name t = (if t = lit ''n'' then lit ''node'' else if t = lit ''w'' then lit ''way'' else if t = lit ''r'' then lit ''relation'' else t)"

definition member_element :: "out_spec \<Rightarrow> (int \<Rightarrow> (int \<times> int) option) \<Rightarrow> (int \<Rightarrow> (pyfloat \<times> pyfloat) list option) \<Rightarrow> row_member \<Rightarrow> member_el" where
  "member_element out node_coords way_geoms m =
     (let md = \<lparr>m_type = member_type_name (rm_type m), m_ref = rm_ref m,
                m_role = Some (case rm_role m of Some r \<Rightarrow> r | None \<Rightarrow> []), m_place = None, m_geometry = None\<rparr>
      in if o_geometry out \<noteq> GGeom then md
         else if rm_type m = lit ''n'' \<and> node_coords (rm_ref m) \<noteq> None
         then (case node_coords (rm_ref m) of Some (lat_e7, lon_e7) \<Rightarrow> md\<lparr>m_place := Some (e7 lat_e7, e7 lon_e7)\<rparr> | None \<Rightarrow> md)
         else if rm_type m = lit ''w''
         then (case way_geoms (rm_ref m) of
                 None \<Rightarrow> md
               | Some pts \<Rightarrow>
                   (let member_pts = (case o_geom_bbox out of None \<Rightarrow> pts | Some b \<Rightarrow> List.map_filter id (clip_way_geometry pts b))
                    in md\<lparr>m_geometry := Some (map round_point member_pts)\<rparr>))
         else md)"

definition bare_element :: "pystr \<Rightarrow> int \<Rightarrow> element" where
  "bare_element t i = \<lparr>el_type = t, el_id = i, el_lat = None, el_lon = None, el_version = None, el_timestamp = None, el_changeset = None,
     el_uid = None, el_user = None, el_visible = None, el_tags = None, el_bounds = None, el_center = None, el_nodes = None,
     el_geometry = None, el_members = None\<rparr>"

definition shows_shape :: "out_spec \<Rightarrow> bool" where
  "shows_shape out \<longleftrightarrow> o_verbosity out \<noteq> VIds \<and> o_verbosity out \<noteq> VTags"

definition node_part :: "out_row \<Rightarrow> out_spec \<Rightarrow> element \<Rightarrow> element" where
  "node_part row out el =
     (if shows_shape out then el\<lparr>el_lat := Some (e7 (r_lat_e7 row)), el_lon := Some (e7 (r_lon_e7 row))\<rparr> else el)"

definition with_center :: "out_row \<Rightarrow> out_spec \<Rightarrow> element \<Rightarrow> element" where
  "with_center row out el = (if o_geometry out = GCenter then el\<lparr>el_center := center_dict row\<rparr> else el)"

definition way_part :: "unicode_db \<Rightarrow> out_row \<Rightarrow> out_spec \<Rightarrow> element \<Rightarrow> element result" where
  "way_part u row out el =
     rbind (if o_geometry out = GGeom then parse_linestring_wkt u (r_geometry_wkt row) else Inr None) (\<lambda>pts.
     (let clipped = (case (pts, o_geom_bbox out) of (Some ps, Some b) \<Rightarrow> Some (clip_way_geometry ps b) | _ \<Rightarrow> None);
          el = (if o_geometry out = GBb \<or> o_geometry out = GGeom
                then el\<lparr>el_bounds := (case clipped of Some c \<Rightarrow> clipped_bounds c | None \<Rightarrow> bounds_dict row)\<rparr> else el);
          el = (if shows_shape out \<and> \<not> o_noids out then el\<lparr>el_nodes := Some (case r_refs row of Some rs \<Rightarrow> rs | None \<Rightarrow> [])\<rparr> else el);
          el = (case pts of
                  Some ps \<Rightarrow> el\<lparr>el_geometry := Some (geometry_points_to_json (case clipped of Some c \<Rightarrow> c | None \<Rightarrow> map Some ps))\<rparr>
                | None \<Rightarrow> el)
      in Inr (with_center row out el)))"

definition relation_part :: "(int \<Rightarrow> (int \<times> int) option) \<Rightarrow> (int \<Rightarrow> (pyfloat \<times> pyfloat) list option) \<Rightarrow> out_row \<Rightarrow> out_spec \<Rightarrow> element \<Rightarrow> element" where
  "relation_part node_coords way_geoms row out el =
     (let el = (if o_geometry out = GBb \<or> o_geometry out = GGeom then el\<lparr>el_bounds := bounds_dict row\<rparr> else el);
          el = (if shows_shape out
                then el\<lparr>el_members := Some (map (member_element out node_coords way_geoms) (case r_members row of Some ms \<Rightarrow> ms | None \<Rightarrow> []))\<rparr> else el)
      in with_center row out el)"

definition meta_part :: "out_row \<Rightarrow> out_spec \<Rightarrow> element \<Rightarrow> element" where
  "meta_part row out el =
     (if o_verbosity out = VMeta
      then el\<lparr>el_timestamp := map_option format_timestamp (r_timestamp row), el_version := r_version row, el_changeset := r_changeset row,
              el_user := r_user row, el_uid := r_uid row\<rparr>
      else el)"

definition tags_part :: "out_row \<Rightarrow> out_spec \<Rightarrow> element \<Rightarrow> element" where
  "tags_part row out el =
     (if o_verbosity out \<in> {VBody, VTags, VMeta}
      then (case r_tags row of Some (kv # kvs) \<Rightarrow> el\<lparr>el_tags := Some (kv # kvs)\<rparr> | _ \<Rightarrow> el) else el)"

definition row_to_element ::
  "unicode_db \<Rightarrow> (int \<Rightarrow> (int \<times> int) option) \<Rightarrow> (int \<Rightarrow> (pyfloat \<times> pyfloat) list option) \<Rightarrow> out_spec \<Rightarrow> out_row \<Rightarrow> element result" where
  "row_to_element u node_coords way_geoms out row =
     (let t = r_type row; el = bare_element t (r_id row)
      in rbind (if t = lit ''node'' then Inr (node_part row out el)
                else if t = lit ''way'' then way_part u row out el
                else if t = lit ''relation'' then Inr (relation_part node_coords way_geoms row out el)
                else Inr el)
           (\<lambda>el. Inr (tags_part row out (meta_part row out el))))"

definition count_element :: "bool \<Rightarrow> nat \<times> nat \<times> nat \<times> nat \<times> nat \<Rightarrow> element" where
  "count_element include_areas counts = (case counts of (nodes, ways, relations, areas, sum_total) \<Rightarrow>
     (bare_element (lit ''count'') 0)\<lparr>el_tags := Some
        ([(lit ''nodes'', py_str_nat nodes), (lit ''ways'', py_str_nat ways), (lit ''relations'', py_str_nat relations)] @
         (if include_areas \<or> areas \<noteq> 0 then [(lit ''areas'', py_str_nat areas)] else []) @
         [(lit ''total'', py_str_nat sum_total)])\<rparr>)"

text \<open>The versions are a dict: a later row of the same type and id overwrites.\<close>

definition row_versions :: "out_row list \<Rightarrow> pystr \<times> int \<Rightarrow> int option" where
  "row_versions rows key = (case map_of (rev (map (\<lambda>r. ((r_type r, r_id r), r_version r)) rows)) key of Some v \<Rightarrow> v | None \<Rightarrow> None)"

definition build_elements ::
  "unicode_db \<Rightarrow> (int \<Rightarrow> (int \<times> int) option) \<Rightarrow> (int \<Rightarrow> (pyfloat \<times> pyfloat) list option) \<Rightarrow> out_row list \<Rightarrow> out_spec \<Rightarrow> bool \<Rightarrow>
   (element list \<times> (pystr \<times> int \<Rightarrow> int option)) result" where
  "build_elements u node_coords way_geoms target_set out include_areas_count =
     (if o_count out then Inr ([count_element include_areas_count (fetch_counts target_set)], (\<lambda>_. None))
      else let rows = fetch_out_rows target_set (o_order out) (o_limit out)
           in rbind (rmap (row_to_element u node_coords way_geoms out) rows) (\<lambda>els. Inr (els, row_versions rows)))"

end
