(* ===== verification/Render_Correct.thy ===== *)
theory Render_Correct
  imports Render Result_Correct Cells_Grid "HOL-Library.Multiset"
begin

text \<open>
  The elements of an answer: which vertices clipping keeps, that a coordinate is printed as the decimal
  it was stored as, the order and number of the rows, and when the XML of the elements can be written.
\<close>

section \<open>Coordinates\<close>

lemma rne_near: "\<bar>x - of_int n\<bar> < 1 / 2 \<Longrightarrow> rne x = n"
proof -
  assume a: "\<bar>x - of_int n\<bar> < 1 / 2"
  have "\<bar>of_int (rne x) - x\<bar> \<le> 1 / 2" by (rule rne_error)
  with a have "\<bar>of_int (rne x) - of_int n :: rat\<bar> < 1" by linarith
  then have "\<bar>of_int (rne x - n) :: rat\<bar> < 1" by simp
  then have "\<bar>rne x - n\<bar> < 1" by (simp only: of_int_abs [symmetric] of_int_less_1_iff)
  then show ?thesis by simp
qed

text \<open>Rounding to seven places gives the double next to the stored decimal, which determines the stored integer.\<close>

lemma e7_nearest:
  assumes "int32 v"
  shows "e7 v = Fin (fl (of_int v / 10000000))" and "rne (fl (of_int v / 10000000) * 10000000) = v"
proof -
  have "\<bar>e7_deg v - of_int v / 10000000\<bar> \<le> 1 / 70368744177664" using e7_deg_error(1) [OF assms] .
  then have "\<bar>e7_deg v * 10000000 - of_int v\<bar> < 1 / 2" by linarith
  then have r: "rne (e7_deg v * 10000000) = v" by (rule rne_near)
  show "e7 v = Fin (fl (of_int v / 10000000))" by (simp add: e7_def r)
  show "rne (fl (of_int v / 10000000) * 10000000) = v" using r by (simp add: e7_deg_eq [OF assms])
qed

section \<open>Order\<close>

text \<open>
  The order of the rows that \<open>out\<close> prints. \<open>asc\<close>: nodes, then ways, then all others, each by id; \<open>qt\<close>: along the
  curve, rows without a place on it last, and by id.
\<close>

fun out_before :: "out_order \<Rightarrow> out_row \<Rightarrow> out_row \<Rightarrow> bool" where
  "out_before OAsc r s \<longleftrightarrow>
     (if r_type r = r_type s then r_id r \<le> r_id s
      else if r_type r = lit ''node'' then True else if r_type s = lit ''node'' then False
      else if r_type r = lit ''way'' then True else if r_type s = lit ''way'' then False else r_id r \<le> r_id s)"
| "out_before OQt r s \<longleftrightarrow> (case (r_hilbert r, r_hilbert s) of
     (Some a, Some b) \<Rightarrow> a < b \<or> a = b \<and> r_id r \<le> r_id s | (Some _, None) \<Rightarrow> True | (None, Some _) \<Rightarrow> False | (None, None) \<Rightarrow> r_id r \<le> r_id s)"

text \<open>The rows shown are the first of all rows in this order, as many as the limit allows.\<close>

definition shown_rows :: "out_order \<Rightarrow> int option \<Rightarrow> out_row list \<Rightarrow> out_row list \<Rightarrow> bool" where
  "shown_rows ord limit rows shown \<longleftrightarrow> (\<exists>rest. mset (shown @ rest) = mset rows \<and> sorted_wrt (out_before ord) (shown @ rest) \<and>
     length shown = (case limit of None \<Rightarrow> length rows | Some n \<Rightarrow> min (nat n) (length rows)))"

lemma order_rows_sorted: "sorted_wrt (out_before ord) (order_rows ord rows)"
proof (cases ord)
  case OAsc
  have neq: "lit ''node'' \<noteq> lit ''way''" by (simp add: lit_def)
  have "sorted_wrt (\<lambda>r s. order_asc r \<le> order_asc s) (sort_key order_asc rows)" using sorted_sort_key [of order_asc rows] by (simp add: sorted_map)
  then show ?thesis unfolding OAsc order_rows_def out_order.case
    by (rule sorted_wrt_mono_rel [rotated]) (use neq in \<open>auto simp: order_asc_def type_rank_def less_eq_prod_def split: if_splits\<close>)
next
  case OQt
  have "sorted_wrt (\<lambda>r s. order_qt r \<le> order_qt s) (sort_key order_qt rows)" using sorted_sort_key [of order_qt rows] by (simp add: sorted_map)
  then show ?thesis unfolding OQt order_rows_def out_order.case
    by (rule sorted_wrt_mono_rel [rotated]) (auto simp: order_qt_def nulls_last_def less_eq_prod_def less_prod_def split: option.splits)
qed

lemma fetch_out_rows_shown: "shown_rows ord limit rows (fetch_out_rows rows ord limit)"
proof -
  have all: "mset (order_rows ord rows) = mset rows" by (simp add: order_rows_def split: out_order.split)
  then have len: "length (order_rows ord rows) = length rows" by (rule mset_eq_length)
  define k where "k = (case limit of None \<Rightarrow> length rows | Some n \<Rightarrow> min (nat n) (length rows))"
  have "fetch_out_rows rows ord limit = take k (order_rows ord rows)" using len by (cases limit) (auto simp: fetch_out_rows_def k_def min_def)
  moreover have "length (take k (order_rows ord rows)) = k" using len by (auto simp: k_def split: option.splits)
  ultimately show ?thesis unfolding shown_rows_def k_def [symmetric] using order_rows_sorted all
    by (intro exI [of _ "drop k (order_rows ord rows)"]) simp
qed

lemma fetch_counts_total: "fetch_counts rows = (n, w, r, a, t) \<Longrightarrow> t = length rows"
proof -
  have "count_type ''node'' rows + count_type ''way'' rows + count_type ''relation'' rows + count_type ''area'' rows +
      length (filter (\<lambda>r. r_type r \<notin> lit ` {''node'', ''way'', ''relation'', ''area''}) rows) = length rows"
    by (induction rows) (auto simp: count_type_def)
  then show "fetch_counts rows = (n, w, r, a, t) \<Longrightarrow> t = length rows" by (simp add: fetch_counts_def Let_def)
qed

section \<open>Clipping\<close>

text \<open>A vertex that is inside the box or next to one that is.\<close>

definition near_bbox :: "(pyfloat \<times> pyfloat) list \<Rightarrow> bbox4 \<Rightarrow> nat \<Rightarrow> bool" where
  "near_bbox pts b i \<longleftrightarrow> (\<exists>j<length pts. (j = i \<or> j + 1 = i \<or> j = i + 1) \<and> point_in_bbox (pts ! j) b)"

lemma clip_length [simp]: "length (clip_way_geometry pts b) = length pts"
  by (simp add: clip_way_geometry_def Let_def)

lemma clip_nth:
  assumes "i < length pts"
  shows "clip_way_geometry pts b ! i = (if near_bbox pts b i then Some (pts ! i) else None)"
proof -
  have "near_bbox pts b i \<longleftrightarrow> point_in_bbox (pts ! i) b \<or> (0 < i \<and> point_in_bbox (pts ! (i - 1)) b) \<or> (i < length pts - 1 \<and> point_in_bbox (pts ! (i + 1)) b)"
  proof
    assume "near_bbox pts b i"
    then obtain j where "j < length pts" "j = i \<or> j + 1 = i \<or> j = i + 1" "point_in_bbox (pts ! j) b" by (auto simp: near_bbox_def)
    then show "point_in_bbox (pts ! i) b \<or> (0 < i \<and> point_in_bbox (pts ! (i - 1)) b) \<or> (i < length pts - 1 \<and> point_in_bbox (pts ! (i + 1)) b)"
      by auto
  next
    assume a: "point_in_bbox (pts ! i) b \<or> (0 < i \<and> point_in_bbox (pts ! (i - 1)) b) \<or> (i < length pts - 1 \<and> point_in_bbox (pts ! (i + 1)) b)"
    have "near_bbox pts b i" if "point_in_bbox (pts ! j) b" "j < length pts" "j = i \<or> j + 1 = i \<or> j = i + 1" for j
      using that by (auto simp: near_bbox_def)
    from this [of i] this [of "i - 1"] this [of "i + 1"] a assms show "near_bbox pts b i" by auto
  qed
  moreover have "i < length pts - 1 \<Longrightarrow> map (\<lambda>p. point_in_bbox p b) pts ! (i + 1) = point_in_bbox (pts ! (i + 1)) b" by (simp add: less_diff_conv)
  ultimately show ?thesis using assms by (auto simp: clip_way_geometry_def Let_def)
qed

lemma clip_drops: "None \<in> set (clip_way_geometry pts b) \<longleftrightarrow> (\<exists>i<length pts. \<not> near_bbox pts b i)"
  by (auto simp: in_set_conv_nth clip_nth)

section \<open>Elements that XML can hold\<close>

definition hides_nodes :: "out_spec \<Rightarrow> bool" where
  "hides_nodes out \<longleftrightarrow> \<not> shows_shape out \<or> o_noids out"

text \<open>A way of which clipping leaves out a vertex.\<close>

definition loses_vertex :: "unicode_db \<Rightarrow> out_spec \<Rightarrow> out_row \<Rightarrow> bool" where
  "loses_vertex u out row \<longleftrightarrow> r_type row = lit ''way'' \<and> o_geometry out = GGeom \<and>
     (\<exists>b pts. o_geom_bbox out = Some b \<and> parse_linestring_wkt u (r_geometry_wkt row) = Inr (Some pts) \<and> (\<exists>i<length pts. \<not> near_bbox pts b i))"

lemma later_parts [simp]:
  "el_nodes (tags_part row out el) = el_nodes el" "el_nodes (meta_part row out el) = el_nodes el"
  "el_geometry (tags_part row out el) = el_geometry el" "el_geometry (meta_part row out el) = el_geometry el"
  "el_members (tags_part row out el) = el_members el" "el_members (meta_part row out el) = el_members el"
  "el_type (tags_part row out el) = el_type el" "el_type (meta_part row out el) = el_type el"
  "el_id (tags_part row out el) = el_id el" "el_id (meta_part row out el) = el_id el"
  "el_nodes (with_center row out el) = el_nodes el" "el_geometry (with_center row out el) = el_geometry el"
  "el_members (with_center row out el) = el_members el" "el_type (with_center row out el) = el_type el"
  "el_id (with_center row out el) = el_id el"
  by (simp_all add: tags_part_def meta_part_def with_center_def split: option.split list.split)

lemma way_part_fields:
  assumes "way_part u row out el = Inr el'" and "el_nodes el = None" "el_geometry el = None" "el_members el = None"
  shows "el_type el' = el_type el" "el_id el' = el_id el" "el_members el' = None" "el_nodes el' = None \<longleftrightarrow> hides_nodes out"
    and "r_type row = lit ''way'' \<Longrightarrow> None \<in> set (case el_geometry el' of Some g \<Rightarrow> g | None \<Rightarrow> []) \<longleftrightarrow> loses_vertex u out row"
proof -
  obtain pts where pts: "(if o_geometry out = GGeom then parse_linestring_wkt u (r_geometry_wkt row) else Inr None) = Inr pts"
    using assms(1) by (auto simp: way_part_def rbind_eq_Inr)
  note def = assms(1) [unfolded way_part_def pts rbind_simps Let_def, simplified, symmetric]
  show "el_type el' = el_type el" "el_id el' = el_id el" "el_members el' = None"
    using assms(4) by (auto simp: def split: option.split)
  show "el_nodes el' = None \<longleftrightarrow> hides_nodes out" using assms(2) by (auto simp: def hides_nodes_def split: option.split)
  show "None \<in> set (case el_geometry el' of Some g \<Rightarrow> g | None \<Rightarrow> []) \<longleftrightarrow> loses_vertex u out row" if "r_type row = lit ''way''"
  proof (cases pts)
    case None
    then show ?thesis using pts assms(3) by (auto simp: def loses_vertex_def split: if_splits)
  next
    case (Some ps)
    with pts have p: "o_geometry out = GGeom" "parse_linestring_wkt u (r_geometry_wkt row) = Inr (Some ps)" by (auto split: if_splits)
    have "el_geometry el' = Some (geometry_points_to_json (case o_geom_bbox out of None \<Rightarrow> map Some ps | Some b \<Rightarrow> clip_way_geometry ps b))"
      by (simp add: def Some split: option.split)
    moreover have "None \<in> set (geometry_points_to_json g) \<longleftrightarrow> None \<in> set g" for g by (auto simp: geometry_points_to_json_def)
    ultimately show ?thesis using p that clip_drops [of ps] by (auto simp: loses_vertex_def split: option.split)
  qed
qed

lemma relation_part_fields:
  "el_nodes (relation_part nc wg row out el) = el_nodes el" "el_geometry (relation_part nc wg row out el) = el_geometry el"
  "el_type (relation_part nc wg row out el) = el_type el" "el_id (relation_part nc wg row out el) = el_id el"
  by (simp_all add: relation_part_def Let_def)

lemma relation_members:
  "el_members el = None \<Longrightarrow> (case el_members (relation_part nc wg row out el) of Some ms \<Rightarrow> ms | None \<Rightarrow> []) =
    (if shows_shape out then map (member_element out nc wg) (case r_members row of Some ms \<Rightarrow> ms | None \<Rightarrow> []) else [])"
  by (simp add: relation_part_def Let_def)

lemma member_element_type: "m_type (member_element out nc wg m) = member_type_name (rm_type m)"
  by (auto simp: member_element_def Let_def split: option.split)

lemma plain_member_type: "plain (rm_type m) \<Longrightarrow> plain (member_type_name (rm_type m))"
  by (auto simp: member_type_name_def plain_def lit_def)

definition members_ok :: "out_row \<Rightarrow> bool" where
  "members_ok row \<longleftrightarrow> (\<forall>m\<in>set (case r_members row of Some ms \<Rightarrow> ms | None \<Rightarrow> []). plain (rm_type m))"

lemma row_element_ok:
  assumes "row_to_element u nc wg out row = Inr el" and "members_ok row"
  shows "el_type el = r_type row \<and> el_id el = r_id row \<and>
    (if hides_nodes out \<and> loses_vertex u out row then el_nodes el = None \<and> None \<in> set (case el_geometry el of Some g \<Rightarrow> g | None \<Rightarrow> []) else element_ok el)"
proof -
  have bare: "el_nodes (bare_element t i) = None" "el_geometry (bare_element t i) = None" "el_members (bare_element t i) = None"
    "el_type (bare_element t i) = t" "el_id (bare_element t i) = i" for t i by (simp_all add: bare_element_def)
  show ?thesis
  proof (cases "r_type row = lit ''way''")
    case True
    then obtain e where e: "way_part u row out (bare_element (r_type row) (r_id row)) = Inr e" and el: "el = tags_part row out (meta_part row out e)"
      using assms(1) by (auto simp: row_to_element_def Let_def rbind_eq_Inr)
    show ?thesis using way_part_fields [OF e bare(1-3)] True by (auto simp: el bare element_ok_def)
  next
    case False
    then have "\<not> loses_vertex u out row" by (simp add: loses_vertex_def)
    moreover have "element_ok (relation_part nc wg row out (bare_element t i))" for t i
      unfolding element_ok_def relation_members [OF bare(3)] relation_part_fields bare
      using assms(2) by (auto simp: members_ok_def member_element_type plain_member_type)
    moreover have "element_ok (tags_part row out (meta_part row out e)) \<longleftrightarrow> element_ok e" for e by (simp add: element_ok_def)
    moreover have "element_ok (node_part row out (bare_element t i))" "element_ok (bare_element t i)" for t i by (simp_all add: element_ok_def node_part_def bare)
    ultimately show ?thesis using assms(1) False
      by (auto simp: row_to_element_def Let_def relation_part_fields bare node_part_def split: if_splits)
  qed
qed

lemma element_xml_error:
  assumes "el_type el = lit ''way''" and "el_nodes el = None" and "None \<in> set (case el_geometry el of Some g \<Rightarrow> g | None \<Rightarrow> [])"
  shows "element_xml el = Inl TypeError"
proof -
  obtain g where g: "el_geometry el = Some g" "None \<in> set g" using assms(3) by (cases "el_geometry el") auto
  have "rmap (\<lambda>pt. case pt of None \<Rightarrow> Inl TypeError | Some p \<Rightarrow> Inr (nd_place p)) g = Inl TypeError"
    using g(2)
  proof (induction g)
    case (Cons a g)
    then show ?case by (cases a) (auto simp: rbind_def)
  qed simp
  then show ?thesis using assms(1,2) g(1) by (simp add: element_xml_def way_xml_def way_nodes_xml_def rbind_def)
qed

lemma rmap_first_error:
  assumes "x \<in> set xs" "f x = Inl e" "\<And>y. y \<in> set xs \<Longrightarrow> f y = Inl e \<or> (\<exists>z. f y = Inr z)"
  shows "rmap f xs = Inl e"
  using assms
proof (induction xs)
  case (Cons a xs)
  show ?case
  proof (cases "f a")
    case (Inl e')
    then show ?thesis using Cons.prems(3) [of a] by simp
  next
    case (Inr z)
    with Cons show ?thesis by auto
  qed
qed simp

lemma count_element_ok: "element_ok (count_element inc counts)"
  by (simp add: count_element_def element_ok_def bare_element_def split: prod.split)


lemma element_xml_written: "element_ok el \<Longrightarrow> \<exists>x. element_xml el = Inr x"
  using element_text by blast

lemma rows_xml:
  assumes "list_all2 (\<lambda>row el. row_to_element u nc wg out row = Inr el) rows els" and "\<forall>r\<in>set rows. members_ok r"
  shows "map (\<lambda>el. (el_type el, el_id el)) els = map (\<lambda>r. (r_type r, r_id r)) rows \<and>
    (if hides_nodes out \<and> (\<exists>row\<in>set rows. loses_vertex u out row) then rmap element_xml els = Inl TypeError else \<forall>el\<in>set els. element_ok el)"
proof -
  have row: "\<exists>el\<in>set els. row_to_element u nc wg out r = Inr el" if "r \<in> set rows" for r
    using assms(1) that by (auto simp: list_all2_conv_all_nth in_set_conv_nth)
  have el: "\<exists>r\<in>set rows. row_to_element u nc wg out r = Inr el" if "el \<in> set els" for el
    using assms(1) that by (fastforce simp: list_all2_conv_all_nth in_set_conv_nth)
  have bad: "element_xml el = Inl TypeError" if "row_to_element u nc wg out r = Inr el" "r \<in> set rows" "hides_nodes out" "loses_vertex u out r" for r el
    using row_element_ok [OF that(1)] that assms(2) by (intro element_xml_error) (auto simp: loses_vertex_def)
  have good: "element_ok el" if "row_to_element u nc wg out r = Inr el" "r \<in> set rows" "\<not> (hides_nodes out \<and> loses_vertex u out r)" for r el
    using row_element_ok [OF that(1)] that(2,3) assms(2) by auto
  have "rmap element_xml els = Inl TypeError" if h: "hides_nodes out" "r \<in> set rows" "loses_vertex u out r" for r
  proof -
    obtain x where "x \<in> set els" "row_to_element u nc wg out r = Inr x" using row [OF h(2)] by auto
    then show ?thesis
      using bad h el good element_xml_written by (intro rmap_first_error [of x]) blast+
  qed
  moreover have "map (\<lambda>el. (el_type el, el_id el)) els = map (\<lambda>r. (r_type r, r_id r)) rows"
    using assms
  proof (induction rule: list_all2_induct)
    case (Cons r rs e es)
    then show ?case using row_element_ok [of u nc wg out r e] by simp
  qed simp
  moreover have "element_ok x" if "x \<in> set els" "\<not> (hides_nodes out \<and> (\<exists>row\<in>set rows. loses_vertex u out row))" for x
    using el [OF that(1)] that(2) good by auto
  ultimately show ?thesis by auto
qed

end
