(* ===== verification/Attic.thy ===== *)
theory Attic
  imports Render
begin

text \<open>
  \<^verbatim>\<open>src/src/osmpq/engine/attic.py\<close> and \<^verbatim>\<open>src/src/osmpq/history/schema.py\<close>: dates of a query, the state
  of an element at a date, timelines, and the actions of \<open>[diff:]\<close> and \<open>[adiff:]\<close>. The history files
  of a type are given as the rows of the base files and the rows of the tier files. Where two rows of
  an id tie in the order that picks its state, the first one read is taken; the database may take any.
\<close>

section \<open>Dates\<close>

text \<open>The regular expression of a timestamp; \<open>$\<close> also matches before a final newline.\<close>

definition date_pattern :: pystr where
  "date_pattern = lit ''0000-00-00T00:00:00Z''"

definition timestamp_re :: "unicode_db \<Rightarrow> pystr \<Rightarrow> bool" where
  "timestamp_re u s \<longleftrightarrow>
     (let m = list_all2 (\<lambda>p c. if p = 48 then decimal u c \<noteq> None else c = p) in m date_pattern s \<or> m (date_pattern @ [10]) s)"

definition invalid_date :: "pystr \<Rightarrow> py_error" where
  "invalid_date v = RuntimeQueryError (lit ''runtime error: date \"'' @ v @ lit ''\" is invalid. It should look like \"2000-01-01T00:00:00Z\".'')"

definition parse_date :: "unicode_db \<Rightarrow> pystr \<Rightarrow> datetime result" where
  "parse_date u v =
     (if \<not> timestamp_re u v then Inl (invalid_date v)
      else case parse_ts_text u v of Some t \<Rightarrow> Inr t | None \<Rightarrow> Inl (invalid_date v))"

definition FAR_FUTURE :: datetime where
  "FAR_FUTURE = (9999, 12, 31, 23, 59, 59)"

definition resolve_optional_date :: "unicode_db \<Rightarrow> pystr option \<Rightarrow> datetime result" where
  "resolve_optional_date u v = (case v of None \<Rightarrow> Inr FAR_FUTURE | Some s \<Rightarrow> parse_date u s)"

definition history_remark :: "unicode_db \<Rightarrow> pystr option \<Rightarrow> datetime \<Rightarrow> pystr option" where
  "history_remark u since t = (case since of
     Some (c # cs) \<Rightarrow>
       (case parse_date u (c # cs) of
          Inl _ \<Rightarrow> None
        | Inr since_dt \<Rightarrow> if t < since_dt
            then Some (lit ''history starts at '' @ (c # cs) @ lit ''; earlier dates return the earliest known state'') else None)
   | _ \<Rightarrow> None)"

section \<open>The state at a date\<close>

record hist_row =
  h_id :: int
  h_version :: "int option"
  h_timestamp :: "datetime option"
  h_changeset :: "int option"
  h_uid :: "int option"
  h_user :: "pystr option"
  h_minor :: int
  h_valid_from :: datetime
  h_valid_to :: "datetime option"
  h_visible :: bool

record hist_files =
  hist_base :: "pystr \<Rightarrow> hist_row list"
  hist_tiers :: "pystr \<Rightarrow> hist_row list"

definition validity :: "datetime \<Rightarrow> bool \<Rightarrow> hist_row \<Rightarrow> bool" where
  "validity t with_valid_to r \<longleftrightarrow> h_valid_from r \<le> t \<and> (with_valid_to \<longrightarrow> h_valid_to r = None \<or> t < the (h_valid_to r))"

text \<open>In descending order nulls come last, so a missing version is the least.\<close>

definition state_order :: "hist_row \<Rightarrow> datetime \<times> bool \<times> (bool \<times> int) \<times> int" where
  "state_order r = (h_valid_from r, h_visible r, (case h_version r of None \<Rightarrow> (False, 0) | Some v \<Rightarrow> (True, v)), h_minor r)"

fun best_state :: "hist_row \<Rightarrow> hist_row list \<Rightarrow> hist_row" where
  "best_state b [] = b"
| "best_state b (r # rs) = best_state (if state_order b < state_order r then r else b) rs"

definition state_of :: "hist_row list \<Rightarrow> int \<Rightarrow> hist_row option" where
  "state_of rows i = (case filter (\<lambda>r. h_id r = i) rows of [] \<Rightarrow> None | r # rs \<Rightarrow> Some (best_state r rs))"

definition valid_rows :: "hist_files \<Rightarrow> pystr \<Rightarrow> datetime \<Rightarrow> hist_row list" where
  "valid_rows hist ty t = filter (validity t True) (hist_base hist ty) @ filter (validity t False) (hist_tiers hist ty)"

definition raw_state_row :: "hist_files \<Rightarrow> pystr \<Rightarrow> int \<Rightarrow> datetime \<Rightarrow> hist_row option" where
  "raw_state_row hist ty i t = state_of (filter (\<lambda>r. h_id r = i) (valid_rows hist ty t)) i"

definition raw_state_rows :: "hist_files \<Rightarrow> pystr \<Rightarrow> int list \<Rightarrow> datetime \<Rightarrow> int \<Rightarrow> hist_row option" where
  "raw_state_rows hist ty ids t = state_of (filter (\<lambda>r. h_id r \<in> set ids) (valid_rows hist ty t))"

definition stub_element :: "pystr \<Rightarrow> hist_row \<Rightarrow> bool \<Rightarrow> element" where
  "stub_element ty r show_visible = (bare_element ty (h_id r))
     \<lparr>el_version := h_version r, el_timestamp := map_option format_timestamp (h_timestamp r), el_changeset := h_changeset r,
      el_uid := h_uid r, el_user := h_user r, el_visible := (if show_visible then Some (h_visible r) else None)\<rparr>"

section \<open>Timelines\<close>

definition own_versions :: "hist_files \<Rightarrow> pystr \<Rightarrow> int \<Rightarrow> hist_row list" where
  "own_versions hist ty i =
     sort_key (\<lambda>r. (h_valid_from r, nulls_last 0 (h_version r)))
       (filter (\<lambda>r. h_id r = i \<and> h_minor r = 0) (hist_base hist ty @ hist_tiers hist ty))"

definition version_text :: "int option \<Rightarrow> pystr" where
  "version_text v = (case v of None \<Rightarrow> lit ''None'' | Some n \<Rightarrow> py_str_int n)"

text \<open>The loop over the rows, with the number of elements so far.\<close>

fun timeline_loop :: "pystr \<Rightarrow> int \<Rightarrow> int option \<Rightarrow> int \<Rightarrow> hist_row list \<Rightarrow> element list" where
  "timeline_loop ty i version n [] = []"
| "timeline_loop ty i version n (r # rs) =
     (if version \<noteq> None \<and> h_version r \<noteq> version then timeline_loop ty i version n rs
      else (bare_element (lit ''timeline'') (n + 1))\<lparr>el_tags := Some
             ([(lit ''reftype'', ty), (lit ''ref'', py_str_int i), (lit ''refversion'', version_text (h_version r)),
               (lit ''created'', format_timestamp (h_valid_from r))] @
              (case rs of [] \<Rightarrow> [] | r' # _ \<Rightarrow> [(lit ''expired'', format_timestamp (h_valid_from r'))]))\<rparr>
           # timeline_loop ty i version (n + 1) rs)"

definition renumber :: "element list \<Rightarrow> element list" where
  "renumber els = map (\<lambda>(i, el). el\<lparr>el_id := int i + 1\<rparr>) (enumerate 0 els)"

definition timeline_elements :: "hist_files \<Rightarrow> pystr \<Rightarrow> int \<Rightarrow> int option \<Rightarrow> element list" where
  "timeline_elements hist ty i version =
     (let els = timeline_loop ty i version 0 (own_versions hist ty i) in if version = None then els else renumber els)"

section \<open>Differences\<close>

type_synonym el_key = "pystr \<times> int"

record diff_pass =
  p_elements :: "element list"
  p_versions :: "el_key \<Rightarrow> int option"
  p_files_read :: nat
  p_warnings :: "pystr list"

record diff_action = action_el +
  a_type :: pystr
  a_id :: int

definition el_key :: "element \<Rightarrow> el_key" where
  "el_key el = (el_type el, el_id el)"

text \<open>Equality of element dicts: tags are dicts, so their order does not matter, and nan differs from itself.\<close>

definition dict_eq :: "(pystr \<times> pystr) list \<Rightarrow> (pystr \<times> pystr) list \<Rightarrow> bool" where
  "dict_eq xs ys \<longleftrightarrow> length xs = length ys \<and> list_all (\<lambda>(k, v). map_of ys k = Some v) xs"

definition pair_eq :: "pyfloat \<times> pyfloat \<Rightarrow> pyfloat \<times> pyfloat \<Rightarrow> bool" where
  "pair_eq p q \<longleftrightarrow> float_eq (fst p) (fst q) \<and> float_eq (snd p) (snd q)"

fun opt_eq :: "('a \<Rightarrow> 'a \<Rightarrow> bool) \<Rightarrow> 'a option \<Rightarrow> 'a option \<Rightarrow> bool" where
  "opt_eq e None None = True"
| "opt_eq e (Some x) (Some y) = e x y"
| "opt_eq e _ _ = False"

definition member_eq :: "member_el \<Rightarrow> member_el \<Rightarrow> bool" where
  "member_eq m n \<longleftrightarrow> m_type m = m_type n \<and> m_ref m = m_ref n \<and> m_role m = m_role n \<and>
     opt_eq pair_eq (m_place m) (m_place n) \<and> opt_eq (list_all2 pair_eq) (m_geometry m) (m_geometry n)"

definition el_eq :: "element \<Rightarrow> element \<Rightarrow> bool" where
  "el_eq x y \<longleftrightarrow> el_type x = el_type y \<and> el_id x = el_id y \<and> opt_eq float_eq (el_lat x) (el_lat y) \<and>
     opt_eq float_eq (el_lon x) (el_lon y) \<and> el_version x = el_version y \<and> el_timestamp x = el_timestamp y \<and>
     el_changeset x = el_changeset y \<and> el_uid x = el_uid y \<and> el_user x = el_user y \<and> el_visible x = el_visible y \<and>
     opt_eq dict_eq (el_tags x) (el_tags y) \<and>
     opt_eq (\<lambda>(a, b, c, d) (a', b', c', d'). pair_eq (a, b) (a', b') \<and> pair_eq (c, d) (c', d')) (el_bounds x) (el_bounds y) \<and>
     opt_eq pair_eq (el_center x) (el_center y) \<and> el_nodes x = el_nodes y \<and>
     opt_eq (list_all2 (opt_eq pair_eq)) (el_geometry x) (el_geometry y) \<and>
     opt_eq (list_all2 member_eq) (el_members x) (el_members y)"

text \<open>The dict of a pass by type and id, where a later element overwrites an earlier one.\<close>

definition by_key :: "element list \<Rightarrow> el_key \<Rightarrow> element option" where
  "by_key els = map_of (rev (map (\<lambda>el. (el_key el, el)) els))"

definition changed :: "diff_pass \<Rightarrow> diff_pass \<Rightarrow> el_key \<Rightarrow> element \<Rightarrow> element \<Rightarrow> bool" where
  "changed pass_a pass_b key old new \<longleftrightarrow>
     (let va = p_versions pass_a key; vb = p_versions pass_b key
      in ((va \<noteq> None \<or> vb \<noteq> None) \<and> va \<noteq> vb) \<or> \<not> el_eq old new)"

text \<open>One lookup for all ids of a type that only the first of the two passes has.\<close>

definition raw_at :: "hist_files \<Rightarrow> datetime \<Rightarrow> element list \<Rightarrow> element list \<Rightarrow> el_key \<Rightarrow> hist_row option" where
  "raw_at hist t els others key =
     raw_state_rows hist (fst key) (map el_id (filter (\<lambda>el. el_type el = fst key \<and> by_key others (el_key el) = None) els)) t (snd key)"

text \<open>The elements that the loops do not skip: the first of each key.\<close>

fun first_seen :: "el_key set \<Rightarrow> element list \<Rightarrow> element list" where
  "first_seen seen [] = []"
| "first_seen seen (el # els) = (if el_key el \<in> seen then first_seen seen els else el # first_seen (insert (el_key el) seen) els)"

definition mk_action :: "string \<Rightarrow> el_key \<Rightarrow> element option \<Rightarrow> element option \<Rightarrow> diff_action" where
  "mk_action act key old new = \<lparr>a_action = lit act, a_old = old, a_new = new, a_type = fst key, a_id = snd key\<rparr>"

definition new_action :: "diff_pass \<Rightarrow> diff_pass \<Rightarrow> (el_key \<Rightarrow> hist_row option) \<Rightarrow> bool \<Rightarrow> element \<Rightarrow> diff_action option" where
  "new_action pass_a pass_b raw_at_a augmented el =
     (let key = el_key el
      in case by_key (p_elements pass_a) key of
           None \<Rightarrow>
             (case (if augmented then raw_at_a key else None) of
                Some raw \<Rightarrow> Some (mk_action ''modify'' key (Some (stub_element (fst key) raw False)) (Some el))
              | None \<Rightarrow> Some (mk_action ''create'' key None (Some el)))
         | Some old \<Rightarrow>
             (if changed pass_a pass_b key old el then Some (mk_action ''modify'' key (Some old) (Some el)) else None))"

definition delete_action :: "diff_pass \<Rightarrow> (el_key \<Rightarrow> hist_row option) \<Rightarrow> bool \<Rightarrow> element \<Rightarrow> diff_action option" where
  "delete_action pass_b raw_at_b augmented el =
     (let key = el_key el
      in if by_key (p_elements pass_b) key \<noteq> None then None
         else Some (mk_action ''delete'' key (Some el)
                (if augmented then map_option (\<lambda>raw. stub_element (fst key) raw True) (raw_at_b key) else None)))"

definition new_actions :: "hist_files \<Rightarrow> diff_pass \<Rightarrow> diff_pass \<Rightarrow> datetime \<Rightarrow> bool \<Rightarrow> diff_action list" where
  "new_actions hist pass_a pass_b t_a augmented =
     (let raw_at_a = raw_at hist t_a (p_elements pass_b) (p_elements pass_a)
      in List.map_filter (new_action pass_a pass_b raw_at_a augmented) (first_seen {} (p_elements pass_b)))"

definition delete_actions :: "hist_files \<Rightarrow> diff_pass \<Rightarrow> diff_pass \<Rightarrow> datetime \<Rightarrow> bool \<Rightarrow> diff_action list" where
  "delete_actions hist pass_a pass_b t_b augmented =
     (let raw_at_b = raw_at hist t_b (p_elements pass_a) (p_elements pass_b)
      in List.map_filter (delete_action pass_b raw_at_b augmented) (first_seen {} (p_elements pass_a)))"

definition build_diff_actions :: "hist_files \<Rightarrow> diff_pass \<Rightarrow> diff_pass \<Rightarrow> datetime \<Rightarrow> datetime \<Rightarrow> bool \<Rightarrow> diff_action list" where
  "build_diff_actions hist pass_a pass_b t_a t_b augmented =
     new_actions hist pass_a pass_b t_a augmented @ delete_actions hist pass_a pass_b t_b augmented"

definition add_new :: "pystr list \<Rightarrow> pystr list \<Rightarrow> pystr list" where
  "add_new ws new = foldl (\<lambda>ws w. if w \<in> set ws then ws else ws @ [w]) ws new"

text \<open>\<open>run_pass\<close> runs the program at a date, as \<open>run_diff_pass\<close> does through the planner, on the sets that the connection has, and leaves others.\<close>

definition run_diff_program ::
  "unicode_db \<Rightarrow> hist_files \<Rightarrow> pystr option \<Rightarrow> (datetime \<Rightarrow> 's \<Rightarrow> (diff_pass \<times> 's) result) \<Rightarrow> 's \<Rightarrow> settings \<Rightarrow> (diff_action list \<times> nat \<times> pystr list) result" where
  "run_diff_program u hist since run_pass sets settings =
     (let augmented = (s_adiff settings \<noteq> None)
      in case (if augmented then s_adiff settings else s_diff settings) of
           None \<Rightarrow> Inl TypeError
         | Some (a_str, b_str) \<Rightarrow>
             rbind (parse_date u a_str) (\<lambda>t_a. rbind (resolve_optional_date u b_str) (\<lambda>t_b.
               (let warnings = add_new [] (List.map_filter (history_remark u since) [t_a, t_b])
                in rbind (run_pass t_a sets) (\<lambda>(pass_a, sets). rbind (run_pass t_b sets) (\<lambda>(pass_b, _).
                     Inr (build_diff_actions hist pass_a pass_b t_a t_b augmented, p_files_read pass_a + p_files_read pass_b,
                          add_new warnings (p_warnings pass_a @ p_warnings pass_b))))))))"

end
