(* ===== verification/Attic_Correct.thy ===== *)
theory Attic_Correct
  imports Attic "HOL-Library.Sublist"
begin

text \<open>
  The actions of a diff: what each key gets, that at most one action is about a key, that the actions
  turn the elements of the first pass into those of the second, and when two equal passes give no
  action. The state of an element at a date is the greatest of its valid rows.
\<close>

section \<open>The state at a date\<close>

lemma best_state_in: "best_state b rs \<in> insert b (set rs)"
  by (induction b rs rule: best_state.induct) auto

lemma best_state_max: "r \<in> insert b (set rs) \<Longrightarrow> state_order r \<le> state_order (best_state b rs)"
proof (induction b rs arbitrary: r rule: best_state.induct)
  case (2 b r' rs)
  let ?c = "if state_order b < state_order r' then r' else b"
  have "state_order ?c \<le> state_order (best_state ?c rs)" by (rule 2) simp
  moreover have "state_order b \<le> state_order ?c" "state_order r' \<le> state_order ?c" by (simp_all add: less_imp_le not_less)
  ultimately show ?case using 2 by (auto intro: order_trans)
qed simp

lemma state_of_None: "state_of rows i = None \<longleftrightarrow> (\<forall>r\<in>set rows. h_id r \<noteq> i)"
proof -
  have "(\<forall>r\<in>set rows. h_id r \<noteq> i) \<longleftrightarrow> filter (\<lambda>r. h_id r = i) rows = []" by (auto simp: filter_empty_conv)
  then show ?thesis unfolding state_of_def by (cases "filter (\<lambda>r. h_id r = i) rows") simp_all
qed

lemma state_of_Some:
  assumes "state_of rows i = Some r"
  shows "r \<in> set rows" "h_id r = i" "\<And>r'. r' \<in> set rows \<Longrightarrow> h_id r' = i \<Longrightarrow> state_order r' \<le> state_order r"
proof -
  obtain b rs where f: "filter (\<lambda>r. h_id r = i) rows = b # rs" and r: "r = best_state b rs"
    using assms by (auto simp: state_of_def split: list.splits)
  then have s: "insert b (set rs) = {r \<in> set rows. h_id r = i}" by (metis list.set(2) set_filter)
  show "r \<in> set rows" "h_id r = i" using best_state_in [of b rs] unfolding s r by simp_all
  show "state_order r' \<le> state_order r" if "r' \<in> set rows" "h_id r' = i" for r'
    unfolding r by (rule best_state_max) (simp add: s that)
qed

lemma raw_state_row_eq: "raw_state_row hist ty i t = state_of (valid_rows hist ty t) i"
  by (simp add: raw_state_row_def state_of_def)

lemma raw_state_rows_row: "raw_state_rows hist ty ids t i = (if i \<in> set ids then raw_state_row hist ty i t else None)"
proof -
  have "filter (\<lambda>r. h_id r = i) (filter (\<lambda>r. h_id r \<in> set ids) rows) = (if i \<in> set ids then filter (\<lambda>r. h_id r = i) rows else [])" for rows :: "hist_row list"
    by (induction rows) auto
  then show ?thesis unfolding raw_state_rows_def raw_state_row_eq state_of_def by (simp del: filter_filter)
qed

section \<open>Elements by key\<close>

definition first_rendering :: "element list \<Rightarrow> el_key \<Rightarrow> element option" where
  "first_rendering els = map_of (map (\<lambda>el. (el_key el, el)) els)"

lemma by_key_None: "by_key els k = None \<longleftrightarrow> k \<notin> el_key ` set els"
  by (force simp: by_key_def map_of_eq_None_iff)

lemma first_rendering_None: "first_rendering els k = None \<longleftrightarrow> k \<notin> el_key ` set els"
  by (force simp: first_rendering_def map_of_eq_None_iff)

lemma by_key_Some: "by_key els k = Some el \<Longrightarrow> el \<in> set els \<and> el_key el = k"
  by (auto simp: by_key_def dest!: map_of_SomeD)

lemma first_rendering_Some: "first_rendering els k = Some el \<Longrightarrow> el \<in> set els \<and> el_key el = k"
  by (auto simp: first_rendering_def dest!: map_of_SomeD)

lemma first_rendering_simps [simp]:
  "first_rendering [] k = None"
  "first_rendering (el # els) k = (if el_key el = k then Some el else first_rendering els k)"
  by (simp_all add: first_rendering_def)

lemma first_seen_iff: "el \<in> set (first_seen seen els) \<longleftrightarrow> el_key el \<notin> seen \<and> first_rendering els (el_key el) = Some el"
  by (induction seen els rule: first_seen.induct) auto

lemma first_seen_distinct: "distinct (map el_key (first_seen seen els))"
  by (induction seen els rule: first_seen.induct) (auto simp: first_seen_iff)

lemma first_seen_subseq: "subseq (map el_key (first_seen seen els)) (map el_key els)"
  by (induction seen els rule: first_seen.induct) auto

section \<open>Actions\<close>

definition action_key :: "diff_action \<Rightarrow> el_key" where
  "action_key act = (a_type act, a_id act)"

definition action_of :: "diff_action list \<Rightarrow> el_key \<Rightarrow> diff_action option" where
  "action_of acts = map_of (map (\<lambda>act. (action_key act, act)) acts)"

text \<open>Performing the actions on a table of elements.\<close>

definition perform :: "(el_key \<Rightarrow> element option) \<Rightarrow> diff_action \<Rightarrow> el_key \<Rightarrow> element option" where
  "perform m act = m(action_key act := (if a_action act = lit ''delete'' then None else a_new act))"

lemma perform_all:
  assumes "distinct (map action_key acts)"
  shows "foldl perform m acts k = (case action_of acts k of
    None \<Rightarrow> m k | Some act \<Rightarrow> if a_action act = lit ''delete'' then None else a_new act)"
  using assms
proof (induction acts arbitrary: m)
  case (Cons act acts)
  then have "action_of acts (action_key act) = None" by (force simp: action_of_def map_of_eq_None_iff)
  with Cons show ?case by (auto simp: action_of_def perform_def)
qed (simp add: action_of_def)

text \<open>What a key gets, by a lookup of its own.\<close>

definition expected_action :: "hist_files \<Rightarrow> diff_pass \<Rightarrow> diff_pass \<Rightarrow> datetime \<Rightarrow> datetime \<Rightarrow> bool \<Rightarrow> el_key \<Rightarrow> diff_action option" where
  "expected_action hist pass_a pass_b t_a t_b augmented k =
     (let state = (\<lambda>t. if augmented then raw_state_row hist (fst k) (snd k) t else None)
      in case first_rendering (p_elements pass_b) k of
           None \<Rightarrow> map_option (\<lambda>el. mk_action ''delete'' k (Some el) (map_option (\<lambda>r. stub_element (fst k) r True) (state t_b)))
             (first_rendering (p_elements pass_a) k)
         | Some el \<Rightarrow>
             (case by_key (p_elements pass_a) k of
                None \<Rightarrow> Some (case state t_a of
                    None \<Rightarrow> mk_action ''create'' k None (Some el)
                  | Some r \<Rightarrow> mk_action ''modify'' k (Some (stub_element (fst k) r False)) (Some el))
              | Some old \<Rightarrow> if p_versions pass_a k \<noteq> p_versions pass_b k \<or> \<not> el_eq old el then Some (mk_action ''modify'' k (Some old) (Some el)) else None))"

lemma changed_iff: "changed a b k old el \<longleftrightarrow> p_versions a k \<noteq> p_versions b k \<or> \<not> el_eq old el"
  by (auto simp: changed_def Let_def)

lemma action_key_mk [simp]: "action_key (mk_action act k old new) = k"
  by (simp add: action_key_def mk_action_def)

lemma raw_at_state:
  assumes "by_key others k = None" and "k \<in> el_key ` set els"
  shows "raw_at hist t els others k = raw_state_row hist (fst k) (snd k) t"
  using assms by (auto simp: raw_at_def raw_state_rows_row el_key_def)

lemma new_action_key: "new_action a b raw aug el = Some act \<Longrightarrow> action_key act = el_key el"
  by (auto simp: new_action_def Let_def split: option.splits if_splits)

lemma delete_action_key: "delete_action b raw aug el = Some act \<Longrightarrow> action_key act = el_key el"
  by (auto simp: delete_action_def Let_def split: if_splits)

lemma map_filter_keys:
  assumes "\<And>el act. f el = Some act \<Longrightarrow> action_key act = el_key el" and "distinct (map el_key els)"
  shows "distinct (map action_key (List.map_filter f els))"
    and "el \<in> set els \<Longrightarrow> action_of (List.map_filter f els) (el_key el) = f el"
    and "subseq (map action_key (List.map_filter f els)) (map el_key els)"
proof -
  have keys: "action_key ` set (List.map_filter f els) \<subseteq> el_key ` set els" for els
    using assms(1) by (fastforce simp: List.map_filter_def)
  show "distinct (map action_key (List.map_filter f els))"
    using assms(2)
  proof (induction els)
    case (Cons el els)
    with keys [of els] assms(1) show ?case by (auto simp: List.map_filter_simps split: option.splits)
  qed (simp add: List.map_filter_simps)
  show "action_of (List.map_filter f els) (el_key el) = f el" if "el \<in> set els"
    using assms(2) that
  proof (induction els)
    case (Cons e els)
    show ?case
    proof (cases "el = e")
      case True
      with Cons.prems have "el_key e \<notin> el_key ` set els" by auto
      then have "action_of (List.map_filter f els) (el_key e) = None"
        using keys [of els] by (force simp: action_of_def map_of_eq_None_iff)
      with True assms(1) [of e] show ?thesis by (auto simp: List.map_filter_simps action_of_def split: option.splits)
    next
      case False
      with Cons.prems have "el \<in> set els" "el_key e \<noteq> el_key el" by auto
      with Cons assms(1) [of e] show ?thesis by (auto simp: List.map_filter_simps action_of_def split: option.splits)
    qed
  qed simp
  show "subseq (map action_key (List.map_filter f els)) (map el_key els)"
    using assms(1) by (induction els) (auto simp: List.map_filter_simps split: option.splits)
qed

lemma action_of_append: "action_of (xs @ ys) k = (case action_of xs k of None \<Rightarrow> action_of ys k | Some act \<Rightarrow> Some act)"
  by (auto simp: action_of_def map_add_def split: option.splits)

lemma action_of_keys: "action_of acts k = None \<longleftrightarrow> k \<notin> action_key ` set acts"
  by (force simp: action_of_def map_of_eq_None_iff)


lemma subseq_keys: "subseq xs ys \<Longrightarrow> set xs \<subseteq> set ys"
  by (induction rule: list_emb.induct) auto

text \<open>The two loops and what they are about.\<close>

lemma new_actions_parts:
  fixes hist aug and a b t_a
  defines "us \<equiv> new_actions hist a b t_a aug"
  shows "distinct (map action_key us)" and "subseq (map action_key us) (map el_key (p_elements b))"
    and "first_rendering (p_elements b) k = Some el \<Longrightarrow> action_of us k = new_action a b (raw_at hist t_a (p_elements b) (p_elements a)) aug el"
    and "first_rendering (p_elements b) k = None \<Longrightarrow> action_of us k = None"
proof -
  note keys = map_filter_keys [OF new_action_key first_seen_distinct]
  show "distinct (map action_key us)" by (simp add: us_def new_actions_def keys(1))
  show s: "subseq (map action_key us) (map el_key (p_elements b))"
    unfolding us_def new_actions_def Let_def by (rule subseq_order.order_trans [OF keys(3) first_seen_subseq])
  show "action_of us k = new_action a b (raw_at hist t_a (p_elements b) (p_elements a)) aug el" if "first_rendering (p_elements b) k = Some el"
    using first_rendering_Some [OF that] keys(2) [where el = el] that by (auto simp: us_def new_actions_def first_seen_iff)
  show "action_of us k = None" if "first_rendering (p_elements b) k = None"
    using that subseq_keys [OF s] action_of_keys [of us k] by (auto simp: first_rendering_None)
qed

lemma delete_actions_parts:
  fixes hist aug and a b t_b
  defines "vs \<equiv> delete_actions hist a b t_b aug"
  shows "distinct (map action_key vs)" and "subseq (map action_key vs) (map el_key (p_elements a))"
    and "first_rendering (p_elements a) k = Some el \<Longrightarrow> action_of vs k = delete_action b (raw_at hist t_b (p_elements a) (p_elements b)) aug el"
    and "first_rendering (p_elements a) k = None \<Longrightarrow> action_of vs k = None"
    and "first_rendering (p_elements b) k \<noteq> None \<Longrightarrow> action_of vs k = None"
proof -
  note keys = map_filter_keys [OF delete_action_key first_seen_distinct]
  show "distinct (map action_key vs)" by (simp add: vs_def delete_actions_def keys(1))
  show s: "subseq (map action_key vs) (map el_key (p_elements a))"
    unfolding vs_def delete_actions_def Let_def by (rule subseq_order.order_trans [OF keys(3) first_seen_subseq])
  show v: "action_of vs k = delete_action b (raw_at hist t_b (p_elements a) (p_elements b)) aug el" if "first_rendering (p_elements a) k = Some el" for el
    using first_rendering_Some [OF that] keys(2) [where el = el] that by (auto simp: vs_def delete_actions_def first_seen_iff)
  show n: "action_of vs k = None" if "first_rendering (p_elements a) k = None"
    using that subseq_keys [OF s] action_of_keys [of vs k] by (auto simp: first_rendering_None)
  show "action_of vs k = None" if "first_rendering (p_elements b) k \<noteq> None"
  proof (cases "first_rendering (p_elements a) k")
    case (Some el)
    have "by_key (p_elements b) k \<noteq> None" using that by (simp add: first_rendering_None by_key_None)
    then show ?thesis using v [OF Some] first_rendering_Some [OF Some] by (auto simp: delete_action_def Let_def)
  qed (rule n)
qed

lemma build_diff_actions_of: "action_of (build_diff_actions hist a b t_a t_b aug) k = expected_action hist a b t_a t_b aug k"
proof (cases "first_rendering (p_elements b) k")
  case None
  then have nb: "by_key (p_elements b) k = None" by (simp add: first_rendering_None by_key_None)
  show ?thesis
  proof (cases "first_rendering (p_elements a) k")
    case (Some el)
    then have "el \<in> set (p_elements a)" "el_key el = k" by (auto dest: first_rendering_Some)
    with None Some nb show ?thesis
      by (auto simp: build_diff_actions_def action_of_append new_actions_parts(4) delete_actions_parts(3) delete_action_def expected_action_def Let_def raw_at_state)
  qed (simp add: None build_diff_actions_def action_of_append new_actions_parts(4) delete_actions_parts(4) expected_action_def Let_def)
next
  case (Some el)
  then have el: "el \<in> set (p_elements b)" "el_key el = k" by (auto dest: first_rendering_Some)
  then have "raw_at hist t_a (p_elements b) (p_elements a) k = raw_state_row hist (fst k) (snd k) t_a" if "by_key (p_elements a) k = None"
    using that by (intro raw_at_state) auto
  with Some el show ?thesis
    by (auto simp: build_diff_actions_def action_of_append new_actions_parts(3) delete_actions_parts(5) new_action_def expected_action_def changed_iff Let_def
        split: option.splits)
qed

lemma build_diff_actions_distinct: "distinct (map action_key (build_diff_actions hist a b t_a t_b aug))"
proof -
  let ?us = "new_actions hist a b t_a aug" and ?vs = "delete_actions hist a b t_b aug"
  have "action_of ?us k = None \<or> action_of ?vs k = None" for k
    by (cases "first_rendering (p_elements b) k") (simp_all add: new_actions_parts(4) delete_actions_parts(5))
  then have "k \<notin> action_key ` set ?us \<or> k \<notin> action_key ` set ?vs" for k
    unfolding action_of_keys .
  then show ?thesis unfolding build_diff_actions_def using new_actions_parts(1) delete_actions_parts(1) by auto
qed

text \<open>Elements that the same dict comparison takes for equal.\<close>

definition same_rendering :: "element option \<Rightarrow> element option \<Rightarrow> bool" where
  "same_rendering x y \<longleftrightarrow> x = y \<or> (\<exists>e e'. x = Some e \<and> y = Some e' \<and> el_eq e e')"

lemma mk_action_simps [simp]: "a_action (mk_action act k old new) = lit act" "a_new (mk_action act k old new) = new"
  by (simp_all add: mk_action_def)

lemma new_actions_kind: "\<forall>act\<in>set (new_actions hist a b t_a aug). a_action act \<noteq> lit ''delete''"
  by (auto simp: new_actions_def List.map_filter_def new_action_def Let_def split: option.splits if_splits)

lemma delete_actions_kind: "\<forall>act\<in>set (delete_actions hist a b t_b aug). a_action act = lit ''delete''"
  by (auto simp: delete_actions_def List.map_filter_def delete_action_def Let_def split: if_splits)

lemma perform_expected:
  "same_rendering (foldl perform (by_key (p_elements a)) (build_diff_actions hist a b t_a t_b aug) k) (first_rendering (p_elements b) k)"
proof -
  have none: "by_key (p_elements a) k = None \<longleftrightarrow> first_rendering (p_elements a) k = None" by (simp add: by_key_None first_rendering_None)
  have act: "foldl perform (by_key (p_elements a)) (build_diff_actions hist a b t_a t_b aug) k =
      (case expected_action hist a b t_a t_b aug k of None \<Rightarrow> by_key (p_elements a) k
       | Some act \<Rightarrow> if a_action act = lit ''delete'' then None else a_new act)"
    by (simp add: perform_all [OF build_diff_actions_distinct] build_diff_actions_of)
  show ?thesis
  proof (cases "first_rendering (p_elements b) k")
    case None
    then show ?thesis unfolding act using none
      by (cases "first_rendering (p_elements a) k") (simp_all add: expected_action_def same_rendering_def)
  next
    case (Some el)
    then show ?thesis unfolding act
      by (cases "by_key (p_elements a) k")
        (auto simp: expected_action_def Let_def same_rendering_def split: option.splits)
  qed
qed

lemma no_actions: "acts = [] \<longleftrightarrow> (\<forall>k. action_of acts k = None)"
proof
  assume "\<forall>k. action_of acts k = None"
  then have "k \<notin> action_key ` set acts" for k unfolding action_of_keys by blast
  then have "act \<notin> set acts" for act by blast
  then show "acts = []" by (metis list.set_intros(1) neq_Nil_conv)
qed (simp add: action_of_def)

lemma equal_passes:
  "build_diff_actions hist p p t_a t_b aug = [] \<longleftrightarrow>
   (\<forall>k el. first_rendering (p_elements p) k = Some el \<longrightarrow> (\<exists>el'. by_key (p_elements p) k = Some el' \<and> el_eq el' el))"
proof -
  have "expected_action hist p p t_a t_b aug k = None \<longleftrightarrow>
      (\<forall>el. first_rendering (p_elements p) k = Some el \<longrightarrow> (\<exists>el'. by_key (p_elements p) k = Some el' \<and> el_eq el' el))" for k
    by (cases "first_rendering (p_elements p) k"; cases "by_key (p_elements p) k") (simp_all add: expected_action_def Let_def)
  then show ?thesis by (simp add: no_actions build_diff_actions_of)
qed

end
