(* ===== verification/Answer_Properties.thy ===== *)
theory Answer_Properties
  imports Render_Correct Attic_Correct
begin

text \<open>
  The properties of answers: the actions of a diff and the XML of the rows of a set.
\<close>

text \<open>
  C7. The actions of \<open>[diff:]\<close> and \<open>[adiff:]\<close>. Each key of type and id gets the action that its own
  elements and, for \<open>[adiff:]\<close>, its own state at the other date call for, as if each were looked up alone; no key
  gets two actions. Performed on the elements of the first pass (the last of each key) they give the elements
  of the second pass (the first of each key), up to the equality of dicts. Creations and
  modifications come first, in the order of the second pass, then deletions, in the order of the
  first. Two equal passes give no action exactly when the first and the last rendering of each
  key are equal: a program whose \<open>out\<close> statements print an element in two ways reports unchanged elements as modified.
\<close>

theorem diff_actions_patch:
  "let acts = build_diff_actions hist a b t_a t_b augmented in
    (\<forall>k. action_of acts k = expected_action hist a b t_a t_b augmented k) \<and> distinct (map action_key acts) \<and>
    (\<forall>k. same_rendering (foldl perform (by_key (p_elements a)) acts k) (first_rendering (p_elements b) k)) \<and>
    (\<exists>us vs. acts = us @ vs \<and> subseq (map action_key us) (map el_key (p_elements b)) \<and> subseq (map action_key vs) (map el_key (p_elements a)) \<and>
       (\<forall>act\<in>set us. a_action act \<noteq> lit ''delete'') \<and> (\<forall>act\<in>set vs. a_action act = lit ''delete'')) \<and>
    (build_diff_actions hist a a t_a t_b augmented = [] \<longleftrightarrow>
       (\<forall>k el. first_rendering (p_elements a) k = Some el \<longrightarrow> (\<exists>el'. by_key (p_elements a) k = Some el' \<and> el_eq el' el)))"
proof -
  have "\<exists>us vs. build_diff_actions hist a b t_a t_b augmented = us @ vs \<and> subseq (map action_key us) (map el_key (p_elements b)) \<and>
      subseq (map action_key vs) (map el_key (p_elements a)) \<and>
      (\<forall>act\<in>set us. a_action act \<noteq> lit ''delete'') \<and> (\<forall>act\<in>set vs. a_action act = lit ''delete'')"
    unfolding build_diff_actions_def
    by (intro exI conjI) (rule refl new_actions_parts(2) delete_actions_parts(2) new_actions_kind delete_actions_kind)+
  then show ?thesis unfolding Let_def
    by (intro conjI allI) (rule build_diff_actions_of build_diff_actions_distinct perform_expected equal_passes | assumption)+
qed

text \<open>A node that two \<open>out\<close> statements print, once by its id only and once with its version, unchanged between the dates.\<close>

theorem diff_actions_patch_witness:
  "\<exists>hist a t. a = \<lparr>p_elements = [bare_element (lit ''node'') 1, (bare_element (lit ''node'') 1)\<lparr>el_version := Some 3\<rparr>],
       p_versions = (\<lambda>_. Some 3), p_files_read = 1, p_warnings = []\<rparr> \<and>
     action_of (build_diff_actions hist a a t t False) (lit ''node'', 1) =
       Some (mk_action ''modify'' (lit ''node'', 1) (Some ((bare_element (lit ''node'') 1)\<lparr>el_version := Some 3\<rparr>)) (Some (bare_element (lit ''node'') 1)))"
proof -
  let ?a = "\<lparr>p_elements = [bare_element (lit ''node'') 1, (bare_element (lit ''node'') 1)\<lparr>el_version := Some 3\<rparr>],
       p_versions = (\<lambda>_. Some 3), p_files_read = 1, p_warnings = []\<rparr>"
  have "expected_action hist ?a ?a t t False (lit ''node'', 1) =
      Some (mk_action ''modify'' (lit ''node'', 1) (Some ((bare_element (lit ''node'') 1)\<lparr>el_version := Some 3\<rparr>)) (Some (bare_element (lit ''node'') 1)))" for hist t
    by (simp add: expected_action_def by_key_def el_key_def bare_element_def el_eq_def)
  then show ?thesis using diff_actions_patch [of _ ?a ?a _ _ False] unfolding Let_def by (intro exI conjI) (rule refl, simp)
qed

text \<open>
  C29. The XML of the rows of a set: the elements are the first rows of the set in the order that \<open>out\<close> asks for (by type and id, or along
  the curve), as many as its limit allows. Unless
  clipping leaves out a vertex of a way whose node list is not printed, the document is written and a
  reader gets back the events of the elements; in that case, which \<open>out ids geom(s,w,n,e)\<close> reaches, writing it ends
  with a TypeError.
\<close>

theorem out_xml_outcome:
  assumes "build_elements u node_coords way_geoms rows out inc = Inr (els, vs)" and "\<not> o_count out"
    and "\<forall>r\<in>set rows. members_ok r" and "\<forall>t. ts = Some t \<longrightarrow> plain t"
  shows "\<exists>shown. shown_rows (o_order out) (o_limit out) rows shown \<and>
    map (\<lambda>el. (el_type el, el_id el)) els = map (\<lambda>r. (r_type r, r_id r)) shown \<and>
    (if hides_nodes out \<and> (\<exists>row\<in>set shown. loses_vertex u out row)
     then render_xml element_xml els ts remark = Inl TypeError
     else \<exists>d. render_xml element_xml els ts remark = Inr (lit ''<?xml version=\"1.0\" encoding=\"UTF-8\"?>'' @ d) \<and>
       read_xml d = Some (doc_events els ts remark))"
proof -
  let ?rows = "fetch_out_rows rows (o_order out) (o_limit out)"
  have sub: "set ?rows \<subseteq> set rows"
    by (auto simp: fetch_out_rows_def order_rows_def dest: in_set_takeD split: option.splits out_order.splits)
  have els: "list_all2 (\<lambda>row el. row_to_element u node_coords way_geoms out row = Inr el) ?rows els"
    using assms(1,2) by (auto simp: build_elements_def Let_def rbind_eq_Inr rmap_eq_Inr_iff)
  have "map (\<lambda>el. (el_type el, el_id el)) els = map (\<lambda>r. (r_type r, r_id r)) ?rows \<and>
     (if hides_nodes out \<and> (\<exists>row\<in>set ?rows. loses_vertex u out row) then rmap element_xml els = Inl TypeError else \<forall>el\<in>set els. element_ok el)"
    by (rule rows_xml [OF els]) (use sub assms(3) in auto)
  then have "map (\<lambda>el. (el_type el, el_id el)) els = map (\<lambda>r. (r_type r, r_id r)) ?rows \<and>
    (if hides_nodes out \<and> (\<exists>row\<in>set ?rows. loses_vertex u out row)
     then render_xml element_xml els ts remark = Inl TypeError
     else \<exists>d. render_xml element_xml els ts remark = Inr (lit ''<?xml version=\"1.0\" encoding=\"UTF-8\"?>'' @ d) \<and>
       read_xml d = Some (doc_events els ts remark))"
    using render_text [of els ts remark] read_events [OF doc_events_ok] assms(4)
    by (auto simp: render_xml_def rbind_def split: if_splits)
  then show ?thesis using fetch_out_rows_shown by blast
qed

text \<open>\<open>out ids geom(0,0,1,1)\<close> of a way that lies outside the box.\<close>

lemma float_digits: "float_of_text ascii_db [53] = Inr (Fin 5)" "float_of_text ascii_db [54] = Inr (Fin 6)"
proof -
  have "fl 5 = 5" "fl 6 = 6" using is_double_int [of 5] is_double_int [of 6] by (simp_all add: fl_exact)
  then show "float_of_text ascii_db [53] = Inr (Fin 5)" "float_of_text ascii_db [54] = Inr (Fin 6)"
    by (simp_all add: float_of_text_def to_ascii_def py_strip_def isspace_def unsigned_float_def lower_def digits_value_def exponent_of_def
        lit_def ascii_digit_def to_float_def)
qed

definition sample_out :: out_spec where
  "sample_out = (default_out [])\<lparr>o_verbosity := VIds, o_geometry := GGeom, o_geom_bbox := Some (Fin 0, Fin 0, Fin 1, Fin 1)\<rparr>"

definition sample_way :: out_row where
  "sample_way = \<lparr>r_type = lit ''way'', r_id = 1, r_lat_e7 = 0, r_lon_e7 = 0, r_refs = Some [1, 2], r_members = None, r_tags = None,
     r_version = None, r_changeset = None, r_timestamp = None, r_uid = None, r_user = None, r_bbox_e7 = (None, None, None, None),
     r_geometry_wkt = Some (lit ''LINESTRING (5 5, 6 6)''), r_hilbert = None\<rparr>"

lemma sample_points: "parse_linestring_wkt ascii_db (r_geometry_wkt sample_way) = Inr (Some [(Fin 5, Fin 5), (Fin 6, Fin 6)])"
  by (simp add: sample_way_def parse_linestring_wkt_def lit_def py_strip_def isspace_def upper_def index_of_def rindex_of_def wkt_point_def float_digits)

theorem out_xml_outcome_witness:
  "\<exists>els vs. build_elements ascii_db (\<lambda>_. None) (\<lambda>_. None) [sample_way] sample_out False = Inr (els, vs) \<and>
     render_xml element_xml els None None = Inl TypeError"
proof -
  have rows: "fetch_out_rows [sample_way] (o_order sample_out) (o_limit sample_out) = [sample_way]"
    by (simp add: sample_out_def default_out_def fetch_out_rows_def order_rows_def)
  have no_count: "\<not> o_count sample_out" by (simp add: sample_out_def default_out_def)
  have "\<exists>el. row_to_element ascii_db (\<lambda>_. None) (\<lambda>_. None) sample_out sample_way = Inr el"
    by (simp add: row_to_element_def way_part_def sample_points Let_def sample_out_def)
  then obtain els vs where b: "build_elements ascii_db (\<lambda>_. None) (\<lambda>_. None) [sample_way] sample_out False = Inr (els, vs)"
    using no_count by (auto simp: build_elements_def rows Let_def)
  have "loses_vertex ascii_db sample_out sample_way"
    unfolding loses_vertex_def using sample_points
    by (auto simp: sample_out_def near_bbox_def float_le_def less_Suc_eq) (simp add: sample_way_def)
  moreover have "hides_nodes sample_out" "members_ok sample_way"
    by (simp_all add: hides_nodes_def shows_shape_def sample_out_def default_out_def members_ok_def sample_way_def)
  moreover have "shown = [sample_way]" if "shown_rows (o_order sample_out) (o_limit sample_out) [sample_way] shown" for shown
    using that by (auto simp: shown_rows_def sample_out_def default_out_def length_Suc_conv)
  ultimately have "render_xml element_xml els None None = Inl TypeError"
    using out_xml_outcome [OF b no_count, of None None] by fastforce
  then show ?thesis using b by blast
qed

end
