(* ===== verification/Sources.thy ===== *)
theory Sources
  imports Tiers
begin

text \<open>
  The reading side of the tiers, \<^verbatim>\<open>src/src/osmpq/engine/sources.py\<close>: the current rows of a table in a
  list of cells or for ids are the base rows that no tier shadows and the rows of the tiers, the highest
  tier first. The SQL statements are given as the list operations they stand for; the rows of the base
  files and the query's predicate are arguments. A tier's file is loaded once and kept, unless
  its table is large.
\<close>

section \<open>Loading the files of the tiers\<close>

definition ranked_tiers :: "deltas \<Rightarrow> tier_meta list" where
  "ranked_tiers deltas = List.map_filter deltas [Hour, Day, Week]"

definition tier_too_large :: "tier_meta \<Rightarrow> delta_type list \<Rightarrow> bool" where
  "tier_too_large m tys \<longleftrightarrow>
     (let total_rows = sum_list (map (tm_rows m) tys) in total_rows \<noteq> 0 \<and> 256 * 1024 * 1024 < total_rows * 150)"

type_synonym ('b, 's) delta_cache = "delta_path \<Rightarrow> ('b, 's) pfile option"

text \<open>The table, the number of files read and the cache.\<close>

definition load_or_cache :: "('b, 's) delta_dir \<Rightarrow> delta_path \<Rightarrow> bool \<Rightarrow> ('b, 's) delta_cache \<Rightarrow> (('b, 's) pfile \<times> nat \<times> ('b, 's) delta_cache) result" where
  "load_or_cache dir q too_large cache =
     (if too_large then (case dir q of None \<Rightarrow> Inl OSError | Some t \<Rightarrow> Inr (t, 1, cache))
      else case cache q of
             Some t \<Rightarrow> Inr (t, 0, cache)
           | None \<Rightarrow> (case dir q of None \<Rightarrow> Inl OSError | Some t \<Rightarrow> Inr (t, 1, cache(q \<mapsto> t))))"

fun spatial_rows :: "('b, 's) pfile \<Rightarrow> 's drow list" where
  "spatial_rows (SpatialFile s) = s" | "spatial_rows _ = []"

fun byid_rows :: "('b, 's) pfile \<Rightarrow> 'b drow list" where
  "byid_rows (ByidFile b) = b" | "byid_rows _ = []"

fun tomb_rows :: "('b, 's) pfile \<Rightarrow> (delta_type \<times> int \<times> string \<times> int) list" where
  "tomb_rows (TombFile t) = t" | "tomb_rows _ = []"

section \<open>Rows of cells\<close>

definition in_cells :: "string list \<Rightarrow> string option \<Rightarrow> bool" where
  "in_cells cells c \<longleftrightarrow> (case c of None \<Rightarrow> False | Some x \<Rightarrow> x \<in> set cells)"

text \<open>The candidates and the tombstoned ids, tier by tier.\<close>

fun layer_parts ::
  "('b, 's) delta_dir \<Rightarrow> delta_type \<Rightarrow> string list \<Rightarrow> tier_meta list \<Rightarrow> ('b, 's) delta_cache \<Rightarrow>
   ('s drow list \<times> int list \<times> nat \<times> ('b, 's) delta_cache) result" where
  "layer_parts dir ty cells [] cache = Inr ([], [], 0, cache)"
| "layer_parts dir ty cells (m # ms) cache =
     rbind (load_or_cache dir (tm_spatial m ty) (tier_too_large m [ty]) cache) (\<lambda>(sp, n1, cache).
     rbind (load_or_cache dir (tm_tombstones m) (tier_too_large m delta_types) cache) (\<lambda>(tp, n2, cache).
     rbind (layer_parts dir ty cells ms cache) (\<lambda>(cand, tomb, n, cache).
       Inr (filter (\<lambda>r. in_cells cells (d_cell r)) (spatial_rows sp) @ cand,
            map (\<lambda>(t, i, prev, sq). i) (filter (\<lambda>(t, i, prev, sq). t = ty \<and> in_cells cells (Some prev)) (tomb_rows tp)) @ tomb,
            n1 + n2 + n, cache))))"

definition spatial_delta_layer ::
  "deltas \<Rightarrow> ('b, 's) delta_dir \<Rightarrow> delta_type \<Rightarrow> string list \<Rightarrow> ('b, 's) delta_cache \<Rightarrow>
   (('s drow list \<times> int set \<times> nat) option \<times> ('b, 's) delta_cache) result" where
  "spatial_delta_layer deltas dir ty cells cache =
     (if ranked_tiers deltas = [] \<or> cells = [] then Inr (None, cache)
      else rbind (layer_parts dir ty cells (ranked_tiers deltas) cache) (\<lambda>(cand, tomb, n, cache).
             let cand = first_rows cand in Inr (Some (cand, ids_of cand \<union> set tomb, n), cache)))"

text \<open>The rows, the files read, the counts of \<open>DELTA_STATS\<close> and the cache.\<close>

record 's source_result =
  sr_rows :: "'s base_row list"
  sr_files :: nat
  sr_delta_rows :: nat
  sr_shadowed :: nat

definition current_rows ::
  "deltas \<Rightarrow> ('b, 's) delta_dir \<Rightarrow> delta_type \<Rightarrow> string list \<Rightarrow> 's base_row list \<Rightarrow> ('s base_row \<Rightarrow> bool) \<Rightarrow> ('b, 's) delta_cache \<Rightarrow>
   ('s source_result \<times> ('b, 's) delta_cache) result" where
  "current_rows deltas dir ty cells base where_sql cache =
     rbind (spatial_delta_layer deltas dir ty cells cache) (\<lambda>(layer, cache).
       case layer of
         None \<Rightarrow> Inr (\<lparr>sr_rows = filter where_sql base, sr_files = 0, sr_delta_rows = 0, sr_shadowed = 0\<rparr>, cache)
       | Some (cand, shadow, n) \<Rightarrow>
           Inr (\<lparr>sr_rows = filter (\<lambda>b. where_sql b \<and> fst b \<notin> shadow) base @
                            map base_columns (filter (\<lambda>r. \<not> d_deleted r \<and> where_sql (base_columns r)) cand),
                  sr_files = n, sr_delta_rows = length cand,
                  sr_shadowed = length (filter (\<lambda>b. where_sql b \<and> fst b \<in> shadow) base)\<rparr>, cache))"

section \<open>Rows of ids\<close>

fun byid_candidates ::
  "('b, 's) delta_dir \<Rightarrow> delta_type \<Rightarrow> tier_meta list \<Rightarrow> (int \<Rightarrow> bool) \<Rightarrow> ('b, 's) delta_cache \<Rightarrow> ('b drow list \<times> nat \<times> ('b, 's) delta_cache) result" where
  "byid_candidates dir ty [] id_pred cache = Inr ([], 0, cache)"
| "byid_candidates dir ty (m # ms) id_pred cache =
     rbind (load_or_cache dir (tm_byid m ty) (tier_too_large m [ty]) cache) (\<lambda>(bp, n1, cache).
     rbind (byid_candidates dir ty ms id_pred cache) (\<lambda>(cand, n, cache).
       Inr (filter (\<lambda>r. id_pred (d_id r)) (byid_rows bp) @ cand, n1 + n, cache)))"

definition byid_current_rows ::
  "deltas \<Rightarrow> ('b, 's) delta_dir \<Rightarrow> delta_type \<Rightarrow> 'b base_row list \<Rightarrow> (int \<Rightarrow> bool) \<Rightarrow> ('b base_row \<Rightarrow> bool) \<Rightarrow> ('b, 's) delta_cache \<Rightarrow>
   ('b source_result \<times> ('b, 's) delta_cache) result" where
  "byid_current_rows deltas dir ty base id_pred tag_where cache =
     (if ranked_tiers deltas = []
      then Inr (\<lparr>sr_rows = filter (\<lambda>b. id_pred (fst b) \<and> tag_where b) base, sr_files = 0, sr_delta_rows = 0, sr_shadowed = 0\<rparr>, cache)
      else rbind (byid_candidates dir ty (ranked_tiers deltas) id_pred cache) (\<lambda>(cand, n, cache).
             let cand = first_rows cand
             in Inr (\<lparr>sr_rows = filter (\<lambda>b. id_pred (fst b) \<and> tag_where b \<and> fst b \<notin> ids_of cand) base @
                                 map base_columns (filter (\<lambda>r. \<not> d_deleted r \<and> tag_where (base_columns r)) cand),
                       sr_files = n, sr_delta_rows = length cand,
                       sr_shadowed = length (filter (\<lambda>b. id_pred (fst b) \<and> fst b \<in> ids_of cand) base)\<rparr>, cache)))"

section \<open>Parents in the tiers\<close>

text \<open>Ways of the tiers that refer to a node, given the references of a row.\<close>

definition delta_way_ids_by_ref ::
  "('b \<Rightarrow> int list) \<Rightarrow> deltas \<Rightarrow> ('b, 's) delta_dir \<Rightarrow> int list \<Rightarrow> ('b, 's) delta_cache \<Rightarrow> (int list option \<times> ('b, 's) delta_cache) result" where
  "delta_way_ids_by_ref refs deltas dir node_ids cache =
     (if ranked_tiers deltas = [] then Inr (None, cache)
      else rbind (byid_candidates dir DWay (ranked_tiers deltas) (\<lambda>_. True) cache) (\<lambda>(rows, n, cache).
             Inr (Some (map d_id (filter (\<lambda>c. \<not> d_deleted c \<and> (\<exists>x\<in>set (refs (d_cols c)). x \<in> set node_ids)) (first_rows rows))), cache)))"

text \<open>Relations of the tiers that have a member, given the members of a row by type, id and role.\<close>

definition delta_relation_ids_by_member ::
  "('b \<Rightarrow> (string \<times> int \<times> pystr option) list) \<Rightarrow> deltas \<Rightarrow> ('b, 's) delta_dir \<Rightarrow> string \<Rightarrow> int list \<Rightarrow> pystr option \<Rightarrow> ('b, 's) delta_cache \<Rightarrow>
   ((int \<times> string option) list option \<times> ('b, 's) delta_cache) result" where
  "delta_relation_ids_by_member members deltas dir member_type_char member_ids role cache =
     (if ranked_tiers deltas = [] then Inr (None, cache)
      else rbind (byid_candidates dir DRelation (ranked_tiers deltas) (\<lambda>_. True) cache) (\<lambda>(rows, n, cache).
             Inr (Some (map (\<lambda>c. (d_id c, d_cell c))
                    (filter (\<lambda>c. \<not> d_deleted c \<and> (\<exists>(t, i, r)\<in>set (members (d_cols c)). t = member_type_char \<and> i \<in> set member_ids \<and> (role = None \<or> r = role)))
                       (first_rows rows))), cache)))"

end
