(* ===== verification/Sources_Correct.thy ===== *)
theory Sources_Correct
  imports Sources Tiers_Correct
begin

text \<open>
  What the reading side returns. Loading through the cache gives the tables of the files, by-id
  reading gives the current row of every id, and reading by cells gives the current rows of the cells and, besides
  them, rows of a lower tier whose id has moved out of the cells in a higher one.
\<close>

section \<open>Loading\<close>

definition cache_ok :: "('b, 's) delta_dir \<Rightarrow> ('b, 's) delta_cache \<Rightarrow> bool" where
  "cache_ok dir cache \<longleftrightarrow> cache \<subseteq>\<^sub>m dir"

lemma load_or_cache_ok:
  assumes "cache_ok dir cache" and "dir q = Some t"
  obtains n cache' where "load_or_cache dir q large cache = Inr (t, n, cache')" "cache_ok dir cache'"
proof (cases "large \<or> cache q = None")
  case True
  have "cache_ok dir (cache(q \<mapsto> t))" using assms by (auto simp: cache_ok_def map_le_def)
  with True assms that show ?thesis by (cases large) (auto simp: load_or_cache_def)
next
  case False
  then have "q \<in> dom cache" by auto
  then have "cache q = Some t" using assms by (simp add: cache_ok_def map_le_def)
  with False assms that show ?thesis by (auto simp: load_or_cache_def)
qed

definition spatial_of :: "deltas \<Rightarrow> ('b, 's) delta_dir \<Rightarrow> delta_type \<Rightarrow> tier \<Rightarrow> 's drow list" where
  "spatial_of deltas dir ty tr = (case deltas tr of None \<Rightarrow> [] | Some m \<Rightarrow> (case dir (tm_spatial m ty) of Some f \<Rightarrow> spatial_rows f | None \<Rightarrow> []))"

definition spatial_all :: "deltas \<Rightarrow> ('b, 's) delta_dir \<Rightarrow> delta_type \<Rightarrow> 's drow list" where
  "spatial_all deltas dir ty = concat (map (spatial_of deltas dir ty) [Hour, Day, Week])"

definition byid_all :: "deltas \<Rightarrow> ('b, 's) delta_dir \<Rightarrow> delta_type \<Rightarrow> 'b drow list" where
  "byid_all deltas dir ty = concat (map (tier_rows deltas dir ty) [Hour, Day, Week])"

lemma tier_tables:
  assumes "deltas_ok p gen deltas dir" and "deltas tr = Some m"
  obtains ts where "dir (tm_byid m ty) = Some (ByidFile (tier_rows deltas dir ty tr))" "dir (tm_spatial m ty) = Some (SpatialFile (spatial_of deltas dir ty tr))"
    "tables_agree p (tier_rows deltas dir ty tr, spatial_of deltas dir ty tr)"
    "dir (tm_tombstones m) = Some (TombFile ts)" "set ts = tomb_set (\<lambda>ty. tier_rows deltas dir ty tr)"
proof -
  obtain T ts where T: "\<And>ty. tables_agree p (T ty)" "\<And>ty. dir (tm_byid m ty) = Some (ByidFile (fst (T ty)))"
    "\<And>ty. dir (tm_spatial m ty) = Some (SpatialFile (snd (T ty)))" "dir (tm_tombstones m) = Some (TombFile ts)" "set ts = tomb_set (\<lambda>ty. fst (T ty))"
  proof -
    have "tier_ok p gen dir tr m" using assms by (simp add: deltas_ok_def)
    then show ?thesis using that unfolding tier_ok_def by blast
  qed
  have rows: "tier_rows deltas dir ty tr = fst (T ty)" "spatial_of deltas dir ty tr = snd (T ty)" for ty
    using assms(2) T(2,3) by (simp_all add: tier_rows_def spatial_of_def)
  show ?thesis by (rule that [of ts]) (simp_all add: rows T(1-4), simp add: T(5))
qed

text \<open>Tiers of a list, for the two loops.\<close>

definition tombs_in :: "deltas \<Rightarrow> ('b, 's) delta_dir \<Rightarrow> delta_type \<Rightarrow> string list \<Rightarrow> tier \<Rightarrow> int set" where
  "tombs_in deltas dir ty cells tr = {d_id r | r c. r \<in> set (tier_rows deltas dir ty tr) \<and> is_tombstone r \<and> d_prev_cell r = Some c \<and> c \<in> set cells}"

lemma layer_parts_ok:
  assumes "deltas_ok p gen deltas dir" and "cache_ok dir cache"
  shows "\<exists>tomb n cache'. layer_parts dir ty cells (List.map_filter deltas trs) cache =
      Inr (filter (\<lambda>r. in_cells cells (d_cell r)) (concat (map (spatial_of deltas dir ty) trs)), tomb, n, cache') \<and>
    set tomb = (\<Union>tr\<in>set trs. tombs_in deltas dir ty cells tr) \<and> cache_ok dir cache'"
  using assms(2)
proof (induction trs arbitrary: cache)
  case (Cons tr trs)
  show ?case
  proof (cases "deltas tr")
    case None
    have "tombs_in deltas dir ty cells tr = {}" "spatial_of deltas dir ty tr = []" using None by (simp_all add: tombs_in_def tier_rows_def spatial_of_def)
    then show ?thesis using Cons.IH [OF Cons.prems] None by (simp add: List.map_filter_simps)
  next
    case (Some m)
    obtain ts where t: "dir (tm_spatial m ty) = Some (SpatialFile (spatial_of deltas dir ty tr))"
      "dir (tm_tombstones m) = Some (TombFile ts)" "set ts = tomb_set (\<lambda>ty. tier_rows deltas dir ty tr)"
      by (rule tier_tables [OF assms(1) Some])
    obtain n1 c1 where l1: "load_or_cache dir (tm_spatial m ty) (tier_too_large m [ty]) cache = Inr (SpatialFile (spatial_of deltas dir ty tr), n1, c1)" "cache_ok dir c1"
      by (rule load_or_cache_ok [OF Cons.prems t(1)])
    obtain n2 c2 where l2: "load_or_cache dir (tm_tombstones m) (tier_too_large m delta_types) c1 = Inr (TombFile ts, n2, c2)" "cache_ok dir c2"
      by (rule load_or_cache_ok [OF l1(2) t(2)])
    have "(\<lambda>(t, i, prev, sq). i) ` set (filter (\<lambda>(t, i, prev, sq). t = ty \<and> in_cells cells (Some prev)) ts) = tombs_in deltas dir ty cells tr"
      unfolding set_filter t(3) by (force simp: tomb_set_def tombs_in_def in_cells_def)
    then show ?thesis using Cons.IH [OF l2(2)] Some l1(1) l2(1) by (auto simp: List.map_filter_simps rbind_def)
  qed
qed (simp add: List.map_filter_simps)

lemma byid_candidates_ok:
  assumes "deltas_ok p gen deltas dir" and "cache_ok dir cache"
  shows "\<exists>n cache'. byid_candidates dir ty (List.map_filter deltas trs) id_pred cache =
      Inr (filter (\<lambda>r. id_pred (d_id r)) (concat (map (tier_rows deltas dir ty) trs)), n, cache') \<and> cache_ok dir cache'"
  using assms(2)
proof (induction trs arbitrary: cache)
  case (Cons tr trs)
  show ?case
  proof (cases "deltas tr")
    case None
    then show ?thesis using Cons.IH [OF Cons.prems] by (simp add: List.map_filter_simps tier_rows_def)
  next
    case (Some m)
    obtain ts where t: "dir (tm_byid m ty) = Some (ByidFile (tier_rows deltas dir ty tr))" by (rule tier_tables [OF assms(1) Some])
    obtain n1 c1 where l1: "load_or_cache dir (tm_byid m ty) (tier_too_large m [ty]) cache = Inr (ByidFile (tier_rows deltas dir ty tr), n1, c1)" "cache_ok dir c1"
      by (rule load_or_cache_ok [OF Cons.prems t])
    then show ?thesis using Cons.IH [OF l1(2)] Some by (auto simp: List.map_filter_simps rbind_def)
  qed
qed (simp add: List.map_filter_simps)

section \<open>The current row of an id\<close>

definition overlay_row :: "(int \<Rightarrow> 'c base_row option) \<Rightarrow> 'c drow list \<Rightarrow> int \<Rightarrow> 'c base_row option" where
  "overlay_row base rows i = (case row_of rows i of None \<Rightarrow> base i | Some r \<Rightarrow> if d_deleted r then None else Some (base_columns r))"

lemma base_columns_id [simp]: "fst (base_columns r) = d_id r"
  by (simp add: base_columns_def)

lemma row_of_filter: "row_of (filter (\<lambda>r. P (d_id r)) t) i = (if P i then row_of t i else None)"
  by (induction t) auto

lemma first_rows_iff: "r \<in> set (first_rows t) \<longleftrightarrow> row_of t (d_id r) = Some r"
proof (induction t arbitrary: r)
  case (Cons x t)
  then show ?case by (cases "d_id x = d_id r") (auto dest: row_of_id)
qed simp

lemma ids_of_first_rows: "i \<in> ids_of (first_rows t) \<longleftrightarrow> row_of t i \<noteq> None"
  using row_of_None [of "first_rows t" i] by (simp add: row_of_first_rows)

text \<open>The rows of candidates that are alive, over the base rows that are not shadowed.\<close>

lemma overlay_rows:
  assumes "\<And>b. b \<in> set base_rows \<Longrightarrow> base (fst b) = Some b"
  shows "x \<in> set (filter (\<lambda>b. P b \<and> fst b \<notin> ids_of (first_rows cand)) base_rows @ map base_columns (filter (\<lambda>r. \<not> d_deleted r \<and> Q (base_columns r)) (first_rows cand)))
    \<longleftrightarrow> (P x \<and> x \<in> set base_rows \<and> row_of cand (fst x) = None) \<or> (Q x \<and> row_of cand (fst x) \<noteq> None \<and> overlay_row base cand (fst x) = Some x)"
proof -
  have "x \<in> base_columns ` {r. row_of cand (d_id r) = Some r \<and> \<not> d_deleted r \<and> Q (base_columns r)} \<longleftrightarrow>
      Q x \<and> row_of cand (fst x) \<noteq> None \<and> overlay_row base cand (fst x) = Some x"
  proof
    assume "Q x \<and> row_of cand (fst x) \<noteq> None \<and> overlay_row base cand (fst x) = Some x"
    then obtain r where r: "row_of cand (fst x) = Some r" "\<not> d_deleted r" "x = base_columns r" "Q x"
      by (auto simp: overlay_row_def split: option.splits if_splits)
    then show "x \<in> base_columns ` {r. row_of cand (d_id r) = Some r \<and> \<not> d_deleted r \<and> Q (base_columns r)}" by auto
  qed (auto simp: overlay_row_def)
  then show ?thesis by (auto simp: ids_of_first_rows first_rows_iff image_def)
qed


section \<open>Reading\<close>

text \<open>The by-id table of the base, by id.\<close>

lemma byid_current_rows_ok:
  assumes ok: "deltas_ok p gen deltas dir" and cache: "cache_ok dir cache"
    and base: "\<And>b. b \<in> set base_rows \<longleftrightarrow> base (fst b) = Some b"
  shows "\<exists>res cache'. byid_current_rows deltas dir ty base_rows id_pred tag_where cache = Inr (res, cache') \<and> cache_ok dir cache' \<and>
    (\<forall>x. x \<in> set (sr_rows res) \<longleftrightarrow> id_pred (fst x) \<and> tag_where x \<and> overlay_row base (byid_all deltas dir ty) (fst x) = Some x)"
proof (cases "ranked_tiers deltas = []")
  case True
  then have "deltas tr = None" for tr by (cases tr) (auto simp: ranked_tiers_def List.map_filter_simps split: option.splits)
  then have "byid_all deltas dir ty = []" by (simp add: byid_all_def tier_rows_def)
  then show ?thesis using True cache by (auto simp: byid_current_rows_def base overlay_row_def)
next
  case False
  obtain n cache' where l: "byid_candidates dir ty (ranked_tiers deltas) id_pred cache = Inr (filter (\<lambda>r. id_pred (d_id r)) (byid_all deltas dir ty), n, cache')"
    "cache_ok dir cache'"
    using byid_candidates_ok [OF ok cache, of ty "[Hour, Day, Week]" id_pred] unfolding ranked_tiers_def byid_all_def by blast
  let ?c = "filter (\<lambda>r. id_pred (d_id r)) (byid_all deltas dir ty)"
  have b: "base (fst b) = Some b" if "b \<in> set base_rows" for b using that base by blast
  have "id_pred (fst x) \<and> tag_where x \<and> overlay_row base (byid_all deltas dir ty) (fst x) = Some x \<longleftrightarrow>
     (id_pred (fst x) \<and> tag_where x) \<and> x \<in> set base_rows \<and> row_of ?c (fst x) = None \<or>
     tag_where x \<and> row_of ?c (fst x) \<noteq> None \<and> overlay_row base ?c (fst x) = Some x" for x
    by (auto simp: row_of_filter overlay_row_def base split: option.splits)
  note this [symmetric]
  with overlay_rows [of base_rows base _ "\<lambda>x. id_pred (fst x) \<and> tag_where x" ?c tag_where, OF b] show ?thesis
    using False l by (simp add: byid_current_rows_def rbind_def Let_def del: split_paired_All)
qed

text \<open>The cell of the base row is what the lowest tier records as previous.\<close>

definition base_cell :: "(int \<Rightarrow> 'c base_row option) \<Rightarrow> int \<Rightarrow> string option" where
  "base_cell base i = (case base i of None \<Rightarrow> None | Some b \<Rightarrow> fst (snd b))"

definition base_tracked :: "(int \<Rightarrow> 'c base_row option) \<Rightarrow> deltas \<Rightarrow> ('b, 's) delta_dir \<Rightarrow> delta_type \<Rightarrow> bool" where
  "base_tracked base deltas dir ty \<longleftrightarrow> (\<forall>i c. first_prev deltas dir ty i = Some c \<longrightarrow> c = base_cell base i)"

text \<open>A row of a lower tier in the cells whose id has a row outside them in a higher one.\<close>

definition stale_row :: "deltas \<Rightarrow> ('b, 's) delta_dir \<Rightarrow> delta_type \<Rightarrow> string list \<Rightarrow> 's base_row \<Rightarrow> bool" where
  "stale_row deltas dir ty cells x \<longleftrightarrow>
     (\<exists>r top. row_of (filter (\<lambda>r. in_cells cells (d_cell r)) (spatial_all deltas dir ty)) (fst x) = Some r \<and>
       row_of (spatial_all deltas dir ty) (fst x) = Some top \<and> \<not> in_cells cells (d_cell top) \<and> \<not> d_deleted r \<and> x = base_columns r)"

lemma spatial_agrees:
  assumes "deltas_ok p gen deltas dir"
  shows "row_of (tier_rows deltas dir ty tr) i = map_option (proj_row p) (row_of (spatial_of deltas dir ty tr) i)"
proof (cases "deltas tr")
  case (Some m)
  obtain ts where "tables_agree p (tier_rows deltas dir ty tr, spatial_of deltas dir ty tr)" by (rule tier_tables [OF assms Some])
  then show ?thesis by (simp add: tables_agree_def)
qed (simp add: tier_rows_def spatial_of_def)

lemma spatial_one_per_id:
  assumes "deltas_ok p gen deltas dir"
  shows "one_per_id (spatial_of deltas dir ty tr)"
proof (cases "deltas tr")
  case (Some m)
  obtain ts where "tables_agree p (tier_rows deltas dir ty tr, spatial_of deltas dir ty tr)" by (rule tier_tables [OF assms Some])
  then show ?thesis by (simp add: tables_agree_def)
qed (simp add: spatial_of_def)

lemma row_of_filter_one: "one_per_id t \<Longrightarrow> row_of (filter P t) i = (case row_of t i of None \<Rightarrow> None | Some r \<Rightarrow> if P r then Some r else None)"
proof (induction t)
  case (Cons r t)
  have "row_of t (d_id r) = None" using Cons.prems by (simp add: row_of_None)
  with Cons show ?case by (auto split: option.splits)
qed simp

lemma row_of_filter_first: "row_of t i = Some r \<Longrightarrow> P r \<Longrightarrow> row_of (filter P t) i = Some r"
  by (induction t) (auto split: if_splits)

lemma first_prev_row:
  assumes "row_of (tier_rows deltas dir ty t0) i \<noteq> None"
  shows "\<exists>t r. row_of (tier_rows deltas dir ty t) i = Some r \<and> first_prev deltas dir ty i = Some (d_prev_cell r)"
proof -
  consider r where "row_of (tier_rows deltas dir ty Week) i = Some r"
    | r where "row_of (tier_rows deltas dir ty Week) i = None" "row_of (tier_rows deltas dir ty Day) i = Some r"
    | r where "row_of (tier_rows deltas dir ty Week) i = None" "row_of (tier_rows deltas dir ty Day) i = None" "row_of (tier_rows deltas dir ty Hour) i = Some r"
    using assms by (cases t0) fastforce+
  then show ?thesis by cases (simp_all add: first_prev_def overlay_def prevs_def, metis+)
qed

text \<open>The row of the lowest tier is a candidate or has a tombstone.\<close>

lemma base_shadowed:
  assumes ok: "deltas_ok p gen deltas dir" and tr: "base_tracked base deltas dir ty" and cells: "\<forall>r\<in>set (spatial_all deltas dir ty). d_cell r = None \<longrightarrow> d_deleted r"
    and b: "base i = Some b" "in_cells cells (fst (snd b))" and row: "row_of (spatial_all deltas dir ty) i \<noteq> None"
  shows "row_of (filter (\<lambda>r. in_cells cells (d_cell r)) (spatial_all deltas dir ty)) i \<noteq> None \<or>
    (\<exists>tr\<in>{Hour, Day, Week}. i \<in> tombs_in deltas dir ty cells tr)"
proof -
  obtain t0 where "row_of (spatial_of deltas dir ty t0) i \<noteq> None" using row by (auto simp: spatial_all_def row_of_append split: option.splits)
  then have "row_of (tier_rows deltas dir ty t0) i \<noteq> None" by (simp add: spatial_agrees [OF ok])
  from first_prev_row [OF this] obtain t r where r: "row_of (tier_rows deltas dir ty t) i = Some r" "d_prev_cell r = base_cell base i"
    using tr by (auto simp: base_tracked_def)
  then obtain s where s: "row_of (spatial_of deltas dir ty t) i = Some s" "r = proj_row p s" using spatial_agrees [OF ok, of ty t i] by auto
  then have "s \<in> set (spatial_of deltas dir ty t)" "d_id s = i" by (auto simp: row_of_def find_Some_iff in_set_conv_nth)
  moreover have "s \<in> set (spatial_all deltas dir ty)" using calculation(1) by (cases t) (auto simp: spatial_all_def)
  ultimately have null: "d_cell r = None \<Longrightarrow> d_deleted r" and cand: "in_cells cells (d_cell s) \<Longrightarrow> i \<in> ids_of (filter (\<lambda>r. in_cells cells (d_cell r)) (spatial_all deltas dir ty))"
    using cells s(2) by (auto simp: ids_of_def)
  have mem: "r \<in> set (tier_rows deltas dir ty t)" "d_id r = i" using r(1) by (auto simp: row_of_def find_Some_iff in_set_conv_nth)
  obtain c where c: "d_prev_cell r = Some c" "c \<in> set cells" using b r(2) by (auto simp: base_cell_def in_cells_def split: option.splits)
  show ?thesis
  proof (cases "is_tombstone r")
    case True
    then have "i \<in> tombs_in deltas dir ty cells t" using mem c by (auto simp: tombs_in_def)
    then show ?thesis by (cases t) auto
  next
    case False
    then have "d_cell s = Some c" using c null s(2) by (cases "d_cell s") (auto simp: is_tombstone_def)
    then show ?thesis using cand c(2) row_of_None by (auto simp: in_cells_def)
  qed
qed

lemma tombs_in_row:
  assumes "deltas_ok p gen deltas dir" and "i \<in> tombs_in deltas dir ty cells tr"
  shows "row_of (spatial_all deltas dir ty) i \<noteq> None"
proof -
  have "i \<in> ids_of (tier_rows deltas dir ty tr)" using assms(2) by (auto simp: tombs_in_def ids_of_def)
  then have "row_of (spatial_of deltas dir ty tr) i \<noteq> None" using spatial_agrees [OF assms(1), of ty tr i] row_of_None [of "tier_rows deltas dir ty tr" i] by auto
  then show ?thesis by (cases tr) (auto simp: spatial_all_def row_of_append split: option.splits)
qed

text \<open>The candidate of an id is its current row, when that is in the cells, or a stale one.\<close>

lemma candidate_cases:
  assumes "t = spatial_all deltas dir ty" and "c = filter (\<lambda>r. in_cells cells (d_cell r)) t"
  shows "row_of c (fst x) \<noteq> None \<and> overlay_row base c (fst x) = Some x \<longleftrightarrow>
      row_of t (fst x) \<noteq> None \<and> overlay_row base t (fst x) = Some x \<and> in_cells cells (fst (snd x)) \<or> stale_row deltas dir ty cells x"
proof (cases "row_of t (fst x)")
  case None
  then have "row_of c (fst x) = None" using row_of_None [of t] row_of_None [of c] by (auto simp: assms(2) ids_of_def)
  with None show ?thesis by (simp add: stale_row_def flip: assms)
next
  case (Some top)
  have columns: "fst (snd (base_columns r)) = d_cell r" for r :: "'a drow" by (simp add: base_columns_def)
  show ?thesis
  proof (cases "in_cells cells (d_cell top)")
    case True
    then have "row_of c (fst x) = Some top" using row_of_filter_first [OF Some] by (simp add: assms(2))
    with True Some show ?thesis by (auto simp: overlay_row_def stale_row_def columns simp flip: assms)
  next
    case False
    with Some show ?thesis by (auto simp: overlay_row_def stale_row_def columns simp flip: assms split: option.splits if_splits)
  qed
qed

lemma current_rows_ok:
  assumes ok: "deltas_ok p gen deltas dir" and cache: "cache_ok dir cache" and tracked: "base_tracked base deltas dir ty"
    and cells: "\<forall>r\<in>set (spatial_all deltas dir ty). d_cell r = None \<longrightarrow> d_deleted r"
    and base: "\<And>b. b \<in> set base_rows \<longleftrightarrow> base (fst b) = Some b \<and> in_cells cells (fst (snd b))"
  shows "\<exists>res cache'. current_rows deltas dir ty cells base_rows where_sql cache = Inr (res, cache') \<and> cache_ok dir cache' \<and>
    (\<forall>x. x \<in> set (sr_rows res) \<longleftrightarrow> where_sql x \<and>
      (overlay_row base (spatial_all deltas dir ty) (fst x) = Some x \<and> in_cells cells (fst (snd x)) \<or> stale_row deltas dir ty cells x))"
proof (cases "ranked_tiers deltas = [] \<or> cells = []")
  case True
  have "overlay_row base (spatial_all deltas dir ty) i = Some x \<and> in_cells cells (fst (snd x)) \<longleftrightarrow> base i = Some x \<and> in_cells cells (fst (snd x))" for i x
  proof (cases "cells = []")
    case False
    then have "deltas tr = None" for tr using True by (cases tr) (auto simp: ranked_tiers_def List.map_filter_simps split: option.splits)
    then have "spatial_all deltas dir ty = []" by (simp add: spatial_all_def spatial_of_def)
    then show ?thesis by (simp add: overlay_row_def)
  qed (simp add: in_cells_def split: option.splits)
  moreover have "\<not> stale_row deltas dir ty cells x" for x
  proof (cases "cells = []")
    case True
    then show ?thesis by (simp add: stale_row_def in_cells_def filter_empty_conv split: option.splits)
  next
    case False
    then have "deltas tr = None" for tr using True by (cases tr) (auto simp: ranked_tiers_def List.map_filter_simps split: option.splits)
    then have "spatial_all deltas dir ty = []" by (simp add: spatial_all_def spatial_of_def)
    then show ?thesis by (simp add: stale_row_def)
  qed
  ultimately show ?thesis using True cache by (auto simp: current_rows_def spatial_delta_layer_def base)
next
  case False
  let ?c = "filter (\<lambda>r. in_cells cells (d_cell r)) (spatial_all deltas dir ty)"
  obtain tomb n cache' where l: "layer_parts dir ty cells (ranked_tiers deltas) cache = Inr (?c, tomb, n, cache')"
    "set tomb = (\<Union>tr\<in>{Hour, Day, Week}. tombs_in deltas dir ty cells tr)" "cache_ok dir cache'"
    using layer_parts_ok [OF ok cache, of ty cells "[Hour, Day, Week]"] unfolding ranked_tiers_def spatial_all_def by auto
  have kept: "x \<in> set base_rows \<and> row_of ?c (fst x) = None \<and> fst x \<notin> set tomb \<longleftrightarrow>
      x \<in> set base_rows \<and> row_of (spatial_all deltas dir ty) (fst x) = None" for x
  proof (cases "row_of (spatial_all deltas dir ty) (fst x)")
    case None
    moreover have "row_of ?c (fst x) = None" using None row_of_None [of "spatial_all deltas dir ty"] row_of_None [of ?c] by (auto simp: ids_of_def)
    moreover have "fst x \<notin> set tomb" using None tombs_in_row [OF ok] unfolding l(2) by fastforce
    ultimately show ?thesis by simp
  next
    case (Some r)
    then show ?thesis using base_shadowed [OF ok tracked cells, of "fst x" x cells] base [of x] l(2) by auto
  qed
  have b: "base (fst b) = Some b" if "b \<in> set base_rows" for b using that base by blast
  have delta: "row_of ?c (fst x) \<noteq> None \<and> overlay_row base ?c (fst x) = Some x \<longleftrightarrow>
      row_of (spatial_all deltas dir ty) (fst x) \<noteq> None \<and> overlay_row base (spatial_all deltas dir ty) (fst x) = Some x \<and> in_cells cells (fst (snd x)) \<or>
      stale_row deltas dir ty cells x" for x
    by (rule candidate_cases) simp_all
  have rows: "x \<in> set (filter (\<lambda>b. where_sql b \<and> fst b \<notin> ids_of (first_rows ?c) \<union> set tomb) base_rows @
        map base_columns (filter (\<lambda>r. \<not> d_deleted r \<and> where_sql (base_columns r)) (first_rows ?c))) \<longleftrightarrow>
      where_sql x \<and> (overlay_row base (spatial_all deltas dir ty) (fst x) = Some x \<and> in_cells cells (fst (snd x)) \<or> stale_row deltas dir ty cells x)"
    (is "x \<in> set (filter ?P base_rows @ ?d) \<longleftrightarrow> ?R") for x
  proof -
    have "x \<in> set ?d \<longleftrightarrow> where_sql x \<and> row_of ?c (fst x) \<noteq> None \<and> overlay_row base ?c (fst x) = Some x"
      using overlay_rows [of "[]" base x "\<lambda>_. True" ?c where_sql] by simp
    moreover have "x \<in> set (filter ?P base_rows) \<longleftrightarrow> where_sql x \<and> x \<in> set base_rows \<and> row_of (spatial_all deltas dir ty) (fst x) = None"
      using kept [of x] by (auto simp: ids_of_first_rows)
    ultimately show ?thesis using delta [of x] base [of x] by (cases "row_of (spatial_all deltas dir ty) (fst x)") (auto simp: overlay_row_def)
  qed
  show ?thesis using False l(1,3) rows by (simp add: current_rows_def spatial_delta_layer_def rbind_def Let_def del: split_paired_All)
qed

section \<open>Histories of batches\<close>

text \<open>
  A batch has one row for each id, a cell in every row that is not deleted, and the cell of the id's current row as previous cell.
  A history starts with a generation that has no tiers; its batches are listed newest first.
\<close>

definition current_cell :: "(int \<Rightarrow> 'b base_row option) \<Rightarrow> deltas \<Rightarrow> ('b, 's) delta_dir \<Rightarrow> delta_type \<Rightarrow> int \<Rightarrow> string option" where
  "current_cell base deltas dir ty i = base_cell (overlay_row base (byid_all deltas dir ty)) i"

definition batch_ok :: "(delta_type \<Rightarrow> int \<Rightarrow> 'b base_row option) \<Rightarrow> deltas \<Rightarrow> ('b, 's) delta_dir \<Rightarrow> (delta_type \<Rightarrow> 's drow list) \<Rightarrow> bool" where
  "batch_ok base deltas dir resolved \<longleftrightarrow> (\<forall>ty. one_per_id (resolved ty) \<and>
     (\<forall>r\<in>set (resolved ty). (d_cell r = None \<longrightarrow> d_deleted r) \<and> d_prev_cell r = current_cell (base ty) deltas dir ty (d_id r)))"

inductive updates :: "unicode_db \<Rightarrow> pystr \<Rightarrow> ('s \<Rightarrow> 'b) \<Rightarrow> (delta_type \<Rightarrow> int \<Rightarrow> 'b base_row option) \<Rightarrow>
    (delta_type \<Rightarrow> 's drow list) list \<Rightarrow> deltas \<Rightarrow> ('b, 's) delta_dir \<Rightarrow> bool"
  for u gen p base where
  start: "updates u gen p base [] (\<lambda>_. None) dir"
| batch: "updates u gen p base batches deltas dir \<Longrightarrow> batch_ok base deltas dir resolved \<Longrightarrow>
    write_tiers u gen p deltas resolved first_seq last_seq ts dir = Inr (vs, deltas', dir') \<Longrightarrow> updates u gen p base (resolved # batches) deltas' dir'"

definition logged :: "('s \<Rightarrow> 'b) \<Rightarrow> (delta_type \<Rightarrow> 's drow list) list \<Rightarrow> delta_type \<Rightarrow> 'b drow list" where
  "logged p batches ty = map (proj_row p) (concat (map (\<lambda>b. b ty) batches))"

lemma overlay_row_content: "rows_by_id a = rows_by_id b \<Longrightarrow> overlay_row base a = overlay_row base b"
proof -
  have "overlay_row base a = (\<lambda>i. case rows_by_id a i of None \<Rightarrow> base i | Some r \<Rightarrow> if d_deleted r then None else Some (base_columns r))" for a
    by (auto simp: overlay_row_def rows_by_id_def content_def base_columns_def fun_eq_iff split: option.splits)
  then show "rows_by_id a = rows_by_id b \<Longrightarrow> overlay_row base a = overlay_row base b" by simp
qed

lemma rows_byid_all: "rows_by_id (byid_all deltas dir ty) = tier_state deltas dir ty"
  by (simp add: byid_all_def tier_state_def raw_view_def rows_by_id_def row_of_first_rows fun_eq_iff)

lemma no_first_prev: "first_prev deltas dir ty i = None \<longleftrightarrow> row_of (byid_all deltas dir ty) i = None"
  by (auto simp: first_prev_def overlay_def prevs_def byid_all_def row_of_append split: option.splits)

definition cell_or_deleted :: "'b drow \<Rightarrow> bool" where
  "cell_or_deleted r \<longleftrightarrow> d_cell r = None \<longrightarrow> d_deleted r"

lemma updates_invariant:
  assumes "updates u gen p base batches deltas dir"
  shows "deltas_ok p gen deltas dir \<and> (\<forall>ty. tier_state deltas dir ty = rows_by_id (logged p batches ty) \<and> base_tracked (base ty) deltas dir ty \<and>
    (\<forall>r\<in>stored deltas dir ty. cell_or_deleted r))"
  using assms
proof induction
  case (start dir)
  have "tier_state (\<lambda>_. None) dir ty = rows_by_id (logged p [] ty)" for ty by (simp add: tier_state_tiers tier_rows_def logged_def rows_by_id_Nil)
  moreover have "base_tracked (base ty) (\<lambda>_. None) dir ty" for ty by (simp add: base_tracked_def first_prev_def tier_rows_def prevs_Nil)
  ultimately show ?case by (simp add: deltas_ok_def stored_def tier_rows_def rows_by_id_Nil)
next
  case (batch batches deltas dir resolved first_seq last_seq ts vs deltas' dir')
  have one: "one_per_id (resolved ty)" for ty using batch.hyps(2) by (simp add: batch_ok_def)
  have "write_result p gen resolved deltas dir deltas' dir'"
    by (rule write_tiers_ok [of p gen deltas dir resolved u first_seq last_seq ts]) (use batch one in auto)
  then have ok: "deltas_ok p gen deltas' dir'"
    and state: "tier_state deltas' dir' ty = overlay (rows_by_id (map (proj_row p) (resolved ty))) (tier_state deltas dir ty)"
    and prev: "first_prev deltas' dir' ty = overlay (first_prev deltas dir ty) (prevs (resolved ty))"
    and sub: "stored deltas' dir' ty \<subseteq> stored deltas dir ty \<union> ran (rows_by_id (map (proj_row p) (resolved ty)))" for ty
    by (simp_all add: write_result_def)
  have "tier_state deltas' dir' ty = rows_by_id (logged p (resolved # batches) ty)" for ty
    using batch.IH state by (simp add: logged_def rows_by_id_append)
  moreover have "base_tracked (base ty) deltas' dir' ty" for ty
    unfolding base_tracked_def
  proof (intro allI impI)
    fix i c
    assume c: "first_prev deltas' dir' ty i = Some c"
    show "c = base_cell (base ty) i"
    proof (cases "first_prev deltas dir ty i")
      case None
      then obtain r where r: "row_of (resolved ty) i = Some r" "c = d_prev_cell r" using c by (auto simp: prev overlay_def prevs_def)
      then have "c = current_cell (base ty) deltas dir ty i" using batch.hyps(2) row_of_id [OF r(1)] by (auto simp: batch_ok_def)
      then show ?thesis using None by (simp add: no_first_prev current_cell_def base_cell_def overlay_row_def)
    next
      case (Some c')
      then show ?thesis using c batch.IH by (auto simp: prev overlay_def base_tracked_def)
    qed
  qed
  moreover have "cell_or_deleted r" if "r \<in> stored deltas' dir' ty" for r ty
  proof -
    have "r \<in> stored deltas dir ty \<or> (\<exists>i s. row_of (resolved ty) i = Some s \<and> r = content (proj_row p s))"
      using that sub [of ty] by (auto simp: ran_def rows_by_id_def row_of_map)
    then show ?thesis using batch.IH batch.hyps(2) by (auto simp: batch_ok_def cell_or_deleted_def content_def dest!: row_of_id)
  qed
  ultimately show ?case using ok by blast
qed

text \<open>A spatial row has the columns of the by-id row.\<close>

definition proj_base :: "('s \<Rightarrow> 'b) \<Rightarrow> 's base_row \<Rightarrow> 'b base_row" where
  "proj_base p x = (case x of (i, c, h, cols) \<Rightarrow> (i, c, h, p cols))"

lemma spatial_cells:
  assumes "deltas_ok p gen deltas dir" and "\<forall>r\<in>stored deltas dir ty. cell_or_deleted r"
  shows "\<forall>r\<in>set (spatial_all deltas dir ty). d_cell r = None \<longrightarrow> d_deleted r"
proof
  fix r
  assume "r \<in> set (spatial_all deltas dir ty)"
  then obtain tr where r: "r \<in> set (spatial_of deltas dir ty tr)" by (auto simp: spatial_all_def)
  then obtain m where m: "deltas tr = Some m" by (cases "deltas tr") (simp_all add: spatial_of_def)
  obtain ts where "tables_agree p (tier_rows deltas dir ty tr, spatial_of deltas dir ty tr)" by (rule tier_tables [OF assms(1) m])
  then have "row_of (spatial_of deltas dir ty tr) (d_id r) = Some r" using r by (simp add: tables_agree_def row_of_iff)
  then have "rows_by_id (tier_rows deltas dir ty tr) (d_id r) = Some (content (proj_row p r))" by (simp add: rows_by_id_def spatial_agrees [OF assms(1)])
  then have "content (proj_row p r) \<in> stored deltas dir ty" by (cases tr) (auto simp: stored_def ran_def)
  then have "cell_or_deleted (content (proj_row p r))" using assms(2) by blast
  then show "d_cell r = None \<longrightarrow> d_deleted r" by (simp add: cell_or_deleted_def content_def)
qed

lemma spatial_overlay:
  assumes "deltas_ok p gen deltas dir"
  shows "map_option (proj_base p) (overlay_row base (spatial_all deltas dir ty) i) =
    overlay_row (\<lambda>i. map_option (proj_base p) (base i)) (byid_all deltas dir ty) i"
proof -
  have "row_of (byid_all deltas dir ty) i = map_option (proj_row p) (row_of (spatial_all deltas dir ty) i)"
    by (simp add: byid_all_def spatial_all_def row_of_append spatial_agrees [OF assms] split: option.splits)
  then show ?thesis by (cases "row_of (spatial_all deltas dir ty) i") (simp_all add: overlay_row_def proj_base_def base_columns_def proj_row_def)
qed

lemma base_tracked_proj: "base_tracked (\<lambda>i. map_option (proj_base p) (base i)) deltas dir ty \<longleftrightarrow> base_tracked base deltas dir ty"
proof -
  have "base_cell (\<lambda>i. map_option (proj_base p) (base i)) i = base_cell base i" for i
    by (auto simp: base_cell_def proj_base_def split: option.splits)
  then show ?thesis by (simp add: base_tracked_def)
qed

end
