(* ===== verification/Sources_Properties.thy ===== *)
theory Sources_Properties
  imports Sources_Correct
begin

text \<open>What queries read after a history of batches.\<close>

text \<open>
  C10. After any history of batches, reading a table by cells succeeds, whatever tiers the batches are in and with any
  cache filled from the same files. The rows read are those that satisfy the query and are either the current
  row of their id, in one of the cells, where the current row is that of the newest batch that has the id, or of the base; or a
  row of a lower tier, in one of the cells, of an id that a higher tier has moved out of the cells.
\<close>

theorem cells_read_after_updates:
  assumes "updates u gen p (\<lambda>ty i. map_option (proj_base p) (base ty i)) batches deltas dir" and "cache_ok dir cache"
    and "\<forall>b. b \<in> set base_rows \<longleftrightarrow> base ty (fst b) = Some b \<and> in_cells cells (fst (snd b))"
  shows "\<exists>res cache'. current_rows deltas dir ty cells base_rows where_sql cache = Inr (res, cache') \<and> cache_ok dir cache' \<and>
    (\<forall>x. x \<in> set (sr_rows res) \<longleftrightarrow> where_sql x \<and>
      (overlay_row (base ty) (spatial_all deltas dir ty) (fst x) = Some x \<and> in_cells cells (fst (snd x)) \<or> stale_row deltas dir ty cells x)) \<and>
    (\<forall>i. map_option (proj_base p) (overlay_row (base ty) (spatial_all deltas dir ty) i) =
      overlay_row (\<lambda>i. map_option (proj_base p) (base ty i)) (logged p batches ty) i)"
proof -
  have inv: "deltas_ok p gen deltas dir" "rows_by_id (byid_all deltas dir ty) = rows_by_id (logged p batches ty)"
    "base_tracked (base ty) deltas dir ty" "\<forall>r\<in>stored deltas dir ty. cell_or_deleted r"
    using updates_invariant [OF assms(1)] by (simp_all add: rows_byid_all base_tracked_proj)
  have "b \<in> set base_rows \<longleftrightarrow> base ty (fst b) = Some b \<and> in_cells cells (fst (snd b))" for b using assms(3) by blast
  from current_rows_ok [OF inv(1) assms(2) inv(3) spatial_cells [OF inv(1,4)] this, of where_sql] show ?thesis
    using spatial_overlay [OF inv(1), of "base ty"] overlay_row_content [OF inv(2)] by simp
qed

text \<open>
  A node that is created in one cell and moved to another one an hour later, when the first batch is in the day tier: reading the first cell still gives the old row.
\<close>

definition node7 :: "string \<Rightarrow> string option \<Rightarrow> delta_type \<Rightarrow> int drow list" where
  "node7 c prev ty = (if ty = DNode then [\<lparr>d_id = 7, d_cell = Some c, d_hilbert = None, d_cols = 0, d_deleted = False, d_prev_cell = prev, d_seq = 5\<rparr>] else [])"

lemma hour_passes: "crossed floor_hour (parse_ts ascii_db (Some (lit ''2024-06-01T10:00:00Z''))) (parse_ts ascii_db (Some (lit ''2024-06-01T11:00:00Z'')))"
  by code_simp

lemma put_tier_meta:
  assumes "put_tier gen tr merged sf sto ts v (vs, deltas, dir) = (vs', deltas', dir')" and "fst (merged ty) \<noteq> []"
  shows "\<exists>m. deltas' tr = Some m \<and> tm_timestamp m = ts"
proof -
  have "write_tier_version gen tr merged sf sto ts v dir \<noteq> None"
    using assms(2) by (cases ty) (auto simp: write_tier_version_def Let_def delta_types_def)
  then obtain m d where w: "write_tier_version gen tr merged sf sto ts v dir = Some (m, d)" by auto
  then have "tm_timestamp m = ts" by (auto simp: write_tier_version_def Let_def split: if_splits)
  then show ?thesis using assms(1) w by (auto simp: put_tier_def)
qed

lemma put_tier_rows:
  assumes "deltas_ok p gen deltas dir" and "\<forall>m. deltas tr = Some m \<longrightarrow> tm_version m \<noteq> v" and "\<And>ty. tables_agree p (merged ty)"
    and "put_tier gen tr merged sf sto ts v (vs, deltas, dir) = (vs', deltas', dir')" and "fst (merged ty0) \<noteq> []"
  shows "row_of (tier_rows deltas' dir' ty tr) = row_of (fst (merged ty))"
  using put_tier_ok(5) [OF assms(1-4)] assms(5) by blast

lemma moved_node:
  obtains deltas dir where "updates ascii_db [] (\<lambda>x. x) (\<lambda>_ _. None) [node7 ''1'' (Some ''0''), node7 ''0'' None] deltas dir"
    "row_of (tier_rows deltas dir DNode Hour) 7 = Some (hd (node7 ''1'' (Some ''0'') DNode))"
    "row_of (tier_rows deltas dir DNode Day) 7 = Some (hd (node7 ''0'' None DNode))"
proof -
  let ?t1 = "Some (lit ''2024-06-01T10:00:00Z'')" and ?t2 = "Some (lit ''2024-06-01T11:00:00Z'')" and ?b1 = "node7 ''0'' None" and ?b2 = "node7 ''1'' (Some ''0'')"
  let ?none = "\<lambda>_::tier. None :: tier_meta option"
  have bt: "fst (batch_tables (\<lambda>x. x) (node7 c prev) ty) = node7 c prev ty" for c prev ty by (simp add: batch_tables_def node7_def proj_row_def)
  have ok0: "deltas_ok (\<lambda>x. x) [] ?none dir" for dir :: "(int, int) delta_dir" by (simp add: deltas_ok_def)
  have ne: "node7 c prev DNode \<noteq> []" for c prev by (simp add: node7_def)
  have one: "one_per_id (node7 c prev ty)" for c prev ty by (simp add: node7_def)
  obtain vs1 d1 and dir1 :: "(int, int) delta_dir" where put1: "put_tier [] Hour (batch_tables (\<lambda>x. x) ?b1) 5 5 ?t1 1 (Map.empty, ?none, Map.empty) = (vs1, d1, dir1)"
    by (rule prod_cases3)
  have w1: "write_tiers ascii_db [] (\<lambda>x. x) ?none ?b1 5 5 ?t1 Map.empty = Inr (vs1, d1, dir1)"
    using put1 by (simp add: write_tiers_def tier_crossings_def crossed_def load_old_def rbind_def next_version_def merge_type_def Let_def)
  have "batch_ok (\<lambda>_ _. None) ?none (Map.empty :: (int, int) delta_dir) ?b1"
    by (simp add: batch_ok_def one) (simp add: node7_def current_cell_def base_cell_def overlay_row_def byid_all_def tier_rows_def)
  from updates.batch [OF updates.start this w1] have u1: "updates ascii_db [] (\<lambda>x. x) (\<lambda>_ _. None) [?b1] d1 dir1" .
  note p1 = put_tier_ok [OF ok0 _ batch_agree [OF one] put1, simplified bt]
  obtain m where m: "d1 Hour = Some m" "tm_timestamp m = ?t1" using put_tier_meta [OF put1, of DNode] by (auto simp: bt node7_def)
  have d1: "d1 Day = None" "row_of (tier_rows d1 dir1 ty Hour) = row_of (?b1 ty)" for ty 
    using p1(2) [of Day] put_tier_rows [OF ok0 _ batch_agree [OF one] put1, of DNode ty] ne by (simp_all add: bt)
  obtain H where H: "load_old dir1 (d1 Hour) = Inr H" "\<And>ty t. H ty = Some t \<Longrightarrow> tables_agree (\<lambda>x. x) t"
    "\<And>ty. opt_rows (H ty) = tier_rows d1 dir1 ty Hour" "\<And>ty. d1 Hour \<noteq> None \<Longrightarrow> H ty \<noteq> None" 
    by (rule load_old_ok [OF p1(1), of Hour]) blast+
  have some: "H ty = Some (the (H ty))" for ty using H(4) [of ty] m(1) by auto
  have h: "tables_agree (\<lambda>x. x) (the (H ty))" for ty by (rule H(2) [OF some])
  have h_rows: "fst (the (H ty)) = tier_rows d1 dir1 ty Hour" for ty using H(3) [of ty] some [of ty] by (cases "the (H ty)") (simp add: opt_rows_def)
  obtain vs2 d2 dir2 where put2: "put_tier [] Day (\<lambda>ty. the (H ty)) (tm_seq_from m) (tm_seq_to m) ?t1 1 (Map.empty, d1, dir1) = (vs2, d2, dir2)" by (rule prod_cases3)
  obtain vs3 d3 dir3 where put3: "put_tier [] Hour (batch_tables (\<lambda>x. x) ?b2) 6 6 ?t2 (next_version (d1 Hour)) (vs2, d2, dir2) = (vs3, d3, dir3)" by (rule prod_cases3)
  have "tier_crossings ascii_db d1 ?t2 = (True, False)" using hour_passes m d1(1) by (simp add: tier_crossings_def crossed_def)
  then have w2: "write_tiers ascii_db [] (\<lambda>x. x) d1 ?b2 6 6 ?t2 dir1 = Inr (vs3, d3, dir3)"
    using put2 put3 H(1) m d1(1) by (simp add: write_tiers_def load_old_def rbind_def merge_type_def min_seq_from_def next_version_def Let_def)
  have "current_cell (\<lambda>_. None) d1 dir1 DNode 7 = Some ''0''"
    using d1 by (simp add: current_cell_def base_cell_def overlay_row_def byid_all_def row_of_append node7_def base_columns_def)
  then have "batch_ok (\<lambda>_ _. None) d1 dir1 ?b2" by (simp add: batch_ok_def one) (simp add: node7_def)
  from updates.batch [OF u1 this w2] have u2: "updates ascii_db [] (\<lambda>x. x) (\<lambda>_ _. None) [?b2, ?b1] d3 dir3" .
  note p2 = put_tier_ok [OF p1(1) _ h put2]
  have "d2 Hour = d1 Hour" using p2(2) [of Hour] d1(1) by simp
  then have fresh: "\<forall>m. d2 Hour = Some m \<longrightarrow> tm_version m \<noteq> next_version (d1 Hour)" by (simp add: next_version_def)
  have ok2: "deltas_ok (\<lambda>x. x) [] d2 dir2" using p2(1) d1(1) by simp
  note p3 = put_tier_ok [OF ok2 fresh batch_agree [OF one] put3]
  show ?thesis
  proof (rule that [OF u2])
    show "row_of (tier_rows d3 dir3 DNode Hour) 7 = Some (hd (?b2 DNode))" 
      using put_tier_rows [OF ok2 fresh batch_agree [OF one] put3, of DNode DNode] by (simp add: bt node7_def)
    have "fst (the (H DNode)) \<noteq> []" using fun_cong [OF d1(2) [of DNode], of 7] by (auto simp: h_rows node7_def)
    then have "row_of (tier_rows d2 dir2 DNode Day) = row_of (?b1 DNode)" 
      using put_tier_rows [OF p1(1) _ h put2, of DNode DNode] d1 by (simp add: h_rows)
    then show "row_of (tier_rows d3 dir3 DNode Day) 7 = Some (hd (?b1 DNode))" using p3(4) [of Day DNode] by (simp add: node7_def)
  qed
qed

theorem cells_read_after_updates_witness:
  "\<exists>deltas (dir :: (int, int) delta_dir) res cache'. updates ascii_db [] (\<lambda>x. x) (\<lambda>_ _. None) [node7 ''1'' (Some ''0''), node7 ''0'' None] deltas dir \<and>
    current_rows deltas dir DNode [''0''] [] (\<lambda>_. True) Map.empty = Inr (res, cache') \<and> (7, Some ''0'', None, 0) \<in> set (sr_rows res) \<and>
    overlay_row (\<lambda>_. None) (spatial_all deltas dir DNode) 7 = Some (7, Some ''1'', None, 0)"
proof -
  obtain deltas and dir :: "(int, int) delta_dir" where u: "updates ascii_db [] (\<lambda>x. x) (\<lambda>_ _. None) [node7 ''1'' (Some ''0''), node7 ''0'' None] deltas dir"
    and rows: "row_of (tier_rows deltas dir DNode Hour) 7 = Some (hd (node7 ''1'' (Some ''0'') DNode))"
      "row_of (tier_rows deltas dir DNode Day) 7 = Some (hd (node7 ''0'' None DNode))"
    by (rule moved_node)
  have ok: "deltas_ok (\<lambda>x. x) [] deltas dir" using updates_invariant [OF u] by blast
  have same: "map_option (proj_row (\<lambda>x. x)) v = Some r \<longleftrightarrow> v = Some r" for v and r :: "int drow" by (cases v; cases r) (auto simp: proj_row_def)
  have sp: "row_of (spatial_of deltas dir DNode Hour) 7 = Some (hd (node7 ''1'' (Some ''0'') DNode))"
    "row_of (spatial_of deltas dir DNode Day) 7 = Some (hd (node7 ''0'' None DNode))"
    using rows unfolding spatial_agrees [OF ok] same by simp_all
  obtain res cache' where res: "current_rows deltas dir DNode [''0''] [] (\<lambda>_. True) Map.empty = Inr (res, cache')"
    "\<forall>x. stale_row deltas dir DNode [''0''] x \<longrightarrow> x \<in> set (sr_rows res)"
    using cells_read_after_updates [of ascii_db "[]" "\<lambda>x. x" "\<lambda>_ _. None" "[node7 ''1'' (Some ''0''), node7 ''0'' None]" deltas dir
      Map.empty "[]" DNode "[''0'']" "\<lambda>_. True"] u by (simp add: cache_ok_def del: split_paired_All split_paired_Ex) blast
  have one: "one_per_id (spatial_of deltas dir DNode tr)" for tr using spatial_one_per_id [OF ok] .
  have "stale_row deltas dir DNode [''0''] (7, Some ''0'', None, 0)"
    by (simp add: stale_row_def spatial_all_def row_of_append row_of_filter_one [OF one] sp in_cells_def node7_def base_columns_def)
  moreover have "overlay_row (\<lambda>_. None) (spatial_all deltas dir DNode) 7 = Some (7, Some ''1'', None, 0)"
    by (simp add: overlay_row_def spatial_all_def row_of_append sp node7_def base_columns_def)
  ultimately show ?thesis using u res by blast
qed

text \<open>
  C4. After any history of batches, reading the by-id table gives, of the ids asked for, exactly the rows of the newest batch
  that has the id, unless it deletes it, and the base row of an id in no batch, that satisfy the tag filters.
\<close>

theorem ids_read_after_updates:
  assumes "updates u gen p base batches deltas dir" and "cache_ok dir cache" and "\<forall>b. b \<in> set base_rows \<longleftrightarrow> base ty (fst b) = Some b"
  shows "\<exists>res cache'. byid_current_rows deltas dir ty base_rows id_pred tag_where cache = Inr (res, cache') \<and> cache_ok dir cache' \<and>
    (\<forall>x. x \<in> set (sr_rows res) \<longleftrightarrow> id_pred (fst x) \<and> tag_where x \<and> overlay_row (base ty) (logged p batches ty) (fst x) = Some x)"
proof -
  have inv: "deltas_ok p gen deltas dir" "rows_by_id (byid_all deltas dir ty) = rows_by_id (logged p batches ty)"
    using updates_invariant [OF assms(1)] by (simp_all add: rows_byid_all)
  have "b \<in> set base_rows \<longleftrightarrow> base ty (fst b) = Some b" for b using assms(3) by blast
  from byid_current_rows_ok [OF inv(1) assms(2) this, of ty id_pred tag_where] show ?thesis by (simp only: overlay_row_content [OF inv(2)])
qed

text \<open>The same node by its id, in the later place.\<close>

theorem ids_read_after_updates_witness:
  "\<exists>deltas (dir :: (int, int) delta_dir) res cache'. updates ascii_db [] (\<lambda>x. x) (\<lambda>_ _. None) [node7 ''1'' (Some ''0''), node7 ''0'' None] deltas dir \<and>
    byid_current_rows deltas dir DNode [] (\<lambda>i. i = 7) (\<lambda>_. True) Map.empty = Inr (res, cache') \<and> set (sr_rows res) = {(7, Some ''1'', None, 0)}"
proof -
  let ?bs = "[node7 ''1'' (Some ''0''), node7 ''0'' None]"
  obtain deltas and dir :: "(int, int) delta_dir" where u: "updates ascii_db [] (\<lambda>x. x) (\<lambda>_ _. None) ?bs deltas dir" by (rule moved_node)
  have row: "overlay_row (\<lambda>_. None) (logged (\<lambda>x. x) ?bs DNode) 7 = Some (7, Some ''1'', None, 0)"
    by (simp add: overlay_row_def logged_def node7_def proj_row_def base_columns_def)
  obtain res cache' where res: "byid_current_rows deltas dir DNode [] (\<lambda>i. i = 7) (\<lambda>_. True) Map.empty = Inr (res, cache')"
    "\<forall>x. x \<in> set (sr_rows res) \<longleftrightarrow> fst x = 7 \<and> overlay_row (\<lambda>_. None) (logged (\<lambda>x. x) ?bs DNode) (fst x) = Some x"
    using ids_read_after_updates [OF u, of Map.empty "[]" DNode "\<lambda>i. i = 7" "\<lambda>_. True"] by (simp add: cache_ok_def del: split_paired_All split_paired_Ex) blast
  have "x \<in> set (sr_rows res) \<longleftrightarrow> x = (7, Some ''1'', None, 0)" for x using res(2) row by (metis fst_conv option.inject)
  then show ?thesis using u res(1) by blast
qed

end
