(* ===== verification/Recurse.thy ===== *)
theory Recurse
  imports Attic Evalsql
begin

text \<open>
  \<^verbatim>\<open>src/src/osmpq/engine/setops.py\<close> and \<^verbatim>\<open>src/src/osmpq/engine/recurse.py\<close>: the tables of sets, and the recursion
  operators. A set is the table \<open>set_<name>\<close> of the connection. The catalog of the database looks a name up without regard to
  the case of ASCII letters, and keeps the spelling of the statement that has created the table. What reads files (the \<open>SELECT\<close> builders of
  \<^verbatim>\<open>sources.py\<close>, the parents of an element, the filters and statements of the hook modules) is in the record
  \<open>engine_env\<close>; each function gets the date of the snapshot and what it is asked for, and gives rows and the number of files read. A
  reader that has nothing to read from gives no table, as a builder that returns no \<open>SELECT\<close>.
\<close>

section \<open>Sets\<close>

text \<open>The tables by the folded name of the set: the spelling that created the table, and its rows.\<close>

type_synonym sets = "pystr \<Rightarrow> (pystr \<times> out_row list) option"

definition fold_name :: "pystr \<Rightarrow> pystr" where
  "fold_name name = map lower name"

text \<open>\<open>CREATE OR REPLACE TEMP TABLE set_<name>\<close> replaces a table whose name differs in case only.\<close>

definition create_table :: "pystr \<Rightarrow> out_row list \<Rightarrow> sets \<Rightarrow> sets" where
  "create_table name rows sets = sets(fold_name name \<mapsto> (name, rows))"

text \<open>\<open>duckdb_tables() WHERE table_name = ..\<close> compares the spelling.\<close>

definition listed :: "sets \<Rightarrow> pystr \<Rightarrow> bool" where
  "listed sets name = (case sets (fold_name name) of Some (spelling, rows) \<Rightarrow> spelling = name | None \<Rightarrow> False)"

definition row_key :: "out_row \<Rightarrow> el_key" where
  "row_key r = (r_type r, r_id r)"

definition keys_of :: "out_row list \<Rightarrow> el_key set" where
  "keys_of rows = row_key ` set rows"

text \<open>One row for each type and id, the first; the database may keep any.\<close>

fun first_of_key :: "el_key set \<Rightarrow> out_row list \<Rightarrow> out_row list" where
  "first_of_key seen [] = []"
| "first_of_key seen (r # rs) = (if row_key r \<in> seen then first_of_key seen rs else r # first_of_key (insert (row_key r) seen) rs)"

definition materialize :: "pystr \<Rightarrow> out_row list \<Rightarrow> sets \<Rightarrow> sets" where
  "materialize name rows sets = create_table name (first_of_key {} rows) sets"

definition union_rows :: "out_row list list \<Rightarrow> out_row list" where
  "union_rows parts = concat parts"

definition difference_rows :: "out_row list \<Rightarrow> out_row list \<Rightarrow> out_row list" where
  "difference_rows a b = filter (\<lambda>r. row_key r \<notin> keys_of b) a"

section \<open>What the engine reads\<close>

text \<open>A row of a hop table: type, id and the cell if it is known.\<close>

type_synonym hop = "pystr \<times> int \<times> pystr option"

record engine_env =
  e_unicode :: unicode_db
  e_history :: "hist_files option"
  e_since :: "pystr option"
  e_global_bbox :: "bbox4 option"
  e_areas_used :: bool
  e_diff_mode :: bool
  e_spatial :: "datetime option \<Rightarrow> string \<Rightarrow> bbox4 option \<Rightarrow> filter_ast list \<Rightarrow> int list option \<Rightarrow> (out_row list \<times> nat) result"
  e_byid :: "datetime option \<Rightarrow> string \<Rightarrow> int list \<Rightarrow> filter_ast list \<Rightarrow> (out_row list \<times> nat) result"
  e_tag_match :: "filter_ast list \<Rightarrow> out_row \<Rightarrow> bool"
  e_hydrate_nodes :: "datetime option \<Rightarrow> int list \<Rightarrow> out_row list \<Rightarrow> filter_ast list \<Rightarrow> (out_row list option \<times> nat) result"
  e_hydrate_ways :: "datetime option \<Rightarrow> int list \<Rightarrow> out_row list \<Rightarrow> filter_ast list \<Rightarrow> (out_row list option \<times> nat) result"
  e_hydrate_type :: "datetime option \<Rightarrow> string \<Rightarrow> (int \<times> pystr option) list \<Rightarrow> filter_ast list \<Rightarrow> (out_row list option \<times> nat) result"
  e_parents :: "datetime option \<Rightarrow> (el_key \<times> (int \<times> int) option) list \<Rightarrow> string set option \<Rightarrow> pystr option \<Rightarrow> (hop list option \<times> nat) result"
  e_hook_bbox :: "datetime option \<Rightarrow> sets \<Rightarrow> filter_ast \<Rightarrow> (bbox4 option \<times> nat \<times> pystr list) result"
  e_hook_pred :: "datetime option \<Rightarrow> sets \<Rightarrow> out_row list \<Rightarrow> filter_ast \<Rightarrow> ((out_row \<Rightarrow> bool) \<times> nat \<times> pystr list) result"
  e_area_stmt :: "datetime option \<Rightarrow> sets \<Rightarrow> statement \<Rightarrow> (out_row list \<times> nat \<times> pystr list) result"
  e_scalar :: "sets \<Rightarrow> pystr \<Rightarrow> sql_value result"
  e_geometry :: "datetime option \<Rightarrow> out_row \<Rightarrow> pystr option"
  e_node_coords :: "datetime option \<Rightarrow> out_row list \<Rightarrow> int \<Rightarrow> (int \<times> int) option"
  e_way_geoms :: "datetime option \<Rightarrow> out_row list \<Rightarrow> int \<Rightarrow> (pyfloat \<times> pyfloat) list option"
  e_no_table :: py_error
  e_fresh :: "nat \<Rightarrow> nat"

text \<open>
  \<open>e_no_table\<close> is the error of the database for a table that is not there, and \<open>e_fresh\<close> gives the numbers which the counter of the
  process hands to the unions, differences and loops of a run, in turn (the counter runs on between them).
\<close>

definition table_rows :: "engine_env \<Rightarrow> sets \<Rightarrow> pystr \<Rightarrow> out_row list result" where
  "table_rows env sets name = (case sets (fold_name name) of Some (spelling, rows) \<Rightarrow> Inr rows | None \<Rightarrow> Inl (e_no_table env))"

section \<open>One hop\<close>

definition is_type :: "string \<Rightarrow> out_row \<Rightarrow> bool" where
  "is_type t r \<longleftrightarrow> r_type r = lit t"

definition way_refs :: "out_row \<Rightarrow> hop list" where
  "way_refs r = (if is_type ''way'' r then (case r_refs r of Some refs \<Rightarrow> map (\<lambda>i. (lit ''node'', i, None)) refs | None \<Rightarrow> []) else [])"

definition rel_refs :: "string set \<Rightarrow> pystr option \<Rightarrow> out_row \<Rightarrow> hop list" where
  "rel_refs chars role r =
     (if is_type ''relation'' r then
        (case r_members r of
           Some ms \<Rightarrow> map (\<lambda>m. (member_type_name (rm_type m), rm_ref m, None))
                        (filter (\<lambda>m. rm_type m \<in> lit ` chars \<and> (role = None \<or> rm_role m = role)) ms)
         | None \<Rightarrow> [])
      else [])"

definition wants :: "string set option \<Rightarrow> string \<Rightarrow> bool" where
  "wants ts t = (case ts of None \<Rightarrow> True | Some s \<Rightarrow> t \<in> s)"

definition forward_new_ids :: "out_row list \<Rightarrow> string set option \<Rightarrow> pystr option \<Rightarrow> string set option \<Rightarrow> hop list option" where
  "forward_new_ids source restrict_source_types role rel_member_types =
     (let want_way = wants restrict_source_types ''way'';
          wanted_chars = filter (wants rel_member_types) [''n'', ''w'', ''r''];
          want_rel = (wants restrict_source_types ''relation'' \<and> wanted_chars \<noteq> [])
      in if \<not> want_way \<and> \<not> want_rel then None
         else Some (remdups ((if want_way then concat (map way_refs source) else []) @
                             (if want_rel then concat (map (rel_refs (set wanted_chars) role) source) else []))))"

definition hop_ids :: "string \<Rightarrow> hop list \<Rightarrow> int list" where
  "hop_ids t hops = remdups (map (\<lambda>(ty, i, c). i) (filter (\<lambda>(ty, i, c). ty = lit t) hops))"

text \<open>\<open>UNION ALL\<close> of the tables that there are.\<close>

definition union_opt :: "out_row list option list \<Rightarrow> out_row list option" where
  "union_opt parts = (let tables = List.map_filter id parts in if tables = [] then None else Some (concat tables))"

definition hydrate_one ::
  "engine_env \<Rightarrow> datetime option \<Rightarrow> hop list \<Rightarrow> filter_ast list \<Rightarrow> string set option \<Rightarrow> string \<Rightarrow> (out_row list option \<times> nat) result" where
  "hydrate_one env snap hops tags only_types t =
     (let ids = remdups (map (\<lambda>(ty, i, c). (i, c)) (filter (\<lambda>(ty, i, c). ty = lit t) hops))
      in if \<not> wants only_types t \<or> ids = [] then Inr (None, 0) else e_hydrate_type env snap t ids tags)"

definition hydrate_ids_table ::
  "engine_env \<Rightarrow> datetime option \<Rightarrow> hop list \<Rightarrow> filter_ast list \<Rightarrow> string set option \<Rightarrow> (out_row list option \<times> nat) result" where
  "hydrate_ids_table env snap hops tags only_types =
     rbind (hydrate_one env snap hops tags only_types ''node'') (\<lambda>(n, f1).
     rbind (hydrate_one env snap hops tags only_types ''way'') (\<lambda>(w, f2).
     rbind (hydrate_one env snap hops tags only_types ''relation'') (\<lambda>(r, f3).
       Inr (union_opt [n, w, r], f1 + f2 + f3))))"

definition hydrate_if ::
  "(datetime option \<Rightarrow> int list \<Rightarrow> out_row list \<Rightarrow> filter_ast list \<Rightarrow> (out_row list option \<times> nat) result) \<Rightarrow>
   datetime option \<Rightarrow> int list \<Rightarrow> out_row list \<Rightarrow> (out_row list option \<times> nat) result" where
  "hydrate_if h snap ids near = (if ids = [] then Inr (None, 0) else h snap ids near [])"

section \<open>\<open>>\<close> and \<open><\<close>\<close>

definition build_forward_one_hop :: "engine_env \<Rightarrow> datetime option \<Rightarrow> out_row list \<Rightarrow> (out_row list \<times> nat) result" where
  "build_forward_one_hop env snap source =
     (case forward_new_ids source None None (Some {''n'', ''w''}) of
        None \<Rightarrow> Inr ([], 0)
      | Some hops \<Rightarrow>
          rbind (hydrate_if (e_hydrate_ways env) snap (hop_ids ''way'' hops) (filter (is_type ''relation'') source)) (\<lambda>(way_rows, f1).
            (let way_nodes = (case way_rows of None \<Rightarrow> []
                              | Some ws \<Rightarrow> (case forward_new_ids ws (Some {''way''}) None None of None \<Rightarrow> [] | Some hs \<Rightarrow> hop_ids ''node'' hs));
                 near = filter (is_type ''way'') source @ filter (is_type ''relation'') source @ (case way_rows of None \<Rightarrow> [] | Some ws \<Rightarrow> ws)
             in rbind (e_hydrate_nodes env snap (remdups (hop_ids ''node'' hops @ way_nodes)) near []) (\<lambda>(node_rows, f2).
                  Inr ((case union_opt [way_rows, node_rows] of None \<Rightarrow> [] | Some rows \<Rightarrow> rows), f1 + f2)))))"

text \<open>The source of a backward hop: keys, and the places of nodes.\<close>

definition source_of :: "out_row list \<Rightarrow> (el_key \<times> (int \<times> int) option) list" where
  "source_of rows = map (\<lambda>r. (row_key r, if is_type ''node'' r then Some (r_lat_e7 r, r_lon_e7 r) else None)) rows"

definition build_backward_one_hop :: "engine_env \<Rightarrow> datetime option \<Rightarrow> out_row list \<Rightarrow> (out_row list \<times> nat) result" where
  "build_backward_one_hop env snap source =
     rbind (e_parents env snap (source_of source) None None) (\<lambda>(hop, f1).
       case hop of
         None \<Rightarrow> Inr ([], f1)
       | Some hops \<Rightarrow>
           rbind (e_parents env snap (map (\<lambda>(t, i, c). ((t, i), None)) hops) (Some {''way''}) None) (\<lambda>(extra, f2).
             (let merged = (case extra of None \<Rightarrow> hops | Some es \<Rightarrow> remdups (hops @ es))
              in rbind (hydrate_ids_table env snap merged [] None) (\<lambda>(rows, f3).
                   Inr ((case rows of None \<Rightarrow> [] | Some rs \<Rightarrow> rs), f1 + f2 + f3)))))"

section \<open>\<open>>>\<close> and \<open><<\<close>\<close>

definition hydrate_hop :: "engine_env \<Rightarrow> datetime option \<Rightarrow> bool \<Rightarrow> out_row list \<Rightarrow> hop list \<Rightarrow> (out_row list option \<times> nat) result" where
  "hydrate_hop env snap forward frontier new =
     (if forward then
        (let near = filter (\<lambda>r. is_type ''way'' r \<or> is_type ''relation'' r) frontier
         in rbind (hydrate_if (e_hydrate_ways env) snap (hop_ids ''way'' new) near) (\<lambda>(ways, f1).
            rbind (hydrate_if (e_hydrate_nodes env) snap (hop_ids ''node'' new) near) (\<lambda>(nodes, f2).
            rbind (hydrate_ids_table env snap new [] (Some {''relation''})) (\<lambda>(rels, f3).
              Inr (union_opt [ways, nodes, rels], f1 + f2 + f3)))))
      else hydrate_ids_table env snap new [] None)"

definition one_hop :: "engine_env \<Rightarrow> datetime option \<Rightarrow> bool \<Rightarrow> out_row list \<Rightarrow> (hop list option \<times> nat) result" where
  "one_hop env snap forward frontier =
     (if forward then Inr (forward_new_ids frontier None None None, 0) else e_parents env snap (source_of frontier) None None)"

text \<open>The loop: the hops left, the rows of the last hop and the keys seen.\<close>

fun trans_loop :: "engine_env \<Rightarrow> datetime option \<Rightarrow> bool \<Rightarrow> nat \<Rightarrow> out_row list \<Rightarrow> el_key set \<Rightarrow> (out_row list \<times> nat) result" where
  "trans_loop env snap forward 0 frontier seen = Inr ([], 0)"
| "trans_loop env snap forward (Suc n) frontier seen =
     rbind (one_hop env snap forward frontier) (\<lambda>(hop, f1).
       case hop of
         None \<Rightarrow> Inr ([], f1)
       | Some hops \<Rightarrow>
           (let new = filter (\<lambda>(t, i, c). (t, i) \<notin> seen) hops
            in if new = [] then Inr ([], f1)
               else rbind (hydrate_hop env snap forward frontier new) (\<lambda>(rows, f2).
                      case rows of
                        None \<Rightarrow> Inr ([], f1 + f2)
                      | Some rs \<Rightarrow> rbind (trans_loop env snap forward n rs (seen \<union> set (map (\<lambda>(t, i, c). (t, i)) new)))
                          (\<lambda>(more, f3). Inr (rs @ more, f1 + f2 + f3)))))"

definition recurse_transitive :: "engine_env \<Rightarrow> datetime option \<Rightarrow> bool \<Rightarrow> out_row list \<Rightarrow> (out_row list \<times> nat) result" where
  "recurse_transitive env snap forward input_set =
     rbind (trans_loop env snap forward 10001 input_set (keys_of input_set)) (\<lambda>(rows, files).
       Inr (if forward then rows @ filter (is_type ''relation'') input_set else rows, files))"

end
