(* ===== verification/Planner.thy ===== *)
theory Planner
  imports Recurse
begin

text \<open>
  \<^verbatim>\<open>src/src/osmpq/engine/planner.py\<close>, with the statement hooks of \<^verbatim>\<open>engine/evalfilter.py\<close>, the boxes of
  \<^verbatim>\<open>engine/hooks.py\<close> and the block scope of \<open>retro\<close> in \<^verbatim>\<open>engine/attic.py\<close>: a program is run statement by statement on named
  sets. The state is the context's fields that statements change, the tables of the sets and the date of the snapshot.
  The tables in which a union, a difference or a loop keeps its parts, \<open>set___part_N\<close> and \<open>set___foreach_N\<close>, are tables of sets like the
  others: a program can name them, and a \<open>retro\<close> block saves and restores them. Python's limit on the depth of the recursion is not
  modelled: a program whose blocks are nested beyond it ends in a \<open>RecursionError\<close>.
\<close>

section \<open>Context\<close>

record exec_ctx =
  c_sets :: sets
  c_snapshot :: "datetime option"
  c_elements :: "element list"
  c_files_read :: nat
  c_warnings :: "pystr list"
  c_diff_versions :: "el_key \<Rightarrow> int option"
  c_fresh :: nat

definition unset_error :: "pystr \<Rightarrow> py_error" where
  "unset_error name = RuntimeQueryError (sql ''runtime error: set ^.'' @ name @ sql ''^ has not been set before'')"

definition require_set :: "exec_ctx \<Rightarrow> pystr \<Rightarrow> out_row list result" where
  "require_set ctx name =
     (case c_sets ctx (fold_name name) of
        Some (spelling, rows) \<Rightarrow> if spelling = name then Inr rows else Inl (unset_error name)
      | None \<Rightarrow> Inl (unset_error name))"

definition put_set :: "pystr \<Rightarrow> out_row list \<Rightarrow> nat \<Rightarrow> pystr list \<Rightarrow> exec_ctx \<Rightarrow> exec_ctx" where
  "put_set name rows files warnings ctx =
     ctx\<lparr>c_sets := materialize name rows (c_sets ctx), c_files_read := c_files_read ctx + files, c_warnings := c_warnings ctx @ warnings\<rparr>"

text \<open>A copy of rows in a table with a new name; the context after it and the name.\<close>

definition fresh_name :: "engine_env \<Rightarrow> string \<Rightarrow> nat \<Rightarrow> pystr" where
  "fresh_name env pre k = lit ''__'' @ lit pre @ lit ''_'' @ py_str_nat (e_fresh env k)"

definition snapshot_table :: "engine_env \<Rightarrow> string \<Rightarrow> out_row list \<Rightarrow> exec_ctx \<Rightarrow> exec_ctx \<times> pystr" where
  "snapshot_table env pre rows ctx =
     (let name = fresh_name env pre (c_fresh ctx)
      in (ctx\<lparr>c_sets := create_table name rows (c_sets ctx), c_fresh := Suc (c_fresh ctx)\<rparr>, name))"

text \<open>Run a list of steps in order.\<close>

primrec rfold :: "('a \<Rightarrow> 's \<Rightarrow> 's result) \<Rightarrow> 'a list \<Rightarrow> 's \<Rightarrow> 's result" where
  "rfold f [] s = Inr s"
| "rfold f (x # xs) s = rbind (f x s) (rfold f xs)"

lemma rfold_cong [fundef_cong]: "xs = ys \<Longrightarrow> (\<And>x s. x \<in> set ys \<Longrightarrow> f x s = g x s) \<Longrightarrow> rfold f xs = rfold g ys"
proof -
  assume "xs = ys" and "\<And>x s. x \<in> set ys \<Longrightarrow> f x s = g x s"
  then have "rfold f xs s = rfold g ys s" for s
    by (induction xs arbitrary: ys s) (auto simp: rbind_def split: sum.splits)
  then show ?thesis by blast
qed

section \<open>Filters of a query\<close>

definition intersect_bbox :: "bbox4 option \<Rightarrow> bbox4 option \<Rightarrow> bbox4 option" where
  "intersect_bbox a b = (case a of None \<Rightarrow> b | Some (s1, w1, n1, e1) \<Rightarrow>
     (case b of None \<Rightarrow> a | Some (s2, w2, n2, e2) \<Rightarrow>
        Some (py_max [s1, s2], py_max [w1, w2], py_min [n1, n2], py_min [e1, e2])))"

definition is_empty_bbox :: "bbox4 option \<Rightarrow> bool" where
  "is_empty_bbox b = (case b of None \<Rightarrow> False | Some (s, w, n, e) \<Rightarrow> float_lt n s \<or> float_lt e w)"

fun bbox_for :: "filter_ast list \<Rightarrow> bbox4 option \<Rightarrow> bbox4 option" where
  "bbox_for [] global_bbox = global_bbox"
| "bbox_for (BboxFilter s w n e # fs) global_bbox = Some (s, w, n, e)"
| "bbox_for (f # fs) global_bbox = bbox_for fs global_bbox"

text \<open>Every filter class that is not a core one has a hook.\<close>

fun hooked :: "filter_ast \<Rightarrow> bool" where
  "hooked (TagFilter _ _ _ _ _) = False"
| "hooked (BboxFilter _ _ _ _) = False"
| "hooked (IdFilter _) = False"
| "hooked (RecurseFilter _ _ _) = False"
| "hooked f = True"

text \<open>The box, the files read and the warnings so far.\<close>

definition hook_bbox_step :: "engine_env \<Rightarrow> exec_ctx \<Rightarrow> filter_ast \<Rightarrow> bbox4 option \<times> nat \<times> pystr list \<Rightarrow> (bbox4 option \<times> nat \<times> pystr list) result" where
  "hook_bbox_step env ctx f acc = (case acc of (bbox, files, ws) \<Rightarrow>
     rbind (e_hook_bbox env (c_snapshot ctx) (c_sets ctx) f) (\<lambda>(b, n, w). Inr (intersect_bbox bbox b, files + n, ws @ w)))"

definition effective_bbox :: "engine_env \<Rightarrow> exec_ctx \<Rightarrow> filter_ast list \<Rightarrow> (bbox4 option \<times> nat \<times> pystr list) result" where
  "effective_bbox env ctx fs = rfold (hook_bbox_step env ctx) (filter hooked fs) (bbox_for fs (e_global_bbox env), 0, [])"

definition hook_pred_step ::
  "engine_env \<Rightarrow> exec_ctx \<Rightarrow> out_row list \<Rightarrow> filter_ast \<Rightarrow> (out_row \<Rightarrow> bool) \<times> nat \<times> pystr list \<Rightarrow> ((out_row \<Rightarrow> bool) \<times> nat \<times> pystr list) result" where
  "hook_pred_step env ctx base f acc = (case acc of (p, files, ws) \<Rightarrow>
     rbind (e_hook_pred env (c_snapshot ctx) (c_sets ctx) base f) (\<lambda>(q, n, w). Inr (\<lambda>r. p r \<and> q r, files + n, ws @ w)))"

definition hook_predicates :: "engine_env \<Rightarrow> exec_ctx \<Rightarrow> out_row list \<Rightarrow> filter_ast list \<Rightarrow> ((out_row \<Rightarrow> bool) \<times> nat \<times> pystr list) result" where
  "hook_predicates env ctx base fs = rfold (hook_pred_step env ctx base) (filter hooked fs) (\<lambda>_. True, 0, [])"

fun ids_for :: "filter_ast list \<Rightarrow> int list option" where
  "ids_for [] = None"
| "ids_for (IdFilter ids # fs) = Some ids"
| "ids_for (f # fs) = ids_for fs"

fun is_tag_filter :: "filter_ast \<Rightarrow> bool" where
  "is_tag_filter (TagFilter _ _ _ _ _) = True" | "is_tag_filter _ = False"

fun recurse_filters_for :: "filter_ast list \<Rightarrow> (recurse_filter_kind \<times> pystr \<times> pystr option) list" where
  "recurse_filters_for [] = []"
| "recurse_filters_for (RecurseFilter k set_name role # fs) = (k, set_name, role) # recurse_filters_for fs"
| "recurse_filters_for (f # fs) = recurse_filters_for fs"

section \<open>Queries\<close>

definition to_e7 :: "pyfloat \<Rightarrow> int result" where
  "to_e7 deg = (case float_mul deg (Fin 10000000) of Fin x \<Rightarrow> Inr (rne x) | NaN \<Rightarrow> Inl ValueError | _ \<Rightarrow> Inl OverflowError)"

definition row_in_bbox_e7 :: "int \<Rightarrow> int \<Rightarrow> int \<Rightarrow> int \<Rightarrow> out_row \<Rightarrow> bool" where
  "row_in_bbox_e7 s w n e r \<longleftrightarrow>
     (is_type ''node'' r \<and> s \<le> r_lat_e7 r \<and> r_lat_e7 r \<le> n \<and> w \<le> r_lon_e7 r \<and> r_lon_e7 r \<le> e) \<or>
     ((is_type ''way'' r \<or> is_type ''relation'' r) \<and>
      (case r_bbox_e7 r of (Some xmin, Some ymin, Some xmax, Some ymax) \<Rightarrow> w \<le> xmax \<and> xmin \<le> e \<and> s \<le> ymax \<and> ymin \<le> n | _ \<Rightarrow> False))"

definition bbox_pred :: "bbox4 option \<Rightarrow> (out_row \<Rightarrow> bool) result" where
  "bbox_pred bbox = (case bbox of None \<Rightarrow> Inr (\<lambda>_. True)
     | Some (s, w, n, e) \<Rightarrow> rbind (to_e7 s) (\<lambda>s. rbind (to_e7 w) (\<lambda>w. rbind (to_e7 n) (\<lambda>n. rbind (to_e7 e) (\<lambda>e. Inr (row_in_bbox_e7 s w n e))))))"

definition nonempty_ids :: "int list option \<Rightarrow> int list" where
  "nonempty_ids ids = (case ids of None \<Rightarrow> [] | Some xs \<Rightarrow> xs)"

text \<open>The rows of the first set whose keys are in the others.\<close>

definition from_set_rows ::
  "engine_env \<Rightarrow> out_row list list \<Rightarrow> string list \<Rightarrow> filter_ast list \<Rightarrow> int list option \<Rightarrow> bbox4 option \<Rightarrow> out_row list result" where
  "from_set_rows env tables types tags ids bbox =
     rbind (bbox_pred bbox) (\<lambda>in_box.
       Inr (filter (\<lambda>r. r_type r \<in> lit ` set types \<and> (nonempty_ids ids = [] \<or> r_id r \<in> set (nonempty_ids ids)) \<and> in_box r \<and>
              e_tag_match env tags r \<and> (\<forall>t\<in>set (tl tables). row_key r \<in> keys_of t)) (hd tables)))"

definition recurse_filter_ids ::
  "engine_env \<Rightarrow> exec_ctx \<Rightarrow> recurse_filter_kind \<Rightarrow> out_row list \<Rightarrow> pystr option \<Rightarrow> (hop list option \<times> nat) result" where
  "recurse_filter_ids env ctx kind source role =
     (case kind of
        RfW \<Rightarrow> Inr (forward_new_ids source (Some {''way''}) None None, 0)
      | RfR \<Rightarrow> Inr (forward_new_ids source (Some {''relation''}) role None, 0)
      | RfBn \<Rightarrow> e_parents env (c_snapshot ctx) (source_of source) (Some {''node''}) role
      | RfBw \<Rightarrow> e_parents env (c_snapshot ctx) (source_of source) (Some {''way''}) role
      | RfBr \<Rightarrow> e_parents env (c_snapshot ctx) (source_of source) (Some {''relation''}) role)"

definition or_empty :: "out_row list option \<Rightarrow> out_row list" where
  "or_empty t = (case t of None \<Rightarrow> [] | Some rows \<Rightarrow> rows)"

text \<open>The rows that a recurse filter gives and the files read.\<close>

definition recurse_filter_rows ::
  "engine_env \<Rightarrow> exec_ctx \<Rightarrow> string list \<Rightarrow> filter_ast list \<Rightarrow> recurse_filter_kind \<times> pystr \<times> pystr option \<Rightarrow> (out_row list \<times> nat) result" where
  "recurse_filter_rows env ctx types tags rf = (case rf of (kind, set_name, role) \<Rightarrow>
     rbind (require_set ctx set_name) (\<lambda>source.
     rbind (recurse_filter_ids env ctx kind source role) (\<lambda>(id_table, f1).
       case id_table of
         None \<Rightarrow> Inr ([], f1)
       | Some hops \<Rightarrow>
           if kind = RfW \<and> ''node'' \<in> set types then
             rbind (e_hydrate_nodes env (c_snapshot ctx) (hop_ids ''node'' hops) (filter (is_type ''way'') source) tags) (\<lambda>(rows, f2).
               Inr (or_empty rows, f1 + f2))
           else if kind = RfR \<and> ''way'' \<in> set types then
             rbind (e_hydrate_ways env (c_snapshot ctx) (hop_ids ''way'' hops) (filter (is_type ''relation'') source) tags) (\<lambda>(ways, f2).
             rbind (if set types - {''way''} = {} then Inr (None, 0)
                    else hydrate_ids_table env (c_snapshot ctx) hops tags (Some (set types - {''way''}))) (\<lambda>(others, f3).
               Inr (or_empty (union_opt [ways, others]), f1 + f2 + f3)))
           else
             rbind (hydrate_ids_table env (c_snapshot ctx) hops tags (Some (set types))) (\<lambda>(rows, f2). Inr (or_empty rows, f1 + f2)))))"

definition types_text :: "string list \<Rightarrow> pystr" where
  "types_text types = lit ''['' @ concat (map (\<lambda>(i, t). (if i = 0 then [] else lit '', '') @ sql ''`'' @ lit t @ sql ''`'') (enumerate 0 types)) @ lit '']''"

definition no_bbox_warning :: "string list \<Rightarrow> pystr" where
  "no_bbox_warning types = lit ''query on '' @ types_text types @ lit '' has no bbox and no ids; scanning all cells for an extract-sized answer''"

definition read_type ::
  "engine_env \<Rightarrow> exec_ctx \<Rightarrow> filter_ast list \<Rightarrow> int list option \<Rightarrow> bbox4 option \<Rightarrow> string \<Rightarrow> out_row list \<times> nat \<Rightarrow> (out_row list \<times> nat) result" where
  "read_type env ctx tags ids bbox t acc = (case acc of (rows, files) \<Rightarrow>
     rbind (if nonempty_ids ids \<noteq> [] \<and> bbox = None then e_byid env (c_snapshot ctx) t (nonempty_ids ids) tags
            else e_spatial env (c_snapshot ctx) t bbox tags ids) (\<lambda>(rs, n). Inr (rows @ rs, files + n)))"

text \<open>The candidate rows, the files read and the warnings.\<close>

definition query_base ::
  "engine_env \<Rightarrow> exec_ctx \<Rightarrow> string list \<Rightarrow> filter_ast list \<Rightarrow> pystr list \<Rightarrow> bbox4 option \<Rightarrow> (out_row list \<times> nat \<times> pystr list) result" where
  "query_base env ctx types fs input_sets bbox =
     (let ids = ids_for fs; tags = filter is_tag_filter fs
      in case recurse_filters_for fs of
           rf # _ \<Rightarrow> rbind (recurse_filter_rows env ctx types tags rf) (\<lambda>(rows, n). Inr (rows, n, []))
         | [] \<Rightarrow>
             if input_sets \<noteq> [] then
               rbind (rmap (require_set ctx) input_sets) (\<lambda>tables.
               rbind (from_set_rows env tables types tags ids bbox) (\<lambda>rows. Inr (rows, 0, [])))
             else
               rbind (rfold (read_type env ctx tags ids bbox) types ([], 0)) (\<lambda>(rows, n).
                 Inr (rows, n, if bbox = None \<and> nonempty_ids ids = [] then [no_bbox_warning types] else [])))"

definition execute_query :: "engine_env \<Rightarrow> string list \<Rightarrow> filter_ast list \<Rightarrow> pystr list \<Rightarrow> pystr \<Rightarrow> exec_ctx \<Rightarrow> exec_ctx result" where
  "execute_query env types fs input_sets output_set ctx =
     (if ''area'' \<in> set types then
        rbind (e_area_stmt env (c_snapshot ctx) (c_sets ctx) (Query types fs input_sets output_set)) (\<lambda>(rows, n, ws). Inr (put_set output_set rows n ws ctx))
      else
        rbind (effective_bbox env ctx fs) (\<lambda>(bbox, n1, ws1).
          if is_empty_bbox bbox then Inr (put_set output_set [] n1 ws1 ctx)
          else
            rbind (query_base env ctx types fs input_sets bbox) (\<lambda>(base, n2, ws2).
            rbind (hook_predicates env ctx base fs) (\<lambda>(pred, n3, ws3).
              Inr (put_set output_set (filter pred base) (n1 + n2 + n3) (ws1 @ ws2 @ ws3) ctx)))))"

section \<open>Other statements\<close>

definition execute_recurse :: "engine_env \<Rightarrow> recurse_kind \<Rightarrow> pystr \<Rightarrow> pystr \<Rightarrow> exec_ctx \<Rightarrow> exec_ctx result" where
  "execute_recurse env kind input_set output_set ctx =
     rbind (require_set ctx input_set) (\<lambda>source.
     rbind (case kind of
              RDown \<Rightarrow> build_forward_one_hop env (c_snapshot ctx) source
            | RUp \<Rightarrow> build_backward_one_hop env (c_snapshot ctx) source
            | RDownDown \<Rightarrow> recurse_transitive env (c_snapshot ctx) True source
            | RUpUp \<Rightarrow> recurse_transitive env (c_snapshot ctx) False source) (\<lambda>(rows, n).
       Inr (put_set output_set rows n [] ctx)))"

definition execute_item :: "pystr \<Rightarrow> pystr \<Rightarrow> exec_ctx \<Rightarrow> exec_ctx result" where
  "execute_item input_set output_set ctx = rbind (require_set ctx input_set) (\<lambda>rows. Inr (put_set output_set rows 0 [] ctx))"

definition execute_out :: "engine_env \<Rightarrow> out_spec \<Rightarrow> exec_ctx \<Rightarrow> exec_ctx result" where
  "execute_out env out ctx =
     rbind (require_set ctx (o_input_set out)) (\<lambda>table.
       (let spec = (if e_diff_mode env \<and> o_count out then out\<lparr>o_count := False, o_verbosity := VIds\<rparr> else out);
            snap = c_snapshot ctx;
            rows = (if o_geometry spec = GGeom then map (\<lambda>r. r\<lparr>r_geometry_wkt := e_geometry env snap r\<rparr>) table else table)
        in rbind (build_elements (e_unicode env) (e_node_coords env snap rows) (e_way_geoms env snap rows) rows spec (e_areas_used env)) (\<lambda>(els, versions).
             Inr (ctx\<lparr>c_elements := c_elements ctx @ els,
                      c_diff_versions := (if e_diff_mode env then (\<lambda>k. if k \<in> el_key ` set els then versions k else c_diff_versions ctx k)
                                          else c_diff_versions ctx)\<rparr>))))"

definition db_of :: "engine_env \<Rightarrow> sets \<Rightarrow> sql_db" where
  "db_of env sets = \<lparr>db_has_table = (\<lambda>t. \<exists>name. t = lit ''set_'' @ name \<and> listed sets name), db_scalar = e_scalar env sets\<rparr>"

definition is_quoted :: "pystr \<Rightarrow> bool" where
  "is_quoted s \<longleftrightarrow> 2 \<le> length s \<and> hd s = last s \<and> hd s \<in> {34, 39}"

definition evaluate_retro_time :: "engine_env \<Rightarrow> pystr \<Rightarrow> exec_ctx \<Rightarrow> datetime result" where
  "evaluate_retro_time env time_expr ctx =
     (let stripped = py_strip (e_unicode env) time_expr
      in rbind (if is_quoted stripped then Inr (butlast (tl stripped))
                else rbind (eval_parse (e_unicode env) time_expr) (\<lambda>e. evaluate_set (e_unicode env) (db_of env (c_sets ctx)) e default_set))
           (parse_date (e_unicode env)))"

text \<open>The sets after a block: those of before, and empty ones for the names that the block has added.\<close>

definition restore_sets :: "sets \<Rightarrow> sets \<Rightarrow> sets" where
  "restore_sets saved after =
     (\<lambda>k. case saved k of Some t \<Rightarrow> Some t | None \<Rightarrow> (case after k of None \<Rightarrow> None | Some (spelling, rows) \<Rightarrow> Some (spelling, [])))"

definition timeline_row :: "element \<Rightarrow> out_row" where
  "timeline_row el = \<lparr>r_type = lit ''timeline'', r_id = el_id el, r_lat_e7 = 0, r_lon_e7 = 0, r_refs = None, r_members = None, r_tags = el_tags el,
     r_version = None, r_changeset = None, r_timestamp = None, r_uid = None, r_user = None, r_bbox_e7 = (None, None, None, None),
     r_geometry_wkt = None, r_hilbert = None\<rparr>"

definition no_history :: "string \<Rightarrow> py_error" where
  "no_history what = UnsupportedError (lit what @ lit '' is not supported: this dataset has no history'')"

definition execute_timeline :: "engine_env \<Rightarrow> string \<Rightarrow> int \<Rightarrow> int option \<Rightarrow> pystr \<Rightarrow> exec_ctx \<Rightarrow> exec_ctx result" where
  "execute_timeline env ty i version output_set ctx =
     (case e_history env of None \<Rightarrow> Inl (no_history ''timeline(...)'')
      | Some hist \<Rightarrow> Inr (put_set output_set (map timeline_row (timeline_elements hist (lit ty) i version)) 0 [] ctx))"

fun output_set_name :: "statement \<Rightarrow> pystr result" where
  "output_set_name (Query _ _ _ n) = Inr n"
| "output_set_name (Union_stmt _ n) = Inr n"
| "output_set_name (Difference _ _ n) = Inr n"
| "output_set_name (Recurse _ _ n) = Inr n"
| "output_set_name (Item _ n) = Inr n"
| "output_set_name (IsIn _ n _) = Inr n"
| "output_set_name (MapToArea _ n) = Inr n"
| "output_set_name (Foreach _ n _) = Inr n"
| "output_set_name (Timeline _ _ _ n) = Inr n"
| "output_set_name (Out _) = Inl (UnsupportedError (lit ''Out cannot appear inside a union/difference block''))"
| "output_set_name (If_stmt _ _ _) = Inl (UnsupportedError (lit ''If cannot appear inside a union/difference block''))"
| "output_set_name (Retro _ _) = Inl (UnsupportedError (lit ''Retro cannot appear inside a union/difference block''))"
| "output_set_name (Unsupported _ _) = Inl (UnsupportedError (lit ''Unsupported cannot appear inside a union/difference block''))"

text \<open>A copy of what a statement has just put into its output set.\<close>

definition captured :: "engine_env \<Rightarrow> statement \<Rightarrow> exec_ctx \<Rightarrow> (exec_ctx \<times> pystr) result" where
  "captured env stmt ctx =
     rbind (output_set_name stmt) (\<lambda>n. rbind (table_rows env (c_sets ctx) n) (\<lambda>rows. Inr (snapshot_table env ''part'' rows ctx)))"

definition add_warning :: "pystr option \<Rightarrow> exec_ctx \<Rightarrow> exec_ctx" where
  "add_warning w ctx = (case w of None \<Rightarrow> ctx | Some m \<Rightarrow> if m \<in> set (c_warnings ctx) then ctx else ctx\<lparr>c_warnings := c_warnings ctx @ [m]\<rparr>)"

section \<open>Statements\<close>

lemma size_in_list: "x \<in> set xs \<Longrightarrow> size x \<le> size_list size xs"
  by (simp add: size_list_estimation')

function execute_statement :: "engine_env \<Rightarrow> statement \<Rightarrow> exec_ctx \<Rightarrow> exec_ctx result" where
  "execute_statement env (Query types fs input_sets output_set) ctx = execute_query env types fs input_sets output_set ctx"
| "execute_statement env (Union_stmt stmts output_set) ctx =
     rbind (rfold (\<lambda>s (c, parts). rbind (execute_statement env s c) (\<lambda>c. rbind (captured env s c) (\<lambda>(c, part). Inr (c, parts @ [part])))) stmts (ctx, []))
       (\<lambda>(c, parts). rbind (rmap (table_rows env (c_sets c)) parts) (\<lambda>tables. Inr (put_set output_set (union_rows tables) 0 [] c)))"
| "execute_statement env (Difference a b output_set) ctx =
     rbind (execute_statement env a ctx) (\<lambda>c. rbind (captured env a c) (\<lambda>(c, pa).
     rbind (execute_statement env b c) (\<lambda>c. rbind (captured env b c) (\<lambda>(c, pb).
     rbind (table_rows env (c_sets c) pa) (\<lambda>ra. rbind (table_rows env (c_sets c) pb) (\<lambda>rb.
       Inr (put_set output_set (difference_rows ra rb) 0 [] c)))))))"
| "execute_statement env (Recurse kind input_set output_set) ctx = execute_recurse env kind input_set output_set ctx"
| "execute_statement env (Item input_set output_set) ctx = execute_item input_set output_set ctx"
| "execute_statement env (IsIn input_set output_set coords) ctx =
     rbind (e_area_stmt env (c_snapshot ctx) (c_sets ctx) (IsIn input_set output_set coords)) (\<lambda>(rows, n, ws). Inr (put_set output_set rows n ws ctx))"
| "execute_statement env (MapToArea input_set output_set) ctx =
     rbind (e_area_stmt env (c_snapshot ctx) (c_sets ctx) (MapToArea input_set output_set)) (\<lambda>(rows, n, ws). Inr (put_set output_set rows n ws ctx))"
| "execute_statement env (Out out) ctx = execute_out env out ctx"
| "execute_statement env (Foreach input_set output_set body) ctx =
     rbind (require_set ctx input_set) (\<lambda>rows.
       let rows = sort_key row_key rows; snap = snapshot_table env ''foreach'' rows ctx
       in rfold (\<lambda>r c. rbind (table_rows env (c_sets c) (snd snap)) (\<lambda>saved.
            rfold (execute_statement env) body (put_set output_set (filter (\<lambda>x. row_key x = row_key r) saved) 0 [] c))) rows (fst snap))"
| "execute_statement env (If_stmt condition then_body otherwise) ctx =
     rbind (eval_parse (e_unicode env) condition) (\<lambda>e.
     rbind (evaluate_set (e_unicode env) (db_of env (c_sets ctx)) e default_set) (\<lambda>v.
       if truthy_value v then rfold (execute_statement env) then_body ctx else rfold (execute_statement env) otherwise ctx))"
| "execute_statement env (Retro time_expr body) ctx =
     (if e_history env = None then Inl (no_history ''retro(...)'')
      else rbind (evaluate_retro_time env time_expr ctx) (\<lambda>t.
             let ctx = add_warning (history_remark (e_unicode env) (e_since env) t) ctx
             in rbind (rfold (execute_statement env) body (ctx\<lparr>c_snapshot := Some t\<rparr>)) (\<lambda>c.
                  Inr (c\<lparr>c_snapshot := c_snapshot ctx, c_sets := restore_sets (c_sets ctx) (c_sets c)\<rparr>))))"
| "execute_statement env (Timeline ty i version output_set) ctx = execute_timeline env ty i version output_set ctx"
| "execute_statement env (Unsupported keyword source) ctx = Inl (UnsupportedError (lit keyword @ lit '' is not supported in M0''))"
  by pat_completeness auto
termination
proof (relation "measure (\<lambda>(env, s, ctx). size s)", goal_cases)
qed (auto simp: less_Suc_eq_le dest!: size_in_list)

section \<open>Programs\<close>

definition check_settings :: "engine_env \<Rightarrow> settings \<Rightarrow> unit result" where
  "check_settings env settings =
     (if e_history env \<noteq> None then Inr ()
      else if s_date settings \<noteq> None then Inl (no_history ''[date:] (attic)'')
      else if s_diff settings \<noteq> None then Inl (no_history ''[diff:]'')
      else if s_adiff settings \<noteq> None then Inl (no_history ''[adiff:]'')
      else Inr ())"

fun area_filter :: "filter_ast \<Rightarrow> bool" where
  "area_filter (AreaFilter _ _) = True" | "area_filter (PivotFilter _) = True" | "area_filter _ = False"

fun uses_areas :: "statement \<Rightarrow> bool" where
  "uses_areas (IsIn _ _ _) = True"
| "uses_areas (MapToArea _ _) = True"
| "uses_areas (Query types fs _ _) = (''area'' \<in> set types \<or> list_ex area_filter fs)"
| "uses_areas (Union_stmt stmts _) = (\<exists>s\<in>set stmts. uses_areas s)"
| "uses_areas (Difference a b _) = (uses_areas a \<or> uses_areas b)"
| "uses_areas (Foreach _ _ body) = (\<exists>s\<in>set body. uses_areas s)"
| "uses_areas (If_stmt _ then_body otherwise) = ((\<exists>s\<in>set then_body. uses_areas s) \<or> (\<exists>s\<in>set otherwise. uses_areas s))"
| "uses_areas (Retro _ body) = (\<exists>s\<in>set body. uses_areas s)"
| "uses_areas _ = False"

text \<open>The context after the program, run on the sets that the connection has, from a state of the counter, and at the date of the caller, if any.\<close>

definition run_program_body :: "engine_env \<Rightarrow> program \<Rightarrow> bool \<Rightarrow> datetime option \<Rightarrow> sets \<Rightarrow> nat \<Rightarrow> exec_ctx result" where
  "run_program_body env program diff_mode snap sets fresh =
     (let env = env\<lparr>e_global_bbox := s_bbox (p_settings program), e_areas_used := list_ex uses_areas (p_statements program), e_diff_mode := diff_mode\<rparr>;
          ctx = \<lparr>c_sets = materialize default_set [] sets, c_snapshot = snap, c_elements = [], c_files_read = 0, c_warnings = [], c_diff_versions = (\<lambda>_. None), c_fresh = fresh\<rparr>
      in rbind (case (s_date (p_settings program), snap) of
                  (Some date, None) \<Rightarrow>
                    rbind (parse_date (e_unicode env) date) (\<lambda>t.
                      Inr (ctx\<lparr>c_snapshot := Some t,
                        c_warnings := (case history_remark (e_unicode env) (e_since env) t of None \<Rightarrow> [] | Some m \<Rightarrow> [m])\<rparr>))
                | _ \<Rightarrow> Inr ctx) (\<lambda>ctx.
         rbind (rfold (execute_statement env) (p_statements program) ctx) (\<lambda>ctx. Inr (ctx\<lparr>c_snapshot := snap\<rparr>))))"

definition run_program :: "engine_env \<Rightarrow> program \<Rightarrow> exec_ctx result" where
  "run_program env program =
     rbind (check_settings env (p_settings program)) (\<lambda>_. run_program_body env program False None (\<lambda>_. None) 0)"

text \<open>A pass leaves its sets to the next one, and the counter runs on.\<close>

definition run_diff_pass :: "engine_env \<Rightarrow> program \<Rightarrow> datetime \<Rightarrow> sets \<times> nat \<Rightarrow> (diff_pass \<times> sets \<times> nat) result" where
  "run_diff_pass env program t conn =
     rbind (run_program_body env program True (Some t) (fst conn) (snd conn)) (\<lambda>ctx.
       Inr (\<lparr>p_elements = c_elements ctx, p_versions = c_diff_versions ctx, p_files_read = c_files_read ctx, p_warnings = c_warnings ctx\<rparr>,
            c_sets ctx, c_fresh ctx))"

end
