(* ===== verification/Planner_Correct.thy ===== *)
theory Planner_Correct
  imports Planner "HOL-Library.Sublist"
begin

text \<open>
  What running statements does to the sets and the context.
\<close>

section \<open>Set tables\<close>

lemma first_of_key_keys: "row_key ` set (first_of_key seen rows) = keys_of rows - seen"
  by (induction seen rows rule: first_of_key.induct) (auto simp: keys_of_def)

lemma first_of_key_distinct: "distinct (map row_key (first_of_key seen rows))"
proof (induction seen rows rule: first_of_key.induct)
  case (2 seen r rs)
  have "row_key r \<notin> row_key ` set (first_of_key (insert (row_key r) seen) rs)" by (simp add: first_of_key_keys)
  with 2 show ?case by auto
qed simp

lemma first_of_key_subset: "set (first_of_key seen rows) \<subseteq> set rows"
  by (induction seen rows rule: first_of_key.induct) auto

text \<open>Every table is under the folded form of its name and has one row for each type and id.\<close>

definition sets_ok :: "sets \<Rightarrow> bool" where
  "sets_ok sets \<longleftrightarrow> (\<forall>k name rows. sets k = Some (name, rows) \<longrightarrow> fold_name name = k \<and> distinct (map row_key rows))"

lemma sets_okD: "sets_ok sets \<Longrightarrow> sets k = Some (name, rows) \<Longrightarrow> distinct (map row_key rows)"
  unfolding sets_ok_def by iprover

lemma sets_ok_create: "sets_ok sets \<Longrightarrow> distinct (map row_key rows) \<Longrightarrow> sets_ok (create_table n rows sets)"
  unfolding sets_ok_def create_table_def fun_upd_def by auto

lemma sets_ok_materialize: "sets_ok sets \<Longrightarrow> sets_ok (materialize n rows sets)"
  unfolding materialize_def by (erule sets_ok_create) (rule first_of_key_distinct)

lemma create_table_dom: "dom (create_table n rows sets) = insert (fold_name n) (dom sets)"
  by (simp add: create_table_def)

lemma create_table_other: "k \<noteq> fold_name n \<Longrightarrow> create_table n rows sets k = sets k"
  by (simp add: create_table_def)

lemma require_set_iff: "require_set ctx n = Inr rows \<longleftrightarrow> c_sets ctx (fold_name n) = Some (n, rows)"
  by (auto simp: require_set_def split: option.splits if_splits)

lemma table_rows_iff: "table_rows env sets n = Inr rows \<longleftrightarrow> (\<exists>spelling. sets (fold_name n) = Some (spelling, rows))"
  by (auto simp: table_rows_def split: option.splits)

section \<open>Effects of statements\<close>

text \<open>A relation between states that a run of steps keeps.\<close>

locale run_relation =
  fixes R :: "'s \<Rightarrow> 's \<Rightarrow> bool"
  assumes R_refl: "R s s"
    and R_trans: "R s t \<Longrightarrow> R t u \<Longrightarrow> R s u"
begin

lemma rfold_R:
  assumes "\<And>x s s'. x \<in> set xs \<Longrightarrow> f x s = Inr s' \<Longrightarrow> R s s'" and "rfold f xs s = Inr s'"
  shows "R s s'"
  using assms
proof (induction xs arbitrary: s)
  case (Cons x xs)
  then obtain t where "f x s = Inr t" "rfold f xs t = Inr s'" by (auto simp: rbind_eq_Inr)
  then have "R s t" "R t s'" using Cons by auto
  then show ?case by (rule R_trans)
qed (simp add: R_refl)

end

text \<open>The names of the tables that hold the parts of unions, differences and loops, for the draws from \<open>a\<close> up to \<open>b\<close>.\<close>

definition internal_names :: "engine_env \<Rightarrow> nat \<Rightarrow> nat \<Rightarrow> pystr set" where
  "internal_names env a b = (\<Union>k\<in>{a..<b}. {fresh_name env ''part'' k, fresh_name env ''foreach'' k})"

lemma internal_names_mono: "a' \<le> a \<Longrightarrow> b \<le> b' \<Longrightarrow> internal_names env a b \<subseteq> internal_names env a' b'"
  unfolding internal_names_def by (rule UN_mono) auto

lemma internal_names_same [simp]: "internal_names env a a = {}"
  by (simp add: internal_names_def)

text \<open>What a statement that writes the sets of \<open>W\<close> may do.\<close>

definition touched :: "engine_env \<Rightarrow> pystr set \<Rightarrow> exec_ctx \<Rightarrow> exec_ctx \<Rightarrow> pystr set" where
  "touched env W ctx ctx' = fold_name ` (W \<union> internal_names env (c_fresh ctx) (c_fresh ctx'))"

definition ctx_step :: "engine_env \<Rightarrow> pystr set \<Rightarrow> exec_ctx \<Rightarrow> exec_ctx \<Rightarrow> bool" where
  "ctx_step env W ctx ctx' \<longleftrightarrow>
     (sets_ok (c_sets ctx) \<longrightarrow> sets_ok (c_sets ctx')) \<and> dom (c_sets ctx) \<subseteq> dom (c_sets ctx') \<and> c_fresh ctx \<le> c_fresh ctx' \<and>
     (\<forall>k. k \<notin> touched env W ctx ctx' \<longrightarrow> c_sets ctx' k = c_sets ctx k) \<and>
     c_snapshot ctx' = c_snapshot ctx \<and> prefix (c_elements ctx) (c_elements ctx') \<and> c_files_read ctx \<le> c_files_read ctx' \<and> prefix (c_warnings ctx) (c_warnings ctx')"

lemma touched_mono:
  "c_fresh a' \<le> c_fresh a \<Longrightarrow> c_fresh b \<le> c_fresh b' \<Longrightarrow> V \<subseteq> W \<Longrightarrow> touched env V a b \<subseteq> touched env W a' b'"
  unfolding touched_def using internal_names_mono by (intro image_mono Un_mono)

lemma ctx_stepD:
  assumes "ctx_step env W c c'"
  shows "sets_ok (c_sets c) \<Longrightarrow> sets_ok (c_sets c')" and "dom (c_sets c) \<subseteq> dom (c_sets c')" and "c_fresh c \<le> c_fresh c'"
    and "k \<notin> touched env W c c' \<Longrightarrow> c_sets c' k = c_sets c k" and "c_snapshot c' = c_snapshot c"
    and "prefix (c_elements c) (c_elements c')" and "c_files_read c \<le> c_files_read c'" and "prefix (c_warnings c) (c_warnings c')"
  using assms unfolding ctx_step_def by iprover+

lemma ctx_step_mono:
  assumes "ctx_step env V c c'" and "V \<subseteq> W"
  shows "ctx_step env W c c'"
proof -
  have "touched env V c c' \<subseteq> touched env W c c'" by (rule touched_mono) (simp_all add: assms(2))
  then have "c_sets c' k = c_sets c k" if "k \<notin> touched env W c c'" for k using that ctx_stepD(4) [OF assms(1)] by blast
  then show ?thesis using assms(1) unfolding ctx_step_def by iprover
qed

lemma ctx_step_trans:
  assumes "ctx_step env W a b" and "ctx_step env W b c"
  shows "ctx_step env W a c"
proof -
  note l = ctx_stepD [OF assms(1)] and r = ctx_stepD [OF assms(2)]
  have "touched env W a b \<subseteq> touched env W a c" "touched env W b c \<subseteq> touched env W a c"
    by (rule touched_mono, simp_all add: l(3) r(3))+
  then have "c_sets c k = c_sets a k" if "k \<notin> touched env W a c" for k using that l(4) r(4) by (metis subsetD)
  moreover have "sets_ok (c_sets a) \<longrightarrow> sets_ok (c_sets c)" using l(1) r(1) by iprover
  moreover have "dom (c_sets a) \<subseteq> dom (c_sets c)" by (rule subset_trans [OF l(2) r(2)])
  moreover have "c_fresh a \<le> c_fresh c" "c_files_read a \<le> c_files_read c" using l(3,7) r(3,7) by simp_all
  moreover have "c_snapshot c = c_snapshot a" using l(5) r(5) by simp
  moreover have "prefix (c_elements a) (c_elements c)" "prefix (c_warnings a) (c_warnings c)"
    using prefix_order.trans [OF l(6) r(6)] prefix_order.trans [OF l(8) r(8)] by simp_all
  ultimately show ?thesis unfolding ctx_step_def by iprover
qed

interpretation st: run_relation "ctx_step env W" for env W
  by unfold_locales (simp add: ctx_step_def, rule ctx_step_trans)

interpretation st2: run_relation "\<lambda>p q. ctx_step env W (fst p) (fst q)" for env W
  by unfold_locales (rule st.R_refl, rule st.R_trans)

fun writes :: "statement \<Rightarrow> pystr set" where
  "writes (Query _ _ _ n) = {n}"
| "writes (Union_stmt stmts n) = insert n (\<Union>s\<in>set stmts. writes s)"
| "writes (Difference a b n) = insert n (writes a \<union> writes b)"
| "writes (Recurse _ _ n) = {n}"
| "writes (Item _ n) = {n}"
| "writes (IsIn _ n _) = {n}"
| "writes (MapToArea _ n) = {n}"
| "writes (Foreach _ n body) = insert n (\<Union>s\<in>set body. writes s)"
| "writes (If_stmt _ then_body otherwise) = (\<Union>s\<in>set then_body. writes s) \<union> (\<Union>s\<in>set otherwise. writes s)"
| "writes (Retro _ body) = (\<Union>s\<in>set body. writes s)"
| "writes (Timeline _ _ _ n) = {n}"
| "writes _ = {}"

lemma put_set_step:
  assumes "n \<in> W"
  shows "ctx_step env W ctx (put_set n rows files ws ctx)"
proof -
  let ?c = "put_set n rows files ws ctx"
  have "fold_name n \<in> touched env W ctx ?c" using assms by (auto simp: touched_def)
  then have "k \<noteq> fold_name n" if "k \<notin> touched env W ctx ?c" for k using that by blast
  then have "c_sets ?c k = c_sets ctx k" if "k \<notin> touched env W ctx ?c" for k
    using that by (simp add: put_set_def materialize_def create_table_other)
  moreover have "sets_ok (c_sets ?c)" if "sets_ok (c_sets ctx)" using that by (simp add: put_set_def sets_ok_materialize)
  moreover have "dom (c_sets ctx) \<subseteq> dom (c_sets ?c)" by (auto simp: put_set_def materialize_def create_table_dom)
  ultimately show ?thesis unfolding ctx_step_def by (simp add: put_set_def)
qed

text \<open>The copy of a table.\<close>

lemma snapshot_table_step:
  assumes "snapshot_table env pre rows ctx = (c, name)" and "pre \<in> {''part'', ''foreach''}"
    and "sets_ok (c_sets ctx) \<Longrightarrow> distinct (map row_key rows)"
  shows "ctx_step env W ctx c"
proof -
  have c: "name = fresh_name env pre (c_fresh ctx)" "c = ctx\<lparr>c_sets := create_table name rows (c_sets ctx), c_fresh := Suc (c_fresh ctx)\<rparr>"
    using assms(1) by (auto simp: snapshot_table_def Let_def)
  have "name \<in> internal_names env (c_fresh ctx) (c_fresh c)" using assms(2) by (auto simp: c internal_names_def)
  then have "fold_name name \<in> touched env W ctx c" by (auto simp: touched_def)
  then have "k \<noteq> fold_name name" if "k \<notin> touched env W ctx c" for k using that by blast
  then have "c_sets c k = c_sets ctx k" if "k \<notin> touched env W ctx c" for k using that by (simp add: c(2) create_table_other)
  moreover have "sets_ok (c_sets ctx) \<longrightarrow> sets_ok (c_sets c)" using assms(3) by (auto simp: c(2) sets_ok_create)
  moreover have "dom (c_sets ctx) \<subseteq> dom (c_sets c)" by (auto simp: c(2) create_table_dom)
  ultimately show ?thesis unfolding ctx_step_def by (simp add: c(2))
qed

lemma captured_step:
  assumes "captured env s ctx = Inr (c, part)"
  shows "ctx_step env W ctx c"
proof -
  obtain n rows where n: "table_rows env (c_sets ctx) n = Inr rows" "snapshot_table env ''part'' rows ctx = (c, part)"
    using assms by (auto simp: captured_def rbind_eq_Inr)
  obtain spelling where "c_sets ctx (fold_name n) = Some (spelling, rows)" using n(1) unfolding table_rows_iff by iprover
  then have "sets_ok (c_sets ctx) \<Longrightarrow> distinct (map row_key rows)" by (rule sets_okD [rotated])
  then show ?thesis by (intro snapshot_table_step [OF n(2)]) simp_all
qed

lemma execute_query_step: "execute_query env types fs ins n ctx = Inr ctx' \<Longrightarrow> ctx_step env {n} ctx ctx'"
  by (auto simp: execute_query_def rbind_eq_Inr put_set_step split: if_splits)

lemma execute_out_step: "execute_out env out ctx = Inr ctx' \<Longrightarrow> ctx_step env {} ctx ctx'"
  by (auto simp: execute_out_def rbind_eq_Inr Let_def ctx_step_def)

lemma simple_steps:
  "execute_recurse env k i n ctx = Inr ctx' \<Longrightarrow> ctx_step env {n} ctx ctx'"
  "execute_item i n ctx = Inr ctx' \<Longrightarrow> ctx_step env {n} ctx ctx'"
  "execute_timeline env ty j v n ctx = Inr ctx' \<Longrightarrow> ctx_step env {n} ctx ctx'"
  by (auto simp: execute_recurse_def execute_item_def execute_timeline_def rbind_eq_Inr put_set_step split: option.splits)

lemma add_warning_step: "ctx_step env {} ctx (add_warning w ctx)"
  by (auto simp: ctx_step_def add_warning_def split: option.splits)

text \<open>A block at another date, with the sets restored.\<close>

lemma restore_sets_ok: "sets_ok saved \<Longrightarrow> sets_ok after \<Longrightarrow> sets_ok (restore_sets saved after)"
  by (auto simp: sets_ok_def restore_sets_def split: option.splits)

lemma restore_sets_same: "saved k = after k \<Longrightarrow> restore_sets saved after k = saved k"
  by (simp add: restore_sets_def split: option.splits)

lemma restore_sets_dom: "dom saved \<subseteq> dom (restore_sets saved after)"
  by (auto simp: restore_sets_def)

lemma retro_step:
  assumes "ctx_step env W (ctx\<lparr>c_snapshot := s\<rparr>) c"
  shows "ctx_step env W ctx (c\<lparr>c_snapshot := c_snapshot ctx, c_sets := restore_sets (c_sets ctx) (c_sets c)\<rparr>)"
proof -
  let ?c = "c\<lparr>c_snapshot := c_snapshot ctx, c_sets := restore_sets (c_sets ctx) (c_sets c)\<rparr>"
  note d = ctx_stepD [OF assms, simplified]
  have t: "touched env W ctx ?c = touched env W (ctx\<lparr>c_snapshot := s\<rparr>) c" by (simp add: touched_def)
  have "c_sets ?c k = c_sets ctx k" if "k \<notin> touched env W ctx ?c" for k
    using that d(4) [of k] unfolding t by (simp add: restore_sets_same)
  moreover have "sets_ok (c_sets ctx) \<longrightarrow> sets_ok (c_sets ?c)" using d(1) restore_sets_ok by auto
  ultimately show ?thesis using d restore_sets_dom [of "c_sets ctx" "c_sets c"] unfolding ctx_step_def by simp
qed

lemma body_step:
  assumes "rfold (execute_statement env) body c = Inr c'" and "\<And>s c c'. s \<in> set body \<Longrightarrow> execute_statement env s c = Inr c' \<Longrightarrow> ctx_step env (writes s) c c'"
    and "(\<Union>s\<in>set body. writes s) \<subseteq> W"
  shows "ctx_step env W c c'"
proof (rule st.rfold_R [OF _ assms(1)])
  fix s c c'
  assume s: "s \<in> set body" and "execute_statement env s c = Inr c'"
  then have "ctx_step env (writes s) c c'" by (rule assms(2))
  then show "ctx_step env W c c'" by (rule ctx_step_mono) (use s assms(3) in auto)
qed

lemma statement_step: "execute_statement env s ctx = Inr ctx' \<Longrightarrow> ctx_step env (writes s) ctx ctx'"
proof (induction s arbitrary: ctx ctx')
  case (Union_stmt stmts n)
  let ?W = "writes (Union_stmt stmts n)"
  let ?f = "\<lambda>s (c, parts). rbind (execute_statement env s c) (\<lambda>c. rbind (captured env s c) (\<lambda>(c, part). Inr (c, parts @ [part])))"
  obtain c parts tables where c: "rfold ?f stmts (ctx, []) = Inr (c, parts)" "ctx' = put_set n (union_rows tables) 0 [] c"
    using Union_stmt.prems by (auto simp: rbind_eq_Inr)
  have "ctx_step env ?W (fst (ctx, [] :: pystr list)) (fst (c, parts))"
  proof (rule st2.rfold_R [OF _ c(1)])
    fix s and p q :: "exec_ctx \<times> pystr list"
    assume s: "s \<in> set stmts" and "?f s p = Inr q"
    then obtain d part where d: "execute_statement env s (fst p) = Inr d" "captured env s d = Inr (fst q, part)"
      by (auto simp: rbind_eq_Inr split: prod.splits)
    have "ctx_step env (writes s) (fst p) d" by (rule Union_stmt.IH [OF s d(1)])
    then have "ctx_step env ?W (fst p) d" by (rule ctx_step_mono) (use s in auto)
    then show "ctx_step env ?W (fst p) (fst q)" using captured_step [OF d(2)] by (rule st.R_trans)
  qed
  then have "ctx_step env ?W ctx c" by simp
  then show ?case unfolding c(2) by (rule st.R_trans) (rule put_set_step, simp)
next
  case (Difference a b n)
  let ?W = "writes (Difference a b n)"
  obtain c c1 pa d d1 pb ra rb where ex: "execute_statement env a ctx = Inr c" "captured env a c = Inr (c1, pa)"
    "execute_statement env b c1 = Inr d" "captured env b d = Inr (d1, pb)" "ctx' = put_set n (difference_rows ra rb) 0 [] d1"
    using Difference.prems by (auto simp: rbind_eq_Inr)
  have "ctx_step env ?W ctx c" by (rule ctx_step_mono [OF Difference.IH(1) [OF ex(1)]]) auto
  moreover have "ctx_step env ?W c c1" by (rule captured_step [OF ex(2)])
  moreover have "ctx_step env ?W c1 d" by (rule ctx_step_mono [OF Difference.IH(2) [OF ex(3)]]) auto
  moreover have "ctx_step env ?W d d1" by (rule captured_step [OF ex(4)])
  moreover have "ctx_step env ?W d1 ctx'" unfolding ex(5) by (rule put_set_step) simp
  ultimately show ?case using st.R_trans by blast
next
  case (Foreach i n body)
  let ?W = "writes (Foreach i n body)"
  let ?f = "\<lambda>snap r c. rbind (table_rows env (c_sets c) snap) (\<lambda>saved.
    rfold (execute_statement env) body (put_set n (filter (\<lambda>x. row_key x = row_key r) saved) 0 [] c))"
  obtain rows where rows: "require_set ctx i = Inr rows"
    and go: "rfold (?f (snd (snapshot_table env ''foreach'' (sort_key row_key rows) ctx))) (sort_key row_key rows)
      (fst (snapshot_table env ''foreach'' (sort_key row_key rows) ctx)) = Inr ctx'"
    using Foreach.prems unfolding execute_statement.simps rbind_eq_Inr Let_def by (elim exE conjE)
  obtain c snap where c: "snapshot_table env ''foreach'' (sort_key row_key rows) ctx = (c, snap)" by (rule prod.exhaust)
  have run: "rfold (?f snap) (sort_key row_key rows) c = Inr ctx'" using go by (simp only: c fst_conv snd_conv)
  have "distinct (map row_key (sort_key row_key rows))" if "sets_ok (c_sets ctx)"
  proof -
    have "distinct (map row_key rows)" using sets_okD [OF that] rows unfolding require_set_iff by blast
    then show ?thesis by (simp add: distinct_map)
  qed
  then have "ctx_step env ?W ctx c" by (intro snapshot_table_step [OF c]) simp_all
  moreover from run have "ctx_step env ?W c ctx'"
  proof (rule st.rfold_R [rotated])
    fix r c c'
    assume "?f snap r c = Inr c'"
    then obtain saved where "rfold (execute_statement env) body (put_set n (filter (\<lambda>x. row_key x = row_key r) saved) 0 [] c) = Inr c'"
      by (auto simp: rbind_eq_Inr)
    then have "ctx_step env ?W (put_set n (filter (\<lambda>x. row_key x = row_key r) saved) 0 [] c) c'"
      by (rule body_step) (use Foreach.IH in auto)
    moreover have "ctx_step env ?W c (put_set n (filter (\<lambda>x. row_key x = row_key r) saved) 0 [] c)" by (rule put_set_step) simp
    ultimately show "ctx_step env ?W c c'" by (rule st.R_trans [rotated])
  qed
  ultimately show ?case by (rule st.R_trans)
next
  case (If_stmt cond tb ob)
  have "ctx_step env (writes (If_stmt cond tb ob)) c c'" if "rfold (execute_statement env) tb c = Inr c'" for c c'
    by (rule body_step [OF that]) (use If_stmt.IH(1) in auto)
  moreover have "ctx_step env (writes (If_stmt cond tb ob)) c c'" if "rfold (execute_statement env) ob c = Inr c'" for c c'
    by (rule body_step [OF that]) (use If_stmt.IH(2) in auto)
  ultimately show ?case using If_stmt.prems by (auto simp: rbind_eq_Inr simp del: writes.simps split: if_splits)
next
  case (Retro e body)
  obtain t c where c: "rfold (execute_statement env) body ((add_warning (history_remark (e_unicode env) (e_since env) t) ctx)\<lparr>c_snapshot := Some t\<rparr>) = Inr c"
    "ctx' = c\<lparr>c_snapshot := c_snapshot (add_warning (history_remark (e_unicode env) (e_since env) t) ctx),
      c_sets := restore_sets (c_sets (add_warning (history_remark (e_unicode env) (e_since env) t) ctx)) (c_sets c)\<rparr>"
    using Retro.prems by (auto simp: rbind_eq_Inr Let_def split: if_splits)
  have "ctx_step env (writes (Retro e body)) ((add_warning (history_remark (e_unicode env) (e_since env) t) ctx)\<lparr>c_snapshot := Some t\<rparr>) c"
    by (rule body_step [OF c(1)]) (use Retro.IH in auto)
  from retro_step [OF this] show ?case
    unfolding c(2) using add_warning_step [THEN ctx_step_mono, of "writes (Retro e body)"] st.R_trans by blast
qed (auto simp: rbind_eq_Inr put_set_step dest: execute_query_step execute_out_step simple_steps)

text \<open>A \<open>retro\<close> block leaves every set as it was and only empty new ones.\<close>

lemma retro_sets:
  assumes "execute_statement env (Retro e body) ctx = Inr ctx'"
  shows "c_sets ctx' k = c_sets ctx k \<or> c_sets ctx k = None \<and> (\<exists>name. c_sets ctx' k = Some (name, []))"
proof -
  have "c_sets (add_warning w ctx) = c_sets ctx" for w by (simp add: add_warning_def split: option.splits)
  then show ?thesis using assms by (auto simp: rbind_eq_Inr Let_def restore_sets_def split: if_splits option.splits)
qed

text \<open>The set that a statement writes last, for those that always write one.\<close>

fun own_output :: "statement \<Rightarrow> pystr option" where
  "own_output (Query _ _ _ n) = Some n"
| "own_output (Union_stmt _ n) = Some n"
| "own_output (Difference _ _ n) = Some n"
| "own_output (Recurse _ _ n) = Some n"
| "own_output (Item _ n) = Some n"
| "own_output (IsIn _ n _) = Some n"
| "own_output (MapToArea _ n) = Some n"
| "own_output (Timeline _ _ _ n) = Some n"
| "own_output _ = None"

lemma put_set_written: "\<exists>rows'. c_sets (put_set n rows files ws ctx) (fold_name n) = Some (n, rows')"
  by (simp add: put_set_def materialize_def create_table_def)

lemma own_output_written:
  assumes "execute_statement env s ctx = Inr ctx'" and "own_output s = Some n"
  shows "\<exists>rows. c_sets ctx' (fold_name n) = Some (n, rows)"
proof -
  obtain rows files ws c where "ctx' = put_set n rows files ws c"
    using assms by (cases s) (auto simp: rbind_eq_Inr execute_query_def execute_recurse_def execute_item_def execute_timeline_def
        split: if_splits option.splits)
  then show ?thesis using put_set_written by simp
qed

text \<open>A spelling under which a set is not listed.\<close>

lemma other_spelling_unset: "c_sets ctx (fold_name n) = Some (n, rows) \<Longrightarrow> fold_name n' = fold_name n \<Longrightarrow> n' \<noteq> n \<Longrightarrow> require_set ctx n' = Inl (unset_error n')"
  by (simp add: require_set_def)

text \<open>A program at the caller's date, if there is one.\<close>

lemma program_step:
  assumes "run_program_body env program diff_mode snap sets fresh = Inr ctx"
  shows "sets_ok sets \<Longrightarrow> sets_ok (c_sets ctx)" and "c_snapshot ctx = snap" and "fold_name default_set \<in> dom (c_sets ctx)" and "dom sets \<subseteq> dom (c_sets ctx)"
    and "fresh \<le> c_fresh ctx"
    and "k \<notin> fold_name ` (insert default_set (\<Union>s\<in>set (p_statements program). writes s) \<union> internal_names env fresh (c_fresh ctx)) \<Longrightarrow> c_sets ctx k = sets k"
proof -
  let ?W = "\<Union>s\<in>set (p_statements program). writes s"
  obtain env' c0 c where c: "rfold (execute_statement env') (p_statements program) c0 = Inr c" "c_sets c0 = materialize default_set [] sets" "ctx = c\<lparr>c_snapshot := snap\<rparr>"
    and e: "e_fresh env' = e_fresh env" "c_fresh c0 = fresh"
    using assms unfolding run_program_body_def Let_def by (auto simp: rbind_eq_Inr split: option.splits)
  have "ctx_step env' ?W c0 c" by (rule body_step [OF c(1) statement_step]) (simp_all only: subset_refl)
  note step = ctx_stepD [OF this]
  have names: "internal_names env' = internal_names env" by (simp add: internal_names_def fresh_name_def e fun_eq_iff)
  have ctx: "c_sets ctx = c_sets c" "c_snapshot ctx = snap" "c_fresh ctx = c_fresh c" by (simp_all add: c(3))
  then show "c_snapshot ctx = snap" "fresh \<le> c_fresh ctx" using step(3) e(2) by simp_all
  show "sets_ok (c_sets ctx)" if "sets_ok sets" unfolding ctx by (rule step(1)) (unfold c(2), rule sets_ok_materialize [OF that])
  have "insert (fold_name default_set) (dom sets) \<subseteq> dom (c_sets c)" using step(2) unfolding c(2) materialize_def create_table_dom .
  then show "fold_name default_set \<in> dom (c_sets ctx)" "dom sets \<subseteq> dom (c_sets ctx)" unfolding ctx by (simp_all only: insert_subset)
  show "c_sets ctx k = sets k" if k: "k \<notin> fold_name ` (insert default_set ?W \<union> internal_names env fresh (c_fresh ctx))"
  proof -
    have "k \<notin> touched env' ?W c0 c" using k by (auto simp: touched_def names e ctx)
    moreover have "k \<noteq> fold_name default_set" using k by auto
    ultimately show ?thesis using step(4) [of k] by (simp add: ctx c(2) materialize_def create_table_other)
  qed
qed

lemma first_of_key_inj:
  assumes "inj_on row_key (set rows)"
  shows "set (first_of_key {} rows) = set rows"
proof
  show "set rows \<subseteq> set (first_of_key {} rows)"
  proof
    fix r assume r: "r \<in> set rows"
    then have "row_key r \<in> row_key ` set (first_of_key {} rows)" by (simp add: first_of_key_keys keys_of_def)
    then obtain q where "q \<in> set (first_of_key {} rows)" "row_key q = row_key r" by auto
    then show "r \<in> set (first_of_key {} rows)" using first_of_key_subset r inj_onD [OF assms] by (metis subsetD)
  qed
qed (rule first_of_key_subset)

end
