(* ===== verification/Recurse_Correct.thy ===== *)
theory Recurse_Correct
  imports Recurse
begin

text \<open>
  What \<open>>>\<close> and \<open><<\<close> find: with readers that give the rows of a database, the loop is a search by
  levels, and it finds what can be reached without passing through the input set, within its
  limit of hops.
\<close>

section \<open>Search by levels\<close>

definition rows_at :: "(el_key \<Rightarrow> out_row option) \<Rightarrow> el_key set \<Rightarrow> out_row set" where
  "rows_at db ks = {r. \<exists>k\<in>ks. db k = Some r}"

lemma rows_at_empty [simp]: "rows_at db {} = {}"
  by (simp add: rows_at_def)

lemma rows_at_Un: "rows_at db (A \<union> B) = rows_at db A \<union> rows_at db B"
  by (auto simp: rows_at_def)

fun found :: "(el_key \<Rightarrow> out_row option) \<Rightarrow> (out_row \<Rightarrow> el_key set) \<Rightarrow> nat \<Rightarrow> out_row set \<Rightarrow> el_key set \<Rightarrow> out_row set" where
  "found db succs 0 F S = {}"
| "found db succs (Suc n) F S =
     (let N = (\<Union>r\<in>F. succs r) - S in rows_at db N \<union> found db succs n (rows_at db N) (S \<union> N))"

text \<open>Reached from the rows of \<open>F\<close> in so many hops, with no key of \<open>S\<close> on the way.\<close>

inductive reach_in :: "(el_key \<Rightarrow> out_row option) \<Rightarrow> (out_row \<Rightarrow> el_key set) \<Rightarrow> out_row set \<Rightarrow> el_key set \<Rightarrow> nat \<Rightarrow> el_key \<Rightarrow> bool"
  for db succs F S where
  first: "r \<in> F \<Longrightarrow> k \<in> succs r \<Longrightarrow> k \<notin> S \<Longrightarrow> reach_in db succs F S (Suc 0) k"
| next_hop: "reach_in db succs F S m k \<Longrightarrow> db k = Some r \<Longrightarrow> k' \<in> succs r \<Longrightarrow> k' \<notin> S \<Longrightarrow> reach_in db succs F S (Suc m) k'"

inductive_cases reach_in_Suc: "reach_in db succs F S (Suc m) k"

lemma reach_in_pos: "reach_in db succs F S m k \<Longrightarrow> 0 < m"
  by (induction rule: reach_in.induct) auto

lemma found_empty: "found db succs n {} S = {}"
  by (induction n arbitrary: S) (auto simp: rows_at_def)

lemma reach_down:
  assumes "reach_in db succs (rows_at db N) (S \<union> N) m k" and "N = (\<Union>r\<in>F. succs r) - S"
  shows "reach_in db succs F S (Suc m) k"
  using assms(1)
proof induction
  case (first r k)
  then obtain k0 where k0: "k0 \<in> N" "db k0 = Some r" by (auto simp: rows_at_def)
  then have "reach_in db succs F S (Suc 0) k0" using assms(2) by (auto intro: reach_in.first)
  then show ?case using k0 first reach_in.next_hop by fastforce
next
  case (next_hop m k r k')
  then show ?case using reach_in.next_hop by fastforce
qed

lemma reach_up:
  assumes "reach_in db succs F S m k" and "N = (\<Union>r\<in>F. succs r) - S"
  shows "k \<in> N \<or> (\<exists>m'. m' < m \<and> reach_in db succs (rows_at db N) (S \<union> N) m' k)"
  using assms(1)
proof induction
  case (first r k)
  then show ?case using assms(2) by auto
next
  case (next_hop m k r k')
  show ?case
  proof (cases "k' \<in> N")
    case False
    then have out: "k' \<notin> S \<union> N" using next_hop by simp
    from next_hop.IH show ?thesis
    proof
      assume "k \<in> N"
      then have "r \<in> rows_at db N" using next_hop by (auto simp: rows_at_def)
      then have "reach_in db succs (rows_at db N) (S \<union> N) (Suc 0) k'" using next_hop out by (auto intro: reach_in.first)
      then show ?thesis using reach_in_pos [OF next_hop.hyps(1)] by fastforce
    next
      assume "\<exists>m'. m' < m \<and> reach_in db succs (rows_at db N) (S \<union> N) m' k"
      then obtain m' where "m' < m" "reach_in db succs (rows_at db N) (S \<union> N) m' k" by blast
      then have "reach_in db succs (rows_at db N) (S \<union> N) (Suc m') k'" using next_hop out by (auto intro: reach_in.next_hop)
      then show ?thesis using \<open>m' < m\<close> by fastforce
    qed
  qed simp
qed

lemma found_reach: "found db succs n F S = rows_at db {k. \<exists>m\<le>n. reach_in db succs F S m k}"
proof (induction n arbitrary: F S)
  case 0
  then show ?case using reach_in_pos by (fastforce simp: rows_at_def)
next
  case (Suc n)
  define N where N: "N = (\<Union>r\<in>F. succs r) - S"
  have "(\<exists>m\<le>Suc n. reach_in db succs F S m k) \<longleftrightarrow> k \<in> N \<or> (\<exists>m\<le>n. reach_in db succs (rows_at db N) (S \<union> N) m k)" for k
  proof
    assume "\<exists>m\<le>Suc n. reach_in db succs F S m k"
    then obtain m where m: "m \<le> Suc n" "reach_in db succs F S m k" by blast
    from reach_up [OF m(2) N] show "k \<in> N \<or> (\<exists>m\<le>n. reach_in db succs (rows_at db N) (S \<union> N) m k)" using m(1) by fastforce
  next
    assume "k \<in> N \<or> (\<exists>m\<le>n. reach_in db succs (rows_at db N) (S \<union> N) m k)"
    then show "\<exists>m\<le>Suc n. reach_in db succs F S m k"
    proof
      assume "k \<in> N"
      then have "reach_in db succs F S (Suc 0) k" by (auto simp: N intro: reach_in.first)
      then show ?thesis by force
    next
      assume "\<exists>m\<le>n. reach_in db succs (rows_at db N) (S \<union> N) m k"
      then show ?thesis using reach_down [OF _ N] by blast
    qed
  qed
  then have "{k. \<exists>m\<le>Suc n. reach_in db succs F S m k} = N \<union> {k. \<exists>m\<le>n. reach_in db succs (rows_at db N) (S \<union> N) m k}" by blast
  then show ?case using Suc.IH by (simp add: rows_at_Un Let_def flip: N)
qed

section \<open>Enough hops\<close>

definition hop_dist :: "(el_key \<Rightarrow> out_row option) \<Rightarrow> (out_row \<Rightarrow> el_key set) \<Rightarrow> out_row set \<Rightarrow> el_key set \<Rightarrow> nat \<Rightarrow> el_key \<Rightarrow> bool" where
  "hop_dist db succs F S m k \<longleftrightarrow> reach_in db succs F S m k \<and> (\<forall>m'<m. \<not> reach_in db succs F S m' k)"

lemma hop_dist_before:
  assumes "hop_dist db succs F S m k" and "0 < j" and "j < m"
  shows "\<exists>k'. hop_dist db succs F S j k' \<and> db k' \<noteq> None"
  using assms
proof (induction "m - j" arbitrary: m k)
  case (Suc d)
  obtain m0 where m0: "m = Suc m0" using Suc.prems(3) by (cases m) auto
  with Suc.prems have "reach_in db succs F S (Suc m0) k" "m0 \<noteq> 0" by (auto simp: hop_dist_def)
  then obtain k0 r where k0: "reach_in db succs F S m0 k0" "db k0 = Some r" "k \<in> succs r" "k \<notin> S" by (auto elim: reach_in_Suc)
  have "hop_dist db succs F S m0 k0"
    unfolding hop_dist_def
  proof (intro conjI allI impI notI)
    fix m' assume "m' < m0" "reach_in db succs F S m' k0"
    then have "reach_in db succs F S (Suc m') k" using k0 by (auto intro: reach_in.next_hop)
    then show False using Suc.prems(1) \<open>m' < m0\<close> by (auto simp: hop_dist_def m0)
  qed (rule k0(1))
  then show ?case using Suc.hyps(1) [of m0 k0] Suc.hyps(2) Suc.prems(2,3) k0(2) m0 by (cases "j = m0") (blast, fastforce)
qed simp

lemma reach_within:
  assumes "finite (dom db)" and "reach_in db succs F S m k"
  shows "\<exists>m'\<le>card (dom db) + 1. reach_in db succs F S m' k"
proof -
  define d where "d = (LEAST m. reach_in db succs F S m k)"
  have d: "hop_dist db succs F S d k" unfolding hop_dist_def d_def using LeastI [of "\<lambda>m. reach_in db succs F S m k", OF assms(2)] not_less_Least by blast
  have "\<forall>j\<in>{0<..<d}. \<exists>k'. hop_dist db succs F S j k' \<and> db k' \<noteq> None" using hop_dist_before [OF d] by auto
  then obtain f where f: "\<forall>j\<in>{0<..<d}. hop_dist db succs F S j (f j) \<and> db (f j) \<noteq> None" by metis
  have "inj_on f {0<..<d}"
  proof (rule inj_onI)
    fix i j assume ij: "i \<in> {0<..<d}" "j \<in> {0<..<d}" "f i = f j"
    then have "hop_dist db succs F S i (f i)" "hop_dist db succs F S j (f i)" using f by metis+
    then show "i = j" unfolding hop_dist_def by (meson linorder_neqE_nat)
  qed
  moreover have "f ` {0<..<d} \<subseteq> dom db" using f by auto
  ultimately have "card {0<..<d} \<le> card (dom db)" using assms(1) by (metis card_image card_mono)
  then have "d \<le> card (dom db) + 1" by simp
  then show ?thesis using d by (auto simp: hop_dist_def)
qed

section \<open>The loop\<close>

definition hop_keys :: "hop list \<Rightarrow> el_key set" where
  "hop_keys hops = (\<lambda>(t, i, c). (t, i)) ` set hops"

lemma hop_keys_mem: "k \<in> hop_keys hops \<longleftrightarrow> (\<exists>c. (fst k, snd k, c) \<in> set hops)"
  by (cases k) (force simp: hop_keys_def)

lemma hop_keys_filter: "hop_keys (filter (\<lambda>(t, i, c). P (t, i)) hops) = {k \<in> hop_keys hops. P k}"
  by (rule set_eqI) (simp add: hop_keys_mem)

definition opt_rows :: "out_row list option \<Rightarrow> out_row set" where
  "opt_rows rows = (case rows of None \<Rightarrow> {} | Some rs \<Rightarrow> set rs)"

definition opt_hops :: "hop list option \<Rightarrow> el_key set" where
  "opt_hops hops = (case hops of None \<Rightarrow> {} | Some hs \<Rightarrow> hop_keys hs)"

text \<open>Hops and rows are those of a database; no table is an empty one.\<close>

definition hops_exact :: "engine_env \<Rightarrow> datetime option \<Rightarrow> bool \<Rightarrow> (el_key \<Rightarrow> out_row option) \<Rightarrow> (out_row \<Rightarrow> el_key set) \<Rightarrow> bool" where
  "hops_exact env snap forward db succs \<longleftrightarrow>
     (\<forall>frontier. \<exists>hops n. one_hop env snap forward frontier = Inr (hops, n) \<and> opt_hops hops = (\<Union>r\<in>set frontier. succs r)) \<and>
     (\<forall>frontier new. hop_keys new \<subseteq> (\<Union>r\<in>set frontier. succs r) \<longrightarrow>
        (\<exists>rows n. hydrate_hop env snap forward frontier new = Inr (rows, n) \<and> opt_rows rows = rows_at db (hop_keys new)))"

lemma hops_exactD:
  assumes "hops_exact env snap forward db succs"
  shows "\<exists>hops n. one_hop env snap forward frontier = Inr (hops, n) \<and> opt_hops hops = (\<Union>r\<in>set frontier. succs r)"
    and "hop_keys new \<subseteq> (\<Union>r\<in>set frontier. succs r) \<Longrightarrow>
      \<exists>rows n. hydrate_hop env snap forward frontier new = Inr (rows, n) \<and> opt_rows rows = rows_at db (hop_keys new)"
  using assms unfolding hops_exact_def by (iprover)+

lemma found_stop: "rows_at db ((\<Union>r\<in>F. succs r) - S) = {} \<Longrightarrow> found db succs n F S = {}"
  by (cases n) (simp_all add: Let_def found_empty)

lemma trans_loop_found:
  assumes "hops_exact env snap forward db succs"
  shows "\<exists>rows n. trans_loop env snap forward h frontier seen = Inr (rows, n) \<and> set rows = found db succs h (set frontier) seen"
proof (induction h arbitrary: frontier seen)
  case (Suc h)
  define N where N: "N = (\<Union>r\<in>set frontier. succs r) - seen"
  obtain hop n1 where hop: "one_hop env snap forward frontier = Inr (hop, n1)" "opt_hops hop = (\<Union>r\<in>set frontier. succs r)"
    using hops_exactD(1) [OF assms, of frontier] by (elim exE conjE)
  show ?case
  proof (cases "hop")
    case None
    then have "N = {}" using hop(2) by (simp add: N opt_hops_def)
    then have "found db succs (Suc h) (set frontier) seen = {}" by (intro found_stop) (simp flip: N)
    then show ?thesis using hop(1) None by (simp add: rbind_def del: found.simps)
  next
    case (Some hops)
    define new where new: "new = filter (\<lambda>(t, i, c). (t, i) \<notin> seen) hops"
    have keys: "hop_keys new = N"
    proof -
      have "hop_keys new = {k \<in> hop_keys hops. k \<notin> seen}" unfolding new by (rule hop_keys_filter)
      then show ?thesis using hop(2) by (simp add: N Some opt_hops_def set_diff_eq)
    qed
    have sub: "hop_keys new \<subseteq> (\<Union>r\<in>set frontier. succs r)" unfolding keys N by blast
    obtain rows n2 where rows: "hydrate_hop env snap forward frontier new = Inr (rows, n2)" "opt_rows rows = rows_at db N"
      using hops_exactD(2) [OF assms sub] unfolding keys by (elim exE conjE)
    have seen: "set (map (\<lambda>(t, i, c). (t, i)) new) = N" unfolding keys [symmetric] hop_keys_def by (rule set_map)
    have step: "trans_loop env snap forward (Suc h) frontier seen =
        (if new = [] then Inr ([], n1)
         else (case rows of None \<Rightarrow> Inr ([], n1 + n2)
               | Some rs \<Rightarrow> rbind (trans_loop env snap forward h rs (seen \<union> N)) (\<lambda>(more, f3). Inr (rs @ more, n1 + n2 + f3))))"
      unfolding trans_loop.simps hop(1) Some rbind_def Let_def by (simp only: sum.case prod.case option.case rows(1) seen flip: new)
    show ?thesis
    proof (cases "new = [] \<or> rows = None")
      case True
      then have "rows_at db N = {}" using keys rows(2) by (auto simp: hop_keys_def opt_rows_def)
      then have "found db succs (Suc h) (set frontier) seen = {}" by (intro found_stop) (simp flip: N)
      then show ?thesis using True by (auto simp: step simp del: found.simps trans_loop.simps)
    next
      case False
      then obtain rs where rs: "rows = Some rs" "set rs = rows_at db N" using rows(2) by (auto simp: opt_rows_def)
      obtain more n3 where more: "trans_loop env snap forward h rs (seen \<union> N) = Inr (more, n3)"
        "set more = found db succs h (set rs) (seen \<union> N)" using Suc.IH by blast
      then have "trans_loop env snap forward (Suc h) frontier seen = Inr (rs @ more, n1 + n2 + n3)"
        using False by (simp add: step rs(1) rbind_def del: trans_loop.simps)
      moreover have "set (rs @ more) = found db succs (Suc h) (set frontier) seen" by (simp add: rs(2) more(2) Let_def flip: N)
      ultimately show ?thesis by blast
    qed
  qed
qed simp

section \<open>Readers\<close>

abbreviation el_types :: "string set" where
  "el_types \<equiv> {''node'', ''way'', ''relation''}"

text \<open>Keys of a row's references and members.\<close>

definition children_of :: "out_row \<Rightarrow> el_key set" where
  "children_of r = hop_keys (way_refs r @ rel_refs {''n'', ''w'', ''r''} None r)"

definition ids_at :: "(el_key \<Rightarrow> out_row option) \<Rightarrow> string \<Rightarrow> int set \<Rightarrow> out_row set" where
  "ids_at db t ids = rows_at db ((\<lambda>i. (lit t, i)) ` ids)"

text \<open>The readers give the rows of a database for the ids they are asked for, and the parents of each key.\<close>

definition readers_exact :: "engine_env \<Rightarrow> datetime option \<Rightarrow> (el_key \<Rightarrow> out_row option) \<Rightarrow> (el_key \<Rightarrow> el_key set) \<Rightarrow> bool" where
  "readers_exact env snap db parents \<longleftrightarrow>
     (\<forall>ids near. \<exists>rows n. e_hydrate_ways env snap ids near [] = Inr (rows, n) \<and> opt_rows rows = ids_at db ''way'' (set ids)) \<and>
     (\<forall>ids near. \<exists>rows n. e_hydrate_nodes env snap ids near [] = Inr (rows, n) \<and> opt_rows rows = ids_at db ''node'' (set ids)) \<and>
     (\<forall>t\<in>el_types. \<forall>ids. \<exists>rows n. e_hydrate_type env snap t ids [] = Inr (rows, n) \<and> opt_rows rows = ids_at db t (fst ` set ids)) \<and>
     (\<forall>source. \<exists>hops n. e_parents env snap source None None = Inr (hops, n) \<and> opt_hops hops = (\<Union>(k, p)\<in>set source. parents k)) \<and>
     (\<forall>k. fst ` parents k \<subseteq> lit ` el_types)"

lemma readersD:
  assumes "readers_exact env snap db parents"
  shows "\<exists>rows n. e_hydrate_ways env snap ids near [] = Inr (rows, n) \<and> opt_rows rows = ids_at db ''way'' (set ids)"
    and "\<exists>rows n. e_hydrate_nodes env snap ids near [] = Inr (rows, n) \<and> opt_rows rows = ids_at db ''node'' (set ids)"
    and "t \<in> el_types \<Longrightarrow> \<exists>rows n. e_hydrate_type env snap t idcs [] = Inr (rows, n) \<and> opt_rows rows = ids_at db t (fst ` set idcs)"
    and "\<exists>hops n. e_parents env snap source None None = Inr (hops, n) \<and> opt_hops hops = (\<Union>(k, p)\<in>set source. parents k)"
    and "fst ` parents k \<subseteq> lit ` el_types"
  using assms unfolding readers_exact_def Ball_def by iprover+

abbreviation keys_typed :: "string \<Rightarrow> hop list \<Rightarrow> el_key set" where
  "keys_typed t hops \<equiv> {k \<in> hop_keys hops. fst k = lit t}"

lemma hop_ids_set: "(\<lambda>i. (lit t, i)) ` set (hop_ids t hops) = keys_typed t hops"
  by (auto simp: hop_ids_def hop_keys_mem image_iff)

lemma hydrate_one_exact:
  assumes "readers_exact env snap db parents" and "t \<in> el_types"
  shows "\<exists>rows n. hydrate_one env snap hops [] only t = Inr (rows, n) \<and> opt_rows rows = (if wants only t then rows_at db (keys_typed t hops) else {})"
proof -
  define ids where ids: "ids = remdups (map (\<lambda>(ty, i, c). (i, c)) (filter (\<lambda>(ty, i, c). ty = lit t) hops))"
  have keys: "(\<lambda>i. (lit t, i)) ` fst ` set ids = keys_typed t hops" unfolding ids by (auto simp: hop_keys_mem image_iff)
  obtain rows n where r: "e_hydrate_type env snap t ids [] = Inr (rows, n)" "opt_rows rows = ids_at db t (fst ` set ids)"
    using readersD(3) [OF assms, of ids] by (elim exE conjE)
  have step: "hydrate_one env snap hops [] only t = (if \<not> wants only t \<or> ids = [] then Inr (None, 0) else Inr (rows, n))"
    unfolding hydrate_one_def Let_def by (simp only: r(1) flip: ids)
  show ?thesis
  proof (cases "ids = []")
    case True
    then have none: "keys_typed t hops = {}" unfolding keys [symmetric] by simp
    have "rows_at db (keys_typed t hops) = {}" unfolding none by simp
    then show ?thesis using True by (simp add: step opt_rows_def)
  next
    case False
    have "opt_rows rows = rows_at db (keys_typed t hops)" unfolding r(2) ids_at_def keys ..
    then show ?thesis using False by (simp add: step opt_rows_def)
  qed
qed

lemma union_opt_set: "opt_rows (union_opt parts) = (\<Union>p\<in>set parts. opt_rows p)"
proof -
  have tables: "set (List.map_filter id parts) = {t. Some t \<in> set parts}" by (force simp: List.map_filter_def)
  have empty: "List.map_filter id parts = [] \<longleftrightarrow> (\<forall>p\<in>set parts. p = None)" by (auto simp: List.map_filter_def filter_empty_conv)
  show ?thesis
  proof (cases "List.map_filter id parts = []")
    case True
    then show ?thesis using empty by (auto simp: union_opt_def opt_rows_def)
  next
    case False
    then show ?thesis using tables by (force simp: union_opt_def Let_def opt_rows_def split: option.splits)
  qed
qed

lemma hydrate_ids_exact:
  assumes r: "readers_exact env snap db parents"
  shows "\<exists>rows n. hydrate_ids_table env snap hops [] only = Inr (rows, n) \<and>
    opt_rows rows = (\<Union>t\<in>{t \<in> el_types. wants only t}. rows_at db (keys_typed t hops))"
proof -
  let ?at = "\<lambda>t. if wants only t then rows_at db (keys_typed t hops) else {}"
  have types: "''node'' \<in> el_types" "''way'' \<in> el_types" "''relation'' \<in> el_types" by simp_all
  obtain a n1 where a: "hydrate_one env snap hops [] only ''node'' = Inr (a, n1)" "opt_rows a = ?at ''node''"
    using hydrate_one_exact [OF r types(1), of hops only] by (elim exE conjE)
  obtain b n2 where b: "hydrate_one env snap hops [] only ''way'' = Inr (b, n2)" "opt_rows b = ?at ''way''"
    using hydrate_one_exact [OF r types(2), of hops only] by (elim exE conjE)
  obtain c n3 where c: "hydrate_one env snap hops [] only ''relation'' = Inr (c, n3)" "opt_rows c = ?at ''relation''"
    using hydrate_one_exact [OF r types(3), of hops only] by (elim exE conjE)
  have "hydrate_ids_table env snap hops [] only = Inr (union_opt [a, b, c], n1 + n2 + n3)"
    by (simp add: hydrate_ids_table_def a(1) b(1) c(1) rbind_def)
  moreover have "opt_rows (union_opt [a, b, c]) = ?at ''node'' \<union> ?at ''way'' \<union> ?at ''relation''"
    by (simp only: union_opt_set list.set a(2) b(2) c(2) UN_insert UN_empty Un_empty_right Un_assoc)
  moreover have "\<dots> = (\<Union>t\<in>{t \<in> el_types. wants only t}. rows_at db (keys_typed t hops))"
    by (rule set_eqI) (auto simp del: split_paired_All split_paired_Ex split: if_splits)
  ultimately show ?thesis by (metis (no_types, lifting))
qed

lemma hydrate_if_exact:
  assumes "\<And>ids near. \<exists>rows n. h snap ids near [] = Inr (rows, n) \<and> opt_rows rows = ids_at db t (set ids)"
  shows "\<exists>rows n. hydrate_if h snap (hop_ids t hops) near = Inr (rows, n) \<and> opt_rows rows = rows_at db (keys_typed t hops)"
proof -
  obtain rows n where r: "h snap (hop_ids t hops) near [] = Inr (rows, n)" "opt_rows rows = ids_at db t (set (hop_ids t hops))"
    using assms [of "hop_ids t hops" near] by (elim exE conjE)
  have at: "ids_at db t (set (hop_ids t hops)) = rows_at db (keys_typed t hops)" unfolding ids_at_def hop_ids_set ..
  show ?thesis
  proof (cases "hop_ids t hops = []")
    case True
    then have "rows_at db (keys_typed t hops) = {}" unfolding at [symmetric] by (simp add: ids_at_def)
    then show ?thesis using True by (simp add: hydrate_if_def opt_rows_def)
  next
    case False
    then show ?thesis using r at by (simp add: hydrate_if_def)
  qed
qed

lemma rows_at_types:
  assumes "fst ` hop_keys hops \<subseteq> lit ` el_types"
  shows "rows_at db (hop_keys hops) =
    rows_at db (keys_typed ''node'' hops) \<union> (rows_at db (keys_typed ''way'' hops) \<union> rows_at db (keys_typed ''relation'' hops))"
proof -
  have split: "hop_keys hops = keys_typed ''node'' hops \<union> (keys_typed ''way'' hops \<union> keys_typed ''relation'' hops)" using assms by blast
  show ?thesis by (subst split) (simp only: rows_at_Un)
qed

lemma hydrate_hop_exact:
  assumes r: "readers_exact env snap db parents" and t: "fst ` hop_keys new \<subseteq> lit ` el_types"
  shows "\<exists>rows n. hydrate_hop env snap forward frontier new = Inr (rows, n) \<and> opt_rows rows = rows_at db (hop_keys new)"
proof (cases forward)
  case False
  have "(\<Union>t\<in>{t \<in> el_types. wants None t}. rows_at db (keys_typed t new)) = rows_at db (hop_keys new)"
    unfolding rows_at_types [OF t] wants_def by (rule set_eqI) (auto simp del: split_paired_All split_paired_Ex)
  then show ?thesis using False hydrate_ids_exact [OF r, of new None] by (simp only: hydrate_hop_def if_False)
next
  case True
  define near where near: "near = filter (\<lambda>r. is_type ''way'' r \<or> is_type ''relation'' r) frontier"
  obtain a n1 where a: "hydrate_if (e_hydrate_ways env) snap (hop_ids ''way'' new) near = Inr (a, n1)" "opt_rows a = rows_at db (keys_typed ''way'' new)"
    using hydrate_if_exact [of "e_hydrate_ways env" snap db "''way''" new near, OF readersD(1) [OF r]] by (elim exE conjE)
  obtain b n2 where b: "hydrate_if (e_hydrate_nodes env) snap (hop_ids ''node'' new) near = Inr (b, n2)" "opt_rows b = rows_at db (keys_typed ''node'' new)"
    using hydrate_if_exact [of "e_hydrate_nodes env" snap db "''node''" new near, OF readersD(2) [OF r]] by (elim exE conjE)
  obtain c n3 where c: "hydrate_ids_table env snap new [] (Some {''relation''}) = Inr (c, n3)"
    "opt_rows c = (\<Union>t\<in>{t \<in> el_types. wants (Some {''relation''}) t}. rows_at db (keys_typed t new))"
    using hydrate_ids_exact [OF r, of new "Some {''relation''}"] by (elim exE conjE)
  have only: "{t \<in> el_types. wants (Some {''relation''}) t} = {''relation''}" by (auto simp: wants_def)
  have "hydrate_hop env snap forward frontier new = Inr (union_opt [a, b, c], n1 + n2 + n3)"
    using True by (simp add: hydrate_hop_def a(1) b(1) c(1) rbind_def flip: near)
  moreover have "opt_rows (union_opt [a, b, c]) = rows_at db (hop_keys new)"
    unfolding rows_at_types [OF t] union_opt_set list.set
    by (simp only: a(2) b(2) c(2) only UN_insert UN_empty Un_empty_right Un_empty_left Un_ac)
  ultimately show ?thesis by blast
qed

section \<open>Forward and backward hops\<close>

definition succs_of :: "bool \<Rightarrow> (el_key \<Rightarrow> el_key set) \<Rightarrow> out_row \<Rightarrow> el_key set" where
  "succs_of forward parents r = (if forward then children_of r else parents (row_key r))"

lemma hop_keys_append: "hop_keys (xs @ ys) = hop_keys xs \<union> hop_keys ys" "hop_keys (concat xss) = (\<Union>xs\<in>set xss. hop_keys xs)"
  "hop_keys (remdups xs) = hop_keys xs"
  unfolding hop_keys_def set_append set_concat set_remdups by (rule image_Un, rule image_UN, rule refl)

lemma hop_key_types: "fst ` hop_keys hops = fst ` set hops"
  unfolding hop_keys_def image_image by (rule image_cong) auto

lemma children_types: "fst ` children_of r \<subseteq> lit ` el_types"
proof -
  have way: "fst h = lit ''node''" if "h \<in> set (way_refs r)" for h
    using that unfolding way_refs_def by (cases "is_type ''way'' r"; cases "r_refs r") auto
  have mem: "member_type_name t \<in> lit ` el_types" if "t \<in> lit ` {''n'', ''w'', ''r''}" for t
    using that unfolding member_type_name_def image_insert image_empty insert_iff empty_iff by presburger
  have rel: "fst h \<in> lit ` el_types" if h: "h \<in> set (rel_refs {''n'', ''w'', ''r''} None r)" for h
  proof -
    obtain ms where "r_members r = Some ms" using h unfolding rel_refs_def by (cases "is_type ''relation'' r"; cases "r_members r") auto
    then have "h \<in> set (map (\<lambda>m. (member_type_name (rm_type m), rm_ref m, None)) (filter (\<lambda>m. rm_type m \<in> lit ` {''n'', ''w'', ''r''}) ms))"
      using h unfolding rel_refs_def by (cases "is_type ''relation'' r") simp_all
    then show ?thesis unfolding set_map set_filter
    proof
      fix m
      assume h: "h = (member_type_name (rm_type m), rm_ref m, None)" and "m \<in> {m \<in> set ms. rm_type m \<in> lit ` {''n'', ''w'', ''r''}}"
      then have "rm_type m \<in> lit ` {''n'', ''w'', ''r''}" by (simp only: mem_Collect_eq)
      then show ?thesis using mem [of "rm_type m"] by (simp only: h fst_conv)
    qed
  qed
  show ?thesis unfolding children_of_def hop_key_types set_append using way rel by blast
qed

lemma forward_ids_exact: "\<exists>hops. forward_new_ids frontier None None None = Some hops \<and> hop_keys hops = (\<Union>r\<in>set frontier. children_of r)"
  unfolding forward_new_ids_def wants_def Let_def
  by (simp add: hop_keys_append children_of_def UN_Un_distrib insert_commute)

lemma readers_hops:
  assumes r: "readers_exact env snap db parents"
  shows "hops_exact env snap forward db (succs_of forward parents)"
  unfolding hops_exact_def
proof (intro conjI allI impI)
  fix frontier
  show "\<exists>hops n. one_hop env snap forward frontier = Inr (hops, n) \<and> opt_hops hops = (\<Union>r\<in>set frontier. succs_of forward parents r)"
  proof (cases forward)
    case True
    obtain hops where "forward_new_ids frontier None None None = Some hops" "hop_keys hops = (\<Union>r\<in>set frontier. children_of r)"
      using forward_ids_exact by blast
    then show ?thesis using True by (simp add: one_hop_def succs_of_def opt_hops_def)
  next
    case False
    have "(\<Union>(k, p)\<in>set (source_of frontier). parents k) = (\<Union>r\<in>set frontier. parents (row_key r))" by (simp add: source_of_def)
    then show ?thesis using False readersD(4) [OF r, of "source_of frontier"] by (simp add: one_hop_def succs_of_def)
  qed
next
  fix frontier new
  assume sub: "hop_keys new \<subseteq> (\<Union>r\<in>set frontier. succs_of forward parents r)"
  have "fst ` succs_of forward parents q \<subseteq> lit ` el_types" for q
    using children_types readersD(5) [OF r] by (simp only: succs_of_def if_split_asm split: if_split) blast
  then have "fst ` hop_keys new \<subseteq> lit ` el_types" using sub by blast
  then show "\<exists>rows n. hydrate_hop env snap forward frontier new = Inr (rows, n) \<and> opt_rows rows = rows_at db (hop_keys new)"
    by (rule hydrate_hop_exact [OF r])
qed

section \<open>The closure\<close>

text \<open>Linked to the rows of \<open>F\<close> by one hop or more.\<close>

inductive linked :: "(el_key \<Rightarrow> out_row option) \<Rightarrow> (out_row \<Rightarrow> el_key set) \<Rightarrow> out_row set \<Rightarrow> el_key \<Rightarrow> bool" for db succs F where
  here: "r \<in> F \<Longrightarrow> k \<in> succs r \<Longrightarrow> linked db succs F k"
| there: "linked db succs F k \<Longrightarrow> db k = Some r \<Longrightarrow> k' \<in> succs r \<Longrightarrow> linked db succs F k'"

lemma reach_linked: "reach_in db succs F S m k \<Longrightarrow> linked db succs F k \<and> k \<notin> S"
  by (induction rule: reach_in.induct) (auto intro: linked.intros)

lemma linked_reach:
  assumes "linked db succs F k" and "\<And>k r. k \<in> S \<Longrightarrow> db k = Some r \<Longrightarrow> r \<in> F" and "k \<notin> S"
  shows "\<exists>m. reach_in db succs F S m k"
  using assms(1,3)
proof induction
  case (here r k)
  then show ?case using reach_in.first by blast
next
  case (there k r k')
  show ?case
  proof (cases "k \<in> S")
    case True
    then have "r \<in> F" using assms(2) there by blast
    then show ?thesis using there reach_in.first by blast
  next
    case False
    then show ?thesis using there reach_in.next_hop by blast
  qed
qed

lemma linked_within:
  assumes "finite (dom db)" and "card (dom db) < n" and "\<And>k r. k \<in> S \<Longrightarrow> db k = Some r \<Longrightarrow> r \<in> F"
  shows "{k. \<exists>m\<le>n. reach_in db succs F S m k} = {k. linked db succs F k} - S"
proof (rule set_eqI)
  fix k
  show "k \<in> {k. \<exists>m\<le>n. reach_in db succs F S m k} \<longleftrightarrow> k \<in> {k. linked db succs F k} - S"
  proof
    assume "k \<in> {k. \<exists>m\<le>n. reach_in db succs F S m k}"
    then show "k \<in> {k. linked db succs F k} - S" using reach_linked by blast
  next
    assume "k \<in> {k. linked db succs F k} - S"
    then obtain m where "reach_in db succs F S m k" using linked_reach [of db succs F k S] assms(3) by blast
    then obtain m' where "m' \<le> card (dom db) + 1" "reach_in db succs F S m' k" using reach_within [OF assms(1)] by blast
    then show "k \<in> {k. \<exists>m\<le>n. reach_in db succs F S m k}" using assms(2) by (intro CollectI exI [of _ m']) auto
  qed
qed

text \<open>Within the limit of hops, whatever the input set.\<close>

lemma transitive_found:
  assumes "readers_exact env snap db parents"
  shows "\<exists>rows n. recurse_transitive env snap forward input_set = Inr (rows, n) \<and>
    set rows = rows_at db {k. \<exists>m\<le>10001. reach_in db (succs_of forward parents) (set input_set) (keys_of input_set) m k} \<union>
      (if forward then {r \<in> set input_set. is_type ''relation'' r} else {})"
proof -
  obtain rows n where "trans_loop env snap forward 10001 input_set (keys_of input_set) = Inr (rows, n)"
    "set rows = found db (succs_of forward parents) 10001 (set input_set) (keys_of input_set)"
    using trans_loop_found [OF readers_hops [OF assms], of forward 10001 input_set "keys_of input_set"] by (elim exE conjE)
  then show ?thesis unfolding recurse_transitive_def found_reach by (simp add: rbind_def)
qed

lemma transitive_closure:
  assumes "readers_exact env snap db parents" and "finite (dom db)" and "card (dom db) \<le> 10000"
    and "\<forall>r\<in>set input_set. db (row_key r) = Some r"
  shows "\<exists>rows n. recurse_transitive env snap forward input_set = Inr (rows, n) \<and>
    set rows = rows_at db ({k. linked db (succs_of forward parents) (set input_set) k} - keys_of input_set) \<union>
      (if forward then {r \<in> set input_set. is_type ''relation'' r} else {})"
proof -
  have lt: "card (dom db) < 10001" using assms(3) by simp
  have own: "r \<in> set input_set" if "k \<in> keys_of input_set" "db k = Some r" for k r using that assms(4) by (auto simp: keys_of_def)
  have "{k. \<exists>m\<le>10001. reach_in db (succs_of forward parents) (set input_set) (keys_of input_set) m k} =
      {k. linked db (succs_of forward parents) (set input_set) k} - keys_of input_set"
    by (rule linked_within [OF assms(2) lt own])
  then show ?thesis using transitive_found [OF assms(1), of forward input_set] by (simp only:)
qed

section \<open>Readers on tables in memory\<close>

definition memory_env :: "(el_key \<Rightarrow> out_row option) \<Rightarrow> (el_key \<Rightarrow> el_key list) \<Rightarrow> engine_env" where
  "memory_env db parents =
     (let read = (\<lambda>t ids. Inr (Some (List.map_filter (\<lambda>i. db (lit t, i)) ids), 1))
      in \<lparr>e_unicode = ascii_db, e_history = None, e_since = None, e_global_bbox = None, e_areas_used = False, e_diff_mode = False,
          e_spatial = (\<lambda>_ _ _ _ _. Inr ([], 0)), e_byid = (\<lambda>_ t ids _. Inr (List.map_filter (\<lambda>i. db (lit t, i)) ids, 1)), e_tag_match = (\<lambda>_ _. True),
          e_hydrate_nodes = (\<lambda>_ ids _ _. read ''node'' ids), e_hydrate_ways = (\<lambda>_ ids _ _. read ''way'' ids),
          e_hydrate_type = (\<lambda>_ t ids _. read t (map fst ids)),
          e_parents = (\<lambda>_ source _ _. Inr (Some (concat (map (\<lambda>(k, p). map (\<lambda>(t, i). (t, i, None)) (parents k)) source)), 1)),
          e_hook_bbox = (\<lambda>_ _ _. Inr (None, 0, [])), e_hook_pred = (\<lambda>_ _ _ _. Inr (\<lambda>_. True, 0, [])), e_area_stmt = (\<lambda>_ _ _. Inr ([], 0, [])),
          e_scalar = (\<lambda>_ _. Inr SqlNull), e_geometry = (\<lambda>_ _. None), e_node_coords = (\<lambda>_ _ _. None), e_way_geoms = (\<lambda>_ _ _. None), e_no_table = ValueError, e_fresh = Suc\<rparr>)"

lemma map_filter_rows: "set (List.map_filter (\<lambda>i. db (lit t, i)) ids) = ids_at db t (set ids)"
  by (force simp: List.map_filter_def ids_at_def rows_at_def)

lemma memory_readers:
  assumes "\<And>k. fst ` set (parents k) \<subseteq> lit ` el_types"
  shows "readers_exact (memory_env db parents) snap db (\<lambda>k. set (parents k))"
proof -
  have hops: "hop_keys (concat (map (\<lambda>(k, p). map (\<lambda>(t, i). (t, i, None)) (parents k)) source)) = (\<Union>(k, p)\<in>set source. set (parents k))" for source :: "(el_key \<times> (int \<times> int) option) list"
    unfolding hop_keys_append by (force simp: hop_keys_def image_image)
  show ?thesis unfolding readers_exact_def using assms
    by (simp add: memory_env_def opt_rows_def opt_hops_def map_filter_rows hops)
qed

end
