(* ===== verification/Planner_Properties.thy ===== *)
theory Planner_Properties
  imports Planner_Correct Recurse_Correct
begin

text \<open>What statements do to the sets of a run, and what the transitive recursion operators find.\<close>

text \<open>
  C23. A statement that ends without an error keeps every set at one row per type and id, and removes no set; it changes no table
  but those whose names, folded to lower case, are those of the sets that it or a statement inside it names as output, or of the copies that
  the unions, differences and loops in it have made (\<open>__part_N\<close> and \<open>__foreach_N\<close>, for the numbers drawn meanwhile); it leaves the date of the snapshot
  as it was, and only adds to the elements, the warnings and the count of files. The output set of a statement other than a loop or a block is set
  afterwards, and every set whose name differs from its name in case only is not: \<open>->.A\<close> replaces \<open>.a\<close>. A \<open>retro\<close> block leaves
  every set as it was, and of the sets it has added only empty ones. The same of a program: it ends at the date of its caller, has a default set,
  and a table that no statement of it writes is still the one that was there before, as a set that the first pass of a diff has left is for the
  second pass.
\<close>

theorem statement_effects:
  "(execute_statement env s ctx = Inr ctx' \<longrightarrow>
      (sets_ok (c_sets ctx) \<longrightarrow> sets_ok (c_sets ctx')) \<and> dom (c_sets ctx) \<subseteq> dom (c_sets ctx') \<and>
      (\<forall>k. k \<notin> fold_name ` (writes s \<union> internal_names env (c_fresh ctx) (c_fresh ctx')) \<longrightarrow> c_sets ctx' k = c_sets ctx k) \<and>
      c_fresh ctx \<le> c_fresh ctx' \<and> c_snapshot ctx' = c_snapshot ctx \<and>
      prefix (c_elements ctx) (c_elements ctx') \<and> prefix (c_warnings ctx) (c_warnings ctx') \<and> c_files_read ctx \<le> c_files_read ctx' \<and>
      (\<forall>n. own_output s = Some n \<longrightarrow> (\<exists>rows. require_set ctx' n = Inr rows)) \<and>
      (\<forall>n n'. own_output s = Some n \<and> map lower n' = map lower n \<and> n' \<noteq> n \<longrightarrow> require_set ctx' n' = Inl (unset_error n')) \<and>
      (\<forall>e body k. s = Retro e body \<longrightarrow> c_sets ctx' k = c_sets ctx k \<or> c_sets ctx k = None \<and> (\<exists>name. c_sets ctx' k = Some (name, [])))) \<and>
   (run_program_body env program diff_mode snap sets fresh = Inr ctx' \<longrightarrow>
      (sets_ok sets \<longrightarrow> sets_ok (c_sets ctx')) \<and> c_snapshot ctx' = snap \<and> fresh \<le> c_fresh ctx' \<and>
      insert (fold_name default_set) (dom sets) \<subseteq> dom (c_sets ctx') \<and>
      (\<forall>k. k \<notin> fold_name ` (insert default_set (\<Union>s\<in>set (p_statements program). writes s) \<union> internal_names env fresh (c_fresh ctx')) \<longrightarrow>
         c_sets ctx' k = sets k))"
proof (intro conjI impI)
  assume run: "execute_statement env s ctx = Inr ctx'"
  note step = ctx_stepD [OF statement_step [OF run]]
  show "sets_ok (c_sets ctx')" if "sets_ok (c_sets ctx)" using that by (rule step(1))
  show "\<forall>k. k \<notin> fold_name ` (writes s \<union> internal_names env (c_fresh ctx) (c_fresh ctx')) \<longrightarrow> c_sets ctx' k = c_sets ctx k"
    using step(4) unfolding touched_def by iprover
  show "dom (c_sets ctx) \<subseteq> dom (c_sets ctx')" "c_fresh ctx \<le> c_fresh ctx'" "c_snapshot ctx' = c_snapshot ctx"
    "prefix (c_elements ctx) (c_elements ctx')" "prefix (c_warnings ctx) (c_warnings ctx')" "c_files_read ctx \<le> c_files_read ctx'"
    by (rule step)+
  show "\<forall>n. own_output s = Some n \<longrightarrow> (\<exists>rows. require_set ctx' n = Inr rows)"
    unfolding require_set_iff using own_output_written [OF run] by iprover
  show "\<forall>n n'. own_output s = Some n \<and> map lower n' = map lower n \<and> n' \<noteq> n \<longrightarrow> require_set ctx' n' = Inl (unset_error n')"
    unfolding fold_name_def [symmetric] using own_output_written [OF run] other_spelling_unset by blast
  show "\<forall>e body k. s = Retro e body \<longrightarrow> c_sets ctx' k = c_sets ctx k \<or> c_sets ctx k = None \<and> (\<exists>name. c_sets ctx' k = Some (name, []))"
    using run retro_sets by blast
next
  assume "run_program_body env program diff_mode snap sets fresh = Inr ctx'"
  note step = program_step [OF this]
  show "sets_ok (c_sets ctx')" if "sets_ok sets" using that by (rule step(1))
  show "c_snapshot ctx' = snap" "fresh \<le> c_fresh ctx'" by (rule step)+
  show "insert (fold_name default_set) (dom sets) \<subseteq> dom (c_sets ctx')" using step(3,4) by (simp only: insert_subset)
  show "\<forall>k. k \<notin> fold_name ` (insert default_set (\<Union>s\<in>set (p_statements program). writes s) \<union> internal_names env fresh (c_fresh ctx')) \<longrightarrow>
      c_sets ctx' k = sets k" using step(6) by iprover
qed

text \<open>A relation with a way and a node of the way.\<close>

definition plain_row :: "string \<Rightarrow> int \<Rightarrow> int list option \<Rightarrow> row_member list option \<Rightarrow> out_row" where
  "plain_row t i refs ms = \<lparr>r_type = lit t, r_id = i, r_lat_e7 = 0, r_lon_e7 = 0, r_refs = refs, r_members = ms, r_tags = None, r_version = None,
     r_changeset = None, r_timestamp = None, r_uid = None, r_user = None, r_bbox_e7 = (None, None, None, None), r_geometry_wkt = None, r_hilbert = None\<rparr>"

definition rel1 :: out_row where "rel1 = plain_row ''relation'' 1 None (Some [\<lparr>rm_type = lit ''w'', rm_ref = 2, rm_role = None\<rparr>])"

definition way2 :: out_row where "way2 = plain_row ''way'' 2 (Some [3]) None"

definition node3 :: out_row where "node3 = plain_row ''node'' 3 None None"

definition small_db :: "el_key \<Rightarrow> out_row option" where
  "small_db = map_of (map (\<lambda>r. (row_key r, r)) [rel1, way2, node3])"

definition small_ctx :: exec_ctx where
  "small_ctx = \<lparr>c_sets = create_table (lit ''a'') [way2] (create_table default_set [rel1] (\<lambda>_. None)), c_snapshot = None, c_elements = [],
     c_files_read = 0, c_warnings = [], c_diff_versions = (\<lambda>_. None), c_fresh = 0\<rparr>"

lemma small_ctx_sets: "require_set small_ctx default_set = Inr [rel1]" "require_set small_ctx (lit ''a'') = Inr [way2]"
  "sets_ok (c_sets small_ctx)"
proof -
  show "require_set small_ctx default_set = Inr [rel1]" "require_set small_ctx (lit ''a'') = Inr [way2]" by code_simp+
  have "sets_ok (\<lambda>_. None)" by (simp add: sets_ok_def)
  then show "sets_ok (c_sets small_ctx)" unfolding small_ctx_def by (simp add: sets_ok_create)
qed

theorem statement_effects_witness:
  "\<exists>ctx'. execute_statement (memory_env small_db (\<lambda>_. [])) (Item default_set (lit ''A'')) small_ctx = Inr ctx' \<and>
     sets_ok (c_sets ctx') \<and> require_set ctx' default_set = Inr [rel1] \<and>
     require_set small_ctx (lit ''a'') = Inr [way2] \<and> require_set ctx' (lit ''a'') = Inl (unset_error (lit ''a''))"
proof -
  let ?env = "memory_env small_db (\<lambda>_. [])" and ?s = "Item default_set (lit ''A'')"
  obtain c where c: "execute_statement ?env ?s small_ctx = Inr c"
    by (simp add: execute_item_def small_ctx_sets rbind_def)
  then have "c = put_set (lit ''A'') [rel1] 0 [] small_ctx" by (simp add: execute_item_def small_ctx_sets rbind_def)
  then have fresh: "c_fresh c = 0" "c_fresh small_ctx = 0" by (simp_all add: put_set_def small_ctx_def)
  have "fold_name default_set \<notin> fold_name ` writes ?s" by code_simp
  then have free: "fold_name default_set \<notin> fold_name ` (writes ?s \<union> internal_names ?env (c_fresh small_ctx) (c_fresh c))"
    by (simp only: fresh internal_names_same Un_empty_right not_False_eq_True)
  have other: "own_output ?s = Some (lit ''A'') \<and> map lower (lit ''a'') = map lower (lit ''A'') \<and> lit ''a'' \<noteq> lit ''A''" by code_simp
  note effects = statement_effects [THEN conjunct1, THEN mp, OF c]
  have "sets_ok (c_sets c)" using effects small_ctx_sets(3) by iprover
  moreover have "c_sets c (fold_name default_set) = c_sets small_ctx (fold_name default_set)" using effects free by iprover
  then have "require_set c default_set = Inr [rel1]" using small_ctx_sets(1) by (simp only: require_set_iff)
  moreover have "require_set c (lit ''a'') = Inl (unset_error (lit ''a''))" using effects other by iprover
  ultimately show ?thesis using c small_ctx_sets(2) by iprover
qed

text \<open>
  C19. \<open>>>\<close> and \<open><<\<close> end, and where the readers give the rows of a database of at most ten thousand elements, and the input set holds rows
  of it, the output set has exactly one row for each element that is linked to one of the input set by a chain of hops (references and members,
  or parents) and is not in the input set itself; \<open>>>\<close> keeps the relations of the input set as well. Cycles of relations do not matter.
\<close>

theorem recurse_transitive_closure:
  assumes "readers_exact env (c_snapshot ctx) db parents" and "finite (dom db)" and "card (dom db) \<le> 10000"
    and "\<forall>k r. db k = Some r \<longrightarrow> row_key r = k" and "require_set ctx i = Inr rows" and "\<forall>r\<in>set rows. db (row_key r) = Some r"
  shows "\<exists>ctx' out. execute_statement env (Recurse (if forward then RDownDown else RUpUp) i n) ctx = Inr ctx' \<and>
    require_set ctx' n = Inr out \<and> distinct (map row_key out) \<and>
    set out = rows_at db ({k. linked db (succs_of forward parents) (set rows) k} - keys_of rows) \<union>
      (if forward then {r \<in> set rows. is_type ''relation'' r} else {})"
proof -
  let ?found = "rows_at db ({k. linked db (succs_of forward parents) (set rows) k} - keys_of rows) \<union> (if forward then {r \<in> set rows. is_type ''relation'' r} else {})"
  obtain rs f where rs: "recurse_transitive env (c_snapshot ctx) forward rows = Inr (rs, f)" "set rs = ?found"
    using transitive_closure [OF assms(1-3,6), of forward] by (elim exE conjE)
  have "db (row_key r) = Some r" if "r \<in> set rs" for r
  proof -
    from that rs(2) have "r \<in> rows_at db ({k. linked db (succs_of forward parents) (set rows) k} - keys_of rows) \<or> r \<in> set rows" by (simp split: if_splits) blast
    then show ?thesis using assms(4,6) unfolding rows_at_def by (elim disjE CollectE bexE) (metis, metis)
  qed
  then have "inj_on row_key (set rs)" by (metis inj_onI option.inject)
  then have out: "set (first_of_key {} rs) = ?found" using rs(2) first_of_key_inj by metis
  have "execute_statement env (Recurse (if forward then RDownDown else RUpUp) i n) ctx = Inr (put_set n rs f [] ctx)"
    using rs(1) assms(5) by (cases forward) (simp_all add: execute_recurse_def rbind_def)
  moreover have "require_set (put_set n rs f [] ctx) n = Inr (first_of_key {} rs)"
    by (simp add: require_set_iff put_set_def materialize_def create_table_def)
  ultimately show ?thesis using out first_of_key_distinct by (metis (no_types, lifting))
qed

theorem recurse_transitive_closure_witness:
  "\<exists>ctx' out. execute_statement (memory_env small_db (\<lambda>_. [])) (Recurse RDownDown default_set (lit ''a'')) small_ctx = Inr ctx' \<and>
     require_set ctx' (lit ''a'') = Inr out \<and> {rel1, way2, node3} \<subseteq> set out"
proof -
  let ?succs = "succs_of True (\<lambda>k. set (([] :: el_key list)))"
  have readers: "readers_exact (memory_env small_db (\<lambda>_. [])) (c_snapshot small_ctx) small_db (\<lambda>k. set [])" by (rule memory_readers) simp
  have db: "finite (dom small_db)" "card (dom small_db) \<le> 10000"
  proof -
    have dom: "dom small_db = set (map row_key [rel1, way2, node3])" unfolding small_db_def by (simp add: dom_map_of_conv_image_fst)
    show "finite (dom small_db)" unfolding dom by (rule finite_set)
    show "card (dom small_db) \<le> 10000" unfolding dom by (rule le_trans [OF card_length]) simp
  qed
  have keys: "\<forall>k r. small_db k = Some r \<longrightarrow> row_key r = k" unfolding small_db_def by (auto dest!: map_of_SomeD)
  have rows: "small_db (row_key rel1) = Some rel1" "small_db (row_key way2) = Some way2" "small_db (row_key node3) = Some node3" by code_simp+
  have hops: "row_key way2 \<in> children_of rel1" "row_key node3 \<in> children_of way2" by code_simp+
  have apart: "row_key way2 \<notin> keys_of [rel1]" "row_key node3 \<notin> keys_of [rel1]" by code_simp+
  have "linked small_db ?succs {rel1} (row_key way2)" by (rule linked.here [of rel1]) (simp_all add: succs_of_def hops)
  moreover from this have "linked small_db ?succs {rel1} (row_key node3)" by (rule linked.there [where k = "row_key way2" and r = way2]) (simp_all add: succs_of_def hops rows)
  ultimately have found: "way2 \<in> rows_at small_db ({k. linked small_db ?succs {rel1} k} - keys_of [rel1])"
    "node3 \<in> rows_at small_db ({k. linked small_db ?succs {rel1} k} - keys_of [rel1])" unfolding rows_at_def using rows apart by blast+
  have "is_type ''relation'' rel1" by code_simp
  then show ?thesis
    using recurse_transitive_closure [OF readers db keys, of default_set "[rel1]" True "lit ''a''"] rows(1) found
    by (simp add: small_ctx_sets(1)) blast
qed

end
