(* ===== verification/Spec2Isabelle.thy ===== *)
theory Spec2Isabelle
  imports Layout_Properties Query_Properties Evaluator_Properties Storage_Properties Hilbert_Properties
    Server_Properties Update_Properties Engine_Properties Answer_Properties Sources_Properties Planner_Properties
begin

text \<open>
  A verification library for osm-to-parquet (\<^verbatim>\<open>src/src/osmpq\<close>), which stores OpenStreetMap data as
  Parquet files in a tree of cells and answers Overpass QL queries over them.

  \<^bold>\<open>The program.\<close> A build places nodes, ways and relations in the leaf cells of a quadtree and sorts
  them along a Hilbert curve. A numbered manifest lists the files of the dataset; the file
  \<^verbatim>\<open>LATEST\<close> names the current one, and a garbage collector removes what no kept manifest refers to.
  A query is tokenized and parsed to a syntax tree; the engine plans which cells to read from the
  manifest's catalog, compiles filters and expressions to SQL, and writes the elements as JSON, XML
  or CSV. The server limits and cancels running queries. The updater fetches change files from a
  replication server, parses them to tables, and publishes a new manifest.

  \<^bold>\<open>Conventions.\<close> A Python function is a HOL function of the same name (private names without the
  underscore); one that can raise returns \<open>py_error + 'a\<close>. User text is a list of code points;
  names the program makes up are strings. Integers are \<open>int\<close>, and words where numpy computes in 64
  bits; a double is a rational with its rounding written out (\<open>PyFloat\<close>: \<open>fl\<close>, \<open>rne\<close>) or, where
  infinities occur, a \<open>pyfloat\<close> (\<open>PyText\<close>, \<open>PyNum\<close>). A dictionary is an association list, since its
  order matters. Concurrent parts are inductive step relations.

  \<^bold>\<open>The theories\<close>, with the files under \<^verbatim>\<open>src/src/osmpq\<close> they model.

  \<^item> \<open>Prelude\<close>, \<open>PyFloat\<close>, \<open>PyText\<close>, \<open>PyNum\<close>, \<open>PyInt\<close>, \<open>Json\<close>: exceptions and results (\<^verbatim>\<open>errors.py\<close>),
    text, numbers and JSON values with their shared lemmas.
  \<^item> \<open>Cells\<close>, \<open>Cells_Keys\<close>, \<open>Cells_Grid\<close>, \<open>Cells_Leaves\<close>, \<open>Cells_Select\<close>, \<open>Cells_Place\<close>, \<open>Cells_V2\<close>: cell
    geometry and codes, the leaf index, placement (\<^verbatim>\<open>layout/cells.py\<close>) and the selection of leaves
    (\<^verbatim>\<open>build/common.py\<close>). The locale \<open>leaf_set\<close> is what placement relies on of a set of leaves; it is
    interpreted on the leaves that the build selects.
  \<^item> \<open>Catalog\<close>, \<open>Catalog_Correct\<close>, \<open>Layout_Lemmas\<close>: the planner's choice of cells, parts and row groups
    (\<^verbatim>\<open>engine/catalog.py\<close>). \<open>Layout_Properties\<close>, C1 to C3, C5, C6 and C8: every node has exactly one leaf, placement
    agrees with the scalar descent and holds its box, the planner reads the cell of everything in the
    query box that a leaf covers, and pruning is exact; C6 says what is read for a box outside all leaves.
  \<^item> \<open>Lexer\<close>, \<open>Ql_Ast\<close>, \<open>Parser\<close> and \<open>Lexer_Correct\<close>, \<open>Parser_Total\<close>, \<open>Parser_Roundtrip\<close>: the query
    language (\<^verbatim>\<open>ql/lexer.py\<close>, \<^verbatim>\<open>ql/ast.py\<close>, \<^verbatim>\<open>ql/parser.py\<close>). \<open>Query_Properties\<close>, C9, C11 and C12: tokens cover
    the text and errors have its lines and columns, parsing ends with a program or a named error, and it
    inverts printing.
  \<^item> \<open>Evaluator\<close>, \<open>Evalsql\<close> and \<open>Evaluator_Correct\<close>, \<open>Evaluator_Roundtrip\<close>, \<open>Evalsql_Correct\<close>,
    \<open>Evalsql_Errors\<close>: evaluator expressions and their SQL (\<^verbatim>\<open>ql/evaluator.py\<close>, \<^verbatim>\<open>engine/evalsql.py\<close>).
    \<open>Evaluator_Properties\<close>, C14 to C18: typed parsing, round trip, no injection, the errors, exact
    arithmetic on whole numbers with \<open>+\<close>, \<open>-\<close> and \<open>*\<close>.
  \<^item> \<open>Store\<close>, \<open>Manifest\<close>, \<open>Gc\<close>, \<open>Manifest_Correct\<close>, \<open>Gc_Correct\<close>, \<open>Publish\<close>: object stores down to the
    system calls of an atomic write, manifests and collection (\<^verbatim>\<open>store.py\<close>, \<^verbatim>\<open>layout/manifest.py\<close>,
    \<^verbatim>\<open>build/gc.py\<close>). The locale \<open>object_store\<close> has the laws of a store and \<open>manifest_store\<close> extends it with
    what manifests need; both are interpreted on the memory and the local store. A write of the local store
    raises where the file system refuses the name (\<open>write_blocked\<close>); other failures of the system calls, such
    as a full disk, are the interrupted writes of C20 and C22.
    \<open>Storage_Properties\<close>, C20 to C22, C24 and C25: crash safety, atomic publication, and what a collection keeps.
  \<^item> \<open>Hilbert\<close>, \<open>Hilbert_Correct\<close>: Hilbert keys (\<^verbatim>\<open>layout/hilbert.py\<close>, \<^verbatim>\<open>engine/hilbert.py\<close>).
    \<open>Hilbert_Properties\<close>, C26 to C28: bijective, continuous, and equal in all versions of the code
    within the ranges of their integers.
  \<^item> \<open>Server\<close>, \<open>Server_Correct\<close>: slots, the interpreter handler and cancellation (\<^verbatim>\<open>server.py\<close>, and
    \<open>CancelToken\<close> of \<^verbatim>\<open>engine/executor.py\<close>). \<open>Server_Properties\<close>, C30 to C34: the slot table refines a
    multiset, the limits are invariant under every interleaving, an interrupt reaches only queries of
    its address, every request can reach its answer, and the outcome of a request on every path.
  \<^item> \<open>Update_Server\<close>, \<open>Replication\<close>, \<open>Osc\<close>, \<open>Tiers\<close>, \<open>Tiers_Correct\<close>: the update endpoint, the replication
    client, the parser of change files and the rolling tiers (\<^verbatim>\<open>update/server.py\<close>,
    \<^verbatim>\<open>update/replication.py\<close>, \<^verbatim>\<open>update/osc.py\<close>, part of \<^verbatim>\<open>update/updater.py\<close>). The tiers' SQL is given as the
    list operations it stands for. \<open>Update_Properties\<close>, C13 and C35 to C38: the tiers refine one store
    of rows by id, one run at a time, consecutive downloads up to one that the server answers
    with 404, state files read back, and the last occurrence of an id wins.
  \<^item> \<open>Tagsql\<close>, \<open>Result\<close>, \<open>Result_Correct\<close>: the SQL of tag filters, and the XML and CSV of an answer
    (\<^verbatim>\<open>engine/tagsql.py\<close>, part of \<^verbatim>\<open>engine/metafilters.py\<close>, \<^verbatim>\<open>engine/result.py\<close>).
    \<open>Engine_Properties\<close>, C39 and C40: no text of a filter is read as code, and the XML reads back as
    the elements.
  \<^item> \<open>Sources\<close>, \<open>Sources_Correct\<close>: the reading of base files and tiers together, through the cache of tier files
    (part of \<^verbatim>\<open>engine/sources.py\<close>). \<open>Sources_Properties\<close>, C4 and C10, joins it to the updater: after any
    sequence of \<open>write_tiers\<close>, a step relation, a read by ids gives exactly the newest rows, and a read by cells
    gives the current rows of the cells and certain stale ones, which are characterised and shown to occur.
  \<^item> \<open>Render\<close>, \<open>Render_Correct\<close>: the rows of a set as elements, with order, limit, counts, clipping and bounds
    (part of \<^verbatim>\<open>engine/render.py\<close>). \<open>Attic\<close>, \<open>Attic_Correct\<close>: dates, the state of an element at a date, timelines,
    and the actions of \<open>[diff:]\<close> and \<open>[adiff:]\<close> (part of \<^verbatim>\<open>engine/attic.py\<close>, \<^verbatim>\<open>history/schema.py\<close>). \<open>Answer_Properties\<close>, C7 and
    C29: the actions turn the first answer into the second, and which rows the XML of an answer has and when it fails.
  \<^item> \<open>Recurse\<close>, \<open>Recurse_Correct\<close>, \<open>Planner\<close>, \<open>Planner_Correct\<close>: the named sets, the recursion operators and the execution of
    statements and programs (\<^verbatim>\<open>engine/setops.py\<close>, \<^verbatim>\<open>engine/recurse.py\<close>, \<^verbatim>\<open>engine/planner.py\<close>, the loops and conditions of \<^verbatim>\<open>engine/evalfilter.py\<close>,
    the boxes of \<^verbatim>\<open>engine/hooks.py\<close>, \<open>retro\<close> of \<^verbatim>\<open>engine/attic.py\<close>). A set is a table of the connection: it is found by its name folded
    to lower case, as the database does, and keeps the spelling it was written with. The tables that hold the parts of unions, differences and loops are among them. The record \<open>engine_env\<close> holds what reads files:
    the \<open>SELECT\<close> builders, the parents of an element, the filters by geometry and the area statements. \<open>run_diff_pass\<close> is the pass that
    \<open>run_diff_program\<close> runs twice. The locale \<open>run_relation\<close> is what a sequence of steps keeps; it is interpreted on the effects that statements have
    on a context. \<open>Planner_Properties\<close>, C19 and C23: the transitive operators find the closure, and what each statement may change.

  \<^bold>\<open>Fuel and bounds.\<close> The parsers' loops carry the number of tokens left and raise \<open>OutOfFuel\<close> without
  it; C11 and C14 show that they never do. Loops of the tokenizer, the leaf selection, the Hilbert
  curve and the evaluator end by a measure. \<open>dec_exp\<close> has 400 steps for the decimal exponent of a
  double, which is within 324 of zero. \<open>fetch_range\<close> loops at most \<open>max_diffs\<close> times and a request is
  tried as often as the client says. \<open>recurse_transitive\<close> makes at most 10001 hops, as the code does; C19 shows that they are enough for a
  database of ten thousand elements.

  Python's limit on the depth of the recursion is not modelled: a query, an expression or a program nested deeper than about a thousand
  calls ends in a \<open>RecursionError\<close>, where the model goes on.

  \<^bold>\<open>Parameters.\<close> Unicode character classes, DuckDB's answers, the HTTP client, the reader of change
  files (pyosmium), the numbers of temporary tables and the update run itself are arguments. In a proof that needs something of them it
  is a hypothesis, and a witness gives a function for it.

  \<^bold>\<open>Not modelled.\<close> What runs inside DuckDB or writes Parquet through it: the texts of the \<open>SELECT\<close> builders (\<^verbatim>\<open>sources.py\<close>,
  \<^verbatim>\<open>idset.py\<close>, the search for parents in \<^verbatim>\<open>recurse.py\<close>), the reads of
  way geometry and member places in \<^verbatim>\<open>render.py\<close>, geometry (\<^verbatim>\<open>geofilters.py\<close>, both \<^verbatim>\<open>areas.py\<close>), the snapshot reads of
  \<^verbatim>\<open>attic.py\<close> and the build of the history (\<^verbatim>\<open>history/\<close>), the bulk build
  (\<^verbatim>\<open>build/builder.py\<close>, \<^verbatim>\<open>raw.py\<close>, \<^verbatim>\<open>compact.py\<close>, \<^verbatim>\<open>rowgroups.py\<close>, \<^verbatim>\<open>validate.py\<close>) and the
  resolution of an update's rows (the rest of \<^verbatim>\<open>update/updater.py\<close>): their meaning is that of SQL over files. Also the S3 requests of the store,
  the JSON form of an answer, the command line and the scripts in \<^verbatim>\<open>src/tools\<close>.
\<close>

end
